(* ===== verification/Cxx_Prelude.thy ===== *)
theory Cxx_Prelude
  imports Main "HOL-Library.Word"
begin

text \<open>
  The vocabulary shared by every component: machine integers as words, the ways a C++ call can
  fail to produce a value, the character classes of the "C" locale, and the string and number
  conversions of the C and C++ standard libraries that the sources call (\<open>isspace\<close>, \<open>tolower\<close>,
  \<open>strtoull\<close>, \<open>strtoll\<close>, \<open>atoi\<close>, \<open>std::to_string\<close>, \<open>find\<close>, \<open>rfind\<close>). The lemmas at the end are
  the library the component proofs rest on: they are declared \<open>[simp]\<close> or collected in
  \<open>char_class\<close>.
\<close>

named_theorems char_class
  \<comment> \<open>the definitions of the character classes of the C locale\<close>

type_synonym u8 = "8 word"
type_synonym u16 = "16 word"
type_synonym u32 = "32 word"
type_synonym u64 = "64 word"
type_synonym u128 = "128 word"

section \<open>Faults\<close>

text \<open>
  A C++ expression that the language leaves undefined, or a library call that throws out of the
  modelled function, is a value of its own: \<open>Inl\<close> of a \<open>fault\<close>.
  \<open>Shift_overflow\<close> is a shift by at least the width of the promoted operand,
  \<open>Division_by_zero\<close> an integer division or remainder by 0,
  \<open>Atoi_overflow\<close> an \<open>atoi\<close> whose value does not fit an \<open>int\<close>,
  \<open>Length_error\<close> the exception of a \<open>std::string\<close> constructor asked for more than
  \<open>max_size()\<close> characters, and \<open>Int_overflow\<close> a signed \<open>int\<close> result out of range.
\<close>

datatype fault = Shift_overflow | Division_by_zero | Atoi_overflow | Length_error | Int_overflow

type_synonym 'a result = "fault + 'a"

definition rbind :: "'e + 'a \<Rightarrow> ('a \<Rightarrow> 'e + 'b) \<Rightarrow> 'e + 'b" where
  "rbind r f = (case r of Inl e \<Rightarrow> Inl e | Inr x \<Rightarrow> f x)"

definition int_max :: int where "int_max = 2 ^ 31 - 1"
definition int_min :: int where "int_min = - (2 ^ 31)"

section \<open>Characters\<close>

definition is_space :: "char \<Rightarrow> bool" where
  [char_class]: "is_space c \<longleftrightarrow> (of_char c = (32::nat) \<or> (9 \<le> (of_char c :: nat) \<and> (of_char c :: nat) \<le> 13))"

definition is_digit :: "char \<Rightarrow> bool" where
  [char_class]: "is_digit c \<longleftrightarrow> 48 \<le> (of_char c :: nat) \<and> (of_char c :: nat) \<le> 57"

definition is_upper :: "char \<Rightarrow> bool" where
  [char_class]: "is_upper c \<longleftrightarrow> 65 \<le> (of_char c :: nat) \<and> (of_char c :: nat) \<le> 90"

definition is_lower :: "char \<Rightarrow> bool" where
  [char_class]: "is_lower c \<longleftrightarrow> 97 \<le> (of_char c :: nat) \<and> (of_char c :: nat) \<le> 122"

definition is_alpha :: "char \<Rightarrow> bool" where
  [char_class]: "is_alpha c \<longleftrightarrow> is_upper c \<or> is_lower c"

definition is_alnum :: "char \<Rightarrow> bool" where
  [char_class]: "is_alnum c \<longleftrightarrow> is_alpha c \<or> is_digit c"

definition to_lower :: "char \<Rightarrow> char" where
  [char_class]: "to_lower c = (if is_upper c then char_of ((of_char c :: nat) + 32) else c)"

definition lowercase :: "string \<Rightarrow> string" where
  "lowercase s = map to_lower s"

section \<open>Numbers in text\<close>

text \<open>The value of a digit of the given base, for the letters of bases above ten too.\<close>

definition digit_value :: "nat \<Rightarrow> char \<Rightarrow> nat option" where
  "digit_value base c =
     (let d = (if is_digit c then (of_char c :: nat) - 48
               else if is_alpha c then (of_char (to_lower c) :: nat) - 87
               else 99)
      in if d < base then Some d else None)"

fun digits_prefix :: "nat \<Rightarrow> string \<Rightarrow> nat list" where
  "digits_prefix base [] = []"
| "digits_prefix base (c # cs) =
     (case digit_value base c of None \<Rightarrow> [] | Some d \<Rightarrow> d # digits_prefix base cs)"

definition num_of :: "nat \<Rightarrow> nat list \<Rightarrow> nat" where
  "num_of base ds = foldl (\<lambda>a d. a * base + d) 0 ds"

definition strip_sign :: "string \<Rightarrow> bool \<times> string" where
  "strip_sign s =
     (case s of
        [] \<Rightarrow> (False, s)
      | c # r \<Rightarrow> if c = CHR ''-'' then (True, r) else if c = CHR ''+'' then (False, r) else (False, s))"

definition strip_0x :: "string \<Rightarrow> string" where
  "strip_0x s =
     (case s of
        z # x # h # r \<Rightarrow>
          if z = CHR ''0'' \<and> (x = CHR ''x'' \<or> x = CHR ''X'') \<and> digit_value 16 h \<noteq> None
          then h # r else s
      | _ \<Rightarrow> s)"

text \<open>
  \<open>strtoull(s, nullptr, base)\<close>: leading white space, an optional sign, the optional \<open>0x\<close> of
  base 16, the longest run of digits. A value above \<open>ULLONG_MAX\<close> saturates; a minus sign negates
  modulo \<open>2^64\<close>.
\<close>

definition strtoull :: "nat \<Rightarrow> string \<Rightarrow> u64" where
  "strtoull base s =
     (let (neg, r) = strip_sign (dropWhile is_space s);
          n = num_of base (digits_prefix base (if base = 16 then strip_0x r else r))
      in if int n > 2 ^ 64 - 1 then - 1
         else if neg then - word_of_nat n
         else word_of_nat n)"

text \<open>
  \<open>strtoll(s, &end, 10)\<close>: the value clamped to \<open>long long\<close>, the text from \<open>end\<close> on, and whether
  \<open>errno\<close> is \<open>ERANGE\<close>. With no digits the value is 0 and \<open>end\<close> is the start of the text.
\<close>

definition strtoll10 :: "string \<Rightarrow> int \<times> string \<times> bool" where
  "strtoll10 s =
     (let (neg, r) = strip_sign (dropWhile is_space s);
          ds = digits_prefix 10 r;
          v = (if neg then - int (num_of 10 ds) else int (num_of 10 ds))
      in if ds = [] then (0, s, False)
         else if v > 2 ^ 63 - 1 then (2 ^ 63 - 1, drop (length ds) r, True)
         else if v < - (2 ^ 63) then (- (2 ^ 63), drop (length ds) r, True)
         else (v, drop (length ds) r, False))"

definition atoi :: "string \<Rightarrow> int result" where
  "atoi s =
     (case strtoll10 s of (v, _, _) \<Rightarrow>
        if int_min \<le> v \<and> v \<le> int_max then Inr v else Inl Atoi_overflow)"

definition digit_char :: "nat \<Rightarrow> char" where
  "digit_char d = char_of (48 + d)"

fun dec_digits :: "nat \<Rightarrow> string" where
  "dec_digits n = (if n < 10 then [digit_char n] else dec_digits (n div 10) @ [digit_char (n mod 10)])"

declare dec_digits.simps [simp del]

definition to_string_int :: "int \<Rightarrow> string" where
  "to_string_int i = (if i < 0 then CHR ''-'' # dec_digits (nat (- i)) else dec_digits (nat i))"

section \<open>Searching strings\<close>

text \<open>\<open>s.find(c)\<close>: the first position of a character, \<open>None\<close> for \<open>npos\<close>.\<close>

fun str_find :: "char \<Rightarrow> string \<Rightarrow> nat option" where
  "str_find c [] = None"
| "str_find c (d # s) = (if d = c then Some 0 else map_option Suc (str_find c s))"

text \<open>\<open>s.rfind(c)\<close>: the last position of a character, \<open>None\<close> for \<open>npos\<close>.\<close>

fun str_rfind :: "char \<Rightarrow> string \<Rightarrow> nat option" where
  "str_rfind c [] = None"
| "str_rfind c (d # s) =
     (case str_rfind c s of Some i \<Rightarrow> Some (Suc i) | None \<Rightarrow> if d = c then Some 0 else None)"

text \<open>\<open>s.rfind(prefix, 0) == 0\<close>, the sources' idiom for "starts with".\<close>

definition starts_with :: "string \<Rightarrow> string \<Rightarrow> bool" where
  "starts_with p s \<longleftrightarrow> take (length p) s = p"

section \<open>Library lemmas\<close>

lemma rbind_simps [simp]: "rbind (Inl e) f = Inl e" "rbind (Inr x) f = f x"
  by (simp_all add: rbind_def)

lemma of_digit_char [simp]: "d < 208 \<Longrightarrow> of_char (digit_char d) = 48 + d"
  by (simp add: digit_char_def)

lemma is_digit_digit_char [simp]: "d < 10 \<Longrightarrow> is_digit (digit_char d)"
  by (simp add: is_digit_def)

lemma digit_value_digit_char [simp]: "d < 10 \<Longrightarrow> d < base \<Longrightarrow> digit_value base (digit_char d) = Some d"
  by (simp add: digit_value_def)

lemma num_of_Nil [simp]: "num_of base [] = 0"
  by (simp add: num_of_def)

lemma num_of_snoc [simp]: "num_of base (ds @ [d]) = num_of base ds * base + d"
  by (simp add: num_of_def)

lemma digits_prefix_append:
  assumes "\<forall>c \<in> set s. digit_value base c \<noteq> None"
  shows "digits_prefix base (s @ t) = digits_prefix base s @ digits_prefix base t"
  using assms by (induction s) auto

lemma dec_digits_all_digits: "\<forall>c \<in> set (dec_digits n). is_digit c"
proof (induction n rule: dec_digits.induct)
  case (1 n)
  then show ?case by (subst dec_digits.simps) auto
qed

lemma digit_value_is_digit: "is_digit c \<Longrightarrow> digit_value 10 c \<noteq> None"
  by (auto simp: digit_value_def is_digit_def Let_def)

lemma num_of_dec_digits [simp]: "num_of 10 (digits_prefix 10 (dec_digits n)) = n"
proof (induction n rule: dec_digits.induct)
  case (1 n)
  show ?case
  proof (cases "n < 10")
    case True
    then show ?thesis by (subst dec_digits.simps) (simp add: num_of_def)
  next
    case False
    have "\<forall>c \<in> set (dec_digits (n div 10)). digit_value 10 c \<noteq> None"
      using dec_digits_all_digits digit_value_is_digit by blast
    with "1.IH" False show ?thesis
      by (subst dec_digits.simps) (simp add: digits_prefix_append)
  qed
qed

lemma dec_digits_not_Nil [simp]: "dec_digits n \<noteq> []"
  by (subst dec_digits.simps) simp

lemma str_find_Some: "str_find c s = Some i \<Longrightarrow> i < length s \<and> s ! i = c \<and> c \<notin> set (take i s)"
proof (induction s arbitrary: i)
  case (Cons d s)
  then show ?case by (cases i) (auto split: if_splits)
qed simp

lemma str_find_None [simp]: "str_find c s = None \<longleftrightarrow> c \<notin> set s"
  by (induction s) auto

lemma str_rfind_None [simp]: "str_rfind c s = None \<longleftrightarrow> c \<notin> set s"
  by (induction s) (auto split: option.splits)

lemma str_rfind_Some: "str_rfind c s = Some i \<Longrightarrow> i < length s \<and> s ! i = c \<and> c \<notin> set (drop (Suc i) s)"
proof (induction s arbitrary: i)
  case (Cons d s)
  then show ?case by (auto split: option.splits if_splits)
qed simp

lemma str_find_append: "c \<notin> set s \<Longrightarrow> str_find c (s @ c # t) = Some (length s)"
  by (induction s) auto

lemma is_digit_not_space [simp]: "is_digit c \<Longrightarrow> \<not> is_space c"
  by (auto simp: char_class)

lemma to_lower_digit [simp]: "is_digit c \<Longrightarrow> to_lower c = c"
  by (auto simp: char_class)

lemma strtoull_dec_digits:
  assumes "n < 2 ^ 64"
  shows "strtoull 10 (dec_digits n) = word_of_nat n"
proof -
  obtain c cs where e: "dec_digits n = c # cs" by (cases "dec_digits n") auto
  then have c: "is_digit c" using dec_digits_all_digits [of n] by simp
  then have "\<not> is_space c" "c \<noteq> CHR ''-''" "c \<noteq> CHR ''+''" by (auto simp: char_class)
  with e have "strip_sign (dropWhile is_space (dec_digits n)) = (False, dec_digits n)"
    by (simp add: strip_sign_def)
  with assms show ?thesis by (simp add: strtoull_def)
qed

lemma remdups_adj_increasing: "sorted (xs :: 'a::linorder list) \<Longrightarrow> sorted_wrt (<) (remdups_adj xs)"
proof (induction xs rule: remdups_adj.induct)
  case (3 x y xs)
  then show ?case by (auto simp: order_le_less)
qed simp_all

lemma sint_cases:
  fixes w :: "'a::len word"
  shows "uint w < 2 ^ (LENGTH('a) - 1) \<Longrightarrow> sint w = uint w"
    and "2 ^ (LENGTH('a) - 1) \<le> uint w \<Longrightarrow> sint w = uint w - 2 ^ LENGTH('a)"
proof -
  let ?n = "LENGTH('a) - 1"
  have n: "Suc ?n = LENGTH('a)" by simp
  have p: "(2 :: int) ^ LENGTH('a) = 2 * 2 ^ ?n" by (metis n power_Suc)
  have b: "0 \<le> uint w" "uint w < 2 ^ LENGTH('a)" by simp_all
  have s: "sint w = (uint w + 2 ^ ?n) mod 2 ^ LENGTH('a) - 2 ^ ?n"
    by (simp add: sint_uint signed_take_bit_eq_take_bit_shift take_bit_eq_mod)
  show "uint w < 2 ^ ?n \<Longrightarrow> sint w = uint w" using s b p by (simp add: mod_pos_pos_trivial)
  assume "2 ^ ?n \<le> uint w"
  then have "(uint w + 2 ^ ?n - 2 ^ LENGTH('a)) mod 2 ^ LENGTH('a) = uint w + 2 ^ ?n - 2 ^ LENGTH('a)"
    using b p by (intro mod_pos_pos_trivial) simp_all
  moreover have "(uint w + 2 ^ ?n) mod 2 ^ LENGTH('a) = (uint w + 2 ^ ?n - 2 ^ LENGTH('a)) mod 2 ^ LENGTH('a)"
    by (simp only: minus_mod_self2)
  ultimately show "sint w = uint w - 2 ^ LENGTH('a)" using s by simp
qed
lemma sint_nonneg_iff: "0 \<le> sint w \<longleftrightarrow> uint w < 2 ^ (LENGTH('a) - 1)" for w :: "'a::len word"
proof -
  have b: "0 \<le> uint w" "uint w < 2 ^ LENGTH('a)" by simp_all
  show ?thesis
  proof (cases "uint w < 2 ^ (LENGTH('a) - 1)")
    case True
    with sint_cases(1) [of w] b show ?thesis by simp
  next
    case False
    with sint_cases(2) [of w] b show ?thesis by linarith
  qed
qed

lemma unat_plus_one:
  fixes w :: "'a::len word"
  assumes "unat w + 1 < 2 ^ LENGTH('a)"
  shows "unat (w + 1) = Suc (unat w)"
proof -
  have "w + 1 \<noteq> 0"
  proof
    assume "w + 1 = 0"
    then have "w = - 1" by (metis add_eq_0_iff2)
    then have "unat w = 2 ^ LENGTH('a) - 1" by (simp add: unsigned_minus_1_eq_mask mask_eq_exp_minus_1)
    with assms show False by simp
  qed
  then show ?thesis by (simp add: unatSuc add.commute)
qed

lemma split_sep_inject:
  "c \<notin> set s \<Longrightarrow> c \<notin> set s' \<Longrightarrow> s @ c # t = s' @ c # t' \<longleftrightarrow> s = s' \<and> t = t'"
proof (induction s arbitrary: s')
  case Nil
  then show ?case by (cases s') auto
next
  case (Cons d s)
  then show ?case by (cases s') auto
qed

lemma dec_digits_inject: "dec_digits m = dec_digits n \<longleftrightarrow> m = n"
  by (metis num_of_dec_digits)

lemma digit_not_sep: "c \<in> set (dec_digits n) \<Longrightarrow> c \<noteq> CHR ''-'' \<and> c \<noteq> CHR '':''"
  using dec_digits_all_digits [of n] by (auto simp: char_class)

lemma to_string_int_inject [simp]: "to_string_int i = to_string_int j \<longleftrightarrow> i = j"
proof -
  have "dec_digits m \<noteq> CHR ''-'' # s" for m s
    using digit_not_sep [of "CHR ''-''" m] by (metis list.set_intros(1))
  then show ?thesis
    by (auto simp: to_string_int_def dec_digits_inject nat_eq_iff dest: sym)
qed

lemma to_string_int_no_colon: "CHR '':'' \<notin> set (to_string_int i)"
  by (auto simp: to_string_int_def dest: digit_not_sep)


section \<open>Binary search\<close>

text \<open>
  The loop of \<open>std::upper_bound\<close> on the positions \<open>first .. first + len - 1\<close>: \<open>gt i\<close> says that the element at
  position \<open>i\<close> is greater than the key.
\<close>

function upper_bound_loop :: "(nat \<Rightarrow> bool) \<Rightarrow> nat \<Rightarrow> nat \<Rightarrow> nat" where
  "upper_bound_loop gt first len =
     (if len = 0 then first
      else let half = len div 2
           in if gt (first + half) then upper_bound_loop gt first half
              else upper_bound_loop gt (first + half + 1) (len - half - 1))"
  by pat_completeness auto
termination
  by (relation "measure (\<lambda>(_, _, len). len)") auto

declare upper_bound_loop.simps [simp del]

definition upper_bound :: "('a \<Rightarrow> bool) \<Rightarrow> 'a list \<Rightarrow> nat" where
  "upper_bound gt xs = upper_bound_loop (\<lambda>i. gt (xs ! i)) 0 (length xs)"

lemma upper_bound_loop_partition:
  assumes "\<And>i. first \<le> i \<Longrightarrow> i < first + len \<Longrightarrow> gt i \<longleftrightarrow> k \<le> i" "first \<le> k" "k \<le> first + len"
  shows "upper_bound_loop gt first len = k"
  using assms
proof (induction gt first len rule: upper_bound_loop.induct)
  case (1 gt first len)
  show ?case
  proof (cases "len = 0")
    case False
    let ?h = "len div 2"
    have h: "?h < len" using False by simp
    show ?thesis
    proof (cases "gt (first + ?h)")
      case True
      with h "1.prems" have "k \<le> first + ?h" by (metis le_add1 nat_add_left_cancel_less)
      then show ?thesis
        using "1.IH"(1) [OF False refl True] "1.prems" h False True
        by (subst upper_bound_loop.simps) (simp add: Let_def)
    next
      case ngt: False
      with h "1.prems" have "first + ?h < k" by (metis le_add1 nat_add_left_cancel_less not_le)
      then show ?thesis
        using "1.IH"(2) [OF False refl ngt] "1.prems" h False ngt
        by (subst upper_bound_loop.simps) (simp add: Let_def)
    qed
  qed (use 1 in \<open>simp add: upper_bound_loop.simps\<close>)
qed

lemma upper_bound_partition:
  assumes "\<And>i. i < length xs \<Longrightarrow> gt (xs ! i) \<longleftrightarrow> k \<le> i" "k \<le> length xs"
  shows "upper_bound gt xs = k"
  unfolding upper_bound_def by (rule upper_bound_loop_partition) (use assms in auto)

lemma sorted_filter_le_length:
  fixes t :: "'a::linorder"
  assumes "sorted xs"
  shows "filter (\<lambda>x. x \<le> t) xs = take (length (filter (\<lambda>x. x \<le> t) xs)) xs"
    and "i < length xs \<Longrightarrow> t < xs ! i \<longleftrightarrow> length (filter (\<lambda>x. x \<le> t) xs) \<le> i"
  using assms
proof (induction xs arbitrary: i)
  case (Cons x xs)
  { case 1
    show ?case
    proof (cases "x \<le> t")
      case False
      with 1 have "filter (\<lambda>x. x \<le> t) xs = []" by (auto simp: filter_empty_conv)
      with False show ?thesis by simp
    qed (use 1 Cons in auto) }
  { case 2
    show ?case
    proof (cases "x \<le> t")
      case True
      with 2 Cons show ?thesis by (cases i) auto
    next
      case False
      with 2 have "filter (\<lambda>x. x \<le> t) xs = []" by (auto simp: filter_empty_conv)
      moreover have "t < (x # xs) ! i"
        using False 2 by (cases i) (auto dest!: nth_mem intro: less_le_trans)
      ultimately show ?thesis using False by simp
    qed }
qed simp_all

lemma upper_bound_sorted:
  fixes t :: "'a::linorder"
  assumes "sorted xs"
  shows "upper_bound (\<lambda>x. t < x) xs = length (filter (\<lambda>x. x \<le> t) xs)"
  by (rule upper_bound_partition) (simp_all add: sorted_filter_le_length(2) [OF assms])

lemma append_separated: "c \<notin> set xs \<Longrightarrow> c \<notin> set ys \<Longrightarrow> xs @ c # f = ys @ c # g \<longleftrightarrow> xs = ys \<and> f = g"
proof (induction xs arbitrary: ys)
  case (Cons x xs)
  then show ?case by (cases ys) auto
qed (auto simp: Cons_eq_append_conv)

end
