(* ===== verification/Json_Value.thy ===== *)
theory Json_Value
  imports Cxx_Prelude
begin

text \<open>
  The JSON values the sources build and inspect with \<open>nlohmann::json\<close>. The library keeps integers
  that were parsed or built as unsigned apart from the signed ones (\<open>is_number_unsigned\<close> against
  \<open>is_number_integer\<close>), so they are two constructors here; a floating-point number is kept as its
  text, because no modelled code computes with one. An object is the list of its members; the
  sources read members by name only, so the order of the list is not observable, and keys are
  distinct in every object the library builds.
\<close>

datatype json =
    JNull
  | JBool bool
  | JUnsigned nat
  | JInteger int
  | JFloat string
  | JString string
  | JArray "json list"
  | JObject "(string \<times> json) list"

type_synonym members = "(string \<times> json) list"

fun is_object :: "json \<Rightarrow> bool" where
  "is_object (JObject ms) = True"
| "is_object _ = False"

fun is_array :: "json \<Rightarrow> bool" where
  "is_array (JArray xs) = True"
| "is_array _ = False"

fun is_string :: "json \<Rightarrow> bool" where
  "is_string (JString s) = True"
| "is_string _ = False"

fun is_number_unsigned :: "json \<Rightarrow> bool" where
  "is_number_unsigned (JUnsigned n) = True"
| "is_number_unsigned _ = False"

fun is_number_integer :: "json \<Rightarrow> bool" where
  "is_number_integer (JUnsigned n) = True"
| "is_number_integer (JInteger i) = True"
| "is_number_integer _ = False"

text \<open>\<open>value.size()\<close>: members of an object, elements of an array, 1 for a scalar, 0 for null.\<close>

fun json_size :: "json \<Rightarrow> nat" where
  "json_size (JObject ms) = length ms"
| "json_size (JArray xs) = length xs"
| "json_size JNull = 0"
| "json_size _ = 1"

text \<open>\<open>value[key]\<close> and \<open>value.contains(key)\<close> on an object.\<close>

fun json_get :: "json \<Rightarrow> string \<Rightarrow> json option" where
  "json_get (JObject ms) k = map_of ms k"
| "json_get _ k = None"

definition json_contains :: "json \<Rightarrow> string \<Rightarrow> bool" where
  "json_contains v k \<longleftrightarrow> json_get v k \<noteq> None"

text \<open>\<open>object[key] = v\<close>: replaces the member or adds it.\<close>

fun member_set :: "members \<Rightarrow> string \<Rightarrow> json \<Rightarrow> members" where
  "member_set [] k v = [(k, v)]"
| "member_set ((k', v') # ms) k v = (if k' = k then (k, v) # ms else (k', v') # member_set ms k v)"

lemma map_of_member_set [simp]: "map_of (member_set ms k v) = (map_of ms)(k \<mapsto> v)"
  by (induction ms) (auto simp: fun_eq_iff)

lemma keys_member_set: "fst ` set (member_set ms k v) = insert k (fst ` set ms)"
  by (induction ms k v rule: member_set.induct) (simp_all add: insert_commute)

lemma distinct_member_set [simp]:
  "distinct (map fst (member_set ms k v)) \<longleftrightarrow> distinct (map fst ms)"
proof (induction ms)
  case (Cons m ms)
  then show ?case
    using keys_member_set [of ms k v] by (cases m) auto
qed simp

end
