(* ===== verification/Logic_Value.thy ===== *)
theory Logic_Value
  imports Cxx_Prelude Json_Value
begin

unbundle bit_operations_syntax

text \<open>
  The four-state value type of \<open>core/value/logic_value.{h,cpp}\<close>: a most-significant-first string of
  bit characters with its declared width and the summary flags \<open>known\<close>, \<open>has_x\<close>, \<open>has_z\<close>; its
  constructors from bit strings, integers and SystemVerilog literals; its renderers. Widths are
  the source's \<open>int\<close>. The lemmas show what the flags mean, that the renderers and the literal
  parser are inverse to each other, and where 64-bit and 128-bit arithmetic loses information.
\<close>

section \<open>Data\<close>

datatype value_render_format = Hex | Bin | Dec

record logic_value =
  lv_bits :: string
  lv_width :: int
  lv_known :: bool
  lv_has_x :: bool
  lv_has_z :: bool

definition logic_value_init :: logic_value where
  "logic_value_init = \<lparr>lv_bits = [], lv_width = 0, lv_known = True, lv_has_x = False, lv_has_z = False\<rparr>"

definition lv_ok :: "logic_value \<Rightarrow> bool" where
  "lv_ok v \<longleftrightarrow> lv_known v \<and> lv_bits v \<noteq> []"

section \<open>Construction\<close>

definition scan_bit :: "char \<Rightarrow> logic_value \<Rightarrow> logic_value" where
  "scan_bit c v =
     (if c \<in> {CHR ''x'', CHR ''X'', CHR ''h'', CHR ''u'', CHR ''w'', CHR ''-''}
      then v\<lparr>lv_known := False, lv_has_x := True\<rparr>
      else if c \<in> {CHR ''z'', CHR ''Z'', CHR ''l''}
      then v\<lparr>lv_known := False, lv_has_z := True\<rparr>
      else if c \<noteq> CHR ''0'' \<and> c \<noteq> CHR ''1''
      then v\<lparr>lv_known := False, lv_has_x := True\<rparr>
      else v)"

text \<open>
  The number of bits is cast to \<open>int\<close>; it is the length itself here, as for every text of fewer than \<open>2^31\<close> characters.
\<close>

definition logic_value_from_bits :: "string \<Rightarrow> int \<Rightarrow> logic_value" where
  "logic_value_from_bits bits width =
     (let v = fold scan_bit bits (logic_value_init\<lparr>lv_width := width, lv_bits := bits\<rparr>)
      in if lv_width v = 0 \<and> bits \<noteq> [] then v\<lparr>lv_width := int (length bits)\<rparr> else v)"

definition bit_char :: "bool \<Rightarrow> char" where
  "bit_char b = (if b then CHR ''1'' else CHR ''0'')"

text \<open>
  \<open>(value >> i) & 1\<close> for \<open>i\<close> from \<open>w - 1\<close> down to 0. C++ leaves a shift of a 64-bit operand by 64
  or more undefined, so a width above 64 is a fault.
\<close>

definition logic_value_from_u64 :: "u64 \<Rightarrow> int \<Rightarrow> logic_value result" where
  "logic_value_from_u64 value width =
     (let w = (if width > 0 then width else 64)
      in if w > 64 then Inl Shift_overflow
         else Inr (logic_value_init\<lparr>lv_width := width,
                lv_bits := map (\<lambda>i. bit_char (drop_bit i value AND 1 \<noteq> 0)) (rev [0..<nat w])\<rparr>))"

section \<open>Rendering\<close>

definition nibble_to_hex :: "string \<Rightarrow> string" where
  "nibble_to_hex nib =
     (if (\<exists>c \<in> set nib. c \<in> {CHR ''x'', CHR ''h'', CHR ''u'', CHR ''w'', CHR ''-''}) then ''x''
      else if (\<exists>c \<in> set nib. c \<in> {CHR ''z'', CHR ''l''}) then ''z''
      else let v = foldl (\<lambda>v c. push_bit 1 v OR (if c = CHR ''1'' then 1 else 0)) (0 :: u32) nib
           in [''0123456789abcdef'' ! unat (v AND 15)])"

fun hex_groups :: "nat \<Rightarrow> string \<Rightarrow> string" where
  "hex_groups nib s =
     (if s = [] \<or> nib = 0 then []
      else nibble_to_hex (take nib s) @ hex_groups 4 (drop nib s))"

declare hex_groups.simps [simp del]

text \<open>
  The loop over an \<open>unsigned __int128\<close>: the accumulator wraps at 128 bits. The digit loop stops
  because the accumulator shrinks.
\<close>

definition bits_value_u128 :: "string \<Rightarrow> u128" where
  "bits_value_u128 bits = foldl (\<lambda>acc c. acc * 2 + (if c = CHR ''1'' then 1 else 0)) 0 bits"

function u128_digits :: "u128 \<Rightarrow> string \<Rightarrow> string" where
  "u128_digits acc s =
     (if acc > 0 then u128_digits (acc div 10) (char_of (48 + unat (acc mod 10)) # s) else s)"
  by pat_completeness auto
termination
  by (relation "measure (unat \<circ> fst)")
    (auto simp: unat_div word_less_nat_alt intro: div_less_dividend)

declare u128_digits.simps [simp del]

definition bits_to_decimal :: "string \<Rightarrow> string" where
  "bits_to_decimal bits =
     (let acc = bits_value_u128 bits in if acc = 0 then ''0'' else u128_digits acc [])"

definition pad_front :: "nat \<Rightarrow> char \<Rightarrow> string \<Rightarrow> string" where
  "pad_front w c s = replicate (w - length s) c @ s"

definition last_n :: "nat \<Rightarrow> string \<Rightarrow> string" where
  "last_n n s = drop (length s - n) s"

definition width_prefix :: "logic_value \<Rightarrow> string" where
  "width_prefix v = (if lv_width v > 0 then to_string_int (lv_width v) else [])"

definition sv_literal :: "logic_value \<Rightarrow> char \<Rightarrow> string" where
  "sv_literal v radix =
     (let r = width_prefix v @ [CHR 0x27, radix]
      in if radix = CHR ''h'' \<or> radix = CHR ''H'' then
           (let w = (if lv_width v > 0 then nat (lv_width v) else length (lv_bits v));
                padded = pad_front w (CHR ''0'') (lv_bits v);
                padded = (if length padded > w then last_n w padded else padded);
                first = (if w mod 4 = 0 then 4 else w mod 4)
            in r @ hex_groups first padded)
         else if radix = CHR ''b'' \<or> radix = CHR ''B'' then r @ lv_bits v
         else if lv_known v \<and> lv_bits v \<noteq> [] then r @ bits_to_decimal (lv_bits v)
         else width_prefix v @ CHR 0x27 # ''bx'')"

definition render_logic_value :: "logic_value \<Rightarrow> value_render_format \<Rightarrow> string" where
  "render_logic_value v fmt =
     (case fmt of
        Bin \<Rightarrow> sv_literal v (CHR ''b'')
      | Dec \<Rightarrow> if lv_known v \<and> lv_bits v \<noteq> [] then sv_literal v (CHR ''d'')
               else sv_literal v (CHR ''b'')
      | Hex \<Rightarrow> sv_literal v (CHR ''h''))"

definition logic_value_json :: "logic_value \<Rightarrow> value_render_format \<Rightarrow> json" where
  "logic_value_json v fmt =
     (let out =
            (if fmt = Bin then [(''value'', JString (sv_literal v (CHR ''b'')))]
             else if fmt = Dec \<and> lv_known v \<and> lv_bits v \<noteq> []
             then [(''value'', JString (sv_literal v (CHR ''d'')))]
             else let out = [(''value'', JString (sv_literal v (CHR ''h'')))]
                  in if fmt = Dec \<and> \<not> lv_known v
                     then member_set (member_set (member_set (member_set out
                            ''requested_value_format'' (JString ''dec''))
                            ''effective_value_format'' (JString ''bin''))
                            ''value_format_reason'' (JString ''decimal cannot preserve per-bit X/Z''))
                            ''value'' (JString (sv_literal v (CHR ''b'')))
                     else out);
          out = member_set out ''known'' (JBool (lv_known v));
          out = (if lv_width v > 0 then member_set out ''width'' (JInteger (lv_width v)) else out);
          out = (if lv_bits v \<noteq> [] then member_set out ''bits'' (JString (lv_bits v)) else out)
      in JObject
           (if \<not> lv_known v
            then member_set (member_set out ''has_x'' (JBool (lv_has_x v))) ''has_z'' (JBool (lv_has_z v))
            else out))"

definition parse_value_render_format :: "string \<Rightarrow> value_render_format option" where
  "parse_value_render_format text =
     (let t = lowercase text
      in if t = ''hex'' \<or> t = ''h'' then Some Hex
         else if t = ''bin'' \<or> t = ''b'' then Some Bin
         else if t = ''dec'' \<or> t = ''d'' then Some Dec
         else None)"

section \<open>Parsing SystemVerilog literals\<close>

definition valid_digit :: "char \<Rightarrow> char \<Rightarrow> bool" where
  "valid_digit base c =
     (if base = CHR ''b'' then c \<in> {CHR ''0'', CHR ''1'', CHR ''x'', CHR ''z''}
      else if base = CHR ''h''
      then is_digit c \<or> (97 \<le> (of_char c :: nat) \<and> (of_char c :: nat) \<le> 102) \<or> c = CHR ''x'' \<or> c = CHR ''z''
      else if base = CHR ''o'' then 48 \<le> (of_char c :: nat) \<and> (of_char c :: nat) \<le> 55
      else is_digit c)"

definition nibble_of :: "char \<Rightarrow> nat" where
  "nibble_of c = (if 97 \<le> (of_char c :: nat) then of_char c - 97 + 10 else of_char c - 48)"

text \<open>\<open>n\<close> bits of a small number, most significant first.\<close>

definition small_bits :: "nat \<Rightarrow> nat \<Rightarrow> string" where
  "small_bits n v = map (\<lambda>i. bit_char (odd (v div 2 ^ i))) (rev [0..<n])"

definition hex_digit_bits :: "char \<Rightarrow> string" where
  "hex_digit_bits c =
     (if c = CHR ''x'' \<or> c = CHR ''z'' then replicate 4 c else small_bits 4 (nibble_of c))"

definition oct_digit_bits :: "char \<Rightarrow> string" where
  "oct_digit_bits c = small_bits 3 (of_char c - 48)"

definition digits_unknown :: "string \<Rightarrow> bool" where
  "digits_unknown digits \<longleftrightarrow> (\<exists>c \<in> set digits. c = CHR ''x'' \<or> c = CHR ''z'')"

definition fit_width :: "int \<Rightarrow> bool \<Rightarrow> string \<Rightarrow> string" where
  "fit_width width unknown bits =
     (if width > 0
      then if int (length bits) > width then last_n (nat width) bits
           else pad_front (nat width) (if unknown then CHR ''x'' else CHR ''0'') bits
      else bits)"

text \<open>The literal after its tick has been found at position \<open>tick\<close>; \<open>Inr None\<close> is a rejected literal.\<close>

definition parse_based_literal :: "string \<Rightarrow> nat \<Rightarrow> logic_value option result" where
  "parse_based_literal clean tick =
     (let wstr = take tick clean
      in if \<not> (\<forall>c \<in> set wstr. is_digit c) then Inr None
         else rbind (if wstr = [] then Inr 0 else atoi wstr) (\<lambda>width.
           if tick + 1 \<ge> length clean then Inr None
           else let base = clean ! (tick + 1); digits = drop (tick + 2) clean
           in if digits = [] then Inr None
              else if base \<notin> {CHR ''h'', CHR ''b'', CHR ''d'', CHR ''o''} then Inr None
              else if \<not> (\<forall>c \<in> set digits. valid_digit base c) then Inr None
              else if base = CHR ''d''
              then rbind (logic_value_from_u64 (strtoull 10 digits) width) (\<lambda>v. Inr (Some v))
              else let bits = (if base = CHR ''b'' then digits
                               else if base = CHR ''h'' then concat (map hex_digit_bits digits)
                               else concat (map oct_digit_bits digits))
                   in Inr (Some (logic_value_from_bits
                            (fit_width width (digits_unknown digits) bits) width))))"

definition parse_sv_literal :: "string \<Rightarrow> logic_value option result" where
  "parse_sv_literal text =
     (let clean = filter (\<lambda>c. c \<noteq> CHR ''_'') (lowercase text)
      in if clean = [] then Inr None
         else case str_find (CHR 0x27) clean of
           Some tick \<Rightarrow> parse_based_literal clean tick
         | None \<Rightarrow>
             if length clean > 2 \<and> clean ! 0 = CHR ''0'' \<and> clean ! 1 = CHR ''x''
             then rbind (logic_value_from_u64 (strtoull 16 (drop 2 clean)) 0) (\<lambda>v. Inr (Some v))
             else if (\<forall>c \<in> set clean. is_digit c)
             then rbind (logic_value_from_u64 (strtoull 10 clean) 0) (\<lambda>v. Inr (Some v))
             else if (\<forall>c \<in> set clean. c \<in> {CHR ''0'', CHR ''1'', CHR ''x'', CHR ''z''})
             then Inr (Some (logic_value_from_bits clean (int (length clean))))
             else Inr None)"

section \<open>What a bit string denotes\<close>

text \<open>The unsigned value a bit string denotes.\<close>

definition bits_nat :: "string \<Rightarrow> nat" where
  "bits_nat bits = foldl (\<lambda>a c. 2 * a + (if c = CHR ''1'' then 1 else 0)) 0 bits"

definition two_state :: "string \<Rightarrow> bool" where
  "two_state bits \<longleftrightarrow> set bits \<subseteq> {CHR ''0'', CHR ''1''}"

definition four_state :: "string \<Rightarrow> bool" where
  "four_state bits \<longleftrightarrow> set bits \<subseteq> {CHR ''0'', CHR ''1'', CHR ''x'', CHR ''z''}"

lemma bits_nat_Nil [simp]: "bits_nat [] = 0"
  by (simp add: bits_nat_def)

lemma bits_nat_snoc [simp]: "bits_nat (b @ [c]) = 2 * bits_nat b + (if c = CHR ''1'' then 1 else 0)"
  by (simp add: bits_nat_def)

lemma bits_nat_append: "bits_nat (a @ b) = bits_nat a * 2 ^ length b + bits_nat b"
proof (induction b rule: rev_induct)
  case (snoc c b)
  then show ?case by (simp flip: append_assoc)
qed simp

lemma bits_nat_less: "bits_nat b < 2 ^ length b"
proof (induction b rule: rev_induct)
  case (snoc c b)
  then show ?case by simp
qed simp

lemma bits_nat_Cons: "bits_nat (c # b) = (if c = CHR ''1'' then 2 ^ length b else 0) + bits_nat b"
  using bits_nat_append [of "[c]" b] by (simp add: bits_nat_def)

lemma bits_nat_inject:
  assumes "two_state a" "two_state b" "length a = length b" "bits_nat a = bits_nat b"
  shows "a = b"
  using assms(3,1,2,4)
proof (induction a b rule: list_induct2)
  case (Cons x a y b)
  have "bits_nat a < 2 ^ length b" "bits_nat b < 2 ^ length b"
    using bits_nat_less [of a] bits_nat_less [of b] Cons.hyps by simp_all
  with Cons show ?case
    by (auto simp: bits_nat_Cons two_state_def split: if_splits)
qed simp

lemma scan_bits_fields [simp]:
  "lv_bits (fold scan_bit b v) = lv_bits v" "lv_width (fold scan_bit b v) = lv_width v"
  by (induction b arbitrary: v) (auto simp: scan_bit_def)

lemma scan_bits_known:
  "lv_known (fold scan_bit b v) \<longleftrightarrow> lv_known v \<and> two_state b"
  by (induction b arbitrary: v) (auto simp: scan_bit_def two_state_def)

lemma scan_bits_has_z:
  "lv_has_z (fold scan_bit b v) \<longleftrightarrow> lv_has_z v \<or> set b \<inter> {CHR ''z'', CHR ''Z'', CHR ''l''} \<noteq> {}"
  by (induction b arbitrary: v) (auto simp: scan_bit_def)

lemma scan_bits_has_x:
  "lv_has_x (fold scan_bit b v) \<longleftrightarrow>
     lv_has_x v \<or> \<not> set b \<subseteq> {CHR ''0'', CHR ''1'', CHR ''z'', CHR ''Z'', CHR ''l''}"
  by (induction b arbitrary: v) (auto simp: scan_bit_def)

lemma from_bits_fields [simp]:
  "lv_bits (logic_value_from_bits b w) = b"
  "lv_width (logic_value_from_bits b w) = (if w = 0 then int (length b) else w)"
  by (auto simp: logic_value_from_bits_def Let_def)

lemma logic_value_from_bits_flags:
  "lv_known (logic_value_from_bits b w) = two_state b"
  "lv_has_z (logic_value_from_bits b w) = (set b \<inter> {CHR ''z'', CHR ''Z'', CHR ''l''} \<noteq> {})"
  "lv_has_x (logic_value_from_bits b w) = (\<not> set b \<subseteq> {CHR ''0'', CHR ''1'', CHR ''z'', CHR ''Z'', CHR ''l''})"
  by (simp_all add: logic_value_from_bits_def Let_def scan_bits_known scan_bits_has_z scan_bits_has_x
      logic_value_init_def)

lemma known_iff_no_xz:
  "lv_known (logic_value_from_bits b w) \<longleftrightarrow>
     \<not> lv_has_x (logic_value_from_bits b w) \<and> \<not> lv_has_z (logic_value_from_bits b w)"
  by (auto simp: logic_value_from_bits_flags two_state_def)

lemma bit_char_simps [simp]: "bit_char b = CHR ''1'' \<longleftrightarrow> b" "bit_char b \<in> {CHR ''0'', CHR ''1''}"
  by (simp_all add: bit_char_def)

lemma bits_nat_rev_upt: "bits_nat (map (\<lambda>i. bit_char (P i)) (rev [0..<n])) = (\<Sum>i<n. if P i then 2 ^ i else 0)"
  by (induction n) (simp_all add: bits_nat_Cons)

lemma bits_nat_of_nat_bits: "bits_nat (map (\<lambda>i. bit_char (bit (v::nat) i)) (rev [0..<n])) = v mod 2 ^ n"
proof -
  have "(\<Sum>i<n. if bit v i then 2 ^ i else 0) = v mod 2 ^ n"
  proof (induction n)
    case (Suc n)
    have "v mod 2 ^ Suc n = v mod 2 ^ n + 2 ^ n * (v div 2 ^ n mod 2)"
      using mod_mult2_eq [of v "2 ^ n" 2] by (simp add: mult.commute)
    with Suc show ?case
      by (simp add: bit_iff_odd odd_iff_mod_2_eq_one)
  qed simp
  then show ?thesis by (simp add: bits_nat_rev_upt)
qed

lemma small_bits_alt: "small_bits n v = map (\<lambda>i. bit_char (bit v i)) (rev [0..<n])"
  by (simp add: small_bits_def bit_iff_odd)

lemma bits_nat_small_bits [simp]: "bits_nat (small_bits n v) = v mod 2 ^ n"
  by (simp add: small_bits_alt bits_nat_of_nat_bits)

lemma length_small_bits [simp]: "length (small_bits n v) = n"
  by (simp add: small_bits_def)

lemma two_state_small_bits [simp]: "two_state (small_bits n v)"
  by (auto simp: small_bits_def two_state_def bit_char_def)

lemma small_bits_bits_nat [simp]: "two_state b \<Longrightarrow> small_bits (length b) (bits_nat b) = b"
  by (rule bits_nat_inject) (simp_all add: bits_nat_less)

lemma from_u64_eq:
  "logic_value_from_u64 v w =
     (if w > 64 then Inl Shift_overflow
      else Inr (logic_value_init\<lparr>lv_width := w, lv_bits := small_bits (if w > 0 then nat w else 64) (unat v)\<rparr>))"
proof -
  have "(drop_bit i v AND 1 \<noteq> 0) = bit (unat v) i" for i
    by (simp add: and_one_eq mod_2_eq_odd bit_unsigned_iff flip: bit_iff_odd_drop_bit)
  then show ?thesis
    by (auto simp: logic_value_from_u64_def small_bits_alt Let_def)
qed

section \<open>Rendering and parsing are inverse\<close>

lemma plain_digit: "is_digit c \<Longrightarrow> c \<noteq> CHR ''_'' \<and> c \<noteq> CHR 0x27 \<and> to_lower c = c"
  by (auto simp: char_class)

lemma atoi_dec_digits: "int n \<le> int_max \<Longrightarrow> atoi (dec_digits n) = Inr (int n)"
proof -
  assume n: "int n \<le> int_max"
  obtain c cs where e: "dec_digits n = c # cs" by (cases "dec_digits n") auto
  then have c: "is_digit c" using dec_digits_all_digits [of n] by simp
  then have "\<not> is_space c" "c \<noteq> CHR ''-''" "c \<noteq> CHR ''+''" by (auto simp: char_class)
  with e have s: "strip_sign (dropWhile is_space (dec_digits n)) = (False, dec_digits n)"
    by (simp add: strip_sign_def)
  have "digits_prefix 10 (dec_digits n) \<noteq> []"
    using e c digit_value_is_digit [of c] by (auto split: option.splits)
  with s n show ?thesis
    by (simp add: atoi_def strtoll10_def int_max_def int_min_def)
qed

definition plain_text :: "string \<Rightarrow> bool" where
  "plain_text s \<longleftrightarrow> (\<forall>c \<in> set s. to_lower c = c \<and> c \<noteq> CHR ''_'')"

lemma clean_plain: "plain_text s \<Longrightarrow> filter (\<lambda>c. c \<noteq> CHR ''_'') (lowercase s) = s"
  by (induction s) (auto simp: plain_text_def lowercase_def)

lemma plain_dec_digits [simp]: "plain_text (dec_digits n)"
  using dec_digits_all_digits plain_digit by (auto simp: plain_text_def)

lemma plain_append [simp]: "plain_text (s @ t) \<longleftrightarrow> plain_text s \<and> plain_text t"
  by (auto simp: plain_text_def)

lemma plain_Cons [simp]: "plain_text (c # t) \<longleftrightarrow> to_lower c = c \<and> c \<noteq> CHR ''_'' \<and> plain_text t"
  by (auto simp: plain_text_def)

lemma plain_four_state: "four_state b \<Longrightarrow> plain_text b"
  by (auto simp: four_state_def plain_text_def char_class)

text \<open>A sized literal in normal spelling: what the parser makes of it.\<close>

lemma parse_sized_literal:
  assumes n: "int n \<le> int_max" and b: "base \<in> {CHR ''h'', CHR ''b'', CHR ''d'', CHR ''o''}"
    and ne: "digits \<noteq> []" and pl: "plain_text digits" and ok: "\<forall>c \<in> set digits. valid_digit base c"
  shows "parse_sv_literal (dec_digits n @ CHR 0x27 # base # digits) =
    (if base = CHR ''d''
     then rbind (logic_value_from_u64 (strtoull 10 digits) (int n)) (\<lambda>v. Inr (Some v))
     else let bits = (if base = CHR ''b'' then digits
                      else if base = CHR ''h'' then concat (map hex_digit_bits digits)
                      else concat (map oct_digit_bits digits))
          in Inr (Some (logic_value_from_bits (fit_width (int n) (digits_unknown digits) bits) (int n))))"
proof -
  let ?t = "dec_digits n @ CHR 0x27 # base # digits"
  have d: "\<forall>c \<in> set (dec_digits n). is_digit c" by (rule dec_digits_all_digits)
  have "to_lower (CHR 0x27) = CHR 0x27" "to_lower base = base" "base \<noteq> CHR ''_''"
    using b by (auto simp: char_class)
  with pl have "plain_text ?t" by simp
  then have cl: "filter (\<lambda>c. c \<noteq> CHR ''_'') (lowercase ?t) = ?t"
    using clean_plain by simp
  have f: "str_find (CHR 0x27) ?t = Some (length (dec_digits n))"
    using d plain_digit by (intro str_find_append) blast
  have at: "?t ! (length (dec_digits n) + 1) = base" "drop (length (dec_digits n) + 2) ?t = digits"
    by (simp_all add: nth_append)
  have "parse_sv_literal ?t = parse_based_literal ?t (length (dec_digits n))"
    using f by (simp add: parse_sv_literal_def cl)
  then show ?thesis
    using at b ne ok d n
    by (elim insertE) (simp_all add: parse_based_literal_def atoi_dec_digits Let_def)
qed

lemma two_state_imp_four_state: "two_state b \<Longrightarrow> four_state b"
  by (auto simp: two_state_def four_state_def)

lemma from_bits_known:
  "two_state b \<Longrightarrow> logic_value_from_bits b w =
     \<lparr>lv_bits = b, lv_width = (if w = 0 then int (length b) else w), lv_known = True,
      lv_has_x = False, lv_has_z = False\<rparr>"
  by (rule logic_value.equality)
    (use logic_value_from_bits_flags in \<open>auto simp: two_state_def\<close>)

lemma width_prefix_from_bits: "b \<noteq> [] \<Longrightarrow> width_prefix (logic_value_from_bits b (int (length b))) = dec_digits (length b)"
  by (cases b) (simp_all add: width_prefix_def to_string_int_def nat_add_distrib)

lemma sv_literal_bin_roundtrip_aux:
  assumes "four_state b" "b \<noteq> []" "int (length b) \<le> int_max"
  shows "parse_sv_literal (sv_literal (logic_value_from_bits b (int (length b))) (CHR ''b'')) =
         Inr (Some (logic_value_from_bits b (int (length b))))"
proof -
  have "sv_literal (logic_value_from_bits b (int (length b))) (CHR ''b'') =
        dec_digits (length b) @ CHR 0x27 # CHR ''b'' # b"
    using assms by (simp add: sv_literal_def width_prefix_from_bits)
  moreover have "\<forall>c \<in> set b. valid_digit (CHR ''b'') c"
    using assms by (auto simp: valid_digit_def four_state_def)
  ultimately show ?thesis
    using assms parse_sized_literal [of "length b" "CHR ''b''" b]
    by (simp add: plain_four_state fit_width_def pad_front_def)
qed

text \<open>Hexadecimal: a group of at most four known bits is one digit that stands for them.\<close>

lemma shift_in_bit:
  "push_bit 1 (v :: 'a::len word) OR (if c then 1 else 0) = 2 * v + (if c then 1 else 0)"
  by (cases c) (simp_all add: or_one_eq push_bit_eq_mult mult.commute)

lemma nibble_fold:
  "foldl (\<lambda>v c. push_bit 1 v OR (if c = CHR ''1'' then 1 else 0)) (0 :: 'a::len word) s =
     word_of_nat (bits_nat s)"
  by (induction s rule: rev_induct) (simp_all only: foldl_append foldl.simps shift_in_bit, auto)

definition hex_char :: "nat \<Rightarrow> char" where
  "hex_char n = ''0123456789abcdef'' ! n"

lemma nibble_to_hex_known:
  assumes "two_state s" "length s \<le> 4"
  shows "nibble_to_hex s = [hex_char (bits_nat s)]"
proof -
  have "bits_nat s < 2 ^ 4"
    using bits_nat_less [of s] assms(2) by (meson less_le_trans one_le_numeral power_increasing)
  then have "unat (word_of_nat (bits_nat s) AND (15 :: u32)) = bits_nat s"
    using take_bit_nat_eq_self [of "bits_nat s" 4] take_bit_nat_eq_self [of "bits_nat s" 32]
    by (simp add: unsigned_and_eq unsigned_of_nat take_bit_eq_mask [of 4] mask_eq_exp_minus_1)
  moreover have "\<not> (\<exists>c \<in> set s. c \<in> {CHR ''x'', CHR ''h'', CHR ''u'', CHR ''w'', CHR ''-''})"
    "\<not> (\<exists>c \<in> set s. c \<in> {CHR ''z'', CHR ''l''})"
    using assms(1) by (auto simp: two_state_def)
  ultimately show ?thesis
    unfolding nibble_to_hex_def nibble_fold hex_char_def by (simp add: Let_def)
qed

lemma hex_char_props:
  assumes "n < 16"
  shows "hex_digit_bits (hex_char n) = small_bits 4 n" "is_digit (hex_char n) \<or> (97 \<le> (of_char (hex_char n) :: nat) \<and> (of_char (hex_char n) :: nat) \<le> 102)"
    "to_lower (hex_char n) = hex_char n" "hex_char n \<noteq> CHR ''_''" "hex_char n \<noteq> CHR ''x''" "hex_char n \<noteq> CHR ''z''"
proof -
  have "list_all (\<lambda>n. hex_digit_bits (hex_char n) = small_bits 4 n \<and>
     (is_digit (hex_char n) \<or> (97 \<le> (of_char (hex_char n) :: nat) \<and> (of_char (hex_char n) :: nat) \<le> 102)) \<and>
     to_lower (hex_char n) = hex_char n \<and> hex_char n \<noteq> CHR ''_'' \<and> hex_char n \<noteq> CHR ''x'' \<and> hex_char n \<noteq> CHR ''z'')
     [0..<16]"
    by code_simp
  moreover from assms have "n \<in> set [0..<16]" by simp
  ultimately show "hex_digit_bits (hex_char n) = small_bits 4 n"
    "is_digit (hex_char n) \<or> (97 \<le> (of_char (hex_char n) :: nat) \<and> (of_char (hex_char n) :: nat) \<le> 102)"
    "to_lower (hex_char n) = hex_char n" "hex_char n \<noteq> CHR ''_''" "hex_char n \<noteq> CHR ''x''" "hex_char n \<noteq> CHR ''z''"
    unfolding list_all_iff by blast+
qed

lemma small_bits_pad:
  assumes "two_state s" "length s \<le> n"
  shows "small_bits n (bits_nat s) = pad_front n (CHR ''0'') s"
proof (rule bits_nat_inject)
  have z: "bits_nat (replicate k (CHR ''0'')) = 0" for k
    by (induction k) (simp_all add: bits_nat_Cons)
  have "bits_nat s < 2 ^ n"
    using bits_nat_less [of s] assms(2) by (meson less_le_trans one_le_numeral power_increasing)
  then show "bits_nat (small_bits n (bits_nat s)) = bits_nat (pad_front n (CHR ''0'') s)"
    by (simp add: pad_front_def bits_nat_append z)
  show "two_state (pad_front n (CHR ''0'') s)"
    using assms(1) by (auto simp: two_state_def pad_front_def)
qed (use assms in \<open>simp_all add: pad_front_def\<close>)

lemma hex_groups_known:
  assumes "two_state s" "0 < nib" "nib \<le> 4" "length s = nib + 4 * k"
  shows "concat (map hex_digit_bits (hex_groups nib s)) = replicate (4 - nib) (CHR ''0'') @ s \<and>
         (\<forall>c \<in> set (hex_groups nib s). \<exists>n < 16. c = hex_char n) \<and> hex_groups nib s \<noteq> []"
  using assms
proof (induction k arbitrary: nib s)
  case (0 nib s)
  then have n: "bits_nat s < 16"
    using bits_nat_less [of s] power_increasing [of nib 4 "2::nat"] by simp
  from 0 have "s \<noteq> []" by auto
  then have h: "hex_groups nib s = [hex_char (bits_nat s)]"
    using 0 by (simp add: hex_groups.simps [of nib s] hex_groups.simps [of 4 "[]"] nibble_to_hex_known)
  with 0 n show ?case
    by (auto simp: hex_char_props small_bits_pad pad_front_def)
next
  case (Suc k nib s)
  let ?a = "take nib s" and ?r = "drop nib s"
  have a: "two_state ?a" "length ?a = nib" and r: "two_state ?r" "length ?r = 4 + 4 * k"
    using Suc.prems by (auto simp: two_state_def dest: in_set_takeD in_set_dropD)
  have n: "bits_nat ?a < 16"
    using bits_nat_less [of ?a] a Suc.prems power_increasing [of nib 4 "2::nat"] by simp
  have "s \<noteq> []" using Suc.prems by auto
  then have h: "hex_groups nib s = hex_char (bits_nat ?a) # hex_groups 4 ?r"
    using Suc.prems a by (subst hex_groups.simps) (simp add: nibble_to_hex_known)
  with Suc.IH [OF r(1) _ _ r(2)] n a Suc.prems show ?case
    by (auto simp: hex_char_props small_bits_pad pad_front_def)
qed

lemma sv_literal_hex_roundtrip_aux:
  assumes b: "two_state b" "b \<noteq> []" "int (length b) \<le> int_max"
  shows "parse_sv_literal (sv_literal (logic_value_from_bits b (int (length b))) (CHR ''h'')) =
         Inr (Some (logic_value_from_bits b (int (length b))))"
proof -
  define nib where "nib = (if length b mod 4 = 0 then 4 else length b mod 4)"
  define ds where "ds = hex_groups nib b"
  have nib: "0 < nib" "nib \<le> 4" by (auto simp: nib_def)
  have "\<exists>k. length b = nib + 4 * k"
    using b(2) by (cases b; simp add: nib_def; presburger)
  then obtain k where k: "length b = nib + 4 * k" by blast
  note g = hex_groups_known [OF b(1) nib k, folded ds_def]
  have s: "sv_literal (logic_value_from_bits b (int (length b))) (CHR ''h'') =
        dec_digits (length b) @ CHR 0x27 # CHR ''h'' # ds"
    using b by (simp add: sv_literal_def width_prefix_from_bits Let_def pad_front_def nib_def ds_def)
  have "\<forall>c \<in> set ds. (is_digit c \<or> (97 \<le> (of_char c :: nat) \<and> (of_char c :: nat) \<le> 102)) \<and>
      to_lower c = c \<and> c \<noteq> CHR ''_'' \<and> c \<noteq> CHR ''x'' \<and> c \<noteq> CHR ''z''"
  proof
    fix c assume "c \<in> set ds"
    then obtain n where "n < 16" "c = hex_char n" using g by blast
    then show "(is_digit c \<or> (97 \<le> (of_char c :: nat) \<and> (of_char c :: nat) \<le> 102)) \<and>
      to_lower c = c \<and> c \<noteq> CHR ''_'' \<and> c \<noteq> CHR ''x'' \<and> c \<noteq> CHR ''z''"
      using hex_char_props by simp
  qed
  then have "plain_text ds" "\<forall>c \<in> set ds. valid_digit (CHR ''h'') c" "\<not> digits_unknown ds"
    by (auto simp: plain_text_def valid_digit_def digits_unknown_def)
  with g b s show ?thesis
    by (simp add: parse_sized_literal fit_width_def last_n_def pad_front_def Let_def)
qed

lemma digit_char_0: "digit_char 0 = CHR ''0''"
  by code_simp

lemma u128_digits_eq: "acc > 0 \<Longrightarrow> u128_digits acc s = dec_digits (unat acc) @ s"
proof (induction acc s rule: u128_digits.induct)
  case (1 acc s)
  let ?s = "char_of (48 + unat (acc mod 10)) # s"
  have m: "char_of (48 + unat (acc mod 10)) = digit_char (unat acc mod 10)"
    by (simp add: digit_char_def unat_mod)
  have u: "u128_digits acc s = u128_digits (acc div 10) ?s"
    using "1.prems" by (subst u128_digits.simps) simp
  show ?case
  proof (cases "unat acc < 10")
    case True
    then have "acc div 10 = 0" by (simp add: unat_div word_unat_eq_iff)
    with True u m show ?thesis
      by (simp add: u128_digits.simps [of 0] dec_digits.simps [of "unat acc"])
  next
    case False
    then have "acc div 10 > 0" by (simp add: word_less_nat_alt unat_div)
    with "1.IH" "1.prems" u m False show ?thesis
      by (simp add: unat_div dec_digits.simps [of "unat acc"])
  qed
qed

lemma bits_value_u128_eq: "bits_value_u128 b = word_of_nat (bits_nat b)"
  by (induction b rule: rev_induct) (simp_all add: bits_value_u128_def mult.commute)

lemma bits_to_decimal_eq: "bits_to_decimal b = dec_digits (bits_nat b mod 2 ^ 128)"
proof -
  have u: "unat (word_of_nat (bits_nat b) :: u128) = bits_nat b mod 2 ^ 128"
    by (simp add: unat_of_nat)
  show ?thesis
  proof (cases "(word_of_nat (bits_nat b) :: u128) = 0")
    case True
    with u have "bits_nat b mod 2 ^ 128 = 0" by simp
    with True show ?thesis
      by (simp add: bits_to_decimal_def bits_value_u128_eq dec_digits.simps [of 0] digit_char_0)
  next
    case False
    then have "(word_of_nat (bits_nat b) :: u128) > 0" by (simp add: word_gt_0)
    with False show ?thesis
      using u by (simp add: bits_to_decimal_def bits_value_u128_eq u128_digits_eq)
  qed
qed

lemma sv_literal_dec_roundtrip_aux:
  assumes b: "two_state b" "b \<noteq> []" "length b \<le> 64"
  shows "parse_sv_literal (sv_literal (logic_value_from_bits b (int (length b))) (CHR ''d'')) =
         Inr (Some (logic_value_from_bits b (int (length b))))"
proof -
  have l: "bits_nat b < 2 ^ 64"
    using bits_nat_less [of b] b(3) by (meson less_le_trans one_le_numeral power_increasing)
  then have "bits_nat b mod 2 ^ 128 = bits_nat b" by simp
  with b have s: "sv_literal (logic_value_from_bits b (int (length b))) (CHR ''d'') =
      dec_digits (length b) @ CHR 0x27 # CHR ''d'' # dec_digits (bits_nat b)"
    by (simp add: sv_literal_def width_prefix_from_bits logic_value_from_bits_flags bits_to_decimal_eq Let_def)
  have v: "\<forall>c \<in> set (dec_digits (bits_nat b)). valid_digit (CHR ''d'') c"
    using dec_digits_all_digits [of "bits_nat b"] by (simp add: valid_digit_def)
  have "unat (word_of_nat (bits_nat b) :: u64) = bits_nat b"
    using l by (simp add: unat_of_nat)
  with b l v s show ?thesis
    by (simp add: parse_sized_literal int_max_def strtoull_dec_digits from_u64_eq from_bits_known
        logic_value_init_def)
qed

lemma sv_literal_dec_wide:
  assumes "two_state b" "64 < length b" "int (length b) \<le> int_max"
  shows "parse_sv_literal (sv_literal (logic_value_from_bits b (int (length b))) (CHR ''d'')) = Inl Shift_overflow"
proof -
  let ?v = "bits_nat b mod 2 ^ 128"
  have "b \<noteq> []" using assms(2) by auto
  with assms have s: "sv_literal (logic_value_from_bits b (int (length b))) (CHR ''d'') =
      dec_digits (length b) @ CHR 0x27 # CHR ''d'' # dec_digits ?v"
    by (simp add: sv_literal_def width_prefix_from_bits logic_value_from_bits_flags bits_to_decimal_eq Let_def)
  have "\<forall>c \<in> set (dec_digits ?v). valid_digit (CHR ''d'') c"
    using dec_digits_all_digits [of ?v] by (simp add: valid_digit_def)
  with assms s show ?thesis by (simp add: parse_sized_literal from_u64_eq)
qed

section \<open>Properties\<close>

text \<open>
  Claim C38 (type): the summary flags of a value built from a bit string say exactly what its
  characters are: \<open>known\<close> when every bit is 0 or 1, \<open>has_z\<close> when some bit is z or l, \<open>has_x\<close> when
  some bit is neither a binary digit nor one of those; so \<open>known\<close> is the absence of both flags, and
  a width of 0 stands for the number of bits.
\<close>

theorem logic_value_flags_exact:
  "lv_bits (logic_value_from_bits b w) = b \<and>
   lv_width (logic_value_from_bits b w) = (if w = 0 then int (length b) else w) \<and>
   lv_known (logic_value_from_bits b w) = two_state b \<and>
   lv_has_z (logic_value_from_bits b w) = (set b \<inter> {CHR ''z'', CHR ''Z'', CHR ''l''} \<noteq> {}) \<and>
   lv_has_x (logic_value_from_bits b w) =
     (\<not> set b \<subseteq> {CHR ''0'', CHR ''1'', CHR ''z'', CHR ''Z'', CHR ''l''}) \<and>
   lv_known (logic_value_from_bits b w) =
     (\<not> (lv_has_x (logic_value_from_bits b w) \<or> lv_has_z (logic_value_from_bits b w)))"
  using known_iff_no_xz [of b w] by (simp add: logic_value_from_bits_flags)

text \<open>
  Building a value of \<open>w\<close> bits from a 64-bit integer is defined exactly up to a
  width of 64; then the value is known, has \<open>w\<close> bits (64 when no width is given) and denotes the
  integer modulo \<open>2^w\<close>. Above 64 the source shifts by at least the operand's width.
\<close>

theorem logic_value_from_u64_spec:
  "case logic_value_from_u64 value w of
     Inl f \<Rightarrow> f = Shift_overflow \<and> w > 64
   | Inr v \<Rightarrow> w \<le> 64 \<and> lv_width v = w \<and> lv_known v \<and> two_state (lv_bits v) \<and>
       length (lv_bits v) = (if w > 0 then nat w else 64) \<and>
       bits_nat (lv_bits v) = unat value mod 2 ^ (if w > 0 then nat w else 64)"
  by (simp add: from_u64_eq logic_value_init_def)

text \<open>
  Claim C39 (roundtrip): the parser of SystemVerilog literals reads back what the renderer wrote for a known value, with one
  exception. A value of \<open>n\<close> bits comes back unchanged from its binary and hexadecimal rendering, and from its decimal
  rendering when \<open>n\<close> is at most 64. The decimal path of the parser goes through a 64-bit integer, and on the decimal rendering
  of a wider value it faults.
\<close>

theorem render_logic_value_roundtrip:
  assumes "two_state b" and "b \<noteq> []" and "int (length b) \<le> int_max"
  shows "parse_sv_literal (render_logic_value (logic_value_from_bits b (int (length b))) fmt) =
    (if fmt = Dec \<and> 64 < length b then Inl Shift_overflow else Inr (Some (logic_value_from_bits b (int (length b)))))"
  using assms
  by (cases fmt)
    (simp_all add: render_logic_value_def logic_value_from_bits_flags two_state_imp_four_state
      sv_literal_bin_roundtrip_aux sv_literal_hex_roundtrip_aux sv_literal_dec_roundtrip_aux sv_literal_dec_wide)

theorem render_logic_value_roundtrip_witness:
  "parse_sv_literal (render_logic_value (logic_value_from_bits ''101'' 3) Dec) =
   Inr (Some (logic_value_from_bits ''101'' 3))"
  using render_logic_value_roundtrip [of "''101''" Dec]
  by (simp add: two_state_def int_max_def)

text \<open>
  The decimal rendering of a bit string is the decimal numeral of its value
  modulo \<open>2^128\<close>: exact up to 128 bits, and for longer vectors only the low 128 bits are shown.
\<close>

theorem bits_to_decimal_wraps:
  "bits_to_decimal b = dec_digits (bits_nat b mod 2 ^ 128) \<and>
   bits_to_decimal (CHR ''1'' # replicate (128 + n) (CHR ''0'')) = ''0''"
proof -
  have z: "bits_nat (replicate k (CHR ''0'')) = 0" for k
    by (induction k) (simp_all add: bits_nat_Cons)
  have "(2::nat) ^ (128 + n) mod 2 ^ 128 = 0" by (simp add: power_add)
  then show ?thesis
    by (simp add: bits_to_decimal_eq bits_nat_Cons z dec_digits.simps [of 0] digit_char_0 del: power_add)
qed

end
