(* ===== verification/Expr_Parser.thy ===== *)
theory Expr_Parser
  imports Logic_Value
begin

unbundle bit_operations_syntax

text \<open>
  The expression parser of \<open>waveform/expr/expr_eval.cpp\<close> (struct \<open>Parser\<close>): identifiers, slices,
  constants, and a chain of nine left-associative binary levels over the unary ones. The pair of
  \<open>text\<close> and \<open>pos\<close> is represented by the unread suffix \<open>text.substr(pos)\<close>, on which every function of
  the parser depends; \<open>error\<close> is threaded along. All nine levels have the same loop, so the loop is
  one function over the level's operator matcher, and each level of the source is its matcher
  applied to the level below. Recursion depth and loop iterations are bounded by fuel; the interface
  \<open>op_matcher\<close> states what a matcher promises (it only moves forward) and the lemmas proved from it
  show that a fuel of one more than the length of the text is always enough.
\<close>

section \<open>Syntax trees and parser results\<close>

datatype expr_node =
    Signal string
  | Slice string int int
  | Const logic_value
  | Unary string expr_node
  | Binary string expr_node expr_node

text \<open>
  A parser call returns a node or the null pointer, with the unread suffix and the error text after
  it, unless it runs into a fault or out of fuel.
\<close>

datatype pres =
    Node expr_node string string
  | Null string string
  | Fault fault
  | Out_of_fuel

section \<open>Tokens\<close>

definition skip_ws :: "string \<Rightarrow> string" where
  "skip_ws s = dropWhile is_space s"

definition at_end :: "string \<Rightarrow> bool" where
  "at_end s \<longleftrightarrow> skip_ws s = []"

definition eat :: "char \<Rightarrow> string \<Rightarrow> bool \<times> string" where
  "eat c s = (case skip_ws s of [] \<Rightarrow> (False, []) | d # r \<Rightarrow> if d = c then (True, r) else (False, d # r))"

definition ident_start :: "char \<Rightarrow> bool" where
  "ident_start c \<longleftrightarrow> is_alpha c \<or> c = CHR ''_''"

definition ident_char :: "char \<Rightarrow> bool" where
  "ident_char c \<longleftrightarrow> is_alnum c \<or> c = CHR ''_'' \<or> c = CHR ''$''"

text \<open>The dotted tail of a hierarchical identifier: its text and what follows it.\<close>

function dotted_tail :: "string \<Rightarrow> string \<times> string" where
  "dotted_tail s =
     (case s of
        d # c # r \<Rightarrow>
          if d = CHR ''.'' \<and> ident_start c
          then let (tail, rest) = dotted_tail (dropWhile ident_char (c # r))
               in (d # takeWhile ident_char (c # r) @ tail, rest)
          else ([], s)
      | _ \<Rightarrow> ([], s))"
  by pat_completeness auto
termination
  by (relation "measure length") (auto simp: less_Suc_eq_le length_dropWhile_le le_SucI)

declare dotted_tail.simps [simp del]

definition parse_identifier :: "string \<Rightarrow> string \<times> string" where
  "parse_identifier s =
     (case skip_ws s of
        [] \<Rightarrow> ([], [])
      | c # r \<Rightarrow>
          if ident_start c
          then let (tail, rest) = dotted_tail (dropWhile ident_char r)
               in (c # takeWhile ident_char r @ tail, rest)
          else ([], c # r))"

section \<open>Constants\<close>

definition radix_digit :: "char \<Rightarrow> nat" where
  "radix_digit c = (if 97 \<le> (of_char c :: nat) then of_char c - 97 + 10 else of_char c - 48)"

definition parse_radix :: "string \<Rightarrow> char \<Rightarrow> int \<Rightarrow> logic_value result" where
  "parse_radix digits base width =
     (if digits_unknown digits then
        let bits =
              (if base = CHR ''b'' then digits
               else if base = CHR ''h'' then concat (map (\<lambda>c.
                 if c = CHR ''x'' \<or> c = CHR ''z'' then replicate 4 c else small_bits 4 (radix_digit c)) digits)
               else if base = CHR ''o'' then concat (map (\<lambda>c.
                 if c = CHR ''x'' \<or> c = CHR ''z'' then replicate 3 c else small_bits 3 (of_char c - 48)) digits)
               else digits)
        in Inr \<lparr>lv_bits = (if width > 0 \<and> int (length bits) > width then last_n (nat width) bits else bits),
                lv_width = width, lv_known = False,
                lv_has_x = (CHR ''x'' \<in> set digits), lv_has_z = (CHR ''z'' \<in> set digits)\<rparr>
      else
        let value =
              (if base = CHR ''b'' then
                 foldl (\<lambda>v c. push_bit 1 v OR (if c = CHR ''1'' then 1 else 0)) 0 digits
               else if base = CHR ''h'' then
                 foldl (\<lambda>v c. push_bit 4 v OR word_of_nat (radix_digit c)) 0 digits
               else if base = CHR ''o'' then
                 foldl (\<lambda>v c. push_bit 3 v OR word_of_nat (of_char c - 48)) 0 digits
               else strtoull 10 digits)
        in logic_value_from_u64 value width)"

text \<open>
  A based constant, tried first: the text up to the next tick must be at most nine digits. \<open>None\<close> is
  the fall-through to a plain decimal. The result is the value and the suffix after it.
\<close>

definition parse_based_const :: "string \<Rightarrow> (logic_value \<times> string) result option" where
  "parse_based_const s =
     (case str_find (CHR 0x27) s of
        None \<Rightarrow> None
      | Some tick \<Rightarrow>
          let width_str = take tick s
          in if (\<forall>c \<in> set width_str. is_digit c) \<and> length width_str \<le> 9 then
               let r = drop (tick + 1) s;
                   r = (case r of c # r' \<Rightarrow> if to_lower c = CHR ''s'' then r' else r | [] \<Rightarrow> r)
               in case r of
                    [] \<Rightarrow> Some (Inr (logic_value_init, s))
                  | c # r' \<Rightarrow>
                      let base = to_lower c
                      in if base \<in> {CHR ''h'', CHR ''b'', CHR ''d'', CHR ''o''} then
                           let digits = takeWhile (\<lambda>c. is_alnum c \<or> c = CHR ''_'') r';
                               clean = lowercase (filter (\<lambda>c. c \<noteq> CHR ''_'') digits)
                           in Some (rbind (atoi width_str) (\<lambda>width.
                                rbind (parse_radix clean base width) (\<lambda>v.
                                  Inr (v, dropWhile (\<lambda>c. is_alnum c \<or> c = CHR ''_'') r'))))
                         else None
             else None)"

definition parse_const :: "string \<Rightarrow> string \<Rightarrow> (logic_value \<times> string \<times> string) result" where
  "parse_const s err =
     (let s = skip_ws s
      in case parse_based_const s of
           Some r \<Rightarrow> rbind r (\<lambda>(v, rest). Inr (v, rest, err))
         | None \<Rightarrow>
             let num = takeWhile is_digit s; rest = dropWhile is_digit s
             in if num = []
                then Inr (logic_value_init, rest, ''expected expression, found: '' @ CHR 0x27 # rest @ [CHR 0x27])
                else rbind (logic_value_from_u64 (strtoull 10 num) 0) (\<lambda>v. Inr (v, rest, err)))"

section \<open>Operator matchers, one per level\<close>

text \<open>
  A matcher looks at the unread suffix at the top of its level's loop. It returns the operator and
  the suffix after it, or no operator and the suffix with its leading white space skipped.
\<close>

type_synonym matcher = "string \<Rightarrow> string option \<times> string"

definition match_mul :: matcher where
  "match_mul s =
     (case skip_ws s of
        c # r \<Rightarrow> if c = CHR ''*'' \<or> c = CHR ''/'' \<or> c = CHR ''%'' then (Some [c], r) else (None, c # r)
      | [] \<Rightarrow> (None, []))"

definition match_add :: matcher where
  "match_add s =
     (case skip_ws s of
        c # r \<Rightarrow> if c = CHR ''+'' \<or> c = CHR ''-'' then (Some [c], r) else (None, c # r)
      | [] \<Rightarrow> (None, []))"

definition match_shift :: matcher where
  "match_shift s =
     (let s = skip_ws s
      in if take 2 s = ''<<'' then (Some ''<<'', drop 2 s)
         else if take 2 s = ''>>'' then (Some ''>>'', drop 2 s)
         else (None, s))"

definition match_cmp :: matcher where
  "match_cmp s =
     (let s = skip_ws s
      in if take 2 s = ''<='' then (Some ''<='', drop 2 s)
         else if take 2 s = ''>='' then (Some ''>='', drop 2 s)
         else if take 1 s = ''<'' then (Some ''<'', drop 1 s)
         else if take 1 s = ''>'' then (Some ''>'', drop 1 s)
         else (None, s))"

definition match_eq :: matcher where
  "match_eq s =
     (let s = skip_ws s
      in if take 4 s \<in> {''==?z'', ''==?x'', ''==?i''} then (Some (take 4 s), drop 4 s)
         else if take 3 s = ''==='' then (Some ''==='', drop 3 s)
         else if take 3 s = ''!=='' then (Some ''!=='', drop 3 s)
         else if take 2 s = ''=='' then (Some ''=='', drop 2 s)
         else if take 2 s = ''!='' then (Some ''!='', drop 2 s)
         else (None, s))"

definition match_and :: matcher where
  "match_and s =
     (case skip_ws s of
        c # d # r \<Rightarrow> if c = CHR ''&'' \<and> d \<noteq> CHR ''&'' then (Some ''&'', d # r) else (None, c # d # r)
      | r \<Rightarrow> (None, r))"

definition match_xor :: matcher where
  "match_xor s =
     (case skip_ws s of
        c # r \<Rightarrow> if c = CHR ''^'' then (Some ''^'', r) else (None, c # r)
      | [] \<Rightarrow> (None, []))"

definition match_or :: matcher where
  "match_or s =
     (case skip_ws s of
        c # d # r \<Rightarrow> if c = CHR ''|'' \<and> d \<noteq> CHR ''|'' then (Some ''|'', d # r) else (None, c # d # r)
      | r \<Rightarrow> (None, r))"

definition match_logical :: matcher where
  "match_logical s =
     (let s = skip_ws s
      in if take 2 s = ''&&'' then (Some ''&&'', drop 2 s)
         else if take 2 s = ''||'' then (Some ''||'', drop 2 s)
         else (None, s))"

section \<open>The levels\<close>

type_synonym parser = "string \<Rightarrow> string \<Rightarrow> pres"

primrec level_loop :: "nat \<Rightarrow> matcher \<Rightarrow> parser \<Rightarrow> expr_node \<Rightarrow> string \<Rightarrow> string \<Rightarrow> pres" where
  "level_loop 0 m sub left s err = Out_of_fuel"
| "level_loop (Suc n) m sub left s err =
     (case m s of
        (None, s') \<Rightarrow> Node left s' err
      | (Some op, s') \<Rightarrow>
          (case sub s' err of
             Node right s'' err' \<Rightarrow> level_loop n m sub (Binary op left right) s'' err'
           | r \<Rightarrow> r))"

definition parse_level :: "nat \<Rightarrow> matcher \<Rightarrow> parser \<Rightarrow> parser" where
  "parse_level n m sub s err =
     (case sub s err of Node left s' err' \<Rightarrow> level_loop n m sub left s' err' | r \<Rightarrow> r)"

text \<open>Each level over a given parser of primaries.\<close>

definition parse_mul :: "nat \<Rightarrow> parser \<Rightarrow> parser" where
  "parse_mul n prim = parse_level n match_mul prim"

definition parse_add :: "nat \<Rightarrow> parser \<Rightarrow> parser" where
  "parse_add n prim = parse_level n match_add (parse_mul n prim)"

definition parse_shift :: "nat \<Rightarrow> parser \<Rightarrow> parser" where
  "parse_shift n prim = parse_level n match_shift (parse_add n prim)"

definition parse_cmp :: "nat \<Rightarrow> parser \<Rightarrow> parser" where
  "parse_cmp n prim = parse_level n match_cmp (parse_shift n prim)"

definition parse_eq :: "nat \<Rightarrow> parser \<Rightarrow> parser" where
  "parse_eq n prim = parse_level n match_eq (parse_cmp n prim)"

definition parse_and :: "nat \<Rightarrow> parser \<Rightarrow> parser" where
  "parse_and n prim = parse_level n match_and (parse_eq n prim)"

definition parse_xor :: "nat \<Rightarrow> parser \<Rightarrow> parser" where
  "parse_xor n prim = parse_level n match_xor (parse_and n prim)"

definition parse_or :: "nat \<Rightarrow> parser \<Rightarrow> parser" where
  "parse_or n prim = parse_level n match_or (parse_xor n prim)"

definition parse_logical :: "nat \<Rightarrow> parser \<Rightarrow> parser" where
  "parse_logical n prim = parse_level n match_logical (parse_or n prim)"

section \<open>Primaries and the entry point\<close>

text \<open>A slice after an identifier: the text between the brackets is read with \<open>atoi\<close>.\<close>

definition parse_slice :: "string \<Rightarrow> string \<Rightarrow> string \<Rightarrow> pres" where
  "parse_slice name s err =
     (let first = takeWhile (\<lambda>c. c \<noteq> CHR '':'' \<and> c \<noteq> CHR '']'') s;
          r = skip_ws (dropWhile (\<lambda>c. c \<noteq> CHR '':'' \<and> c \<noteq> CHR '']'') s);
          (hi, lo, r) =
            (case r of
               c # r' \<Rightarrow>
                 if c = CHR '':''
                 then (first, takeWhile (\<lambda>c. c \<noteq> CHR '']'') r', dropWhile (\<lambda>c. c \<noteq> CHR '']'') r')
                 else ([], first, r)
             | [] \<Rightarrow> ([], first, r))
      in case eat (CHR '']'') r of
           (False, r') \<Rightarrow> Null r' (''missing '' @ [CHR 0x27, CHR '']'', CHR 0x27])
         | (True, r') \<Rightarrow>
             (case rbind (atoi lo) (\<lambda>l. rbind (if hi = [] then Inr l else atoi hi) (\<lambda>h. Inr (h, l))) of
                Inl f \<Rightarrow> Fault f
              | Inr (h, l) \<Rightarrow> Node (Slice name h l) r' err))"

definition parse_operand :: "string \<Rightarrow> string \<Rightarrow> pres" where
  "parse_operand s err =
     (case parse_identifier s of (name, rest) \<Rightarrow>
        if name \<noteq> [] then
          (case skip_ws rest of
             c # r \<Rightarrow> if c = CHR ''['' then parse_slice name r err else Node (Signal name) (c # r) err
           | [] \<Rightarrow> Node (Signal name) [] err)
        else
          (case parse_const s err of
             Inl f \<Rightarrow> Fault f
           | Inr (c, rest, err') \<Rightarrow>
               if lv_bits c = [] \<and> err' \<noteq> [] then Null rest err' else Node (Const c) rest err'))"

primrec parse_primary :: "nat \<Rightarrow> parser" where
  "parse_primary 0 = (\<lambda>s err. Out_of_fuel)"
| "parse_primary (Suc n) = (\<lambda>s err.
     case eat (CHR ''('') s of
       (True, r) \<Rightarrow>
         (case parse_logical n (parse_primary n) r err of
            Node inner r' err' \<Rightarrow>
              (case eat (CHR '')'') r' of
                 (True, r'') \<Rightarrow> Node inner r'' err'
               | (False, r'') \<Rightarrow> Null r'' (''missing '' @ [CHR 0x27, CHR '')'', CHR 0x27]))
          | Null r' err' \<Rightarrow>
              (case eat (CHR '')'') r' of
                 (True, r'') \<Rightarrow> Null r'' err'
               | (False, r'') \<Rightarrow> Null r'' (''missing '' @ [CHR 0x27, CHR '')'', CHR 0x27]))
          | other \<Rightarrow> other)
     | (False, r) \<Rightarrow>
         (case r of
            c # r' \<Rightarrow>
              if c = CHR ''~'' \<or> c = CHR ''!'' \<or> c = CHR ''-'' then
                (case parse_primary n r' err of
                   Node right r'' err' \<Rightarrow> Node (Unary [c] right) r'' err'
                 | other \<Rightarrow> other)
              else parse_operand r err
          | [] \<Rightarrow> parse_operand r err))"

definition parse_expression_fuel :: "nat \<Rightarrow> string \<Rightarrow> pres" where
  "parse_expression_fuel n text =
     (case parse_logical n (parse_primary n) text [] of
        Node root r err \<Rightarrow>
          if at_end r then Node root [] err
          else Null (skip_ws r) (''unexpected trailing input: '' @ CHR 0x27 # skip_ws r @ [CHR 0x27])
      | other \<Rightarrow> other)"

definition parse_expression :: "string \<Rightarrow> pres" where
  "parse_expression text = parse_expression_fuel (Suc (length text)) text"

section \<open>Progress: the interface of an operator matcher\<close>

text \<open>
  What a call on \<open>s\<close> promises: a node leaves no more text than it was given and no error, the null
  pointer comes with an error text, and the fuel does not run out. A parser is forward below \<open>n\<close> when
  it keeps this promise on every text shorter than \<open>n\<close>.
\<close>

fun advances :: "string \<Rightarrow> string \<Rightarrow> pres \<Rightarrow> bool" where
  "advances s err (Node e r err') \<longleftrightarrow> length r \<le> length s \<and> err' = err"
| "advances s err (Null r err') \<longleftrightarrow> err' \<noteq> []"
| "advances s err (Fault f) \<longleftrightarrow> True"
| "advances s err Out_of_fuel \<longleftrightarrow> False"

definition forward :: "nat \<Rightarrow> parser \<Rightarrow> bool" where
  "forward n p \<longleftrightarrow> (\<forall>s err. length s < n \<longrightarrow> advances s err (p s err))"

lemma forwardD: "forward n p \<Longrightarrow> length s < n \<Longrightarrow> advances s err (p s err)"
  by (simp add: forward_def)

lemma advances_mono: "advances s err p \<Longrightarrow> length s \<le> length s' \<Longrightarrow> advances s' err p"
  by (cases p) auto

locale op_matcher =
  fixes m :: matcher
  assumes miss_forward: "m s = (None, s') \<Longrightarrow> length s' \<le> length s"
    and hit_forward: "m s = (Some op, s') \<Longrightarrow> length s' < length s"
begin

lemma level_loop_forward:
  assumes sub: "forward n sub" and "length s < k" "k \<le> n"
  shows "advances s err (level_loop k m sub left s err)"
  using assms(2,3)
proof (induction k arbitrary: left s)
  case (Suc k)
  show ?case
  proof (cases "m s")
    case (Pair o' s')
    show ?thesis
    proof (cases o')
      case None
      with Pair show ?thesis using miss_forward by simp
    next
      case (Some op)
      with Pair have lt: "length s' < length s" using hit_forward by simp
      with Suc.prems have "length s' < n" by simp
      with sub have h: "advances s' err (sub s' err)"
        by (auto intro: forwardD)
      show ?thesis
      proof (cases "sub s' err")
        case (Node e r err')
        with h lt have r: "length r < length s" "err' = err" by simp_all
        with Suc.prems have "length r < k" "k \<le> n" by simp_all
        from Suc.IH [OF this, of "Binary op left e"] Node Pair Some r show ?thesis
          by (auto intro: advances_mono)
      qed (use h Pair Some in simp_all)
    qed
  qed
qed simp

lemma parse_level_forward: "forward n sub \<Longrightarrow> forward n (parse_level n m sub)"
proof -
  assume sub: "forward n sub"
  show ?thesis
    unfolding forward_def
  proof (intro allI impI)
    fix s err :: string assume l: "length s < n"
    with sub have h: "advances s err (sub s err)"
      by (auto intro: forwardD)
    show "advances s err (parse_level n m sub s err)"
    proof (cases "sub s err")
      case (Node e r err')
      with h l have "length r < n" "err' = err" "length r \<le> length s" by simp_all
      with level_loop_forward [OF sub, where s = r and k = n and left = e and err = err] Node show ?thesis
        by (auto simp: parse_level_def intro: advances_mono)
    qed (use h in \<open>simp_all add: parse_level_def\<close>)
  qed
qed

end

lemma skip_ws_le [simp]: "length (skip_ws s) \<le> length s"
  by (simp add: skip_ws_def length_dropWhile_le)

lemma skip_ws_Cons: "skip_ws s = c # r \<Longrightarrow> Suc (length r) \<le> length s"
  using skip_ws_le [of s] by simp

interpretation mul_op: op_matcher match_mul
  by unfold_locales (auto simp: match_mul_def split: list.splits if_splits dest: skip_ws_Cons)

interpretation add_op: op_matcher match_add
  by unfold_locales (auto simp: match_add_def split: list.splits if_splits dest: skip_ws_Cons)

lemma skip_take_less:
  "c # cs = take k (skip_ws s) \<Longrightarrow> 0 < j \<Longrightarrow> length (skip_ws s) - j < length s"
  by (cases "skip_ws s") (use skip_ws_le [of s] in auto)

interpretation shift_op: op_matcher match_shift
  by unfold_locales (auto simp: match_shift_def Let_def split: if_splits intro: skip_take_less)

interpretation cmp_op: op_matcher match_cmp
  by unfold_locales (auto simp: match_cmp_def Let_def split: if_splits intro: skip_take_less)

interpretation eq_op: op_matcher match_eq
  by unfold_locales
    (auto simp: match_eq_def Let_def split: if_splits intro: skip_take_less skip_take_less [OF sym])

interpretation and_op: op_matcher match_and
  by unfold_locales (auto simp: match_and_def split: list.splits if_splits dest: skip_ws_Cons)

interpretation xor_op: op_matcher match_xor
  by unfold_locales (auto simp: match_xor_def split: list.splits if_splits dest: skip_ws_Cons)

interpretation or_op: op_matcher match_or
  by unfold_locales (auto simp: match_or_def split: list.splits if_splits dest: skip_ws_Cons)

interpretation logical_op: op_matcher match_logical
  by unfold_locales (auto simp: match_logical_def Let_def split: if_splits intro: skip_take_less)

lemma parse_logical_forward: "forward n prim \<Longrightarrow> forward n (parse_logical n prim)"
  unfolding parse_logical_def parse_or_def parse_xor_def parse_and_def parse_eq_def parse_cmp_def
    parse_shift_def parse_add_def parse_mul_def
  by (intro mul_op.parse_level_forward add_op.parse_level_forward shift_op.parse_level_forward
      cmp_op.parse_level_forward eq_op.parse_level_forward and_op.parse_level_forward
      xor_op.parse_level_forward or_op.parse_level_forward logical_op.parse_level_forward)


lemma dotted_tail_le: "dotted_tail s = (tail, rest) \<Longrightarrow> length rest \<le> length s"
proof (induction s arbitrary: tail rest rule: dotted_tail.induct)
  case (1 s)
  show ?case
  proof (cases "\<exists>d c r. s = d # c # r \<and> d = CHR ''.'' \<and> ident_start c")
    case True
    then obtain c r where s: "s = CHR ''.'' # c # r" and c: "ident_start c" by blast
    obtain m q where d: "dotted_tail (dropWhile ident_char (c # r)) = (m, q)" by (cases "dotted_tail (dropWhile ident_char (c # r))")
    have "length q \<le> length (dropWhile ident_char (c # r))"
      using "1.IH" [OF s refl] c d by simp
    also have "\<dots> \<le> length (c # r)" by (rule length_dropWhile_le)
    finally have "length q \<le> length s" using s by simp
    moreover have "snd (dotted_tail s) = q"
      using d c unfolding s by (subst dotted_tail.simps) (simp del: dropWhile.simps takeWhile.simps)
    ultimately show ?thesis using "1.prems" by simp
  next
    case False
    then have "dotted_tail s = ([], s)"
      by (subst dotted_tail.simps) (auto split: list.splits)
    with "1.prems" show ?thesis by simp
  qed
qed

lemma parse_identifier_le: "parse_identifier s = (name, rest) \<Longrightarrow> length rest \<le> length s"
proof -
  assume p: "parse_identifier s = (name, rest)"
  show ?thesis
  proof (cases "skip_ws s")
    case (Cons c r)
    have "length (dropWhile ident_char r) \<le> length r" by (rule length_dropWhile_le)
    with Cons p skip_ws_Cons [OF Cons] dotted_tail_le [of "dropWhile ident_char r"] show ?thesis
      by (auto simp: parse_identifier_def split: if_splits prod.splits)
  qed (use p in \<open>simp add: parse_identifier_def\<close>)
qed

lemma drop_run_le: "drop k s = pre @ r \<Longrightarrow> length (dropWhile P r) \<le> length s"
proof -
  assume "drop k s = pre @ r"
  then have "length (drop k s) = length pre + length r" by simp
  with length_dropWhile_le [of P r] show ?thesis by simp
qed

lemma parse_based_const_le: "parse_based_const s = Some (Inr (v, rest)) \<Longrightarrow> length rest \<le> length s"
  by (auto simp: parse_based_const_def Let_def rbind_def
      split: option.splits if_splits list.splits sum.splits intro: drop_run_le [of _ _ "[_]", simplified] drop_run_le [of _ _ "[_, _]", simplified])

lemma parse_const_forward:
  "parse_const s err = Inr (c, rest, err') \<Longrightarrow>
     length rest \<le> length s \<and> (err' = err \<or> (lv_bits c = [] \<and> err' \<noteq> []))"
  using order_trans [OF length_dropWhile_le [of is_digit "skip_ws s"] skip_ws_le]
  by (auto simp: parse_const_def Let_def rbind_def logic_value_init_def
      split: option.splits sum.splits if_splits dest!: parse_based_const_le intro: order_trans [OF _ skip_ws_le])

lemma eat_forward: "eat c s = (b, r) \<Longrightarrow> length r \<le> length s \<and> (b \<longrightarrow> length r < length s)"
  using skip_ws_Cons [of s] by (auto simp: eat_def split: list.splits if_splits)

lemma parse_slice_forward:
  "advances s err (parse_slice name s err)"
proof -
  let ?P = "\<lambda>c. c \<noteq> CHR '':'' \<and> c \<noteq> CHR '']''" and ?Q = "\<lambda>c. c \<noteq> CHR '']''"
  let ?r = "skip_ws (dropWhile ?P s)"
  have r: "length ?r \<le> length s"
    using skip_ws_le [of "dropWhile ?P s"] length_dropWhile_le [of ?P s] by linarith
  define r' where "r' = (case ?r of c # t \<Rightarrow> if c = CHR '':'' then dropWhile ?Q t else ?r | [] \<Rightarrow> ?r)"
  have r': "length r' \<le> length s"
    using r length_dropWhile_le [of ?Q "tl ?r"] by (auto simp: r'_def split: list.splits)
  show ?thesis
  proof (cases "eat (CHR '']'') r'")
    case (Pair b q)
    have q: "length q \<le> length s" using eat_forward [OF Pair] r' by simp
    show ?thesis
    proof (cases ?r)
      case Nil
      with Pair q show ?thesis
        by (auto simp: parse_slice_def r'_def Let_def split: bool.splits sum.splits)
    next
      case (Cons c t)
      with Pair q show ?thesis
        by (cases "c = CHR '':''")
          (auto simp: parse_slice_def r'_def Let_def split: bool.splits sum.splits)
    qed
  qed
qed

lemma parse_operand_forward:
  "advances s err (parse_operand s err)"
proof (cases "parse_identifier s")
  case (Pair name rest)
  have le: "length rest \<le> length s" using Pair by (rule parse_identifier_le)
  show ?thesis
  proof (cases "name = []")
    case True
    with Pair show ?thesis
      using parse_const_forward [where s = s and err = err]
      by (auto simp: parse_operand_def split: sum.splits)
  next
    case False
    show ?thesis
    proof (cases "skip_ws rest")
      case Nil
      with False Pair show ?thesis by (simp add: parse_operand_def)
    next
      case (Cons c r)
      then have "length r < length s" using skip_ws_Cons [OF Cons] le by simp
      with False Pair Cons show ?thesis
        by (auto simp: parse_operand_def intro: advances_mono [OF parse_slice_forward])
    qed
  qed
qed

lemma parse_primary_forward: "forward n (parse_primary n)"
proof (induction n)
  case (Suc n)
  then have logical: "forward n (parse_logical n (parse_primary n))"
    by (rule parse_logical_forward)
  show ?case
    unfolding forward_def
  proof (intro allI impI)
    fix s err :: string assume l: "length s < Suc n"
    obtain b r where e: "eat (CHR ''('') s = (b, r)" by (cases "eat (CHR ''('') s")
    note r = eat_forward [OF e]
    show "advances s err (parse_primary (Suc n) s err)"
    proof (cases b)
      case True
      with r l have "length r < n" by simp
      with logical have h: "advances r err (parse_logical n (parse_primary n) r err)"
        by (auto intro: forwardD)
      show ?thesis
        using True e h r eat_forward [of "CHR '')''"]
        by (fastforce split: pres.splits prod.splits bool.splits)
    next
      case False
      show ?thesis
      proof (cases "\<exists>c r'. r = c # r' \<and> (c = CHR ''~'' \<or> c = CHR ''!'' \<or> c = CHR ''-'')")
        case True
        then obtain c r' where c: "r = c # r'" "c = CHR ''~'' \<or> c = CHR ''!'' \<or> c = CHR ''-''" by blast
        with r l have "length r' < n" by simp
        with Suc have "advances r' err (parse_primary n r' err)"
          by (auto intro: forwardD)
        with \<open>\<not> b\<close> e c r show ?thesis by (auto split: pres.splits)
      next
        case nu: False
        then have "parse_primary (Suc n) s err = parse_operand r err"
          using \<open>\<not> b\<close> e by (auto split: list.splits)
        with r show ?thesis
          by (auto intro: advances_mono [OF parse_operand_forward])
      qed
    qed
  qed
qed (simp add: forward_def)

text \<open>
  Claim C34. The parser is total: on every text it neither loops nor runs out of fuel; a tree comes with
  the whole text consumed and no error, and the null pointer always with a non-empty error text.
\<close>

theorem parse_expression_total:
  "case parse_expression text of
     Node e r err \<Rightarrow> r = [] \<and> err = []
   | Null r err \<Rightarrow> err \<noteq> []
   | Fault f \<Rightarrow> True
   | Out_of_fuel \<Rightarrow> False"
proof -
  let ?n = "Suc (length text)"
  have "forward ?n (parse_logical ?n (parse_primary ?n))"
    by (rule parse_logical_forward) (rule parse_primary_forward)
  then have "advances text [] (parse_logical ?n (parse_primary ?n) text [])"
    by (auto intro: forwardD)
  then show ?thesis
    by (auto simp: parse_expression_def parse_expression_fuel_def simp del: parse_primary.simps
        split: pres.splits)
qed


end
