(* ===== verification/Expr_Print.thy ===== *)
theory Expr_Print
  imports Expr_Parser
begin

text \<open>
  A reference printer for the expression language of \<open>waveform/expr/expr_eval.cpp\<close>, and that the parser of
  \<open>Expr_Parser\<close> inverts it. The printer is specification: it writes every binary operator in parentheses
  and constants with the program's own \<open>sv_literal\<close>. The proof goes through the chain of levels once, for
  all operators: a matcher below the operator's level misses, its own level's matcher hits.
\<close>

section \<open>Printing\<close>

text \<open>
  The trees the printer is meant for: hierarchical names of identifier parts, slice bounds that fit an
  \<open>int\<close>, operators of the language, and constants that are a sized bit string (a known one of at most 64
  bits, the width of the parser's accumulator; at most nine digits of width).
\<close>

definition ident_part :: "string \<Rightarrow> bool" where
  "ident_part p \<longleftrightarrow> (case p of [] \<Rightarrow> False | c # r \<Rightarrow> ident_start c \<and> (\<forall>d \<in> set r. ident_char d))"

inductive hier_name :: "string \<Rightarrow> bool" where
  part: "ident_part p \<Longrightarrow> hier_name p"
| dot: "ident_part p \<Longrightarrow> hier_name n \<Longrightarrow> hier_name (p @ CHR ''.'' # n)"

definition binary_ops :: "string list" where
  "binary_ops =
     [''*'', ''/'', ''%'', ''+'', ''-'', ''<<'', ''>>'', ''<='', ''>='', ''<'', ''>'', ''==?z'', ''==?x'', ''==?i'',
      ''==='', ''!=='', ''=='', ''!='', ''&'', ''^'', ''|'', ''&&'', ''||'']"

definition sized_const :: "logic_value \<Rightarrow> bool" where
  "sized_const v \<longleftrightarrow>
     four_state (lv_bits v) \<and> lv_bits v \<noteq> [] \<and> length (lv_bits v) \<le> 999999999 \<and>
     v = logic_value_from_bits (lv_bits v) (int (length (lv_bits v))) \<and>
     (lv_known v \<longrightarrow> length (lv_bits v) \<le> 64)"

primrec wf_expr :: "expr_node \<Rightarrow> bool" where
  "wf_expr (Signal n) \<longleftrightarrow> hier_name n"
| "wf_expr (Slice n hi lo) \<longleftrightarrow> hier_name n \<and> 0 \<le> hi \<and> hi \<le> int_max \<and> 0 \<le> lo \<and> lo \<le> int_max"
| "wf_expr (Const v) \<longleftrightarrow> sized_const v"
| "wf_expr (Unary op e) \<longleftrightarrow> op \<in> {''~'', ''!'', ''-''} \<and> wf_expr e"
| "wf_expr (Binary op l r) \<longleftrightarrow> op \<in> set binary_ops \<and> wf_expr l \<and> wf_expr r"

primrec print_expr :: "expr_node \<Rightarrow> string" where
  "print_expr (Signal n) = n"
| "print_expr (Slice n hi lo) = n @ ''['' @ to_string_int hi @ '':'' @ to_string_int lo @ '']''"
| "print_expr (Const v) = sv_literal v (CHR ''b'')"
| "print_expr (Unary op e) = op @ print_expr e"
| "print_expr (Binary op l r) = ''('' @ print_expr l @ '' '' @ op @ '' '' @ print_expr r @ '')''"

lemma skip_ws_space [simp]: "skip_ws (CHR '' '' # s) = skip_ws s"
  by (simp add: skip_ws_def char_class)

definition stops :: "string \<Rightarrow> bool" where
  "stops s \<longleftrightarrow> (s = [] \<or> hd s = CHR '' '' \<or> hd s = CHR '')'') \<and> take 1 (skip_ws s) \<noteq> ''[''"

lemma stops_cases: "stops s \<Longrightarrow> s = [] \<or> (\<exists>r. s = CHR '' '' # r) \<or> (\<exists>r. s = CHR '')'' # r)"
  by (cases s) (auto simp: stops_def)

lemma stops_simps [simp]: "stops []" "stops (CHR '')'' # s)"
  by (simp_all add: stops_def skip_ws_def char_class)

lemma skip_ws_idem [simp]: "skip_ws (skip_ws s) = skip_ws s"
  by (simp add: skip_ws_def)

lemma skip_ws_solid: "\<not> is_space c \<Longrightarrow> skip_ws (c # s) = c # s"
  by (simp add: skip_ws_def)

subsection \<open>Identifiers\<close>

lemma takeWhile_run: "\<forall>c \<in> set p. P c \<Longrightarrow> takeWhile P (p @ r) = p @ takeWhile P r"
  "\<forall>c \<in> set p. P c \<Longrightarrow> dropWhile P (p @ r) = dropWhile P r"
  by (induction p) auto

lemma ident_start_char: "ident_start c \<Longrightarrow> ident_char c"
  by (auto simp: ident_start_def ident_char_def is_alnum_def)

lemma ident_part_chars: "ident_part p \<Longrightarrow> \<forall>c \<in> set p. ident_char c"
  by (auto simp: ident_part_def ident_start_char split: list.splits)

definition off_ident :: "string \<Rightarrow> bool" where
  "off_ident s \<longleftrightarrow> (case s of [] \<Rightarrow> True | c # r \<Rightarrow> \<not> ident_char c \<and> c \<noteq> CHR ''.'')"

lemma off_ident_simps [simp]: "off_ident []" "off_ident (CHR ''['' # s)" "stops s \<Longrightarrow> off_ident s"
  by (auto simp: off_ident_def ident_char_def char_class dest: stops_cases)

lemma off_ident_take: "off_ident s \<Longrightarrow> takeWhile ident_char s = [] \<and> dropWhile ident_char s = s"
  by (auto simp: off_ident_def split: list.splits)

lemma dot_not_ident [simp]: "\<not> ident_char (CHR ''.'')"
  by (simp add: ident_char_def char_class)

lemma dotted_tail_step:
  "ident_part p \<Longrightarrow> dotted_tail (CHR ''.'' # p @ r) =
     (let (tail, rest) = dotted_tail (dropWhile ident_char r)
      in (CHR ''.'' # p @ takeWhile ident_char r @ tail, rest))"
proof -
  assume p: "ident_part p"
  then obtain c q where c: "p = c # q" "ident_start c" by (auto simp: ident_part_def split: list.splits)
  show ?thesis
    using takeWhile_run [OF ident_part_chars [OF p], of r] c
    by (subst dotted_tail.simps) (simp split: prod.splits)
qed

lemma dotted_tail_off: "off_ident s \<Longrightarrow> dotted_tail s = ([], s)"
  by (subst dotted_tail.simps) (auto simp: off_ident_def split: list.splits)

lemma dotted_tail_name:
  "hier_name n \<Longrightarrow> off_ident s \<Longrightarrow> dotted_tail (CHR ''.'' # n @ s) = (CHR ''.'' # n, s)"
proof (induction rule: hier_name.induct)
  case (part p)
  then show ?case by (simp add: dotted_tail_step off_ident_take dotted_tail_off)
next
  case (dot p n)
  then show ?case using dotted_tail_step [OF dot.hyps(1), of "CHR ''.'' # n @ s"] by simp
qed

lemma ident_start_solid: "ident_start c \<Longrightarrow> \<not> is_space c"
  by (auto simp: ident_start_def char_class)

lemma parse_identifier_part:
  "ident_part p \<Longrightarrow> parse_identifier (p @ r) =
     (let (tail, rest) = dotted_tail (dropWhile ident_char r) in (p @ takeWhile ident_char r @ tail, rest))"
proof -
  assume p: "ident_part p"
  then obtain c q where c: "p = c # q" "ident_start c" "\<forall>d \<in> set q. ident_char d"
    by (auto simp: ident_part_def split: list.splits)
  then show ?thesis
    using takeWhile_run [OF c(3), of r]
    by (simp add: parse_identifier_def skip_ws_solid ident_start_solid)
qed

lemma parse_identifier_name: "hier_name n \<Longrightarrow> off_ident s \<Longrightarrow> parse_identifier (n @ s) = (n, s)"
proof (induction rule: hier_name.cases)
  case (part p)
  then show ?case by (simp add: parse_identifier_part off_ident_take dotted_tail_off)
next
  case (dot p m)
  then show ?case using parse_identifier_part [OF dot(2), of "CHR ''.'' # m @ s"]
    by (simp add: dotted_tail_name)
qed

lemma hier_name_Cons: "hier_name n \<Longrightarrow> \<exists>c r. n = c # r \<and> ident_start c"
  by (induction rule: hier_name.induct) (auto simp: ident_part_def split: list.splits)

subsection \<open>Operands\<close>

lemma eat_miss: "\<not> is_space c \<Longrightarrow> c \<noteq> d \<Longrightarrow> eat d (c # s) = (False, c # s)"
  by (simp add: eat_def skip_ws_solid)

lemma eat_hit: "\<not> is_space c \<Longrightarrow> eat c (c # s) = (True, s)"
  by (simp add: eat_def skip_ws_solid)

lemma parse_operand_signal:
  "hier_name n \<Longrightarrow> stops s \<Longrightarrow> parse_operand (n @ s) err = Node (Signal n) (skip_ws s) err"
  using hier_name_Cons [of n]
  by (auto simp: parse_operand_def parse_identifier_name stops_def split: list.splits)

lemma digits_not_sep: "\<forall>c \<in> set (dec_digits n). c \<noteq> CHR '':'' \<and> c \<noteq> CHR '']''"
  using dec_digits_all_digits [of n] by (auto simp: char_class)

lemma to_string_nonneg: "0 \<le> i \<Longrightarrow> to_string_int i = dec_digits (nat i)"
  by (simp add: to_string_int_def)

lemma parse_operand_slice:
  assumes "hier_name n" "0 \<le> hi" "hi \<le> int_max" "0 \<le> lo" "lo \<le> int_max"
  shows "parse_operand (print_expr (Slice n hi lo) @ s) err = Node (Slice n hi lo) s err"
proof -
  have p: "parse_identifier (n @ CHR ''['' # t) = (n, CHR ''['' # t)" for t
    using assms(1) by (simp add: parse_identifier_name)
  have "n \<noteq> []" using hier_name_Cons [OF assms(1)] by auto
  have sl: "parse_slice n (dec_digits (nat hi) @ CHR '':'' # dec_digits (nat lo) @ CHR '']'' # s) err = Node (Slice n hi lo) s err"
  proof -
    let ?P = "\<lambda>c. c \<noteq> CHR '':'' \<and> c \<noteq> CHR '']''" and ?Q = "\<lambda>c. c \<noteq> CHR '']''"
    have "skip_ws (CHR '':'' # t) = CHR '':'' # t" for t by (simp add: skip_ws_def char_class)
    moreover have "\<forall>c \<in> set (dec_digits (nat lo)). ?Q c" using digits_not_sep by blast
    ultimately show ?thesis
      using takeWhile_run [OF digits_not_sep, of "nat hi"] takeWhile_run [of "dec_digits (nat lo)" ?Q] assms
      by (simp add: parse_slice_def eat_hit char_class atoi_dec_digits)
  qed
  show ?thesis
    using p sl assms \<open>n \<noteq> []\<close>
    by (simp add: parse_operand_def skip_ws_solid char_class to_string_nonneg)
qed

lemma four_state_alnum: "four_state b \<Longrightarrow> \<forall>c \<in> set b. is_alnum c \<or> c = CHR ''_''"
  by (auto simp: four_state_def char_class)

lemma dec_digits_length_less: "n < 10 ^ Suc k \<Longrightarrow> length (dec_digits n) \<le> Suc k"
proof (induction k arbitrary: n)
  case 0
  then show ?case by (subst dec_digits.simps) simp
next
  case (Suc k)
  then have "n div 10 < 10 ^ Suc k" by simp
  from Suc.IH [OF this] show ?case by (subst dec_digits.simps) simp
qed

lemma parse_radix_bin:
  assumes "sized_const v"
  shows "parse_radix (lv_bits v) (CHR ''b'') (int (length (lv_bits v))) = Inr v"
proof -
  let ?b = "lv_bits v" and ?n = "int (length (lv_bits v))"
  have v: "v = logic_value_from_bits ?b ?n" and ne: "?b \<noteq> []" and f: "four_state ?b"
    using assms by (auto simp: sized_const_def)
  have k: "lv_known v = two_state ?b" "lv_has_z v = (set ?b \<inter> {CHR ''z'', CHR ''Z'', CHR ''l''} \<noteq> {})"
    "lv_has_x v = (\<not> set ?b \<subseteq> {CHR ''0'', CHR ''1'', CHR ''z'', CHR ''Z'', CHR ''l''})" "lv_width v = ?n"
    using logic_value_from_bits_flags [of ?b ?n] v ne by (metis, metis, metis, metis from_bits_fields(2))
  show ?thesis
  proof (cases "two_state ?b")
    case True
    with k assms have l: "length ?b \<le> 64" by (simp add: sized_const_def)
    have "bits_nat ?b < 2 ^ 64"
      using bits_nat_less [of ?b] l by (meson less_le_trans one_le_numeral power_increasing)
    then have "unat (word_of_nat (bits_nat ?b) :: u64) = bits_nat ?b"
      by (simp add: unat_of_nat)
    moreover have "\<not> digits_unknown ?b" using True by (auto simp: digits_unknown_def two_state_def)
    moreover have "v = \<lparr>lv_bits = ?b, lv_width = ?n, lv_known = True, lv_has_x = False, lv_has_z = False\<rparr>"
      using v from_bits_known [OF True, of ?n] by simp
    ultimately show ?thesis
      using ne l True unfolding parse_radix_def nibble_fold
      by (simp add: from_u64_eq logic_value_init_def)
  next
    case False
    then have "digits_unknown ?b" using f by (auto simp: digits_unknown_def two_state_def four_state_def)
    moreover have "set ?b \<subseteq> {CHR ''0'', CHR ''1'', CHR ''x'', CHR ''z''}"
      using f by (auto simp: four_state_def)
    then have "lv_has_x v = (CHR ''x'' \<in> set ?b)" "lv_has_z v = (CHR ''z'' \<in> set ?b)"
      unfolding k by auto
    ultimately show ?thesis using False k(1,4)
      by (auto simp: parse_radix_def Let_def intro!: logic_value.equality)
  qed
qed

lemma parse_operand_const:
  assumes c: "sized_const v" and s: "stops s"
  shows "parse_operand (print_expr (Const v) @ s) err = Node (Const v) s err"
proof -
  let ?b = "lv_bits v" let ?d = "dec_digits (length ?b)" let ?t = "?d @ CHR 0x27 # CHR ''b'' # ?b @ s"
  have b: "four_state ?b" "?b \<noteq> []" "length ?b \<le> 999999999" and v: "v = logic_value_from_bits ?b (int (length ?b))"
    using c by (auto simp: sized_const_def)
  have pr: "print_expr (Const v) @ s = ?t"
    using b v width_prefix_from_bits [of ?b] by (simp add: sv_literal_def)
  have d: "\<forall>c \<in> set ?d. is_digit c" by (rule dec_digits_all_digits)
  obtain c0 r0 where d0: "?d = c0 # r0" "is_digit c0" using d by (cases ?d) auto
  then have sk: "skip_ws ?t = ?t" "parse_identifier ?t = ([], ?t)"
    by (auto simp: skip_ws_solid parse_identifier_def ident_start_def char_class)
  have f: "str_find (CHR 0x27) ?t = Some (length ?d)"
    using d plain_digit by (intro str_find_append) blast
  have run: "takeWhile (\<lambda>c. is_alnum c \<or> c = CHR ''_'') (?b @ s) = ?b"
    "dropWhile (\<lambda>c. is_alnum c \<or> c = CHR ''_'') (?b @ s) = s"
    using takeWhile_run [OF four_state_alnum [OF b(1)], of s] stops_cases [OF s] by (auto simp: char_class)
  have "length ?d \<le> 9" using dec_digits_length_less [of "length ?b" 8] b(3) by simp
  moreover have "lowercase (filter (\<lambda>c. c \<noteq> CHR ''_'') ?b) = ?b"
    using plain_four_state [OF b(1)] by (auto simp: plain_text_def lowercase_def filter_id_conv map_idI)
  moreover have "to_lower (CHR ''b'') = CHR ''b''" by (simp add: char_class)
  ultimately have "parse_based_const ?t = Some (Inr (v, s))"
    using f d run parse_radix_bin [OF c] b(3)
    by (simp add: parse_based_const_def atoi_dec_digits int_max_def)
  with sk b(2) show ?thesis
    unfolding pr by (simp add: parse_operand_def parse_const_def)
qed

subsection \<open>The chain of levels\<close>

definition matchers :: "matcher list" where
  "matchers = [match_mul, match_add, match_shift, match_cmp, match_eq, match_and, match_xor, match_or, match_logical]"

definition levels :: "nat \<Rightarrow> matcher list \<Rightarrow> parser \<Rightarrow> parser" where
  "levels n ms prim = foldl (\<lambda>p m. parse_level n m p) prim ms"

lemma parse_logical_levels: "parse_logical n prim = levels n matchers prim"
  by (simp add: levels_def matchers_def parse_logical_def parse_or_def parse_xor_def parse_and_def parse_eq_def
      parse_cmp_def parse_shift_def parse_add_def parse_mul_def)

definition misses :: "matcher \<Rightarrow> string \<Rightarrow> bool" where
  "misses m s \<longleftrightarrow> m s = (None, skip_ws s)"

lemmas matcher_defs = match_mul_def match_add_def match_shift_def match_cmp_def match_eq_def match_and_def
  match_xor_def match_or_def match_logical_def

lemma matcher_skip: "m \<in> set matchers \<Longrightarrow> m (skip_ws s) = m s"
  by (auto simp: matchers_def matcher_defs)

lemma misses_skip: "m \<in> set matchers \<Longrightarrow> skip_ws s = skip_ws t \<Longrightarrow> misses m s = misses m t"
  using matcher_skip [of m s] matcher_skip [of m t] by (simp add: misses_def)

lemma levels_miss:
  assumes "prim s err = Node l r err" "\<forall>m \<in> set ms. misses m r" "set ms \<subseteq> set matchers"
  shows "\<exists>r'. levels (Suc n) ms prim s err = Node l r' err \<and> skip_ws r' = skip_ws r"
  using assms(2,3)
proof (induction ms rule: rev_induct)
  case (snoc m ms)
  then obtain r' where "levels (Suc n) ms prim s err = Node l r' err" "skip_ws r' = skip_ws r" by auto
  moreover from this snoc.prems have "m r' = (None, skip_ws r)"
    using misses_skip [of m r' r] by (auto simp: misses_def)
  ultimately show ?case by (simp add: levels_def parse_level_def)
qed (use assms(1) in \<open>simp add: levels_def\<close>)

lemma levels_append: "levels n (ms @ ms') prim = levels n ms' (levels n ms prim)"
  by (simp add: levels_def)

lemma levels_hit:
  assumes ms: "matchers = pre @ m # post"
    and l: "prim s err = Node l r1 err" "\<forall>m \<in> set pre. misses m r1" "m r1 = (Some op, r2)"
    and r: "prim r2 err = Node r r3 err" "\<forall>m \<in> set matchers. misses m r3"
  shows "\<exists>r'. levels (Suc (Suc n)) matchers prim s err = Node (Binary op l r) r' err \<and> skip_ws r' = skip_ws r3"
proof -
  let ?sub = "levels (Suc (Suc n)) pre prim"
  have sub: "set pre \<subseteq> set matchers" "m \<in> set matchers" "set post \<subseteq> set matchers" by (auto simp: ms)
  obtain q1 where q1: "?sub s err = Node l q1 err" "skip_ws q1 = skip_ws r1"
    using levels_miss [where prim = prim, OF l(1,2) sub(1)] by blast
  obtain q3 where q3: "?sub r2 err = Node r q3 err" "skip_ws q3 = skip_ws r3"
    using levels_miss [where prim = prim, OF r(1) _ sub(1)] r(2) sub(1) by blast
  have "m q1 = (Some op, r2)" using matcher_skip [OF sub(2)] q1(2) l(3) by metis
  moreover have "m q3 = (None, skip_ws r3)"
    using misses_skip [OF sub(2) q3(2)] q3(2) r(2) sub(2) by (auto simp: misses_def)
  ultimately have "levels (Suc (Suc n)) (pre @ [m]) prim s err = Node (Binary op l r) (skip_ws r3) err"
    using q1(1) q3(1) by (simp add: levels_append levels_def [of _ "[m]"] parse_level_def)
  moreover have "\<forall>m \<in> set post. misses m (skip_ws r3)"
    using sub(3) r(2) misses_skip [OF _ skip_ws_idem [of r3]] by blast
  ultimately show ?thesis
    using levels_miss [of "levels (Suc (Suc n)) (pre @ [m]) prim" s err _ "skip_ws r3" post "Suc n"] sub(3)
      levels_append [of _ "pre @ [m]" post]
    by (simp add: ms)
qed

lemma miss_close: "skip_ws s = CHR '')'' # t \<or> skip_ws s = [] \<Longrightarrow> m \<in> set matchers \<Longrightarrow> misses m s"
  by (auto simp: misses_def matchers_def matcher_defs split: list.split)

lemma ex_less_Suc_0: "(\<exists>i < Suc n. P i) \<longleftrightarrow> P 0 \<or> (\<exists>i < n. P (Suc i))"
  by (auto simp: less_Suc_eq_0_disj)

lemma hit_op:
  assumes "op \<in> set binary_ops" "skip_ws s = op @ CHR '' '' # t"
  shows "\<exists>pre m post. matchers = pre @ m # post \<and> (\<forall>m \<in> set pre. misses m s) \<and> m s = (Some op, CHR '' '' # t)"
proof -
  have "\<exists>i < length matchers. (\<forall>m \<in> set (take i matchers). misses m s) \<and> (matchers ! i) s = (Some op, CHR '' '' # t)"
    using assms unfolding binary_ops_def list.set
    by (elim insertE)
      (simp_all add: matchers_def ex_less_Suc_0 misses_def matcher_defs Let_def)
  then show ?thesis by (metis id_take_nth_drop)
qed


subsection \<open>Primaries\<close>

lemma binary_op_head: "op \<in> set binary_ops \<Longrightarrow> \<exists>c r. op = c # r \<and> \<not> is_space c \<and> c \<noteq> CHR ''[''"
  unfolding binary_ops_def list.set by (elim insertE) (simp_all add: char_class)

lemma stops_op: "op \<in> set binary_ops \<Longrightarrow> stops (CHR '' '' # op @ t)"
  using binary_op_head [of op] by (auto simp: stops_def skip_ws_solid)

lemma skip_ws_op: "op \<in> set binary_ops \<Longrightarrow> skip_ws (CHR '' '' # op @ t) = op @ t"
  using binary_op_head [of op] by (auto simp: skip_ws_solid)

lemma operand_head: "wf_expr e \<Longrightarrow> (\<And>op a. e \<noteq> Unary op a) \<Longrightarrow> (\<And>op a b. e \<noteq> Binary op a b) \<Longrightarrow>
    \<exists>c r. print_expr e = c # r \<and> \<not> is_space c \<and> c \<noteq> CHR ''('' \<and> c \<noteq> CHR ''~'' \<and> c \<noteq> CHR ''!'' \<and> c \<noteq> CHR ''-''"
proof (cases e)
  case (Const v)
  assume "wf_expr e"
  with Const have "lv_bits v \<noteq> []" "v = logic_value_from_bits (lv_bits v) (int (length (lv_bits v)))"
    by (auto simp: sized_const_def)
  then have "\<exists>r. print_expr e = dec_digits (length (lv_bits v)) @ r"
    using Const width_prefix_from_bits [of "lv_bits v"] by (auto simp: sv_literal_def)
  moreover obtain c r where "dec_digits (length (lv_bits v)) = c # r" "is_digit c"
    using dec_digits_all_digits [of "length (lv_bits v)"] by (cases "dec_digits (length (lv_bits v))") auto
  ultimately show ?thesis by (auto simp: char_class)
qed (auto dest!: hier_name_Cons simp: ident_start_def char_class)

lemma parse_operand_print:
  assumes "wf_expr e" "\<And>op a. e \<noteq> Unary op a" "\<And>op a b. e \<noteq> Binary op a b" "stops s"
  shows "\<exists>r. parse_operand (print_expr e @ s) err = Node e r err \<and> skip_ws r = skip_ws s"
  using assms parse_operand_signal parse_operand_slice [of _ _ _ s] parse_operand_const [of _ s]
  by (cases e) (auto simp del: print_expr.simps(2,3))

lemma parse_primary_operand:
  assumes "wf_expr e" "\<And>op a. e \<noteq> Unary op a" "\<And>op a b. e \<noteq> Binary op a b" "stops s" "0 < n"
  shows "\<exists>r. parse_primary n (print_expr e @ s) err = Node e r err \<and> skip_ws r = skip_ws s"
  using operand_head [OF assms(1-3)] parse_operand_print [OF assms(1-4), of err] assms(5)
  by (cases n) (auto simp: eat_miss)

lemma parse_primary_print:
  "wf_expr e \<Longrightarrow> stops s \<Longrightarrow> length (print_expr e) < n \<Longrightarrow>
     \<exists>r. parse_primary n (print_expr e @ s) err = Node e r err \<and> skip_ws r = skip_ws s"
proof (induction e arbitrary: s n err)
  case (Unary op e)
  then obtain k where n: "n = Suc k" by (cases n) auto
  with Unary.prems obtain r where "parse_primary k (print_expr e @ s) err = Node e r err" "skip_ws r = skip_ws s"
    using Unary.IH [of s k err] by auto
  with Unary.prems n show ?case by (auto simp: eat_miss char_class)
next
  case (Binary op a b)
  let ?tb = "CHR '' '' # print_expr b @ CHR '')'' # s"
  let ?t = "print_expr a @ CHR '' '' # op @ ?tb"
  obtain k where n: "n = Suc (Suc (Suc k))" using Binary.prems by (cases n rule: nat.exhaust; auto; metis Suc_lessE)
  let ?n = "Suc (Suc k)"
  have op: "op \<in> set binary_ops" using Binary.prems by simp
  obtain r1 where r1: "parse_primary ?n ?t err = Node a r1 err" "skip_ws r1 = op @ ?tb"
    using Binary.IH(1) [of "CHR '' '' # op @ ?tb" ?n err] Binary.prems n stops_op [OF op] skip_ws_op [OF op]
    by auto
  obtain r3 where r3: "parse_primary ?n ?tb err = Node b r3 err" "skip_ws r3 = CHR '')'' # s"
    using Binary.IH(2) [of "CHR '')'' # s" ?n err] Binary.prems n
    by (auto simp: eat_def skip_ws_solid char_class)
  obtain pre m post where m: "matchers = pre @ m # post" "\<forall>m \<in> set pre. misses m r1" "m r1 = (Some op, ?tb)"
    using hit_op [OF op, of r1] r1(2) by auto
  obtain q where q: "levels ?n matchers (parse_primary ?n) ?t err = Node (Binary op a b) q err" "skip_ws q = CHR '')'' # s"
    using levels_hit [where prim = "parse_primary ?n" and n = k, OF m(1) r1(1) m(2,3) r3(1)] miss_close [of r3 s] r3(2) by auto
  have "print_expr (Binary op a b) @ s = CHR ''('' # ?t" by simp
  with q n show ?case
    by (simp add: parse_logical_levels eat_def skip_ws_solid char_class)
qed (auto intro!: parse_primary_operand simp del: print_expr.simps)


text \<open>
  Claim C35 (roundtrip). Printing a tree in the fully parenthesised form and parsing the text gives the
  tree back, for every operator of the language, with the text consumed and no error.
\<close>

theorem parse_print_roundtrip:
  assumes "wf_expr e"
  shows "parse_expression (print_expr e) = Node e [] []"
proof -
  let ?n = "Suc (length (print_expr e))"
  obtain r where r: "parse_primary ?n (print_expr e) [] = Node e r []" "skip_ws r = []"
    using parse_primary_print [OF assms, of "[]" ?n "[]"] by (auto simp: skip_ws_def)
  obtain q where "levels ?n matchers (parse_primary ?n) (print_expr e) [] = Node e q []" "skip_ws q = []"
    using levels_miss [where prim = "parse_primary ?n" and ms = matchers, OF r(1)] miss_close [of r] r(2) by auto
  then show ?thesis
    by (simp add: parse_expression_def parse_expression_fuel_def parse_logical_levels at_end_def)
qed

theorem parse_print_roundtrip_witness:
  "parse_expression ''(tb.a[7:4] === 4'b1x0z)'' =
   Node (Binary ''==='' (Slice ''tb.a'' 7 4) (Const (logic_value_from_bits ''1x0z'' 4))) [] []"
proof -
  let ?e = "Binary ''==='' (Slice ''tb.a'' 7 4) (Const (logic_value_from_bits ''1x0z'' 4))"
  have "hier_name (''tb'' @ CHR ''.'' # ''a'')"
    by (rule hier_name.dot) (auto intro!: hier_name.part simp: ident_part_def ident_start_def ident_char_def char_class)
  moreover have "sized_const (logic_value_from_bits ''1x0z'' 4)"
    by (simp add: sized_const_def four_state_def logic_value_from_bits_flags two_state_def)
  ultimately have "wf_expr ?e" by (simp add: binary_ops_def int_max_def)
  moreover have "print_expr ?e = ''(tb.a[7:4] === 4'b1x0z)''"
    by code_simp
  ultimately show ?thesis using parse_print_roundtrip [of ?e] by (simp only:)
qed

text \<open>
  The levels bind in the order of the source, and \<open>&&\<close> and \<open>||\<close> share the weakest
  one: for signals \<open>a\<close>, \<open>b\<close>, \<open>c\<close> the input \<open>a || b && c\<close> is read as \<open>(a || b) && c\<close>, and \<open>a | b & c\<close> as
  \<open>a | (b & c)\<close>.
\<close>

theorem logical_level_shared:
  "parse_expression ''a || b && c'' =
     Node (Binary ''&&'' (Binary ''||'' (Signal ''a'') (Signal ''b'')) (Signal ''c'')) [] [] \<and>
   parse_expression ''a | b & c'' =
     Node (Binary ''|'' (Signal ''a'') (Binary ''&'' (Signal ''b'') (Signal ''c''))) [] []"
  by code_simp

end
