(* ===== verification/Waveform_Interface.thy ===== *)
theory Waveform_Interface
  imports Cxx_Prelude
begin

text \<open>
  The data types of the waveform interface \<open>backend/waveform_backend.h\<close> and the interface itself. The
  observing methods of \<open>IWaveformBackend\<close> are the fields of the record \<open>waveform\<close>: its clients (expression
  evaluation, clock sampling, the protocol scans) take the record as an argument. The locale
  \<open>waveform_contract\<close> is what the header promises of them, stated against the list of value changes of a
  signal: which change a sampled value is taken from at each observation point.
\<close>

section \<open>Types\<close>

type_synonym signal_ref = u32

definition kInvalidSignalRef :: signal_ref where
  "kInvalidSignalRef = 0"

datatype value_kind = BitVector | Real | String_value | Event

text \<open>A \<open>double\<close> is represented by its bit pattern.\<close>

datatype double = Double u64

record waveform_value =
  wv_kind :: value_kind
  wv_text :: string
  wv_real :: double

definition waveform_value_init :: waveform_value where
  "waveform_value_init = \<lparr>wv_kind = BitVector, wv_text = [], wv_real = Double 0\<rparr>"

record signal_info =
  si_encoding :: value_kind
  si_num_changes :: u32
  si_max_states :: u32
  si_width :: u32
  si_bytes_per_entry :: u32
  si_has_meta_byte :: bool

datatype observation_point = Raw | Before | After

record sampled_value =
  sv_value :: waveform_value
  sv_time_idx :: nat
  sv_element :: u16
  sv_elements_at_time :: u16
  sv_time_match :: bool

record signal_change =
  sc_time_idx :: nat
  sc_time :: u64
  sc_delta :: u16
  sc_value :: waveform_value

record scan_diagnostics =
  sd_total_count :: u32
  sd_returned_count :: u32
  sd_width :: u32
  sd_encoding :: value_kind
  sd_scan_complete :: bool
  sd_analysis_complete :: bool
  sd_truncated :: bool

record signal_offset =
  so_start :: nat
  so_elements :: u16
  so_time_match :: bool
  so_next_idx :: nat
  so_has_next :: bool

section \<open>The interface\<close>

record waveform =
  wf_time_at :: "nat \<Rightarrow> u64"
  wf_find_signal :: "string \<Rightarrow> signal_ref"
  wf_signal_info :: "signal_ref \<Rightarrow> signal_info option"
  wf_sampled_value_at :: "signal_ref \<Rightarrow> nat \<Rightarrow> observation_point \<Rightarrow> sampled_value option"
  wf_time_indices_of :: "signal_ref \<Rightarrow> nat list"

section \<open>The contract\<close>

text \<open>
  What a sampled value is, against the list of changes: the last change strictly before the time index for
  \<open>Before\<close>, the last one up to and including it for \<open>Raw\<close> and \<open>After\<close>.
\<close>

definition observe :: "(nat \<times> 'v) list \<Rightarrow> nat \<Rightarrow> observation_point \<Rightarrow> 'v option" where
  "observe changes ti point =
     (let prior = filter (\<lambda>(t, v). if point = Before then t < ti else t \<le> ti) changes
      in if prior = [] then None else Some (snd (last prior)))"

locale waveform_contract =
  fixes valid :: "'r \<Rightarrow> bool"
    and changes :: "'r \<Rightarrow> (nat \<times> waveform_value) list"
    and indices :: "'r \<Rightarrow> nat list"
    and sampled :: "'r \<Rightarrow> nat \<Rightarrow> observation_point \<Rightarrow> sampled_value option"
  assumes changes_sorted: "valid r \<Longrightarrow> sorted (map fst (changes r))"
    and indices_changes: "valid r \<Longrightarrow> indices r = map fst (changes r)"
    and sampled_observe: "valid r \<Longrightarrow> map_option sv_value (sampled r ti point) = observe (changes r) ti point"
    and sampled_match: "valid r \<Longrightarrow> sampled r ti point = Some s \<Longrightarrow> sv_time_match s \<longleftrightarrow> ti \<in> set (indices r)"
begin

lemma raw_after: "valid r \<Longrightarrow> map_option sv_value (sampled r ti After) = map_option sv_value (sampled r ti Raw)"
  by (simp add: sampled_observe observe_def)

lemma before_between: "valid r \<Longrightarrow> ti \<notin> set (indices r) \<Longrightarrow>
    map_option sv_value (sampled r ti Before) = map_option sv_value (sampled r ti Raw)"
proof -
  assume v: "valid r" and ti: "ti \<notin> set (indices r)"
  then have "\<forall>c \<in> set (changes r). (fst c < ti) = (fst c \<le> ti)"
    using indices_changes [OF v] by (auto simp: order_le_less)
  then have "filter (\<lambda>(t, v). t < ti) (changes r) = filter (\<lambda>(t, v). t \<le> ti) (changes r)"
    by (intro filter_cong refl) auto
  with v show ?thesis by (simp add: sampled_observe observe_def)
qed

lemma before_is_previous: "valid r \<Longrightarrow> 0 < ti \<Longrightarrow>
    map_option sv_value (sampled r ti Before) = map_option sv_value (sampled r (ti - 1) Raw)"
proof -
  assume v: "valid r" and "0 < ti"
  then have "(t < ti) = (t \<le> ti - 1)" for t by linarith
  with v show ?thesis by (simp add: sampled_observe observe_def)
qed

lemma raw_defined: "valid r \<Longrightarrow> ti \<in> set (indices r) \<Longrightarrow> \<exists>s. sampled r ti Raw = Some s \<and> sv_time_match s"
proof -
  assume v: "valid r" and ti: "ti \<in> set (indices r)"
  then have "filter (\<lambda>(t, v). t \<le> ti) (changes r) \<noteq> []"
    by (auto simp: indices_changes filter_empty_conv)
  then obtain s where "sampled r ti Raw = Some s"
    using sampled_observe [OF v, of ti Raw] by (auto simp: observe_def Let_def)
  with sampled_match [OF v this] ti show ?thesis by blast
qed

end

end
