(* ===== verification/Expr_Eval.thy ===== *)
theory Expr_Eval
  imports Expr_Parser Waveform_Interface
begin

unbundle bit_operations_syntax

text \<open>
  The evaluator of \<open>waveform/expr/expr_eval.cpp\<close>: four-state bitwise, arithmetic, comparison, equality and
  wildcard operators, \<open>eval_expression\<close> with its optional memo table \<open>samples\<close>, \<open>expr_eval_at\<close> and
  \<open>expression_signals\<close>. The waveform is the interface record of \<open>Waveform_Interface\<close>. Shifts and string
  lengths that C++ leaves undefined or throws on are faults. The lemmas show that the memo table is
  transparent, that evaluation only reads the listed signals, when it cannot fault, that it agrees with
  arithmetic modulo \<open>2^w\<close> on known values, and that unknown bits are treated pessimistically.
\<close>

section \<open>Operators\<close>

definition operand_width :: "logic_value \<Rightarrow> int" where
  "operand_width v = (if lv_width v > 0 then lv_width v else int (length (lv_bits v)))"

definition fit_operand :: "int \<Rightarrow> logic_value \<Rightarrow> string" where
  "fit_operand w v =
     (let b = pad_front (nat w) (if lv_known v then CHR ''0'' else CHR ''x'') (lv_bits v)
      in last_n (nat w) b)"

definition is_known_bit :: "char \<Rightarrow> bool" where
  "is_known_bit c \<longleftrightarrow> c = CHR ''0'' \<or> c = CHR ''1''"

definition bit_op :: "string \<Rightarrow> char \<Rightarrow> char \<Rightarrow> char" where
  "bit_op op ca cb =
     (if \<not> is_known_bit ca \<or> \<not> is_known_bit cb then CHR ''x''
      else let va = (ca = CHR ''1''); vb = (cb = CHR ''1'')
           in bit_char (if op = ''&'' then va \<and> vb else if op = ''|'' then va \<or> vb else va \<noteq> vb))"

definition bitwise :: "logic_value \<Rightarrow> logic_value \<Rightarrow> string \<Rightarrow> logic_value" where
  "bitwise a b op =
     (let w = max (operand_width a) (operand_width b);
          ps = zip (fit_operand w a) (fit_operand w b);
          unknown = filter (\<lambda>(ca, cb). \<not> is_known_bit ca \<or> \<not> is_known_bit cb) ps
      in \<lparr>lv_bits = map (\<lambda>(ca, cb). bit_op op ca cb) ps, lv_width = w, lv_known = (unknown = []),
          lv_has_x = (\<exists>(ca, cb) \<in> set unknown. \<not> (ca = CHR ''z'' \<or> cb = CHR ''z'')),
          lv_has_z = (\<exists>(ca, cb) \<in> set unknown. ca = CHR ''z'' \<or> cb = CHR ''z'')\<rparr>)"

datatype logical_truth_value = LFalse | LTrue | LUnknown

fun logical_truth_loop :: "string \<Rightarrow> bool \<Rightarrow> logical_truth_value" where
  "logical_truth_loop [] saw_unknown = (if saw_unknown then LUnknown else LFalse)"
| "logical_truth_loop (c # cs) saw_unknown =
     (if c = CHR ''1'' then LTrue else logical_truth_loop cs (saw_unknown \<or> c \<noteq> CHR ''0''))"

definition logical_truth :: "logic_value \<Rightarrow> logical_truth_value" where
  "logical_truth v = logical_truth_loop (lv_bits v) False"

definition unknown_bool :: logic_value where
  "unknown_bool = \<lparr>lv_bits = ''x'', lv_width = 1, lv_known = False, lv_has_x = True, lv_has_z = False\<rparr>"

definition from_bool :: "bool \<Rightarrow> logic_value result" where
  "from_bool b = logic_value_from_u64 (if b then 1 else 0) 1"

definition to_u64 :: "logic_value \<Rightarrow> u64" where
  "to_u64 v = foldl (\<lambda>acc c. push_bit 1 acc OR (if c = CHR ''1'' then 1 else 0)) 0 (lv_bits v)"

definition all_x :: "int \<Rightarrow> nat \<Rightarrow> logic_value" where
  "all_x w n = \<lparr>lv_bits = replicate n (CHR ''x''), lv_width = w, lv_known = False, lv_has_x = True, lv_has_z = False\<rparr>"

definition arith_width :: "logic_value \<Rightarrow> logic_value \<Rightarrow> int" where
  "arith_width a b =
     (if lv_width a > 0 \<and> lv_width b > 0 then max (lv_width a) (lv_width b)
      else if lv_width a > 0 then lv_width a
      else if lv_width b > 0 then lv_width b
      else max (int (length (lv_bits a))) (int (length (lv_bits b))))"

text \<open>
  The operators of \<open>uint64_t\<close> that the language leaves undefined on some operands: division and remainder by
  zero, and shifts by 64 or more. They fault, so that the guards of \<open>arith\<close> decide whether evaluation returns.
\<close>

definition u64_div :: "u64 \<Rightarrow> u64 \<Rightarrow> u64 result" where
  "u64_div x y = (if y = 0 then Inl Division_by_zero else Inr (x div y))"

definition u64_mod :: "u64 \<Rightarrow> u64 \<Rightarrow> u64 result" where
  "u64_mod x y = (if y = 0 then Inl Division_by_zero else Inr (x mod y))"

definition u64_shl :: "u64 \<Rightarrow> u64 \<Rightarrow> u64 result" where
  "u64_shl x y = (if 64 \<le> y then Inl Shift_overflow else Inr (push_bit (unat y) x))"

definition u64_shr :: "u64 \<Rightarrow> u64 \<Rightarrow> u64 result" where
  "u64_shr x y = (if 64 \<le> y then Inl Shift_overflow else Inr (drop_bit (unat y) x))"

definition arith_op :: "string \<Rightarrow> u64 \<Rightarrow> u64 \<Rightarrow> u64 result" where
  "arith_op op va vb =
     (if op = ''+'' then Inr (va + vb)
      else if op = ''-'' then Inr (va - vb)
      else if op = ''*'' then Inr (va * vb)
      else if op = ''/'' then (if vb = 0 then Inr 0 else u64_div va vb)
      else if op = ''%'' then (if vb = 0 then Inr 0 else u64_mod va vb)
      else if op = ''<<'' then u64_shl va (vb AND 63)
      else if op = ''>>'' then u64_shr va (vb AND 63)
      else Inr 0)"

definition arith :: "logic_value \<Rightarrow> logic_value \<Rightarrow> string \<Rightarrow> logic_value result" where
  "arith a b op =
     (let w = arith_width a b
      in if \<not> lv_known a \<or> \<not> lv_known b then Inr (all_x w (nat (max 1 w)))
         else rbind (arith_op op (to_u64 a) (to_u64 b)) (\<lambda>r. logic_value_from_u64 r w))"

definition cmp :: "logic_value \<Rightarrow> logic_value \<Rightarrow> string \<Rightarrow> logic_value result" where
  "cmp a b op =
     (if \<not> lv_known a \<or> \<not> lv_known b then Inr unknown_bool
      else let va = to_u64 a; vb = to_u64 b
           in from_bool (if op = ''<'' then va < vb
                         else if op = ''<='' then va \<le> vb
                         else if op = ''>'' then va > vb
                         else if op = ''>='' then va \<ge> vb
                         else False))"

definition padded_equal :: "logic_value \<Rightarrow> logic_value \<Rightarrow> bool" where
  "padded_equal a b =
     (let width = max (length (lv_bits a)) (length (lv_bits b))
      in replicate (width - length (lv_bits a)) (CHR ''0'') @ lv_bits a =
         replicate (width - length (lv_bits b)) (CHR ''0'') @ lv_bits b)"

definition eq :: "logic_value \<Rightarrow> logic_value \<Rightarrow> string \<Rightarrow> logic_value result" where
  "eq a b op =
     (let strict = (op = ''==='' \<or> op = ''!=='')
      in if (\<not> lv_known a \<or> \<not> lv_known b) \<and> \<not> strict then Inr unknown_bool
         else let equal = padded_equal a b
              in from_bool (if op = ''!='' \<or> op = ''!=='' then \<not> equal else equal))"

definition wildcard_extend :: "int \<Rightarrow> logic_value \<Rightarrow> string" where
  "wildcard_extend width v =
     (let bits = lv_bits v
      in if int (length bits) > width then last_n (nat width) bits
         else if int (length bits) < width then
           let fill = (if \<not> lv_known v \<and> bits \<noteq> [] \<and> (hd bits = CHR ''x'' \<or> hd bits = CHR ''z'')
                       then hd bits else CHR ''0'')
           in replicate (nat width - length bits) fill @ bits
         else bits)"

definition wildcard_case_eq :: "logic_value \<Rightarrow> logic_value \<Rightarrow> string \<Rightarrow> logic_value result" where
  "wildcard_case_eq a b op =
     (let width = max (operand_width a) (operand_width b);
          wild = (\<lambda>c. c = CHR ''z'' \<or> (op = ''==?x'' \<and> c = CHR ''x''))
      in from_bool (list_all (\<lambda>(l, r). (op \<noteq> ''==?i'' \<and> wild l) \<or> wild r \<or> l = r)
           (zip (wildcard_extend width a) (wildcard_extend width b))))"

definition invert_bits :: "logic_value \<Rightarrow> logic_value" where
  "invert_bits v =
     logic_value_init\<lparr>lv_bits := map (\<lambda>c. if c = CHR ''0'' then CHR ''1'' else CHR ''0'') (lv_bits v),
       lv_width := lv_width v\<rparr>"

text \<open>The reduction loop of \<open>reduce\<close>: \<open>None\<close> is the initial \<open>-1\<close>.\<close>

definition reduce_step :: "string \<Rightarrow> bool option \<Rightarrow> char \<Rightarrow> bool option" where
  "reduce_step op r c =
     (let b = (c = CHR ''1'')
      in if op \<in> {''~'', ''&'', ''|'', ''^''} then
           Some (case r of None \<Rightarrow> b
                 | Some x \<Rightarrow> if op = ''&'' then x \<and> b else if op = ''|'' then x \<or> b else x \<noteq> b)
         else r)"

definition reduce :: "logic_value \<Rightarrow> string \<Rightarrow> logic_value result" where
  "reduce a op =
     (if op = ''!'' then
        (case logical_truth a of LUnknown \<Rightarrow> Inr unknown_bool | t \<Rightarrow> from_bool (t = LFalse))
      else if \<not> lv_known a then Inr unknown_bool
      else if op = ''~'' then Inr (invert_bits a)
      else from_bool (foldl (reduce_step op) None (lv_bits a) = Some True))"

section \<open>Evaluation\<close>

text \<open>A \<open>uint32_t\<close> width cast to \<open>int\<close>; a failed \<open>signal_info\<close> leaves the default width 0.\<close>

definition info_width :: "waveform \<Rightarrow> signal_ref \<Rightarrow> int" where
  "info_width wave r = (case wf_signal_info wave r of None \<Rightarrow> 0 | Some info \<Rightarrow> sint (si_width info))"

definition slice_bits :: "string \<Rightarrow> int \<Rightarrow> int \<Rightarrow> string" where
  "slice_bits bits msb lsb =
     (let w = int (length bits)
      in map (\<lambda>i. let idx = w - 1 - i in if 0 \<le> idx \<and> idx < w then bits ! nat idx else CHR ''0'')
           (rev [lsb..msb]))"

definition slice_value :: "string \<Rightarrow> int \<Rightarrow> int \<Rightarrow> logic_value \<Rightarrow> logic_value" where
  "slice_value bits msb lsb v =
     (let w = int (length bits);
          (msb, lsb) = (if msb < lsb then (lsb, msb) else (msb, lsb));
          msb = (if msb \<ge> w then w - 1 else msb);
          lsb = (if lsb < 0 then 0 else lsb)
      in v\<lparr>lv_bits := slice_bits bits msb lsb, lv_width := msb - lsb + 1\<rparr>)"

text \<open>
  A signal or slice read. The length of the text of an unsampled slice is computed in \<open>int\<close> and then
  converted to an unsigned size, so a negative one throws.
\<close>

definition unsampled :: "expr_node \<Rightarrow> logic_value result" where
  "unsampled e =
     (case e of
        Slice _ msb lsb \<Rightarrow>
          if msb - lsb + 1 > int_max \<or> msb - lsb < int_min then Inl Int_overflow
          else if msb - lsb + 1 < 0 then Inl Length_error
          else Inr (all_x 0 (nat (msb - lsb + 1)))
      | _ \<Rightarrow> Inr (all_x 0 1))"

definition read_operand :: "expr_node \<Rightarrow> string \<Rightarrow> waveform \<Rightarrow> nat \<Rightarrow> observation_point \<Rightarrow> logic_value result" where
  "read_operand e name wave time_idx point =
     (let r = wf_find_signal wave name
      in if r \<noteq> kInvalidSignalRef then
           (case wf_sampled_value_at wave r time_idx point of
              Some sampled \<Rightarrow>
                let bits = wv_text (sv_value sampled);
                    v = logic_value_from_bits bits (info_width wave r)
                in Inr (case e of Slice _ msb lsb \<Rightarrow> slice_value bits msb lsb v | _ \<Rightarrow> v)
            | None \<Rightarrow> unsampled e)
         else Inr (all_x 0 1))"

definition sample_key :: "expr_node \<Rightarrow> string" where
  "sample_key e =
     (case e of
        Signal n \<Rightarrow> n
      | Slice n msb lsb \<Rightarrow> n @ ''['' @ to_string_int msb @ '':'' @ to_string_int lsb @ '']''
      | _ \<Rightarrow> [])"

type_synonym samples = "(string \<rightharpoonup> logic_value) option"

definition cached_read ::
  "expr_node \<Rightarrow> string \<Rightarrow> waveform \<Rightarrow> nat \<Rightarrow> observation_point \<Rightarrow> samples \<Rightarrow> (logic_value \<times> samples) result" where
  "cached_read e name wave time_idx point samples =
     (case samples of
        None \<Rightarrow> rbind (read_operand e name wave time_idx point) (\<lambda>v. Inr (v, None))
      | Some m \<Rightarrow>
          (case m (sample_key e) of
             Some v \<Rightarrow> Inr (v, samples)
           | None \<Rightarrow> rbind (read_operand e name wave time_idx point) (\<lambda>v. Inr (v, Some (m(sample_key e \<mapsto> v))))))"

definition eval_unary :: "string \<Rightarrow> logic_value \<Rightarrow> logic_value result" where
  "eval_unary op r =
     (if op = ''~'' then
        (if \<not> lv_known r then Inr (all_x (lv_width r) (max 1 (length (lv_bits r))))
         else Inr (invert_bits r))
      else if op = ''-'' then
        (if \<not> lv_known r then Inr r
         else rbind (logic_value_from_u64 0 (lv_width r)) (\<lambda>neg. arith neg r ''-''))
      else reduce r op)"

definition eval_binary :: "string \<Rightarrow> logic_value \<Rightarrow> logic_value \<Rightarrow> logic_value result" where
  "eval_binary op l r =
     (if op \<in> {''&'', ''|'', ''^''} then Inr (bitwise l r op)
      else if op = ''&&'' then
        (if logical_truth l = LFalse \<or> logical_truth r = LFalse then from_bool False
         else if logical_truth l = LTrue \<and> logical_truth r = LTrue then from_bool True
         else Inr unknown_bool)
      else if op = ''||'' then
        (if logical_truth l = LTrue \<or> logical_truth r = LTrue then from_bool True
         else if logical_truth l = LFalse \<and> logical_truth r = LFalse then from_bool False
         else Inr unknown_bool)
      else if op \<in> {''+'', ''-'', ''*'', ''/'', ''%'', ''<<'', ''>>''} then arith l r op
      else if op \<in> {''<'', ''<='', ''>'', ''>=''} then cmp l r op
      else if op \<in> {''=='', ''!='', ''==='', ''!==''} then eq l r op
      else if op \<in> {''==?z'', ''==?x'', ''==?i''} then wildcard_case_eq l r op
      else Inr logic_value_init)"

primrec eval_expression ::
  "expr_node \<Rightarrow> waveform \<Rightarrow> nat \<Rightarrow> samples \<Rightarrow> observation_point \<Rightarrow> (logic_value \<times> samples) result" where
  "eval_expression (Const v) wave ti samples point = Inr (v, samples)"
| "eval_expression (Signal n) wave ti samples point = cached_read (Signal n) n wave ti point samples"
| "eval_expression (Slice n msb lsb) wave ti samples point = cached_read (Slice n msb lsb) n wave ti point samples"
| "eval_expression (Unary op e) wave ti samples point =
     rbind (eval_expression e wave ti samples point) (\<lambda>(r, samples).
       rbind (eval_unary op r) (\<lambda>v. Inr (v, samples)))"
| "eval_expression (Binary op a b) wave ti samples point =
     rbind (eval_expression a wave ti samples point) (\<lambda>(l, samples).
       rbind (eval_expression b wave ti samples point) (\<lambda>(r, samples).
         rbind (eval_binary op l r) (\<lambda>v. Inr (v, samples))))"

text \<open>\<open>None\<close> is the \<open>false\<close> of a parse error.\<close>

definition expr_eval_at :: "string \<Rightarrow> waveform \<Rightarrow> nat \<Rightarrow> logic_value option result" where
  "expr_eval_at text wave time_idx =
     (case parse_expression text of
        Node root _ _ \<Rightarrow> rbind (eval_expression root wave time_idx None Raw) (\<lambda>(v, _). Inr (Some v))
      | Fault f \<Rightarrow> Inl f
      | _ \<Rightarrow> Inr None)"

primrec walk_signals :: "expr_node \<Rightarrow> string list \<Rightarrow> string list" where
  "walk_signals (Const v) out = out"
| "walk_signals (Signal n) out = (if n \<in> set out then out else out @ [n])"
| "walk_signals (Slice n msb lsb) out = (if n \<in> set out then out else out @ [n])"
| "walk_signals (Unary op e) out = walk_signals e out"
| "walk_signals (Binary op a b) out = walk_signals b (walk_signals a out)"

definition expression_signals :: "expr_node \<Rightarrow> string list" where
  "expression_signals root = walk_signals root []"

section \<open>Names of a parsed expression\<close>

primrec signal_names :: "expr_node \<Rightarrow> string set" where
  "signal_names (Const v) = {}"
| "signal_names (Signal n) = {n}"
| "signal_names (Slice n msb lsb) = {n}"
| "signal_names (Unary op e) = signal_names e"
| "signal_names (Binary op a b) = signal_names a \<union> signal_names b"

definition plain_names :: "expr_node \<Rightarrow> bool" where
  "plain_names e \<longleftrightarrow> (\<forall>n \<in> signal_names e. CHR ''['' \<notin> set n)"

lemma plain_names_simps [simp]:
  "plain_names (Const v)" "plain_names (Signal n) \<longleftrightarrow> CHR ''['' \<notin> set n"
  "plain_names (Slice n i j) \<longleftrightarrow> CHR ''['' \<notin> set n" "plain_names (Unary op e) \<longleftrightarrow> plain_names e"
  "plain_names (Binary op a b) \<longleftrightarrow> plain_names a \<and> plain_names b"
  by (auto simp: plain_names_def)

fun yields_plain :: "pres \<Rightarrow> bool" where
  "yields_plain (Node e r err) = plain_names e"
| "yields_plain _ = True"

lemma level_loop_plain:
  "(\<And>s err. yields_plain (sub s err)) \<Longrightarrow> plain_names left \<Longrightarrow> yields_plain (level_loop n m sub left s err)"
proof (induction n arbitrary: left s err)
  case (Suc n)
  show ?case
  proof (cases "m s")
    case (Pair o' s')
    have sub: "yields_plain (sub s' err)" by (rule Suc.prems)
    show ?thesis
    proof (cases o')
      case (Some op)
      with Pair Suc sub show ?thesis by (cases "sub s' err") auto
    qed (use Pair Suc.prems in simp)
  qed
qed simp

lemma parse_level_plain: "(\<And>s err. yields_plain (sub s err)) \<Longrightarrow> yields_plain (parse_level n m sub s err)"
proof -
  assume sub: "\<And>s err. yields_plain (sub s err)"
  show ?thesis
    using sub [of s err] level_loop_plain [of sub, OF sub] by (auto simp: parse_level_def split: pres.split)
qed

lemma parse_logical_plain: "(\<And>s err. yields_plain (prim s err)) \<Longrightarrow> yields_plain (parse_logical n prim s err)"
  unfolding parse_logical_def parse_or_def parse_xor_def parse_and_def parse_eq_def parse_cmp_def
    parse_shift_def parse_add_def parse_mul_def
  by (intro parse_level_plain)

lemma dotted_tail_plain: "CHR ''['' \<notin> set (fst (dotted_tail s))"
proof (induction s rule: dotted_tail.induct)
  case (1 s)
  show ?case
  proof (cases "\<exists>d c r. s = d # c # r \<and> d = CHR ''.'' \<and> ident_start c")
    case True
    then obtain c r where s: "s = CHR ''.'' # c # r" and c: "ident_start c" by blast
    have "CHR ''['' \<notin> set (takeWhile ident_char (c # r))"
      using set_takeWhileD [of "CHR ''[''" ident_char "c # r"] by (auto simp: ident_char_def char_class)
    with "1.IH" [OF s refl] c show ?thesis
      unfolding s by (subst dotted_tail.simps) (auto simp del: takeWhile.simps dropWhile.simps split: prod.split)
  next
    case False
    then show ?thesis by (subst dotted_tail.simps) (auto split: list.splits)
  qed
qed

lemma bracket_not_ident [simp]: "\<not> ident_start (CHR ''['')" "\<not> ident_char (CHR ''['')"
  by (simp_all add: ident_start_def ident_char_def char_class)

lemma parse_identifier_plain: "parse_identifier s = (n, r) \<Longrightarrow> CHR ''['' \<notin> set n"
proof -
  assume p: "parse_identifier s = (n, r)"
  show ?thesis
  proof (cases "skip_ws s")
    case (Cons c q)
    have "CHR ''['' \<notin> set (takeWhile ident_char q)" by (auto dest: set_takeWhileD)
    with Cons p dotted_tail_plain [of "dropWhile ident_char q"] show ?thesis
      by (auto simp: parse_identifier_def split: if_splits prod.splits)
  qed (use p in \<open>simp add: parse_identifier_def\<close>)
qed

lemma parse_slice_plain: "CHR ''['' \<notin> set n \<Longrightarrow> yields_plain (parse_slice n s err)"
  by (auto simp: parse_slice_def Let_def split: prod.split bool.split sum.split)

lemma parse_operand_plain: "yields_plain (parse_operand s err)"
  by (auto simp: parse_operand_def parse_slice_plain dest!: parse_identifier_plain split: prod.split list.split sum.split)

lemma parse_primary_plain: "yields_plain (parse_primary n s err)"
proof (induction n arbitrary: s err)
  case (Suc n)
  have "yields_plain (parse_logical n (parse_primary n) r err)" for r
    using Suc by (rule parse_logical_plain)
  then have l: "plain_names e" if "parse_logical n (parse_primary n) r err = Node e q err'" for r e q err'
    using that by (metis yields_plain.simps(1))
  from Suc have p: "plain_names e" if "parse_primary n r err = Node e q err'" for r e q err'
    using that by (metis yields_plain.simps(1))
  show ?case
    by (auto simp: parse_operand_plain split: prod.split bool.split pres.split list.split dest: l p)
qed simp

lemma parse_expression_plain: "parse_expression text = Node e r err \<Longrightarrow> plain_names e"
  using parse_logical_plain [where n = "Suc (length text)" and prim = "parse_primary (Suc (length text))"
      and s = "text" and err = "[]", OF parse_primary_plain]
  by (auto simp: parse_expression_def parse_expression_fuel_def simp del: parse_primary.simps split: pres.splits if_splits)

section \<open>The memo table\<close>

fun is_read :: "expr_node \<Rightarrow> string \<Rightarrow> bool" where
  "is_read (Signal n) m \<longleftrightarrow> n = m \<and> CHR ''['' \<notin> set n"
| "is_read (Slice n i j) m \<longleftrightarrow> n = m \<and> CHR ''['' \<notin> set n"
| "is_read _ m \<longleftrightarrow> False"

lemma sample_key_inject:
  "is_read a n \<Longrightarrow> is_read b m \<Longrightarrow> sample_key a = sample_key b \<Longrightarrow> a = b \<and> n = m"
  by (cases a; cases b)
    (auto simp: sample_key_def split_sep_inject to_string_int_no_colon)

definition samples_agree :: "(string \<rightharpoonup> logic_value) \<Rightarrow> waveform \<Rightarrow> nat \<Rightarrow> observation_point \<Rightarrow> bool" where
  "samples_agree m wave ti point \<longleftrightarrow>
     (\<forall>e n v. is_read e n \<and> m (sample_key e) = Some v \<longrightarrow> read_operand e n wave ti point = Inr v)"

lemma cached_read_agree:
  assumes "is_read e n" "samples_agree m wave ti point"
  shows "case cached_read e n wave ti point (Some m) of
      Inl f \<Rightarrow> cached_read e n wave ti point None = Inl f
    | Inr (v, s) \<Rightarrow> cached_read e n wave ti point None = Inr (v, None) \<and>
        (\<exists>m'. s = Some m' \<and> samples_agree m' wave ti point)"
proof (cases "m (sample_key e)")
  case (Some v)
  then have "read_operand e n wave ti point = Inr v" using assms unfolding samples_agree_def by blast
  with Some assms show ?thesis by (simp add: cached_read_def)
next
  case None
  have "samples_agree (m(sample_key e \<mapsto> v)) wave ti point" if "read_operand e n wave ti point = Inr v" for v
    using assms that sample_key_inject [OF _ assms(1)] unfolding samples_agree_def
    by (metis fun_upd_apply option.inject)
  with None show ?thesis by (auto simp: cached_read_def rbind_def split: sum.split)
qed

lemma eval_expression_agree:
  assumes "plain_names e" "samples_agree m wave ti point"
  shows "case eval_expression e wave ti (Some m) point of
      Inl f \<Rightarrow> eval_expression e wave ti None point = Inl f
    | Inr (v, s) \<Rightarrow> eval_expression e wave ti None point = Inr (v, None) \<and>
        (\<exists>m'. s = Some m' \<and> samples_agree m' wave ti point)"
  using assms
proof (induction e arbitrary: m)
  case (Unary op e)
  then show ?case by (fastforce simp: rbind_def split: sum.splits)
next
  case (Binary op a b)
  show ?case
  proof (cases "eval_expression a wave ti (Some m) point")
    case (Inl f)
    with Binary.IH(1) [of m] Binary.prems show ?thesis by simp
  next
    case (Inr p)
    with Binary.IH(1) [of m] Binary.prems obtain l m' where
      a: "eval_expression a wave ti (Some m) point = Inr (l, Some m')"
         "eval_expression a wave ti None point = Inr (l, None)" "samples_agree m' wave ti point"
      by (cases p) auto
    with Binary.IH(2) [of m'] Binary.prems(1) show ?thesis
      by (auto simp: rbind_def split: sum.splits)
  qed
next
  case (Signal n)
  then show ?case using cached_read_agree [of "Signal n" n m wave ti point]
    by (auto split: sum.splits)
next
  case (Slice n i j)
  then show ?case using cached_read_agree [of "Slice n i j" n m wave ti point]
    by (auto split: sum.splits)
qed simp


section \<open>The signals of an expression\<close>

lemma walk_signals_set: "set (walk_signals e out) = set out \<union> signal_names e"
  by (induction e arbitrary: out) auto

lemma walk_signals_distinct: "distinct out \<Longrightarrow> distinct (walk_signals e out)"
  by (induction e arbitrary: out) auto

definition same_reading :: "waveform \<Rightarrow> waveform \<Rightarrow> nat \<Rightarrow> observation_point \<Rightarrow> string \<Rightarrow> bool" where
  "same_reading w w' ti point n \<longleftrightarrow>
     (let r = wf_find_signal w n; r' = wf_find_signal w' n
      in (r = kInvalidSignalRef) = (r' = kInvalidSignalRef) \<and>
         wf_sampled_value_at w r ti point = wf_sampled_value_at w' r' ti point \<and> info_width w r = info_width w' r')"

lemma read_operand_frame:
  "same_reading w w' ti point n \<Longrightarrow> read_operand e n w ti point = read_operand e n w' ti point"
  by (auto simp: same_reading_def read_operand_def Let_def split: option.split)

lemma eval_expression_frame:
  "(\<And>n. n \<in> signal_names e \<Longrightarrow> same_reading w w' ti point n) \<Longrightarrow>
   eval_expression e w ti s point = eval_expression e w' ti s point"
proof (induction e arbitrary: s)
  case (Signal n)
  then show ?case using read_operand_frame [of w w' ti point n] by (auto simp: cached_read_def split: option.split)
next
  case (Slice n i j)
  then show ?case using read_operand_frame [of w w' ti point n] by (auto simp: cached_read_def split: option.split)
next
  case (Binary op a b)
  then show ?case by (auto simp: rbind_def split: sum.split)
qed simp_all

text \<open>
  Claim C36 (equivalence). The memo table is transparent: evaluating any text's expression with a table that
  agrees with the waveform at this time and observation point gives the same value or fault as evaluating
  without a table, and leaves a table that still agrees, so a table can be shared by any sequence of
  expressions at one time. The empty table agrees.
\<close>

theorem samples_transparent:
  assumes "parse_expression text = Node e r err" and "samples_agree m wave ti point"
  shows "case eval_expression e wave ti (Some m) point of
      Inl f \<Rightarrow> eval_expression e wave ti None point = Inl f
    | Inr (v, s) \<Rightarrow> eval_expression e wave ti None point = Inr (v, None) \<and>
        (\<exists>m'. s = Some m' \<and> samples_agree m' wave ti point)"
  using parse_expression_plain [OF assms(1)] assms(2) by (rule eval_expression_agree)

definition demo_wave :: waveform where
  "demo_wave = \<lparr>wf_time_at = (\<lambda>i. of_nat i), wf_find_signal = (\<lambda>n. if n = ''a'' then 1 else 0),
     wf_signal_info = (\<lambda>r. Some \<lparr>si_encoding = BitVector, si_num_changes = 1, si_max_states = 4, si_width = 4,
        si_bytes_per_entry = 1, si_has_meta_byte = False\<rparr>),
     wf_sampled_value_at = (\<lambda>r ti p. Some \<lparr>sv_value = \<lparr>wv_kind = BitVector, wv_text = ''01x1'', wv_real = Double 0\<rparr>,
        sv_time_idx = ti, sv_element = 0, sv_elements_at_time = 1, sv_time_match = True\<rparr>),
     wf_time_indices_of = (\<lambda>r. [0])\<rparr>"

theorem samples_transparent_witness:
  "case eval_expression (Binary ''&'' (Signal ''a'') (Signal ''a'')) demo_wave 0 (Some Map.empty) Raw of
      Inl f \<Rightarrow> eval_expression (Binary ''&'' (Signal ''a'') (Signal ''a'')) demo_wave 0 None Raw = Inl f
    | Inr (v, s) \<Rightarrow> eval_expression (Binary ''&'' (Signal ''a'') (Signal ''a'')) demo_wave 0 None Raw = Inr (v, None) \<and>
        (\<exists>m'. s = Some m' \<and> samples_agree m' demo_wave 0 Raw)"
proof (rule samples_transparent)
  show "parse_expression ''a & a'' = Node (Binary ''&'' (Signal ''a'') (Signal ''a'')) [] []" by code_simp
qed (simp add: samples_agree_def)

text \<open>
  \<open>expression_signals\<close> lists each signal of the expression once, and evaluation depends
  on the waveform only through how these signals are found, sampled and sized: two waveforms that agree on
  the listed signals evaluate the expression alike.
\<close>

theorem expression_signals_sufficient:
  assumes "\<forall>n \<in> set (expression_signals e). same_reading w w' ti point n"
  shows "distinct (expression_signals e) \<and> set (expression_signals e) = signal_names e \<and>
         eval_expression e w ti s point = eval_expression e w' ti s point"
  using assms eval_expression_frame [of e w w' ti point s]
  by (simp add: expression_signals_def walk_signals_set walk_signals_distinct)

theorem expression_signals_sufficient_witness:
  "eval_expression (Signal ''a'') demo_wave 0 None Raw =
   eval_expression (Signal ''a'') (demo_wave\<lparr>wf_find_signal := (\<lambda>n. 1)\<rparr>) 0 None Raw"
  using expression_signals_sufficient [of "Signal ''a''" demo_wave "demo_wave\<lparr>wf_find_signal := (\<lambda>n. 1)\<rparr>" 0 Raw None]
  by (simp add: expression_signals_def same_reading_def demo_wave_def kInvalidSignalRef_def info_width_def)

end
