(* ===== verification/Expr_Semantics.thy ===== *)
theory Expr_Semantics
  imports Expr_Eval
begin

unbundle bit_operations_syntax

text \<open>
  What the operators and the evaluator of \<open>Expr_Eval\<close> compute: sizes and the absence of faults, agreement with
  numbers on known operands, and the treatment of unknown bits as an order on values (\<open>lv_le\<close>: the second
  value resolves unknown bits of the first) under which the operators are monotone.
\<close>

section \<open>Sizes\<close>

definition fits64 :: "logic_value \<Rightarrow> bool" where
  "fits64 v \<longleftrightarrow> lv_width v \<le> 64 \<and> length (lv_bits v) \<le> 64"

primrec expr_fits64 :: "expr_node \<Rightarrow> bool" where
  "expr_fits64 (Const v) \<longleftrightarrow> fits64 v"
| "expr_fits64 (Signal n) \<longleftrightarrow> True"
| "expr_fits64 (Slice n msb lsb) \<longleftrightarrow> 0 \<le> msb - lsb + 1 \<and> msb - lsb < 64"
| "expr_fits64 (Unary op e) \<longleftrightarrow> expr_fits64 e"
| "expr_fits64 (Binary op a b) \<longleftrightarrow> expr_fits64 a \<and> expr_fits64 b"

definition wave_fits64 :: "waveform \<Rightarrow> nat \<Rightarrow> observation_point \<Rightarrow> string \<Rightarrow> bool" where
  "wave_fits64 wave ti point n \<longleftrightarrow>
     (let r = wf_find_signal wave n
      in info_width wave r \<le> 64 \<and>
         (\<forall>s. wf_sampled_value_at wave r ti point = Some s \<longrightarrow> length (wv_text (sv_value s)) \<le> 64))"

lemma fits64_from_u64: "w \<le> 64 \<Longrightarrow> \<exists>v. logic_value_from_u64 x w = Inr v \<and> fits64 v"
  by (auto simp: from_u64_eq fits64_def)

lemma fits64_simple [simp]: "fits64 unknown_bool" "fits64 logic_value_init" "w \<le> 64 \<Longrightarrow> n \<le> 64 \<Longrightarrow> fits64 (all_x w n)"
  "fits64 v \<Longrightarrow> fits64 (invert_bits v)"
  by (simp_all add: fits64_def unknown_bool_def logic_value_init_def all_x_def invert_bits_def)

lemma from_bool_eq: "from_bool b = Inr \<lparr>lv_bits = [bit_char b], lv_width = 1, lv_known = True, lv_has_x = False, lv_has_z = False\<rparr>"
  by (simp add: from_bool_def from_u64_eq small_bits_def logic_value_init_def)

lemma from_bool_fits: "\<exists>v. from_bool b = Inr v \<and> fits64 v"
  by (simp add: from_bool_eq fits64_def)

lemma unat_and_63: "unat (y AND 63 :: u64) = unat y mod 64"
proof -
  have "y AND 63 = take_bit 6 y" by (simp add: take_bit_eq_mask mask_eq_exp_minus_1)
  then show ?thesis by (simp only: unsigned_take_bit_eq) (simp add: take_bit_eq_mod)
qed

text \<open>
  The guards make the arithmetic return: the divisor is tested against zero, and a masked shift amount is below 64.
\<close>

lemma and_63_less: "\<not> 64 \<le> (y AND 63 :: u64)"
  by (simp add: word_le_nat_alt unat_and_63)

lemma arith_op_returns: "\<exists>r. arith_op op x y = Inr r"
  by (simp add: arith_op_def u64_div_def u64_mod_def u64_shl_def u64_shr_def and_63_less)

lemma arith_fits: "fits64 a \<Longrightarrow> fits64 b \<Longrightarrow> \<exists>v. arith a b op = Inr v \<and> fits64 v"
proof -
  assume ab: "fits64 a" "fits64 b"
  then have w: "arith_width a b \<le> 64" by (simp add: arith_width_def fits64_def)
  then have "nat (max 1 (arith_width a b)) \<le> 64" by simp
  with w fits64_from_u64 [OF w] arith_op_returns [of op "to_u64 a" "to_u64 b"] show ?thesis
    by (auto simp: arith_def Let_def)
qed

lemma length_last_n [simp]: "length (last_n n s) = min n (length s)"
  by (simp add: last_n_def)

lemma bitwise_fields:
  "lv_width (bitwise a b op) = max (operand_width a) (operand_width b)"
  "lv_bits (bitwise a b op) =
     map2 (bit_op op) (fit_operand (max (operand_width a) (operand_width b)) a)
       (fit_operand (max (operand_width a) (operand_width b)) b)"
  by (simp_all add: bitwise_def Let_def)

lemma length_fit_operand [simp]: "length (fit_operand w v) = nat w"
  by (simp add: fit_operand_def Let_def pad_front_def)

lemma operand_width_fits: "fits64 v \<Longrightarrow> operand_width v \<le> 64"
  by (simp add: fits64_def operand_width_def)

lemma bitwise_fits: "fits64 a \<Longrightarrow> fits64 b \<Longrightarrow> fits64 (bitwise a b op)"
  using operand_width_fits [of a] operand_width_fits [of b]
  by (simp add: fits64_def bitwise_fields)

lemma eval_unary_fits: "fits64 r \<Longrightarrow> \<exists>v. eval_unary op r = Inr v \<and> fits64 v"
proof -
  assume r: "fits64 r"
  then have "lv_width r \<le> 64" "max 1 (length (lv_bits r)) \<le> 64" by (simp_all add: fits64_def)
  moreover obtain neg where neg: "logic_value_from_u64 0 (lv_width r) = Inr neg" "fits64 neg"
    using fits64_from_u64 [of "lv_width r" 0] calculation(1) by blast
  ultimately show ?thesis
    using r from_bool_fits arith_fits [OF neg(2) r]
    by (auto simp: eval_unary_def reduce_def split: logical_truth_value.split)
qed

lemma eval_binary_fits: "fits64 l \<Longrightarrow> fits64 r \<Longrightarrow> \<exists>v. eval_binary op l r = Inr v \<and> fits64 v"
  using arith_fits [of l r op] from_bool_fits
  by (simp add: eval_binary_def bitwise_fits cmp_def eq_def wildcard_case_eq_def Let_def)

lemma read_operand_fits:
  assumes "expr_fits64 e" "wave_fits64 wave ti point n"
  shows "\<exists>v. read_operand e n wave ti point = Inr v \<and> fits64 v"
proof (cases "wf_sampled_value_at wave (wf_find_signal wave n) ti point")
  case None
  have "\<exists>v. unsampled e = Inr v \<and> fits64 v"
    using assms(1) by (cases e) (auto simp: unsampled_def int_max_def int_min_def)
  with None show ?thesis by (auto simp: read_operand_def Let_def)
next
  case (Some s)
  let ?t = "wv_text (sv_value s)"
  have t: "length ?t \<le> 64" "info_width wave (wf_find_signal wave n) \<le> 64"
    using assms(2) Some by (auto simp: wave_fits64_def Let_def)
  then have "fits64 (logic_value_from_bits ?t (info_width wave (wf_find_signal wave n)))"
    by (simp add: fits64_def)
  moreover have "fits64 (slice_value ?t msb lsb v)" for msb lsb v
    using t by (auto simp: fits64_def slice_value_def slice_bits_def Let_def)
  ultimately show ?thesis
    using Some by (auto simp: read_operand_def Let_def split: expr_node.split)
qed

lemma eval_expression_fits:
  assumes "expr_fits64 e" "\<And>n. n \<in> signal_names e \<Longrightarrow> wave_fits64 wave ti point n"
  shows "\<exists>v. eval_expression e wave ti None point = Inr (v, None) \<and> fits64 v"
  using assms
proof (induction e)
  case (Signal n)
  then show ?case using read_operand_fits [of "Signal n" wave ti point n] by (auto simp: cached_read_def)
next
  case (Slice n i j)
  then show ?case using read_operand_fits [of "Slice n i j" wave ti point n] by (auto simp: cached_read_def)
next
  case (Unary op e)
  then obtain r where "eval_expression e wave ti None point = Inr (r, None)" "fits64 r" by auto
  with eval_unary_fits [of r op] show ?case by auto
next
  case (Binary op a b)
  then obtain l r where "eval_expression a wave ti None point = Inr (l, None)" "fits64 l"
    "eval_expression b wave ti None point = Inr (r, None)" "fits64 r" by auto
  with eval_binary_fits [of l r op] show ?case by auto
qed simp


section \<open>Known operands\<close>

lemma to_u64_eq: "to_u64 v = word_of_nat (bits_nat (lv_bits v))"
  unfolding to_u64_def nibble_fold ..

lemma unat_to_u64: "length (lv_bits v) \<le> 64 \<Longrightarrow> unat (to_u64 v) = bits_nat (lv_bits v)"
proof -
  assume "length (lv_bits v) \<le> 64"
  then have "bits_nat (lv_bits v) < 2 ^ 64"
    using bits_nat_less [of "lv_bits v"] by (meson less_le_trans one_le_numeral power_increasing)
  then show ?thesis by (simp add: to_u64_eq unat_of_nat)
qed

definition two_valued :: "logic_value \<Rightarrow> bool" where
  "two_valued v \<longleftrightarrow> lv_known v \<and> two_state (lv_bits v)"

lemma two_state_append [simp]: "two_state (a @ b) \<longleftrightarrow> two_state a \<and> two_state b"
  by (auto simp: two_state_def)

lemma bits_nat_zeros [simp]: "bits_nat (replicate k (CHR ''0'') @ b) = bits_nat b"
  by (induction k) (simp_all add: bits_nat_Cons)

lemma padded_equal_nat:
  "two_state (lv_bits a) \<Longrightarrow> two_state (lv_bits b) \<Longrightarrow>
   padded_equal a b \<longleftrightarrow> bits_nat (lv_bits a) = bits_nat (lv_bits b)"
proof -
  assume ab: "two_state (lv_bits a)" "two_state (lv_bits b)"
  let ?w = "max (length (lv_bits a)) (length (lv_bits b))"
  let ?pa = "replicate (?w - length (lv_bits a)) (CHR ''0'') @ lv_bits a"
  let ?pb = "replicate (?w - length (lv_bits b)) (CHR ''0'') @ lv_bits b"
  have "two_state ?pa" "two_state ?pb" using ab by (auto simp: two_state_def)
  moreover have "length ?pa = length ?pb" by simp
  ultimately have "?pa = ?pb \<longleftrightarrow> bits_nat ?pa = bits_nat ?pb"
    using bits_nat_inject [of ?pa ?pb] by metis
  then show ?thesis by (simp add: padded_equal_def Let_def)
qed

definition int_op :: "string \<Rightarrow> nat \<Rightarrow> nat \<Rightarrow> int" where
  "int_op op x y =
     (if op = ''+'' then int x + int y
      else if op = ''-'' then int x - int y
      else if op = ''*'' then int x * int y
      else if op = ''/'' then int (x div y)
      else if op = ''%'' then (if y = 0 then 0 else int (x mod y))
      else if op = ''<<'' then int x * 2 ^ (y mod 64)
      else int (x div 2 ^ (y mod 64)))"

lemma uint_shifts:
  "uint (push_bit k (x :: u64)) = int (unat x) * 2 ^ k mod 2 ^ 64"
  "uint (drop_bit k (x :: u64)) = int (unat x div 2 ^ k)"
proof -
  have "uint (push_bit k x) = take_bit 64 (push_bit k (uint x))" by (simp only: unsigned_push_bit_eq) simp
  then show "uint (push_bit k x) = int (unat x) * 2 ^ k mod 2 ^ 64"
    by (simp only: take_bit_eq_mod push_bit_eq_mult) simp
  have "take_bit 64 (uint x) = uint x" by (rule take_bit_int_eq_self) (use uint_lt2p [of x] in simp_all)
  then have "uint (drop_bit k x) = drop_bit k (uint x)" by (simp only: unsigned_drop_bit_eq) simp
  then show "uint (drop_bit k x) = int (unat x div 2 ^ k)"
    by (simp only: drop_bit_eq_div) (simp add: zdiv_int)
qed

lemma uint_quotients:
  "uint (x div y :: u64) = int (unat x div unat y)" "uint (x mod y :: u64) = int (unat x mod unat y)"
  by (simp_all add: uint_div zdiv_int uint_mod zmod_int)

lemma unat_le_mod: "n \<le> unat (v :: u64) \<Longrightarrow> int n mod 2 ^ 64 = int n"
proof -
  assume "n \<le> unat v"
  moreover have "unat v < 2 ^ 64" using unsigned_less [of v] by simp
  ultimately show ?thesis by simp
qed

lemma uint_arith_op:
  assumes "op \<in> {''+'', ''-'', ''*'', ''/'', ''%'', ''<<'', ''>>''}"
  shows "\<exists>r. arith_op op x y = Inr r \<and> uint r = int_op op (unat x) (unat y) mod 2 ^ 64"
proof -
  have "int (unat x div n) mod 2 ^ 64 = int (unat x div n)" for n
    by (rule unat_le_mod) (rule div_le_dividend)
  moreover have "int (unat x mod n) mod 2 ^ 64 = int (unat x mod n)" for n
    by (rule unat_le_mod) (rule mod_less_eq_dividend)
  moreover have "y = 0 \<longleftrightarrow> unat y = 0" by (simp add: unat_eq_0)
  ultimately show ?thesis
    using assms unfolding arith_op_def int_op_def u64_div_def u64_mod_def u64_shl_def u64_shr_def
    by (elim insertE) (simp_all add: and_63_less unat_and_63 uint_word_ariths uint_quotients uint_shifts del: unat_eq_zero of_nat_mod of_nat_div)
qed


definition num_rel :: "string \<Rightarrow> nat \<Rightarrow> nat \<Rightarrow> bool" where
  "num_rel op x y =
     (if op = ''<'' then x < y else if op = ''<='' then x \<le> y else if op = ''>'' then x > y
      else if op = ''>='' then x \<ge> y else if op = ''!='' \<or> op = ''!=='' then x \<noteq> y else x = y)"

lemma wildcard_known:
  assumes "two_valued a" "two_valued b" "0 < length (lv_bits a)" "lv_width a = int (length (lv_bits a))"
    "lv_width b = int (length (lv_bits a))" "length (lv_bits b) = length (lv_bits a)"
  shows "wildcard_case_eq a b op = from_bool (lv_bits a = lv_bits b)"
proof -
  let ?n = "length (lv_bits a)"
  have e: "wildcard_extend (int ?n) a = lv_bits a" "wildcard_extend (int ?n) b = lv_bits b"
    using assms by (simp_all add: wildcard_extend_def)
  have k: "l \<noteq> CHR ''z'' \<and> l \<noteq> CHR ''x'' \<and> r \<noteq> CHR ''z'' \<and> r \<noteq> CHR ''x''"
    if "(l, r) \<in> set (zip (lv_bits a) (lv_bits b))" for l r
    using that assms by (auto simp: two_valued_def two_state_def dest: set_zip_leftD set_zip_rightD)
  have "list_all (\<lambda>(l, r). (op \<noteq> ''==?i'' \<and> (l = CHR ''z'' \<or> (op = ''==?x'' \<and> l = CHR ''x''))) \<or>
      (r = CHR ''z'' \<or> (op = ''==?x'' \<and> r = CHR ''x'')) \<or> l = r) (zip (lv_bits a) (lv_bits b)) \<longleftrightarrow>
      list_all (\<lambda>(l, r). l = r) (zip (lv_bits a) (lv_bits b))"
    by (intro list_all_cong refl) (auto dest: k)
  also have "\<dots> \<longleftrightarrow> list_all2 (=) (lv_bits a) (lv_bits b)"
    using assms(6) by (simp add: list_all2_iff list_all_iff)
  finally show ?thesis
    using assms e by (simp add: wildcard_case_eq_def operand_width_def Let_def list.rel_eq)
qed

section \<open>Properties of the operators\<close>

text \<open>
  Claim C37 (termination). Evaluation without a memo table never faults and always returns a value when the sizes are
  at most 64: constants and sampled signals of at most 64 bits, slices of at most 64 bits with the larger bound
  first. In particular no division or remainder by zero and no shift by 64 or more is executed, since
  \<open>arith\<close> tests the divisor and masks the amount. The result has at most 64 bits again.
\<close>

theorem eval_expression_total:
  assumes "expr_fits64 e" and "\<forall>n \<in> signal_names e. wave_fits64 wave ti point n"
  shows "\<exists>v. eval_expression e wave ti None point = Inr (v, None) \<and> lv_width v \<le> 64 \<and> length (lv_bits v) \<le> 64"
  using eval_expression_fits [of e wave ti point] assms by (auto simp: fits64_def)

theorem eval_expression_total_witness:
  "\<exists>v. eval_expression (Binary ''+'' (Slice ''a'' 3 2) (Binary ''/'' (Const (logic_value_from_bits ''0011'' 4))
       (Const (logic_value_from_bits ''0000'' 4)))) demo_wave 0 None Raw = Inr (v, None) \<and> lv_width v \<le> 64 \<and> length (lv_bits v) \<le> 64"
  by (rule eval_expression_total)
    (simp_all add: fits64_def wave_fits64_def demo_wave_def info_width_def)

text \<open>
  Arithmetic on known operands of at most 64 bits is arithmetic modulo \<open>2^w\<close>, where \<open>w\<close> is
  the wider declared width: the result is known, has \<open>w\<close> bits, and denotes the sum, difference, product,
  quotient, remainder or shift of the operands' values reduced modulo \<open>2^w\<close>. Division and remainder by
  zero give 0, and the shift amount is taken modulo 64.
\<close>

theorem arith_modular:
  assumes "two_valued a" and "two_valued b" and "fits64 a" and "fits64 b" and "0 < arith_width a b"
    and "op \<in> {''+'', ''-'', ''*'', ''/'', ''%'', ''<<'', ''>>''}"
  shows "\<exists>v. arith a b op = Inr v \<and> lv_known v \<and> lv_width v = arith_width a b \<and>
    length (lv_bits v) = nat (arith_width a b) \<and>
    int (bits_nat (lv_bits v)) = int_op op (bits_nat (lv_bits a)) (bits_nat (lv_bits b)) mod 2 ^ nat (arith_width a b)"
proof -
  let ?w = "arith_width a b"
  let ?i = "int_op op (bits_nat (lv_bits a)) (bits_nat (lv_bits b))"
  have w: "?w \<le> 64" using assms(3,4) by (simp add: arith_width_def fits64_def)
  obtain r where r: "arith_op op (to_u64 a) (to_u64 b) = Inr r" "uint r = ?i mod 2 ^ 64"
    using uint_arith_op [OF assms(6), of "to_u64 a" "to_u64 b"] assms(3,4) by (auto simp: unat_to_u64 fits64_def)
  then have "int (unat r mod 2 ^ nat ?w) = ?i mod 2 ^ 64 mod 2 ^ nat ?w"
    by (simp add: of_nat_mod)
  also have "\<dots> = ?i mod 2 ^ nat ?w"
    using w by (intro mod_mod_cancel le_imp_power_dvd) simp
  finally show ?thesis
    using assms w r(1) by (simp add: arith_def two_valued_def from_u64_eq logic_value_init_def Let_def)
qed

theorem arith_modular_witness:
  "\<exists>v. arith (logic_value_from_bits ''0011'' 4) (logic_value_from_bits ''0101'' 4) ''-'' = Inr v \<and> lv_known v \<and>
    lv_width v = 4 \<and> length (lv_bits v) = 4 \<and> int (bits_nat (lv_bits v)) = 14"
  using arith_modular [of "logic_value_from_bits ''0011'' 4" "logic_value_from_bits ''0101'' 4" "''-''"]
  by (simp add: two_valued_def fits64_def arith_width_def logic_value_from_bits_flags two_state_def int_op_def
      bits_nat_Cons)

text \<open>
  Comparisons and equalities of known operands are those of the numbers they denote: order
  comparisons when both have at most 64 bits, equality at every width, also between operands of different
  length, and the wildcard equalities for operands of one width.
\<close>

theorem comparison_numeric:
  assumes "two_valued a" and "two_valued b"
  shows "(op \<in> {''=='', ''!='', ''==='', ''!==''} \<longrightarrow>
            eq a b op = from_bool (num_rel op (bits_nat (lv_bits a)) (bits_nat (lv_bits b)))) \<and>
         (op \<in> {''<'', ''<='', ''>'', ''>=''} \<and> length (lv_bits a) \<le> 64 \<and> length (lv_bits b) \<le> 64 \<longrightarrow>
            cmp a b op = from_bool (num_rel op (bits_nat (lv_bits a)) (bits_nat (lv_bits b)))) \<and>
         (op \<in> {''==?z'', ''==?x'', ''==?i''} \<and> 0 < lv_width a \<and> lv_width a = int (length (lv_bits a)) \<and>
          lv_width b = lv_width a \<and> length (lv_bits b) = length (lv_bits a) \<longrightarrow>
            wildcard_case_eq a b op = from_bool (bits_nat (lv_bits a) = bits_nat (lv_bits b)))"
proof -
  have "eq a b op = from_bool (num_rel op (bits_nat (lv_bits a)) (bits_nat (lv_bits b)))"
    if "op \<in> {''=='', ''!='', ''==='', ''!==''}"
    using that assms by (auto simp: eq_def two_valued_def padded_equal_nat num_rel_def Let_def)
  moreover have "cmp a b op = from_bool (num_rel op (bits_nat (lv_bits a)) (bits_nat (lv_bits b)))"
    if "op \<in> {''<'', ''<='', ''>'', ''>=''}" "length (lv_bits a) \<le> 64" "length (lv_bits b) \<le> 64"
    using that assms
    by (auto simp: cmp_def two_valued_def num_rel_def Let_def word_less_nat_alt word_le_nat_alt unat_to_u64)
  moreover have "wildcard_case_eq a b op = from_bool (bits_nat (lv_bits a) = bits_nat (lv_bits b))"
    if "0 < lv_width a" "lv_width a = int (length (lv_bits a))" "lv_width b = lv_width a"
      "length (lv_bits b) = length (lv_bits a)"
  proof -
    have "(lv_bits a = lv_bits b) = (bits_nat (lv_bits a) = bits_nat (lv_bits b))"
      using bits_nat_inject [of "lv_bits a" "lv_bits b"] that(4) assms by (auto simp: two_valued_def)
    with that wildcard_known [OF assms, of op] show ?thesis by simp
  qed
  ultimately show ?thesis by blast
qed

theorem comparison_numeric_witness:
  "cmp (logic_value_from_bits ''0011'' 4) (logic_value_from_bits ''101'' 3) ''<'' = from_bool True"
  using comparison_numeric [of "logic_value_from_bits ''0011'' 4" "logic_value_from_bits ''101'' 3" "''<''"]
  by (simp add: two_valued_def logic_value_from_bits_flags two_state_def num_rel_def bits_nat_Cons)

text \<open>
  The order comparison reads only the low 64 bits of its operands: a known vector with a
  one in bit 64 or above and zeros below is reported smaller than 1, although \<open>==\<close> tells it from 0.
\<close>

theorem cmp_truncates_wide:
  "let big = logic_value_from_bits (CHR ''1'' # replicate (64 + n) (CHR ''0'')) 0;
       one = logic_value_from_bits ''1'' 1; zero = logic_value_from_bits ''0'' 1
   in cmp big one ''<'' = from_bool True \<and> eq big zero ''=='' = from_bool False"
proof -
  let ?b = "CHR ''1'' # replicate (64 + n) (CHR ''0'')"
  have two: "two_state ?b" "two_state ''1''" "two_state ''0''" by (auto simp: two_state_def)
  have "bits_nat ?b = 2 ^ (64 + n)" using bits_nat_zeros [of "64 + n" "[]"] by (simp add: bits_nat_Cons)
  moreover have "(word_of_nat (2 ^ (64 + n)) :: u64) = 0"
    by (simp add: word_of_nat_eq_0_iff le_imp_power_dvd)
  ultimately have "to_u64 (logic_value_from_bits ?b 0) = 0" "bits_nat ?b \<noteq> 0"
    by (simp_all add: to_u64_eq)
  moreover have "to_u64 (logic_value_from_bits ''1'' 1) = 1" by (simp add: to_u64_eq bits_nat_Cons)
  ultimately show ?thesis
    using two padded_equal_nat [of "logic_value_from_bits ?b 0" "logic_value_from_bits ''0'' 1"]
    by (simp add: cmp_def eq_def logic_value_from_bits_flags bits_nat_Cons Let_def)
qed

section \<open>Unknown bits\<close>

definition bit_le :: "char \<Rightarrow> char \<Rightarrow> bool" where
  "bit_le c d \<longleftrightarrow> c = d \<or> \<not> is_known_bit c"

definition lv_le :: "logic_value \<Rightarrow> logic_value \<Rightarrow> bool" where
  "lv_le a b \<longleftrightarrow> lv_width a = lv_width b \<and> list_all2 bit_le (lv_bits a) (lv_bits b) \<and> (lv_known a \<longrightarrow> a = b)"

definition sized :: "logic_value \<Rightarrow> bool" where
  "sized v \<longleftrightarrow> (if lv_width v > 0 then length (lv_bits v) = nat (lv_width v)
               else lv_width v = 0 \<and> length (lv_bits v) = 64 \<and> lv_known v)"

lemma bit_le_refl [simp]: "bit_le c c"
  by (simp add: bit_le_def)

lemma lv_le_refl [simp]: "lv_le a a"
  by (simp add: lv_le_def list_all2_refl)

lemma bit_le_x [simp]: "bit_le (CHR ''x'') c"
  by (simp add: bit_le_def is_known_bit_def)

lemma lv_le_length: "lv_le a b \<Longrightarrow> length (lv_bits a) = length (lv_bits b)"
  by (auto simp: lv_le_def dest: list_all2_lengthD)

lemma xs_le: "length s = n \<Longrightarrow> list_all2 bit_le (replicate n (CHR ''x'')) s"
  by (simp add: list_all2_conv_all_nth)

lemma all_x_le: "lv_width b = w \<Longrightarrow> length (lv_bits b) = n \<Longrightarrow> lv_le (all_x w n) b"
  by (simp add: lv_le_def all_x_def xs_le)

lemma unknown_bool_le: "lv_width b = 1 \<Longrightarrow> length (lv_bits b) = 1 \<Longrightarrow> lv_le unknown_bool b"
  using all_x_le [of b 1 1] by (simp add: unknown_bool_def all_x_def)

lemma two_state_le: "two_state s \<Longrightarrow> list_all2 bit_le s t \<Longrightarrow> s = t"
  by (induction s arbitrary: t) (auto simp: list_all2_Cons1 bit_le_def is_known_bit_def two_state_def)

lemma from_bits_le: "list_all2 bit_le s t \<Longrightarrow> lv_le (logic_value_from_bits s w) (logic_value_from_bits t w)"
  using two_state_le [of s t] list_all2_lengthD [of bit_le s t]
  by (auto simp: lv_le_def logic_value_from_bits_flags)

lemma from_u64_shape:
  "logic_value_from_u64 x w = Inr v \<Longrightarrow> 0 < w \<Longrightarrow> lv_width v = w \<and> length (lv_bits v) = nat w \<and> lv_known v"
  by (auto simp: from_u64_eq logic_value_init_def split: if_splits)

lemma arith_shape:
  "arith a b op = Inr v \<Longrightarrow> 0 < arith_width a b \<Longrightarrow>
     lv_width v = arith_width a b \<and> length (lv_bits v) = nat (arith_width a b)"
  by (auto simp: arith_def Let_def all_x_def rbind_def dest: from_u64_shape split: if_splits sum.splits)

lemma sized_arith_width: "sized a \<Longrightarrow> sized b \<Longrightarrow> 0 < arith_width a b"
  by (auto simp: sized_def arith_width_def split: if_splits)

lemma arith_width_le: "lv_le a a' \<Longrightarrow> lv_le b b' \<Longrightarrow> arith_width a' b' = arith_width a b"
  using lv_le_length [of a a'] lv_le_length [of b b'] by (simp add: lv_le_def arith_width_def)

lemma arith_le:
  assumes "sized a" "sized b" "lv_le a a'" "lv_le b b'" "arith a b op = Inr v" "arith a' b' op = Inr v'"
  shows "lv_le v v'"
proof (cases "lv_known a \<and> lv_known b")
  case True
  with assms have "a' = a" "b' = b" by (auto simp: lv_le_def)
  with assms show ?thesis by simp
next
  case False
  note w = sized_arith_width [OF assms(1,2)] arith_width_le [OF assms(3,4)]
  with arith_shape [OF assms(6)] False assms(5) show ?thesis
    by (auto simp: arith_def Let_def intro!: all_x_le)
qed

lemma sized_arith: "sized a \<Longrightarrow> sized b \<Longrightarrow> arith a b op = Inr v \<Longrightarrow> sized v"
  using arith_shape [of a b op v] sized_arith_width [of a b] by (auto simp: sized_def)

lemma operand_width_le: "lv_le a a' \<Longrightarrow> operand_width a' = operand_width a"
  using lv_le_length [of a a'] by (simp add: lv_le_def operand_width_def)

lemma last_n_le: "list_all2 P s t \<Longrightarrow> list_all2 P (last_n n s) (last_n n t)"
  using list_all2_lengthD [of P s t] by (simp add: last_n_def list_all2_dropI)

lemma fit_operand_le: "lv_le a a' \<Longrightarrow> list_all2 bit_le (fit_operand w a) (fit_operand w a')"
proof (cases "lv_known a")
  case False
  assume le: "lv_le a a'"
  have "list_all2 bit_le (pad_front (nat w) (CHR ''x'') (lv_bits a)) (pad_front (nat w) c (lv_bits a'))" for c
    using le lv_le_length [OF le] unfolding pad_front_def lv_le_def
    by (auto intro!: list_all2_appendI xs_le)
  with False show ?thesis by (simp add: fit_operand_def Let_def last_n_le)
qed (auto simp: lv_le_def list_all2_refl)

lemma list_all2_map2:
  assumes "list_all2 P xs xs'" "list_all2 P ys ys'" "\<And>x x' y y'. P x x' \<Longrightarrow> P y y' \<Longrightarrow> P (f x y) (f x' y')"
  shows "list_all2 P (map2 f xs ys) (map2 f xs' ys')"
  using assms by (auto simp: list_all2_conv_all_nth)

lemma bit_op_le: "bit_le x x' \<Longrightarrow> bit_le y y' \<Longrightarrow> bit_le (bit_op op x y) (bit_op op x' y')"
  by (auto simp: bit_op_def bit_le_def is_known_bit_def)

lemma bitwise_known:
  "lv_known (bitwise a b op) \<longleftrightarrow>
    (let w = max (operand_width a) (operand_width b)
     in (\<forall>(ca, cb) \<in> set (zip (fit_operand w a) (fit_operand w b)). is_known_bit ca \<and> is_known_bit cb))"
  by (auto simp: bitwise_def Let_def filter_empty_conv)

lemma zip_known_eq:
  "list_all2 bit_le xs xs' \<Longrightarrow> list_all2 bit_le ys ys' \<Longrightarrow> length xs = length ys \<Longrightarrow>
   \<forall>(ca, cb) \<in> set (zip xs ys). is_known_bit ca \<and> is_known_bit cb \<Longrightarrow> xs = xs' \<and> ys = ys'"
proof (induction xs xs' arbitrary: ys ys' rule: list_all2_induct)
  case (Cons x xs x' xs')
  then obtain y zs y' zs' where "ys = y # zs" "ys' = y' # zs'" "bit_le y y'" "list_all2 bit_le zs zs'"
    by (cases ys) (auto simp: list_all2_Cons1)
  with Cons show ?case by (auto simp: bit_le_def)
qed auto

lemma bitwise_le: "lv_le a a' \<Longrightarrow> lv_le b b' \<Longrightarrow> lv_le (bitwise a b op) (bitwise a' b' op)"
proof -
  assume le: "lv_le a a'" "lv_le b b'"
  let ?w = "max (operand_width a) (operand_width b)"
  have f: "list_all2 bit_le (fit_operand ?w a) (fit_operand ?w a')"
    "list_all2 bit_le (fit_operand ?w b) (fit_operand ?w b')"
    using fit_operand_le le by blast+
  have "bitwise a b op = bitwise a' b' op" if "lv_known (bitwise a b op)"
  proof -
    from that have "fit_operand ?w a = fit_operand ?w a' \<and> fit_operand ?w b = fit_operand ?w b'"
      by (intro zip_known_eq f) (simp_all add: bitwise_known Let_def)
    then show ?thesis using le by (simp add: bitwise_def operand_width_le)
  qed
  with f le show ?thesis
    unfolding lv_le_def [of "bitwise a b op"]
    by (auto simp: bitwise_fields operand_width_le intro!: list_all2_map2 bit_op_le)
qed

lemma sized_operand_width: "sized a \<Longrightarrow> 0 < operand_width a"
  by (auto simp: sized_def operand_width_def split: if_splits)

lemma sized_bitwise: "sized a \<Longrightarrow> sized (bitwise a b op)"
proof -
  assume "sized a"
  then have "0 < max (operand_width a) (operand_width b)" using sized_operand_width [of a] by simp
  then show ?thesis by (simp add: sized_def bitwise_fields)
qed

lemma truth_loop_eq:
  "logical_truth_loop s u =
    (if CHR ''1'' \<in> set s then LTrue else if u \<or> (\<exists>c \<in> set s. c \<noteq> CHR ''0'') then LUnknown else LFalse)"
  by (induction s arbitrary: u) auto

lemma one_le: "list_all2 bit_le s t \<Longrightarrow> CHR ''1'' \<in> set s \<Longrightarrow> CHR ''1'' \<in> set t"
  by (induction s t rule: list_all2_induct) (auto simp: bit_le_def is_known_bit_def)

lemma logical_truth_le:
  "lv_le a b \<Longrightarrow> logical_truth a \<noteq> LUnknown \<Longrightarrow> logical_truth b = logical_truth a"
proof -
  assume le: "lv_le a b" and u: "logical_truth a \<noteq> LUnknown"
  have l: "list_all2 bit_le (lv_bits a) (lv_bits b)" using le by (simp add: lv_le_def)
  show ?thesis
  proof (cases "CHR ''1'' \<in> set (lv_bits a)")
    case True
    with one_le [OF l] show ?thesis by (simp add: logical_truth_def truth_loop_eq)
  next
    case False
    with u have "two_state (lv_bits a)"
      by (auto simp: logical_truth_def truth_loop_eq two_state_def split: if_splits)
    then have "lv_bits a = lv_bits b" using l by (rule two_state_le)
    then show ?thesis by (simp add: logical_truth_def)
  qed
qed

definition bit_ops :: "string list" where
  "bit_ops = [''&'', ''|'', ''^'']"

definition arith_ops :: "string list" where
  "arith_ops = [''+'', ''-'', ''*'', ''/'', ''%'', ''<<'', ''>>'']"

definition bool_ops :: "string list" where
  "bool_ops = [''&&'', ''||'', ''<'', ''<='', ''>'', ''>='', ''=='', ''!='']"

definition pessimistic_ops :: "string list" where
  "pessimistic_ops = bit_ops @ arith_ops @ bool_ops"

lemma eval_binary_groups:
  "op \<in> set bit_ops \<Longrightarrow> eval_binary op l r = Inr (bitwise l r op)"
  "op \<in> set arith_ops \<Longrightarrow> eval_binary op l r = arith l r op"
  "op \<in> {''<'', ''<='', ''>'', ''>=''} \<Longrightarrow> eval_binary op l r = cmp l r op"
  "op \<in> {''=='', ''!=''} \<Longrightarrow> eval_binary op l r = eq l r op"
  unfolding bit_ops_def arith_ops_def list.set by (elim insertE; simp add: eval_binary_def)+

lemma bool_ops_groups:
  "op \<in> set bool_ops \<Longrightarrow> op = ''&&'' \<or> op = ''||'' \<or> op \<in> {''<'', ''<='', ''>'', ''>=''} \<or> op \<in> {''=='', ''!=''}"
  unfolding bool_ops_def list.set by (elim insertE; simp)

lemma from_bool_shape: "from_bool b = Inr v \<Longrightarrow> lv_width v = 1 \<and> length (lv_bits v) = 1"
  by (auto simp: from_bool_eq)

definition bool_shape :: "logic_value \<Rightarrow> bool" where
  "bool_shape v \<longleftrightarrow> lv_width v = 1 \<and> length (lv_bits v) = 1"

lemma bool_shape_simps [simp]:
  "bool_shape unknown_bool" "from_bool b = Inr v \<Longrightarrow> bool_shape v" "bool_shape v \<Longrightarrow> sized v"
  "bool_shape v \<Longrightarrow> lv_le unknown_bool v"
  by (auto simp: bool_shape_def unknown_bool_def from_bool_eq sized_def intro: unknown_bool_le [unfolded unknown_bool_def])

lemma cmp_shape: "cmp a b op = Inr v \<Longrightarrow> bool_shape v"
  by (auto simp: cmp_def Let_def split: if_splits)

lemma eq_shape: "eq a b op = Inr v \<Longrightarrow> bool_shape v"
  by (auto simp: eq_def Let_def split: if_splits)

lemma invert_bits_shape: "lv_width (invert_bits a) = lv_width a \<and> length (lv_bits (invert_bits a)) = length (lv_bits a)"
  by (simp add: invert_bits_def)

lemma sized_all_x: "0 < w \<Longrightarrow> sized (all_x w (nat w))"
  by (simp add: sized_def all_x_def)

lemma sized_nonempty: "sized a \<Longrightarrow> 1 \<le> length (lv_bits a)"
  by (auto simp: sized_def split: if_splits)

lemma unknown_width: "sized a \<Longrightarrow> \<not> lv_known a \<Longrightarrow> 0 < lv_width a \<and> length (lv_bits a) = nat (lv_width a)"
  by (auto simp: sized_def split: if_splits)

lemma eval_unary_sized:
  assumes "sized a" "op \<in> {''~'', ''!''}" "eval_unary op a = Inr v"
  shows "sized v"
proof -
  consider (unk) "op = ''~''" "\<not> lv_known a" | (inv) "op = ''~''" "lv_known a" | (bang) "op = ''!''"
    using assms(2) by auto
  then show ?thesis
  proof cases
    case unk
    with assms unknown_width [OF assms(1)] show ?thesis
      by (auto simp: eval_unary_def max_def sized_all_x split: if_splits)
  next
    case inv
    with assms show ?thesis by (auto simp: eval_unary_def invert_bits_def sized_def logic_value_init_def)
  qed (use assms in \<open>auto simp: eval_unary_def reduce_def split: logical_truth_value.splits\<close>)
qed

lemma eval_unary_le:
  assumes "sized a" "lv_le a a'" "op \<in> {''~'', ''!''}" "eval_unary op a = Inr v" "eval_unary op a' = Inr v'"
  shows "lv_le v v'"
proof -
  consider (same) "lv_known a" | (bang) "op = ''!''" | (inv) "\<not> lv_known a" "op = ''~''"
    using assms(3) by auto
  then show ?thesis
  proof cases
    case same
    with assms show ?thesis by (auto simp: lv_le_def list_all2_refl)
  next
    case bang
    with assms(4,5) logical_truth_le [OF assms(2)] show ?thesis
      by (auto simp: eval_unary_def reduce_def split: logical_truth_value.splits)
  next
    case inv
    with assms(4) have v: "v = all_x (lv_width a) (length (lv_bits a))"
      using sized_nonempty [OF assms(1)] by (simp add: eval_unary_def max_def)
    have "lv_width v' = lv_width a' \<and> length (lv_bits v') = length (lv_bits a')"
      using inv assms(5) sized_nonempty [OF assms(1)] lv_le_length [OF assms(2)]
      by (auto simp: eval_unary_def invert_bits_shape all_x_def split: if_splits)
    with v assms(2) lv_le_length [OF assms(2)] show ?thesis by (auto simp: lv_le_def [of a] intro!: all_x_le)
  qed
qed

lemma bool_le_lift:
  assumes "bool_shape v'" "v \<noteq> unknown_bool \<Longrightarrow> v' = v"
  shows "lv_le v v'"
  using assms by (cases "v = unknown_bool") auto

lemma eval_binary_shape: "op \<in> set bool_ops \<Longrightarrow> eval_binary op x y = Inr u \<Longrightarrow> bool_shape u"
proof (drule bool_ops_groups, elim disjE)
  assume "op \<in> {''<'', ''<='', ''>'', ''>=''}" "eval_binary op x y = Inr u"
  then show ?thesis by (simp only: eval_binary_groups) (rule cmp_shape)
next
  assume "op \<in> {''=='', ''!=''}" "eval_binary op x y = Inr u"
  then show ?thesis by (simp only: eval_binary_groups) (rule eq_shape)
qed (auto simp: eval_binary_def split: if_splits)

lemma eval_binary_definite:
  assumes "lv_le a a'" "lv_le b b'" "op \<in> set bool_ops"
    "eval_binary op a b = Inr v" "v \<noteq> unknown_bool"
  shows "eval_binary op a' b' = Inr v"
  using bool_ops_groups [OF assms(3)]
proof (elim disjE)
  assume op: "op \<in> {''<'', ''<='', ''>'', ''>=''}"
  then have "cmp a b op = Inr v" using assms(4) by (simp only: eval_binary_groups)
  with assms(5) have "lv_known a" "lv_known b" by (auto simp: cmp_def split: if_splits)
  with assms show ?thesis by (simp add: lv_le_def)
next
  assume op: "op \<in> {''=='', ''!=''}"
  then have "eq a b op = Inr v" using assms(4) by (simp only: eval_binary_groups)
  with assms(5) op have "lv_known a" "lv_known b" by (auto simp: eq_def Let_def split: if_splits)
  with assms show ?thesis by (simp add: lv_le_def)
next
  assume "op = ''&&''"
  with assms(4,5) logical_truth_le [OF assms(1)] logical_truth_le [OF assms(2)] show ?thesis
    by (auto simp: eval_binary_def split: if_splits)
next
  assume "op = ''||''"
  with assms(4,5) logical_truth_le [OF assms(1)] logical_truth_le [OF assms(2)] show ?thesis
    by (auto simp: eval_binary_def split: if_splits)
qed

lemma eval_binary_le:
  assumes "sized a" "sized b" "lv_le a a'" "lv_le b b'" "op \<in> set pessimistic_ops"
    "eval_binary op a b = Inr v" "eval_binary op a' b' = Inr v'"
  shows "lv_le v v' \<and> sized v"
proof -
  consider (bit) "op \<in> set bit_ops" | (ar) "op \<in> set arith_ops" | (bool) "op \<in> set bool_ops"
    using assms(5) by (auto simp: pessimistic_ops_def)
  then show ?thesis
  proof cases
    case bit
    with assms(6,7) have "v = bitwise a b op" "v' = bitwise a' b' op" by (simp_all add: eval_binary_groups(1))
    with bitwise_le [OF assms(3,4)] sized_bitwise [OF assms(1)] show ?thesis by simp
  next
    case ar
    with assms(6,7) have "arith a b op = Inr v" "arith a' b' op = Inr v'" by (simp_all add: eval_binary_groups(2))
    with arith_le [OF assms(1-4)] sized_arith [OF assms(1,2)] show ?thesis by blast
  next
    case bool
    have "v' = v" if "v \<noteq> unknown_bool"
      using eval_binary_definite [OF assms(3,4) bool assms(6) that] assms(7) by simp
    then show ?thesis
      using eval_binary_shape [OF bool assms(6)] eval_binary_shape [OF bool assms(7)] bool_le_lift by auto
  qed
qed

primrec pessimistic :: "expr_node \<Rightarrow> bool" where
  "pessimistic (Const v) \<longleftrightarrow> sized v"
| "pessimistic (Signal n) \<longleftrightarrow> True"
| "pessimistic (Slice n msb lsb) \<longleftrightarrow> 0 \<le> lsb \<and> lsb \<le> msb"
| "pessimistic (Unary op e) \<longleftrightarrow> op \<in> {''~'', ''!''} \<and> pessimistic e"
| "pessimistic (Binary op a b) \<longleftrightarrow> op \<in> set pessimistic_ops \<and> pessimistic a \<and> pessimistic b"

text \<open>
  The second waveform resolves unknown bits of a signal of the first: both find and sample it, with texts of
  the declared width, and every bit the first waveform knows is the same in the second.
\<close>

definition resolves :: "waveform \<Rightarrow> waveform \<Rightarrow> nat \<Rightarrow> observation_point \<Rightarrow> string \<Rightarrow> bool" where
  "resolves w w' ti point n \<longleftrightarrow>
     (let r = wf_find_signal w n; r' = wf_find_signal w' n
      in r \<noteq> kInvalidSignalRef \<and> r' \<noteq> kInvalidSignalRef \<and>
         (case (wf_sampled_value_at w r ti point, wf_sampled_value_at w' r' ti point) of
            (Some s, Some s') \<Rightarrow>
              let t = wv_text (sv_value s); t' = wv_text (sv_value s')
              in t \<noteq> [] \<and> info_width w r = int (length t) \<and> info_width w' r' = int (length t) \<and>
                 list_all2 bit_le t t'
          | _ \<Rightarrow> False))"

definition slices_in_range :: "waveform \<Rightarrow> nat \<Rightarrow> observation_point \<Rightarrow> string \<Rightarrow> int \<Rightarrow> bool" where
  "slices_in_range w ti point n msb \<longleftrightarrow>
     (case wf_sampled_value_at w (wf_find_signal w n) ti point of
        Some s \<Rightarrow> msb < int (length (wv_text (sv_value s))) | None \<Rightarrow> False)"

primrec in_range :: "waveform \<Rightarrow> nat \<Rightarrow> observation_point \<Rightarrow> expr_node \<Rightarrow> bool" where
  "in_range w ti point (Const v) \<longleftrightarrow> True"
| "in_range w ti point (Signal n) \<longleftrightarrow> True"
| "in_range w ti point (Slice n msb lsb) \<longleftrightarrow> slices_in_range w ti point n msb"
| "in_range w ti point (Unary op e) \<longleftrightarrow> in_range w ti point e"
| "in_range w ti point (Binary op a b) \<longleftrightarrow> in_range w ti point a \<and> in_range w ti point b"

lemma resolvesD:
  assumes "resolves w w' ti point n"
  obtains s s' t t' where "wf_sampled_value_at w (wf_find_signal w n) ti point = Some s"
    "wf_sampled_value_at w' (wf_find_signal w' n) ti point = Some s'"
    "t = wv_text (sv_value s)" "t' = wv_text (sv_value s')" "t \<noteq> []"
    "info_width w (wf_find_signal w n) = int (length t)" "info_width w' (wf_find_signal w' n) = int (length t)"
    "list_all2 bit_le t t'"
    "wf_find_signal w n \<noteq> kInvalidSignalRef" "wf_find_signal w' n \<noteq> kInvalidSignalRef"
  using assms by (auto simp: resolves_def Let_def split: option.splits)

lemma length_slice_bits: "lsb \<le> msb \<Longrightarrow> length (slice_bits t msb lsb) = nat (msb - lsb + 1)"
  by (simp add: slice_bits_def Let_def)

lemma slice_value_le:
  assumes "list_all2 bit_le t t'" "0 \<le> lsb" "lsb \<le> msb" "msb < int (length t)" "lv_le v v'" "lv_known v \<Longrightarrow> t = t'"
  shows "lv_le (slice_value t msb lsb v) (slice_value t' msb lsb v') \<and> sized (slice_value t msb lsb v)"
proof -
  have len: "length t' = length t" using assms(1) by (auto dest: list_all2_lengthD)
  have fields: "lv_width (slice_value s msb lsb u) = msb - lsb + 1" "lv_bits (slice_value s msb lsb u) = slice_bits s msb lsb"
    if "length s = length t" for s u
    using assms(2-4) that by (simp_all add: slice_value_def Let_def)
  have nth: "bit_le (t ! i) (t' ! i)" if "i < length t" for i
    using assms(1) that by (simp add: list_all2_nthD)
  have b: "list_all2 bit_le (slice_bits t msb lsb) (slice_bits t' msb lsb)"
    using nth len by (auto simp: slice_bits_def Let_def list_all2_conv_all_nth)
  have k: "slice_value t msb lsb v = slice_value t' msb lsb v'" if "lv_known (slice_value t msb lsb v)"
  proof -
    from that have "lv_known v" by (simp add: slice_value_def Let_def split: prod.splits)
    with assms(5,6) show ?thesis by (simp add: lv_le_def)
  qed
  show ?thesis
    using b k fields [OF refl] fields [OF len] assms(2,3)
    by (auto simp: lv_le_def sized_def length_slice_bits)
qed


lemma read_operand_le:
  assumes "resolves w w' ti point n" "pessimistic e" "in_range w ti point e" "e = Signal n \<or> (\<exists>i j. e = Slice n i j)"
  shows "\<exists>v v'. read_operand e n w ti point = Inr v \<and> read_operand e n w' ti point = Inr v' \<and> lv_le v v' \<and> sized v"
proof -
  obtain s s' t t' where s: "wf_sampled_value_at w (wf_find_signal w n) ti point = Some s"
    "wf_sampled_value_at w' (wf_find_signal w' n) ti point = Some s'"
    "t = wv_text (sv_value s)" "t' = wv_text (sv_value s')" "t \<noteq> []"
    "info_width w (wf_find_signal w n) = int (length t)" "info_width w' (wf_find_signal w' n) = int (length t)"
    and l: "list_all2 bit_le t t'"
    and f: "wf_find_signal w n \<noteq> kInvalidSignalRef" "wf_find_signal w' n \<noteq> kInvalidSignalRef"
    using assms(1) by (rule resolvesD)
  let ?v = "logic_value_from_bits t (int (length t))" and ?v' = "logic_value_from_bits t' (int (length t))"
  have le: "lv_le ?v ?v'" by (rule from_bits_le [OF l])
  have k: "t = t'" if "lv_known ?v" using that l two_state_le by (simp add: logic_value_from_bits_flags)
  have "sized ?v" using s(5) by (simp add: sized_def)
  moreover have "lv_le (slice_value t i j ?v) (slice_value t' i j ?v') \<and> sized (slice_value t i j ?v)" if "e = Slice n i j" for i j
    using that assms(2,3) s slice_value_le [OF l _ _ _ le k] by (simp add: slices_in_range_def)
  ultimately show ?thesis
    using assms(4) le s f by (elim disjE exE; cases e) (auto simp: read_operand_def Let_def)
qed

lemma eval_none: "eval_expression e w ti None point = Inr (v, s) \<Longrightarrow> s = None"
  by (induction e arbitrary: v s) (fastforce simp: cached_read_def rbind_def split: sum.splits)+

lemma eval_Unary_None:
  assumes "eval_expression (Unary op e) w ti None point = Inr (v, None)"
  obtains r where "eval_expression e w ti None point = Inr (r, None)" "eval_unary op r = Inr v"
  using assms by (auto simp: rbind_def split: sum.splits dest: eval_none)

lemma eval_Binary_None:
  assumes "eval_expression (Binary op a b) w ti None point = Inr (v, None)"
  obtains l r where "eval_expression a w ti None point = Inr (l, None)"
    "eval_expression b w ti None point = Inr (r, None)" "eval_binary op l r = Inr v"
proof -
  from assms obtain l s where l: "eval_expression a w ti None point = Inr (l, s)"
    by (cases "eval_expression a w ti None point") auto
  with eval_none [OF l] assms show ?thesis
    using that by (auto simp: rbind_def split: sum.splits dest: eval_none)
qed

lemma eval_expression_le:
  assumes "pessimistic e" "in_range w ti point e" "\<And>n. n \<in> signal_names e \<Longrightarrow> resolves w w' ti point n"
    "eval_expression e w ti None point = Inr (v, None)" "eval_expression e w' ti None point = Inr (v', None)"
  shows "lv_le v v' \<and> sized v"
  using assms
proof (induction e arbitrary: v v')
  case (Signal n)
  then show ?case using read_operand_le [of w w' ti point n "Signal n"] by (auto simp: cached_read_def rbind_def)
next
  case (Slice n i j)
  then show ?case using read_operand_le [of w w' ti point n "Slice n i j"] by (auto simp: cached_read_def rbind_def)
next
  case (Unary op e)
  obtain r r' where r: "eval_expression e w ti None point = Inr (r, None)" "eval_unary op r = Inr v"
    "eval_expression e w' ti None point = Inr (r', None)" "eval_unary op r' = Inr v'"
    using Unary.prems(4,5) by (elim eval_Unary_None) blast
  with Unary have "lv_le r r'" "sized r" by auto
  moreover from Unary.prems(1) have "op \<in> {''~'', ''!''}" by simp
  ultimately show ?case using r(2,4) eval_unary_le [of r r' op v v'] eval_unary_sized [of r op v] by blast
next
  case (Binary op a b)
  obtain l r where x: "eval_expression a w ti None point = Inr (l, None)"
    "eval_expression b w ti None point = Inr (r, None)" "eval_binary op l r = Inr v"
    using Binary.prems(4) by (rule eval_Binary_None)
  obtain l' r' where y: "eval_expression a w' ti None point = Inr (l', None)"
    "eval_expression b w' ti None point = Inr (r', None)" "eval_binary op l' r' = Inr v'"
    using Binary.prems(5) by (rule eval_Binary_None)
  have "lv_le l l' \<and> sized l" using Binary.IH(1) [OF _ _ _ x(1) y(1)] Binary.prems by simp
  moreover have "lv_le r r' \<and> sized r" using Binary.IH(2) [OF _ _ _ x(2) y(2)] Binary.prems by simp
  ultimately show ?case using eval_binary_le [of l r l' r' op v v'] x(3) y(3) Binary.prems(1) by simp
qed auto


text \<open>
  Claim C21 (safety). A large class of expressions treats unknown bits pessimistically. Take an expression built from
  the binary bitwise, arithmetic, logical, order and \<open>==\<close>/\<open>!=\<close> operators and the unary \<open>~\<close> and \<open>!\<close>, with slices
  in range, evaluated without a memo table. If a second waveform resolves unknown bits of the first and both
  evaluations return, every bit the first result knows is the same in the second, and a result reported as known
  does not change at all. Unary minus, the other unary operators, \<open>===\<close>/\<open>!==\<close> and the wildcard comparisons are not in
  the class; unary minus does leak, as \<open>unary_minus_leaks_bits\<close> shows.
\<close>

theorem unknown_bits_pessimistic:
  assumes "pessimistic e" and "in_range w ti point e" and "\<forall>n \<in> signal_names e. resolves w w' ti point n"
    and "eval_expression e w ti None point = Inr (v, None)" and "eval_expression e w' ti None point = Inr (v', None)"
  shows "lv_width v = lv_width v' \<and> list_all2 bit_le (lv_bits v) (lv_bits v') \<and> (lv_known v \<longrightarrow> v' = v)"
  using eval_expression_le [of e w ti point w' v v'] assms by (auto simp: lv_le_def)

definition text_wave :: "string \<Rightarrow> waveform" where
  "text_wave t = demo_wave\<lparr>wf_signal_info := (\<lambda>r. Some \<lparr>si_encoding = BitVector, si_num_changes = 1, si_max_states = 4,
        si_width = word_of_nat (length t), si_bytes_per_entry = 1, si_has_meta_byte = False\<rparr>),
     wf_sampled_value_at := (\<lambda>r ti p. Some \<lparr>sv_value = \<lparr>wv_kind = BitVector, wv_text = t, wv_real = Double 0\<rparr>,
        sv_time_idx = ti, sv_element = 0, sv_elements_at_time = 1, sv_time_match = True\<rparr>)\<rparr>"

theorem unknown_bits_pessimistic_witness:
  "\<exists>v v'. eval_expression (Binary ''&'' (Signal ''a'') (Signal ''a'')) (text_wave ''x1'') 0 None Raw = Inr (v, None) \<and>
     eval_expression (Binary ''&'' (Signal ''a'') (Signal ''a'')) (text_wave ''01'') 0 None Raw = Inr (v', None) \<and>
     lv_bits v = ''x1'' \<and> lv_bits v' = ''01'' \<and>
     lv_width v = lv_width v' \<and> list_all2 bit_le (lv_bits v) (lv_bits v') \<and> \<not> lv_known v"
proof -
  let ?e = "Binary ''&'' (Signal ''a'') (Signal ''a'')"
  let ?v = "logic_value_from_bits ''x1'' 2" and ?v' = "logic_value_from_bits ''01'' 2"
  have "case eval_expression ?e (text_wave ''x1'') 0 None Raw of
      Inr (v, s) \<Rightarrow> v = ?v \<and> Option.is_none s | _ \<Rightarrow> False"
    "case eval_expression ?e (text_wave ''01'') 0 None Raw of
      Inr (v, s) \<Rightarrow> v = ?v' \<and> Option.is_none s | _ \<Rightarrow> False"
    by code_simp+
  then have e: "eval_expression ?e (text_wave ''x1'') 0 None Raw = Inr (?v, None)"
    "eval_expression ?e (text_wave ''01'') 0 None Raw = Inr (?v', None)"
    by (auto simp: Option.is_none_def split: sum.splits)
  moreover have "resolves (text_wave ''x1'') (text_wave ''01'') 0 Raw ''a''"
    by (simp add: resolves_def text_wave_def demo_wave_def kInvalidSignalRef_def info_width_def bit_le_def
        is_known_bit_def)
  ultimately have "lv_width ?v = lv_width ?v' \<and> list_all2 bit_le (lv_bits ?v) (lv_bits ?v') \<and> (lv_known ?v \<longrightarrow> ?v' = ?v)"
    by (intro unknown_bits_pessimistic [of ?e "text_wave ''x1''" 0 Raw "text_wave ''01''"])
      (simp_all add: pessimistic_ops_def bit_ops_def)
  with e show ?thesis by (intro exI [of _ ?v] exI [of _ ?v']) (simp add: logic_value_from_bits_flags two_state_def)
qed

text \<open>
  Unary minus is not pessimistic: on an operand with an unknown bit it returns the operand
  itself, so its known bits pass for bits of the negation. With \<open>a\<close> = \<open>1x\<close> the condition
  \<open>(-a & 2'b10) || 1'b0\<close> is reported true, and with the unknown bit resolved to 1 it is false.
\<close>

theorem unary_minus_leaks_bits:
  "expr_eval_at ''(-a & 2'b10) || 1'b0'' (text_wave ''1x'') 0 = Inr (Some (logic_value_from_bits ''1'' 1)) \<and>
   expr_eval_at ''(-a & 2'b10) || 1'b0'' (text_wave ''11'') 0 = Inr (Some (logic_value_from_bits ''0'' 1))"
  by code_simp

text \<open>
  A slice keeps the \<open>known\<close> flag of the whole signal: with \<open>a\<close> = \<open>x1\<close> the comparison
  \<open>a[0] == 1'b1\<close> is unknown although bit 0 is a known 1, while the strict comparison \<open>a[0] === 1'b1\<close> is true.
  And a one-digit unknown constant is not extended to its width: with \<open>a\<close> all x, \<open>a === 8'hx\<close> is false.
\<close>

theorem slice_keeps_vector_flags:
  "expr_eval_at ''a[0] == 1'b1'' (text_wave ''x1'') 0 = Inr (Some unknown_bool) \<and>
   expr_eval_at ''a[0] === 1'b1'' (text_wave ''x1'') 0 = Inr (Some (logic_value_from_bits ''1'' 1)) \<and>
   expr_eval_at ''a === 8'hx'' (text_wave ''xxxxxxxx'') 0 = Inr (Some (logic_value_from_bits ''0'' 1))"
proof (intro conjI)
  show "expr_eval_at ''a[0] == 1'b1'' (text_wave ''x1'') 0 = Inr (Some unknown_bool)" by code_simp
  show "expr_eval_at ''a[0] === 1'b1'' (text_wave ''x1'') 0 = Inr (Some (logic_value_from_bits ''1'' 1))" by code_simp
  show "expr_eval_at ''a === 8'hx'' (text_wave ''xxxxxxxx'') 0 = Inr (Some (logic_value_from_bits ''0'' 1))" by code_simp
qed

end
