(* ===== verification/Wellen_Backend.thy ===== *)
theory Wellen_Backend
  imports Waveform_Interface
begin

unbundle bit_operations_syntax

text \<open>
  The waveform backend \<open>backend/wellen_fst_backend.{h,cpp}\<close>: opening and closing, the cached time table, the
  lazily built name index, virtual signals for packed selections (\<open>bus[7:4]\<close>), and every query on them. The
  two C interfaces it calls, \<open>wellen_capi\<close> and \<open>wellenx_capi\<close>, are the record \<open>capi\<close>: an argument of the
  definitions. Behind them are thin Rust wrappers, which the repository has, over a waveform library, which it has not. Methods that the source declares \<open>const\<close> but that fill \<open>mutable\<close> caches return the new state.
\<close>

section \<open>The C libraries\<close>

datatype encoding = Enc_bitvector | Enc_real | Enc_string | Enc_event

record raw_info =
  ri_encoding :: encoding
  ri_num_changes :: u32
  ri_max_states :: u32
  ri_width :: u32
  ri_bytes_per_entry :: u32
  ri_has_meta_byte :: bool

text \<open>
  \<open>c_typed_value\<close> is \<open>wellen_signal_typed_value_at_offset\<close>: its last argument is the capacity of the text buffer,
  its result the return code, the text length, the text copied, the real value and the encoding.
\<close>

record ('d, 'x) capi =
  c_file_exists :: "string \<Rightarrow> bool"
  c_open :: "string \<Rightarrow> 'd option"
  x_open :: "string \<Rightarrow> 'x option"
  c_times :: "'d \<Rightarrow> u64 list"
  c_timescale :: "'d \<Rightarrow> (u32 \<times> int) option"
  c_scope_count :: "'d \<Rightarrow> nat"
  c_scope_at :: "'d \<Rightarrow> nat \<Rightarrow> u32"
  c_scope_var_count :: "'d \<Rightarrow> u32 \<Rightarrow> nat"
  c_scope_var_at :: "'d \<Rightarrow> u32 \<Rightarrow> nat \<Rightarrow> u32"
  c_var_full_name :: "'d \<Rightarrow> u32 \<Rightarrow> string option"
  c_var_name :: "'d \<Rightarrow> u32 \<Rightarrow> string option"
  c_var_signal_ref :: "'d \<Rightarrow> u32 \<Rightarrow> u32"
  c_var_encoding :: "'d \<Rightarrow> u32 \<Rightarrow> encoding \<times> u32"
  c_var_index :: "'d \<Rightarrow> u32 \<Rightarrow> (int \<times> int) option"
  c_load_signals :: "'d \<Rightarrow> u32 list \<Rightarrow> int \<times> 'd"
  c_unload_signals :: "'d \<Rightarrow> u32 list \<Rightarrow> 'd"
  c_signal_info :: "'d \<Rightarrow> u32 \<Rightarrow> raw_info option"
  c_signal_offset_at :: "'d \<Rightarrow> u32 \<Rightarrow> nat \<Rightarrow> signal_offset option"
  c_typed_value :: "'d \<Rightarrow> u32 \<Rightarrow> nat \<Rightarrow> u16 \<Rightarrow> nat \<Rightarrow> int \<times> nat \<times> string \<times> double \<times> encoding"
  x_load_signals :: "'x \<Rightarrow> u32 list \<Rightarrow> 'x"
  x_unload_signals :: "'x \<Rightarrow> u32 list \<Rightarrow> 'x"
  x_time_indices :: "'x \<Rightarrow> u32 \<Rightarrow> nat list option"

section \<open>State\<close>

record declared_range =
  dr_msb :: int
  dr_lsb :: int
  dr_width :: u32

record packed_selection =
  ps_base_ref :: u32
  ps_declared_msb :: int
  ps_declared_lsb :: int
  ps_selected_msb :: int
  ps_selected_lsb :: int
  ps_width :: u32

record selected_change =
  ch_time_idx :: nat
  ch_value :: waveform_value

record time_scale =
  ts_factor :: u32
  ts_exponent :: int

definition time_scale_init :: time_scale where
  "time_scale_init = \<lparr>ts_factor = 0, ts_exponent = 0\<rparr>"

definition time_scale_valid :: "time_scale \<Rightarrow> bool" where
  "time_scale_valid s \<longleftrightarrow> ts_factor s \<noteq> 0"

record ('d, 'x) backend =
  be_db :: "'d option"
  be_xdb :: "'x option"
  be_time_table :: "u64 list"
  be_time_scale :: time_scale
  be_signal_index :: "string \<rightharpoonup> u32"
  be_index_built :: bool
  be_build_count :: u64
  be_declared_ranges :: "string \<rightharpoonup> declared_range"
  be_packed_index :: "string \<rightharpoonup> u32"
  be_packed_selections :: "packed_selection list"
  be_change_cache :: "u32 \<rightharpoonup> selected_change list"

definition backend_init :: "('d, 'x) backend" where
  "backend_init = \<lparr>be_db = None, be_xdb = None, be_time_table = [], be_time_scale = time_scale_init,
     be_signal_index = Map.empty, be_index_built = False, be_build_count = 0, be_declared_ranges = Map.empty,
     be_packed_index = Map.empty, be_packed_selections = [], be_change_cache = Map.empty\<rparr>"

definition kVirtualSignalFlag :: u32 where
  "kVirtualSignalFlag = 0x80000000"

section \<open>Lifecycle\<close>

definition has_fst_suffix :: "string \<Rightarrow> bool" where
  "has_fst_suffix path \<longleftrightarrow> 4 \<le> length path \<and> drop (length path - 4) path = ''.fst''"

text \<open>Closing drops the handles and clears every cache.\<close>

definition close_backend :: "('d, 'x) backend \<Rightarrow> ('d, 'x) backend" where
  "close_backend b = b\<lparr>be_db := None, be_xdb := None, be_time_table := [], be_time_scale := time_scale_init,
     be_signal_index := Map.empty, be_index_built := False, be_build_count := 0, be_declared_ranges := Map.empty,
     be_packed_index := Map.empty, be_packed_selections := [], be_change_cache := Map.empty\<rparr>"

definition open_backend :: "('d, 'x) capi \<Rightarrow> string \<Rightarrow> ('d, 'x) backend \<Rightarrow> bool \<times> ('d, 'x) backend" where
  "open_backend api path b =
     (let b = close_backend b
      in if \<not> has_fst_suffix path then (False, b)
         else if \<not> c_file_exists api path then (False, b)
         else case c_open api path of
                None \<Rightarrow> (False, b)
              | Some db \<Rightarrow>
                  (case x_open api path of
                     None \<Rightarrow> (False, b)
                   | Some xdb \<Rightarrow>
                       (True, b\<lparr>be_db := Some db, be_xdb := Some xdb, be_time_table := c_times api db,
                          be_time_scale := (case c_timescale api db of
                             Some (f, e) \<Rightarrow> \<lparr>ts_factor = f, ts_exponent = e\<rparr> | None \<Rightarrow> be_time_scale b)\<rparr>)))"

definition is_open :: "('d, 'x) backend \<Rightarrow> bool" where
  "is_open b \<longleftrightarrow> be_db b \<noteq> None"

section \<open>Time\<close>

definition time_count :: "('d, 'x) backend \<Rightarrow> nat" where
  "time_count b = length (be_time_table b)"

definition time_at :: "('d, 'x) backend \<Rightarrow> nat \<Rightarrow> u64" where
  "time_at b idx = (if idx \<ge> length (be_time_table b) then 0 else be_time_table b ! idx)"

definition min_time :: "('d, 'x) backend \<Rightarrow> u64" where
  "min_time b = (if be_time_table b = [] then 0 else hd (be_time_table b))"

definition max_time :: "('d, 'x) backend \<Rightarrow> u64" where
  "max_time b = (if be_time_table b = [] then 0 else last (be_time_table b))"

definition time_idx_of :: "('d, 'x) backend \<Rightarrow> u64 \<Rightarrow> nat" where
  "time_idx_of b t =
     (if be_time_table b = [] then 0
      else let it = upper_bound (\<lambda>x. t < x) (be_time_table b) in if it = 0 then 0 else it - 1)"

section \<open>Names\<close>

fun erase_array_dots :: "string \<Rightarrow> string" where
  "erase_array_dots (c # d # r) =
     (if c = CHR ''.'' \<and> d = CHR ''['' then d # erase_array_dots r else c # erase_array_dots (d # r))"
| "erase_array_dots s = s"

definition normalize_path :: "string \<Rightarrow> string" where
  "normalize_path path =
     (let out = lowercase path;
          out = (if take 4 out = ''top.'' then drop 4 out else out)
      in erase_array_dots out)"

text \<open>The variables in the order the double loop of \<open>build_signal_index\<close> visits them.\<close>

definition hierarchy_vars :: "('d, 'x) capi \<Rightarrow> 'd \<Rightarrow> u32 list" where
  "hierarchy_vars api db =
     concat (map (\<lambda>si. let sr = c_scope_at api db si
                       in if sr = 0 then [] else map (c_scope_var_at api db sr) [0..<c_scope_var_count api db sr])
       [0..<c_scope_count api db])"

record index_state =
  ix_signals :: "string \<rightharpoonup> u32"
  ix_ranges :: "string \<rightharpoonup> declared_range"
  ix_local :: "string \<rightharpoonup> u32"
  ix_local_ranges :: "string \<rightharpoonup> declared_range"
  ix_ambiguous :: "string set"
  ix_ambiguous_ranges :: "string set"

definition emplace :: "'k \<Rightarrow> 'v \<Rightarrow> ('k \<rightharpoonup> 'v) \<Rightarrow> ('k \<rightharpoonup> 'v)" where
  "emplace k v m = (case m k of None \<Rightarrow> m(k \<mapsto> v) | Some _ \<Rightarrow> m)"

definition var_range :: "('d, 'x) capi \<Rightarrow> 'd \<Rightarrow> u32 \<Rightarrow> declared_range option" where
  "var_range api db vr =
     (case c_var_encoding api db vr of (enc, width) \<Rightarrow>
        if enc = Enc_bitvector then
          map_option (\<lambda>(msb, lsb). \<lparr>dr_msb = msb, dr_lsb = lsb, dr_width = width\<rparr>) (c_var_index api db vr)
        else None)"

definition index_local :: "string \<Rightarrow> u32 \<Rightarrow> declared_range option \<Rightarrow> index_state \<Rightarrow> index_state" where
  "index_local local sig rng s =
     (if local = [] then s
      else
        let s = s\<lparr>ix_local := emplace local sig (ix_local s),
                  ix_ambiguous := (if ix_local s local \<noteq> None \<and> ix_local s local \<noteq> Some sig
                                   then insert local (ix_ambiguous s) else ix_ambiguous s)\<rparr>
        in case rng of
             Some r \<Rightarrow>
               s\<lparr>ix_local_ranges := emplace local r (ix_local_ranges s),
                 ix_ambiguous_ranges := (if ix_local_ranges s local \<noteq> None \<and> ix_local_ranges s local \<noteq> Some r
                                         then insert local (ix_ambiguous_ranges s) else ix_ambiguous_ranges s)\<rparr>
           | None \<Rightarrow> s\<lparr>ix_ambiguous_ranges := insert local (ix_ambiguous_ranges s)\<rparr>)"

definition index_var :: "('d, 'x) capi \<Rightarrow> 'd \<Rightarrow> u32 \<Rightarrow> index_state \<Rightarrow> index_state" where
  "index_var api db vr s =
     (if vr = 0 then s
      else case c_var_full_name api db vr of
             None \<Rightarrow> s
           | Some full \<Rightarrow>
               if full = [] then s
               else
                 let sig = c_var_signal_ref api db vr
                 in if sig = 0 then s
                    else
                      let rng = var_range api db vr;
                          key = normalize_path full;
                          s = (if key = [] then s
                               else s\<lparr>ix_signals := (ix_signals s)(key \<mapsto> sig),
                                      ix_ranges := (case rng of Some r \<Rightarrow> (ix_ranges s)(key \<mapsto> r) | None \<Rightarrow> ix_ranges s)\<rparr>);
                          local = normalize_path (case c_var_name api db vr of Some n \<Rightarrow> n | None \<Rightarrow> [])
                      in index_local local sig rng s)"

text \<open>
  The last loop adds the local names that are unambiguous and not a full name; each step touches its own
  key only, so the order of the hash table does not matter.
\<close>

definition add_locals :: "index_state \<Rightarrow> index_state" where
  "add_locals s =
     (let new = (\<lambda>k. ix_local s k \<noteq> None \<and> k \<notin> ix_ambiguous s \<and> ix_signals s k = None)
      in s\<lparr>ix_signals := (\<lambda>k. if new k then ix_local s k else ix_signals s k),
           ix_ranges := (\<lambda>k. if new k \<and> ix_local_ranges s k \<noteq> None \<and> k \<notin> ix_ambiguous_ranges s
                             then ix_local_ranges s k else ix_ranges s k)\<rparr>)"

definition build_signal_index :: "('d, 'x) capi \<Rightarrow> ('d, 'x) backend \<Rightarrow> ('d, 'x) backend" where
  "build_signal_index api b =
     (if be_index_built b then b
      else case be_db b of
             None \<Rightarrow> b
           | Some db \<Rightarrow>
               let s = add_locals (fold (index_var api db) (hierarchy_vars api db)
                     \<lparr>ix_signals = be_signal_index b, ix_ranges = be_declared_ranges b, ix_local = Map.empty,
                      ix_local_ranges = Map.empty, ix_ambiguous = {}, ix_ambiguous_ranges = {}\<rparr>)
               in b\<lparr>be_build_count := be_build_count b + 1, be_signal_index := ix_signals s,
                    be_declared_ranges := ix_ranges s, be_index_built := True\<rparr>)"

section \<open>Packed selections\<close>

definition packed_selection_of :: "('d, 'x) backend \<Rightarrow> u32 \<Rightarrow> packed_selection option" where
  "packed_selection_of b signal_ref =
     (if signal_ref AND kVirtualSignalFlag = 0 then None
      else let encoded_index = unat (signal_ref AND NOT kVirtualSignalFlag)
           in if encoded_index = 0 \<or> encoded_index > length (be_packed_selections b) then None
              else Some (be_packed_selections b ! (encoded_index - 1)))"

definition native_signal_ref :: "('d, 'x) backend \<Rightarrow> u32 \<Rightarrow> u32" where
  "native_signal_ref b signal_ref =
     (case packed_selection_of b signal_ref of
        Some sel \<Rightarrow> ps_base_ref sel
      | None \<Rightarrow> if signal_ref AND kVirtualSignalFlag = 0 then signal_ref else kInvalidSignalRef)"

definition parse_signed_index :: "string \<Rightarrow> int option" where
  "parse_signed_index s =
     (if s = [] then None
      else case strtoll10 s of (v, rest, erange) \<Rightarrow> if erange \<or> rest \<noteq> [] then None else Some v)"

text \<open>
  The distances are computed in \<open>int64_t\<close>. Where one overflows, the language leaves it undefined; the model takes the exact
  distance, which, like the wrapped one, equals no 32-bit width, so that the declared range is refused. A selection lies within
  an accepted range and cannot overflow.
\<close>

definition span :: "int \<Rightarrow> int \<Rightarrow> int" where
  "span a b = (if a \<ge> b then a - b + 1 else b - a + 1)"

definition parse_selector :: "string \<Rightarrow> (int \<times> int) option" where
  "parse_selector selector =
     (case str_find (CHR '':'') selector of
        None \<Rightarrow> map_option (\<lambda>i. (i, i)) (parse_signed_index selector)
      | Some colon \<Rightarrow>
          if CHR '':'' \<in> set (drop (colon + 1) selector) then None
          else (case parse_signed_index (take colon selector) of
                  None \<Rightarrow> None
                | Some msb \<Rightarrow> map_option (\<lambda>lsb. (msb, lsb)) (parse_signed_index (drop (colon + 1) selector))))"

definition selection_for :: "('d, 'x) backend \<Rightarrow> string \<Rightarrow> packed_selection option" where
  "selection_for b path =
     (if path = [] \<or> last path \<noteq> CHR '']'' then None
      else case str_rfind (CHR ''['') path of
        None \<Rightarrow> None
      | Some open_idx \<Rightarrow>
          if open_idx = 0 then None
          else
            (case (be_signal_index b (take open_idx path), be_declared_ranges b (take open_idx path)) of
               (Some base, Some declared) \<Rightarrow>
                 if base AND kVirtualSignalFlag \<noteq> 0 then None
                 else if span (dr_msb declared) (dr_lsb declared) \<noteq> uint (dr_width declared) then None
                 else
                   (case parse_selector (drop (open_idx + 1) (butlast path)) of
                      None \<Rightarrow> None
                    | Some (msb, lsb) \<Rightarrow>
                        let low = min (dr_msb declared) (dr_lsb declared);
                            high = max (dr_msb declared) (dr_lsb declared)
                        in if msb < low \<or> msb > high \<or> lsb < low \<or> lsb > high then None
                           else if span msb lsb > 2 ^ 32 - 1 then None
                           else Some \<lparr>ps_base_ref = base, ps_declared_msb = dr_msb declared,
                                  ps_declared_lsb = dr_lsb declared, ps_selected_msb = msb, ps_selected_lsb = lsb,
                                  ps_width = word_of_int (span msb lsb)\<rparr>)
             | _ \<Rightarrow> None))"

definition create_packed_selection :: "string \<Rightarrow> ('d, 'x) backend \<Rightarrow> u32 \<times> ('d, 'x) backend" where
  "create_packed_selection path b =
     (case be_packed_index b path of
        Some handle \<Rightarrow> (handle, b)
      | None \<Rightarrow>
          (case selection_for b path of
             None \<Rightarrow> (kInvalidSignalRef, b)
           | Some sel \<Rightarrow>
               if length (be_packed_selections b) + 1 \<ge> unat kVirtualSignalFlag then (kInvalidSignalRef, b)
               else
                 let sels = be_packed_selections b @ [sel];
                     handle = kVirtualSignalFlag OR word_of_nat (length sels)
                 in (handle, b\<lparr>be_packed_selections := sels,
                       be_packed_index := (be_packed_index b)(path \<mapsto> handle)\<rparr>)))"

definition find_signal :: "('d, 'x) capi \<Rightarrow> string \<Rightarrow> ('d, 'x) backend \<Rightarrow> u32 \<times> ('d, 'x) backend" where
  "find_signal api path b =
     (if path = [] \<or> be_db b = None then (kInvalidSignalRef, b)
      else
        let b = build_signal_index api b; key = normalize_path path
        in case be_signal_index b key of
             Some sig \<Rightarrow> (sig, b)
           | None \<Rightarrow>
               (case create_packed_selection key b of (selected, b) \<Rightarrow>
                  if selected \<noteq> kInvalidSignalRef then (selected, b)
                  else if take 4 key = ''top.'' then
                    (case be_signal_index b (drop 4 key) of
                       Some sig \<Rightarrow> (sig, b)
                     | None \<Rightarrow> create_packed_selection (drop 4 key) b)
                  else (kInvalidSignalRef, b)))"

text \<open>The loop over the selected bits walks from \<open>selected_msb\<close> to \<open>selected_lsb\<close>, up or down.\<close>

definition selected_indices :: "packed_selection \<Rightarrow> int list" where
  "selected_indices sel =
     (if ps_selected_msb sel \<le> ps_selected_lsb sel then [ps_selected_msb sel..ps_selected_lsb sel]
      else rev [ps_selected_lsb sel..ps_selected_msb sel])"

definition bit_offset :: "packed_selection \<Rightarrow> int \<Rightarrow> int" where
  "bit_offset sel i =
     (if ps_declared_msb sel \<ge> ps_declared_lsb sel then ps_declared_msb sel - i else i - ps_declared_msb sel)"

definition select_packed_bits :: "packed_selection \<Rightarrow> string \<Rightarrow> string option" where
  "select_packed_bits sel source =
     (if span (ps_declared_msb sel) (ps_declared_lsb sel) \<noteq> int (length source) then None
      else if \<exists>i \<in> set (selected_indices sel). bit_offset sel i < 0 \<or> bit_offset sel i \<ge> int (length source) then None
      else Some (map (\<lambda>i. source ! nat (bit_offset sel i)) (selected_indices sel)))"


section \<open>Reading values\<close>

text \<open>The C functions called with the current handle; with a null handle they return an error.\<close>

definition db_signal_info :: "('d, 'x) capi \<Rightarrow> ('d, 'x) backend \<Rightarrow> u32 \<Rightarrow> raw_info option" where
  "db_signal_info api b r = (case be_db b of None \<Rightarrow> None | Some db \<Rightarrow> c_signal_info api db r)"

definition db_offset_at :: "('d, 'x) capi \<Rightarrow> ('d, 'x) backend \<Rightarrow> u32 \<Rightarrow> nat \<Rightarrow> signal_offset option" where
  "db_offset_at api b r ti = (case be_db b of None \<Rightarrow> None | Some db \<Rightarrow> c_signal_offset_at api db r ti)"

definition db_typed_value ::
  "('d, 'x) capi \<Rightarrow> ('d, 'x) backend \<Rightarrow> u32 \<Rightarrow> nat \<Rightarrow> u16 \<Rightarrow> nat \<Rightarrow> int \<times> nat \<times> string \<times> double \<times> encoding" where
  "db_typed_value api b r start element capacity =
     (case be_db b of None \<Rightarrow> (- 1, 0, [], Double 0, Enc_bitvector)
      | Some db \<Rightarrow> c_typed_value api db r start element capacity)"

text \<open>
  Two calls: the first asks for the length of the text, the second reads it into a buffer of that size.
\<close>

definition native_typed_value_at :: "('d, 'x) capi \<Rightarrow> ('d, 'x) backend \<Rightarrow> u32 \<Rightarrow> nat \<Rightarrow> u16 \<Rightarrow> waveform_value option" where
  "native_typed_value_at api b signal_ref start element =
     (case db_typed_value api b signal_ref start element 0 of (result, len, _, _, _) \<Rightarrow>
        if result \<noteq> 0 \<and> result \<noteq> - 2 then None
        else
          (case db_typed_value api b signal_ref start element len of (result, len', content, real, enc) \<Rightarrow>
             if result \<noteq> 0 then None
             else Some (case enc of
                 Enc_real \<Rightarrow> waveform_value_init\<lparr>wv_kind := Real, wv_real := real\<rparr>
               | Enc_string \<Rightarrow> waveform_value_init\<lparr>wv_kind := String_value, wv_text := take len' content\<rparr>
               | Enc_event \<Rightarrow> waveform_value_init\<lparr>wv_kind := Event\<rparr>
               | Enc_bitvector \<Rightarrow> waveform_value_init\<lparr>wv_kind := BitVector, wv_text := take len' content\<rparr>)))"

text \<open>
  The indices are written into a vector of \<open>num_changes\<close> elements and then cut to the number written. That the library writes no
  more than it announces is trusted: the size of the vector is not part of the model.
\<close>

definition native_time_indices_of :: "('d, 'x) capi \<Rightarrow> ('d, 'x) backend \<Rightarrow> u32 \<Rightarrow> nat list" where
  "native_time_indices_of api b signal_ref =
     (case be_xdb b of
        None \<Rightarrow> []
      | Some xdb \<Rightarrow>
          (case db_signal_info api b signal_ref of
             None \<Rightarrow> []
           | Some _ \<Rightarrow> (case x_time_indices api xdb signal_ref of None \<Rightarrow> [] | Some ts \<Rightarrow> ts)))"

text \<open>
  The loop of \<open>selected_changes\<close>: the ordinal of the next change, the last value kept, the changes kept so
  far. \<open>None\<close> is the early return of the empty vector, which is not cached.
\<close>

fun select_loop ::
  "('d, 'x) capi \<Rightarrow> ('d, 'x) backend \<Rightarrow> packed_selection \<Rightarrow> nat list \<Rightarrow> nat \<Rightarrow> string \<Rightarrow> selected_change list
   \<Rightarrow> selected_change list option" where
  "select_loop api b sel [] ordinal previous selected = Some selected"
| "select_loop api b sel (ti # ts) ordinal previous selected =
     (case native_typed_value_at api b (ps_base_ref sel) ordinal 0 of
        None \<Rightarrow> None
      | Some source \<Rightarrow>
          if wv_kind source \<noteq> BitVector then None
          else case select_packed_bits sel (wv_text source) of
                 None \<Rightarrow> None
               | Some v \<Rightarrow>
                   if selected \<noteq> [] \<and> v = previous then select_loop api b sel ts (ordinal + 1) previous selected
                   else select_loop api b sel ts (ordinal + 1) v
                          (selected @ [\<lparr>ch_time_idx = ti, ch_value = waveform_value_init\<lparr>wv_text := v\<rparr>\<rparr>]))"

definition selected_changes ::
  "('d, 'x) capi \<Rightarrow> u32 \<Rightarrow> ('d, 'x) backend \<Rightarrow> selected_change list \<times> ('d, 'x) backend" where
  "selected_changes api signal_ref b =
     (case be_change_cache b signal_ref of
        Some changes \<Rightarrow> (changes, b)
      | None \<Rightarrow>
          (case packed_selection_of b signal_ref of
             None \<Rightarrow> ([], b)
           | Some sel \<Rightarrow>
               (case db_signal_info api b (ps_base_ref sel) of
                  None \<Rightarrow> ([], b)
                | Some _ \<Rightarrow>
                    (case select_loop api b sel (native_time_indices_of api b (ps_base_ref sel)) 0 [] [] of
                       None \<Rightarrow> ([], b)
                     | Some changes \<Rightarrow>
                         (changes, b\<lparr>be_change_cache := (be_change_cache b)(signal_ref \<mapsto> changes)\<rparr>)))))"

definition kind_of :: "encoding \<Rightarrow> value_kind" where
  "kind_of enc = (case enc of Enc_real \<Rightarrow> Real | Enc_string \<Rightarrow> String_value | Enc_event \<Rightarrow> Event | Enc_bitvector \<Rightarrow> BitVector)"

definition is_loaded :: "('d, 'x) capi \<Rightarrow> u32 \<Rightarrow> ('d, 'x) backend \<Rightarrow> bool" where
  "is_loaded api signal_ref b \<longleftrightarrow> db_signal_info api b (native_signal_ref b signal_ref) \<noteq> None"

definition backend_signal_info ::
  "('d, 'x) capi \<Rightarrow> u32 \<Rightarrow> ('d, 'x) backend \<Rightarrow> signal_info option \<times> ('d, 'x) backend" where
  "backend_signal_info api signal_ref b =
     (case db_signal_info api b (native_signal_ref b signal_ref) of
        None \<Rightarrow> (None, b)
      | Some info \<Rightarrow>
          let out = \<lparr>si_encoding = kind_of (ri_encoding info), si_num_changes = ri_num_changes info,
                     si_max_states = ri_max_states info, si_width = ri_width info,
                     si_bytes_per_entry = ri_bytes_per_entry info, si_has_meta_byte = ri_has_meta_byte info\<rparr>
          in case packed_selection_of b signal_ref of
               None \<Rightarrow> (Some out, b)
             | Some sel \<Rightarrow>
                 (case selected_changes api signal_ref b of (changes, b) \<Rightarrow>
                    (Some (out\<lparr>si_width := ps_width sel, si_num_changes := word_of_nat (length changes),
                       si_bytes_per_entry := (ps_width sel + 7) div 8,
                       si_has_meta_byte := (si_max_states out > 2 \<and> ps_width sel \<ge> 8)\<rparr>), b)))"

text \<open>The position of the run of changes at the time of the last change not after \<open>time_idx\<close>.\<close>

definition offset_in :: "nat list \<Rightarrow> nat \<Rightarrow> signal_offset option" where
  "offset_in ts time_idx =
     (let e = upper_bound (\<lambda>t. time_idx < t) ts
      in if e = 0 then None
         else
           let selected_time = ts ! (e - 1);
               first = (e - 1) - length (takeWhile (\<lambda>t. t = selected_time) (rev (take (e - 1) ts)));
               last = (e - 1) + length (takeWhile (\<lambda>t. t = selected_time) (drop e ts))
           in Some \<lparr>so_start = first, so_elements = word_of_nat (last - first + 1),
                    so_time_match = (selected_time = time_idx),
                    so_next_idx = (if last + 1 < length ts then ts ! (last + 1) else 0),
                    so_has_next = (last + 1 < length ts)\<rparr>)"

definition signal_offset_at ::
  "('d, 'x) capi \<Rightarrow> u32 \<Rightarrow> nat \<Rightarrow> ('d, 'x) backend \<Rightarrow> signal_offset option \<times> ('d, 'x) backend" where
  "signal_offset_at api signal_ref time_idx b =
     (case packed_selection_of b signal_ref of
        Some _ \<Rightarrow>
          (case selected_changes api signal_ref b of (changes, b) \<Rightarrow> (offset_in (map ch_time_idx changes) time_idx, b))
      | None \<Rightarrow> (db_offset_at api b signal_ref time_idx, b))"

definition signal_typed_value_at ::
  "('d, 'x) capi \<Rightarrow> u32 \<Rightarrow> nat \<Rightarrow> u16 \<Rightarrow> ('d, 'x) backend \<Rightarrow> waveform_value option \<times> ('d, 'x) backend" where
  "signal_typed_value_at api signal_ref start element b =
     (case packed_selection_of b signal_ref of
        Some _ \<Rightarrow>
          (case selected_changes api signal_ref b of (changes, b) \<Rightarrow>
             let index = start + unat element
             in (if index \<ge> length changes then None else Some (ch_value (changes ! index)), b))
      | None \<Rightarrow> (native_typed_value_at api b signal_ref start element, b))"

definition sampled_value_at ::
  "('d, 'x) capi \<Rightarrow> u32 \<Rightarrow> nat \<Rightarrow> observation_point \<Rightarrow> ('d, 'x) backend
   \<Rightarrow> sampled_value option \<times> ('d, 'x) backend" where
  "sampled_value_at api signal_ref time_idx point b =
     (case signal_offset_at api signal_ref time_idx b of
        (None, b) \<Rightarrow> (None, b)
      | (Some offset, b) \<Rightarrow>
          if so_elements offset = 0 then (None, b)
          else if point = Before \<and> so_time_match offset \<and> so_start offset = 0 then (None, b)
          else
            let (start, element) =
                  (if point = Before \<and> so_time_match offset then (so_start offset - 1, 0)
                   else (so_start offset, so_elements offset - 1))
            in case signal_typed_value_at api signal_ref start element b of
                 (None, b) \<Rightarrow> (None, b)
               | (Some v, b) \<Rightarrow>
                   (Some \<lparr>sv_value = v, sv_time_idx = time_idx, sv_element = element,
                      sv_elements_at_time = so_elements offset, sv_time_match = so_time_match offset\<rparr>, b))"

fun delta_loop ::
  "('d, 'x) capi \<Rightarrow> u32 \<Rightarrow> nat \<Rightarrow> nat list \<Rightarrow> waveform_value list \<Rightarrow> ('d, 'x) backend
   \<Rightarrow> waveform_value list option \<times> ('d, 'x) backend" where
  "delta_loop api signal_ref start [] out b = (Some out, b)"
| "delta_loop api signal_ref start (element # es) out b =
     (case signal_typed_value_at api signal_ref start (word_of_nat element) b of
        (None, b) \<Rightarrow> (None, b)
      | (Some v, b) \<Rightarrow> delta_loop api signal_ref start es (out @ [v]) b)"

definition delta_values_at ::
  "('d, 'x) capi \<Rightarrow> u32 \<Rightarrow> nat \<Rightarrow> ('d, 'x) backend \<Rightarrow> (waveform_value list \<times> bool) option \<times> ('d, 'x) backend" where
  "delta_values_at api signal_ref time_idx b =
     (case signal_offset_at api signal_ref time_idx b of
        (None, b) \<Rightarrow> (None, b)
      | (Some offset, b) \<Rightarrow>
          if so_elements offset = 0 then (None, b)
          else (case delta_loop api signal_ref (so_start offset) [0..<unat (so_elements offset)] [] b of
                  (None, b) \<Rightarrow> (None, b)
                | (Some out, b) \<Rightarrow> (Some (out, so_time_match offset), b)))"

definition time_indices_of :: "('d, 'x) capi \<Rightarrow> u32 \<Rightarrow> ('d, 'x) backend \<Rightarrow> nat list \<times> ('d, 'x) backend" where
  "time_indices_of api signal_ref b =
     (case packed_selection_of b signal_ref of
        Some _ \<Rightarrow> (case selected_changes api signal_ref b of (changes, b) \<Rightarrow> (map ch_time_idx changes, b))
      | None \<Rightarrow> (native_time_indices_of api b signal_ref, b))"

text \<open>The number of changes directly before position \<open>ordinal\<close> at the same time, counted in 16 bits.\<close>

definition delta_of :: "nat list \<Rightarrow> nat \<Rightarrow> u16" where
  "delta_of indices ordinal =
     word_of_nat (length (takeWhile (\<lambda>t. t = indices ! ordinal) (rev (take ordinal indices))))"

definition signal_change_at ::
  "('d, 'x) capi \<Rightarrow> u32 \<Rightarrow> nat \<Rightarrow> ('d, 'x) backend \<Rightarrow> signal_change option \<times> ('d, 'x) backend" where
  "signal_change_at api signal_ref ordinal b =
     (case time_indices_of api signal_ref b of (indices, b) \<Rightarrow>
        if ordinal \<ge> length indices then (None, b)
        else (case signal_typed_value_at api signal_ref ordinal 0 b of
                (None, b) \<Rightarrow> (None, b)
              | (Some v, b) \<Rightarrow>
                  (Some \<lparr>sc_time_idx = indices ! ordinal, sc_time = time_at b (indices ! ordinal),
                     sc_delta = delta_of indices ordinal, sc_value = v\<rparr>, b)))"

fun scan_loop ::
  "('d, 'x) capi \<Rightarrow> u32 \<Rightarrow> nat \<Rightarrow> nat \<Rightarrow> nat \<Rightarrow> nat list \<Rightarrow> nat list \<Rightarrow> u32 \<Rightarrow> signal_change list \<Rightarrow> ('d, 'x) backend
   \<Rightarrow> (u32 \<times> signal_change list) option \<times> ('d, 'x) backend" where
  "scan_loop api signal_ref lo hi limit indices [] cnt out b = (Some (cnt, out), b)"
| "scan_loop api signal_ref lo hi limit indices (ordinal # rest) cnt out b =
     (let ti = indices ! ordinal
      in if ti < lo \<or> ti > hi then scan_loop api signal_ref lo hi limit indices rest cnt out b
         else if limit \<noteq> 0 \<and> length out \<ge> limit
         then scan_loop api signal_ref lo hi limit indices rest (cnt + 1) out b
         else (case signal_typed_value_at api signal_ref ordinal 0 b of
                 (None, b) \<Rightarrow> (None, b)
               | (Some v, b) \<Rightarrow>
                   scan_loop api signal_ref lo hi limit indices rest (cnt + 1)
                     (out @ [\<lparr>sc_time_idx = ti, sc_time = time_at b ti, sc_delta = delta_of indices ordinal,
                        sc_value = v\<rparr>]) b))"

definition scan_changes ::
  "('d, 'x) capi \<Rightarrow> u32 \<Rightarrow> nat \<Rightarrow> nat \<Rightarrow> nat \<Rightarrow> ('d, 'x) backend
   \<Rightarrow> (signal_change list \<times> scan_diagnostics) option \<times> ('d, 'x) backend" where
  "scan_changes api signal_ref lo hi limit b =
     (if lo > hi then (None, b)
      else case backend_signal_info api signal_ref b of
             (None, b) \<Rightarrow> (None, b)
           | (Some info, b) \<Rightarrow>
               (case time_indices_of api signal_ref b of (indices, b) \<Rightarrow>
                  (case scan_loop api signal_ref lo hi limit indices [0..<length indices] 0 [] b of
                     (None, b) \<Rightarrow> (None, b)
                   | (Some (cnt, out), b) \<Rightarrow>
                       (Some (out, \<lparr>sd_total_count = cnt, sd_returned_count = word_of_nat (length out),
                          sd_width = si_width info, sd_encoding = si_encoding info, sd_scan_complete = True,
                          sd_analysis_complete = True,
                          sd_truncated = ((word_of_nat (length out) :: u32) < cnt)\<rparr>), b))))"

section \<open>Loading\<close>

definition load_signals :: "('d, 'x) capi \<Rightarrow> u32 list \<Rightarrow> ('d, 'x) backend \<Rightarrow> int \<times> ('d, 'x) backend" where
  "load_signals api refs b =
     (let natives = map (native_signal_ref b) refs
      in if refs = [] \<or> kInvalidSignalRef \<in> set natives then (0, b)
         else
           let (n, db') = (case be_db b of None \<Rightarrow> (0, None)
                | Some db \<Rightarrow> (case c_load_signals api db natives of (n, db') \<Rightarrow> (n, Some db')))
           in (n, b\<lparr>be_db := db', be_xdb := map_option (\<lambda>x. x_load_signals api x natives) (be_xdb b)\<rparr>))"

definition unload_signals :: "('d, 'x) capi \<Rightarrow> u32 list \<Rightarrow> ('d, 'x) backend \<Rightarrow> ('d, 'x) backend" where
  "unload_signals api refs b =
     (let natives = filter (\<lambda>r. r \<noteq> kInvalidSignalRef) (map (native_signal_ref b) refs)
      in if refs = [] \<or> natives = [] then b
         else b\<lparr>be_change_cache := (\<lambda>r. case packed_selection_of b r of
                   Some sel \<Rightarrow> if ps_base_ref sel \<in> set natives then None else be_change_cache b r
                 | None \<Rightarrow> be_change_cache b r),
                be_db := map_option (\<lambda>db. c_unload_signals api db natives) (be_db b),
                be_xdb := map_option (\<lambda>x. x_unload_signals api x natives) (be_xdb b)\<rparr>)"

text \<open>
  The batch reads and the direct read by path. \<open>show_real\<close> is the 17-digit text of a \<open>double\<close>.
\<close>

definition value_text :: "(double \<Rightarrow> string) \<Rightarrow> waveform_value \<Rightarrow> string" where
  "value_text show_real v =
     (case wv_kind v of Real \<Rightarrow> show_real (wv_real v) | Event \<Rightarrow> ''event'' | _ \<Rightarrow> wv_text v)"

fun values_at ::
  "(double \<Rightarrow> string) \<Rightarrow> ('d, 'x) capi \<Rightarrow> u32 list \<Rightarrow> nat \<Rightarrow> ('d, 'x) backend \<Rightarrow> (string option) list \<times> ('d, 'x) backend" where
  "values_at show_real api [] time_idx b = ([], b)"
| "values_at show_real api (r # refs) time_idx b =
     (case sampled_value_at api r time_idx Raw b of (s, b) \<Rightarrow>
        (case values_at show_real api refs time_idx b of (out, b) \<Rightarrow>
           (map_option (\<lambda>s. value_text show_real (sv_value s)) s # out, b)))"

fun typed_values_at ::
  "('d, 'x) capi \<Rightarrow> u32 list \<Rightarrow> nat \<Rightarrow> observation_point \<Rightarrow> ('d, 'x) backend \<Rightarrow> (sampled_value option) list \<times> ('d, 'x) backend" where
  "typed_values_at api [] time_idx point b = ([], b)"
| "typed_values_at api (r # refs) time_idx point b =
     (case sampled_value_at api r time_idx point b of (s, b) \<Rightarrow>
        (case typed_values_at api refs time_idx point b of (out, b) \<Rightarrow> (s # out, b)))"

definition signal_value_str ::
  "(double \<Rightarrow> string) \<Rightarrow> ('d, 'x) capi \<Rightarrow> u32 \<Rightarrow> nat \<Rightarrow> u16 \<Rightarrow> ('d, 'x) backend \<Rightarrow> string \<times> ('d, 'x) backend" where
  "signal_value_str show_real api signal_ref start element b =
     (case signal_typed_value_at api signal_ref start element b of
        (None, b) \<Rightarrow> ([], b)
      | (Some v, b) \<Rightarrow> (value_text show_real v, b))"

record point_read =
  pr_value :: string
  pr_width :: "u32 option"
  pr_time_match :: bool
  pr_time_idx :: nat

definition value_at ::
  "(double \<Rightarrow> string) \<Rightarrow> ('d, 'x) capi \<Rightarrow> string \<Rightarrow> u64 \<Rightarrow> ('d, 'x) backend \<Rightarrow> point_read option \<times> ('d, 'x) backend" where
  "value_at show_real api path t b =
     (case find_signal api path b of (r, b) \<Rightarrow>
        if r = kInvalidSignalRef then (None, b)
        else
          let b = (if is_loaded api r b then b else snd (load_signals api [r] b));
              ti = time_idx_of b t
          in case backend_signal_info api r b of (info, b) \<Rightarrow>
               (case signal_offset_at api r ti b of
                  (None, b) \<Rightarrow> (None, b)
                | (Some off, b) \<Rightarrow>
                    (case signal_value_str show_real api r (so_start off) 0 b of (v, b) \<Rightarrow>
                       (Some \<lparr>pr_value = v, pr_width = map_option si_width info, pr_time_match = so_time_match off,
                          pr_time_idx = ti\<rparr>, b))))"

end
