(* ===== verification/Wellen_Sampling.thy ===== *)
theory Wellen_Sampling
  imports Wellen_Backend
begin

unbundle bit_operations_syntax

text \<open>
  How \<open>Wellen_Backend\<close> samples: the binary search for the run of changes at a time, the change list of a packed
  selection, the change cache. What the C libraries promise of a loaded signal is \<open>native_ok\<close>. The theory shows
  that a list of changes sampled the backend's way satisfies \<open>waveform_contract\<close>, and that the backend itself
  does, for native signals and for packed selections.
\<close>

section \<open>Positions of a run of changes\<close>

lemma offset_in_run:
  assumes "sorted (as @ replicate n st @ bs)" "0 < n" "st \<le> ti" "\<forall>a \<in> set as. a < st" "\<forall>b \<in> set bs. ti < b"
  shows "offset_in (as @ replicate n st @ bs) ti =
    Some \<lparr>so_start = length as, so_elements = word_of_nat n, so_time_match = (st = ti),
          so_next_idx = (if bs = [] then 0 else hd bs), so_has_next = (bs \<noteq> [])\<rparr>"
proof -
  let ?ts = "as @ replicate n st @ bs"
  have "filter (\<lambda>t. t \<le> ti) as = as" using assms(3,4) by (auto simp: filter_id_conv)
  moreover have "filter (\<lambda>t. t \<le> ti) bs = []" using assms(5) by (auto simp: filter_empty_conv)
  ultimately have f: "filter (\<lambda>t. t \<le> ti) ?ts = as @ replicate n st"
    using assms(3) by simp
  have e: "upper_bound (\<lambda>t. ti < t) ?ts = length as + n"
    using upper_bound_sorted [OF assms(1), of ti] by (simp only: f) simp
  obtain m where n: "n = Suc m" using assms(2) by (cases n) auto
  have st: "?ts ! (length as + n - 1) = st"
    using nth_append_length_plus [of as "replicate n st @ bs" "n - 1"] assms(2) by (simp add: nth_append)
  have tk: "take (length as + n - 1) ?ts = as @ replicate m st"
    using n by (simp add: take_replicate min_def del: replicate.simps)
  have tw: "takeWhile (\<lambda>t. t = st) (rev as) = []"
    using assms(4) by (cases "rev as") (auto dest: arg_cong [of _ _ set])
  have "takeWhile (\<lambda>t. t = st) (rev (as @ replicate m st)) = replicate m st"
    using tw by (subst rev_append, subst takeWhile_append2) auto
  moreover have "takeWhile (\<lambda>t. t = st) bs = []"
    using assms(3,5) by (cases bs) auto
  ultimately show ?thesis
    using assms(2) unfolding offset_in_def e Let_def st tk
    by (auto simp: n hd_conv_nth nth_append)
qed


text \<open>A list of changes sampled the way the backend samples a packed selection.\<close>

definition sample_changes :: "(nat \<times> waveform_value) list \<Rightarrow> nat \<Rightarrow> observation_point \<Rightarrow> sampled_value option" where
  "sample_changes ch time_idx point =
     (case offset_in (map fst ch) time_idx of
        None \<Rightarrow> None
      | Some offset \<Rightarrow>
          if so_elements offset = 0 then None
          else if point = Before \<and> so_time_match offset \<and> so_start offset = 0 then None
          else
            let (start, element) =
                  (if point = Before \<and> so_time_match offset then (so_start offset - 1, 0)
                   else (so_start offset, so_elements offset - 1))
            in if start + unat element \<ge> length ch then None
               else Some \<lparr>sv_value = snd (ch ! (start + unat element)), sv_time_idx = time_idx, sv_element = element,
                      sv_elements_at_time = so_elements offset, sv_time_match = so_time_match offset\<rparr>)"

definition valid_changes :: "(nat \<times> waveform_value) list \<Rightarrow> bool" where
  "valid_changes ch \<longleftrightarrow> sorted (map fst ch) \<and> (\<forall>t. length (filter (\<lambda>c. fst c = t) ch) < 2 ^ 16)"

lemma sorted_changes_split:
  assumes "sorted (map fst ch)"
  shows "ch = filter (\<lambda>c. fst c < t) ch @ filter (\<lambda>c. fst c = t) ch @ filter (\<lambda>c. fst c > t) ch"
  using assms
proof (induction ch)
  case (Cons c ch)
  then have IH: "ch = filter (\<lambda>c. fst c < t) ch @ filter (\<lambda>c. fst c = t) ch @ filter (\<lambda>c. fst c > t) ch"
    by simp
  have le: "\<forall>d \<in> set ch. fst c \<le> fst d" using Cons.prems by auto
  consider "fst c < t" | "fst c = t" | "fst c > t" by fastforce
  then show ?case
  proof cases
    case 1
    then have "fst c \<noteq> t" "\<not> t < fst c" by auto
    with 1 IH show ?thesis by simp
  next
    case 2
    with le have "filter (\<lambda>c. fst c < t) ch = []" by (auto simp: filter_empty_conv)
    with 2 IH show ?thesis by simp
  next
    case 3
    with le have "filter (\<lambda>c. fst c < t) ch = []" "filter (\<lambda>c. fst c = t) ch = []"
      by (fastforce simp: filter_empty_conv)+
    moreover from 3 le have "filter (\<lambda>c. t < fst c) ch = ch" by (auto simp: filter_id_conv)
    moreover from 3 have "\<not> fst c < t" "fst c \<noteq> t" by auto
    ultimately show ?thesis using 3 by simp
  qed
qed simp

text \<open>The last change not after \<open>ti\<close> cuts the list into the changes before its time, at it and after \<open>ti\<close>.\<close>

lemma changes_cut:
  assumes "sorted (map fst ch)" "filter (\<lambda>c. fst c \<le> ti) ch \<noteq> []"
  obtains as rs bs st where "ch = as @ rs @ bs" "rs \<noteq> []" "\<forall>c \<in> set rs. fst c = st" "st \<le> ti"
    "\<forall>c \<in> set as. fst c < st" "\<forall>c \<in> set bs. ti < fst c" "rs = filter (\<lambda>c. fst c = st) ch"
proof -
  define p where "p = filter (\<lambda>c. fst c \<le> ti) ch"
  define st where "st = fst (last p)"
  have "last p \<in> set p" using assms(2) unfolding p_def by (rule last_in_set)
  then have st: "st \<le> ti" "last p \<in> set ch" unfolding p_def st_def by simp_all
  have "sorted (map fst p)" using assms(1) by (simp add: p_def sorted_filter)
  then have "fst c \<le> st" if "c \<in> set p" for c
  proof -
    obtain q x where q: "p = q @ [x]" using assms(2) by (cases p rule: rev_cases) (simp_all add: p_def)
    with \<open>sorted (map fst p)\<close> that show ?thesis by (auto simp: st_def sorted_append)
  qed
  then have le: "\<forall>c \<in> set p. fst c \<le> st" by blast
  have gt: "ti < fst c" if "c \<in> set ch" "st < fst c" for c
  proof (rule ccontr)
    assume "\<not> ti < fst c"
    with that(1) have "c \<in> set p" by (simp add: p_def)
    with le that(2) show False by (auto simp: not_le [symmetric])
  qed
  show ?thesis
  proof (rule that [OF sorted_changes_split [OF assms(1), of st]])
    show "filter (\<lambda>c. fst c = st) ch \<noteq> []" using st(2) by (auto simp: filter_empty_conv st_def)
  qed (use st gt in auto)
qed

lemma sample_changes_cut:
  assumes "ch = as @ rs @ bs" "sorted (map fst ch)" "rs \<noteq> []" "\<forall>c \<in> set rs. fst c = st" "st \<le> ti"
    "\<forall>c \<in> set as. fst c < st" "\<forall>c \<in> set bs. ti < fst c" "length rs < 2 ^ 16"
  shows "map_option sv_value (sample_changes ch ti point) = observe ch ti point"
    and "sample_changes ch ti point = Some s \<Longrightarrow> sv_time_match s \<longleftrightarrow> st = ti"
proof -
  let ?n = "length rs"
  have rs: "map fst rs = replicate ?n st" using assms(4) by (auto simp: list_eq_iff_nth_eq)
  have off: "offset_in (map fst ch) ti =
    Some \<lparr>so_start = length as, so_elements = word_of_nat ?n, so_time_match = (st = ti),
          so_next_idx = (if map fst bs = [] then 0 else hd (map fst bs)), so_has_next = (map fst bs \<noteq> [])\<rparr>"
    using offset_in_run [of "map fst as" ?n st "map fst bs" ti] assms rs by simp
  have n: "0 < ?n" using assms(3) by simp
  have "(word_of_nat ?n :: u16) - 1 = word_of_nat (?n - 1)" using n by (cases rs) simp_all
  then have n1: "unat ((word_of_nat ?n :: u16) - 1) = ?n - 1"
    using assms(8) by (simp add: unat_of_nat)
  have n0: "(word_of_nat ?n :: u16) \<noteq> 0"
    using assms(8) n nat_dvd_not_less [of ?n "2 ^ 16"] by (simp add: word_of_nat_eq_0_iff)
  show "sample_changes ch ti point = Some s \<Longrightarrow> sv_time_match s \<longleftrightarrow> st = ti"
    unfolding sample_changes_def off by (auto simp: Let_def split: if_splits prod.splits)
  show "map_option sv_value (sample_changes ch ti point) = observe ch ti point"
  proof (cases "point = Before \<and> st = ti")
    case True
    have "filter (\<lambda>(t, v). t < ti) ch = as"
      using assms True by (auto simp: filter_id_conv filter_empty_conv case_prod_beta)
    moreover have "\<not> length as + (length rs + length bs) \<le> length as - Suc 0" using n by linarith
    ultimately show ?thesis using True off n0
      by (auto simp: sample_changes_def observe_def assms(1) nth_append last_conv_nth Let_def)
  next
    case False
    let ?P = "\<lambda>(t, v). if point = Before then t < ti else t \<le> ti"
    have "filter ?P as = as" using assms(5,6) by (fastforce simp: filter_id_conv)
    moreover have "filter ?P rs = rs"
      unfolding filter_id_conv using assms(4,5) False by (auto simp: order_le_less)
    moreover have "filter ?P bs = []" using assms(7) by (fastforce simp: filter_empty_conv split: if_splits)
    ultimately have "filter ?P ch = as @ rs" by (simp add: assms(1))
    moreover have "ch ! (length as + (?n - 1)) = last rs"
      using n by (simp add: assms(1) nth_append last_conv_nth)
    moreover have "length as + (?n - 1) < length ch" using n unfolding assms(1) length_append by linarith
    moreover have "\<not> (point = Before \<and> st = ti)" using False .
    ultimately show ?thesis
      using n0 n1 assms(3) unfolding sample_changes_def observe_def off by (cases "point = Before") (simp_all add: not_le)
  qed
qed

lemma valid_changes_sample:
  assumes "valid_changes ch"
  shows "map_option sv_value (sample_changes ch ti point) = observe ch ti point"
    and "sample_changes ch ti point = Some s \<Longrightarrow> sv_time_match s \<longleftrightarrow> ti \<in> set (map fst ch)"
proof -
  have srt: "sorted (map fst ch)" and cnt: "\<And>t. length (filter (\<lambda>c. fst c = t) ch) < 2 ^ 16"
    using assms by (auto simp: valid_changes_def)
  have "map_option sv_value (sample_changes ch ti point) = observe ch ti point \<and>
    (sample_changes ch ti point = Some s \<longrightarrow> (sv_time_match s \<longleftrightarrow> ti \<in> set (map fst ch)))"
  proof (cases "filter (\<lambda>c. fst c \<le> ti) ch = []")
    case True
    then have "filter (\<lambda>t. t \<le> ti) (map fst ch) = []" by (simp add: filter_map o_def)
    then have "offset_in (map fst ch) ti = None"
      using upper_bound_sorted [OF srt, of ti] by (simp add: offset_in_def)
    moreover have "filter (\<lambda>(t, v). if point = Before then t < ti else t \<le> ti) ch = []"
      using True by (fastforce simp: filter_empty_conv split: if_splits)
    ultimately show ?thesis by (simp add: sample_changes_def observe_def)
  next
    case False
    obtain as rs bs st where c: "ch = as @ rs @ bs" "rs \<noteq> []" "\<forall>c \<in> set rs. fst c = st" "st \<le> ti"
      "\<forall>c \<in> set as. fst c < st" "\<forall>c \<in> set bs. ti < fst c" "rs = filter (\<lambda>c. fst c = st) ch"
      using srt False by (rule changes_cut)
    have len: "length rs < 2 ^ 16" using cnt [of st] c(7) by simp
    have "st = ti \<longleftrightarrow> ti \<in> set (map fst ch)"
      using c(2-6) unfolding c(1) by (cases rs) force+
    with sample_changes_cut [OF c(1) srt c(2-6) len] show ?thesis by blast
  qed
  then show "map_option sv_value (sample_changes ch ti point) = observe ch ti point"
    and "sample_changes ch ti point = Some s \<Longrightarrow> sv_time_match s \<longleftrightarrow> ti \<in> set (map fst ch)"
    by blast+
qed

interpretation change_list: waveform_contract valid_changes "\<lambda>ch. ch" "map fst" sample_changes
  by unfold_locales (use valid_changes_sample in \<open>auto simp: valid_changes_def\<close>)

section \<open>Packed selections follow their base signal\<close>

fun compress :: "(nat \<times> 'v) list \<Rightarrow> 'v option \<Rightarrow> (nat \<times> 'v) list" where
  "compress [] p = []"
| "compress ((t, v) # xs) p = (if p = Some v then compress xs p else (t, v) # compress xs (Some v))"

lemma compress_subset: "set (compress xs p) \<subseteq> set xs"
  by (induction xs p rule: compress.induct) auto

lemma compress_filter:
  assumes "sorted (map fst xs)" "\<And>t t'. t \<le> t' \<Longrightarrow> P t' \<Longrightarrow> P t"
  shows "filter (\<lambda>(t, v). P t) (compress xs p) = compress (filter (\<lambda>(t, v). P t) xs) p"
  using assms(1)
proof (induction xs p rule: compress.induct)
  case (2 t v xs p)
  show ?case
  proof (cases "P t")
    case False
    then have no: "\<forall>c \<in> set xs. \<not> P (fst c)" using 2 assms(2) by fastforce
    then have "filter (\<lambda>(t, v). P t) xs = []" by (auto simp: filter_empty_conv)
    moreover have "filter (\<lambda>(t, v). P t) (compress xs q) = []" for q
      using no compress_subset [of xs q] by (fastforce simp: filter_empty_conv)
    ultimately show ?thesis using False by simp
  qed (use 2 in auto)
qed simp

lemma compress_last:
  "xs \<noteq> [] \<Longrightarrow> (compress xs p = [] \<and> p = Some (snd (last xs))) \<or>
     (compress xs p \<noteq> [] \<and> snd (last (compress xs p)) = snd (last xs))"
proof (induction xs p rule: compress.induct)
  case (2 t v xs p)
  then show ?case by (cases "xs = []") auto
qed simp

lemma observe_compress:
  assumes "sorted (map fst xs)"
  shows "observe (compress xs None) ti point = observe xs ti point"
proof -
  let ?P = "\<lambda>t. if point = Before then t < ti else t \<le> ti"
  have "filter (\<lambda>(t, v). ?P t) (compress xs None) = compress (filter (\<lambda>(t, v). ?P t) xs) None"
    by (rule compress_filter [OF assms]) (auto split: if_splits)
  with compress_last [of "filter (\<lambda>(t, v). ?P t) xs" None] show ?thesis
    by (cases "filter (\<lambda>(t, v). ?P t) xs = []") (simp_all add: observe_def Let_def)
qed

lemma compress_sorted: "sorted (map fst xs) \<Longrightarrow> sorted (map fst (compress xs p))"
proof (induction xs p rule: compress.induct)
  case (2 t v xs p)
  then show ?case using compress_subset [of xs "Some v"] by (auto simp: subset_iff)
qed simp

lemma compress_count: "length (filter Q (compress xs p)) \<le> length (filter Q xs)"
proof (induction xs p rule: compress.induct)
  case (2 t v xs p)
  show ?case
  proof (cases "p = Some v")
    case True
    with 2(1) [OF True] show ?thesis by simp
  next
    case False
    with 2(2) [OF False] show ?thesis by simp
  qed
qed simp

lemma observe_map: "observe (map (\<lambda>(t, v). (t, f v)) xs) ti point = map_option f (observe xs ti point)"
proof -
  let ?P = "\<lambda>(t, v). if point = Before then t < ti else t \<le> ti"
  have "filter ?P (map (\<lambda>(t, v). (t, f v)) xs) = map (\<lambda>(t, v). (t, f v)) (filter ?P xs)"
    by (induction xs) auto
  then show ?thesis
    by (auto simp: observe_def Let_def last_map case_prod_beta)
qed

definition selection_ok :: "packed_selection \<Rightarrow> bool" where
  "selection_ok sel \<longleftrightarrow>
     (let low = min (ps_declared_msb sel) (ps_declared_lsb sel); high = max (ps_declared_msb sel) (ps_declared_lsb sel)
      in low \<le> ps_selected_msb sel \<and> ps_selected_msb sel \<le> high \<and>
         low \<le> ps_selected_lsb sel \<and> ps_selected_lsb sel \<le> high \<and>
         uint (ps_width sel) = span (ps_selected_msb sel) (ps_selected_lsb sel))"

definition selected_text :: "packed_selection \<Rightarrow> string \<Rightarrow> string" where
  "selected_text sel s = map (\<lambda>i. s ! nat (bit_offset sel i)) (selected_indices sel)"

lemma selected_indices_range:
  "i \<in> set (selected_indices sel) \<Longrightarrow>
     min (ps_selected_msb sel) (ps_selected_lsb sel) \<le> i \<and> i \<le> max (ps_selected_msb sel) (ps_selected_lsb sel)"
  by (auto simp: selected_indices_def split: if_splits)

lemma select_packed_bits_eq:
  assumes "selection_ok sel" "int (length s) = span (ps_declared_msb sel) (ps_declared_lsb sel)"
  shows "select_packed_bits sel s = Some (selected_text sel s)"
proof -
  have "0 \<le> bit_offset sel i \<and> bit_offset sel i < int (length s)" if "i \<in> set (selected_indices sel)" for i
    using selected_indices_range [OF that] assms
    by (auto simp: selection_ok_def bit_offset_def span_def Let_def split: if_splits)
  with assms(2) show ?thesis
    by (fastforce simp: select_packed_bits_def selected_text_def)
qed

lemma length_selected_text: "selection_ok sel \<Longrightarrow> length (selected_text sel s) = unat (ps_width sel)"
proof -
  assume "selection_ok sel"
  then have "unat (ps_width sel) = nat (span (ps_selected_msb sel) (ps_selected_lsb sel))"
    by (simp add: selection_ok_def Let_def unat_eq_nat_uint)
  then show ?thesis by (auto simp: selected_text_def selected_indices_def span_def)
qed

text \<open>What the C libraries promise of a loaded native signal with the given changes.\<close>

definition native_ok :: "('d, 'x) capi \<Rightarrow> ('d, 'x) backend \<Rightarrow> u32 \<Rightarrow> (nat \<times> waveform_value) list \<Rightarrow> bool" where
  "native_ok api b r ch \<longleftrightarrow>
     db_signal_info api b r \<noteq> None \<and> valid_changes ch \<and> native_time_indices_of api b r = map fst ch \<and>
     (\<forall>start el. native_typed_value_at api b r start el =
        (if start + unat el < length ch then Some (snd (ch ! (start + unat el))) else None)) \<and>
     (\<forall>ti. db_offset_at api b r ti = offset_in (map fst ch) ti)"

definition packed_changes :: "packed_selection \<Rightarrow> (nat \<times> waveform_value) list \<Rightarrow> (nat \<times> waveform_value) list" where
  "packed_changes sel ch =
     map (\<lambda>(t, v). (t, waveform_value_init\<lparr>wv_text := v\<rparr>))
       (compress (map (\<lambda>(t, v). (t, selected_text sel (wv_text v))) ch) None)"

definition change_pair :: "selected_change \<Rightarrow> nat \<times> waveform_value" where
  "change_pair c = (ch_time_idx c, ch_value c)"

definition base_ok :: "packed_selection \<Rightarrow> (nat \<times> waveform_value) list \<Rightarrow> bool" where
  "base_ok sel ch \<longleftrightarrow> selection_ok sel \<and>
     (\<forall>c \<in> set ch. wv_kind (snd c) = BitVector \<and>
        int (length (wv_text (snd c))) = span (ps_declared_msb sel) (ps_declared_lsb sel))"

lemma select_loop_eq:
  assumes n: "native_ok api b (ps_base_ref sel) ch" and ok: "base_ok sel ch"
  shows "k \<le> length ch \<Longrightarrow> \<exists>out. select_loop api b sel (map fst (drop k ch)) k previous selected = Some out \<and>
    map change_pair out = map change_pair selected @
      map (\<lambda>(t, v). (t, waveform_value_init\<lparr>wv_text := v\<rparr>))
       (compress (map (\<lambda>(t, v). (t, selected_text sel (wv_text v))) (drop k ch))
          (if selected = [] then None else Some previous))"
proof (induction "length ch - k" arbitrary: k previous selected)
  case 0
  then show ?case by simp
next
  case (Suc m)
  then have k: "k < length ch" by simp
  obtain t v where c: "ch ! k = (t, v)" by (cases "ch ! k")
  have d: "drop k ch = (t, v) # drop (Suc k) ch" using k c by (metis Cons_nth_drop_Suc)
  have v: "native_typed_value_at api b (ps_base_ref sel) k 0 = Some v"
    using n k c by (simp add: native_ok_def)
  have "(t, v) \<in> set ch" using k c by (metis nth_mem)
  then have kind: "wv_kind v = BitVector" "select_packed_bits sel (wv_text v) = Some (selected_text sel (wv_text v))"
    using ok select_packed_bits_eq by (fastforce simp: base_ok_def)+
  have m: "m = length ch - Suc k" "Suc k \<le> length ch" using Suc by simp_all
  let ?s = "selected_text sel (wv_text v)"
  let ?new = "selected @ [\<lparr>ch_time_idx = t, ch_value = waveform_value_init\<lparr>wv_text := ?s\<rparr>\<rparr>]"
  show ?case
  proof (cases "selected \<noteq> [] \<and> ?s = previous")
    case True
    with Suc.hyps(1) [OF m, of previous selected] v kind show ?thesis unfolding d by simp
  next
    case False
    with Suc.hyps(1) [OF m, of ?s ?new] v kind show ?thesis unfolding d by (auto simp: change_pair_def)
  qed
qed


section \<open>The backend's queries\<close>

text \<open>
  A signal reference the queries can serve: a native one with the changes the C libraries report, or a packed
  selection of such a base whose cached changes, if any, are those of the base.
\<close>

definition cache_right :: "('d, 'x) backend \<Rightarrow> u32 \<Rightarrow> (nat \<times> waveform_value) list \<Rightarrow> bool" where
  "cache_right b r ch \<longleftrightarrow> (\<forall>l. be_change_cache b r = Some l \<longrightarrow> map change_pair l = ch)"

definition packed_ok ::
  "('d, 'x) capi \<Rightarrow> ('d, 'x) backend \<Rightarrow> u32 \<Rightarrow> packed_selection \<Rightarrow> (nat \<times> waveform_value) list \<Rightarrow> bool" where
  "packed_ok api b r sel ch \<longleftrightarrow>
     packed_selection_of b r = Some sel \<and> native_ok api b (ps_base_ref sel) ch \<and> base_ok sel ch \<and>
     cache_right b r (packed_changes sel ch)"

definition with_cache :: "u32 \<Rightarrow> selected_change list \<Rightarrow> ('d, 'x) backend \<Rightarrow> ('d, 'x) backend" where
  "with_cache r l b = b\<lparr>be_change_cache := (be_change_cache b)(r \<mapsto> l)\<rparr>"

lemma with_cache_fields [simp]:
  "be_db (with_cache r l b) = be_db b" "be_xdb (with_cache r l b) = be_xdb b"
  "be_packed_selections (with_cache r l b) = be_packed_selections b"
  "be_time_table (with_cache r l b) = be_time_table b"
  "be_index_built (with_cache r l b) = be_index_built b" "be_build_count (with_cache r l b) = be_build_count b"
  "be_packed_index (with_cache r l b) = be_packed_index b"
  "be_change_cache (with_cache r l b) r = Some l"
  by (simp_all add: with_cache_def)

lemma with_cache_same [simp]:
  "packed_selection_of (with_cache r l b) = packed_selection_of b"
  "db_signal_info api (with_cache r l b) = db_signal_info api b"
  "db_offset_at api (with_cache r l b) = db_offset_at api b"
  "db_typed_value api (with_cache r l b) = db_typed_value api b"
  "time_at (with_cache r l b) = time_at b"
  unfolding fun_eq_iff packed_selection_of_def db_signal_info_def db_offset_at_def db_typed_value_def time_at_def
    with_cache_fields by blast+

lemma with_cache_indices [simp]: "native_time_indices_of api (with_cache r l b) = native_time_indices_of api b"
  unfolding fun_eq_iff native_time_indices_of_def with_cache_same with_cache_fields by blast

lemma with_cache_value [simp]: "native_typed_value_at api (with_cache r l b) = native_typed_value_at api b"
  unfolding fun_eq_iff native_typed_value_at_def with_cache_same by blast

lemma with_cache_idem: "be_change_cache b r = Some l \<Longrightarrow> with_cache r l b = b"
  by (simp add: with_cache_def fun_upd_idem)

lemma selected_changes_eq:
  assumes "packed_ok api b r sel ch"
  obtains l where "selected_changes api r b = (l, with_cache r l b)" "map change_pair l = packed_changes sel ch"
proof (cases "be_change_cache b r")
  case (Some l)
  with assms that [of l] show ?thesis
    by (simp add: selected_changes_def packed_ok_def cache_right_def with_cache_idem)
next
  case None
  have n: "native_ok api b (ps_base_ref sel) ch" "base_ok sel ch" "packed_selection_of b r = Some sel"
    using assms by (simp_all add: packed_ok_def)
  then obtain l where l: "select_loop api b sel (map fst ch) 0 [] [] = Some l" "map change_pair l = packed_changes sel ch"
    using select_loop_eq [OF n(1,2), of 0 "[]" "[]"] by (auto simp: packed_changes_def)
  with None n that [of l] show ?thesis
    by (auto simp: selected_changes_def native_ok_def with_cache_def)
qed

lemma packed_ok_with_cache:
  "packed_ok api b r sel ch \<Longrightarrow> map change_pair l = packed_changes sel ch \<Longrightarrow> packed_ok api (with_cache r l b) r sel ch"
  by (simp add: packed_ok_def native_ok_def cache_right_def)

lemma selected_changes_again: "selected_changes api r (with_cache r l b) = (l, with_cache r l b)"
  by (simp add: selected_changes_def)

lemma map_change_pair: "fst \<circ> change_pair = ch_time_idx" "snd (change_pair c) = ch_value c"
  by (simp_all add: change_pair_def fun_eq_iff)

lemma sampled_packed:
  assumes "packed_ok api b r sel ch"
  obtains l where "sampled_value_at api r ti point b = (sample_changes (packed_changes sel ch) ti point, with_cache r l b)"
    "map change_pair l = packed_changes sel ch"
proof -
  obtain l where l: "selected_changes api r b = (l, with_cache r l b)" and pc: "map change_pair l = packed_changes sel ch"
    using assms by (rule selected_changes_eq)
  have p: "packed_selection_of b r = Some sel" using assms by (simp add: packed_ok_def)
  have off: "signal_offset_at api r ti b = (offset_in (map fst (packed_changes sel ch)) ti, with_cache r l b)"
    using p l by (simp add: signal_offset_at_def map_change_pair(1) flip: pc)
  have tv: "signal_typed_value_at api r start el (with_cache r l b) =
      (if start + unat el \<ge> length (packed_changes sel ch) then None
       else Some (snd (packed_changes sel ch ! (start + unat el))), with_cache r l b)" for start el
    using p by (simp add: signal_typed_value_at_def selected_changes_again map_change_pair(2) Let_def flip: pc)
  have "sampled_value_at api r ti point b = (sample_changes (packed_changes sel ch) ti point, with_cache r l b)"
    unfolding sampled_value_at_def sample_changes_def off
    by (cases "offset_in (map fst (packed_changes sel ch)) ti") (simp_all add: tv Let_def)
  with pc that show ?thesis by blast
qed

lemma sampled_native:
  assumes "packed_selection_of b r = None" "native_ok api b r ch"
  shows "sampled_value_at api r ti point b = (sample_changes ch ti point, b)"
proof -
  have off: "signal_offset_at api r ti b = (offset_in (map fst ch) ti, b)"
    using assms by (simp add: signal_offset_at_def native_ok_def)
  have tv: "signal_typed_value_at api r start el b =
      (if start + unat el \<ge> length ch then None else Some (snd (ch ! (start + unat el))), b)" for start el
    using assms by (auto simp: signal_typed_value_at_def native_ok_def not_le)
  show ?thesis
    unfolding sampled_value_at_def sample_changes_def off
    by (cases "offset_in (map fst ch) ti") (simp_all add: tv Let_def)
qed

lemma valid_packed_changes: "valid_changes ch \<Longrightarrow> valid_changes (packed_changes sel ch)"
proof -
  assume v: "valid_changes ch"
  let ?xs = "map (\<lambda>(t, v). (t, selected_text sel (wv_text v))) ch"
  have m: "map fst ?xs = map fst ch" by (simp add: case_prod_beta comp_def)
  have "map fst (packed_changes sel ch) = map fst (compress ?xs None)"
    by (simp add: packed_changes_def case_prod_beta comp_def)
  then have "sorted (map fst (packed_changes sel ch))"
    using compress_sorted [of ?xs None] v unfolding valid_changes_def m by simp
  moreover have "length (filter (\<lambda>c. fst c = t) (packed_changes sel ch)) < 2 ^ 16" for t
  proof -
    have "length (filter (\<lambda>c. fst c = t) (packed_changes sel ch)) = length (filter (\<lambda>c. fst c = t) (compress ?xs None))"
      by (simp add: packed_changes_def filter_map o_def case_prod_beta)
    also have "\<dots> \<le> length (filter (\<lambda>c. fst c = t) ?xs)" by (rule compress_count)
    also have "\<dots> = length (filter (\<lambda>c. fst c = t) ch)" by (simp add: filter_map o_def case_prod_beta)
    also have "\<dots> < 2 ^ 16" using v by (simp add: valid_changes_def)
    finally show ?thesis .
  qed
  ultimately show ?thesis by (simp add: valid_changes_def)
qed

lemma observe_packed_changes:
  assumes "sorted (map fst ch)"
  shows "observe (packed_changes sel ch) ti point =
    map_option (\<lambda>v. waveform_value_init\<lparr>wv_text := selected_text sel (wv_text v)\<rparr>) (observe ch ti point)"
proof -
  let ?xs = "map (\<lambda>(t, v). (t, selected_text sel (wv_text v))) ch"
  have "sorted (map fst ?xs)" using assms by (simp add: case_prod_beta comp_def)
  then show ?thesis
    by (simp only: packed_changes_def observe_map observe_compress option.map_comp) (simp add: o_def)
qed

section \<open>The backend implements the interface\<close>

definition backend_changes :: "('d, 'x) capi \<times> ('d, 'x) backend \<times> u32 \<Rightarrow> (nat \<times> waveform_value) list" where
  "backend_changes = (\<lambda>(api, b, r).
     let ts = fst (time_indices_of api r b)
     in map (\<lambda>i. (ts ! i, the (fst (signal_typed_value_at api r i 0 b)))) [0..<length ts])"

definition serves :: "('d, 'x) capi \<times> ('d, 'x) backend \<times> u32 \<Rightarrow> bool" where
  "serves = (\<lambda>(api, b, r).
     case packed_selection_of b r of
       None \<Rightarrow> r AND kVirtualSignalFlag = 0 \<and> (\<exists>ch. native_ok api b r ch)
     | Some sel \<Rightarrow> (\<exists>ch. packed_ok api b r sel ch))"

lemma backend_changes_native:
  assumes "packed_selection_of b r = None" "native_ok api b r ch"
  shows "backend_changes (api, b, r) = ch"
  using assms
  by (auto simp: backend_changes_def time_indices_of_def native_ok_def signal_typed_value_at_def Let_def
      intro!: nth_equalityI)

lemma backend_changes_packed:
  assumes "packed_ok api b r sel ch"
  shows "backend_changes (api, b, r) = packed_changes sel ch"
    "fst (time_indices_of api r b) = map fst (packed_changes sel ch)"
proof -
  obtain l where l: "selected_changes api r b = (l, with_cache r l b)" and pc: "map change_pair l = packed_changes sel ch"
    using assms by (rule selected_changes_eq)
  have p: "packed_selection_of b r = Some sel" using assms by (simp add: packed_ok_def)
  then show ts: "fst (time_indices_of api r b) = map fst (packed_changes sel ch)"
    using l by (simp add: time_indices_of_def map_change_pair(1) flip: pc)
  have "fst (signal_typed_value_at api r i 0 b) = Some (snd (packed_changes sel ch ! i))" if "i < length l" for i
    using p l that by (simp add: signal_typed_value_at_def map_change_pair(2) Let_def flip: pc)
  then show "backend_changes (api, b, r) = packed_changes sel ch"
    using ts by (auto simp: backend_changes_def Let_def simp flip: pc intro!: nth_equalityI)
qed

lemma serves_laws:
  assumes "serves (api, b, r)"
  shows "valid_changes (backend_changes (api, b, r))"
    "fst (time_indices_of api r b) = map fst (backend_changes (api, b, r))"
    "fst (sampled_value_at api r ti point b) = sample_changes (backend_changes (api, b, r)) ti point"
proof -
  have "valid_changes (backend_changes (api, b, r)) \<and>
    fst (time_indices_of api r b) = map fst (backend_changes (api, b, r)) \<and>
    fst (sampled_value_at api r ti point b) = sample_changes (backend_changes (api, b, r)) ti point"
  proof (cases "packed_selection_of b r")
    case None
    with assms obtain ch where ch: "native_ok api b r ch" by (auto simp: serves_def)
    then have "valid_changes ch" "fst (time_indices_of api r b) = map fst ch"
      using None by (simp_all add: time_indices_of_def native_ok_def)
    with sampled_native [OF None ch] backend_changes_native [OF None ch] show ?thesis by simp
  next
    case (Some sel)
    with assms obtain ch where ch: "packed_ok api b r sel ch" by (auto simp: serves_def)
    then have "valid_changes (packed_changes sel ch)"
      using valid_packed_changes by (auto simp: packed_ok_def native_ok_def)
    moreover have "fst (sampled_value_at api r ti point b) = sample_changes (packed_changes sel ch) ti point"
      using sampled_packed [OF ch, of ti point] by (metis fst_conv)
    ultimately show ?thesis using backend_changes_packed [OF ch] by simp
  qed
  then show "valid_changes (backend_changes (api, b, r))"
    "fst (time_indices_of api r b) = map fst (backend_changes (api, b, r))"
    "fst (sampled_value_at api r ti point b) = sample_changes (backend_changes (api, b, r)) ti point"
    by blast+
qed

interpretation wellen: waveform_contract serves backend_changes
  "\<lambda>(api, b, r). fst (time_indices_of api r b)" "\<lambda>(api, b, r) ti point. fst (sampled_value_at api r ti point b)"
proof unfold_locales
  fix x :: "('a, 'b) capi \<times> ('a, 'b) backend \<times> u32" and ti point s
  obtain api b r where x: "x = (api, b, r)" by (cases x)
  assume "serves x"
  then have v: "serves (api, b, r)" by (simp add: x)
  note laws = serves_laws [OF v]
  show "sorted (map fst (backend_changes x))" using laws(1) by (simp add: x valid_changes_def)
  show "(case x of (api, b, r) \<Rightarrow> fst (time_indices_of api r b)) = map fst (backend_changes x)"
    using laws(2) by (simp add: x)
  show "map_option sv_value ((case x of (api, b, r) \<Rightarrow> \<lambda>ti point. fst (sampled_value_at api r ti point b)) ti point) =
      observe (backend_changes x) ti point"
    using valid_changes_sample(1) [OF laws(1)] laws(3) by (simp add: x)
  show "sv_time_match s = (ti \<in> set (case x of (api, b, r) \<Rightarrow> fst (time_indices_of api r b)))"
    if "(case x of (api, b, r) \<Rightarrow> \<lambda>ti point. fst (sampled_value_at api r ti point b)) ti point = Some s"
    using valid_changes_sample(2) [OF laws(1)] laws(2,3) that by (simp add: x)
qed

end
