(* ===== verification/Wellen_State.thy ===== *)
theory Wellen_State
  imports Wellen_Sampling
begin

unbundle bit_operations_syntax

text \<open>
  The state of \<open>Wellen_Backend\<close> over time: handles of packed selections, finding signals, the state invariant and the change
  cache. The locale \<open>query_invariant\<close> carries a predicate through every query and is interpreted on both invariants;
  \<open>reachable\<close> has a rule for every operation of the backend that changes its state.
\<close>

section \<open>Handles of packed selections\<close>

definition handle :: "nat \<Rightarrow> u32" where
  "handle n = kVirtualSignalFlag OR word_of_nat n"

lemma bit_flag: "bit kVirtualSignalFlag i \<longleftrightarrow> i = 31"
proof -
  have "kVirtualSignalFlag = push_bit 31 1" by (simp add: kVirtualSignalFlag_def)
  then have "bit kVirtualSignalFlag i \<longleftrightarrow> bit (push_bit 31 1 :: u32) i" by (simp only:)
  also have "\<dots> \<longleftrightarrow> i = 31" unfolding bit_push_bit_iff bit_1_iff by auto
  finally show ?thesis .
qed

lemma bit_small: "n < 2 ^ 31 \<Longrightarrow> bit (word_of_nat n :: u32) i \<Longrightarrow> i < 31"
proof -
  assume n: "n < 2 ^ 31" and "bit (word_of_nat n :: u32) i"
  then have "bit n i" by (simp add: bit_simps)
  then have "bit (take_bit 31 n) i" using n by (simp only: take_bit_nat_eq_self)
  then show ?thesis by (simp add: bit_take_bit_iff)
qed

lemma handle_split:
  assumes "n < 2 ^ 31"
  shows "handle n AND kVirtualSignalFlag \<noteq> 0" "unat (handle n AND NOT kVirtualSignalFlag) = n" "handle n \<noteq> 0"
proof -
  have "bit (handle n AND kVirtualSignalFlag) 31" by (simp add: handle_def bit_simps bit_flag)
  then show "handle n AND kVirtualSignalFlag \<noteq> 0" by auto
  then show "handle n \<noteq> 0" by auto
  have "handle n AND NOT kVirtualSignalFlag = word_of_nat n"
  proof (rule bit_word_eqI)
    fix i assume "i < LENGTH(32)"
    then show "bit (handle n AND NOT kVirtualSignalFlag) i = bit (word_of_nat n :: u32) i"
      using bit_small [OF assms, of i] by (auto simp: handle_def bit_simps bit_flag)
  qed
  with assms show "unat (handle n AND NOT kVirtualSignalFlag) = n" by (simp add: unat_of_nat)
qed

lemma flag_nat: "unat kVirtualSignalFlag = 2 ^ 31"
  by (simp add: kVirtualSignalFlag_def)

lemma handle_nonzero: "handle n \<noteq> 0"
proof
  assume "handle n = 0"
  then have "\<not> bit (handle n) 31" by simp
  then show False by (simp add: handle_def bit_simps bit_flag)
qed

lemma packed_selection_handle:
  "i < length (be_packed_selections b) \<Longrightarrow> length (be_packed_selections b) < 2 ^ 31 \<Longrightarrow>
   packed_selection_of b (handle (Suc i)) = Some (be_packed_selections b ! i)"
  using handle_split [of "Suc i"] by (simp add: packed_selection_of_def)

section \<open>Finding signals\<close>

lemma build_fields [simp]:
  "be_db (build_signal_index api b) = be_db b"
  "be_packed_index (build_signal_index api b) = be_packed_index b"
  "be_packed_selections (build_signal_index api b) = be_packed_selections b"
  "be_change_cache (build_signal_index api b) = be_change_cache b"
  "be_xdb (build_signal_index api b) = be_xdb b"
  "be_time_table (build_signal_index api b) = be_time_table b"
  by (auto simp: build_signal_index_def Let_def split: option.split)

lemma build_idem: "be_index_built b \<Longrightarrow> build_signal_index api b = b"
  by (simp add: build_signal_index_def)

lemma build_built: "be_db b \<noteq> None \<Longrightarrow> be_index_built (build_signal_index api b)"
  by (auto simp: build_signal_index_def Let_def)

lemma create_eq:
  "create_packed_selection p b =
     (case be_packed_index b p of
        Some h \<Rightarrow> (h, b)
      | None \<Rightarrow>
          (case selection_for b p of
             None \<Rightarrow> (0, b)
           | Some sel \<Rightarrow>
               if length (be_packed_selections b) + 1 \<ge> 2 ^ 31 then (0, b)
               else (handle (length (be_packed_selections b) + 1),
                 b\<lparr>be_packed_selections := be_packed_selections b @ [sel],
                   be_packed_index := (be_packed_index b)(p \<mapsto> handle (length (be_packed_selections b) + 1))\<rparr>)))"
  unfolding create_packed_selection_def flag_nat kInvalidSignalRef_def Let_def handle_def length_append list.size
  by (simp split: option.split)

lemmas create_splits = option.splits if_splits

lemma create_zero: "create_packed_selection p b = (0, b') \<Longrightarrow> b' = b"
  unfolding create_eq using handle_nonzero by (auto split: create_splits)

lemma create_again:
  assumes "create_packed_selection p b = (h, b')"
  shows "create_packed_selection p b' = (h, b')"
  using assms unfolding create_eq by (auto split: create_splits)

lemma create_fields:
  assumes "create_packed_selection p b = (h, b')"
  shows "be_db b' = be_db b" "be_signal_index b' = be_signal_index b" "be_index_built b' = be_index_built b"
    "be_declared_ranges b' = be_declared_ranges b" "be_build_count b' = be_build_count b" "be_xdb b' = be_xdb b"
    "be_time_table b' = be_time_table b" "be_change_cache b' = be_change_cache b" "be_time_scale b' = be_time_scale b"
    "\<exists>ext. be_packed_selections b' = be_packed_selections b @ ext"
    "q \<noteq> p \<Longrightarrow> be_packed_index b' q = be_packed_index b q"
  using assms unfolding create_eq by (auto split: create_splits)

lemma selection_for_cong:
  "be_signal_index b = be_signal_index c \<Longrightarrow> be_declared_ranges b = be_declared_ranges c \<Longrightarrow>
   selection_for b p = selection_for c p"
proof -
  assume e: "be_signal_index b = be_signal_index c" "be_declared_ranges b = be_declared_ranges c"
  show ?thesis unfolding selection_for_def e ..
qed

lemma create_zero_stable:
  assumes "create_packed_selection q b = (0, b)" "create_packed_selection p b = (h, b')" "q \<noteq> p"
  shows "create_packed_selection q b' = (0, b')"
proof -
  have "selection_for b' q = selection_for b q"
    using create_fields [OF assms(2)] by (intro selection_for_cong) simp_all
  moreover obtain ext where "be_packed_selections b' = be_packed_selections b @ ext"
    using create_fields(10) [OF assms(2)] by blast
  moreover have "be_packed_index b' q = be_packed_index b q"
    using create_fields(11) [OF assms(2,3)] .
  ultimately show ?thesis
    using assms(1) handle_nonzero unfolding create_eq by (auto split: create_splits)
qed

lemma find_signal_again:
  assumes "find_signal api path b = (r, b')"
  shows "find_signal api path b' = (r, b')"
proof (cases "path = [] \<or> be_db b = None")
  case False
  let ?b = "build_signal_index api b" and ?key = "normalize_path path"
  have db: "be_db ?b \<noteq> None" "be_index_built ?b" using False build_built [of b api] by auto
  have f: "find_signal api path c =
      (case be_signal_index c ?key of
         Some sig \<Rightarrow> (sig, c)
       | None \<Rightarrow>
           (case create_packed_selection ?key c of (selected, c) \<Rightarrow>
              if selected \<noteq> 0 then (selected, c)
              else if take 4 ?key = ''top.'' then
                (case be_signal_index c (drop 4 ?key) of
                   Some sig \<Rightarrow> (sig, c)
                 | None \<Rightarrow> create_packed_selection (drop 4 ?key) c)
              else (0, c)))" if "be_db c \<noteq> None" "be_index_built c" for c
    using that(1) False unfolding find_signal_def kInvalidSignalRef_def Let_def build_idem [OF that(2)] by auto
  have fb: "find_signal api path b = find_signal api path ?b"
    using False db(1) unfolding find_signal_def Let_def build_idem [OF db(2)] by auto
  show ?thesis
  proof (cases "be_signal_index ?b ?key")
    case (Some sig)
    with assms f [OF db] fb show ?thesis by simp
  next
    case None
    obtain s c where s: "create_packed_selection ?key ?b = (s, c)" by (cases "create_packed_selection ?key ?b")
    note cf = create_fields [OF s]
    have c: "be_db c \<noteq> None" "be_index_built c" using db cf by simp_all
    show ?thesis
    proof (cases "s = 0")
      case False
      with None s assms f [OF db] fb have "r = s" "b' = c" by simp_all
      with f [OF c] None False create_again [OF s] cf show ?thesis by simp
    next
      case True
      then have cb: "c = ?b" using create_zero [of ?key ?b c] s by simp
      show ?thesis
      proof (cases "take 4 ?key = ''top.'' \<and> be_signal_index ?b (drop 4 ?key) = None")
        case False
        with True None s cb assms f [OF db] fb have "b' = ?b" by (auto split: option.splits if_splits)
        with assms fb show ?thesis by simp
      next
        case top: True
        with True None s cb assms f [OF db] fb
        have r: "create_packed_selection (drop 4 ?key) ?b = (r, b')" by simp
        note rf = create_fields [OF r]
        have b': "be_db b' \<noteq> None" "be_index_built b'" using db rf by simp_all
        have "?key \<noteq> drop 4 ?key" using top by (metis append_take_drop_id append_self_conv2 list.distinct(1))
        then have "create_packed_selection ?key b' = (0, b')"
          using create_zero_stable [OF _ r] s True cb by simp
        with f [OF b'] top None rf create_again [OF r] show ?thesis by simp
      qed
    qed
  qed
qed (use assms in \<open>auto simp: find_signal_def\<close>)

section \<open>The state invariant\<close>

text \<open>
  Every query of the backend changes its state only by filling the change cache. A predicate that
  \<open>selected_changes\<close> keeps is therefore kept by all of them.
\<close>

locale query_invariant =
  fixes api :: "('d, 'x) capi" and I :: "('d, 'x) backend \<Rightarrow> bool"
  assumes keep: "I b \<Longrightarrow> I (snd (selected_changes api r b))"
begin

lemma keep_changes: "I b \<Longrightarrow> selected_changes api r b = (l, b') \<Longrightarrow> I b'"
  using keep [of b r] by simp

lemma keep_offset: "I b \<Longrightarrow> signal_offset_at api r ti b = (x, b') \<Longrightarrow> I b'"
  by (auto simp: signal_offset_at_def split: option.splits prod.splits dest: keep_changes)

lemma keep_value: "I b \<Longrightarrow> signal_typed_value_at api r s e b = (x, b') \<Longrightarrow> I b'"
  by (auto simp: signal_typed_value_at_def Let_def split: option.splits prod.splits dest: keep_changes)

lemma keep_indices: "I b \<Longrightarrow> time_indices_of api r b = (x, b') \<Longrightarrow> I b'"
  by (auto simp: time_indices_of_def split: option.splits prod.splits dest: keep_changes)

lemma keep_info: "I b \<Longrightarrow> backend_signal_info api r b = (x, b') \<Longrightarrow> I b'"
  by (auto simp: backend_signal_info_def Let_def split: option.splits prod.splits dest: keep_changes)

lemma keep_sampled:
  assumes "I b" "sampled_value_at api r ti point b = (x, b')"
  shows "I b'"
proof -
  obtain off c where off: "signal_offset_at api r ti b = (off, c)" by (cases "signal_offset_at api r ti b")
  note c = keep_offset [OF assms(1) off]
  show ?thesis
    using assms(2) c unfolding sampled_value_at_def off
    by (auto simp: Let_def split: option.splits prod.splits if_splits dest: keep_value [OF c])
qed

lemma keep_delta_loop: "I b \<Longrightarrow> delta_loop api r s es out b = (x, b') \<Longrightarrow> I b'"
proof (induction es arbitrary: out b)
  case (Cons e es)
  obtain v c where v: "signal_typed_value_at api r s (word_of_nat e) b = (v, c)"
    by (cases "signal_typed_value_at api r s (word_of_nat e) b")
  show ?case
    using Cons.IH [OF keep_value [OF Cons.prems(1) v]] Cons.prems(2) keep_value [OF Cons.prems(1) v] v
    by (auto split: option.splits)
qed simp

lemma keep_delta:
  assumes "I b" "delta_values_at api r ti b = (x, b')"
  shows "I b'"
proof -
  obtain off c where off: "signal_offset_at api r ti b = (off, c)" by (cases "signal_offset_at api r ti b")
  note c = keep_offset [OF assms(1) off]
  show ?thesis
    using assms(2) c unfolding delta_values_at_def off
    by (auto split: option.splits prod.splits if_splits dest: keep_delta_loop [OF c])
qed

lemma keep_change:
  assumes "I b" "signal_change_at api r k b = (x, b')"
  shows "I b'"
proof -
  obtain ts c where ts: "time_indices_of api r b = (ts, c)" by (cases "time_indices_of api r b")
  note c = keep_indices [OF assms(1) ts]
  show ?thesis
    using assms(2) c unfolding signal_change_at_def ts
    by (auto split: option.splits prod.splits if_splits dest: keep_value [OF c])
qed

lemma keep_scan_loop: "I b \<Longrightarrow> scan_loop api r lo hi limit ts ks cnt out b = (x, b') \<Longrightarrow> I b'"
proof (induction ks arbitrary: cnt out b)
  case (Cons k ks)
  obtain v c where v: "signal_typed_value_at api r k 0 b = (v, c)" by (cases "signal_typed_value_at api r k 0 b")
  note c = keep_value [OF Cons.prems(1) v]
  show ?case
    using Cons.prems(2) c v Cons.IH [OF Cons.prems(1)] Cons.IH [OF c]
    by (auto simp: Let_def split: option.splits if_splits)
qed simp

lemma keep_scan:
  assumes "I b" "scan_changes api r lo hi limit b = (x, b')"
  shows "I b'"
proof -
  obtain i c where i: "backend_signal_info api r b = (i, c)" by (cases "backend_signal_info api r b")
  note c = keep_info [OF assms(1) i]
  obtain ts d where ts: "time_indices_of api r c = (ts, d)" by (cases "time_indices_of api r c")
  note d = keep_indices [OF c ts]
  show ?thesis
    using assms c d unfolding scan_changes_def i
    by (auto simp: ts split: option.splits prod.splits if_splits dest: keep_scan_loop [OF d])
qed

lemma keep_values: "I b \<Longrightarrow> values_at show_real api rs ti b = (x, b') \<Longrightarrow> I b'"
proof (induction rs arbitrary: b x)
  case (Cons r rs)
  obtain s c where s: "sampled_value_at api r ti Raw b = (s, c)" by (cases "sampled_value_at api r ti Raw b")
  show ?case
    using Cons.IH [OF keep_sampled [OF Cons.prems(1) s]] Cons.prems(2) s by (auto split: prod.splits)
qed simp

lemma keep_value_str: "I b \<Longrightarrow> signal_value_str show_real api r s e b = (x, b') \<Longrightarrow> I b'"
  by (auto simp: signal_value_str_def split: option.splits prod.splits dest: keep_value)

lemma keep_typed_values: "I b \<Longrightarrow> typed_values_at api rs ti point b = (x, b') \<Longrightarrow> I b'"
proof (induction rs arbitrary: b x)
  case (Cons r rs)
  obtain s c where s: "sampled_value_at api r ti point b = (s, c)" by (cases "sampled_value_at api r ti point b")
  show ?case
    using Cons.IH [OF keep_sampled [OF Cons.prems(1) s]] Cons.prems(2) s by (auto split: prod.splits)
qed simp

end

lemma uint_span: "\<not> span a c > 2 ^ 32 - 1 \<Longrightarrow> uint (word_of_int (span a c) :: u32) = span a c"
proof -
  assume "\<not> span a c > 2 ^ 32 - 1"
  moreover have "0 \<le> span a c" by (simp add: span_def)
  ultimately show ?thesis by (simp add: uint_word_of_int)
qed

lemma selection_for_ok: "selection_for b p = Some sel \<Longrightarrow> selection_ok sel"
  unfolding selection_for_def selection_ok_def Let_def
  by (clarsimp split: option.splits if_splits prod.splits simp: not_less uint_span [simplified])
    (simp add: min_le_iff_disj le_max_iff_disj)

definition backend_inv :: "('d, 'x) backend \<Rightarrow> bool" where
  "backend_inv b \<longleftrightarrow>
     (be_db b = None \<longrightarrow> b = backend_init) \<and>
     be_build_count b = (if be_index_built b then 1 else 0) \<and>
     (\<not> be_index_built b \<longrightarrow> be_packed_selections b = []) \<and>
     length (be_packed_selections b) < 2 ^ 31 \<and>
     (\<forall>sel \<in> set (be_packed_selections b). selection_ok sel) \<and>
     (\<forall>p h. be_packed_index b p = Some h \<longrightarrow>
        (\<exists>i < length (be_packed_selections b). h = handle (Suc i) \<and>
           selection_for b p = Some (be_packed_selections b ! i))) \<and>
     (\<forall>r. be_change_cache b r \<noteq> None \<longrightarrow> packed_selection_of b r \<noteq> None)"

lemma packed_selection_of_cong:
  "be_packed_selections b = be_packed_selections c \<Longrightarrow> packed_selection_of b r = packed_selection_of c r"
proof -
  assume e: "be_packed_selections b = be_packed_selections c"
  show ?thesis unfolding packed_selection_of_def e ..
qed

lemma packed_selection_of_extend:
  "packed_selection_of b r = Some sel \<Longrightarrow> be_packed_selections c = be_packed_selections b @ ext \<Longrightarrow>
   packed_selection_of c r = Some sel"
  by (auto simp: packed_selection_of_def Let_def nth_append split: if_splits)

lemma selected_changes_state:
  "snd (selected_changes api r b) = b \<or>
   (\<exists>l. snd (selected_changes api r b) = with_cache r l b \<and> packed_selection_of b r \<noteq> None \<and> be_db b \<noteq> None)"
proof (cases "be_change_cache b r = None \<and> packed_selection_of b r \<noteq> None")
  case True
  then obtain sel where sel: "be_change_cache b r = None" "packed_selection_of b r = Some sel" by auto
  show ?thesis
  proof (cases "db_signal_info api b (ps_base_ref sel)")
    case (Some i)
    then have "be_db b \<noteq> None" by (auto simp: db_signal_info_def split: option.splits)
    with sel Some show ?thesis
      by (cases "select_loop api b sel (native_time_indices_of api b (ps_base_ref sel)) 0 [] []")
        (auto simp: selected_changes_def with_cache_def)
  qed (use sel in \<open>simp add: selected_changes_def\<close>)
qed (auto simp: selected_changes_def split: option.splits)

lemma inv_selected_changes: "backend_inv b \<Longrightarrow> backend_inv (snd (selected_changes api r b))"
proof -
  assume inv: "backend_inv b"
  consider "snd (selected_changes api r b) = b"
    | l where "snd (selected_changes api r b) = with_cache r l b" "packed_selection_of b r \<noteq> None" "be_db b \<noteq> None"
    using selected_changes_state [of api r b] by blast
  then show ?thesis
  proof cases
    case (2 l)
    have "selection_for (with_cache r l b) p = selection_for b p" for p
      by (rule selection_for_cong) (simp_all add: with_cache_def)
    moreover have "be_change_cache (with_cache r l b) q = (if q = r then Some l else be_change_cache b q)" for q
      by (simp add: with_cache_def)
    ultimately show ?thesis
      using inv 2 unfolding backend_inv_def 2(1) by auto
  qed (use inv in simp)
qed

interpretation queries: query_invariant api backend_inv for api
  by unfold_locales (rule inv_selected_changes)

lemma inv_init: "backend_inv backend_init"
  by (simp add: backend_inv_def backend_init_def)

lemma close_init: "close_backend b = backend_init"
  by (simp add: close_backend_def backend_init_def)

lemma inv_open: "open_backend api path b = (ok, b') \<Longrightarrow> backend_inv b'"
  unfolding open_backend_def close_init
  by (auto simp: Let_def backend_inv_def backend_init_def split: option.splits if_splits prod.splits)

lemma inv_build: "backend_inv b \<Longrightarrow> backend_inv (build_signal_index api b)"
proof (cases "be_index_built b \<or> be_db b = None")
  case True
  moreover assume "backend_inv b"
  ultimately show ?thesis by (auto simp: build_signal_index_def split: option.splits)
next
  case False
  assume inv: "backend_inv b"
  then have e: "be_packed_selections b = []" "be_build_count b = 0" "be_packed_index b p = None"
    "be_change_cache b r = None" for p r
    using False by (auto simp: backend_inv_def packed_selection_of_def Let_def split: if_splits)
  then show ?thesis
    using False unfolding backend_inv_def by (auto simp: build_built) (auto simp: build_signal_index_def Let_def)
qed

lemma inv_create:
  assumes "backend_inv b" "be_db b \<noteq> None" "be_index_built b" "create_packed_selection p b = (h, b')"
  shows "backend_inv b'"
proof (cases "b' = b")
  case False
  let ?n = "length (be_packed_selections b)"
  obtain sel where sel: "selection_for b p = Some sel" "?n + 1 < 2 ^ 31"
    and b': "b' = b\<lparr>be_packed_selections := be_packed_selections b @ [sel],
                   be_packed_index := (be_packed_index b)(p \<mapsto> handle (?n + 1))\<rparr>"
    using assms(4) False unfolding create_eq by (auto split: create_splits)
  have sf: "selection_for b' q = selection_for b q" for q
    by (rule selection_for_cong) (simp_all add: b')
  have ext: "be_packed_selections b' = be_packed_selections b @ [sel]" by (simp add: b')
  have "\<exists>i < Suc ?n. k = handle (Suc i) \<and> selection_for b' q = Some ((be_packed_selections b @ [sel]) ! i)"
    if "be_packed_index b' q = Some k" for q k
  proof (cases "q = p")
    case True
    with that sel sf show ?thesis by (intro exI [of _ ?n]) (simp add: b')
  next
    case False
    then have "be_packed_index b q = Some k" using that by (simp add: b')
    then obtain i where "i < ?n" "k = handle (Suc i)" "selection_for b q = Some (be_packed_selections b ! i)"
      using assms(1) unfolding backend_inv_def by blast
    with sf show ?thesis by (intro exI [of _ i]) (simp add: nth_append)
  qed
  moreover have "packed_selection_of b' r \<noteq> None" if "be_change_cache b' r \<noteq> None" for r
  proof -
    from that assms(1) obtain s where "packed_selection_of b r = Some s"
      by (auto simp: backend_inv_def b')
    from packed_selection_of_extend [OF this ext] show ?thesis by simp
  qed
  ultimately show ?thesis
    using assms(1-3) sel selection_for_ok [OF sel(1)] unfolding backend_inv_def ext by (auto simp: b')
qed (use assms in simp)

lemma inv_find:
  assumes "backend_inv b" "find_signal api path b = (r, b')"
  shows "backend_inv b'"
proof (cases "path = [] \<or> be_db b = None")
  case False
  let ?b = "build_signal_index api b"
  have b: "backend_inv ?b" "be_db ?b \<noteq> None" "be_index_built ?b"
    using assms(1) False inv_build build_built [of b api] by auto
  have c: "backend_inv c \<and> be_db c \<noteq> None \<and> be_index_built c" if "create_packed_selection p ?b = (h, c)" for p h c
    using inv_create [OF b that] create_fields [OF that] b by simp
  show ?thesis
    using assms(2) False b unfolding find_signal_def Let_def
    by (auto split: option.splits if_splits prod.splits dest!: c dest: inv_create)
qed (use assms in \<open>auto simp: find_signal_def\<close>)

lemma inv_rehandle:
  assumes "backend_inv b" "\<And>r. c r \<noteq> None \<Longrightarrow> be_change_cache b r \<noteq> None" "be_db b \<noteq> None"
  shows "backend_inv (b\<lparr>be_change_cache := c, be_db := Some d, be_xdb := x\<rparr>)"
proof -
  let ?c = "b\<lparr>be_change_cache := c, be_db := Some d, be_xdb := x\<rparr>"
  have "selection_for ?c p = selection_for b p" for p by (rule selection_for_cong) simp_all
  moreover have "packed_selection_of ?c r = packed_selection_of b r" for r by (rule packed_selection_of_cong) simp
  ultimately show ?thesis using assms unfolding backend_inv_def by auto
qed

lemma inv_load:
  assumes "backend_inv b"
  shows "backend_inv (snd (load_signals api refs b))"
proof (cases "be_db b")
  case None
  with assms have "b = backend_init" by (simp add: backend_inv_def)
  then have "snd (load_signals api refs b) = b" by (simp add: load_signals_def Let_def backend_init_def)
  with assms show ?thesis by simp
next
  case (Some db)
  have "b\<lparr>be_change_cache := be_change_cache b, be_db := d, be_xdb := x\<rparr> = b\<lparr>be_db := d, be_xdb := x\<rparr>" for d x by simp
  with Some assms inv_rehandle [OF assms, of "be_change_cache b"] show ?thesis
    by (auto simp: load_signals_def Let_def split: prod.splits)
qed

lemma inv_unload:
  assumes "backend_inv b"
  shows "backend_inv (unload_signals api refs b)"
proof (cases "be_db b")
  case None
  with assms have "b = backend_init" by (simp add: backend_inv_def)
  then have "unload_signals api refs b = b"
    by (auto simp: unload_signals_def Let_def backend_init_def fun_eq_iff split: option.splits)
  with assms show ?thesis by simp
next
  case (Some db)
  then show ?thesis
    using assms unfolding unload_signals_def Let_def
    by (auto intro!: inv_rehandle split: option.splits if_splits)
qed

section \<open>The change cache\<close>

text \<open>
  What the backend relies on of the two libraries, beside the values they return. \<open>paired db x\<close> says that the two
  handles were opened on one file and that the same signals have been loaded and unloaded through both. Loading
  keeps what is readable of a signal that is loaded already, and unloading what is readable of the other signals.
\<close>

definition same_signal :: "('d, 'x) capi \<Rightarrow> 'd \<Rightarrow> 'd \<Rightarrow> u32 \<Rightarrow> bool" where
  "same_signal api db db' r \<longleftrightarrow> c_signal_info api db' r = c_signal_info api db r \<and> c_typed_value api db' r = c_typed_value api db r"

definition library_laws :: "('d, 'x) capi \<Rightarrow> ('d \<Rightarrow> 'x \<Rightarrow> bool) \<Rightarrow> bool" where
  "library_laws api paired \<longleftrightarrow>
     (\<forall>path db x. c_open api path = Some db \<and> x_open api path = Some x \<longrightarrow> paired db x) \<and>
     (\<forall>db x rs. paired db x \<longrightarrow> paired (snd (c_load_signals api db rs)) (x_load_signals api x rs) \<and>
        paired (c_unload_signals api db rs) (x_unload_signals api x rs)) \<and>
     (\<forall>db x r. paired db x \<and> c_signal_info api db r \<noteq> None \<longrightarrow> x_time_indices api x r \<noteq> None) \<and>
     (\<forall>db rs r. c_signal_info api db r \<noteq> None \<longrightarrow> same_signal api db (snd (c_load_signals api db rs)) r) \<and>
     (\<forall>db rs r. r \<notin> set rs \<longrightarrow> same_signal api db (c_unload_signals api db rs) r) \<and>
     (\<forall>x rs r. x_time_indices api x r \<noteq> None \<longrightarrow> x_time_indices api (x_load_signals api x rs) r = x_time_indices api x r) \<and>
     (\<forall>x rs r. r \<notin> set rs \<longrightarrow> x_time_indices api (x_unload_signals api x rs) r = x_time_indices api x r)"

lemma library_lawsD:
  assumes "library_laws api paired"
  shows "c_open api path = Some db \<Longrightarrow> x_open api path = Some x \<Longrightarrow> paired db x"
    "paired db x \<Longrightarrow> paired (snd (c_load_signals api db rs)) (x_load_signals api x rs)"
    "paired db x \<Longrightarrow> paired (c_unload_signals api db rs) (x_unload_signals api x rs)"
    "paired db x \<Longrightarrow> c_signal_info api db r \<noteq> None \<Longrightarrow> x_time_indices api x r \<noteq> None"
    "c_signal_info api db r \<noteq> None \<Longrightarrow> same_signal api db (snd (c_load_signals api db rs)) r"
    "r \<notin> set rs \<Longrightarrow> same_signal api db (c_unload_signals api db rs) r"
    "x_time_indices api x r \<noteq> None \<Longrightarrow> x_time_indices api (x_load_signals api x rs) r = x_time_indices api x r"
    "r \<notin> set rs \<Longrightarrow> x_time_indices api (x_unload_signals api x rs) r = x_time_indices api x r"
  using assms unfolding library_laws_def by auto

definition handles_paired :: "('d \<Rightarrow> 'x \<Rightarrow> bool) \<Rightarrow> ('d, 'x) backend \<Rightarrow> bool" where
  "handles_paired paired b \<longleftrightarrow>
     (case (be_db b, be_xdb b) of (None, None) \<Rightarrow> True | (Some db, Some x) \<Rightarrow> paired db x | _ \<Rightarrow> False)"

text \<open>
  A cached list is right when its base signal is loaded and reading the signal again would give the same list.
\<close>

definition cache_entry_ok :: "('d, 'x) capi \<Rightarrow> ('d, 'x) backend \<Rightarrow> u32 \<Rightarrow> selected_change list \<Rightarrow> bool" where
  "cache_entry_ok api b r l \<longleftrightarrow>
     (\<exists>sel. packed_selection_of b r = Some sel \<and> db_signal_info api b (ps_base_ref sel) \<noteq> None \<and>
        select_loop api b sel (native_time_indices_of api b (ps_base_ref sel)) 0 [] [] = Some l)"

definition cache_inv :: "('d, 'x) capi \<Rightarrow> ('d \<Rightarrow> 'x \<Rightarrow> bool) \<Rightarrow> ('d, 'x) backend \<Rightarrow> bool" where
  "cache_inv api paired b \<longleftrightarrow>
     handles_paired paired b \<and> (\<forall>r l. be_change_cache b r = Some l \<longrightarrow> cache_entry_ok api b r l)"

text \<open>What the entry reads of the state.\<close>

definition same_source :: "('d, 'x) capi \<Rightarrow> ('d, 'x) backend \<Rightarrow> ('d, 'x) backend \<Rightarrow> u32 \<Rightarrow> bool" where
  "same_source api b c r \<longleftrightarrow>
     db_signal_info api c r = db_signal_info api b r \<and> native_typed_value_at api c r = native_typed_value_at api b r \<and>
     native_time_indices_of api c r = native_time_indices_of api b r"

lemma select_loop_cong:
  "native_typed_value_at api c (ps_base_ref sel) = native_typed_value_at api b (ps_base_ref sel) \<Longrightarrow>
   select_loop api c sel ts k p s = select_loop api b sel ts k p s"
  by (induction ts arbitrary: k p s) (auto split: option.splits)

lemma cache_entry_keep:
  assumes "cache_entry_ok api b r l"
    "\<And>sel. packed_selection_of b r = Some sel \<Longrightarrow> db_signal_info api b (ps_base_ref sel) \<noteq> None \<Longrightarrow>
       packed_selection_of c r = Some sel \<and> same_source api b c (ps_base_ref sel)"
  shows "cache_entry_ok api c r l"
  using assms select_loop_cong [of api c _ b] unfolding cache_entry_ok_def same_source_def by metis

lemma same_source_fields: "be_db c = be_db b \<Longrightarrow> be_xdb c = be_xdb b \<Longrightarrow> same_source api b c r"
proof -
  assume e: "be_db c = be_db b" "be_xdb c = be_xdb b"
  have i: "db_signal_info api c = db_signal_info api b" "db_typed_value api c = db_typed_value api b"
    unfolding db_signal_info_def db_typed_value_def fun_eq_iff e by blast+
  show ?thesis unfolding same_source_def native_typed_value_at_def fun_eq_iff native_time_indices_of_def i e by blast
qed

lemma same_source_handles:
  assumes "be_db b = Some db" "be_db c = Some db'" "be_xdb b = Some x" "be_xdb c = Some x'" "same_signal api db db' r"
    "c_signal_info api db r \<noteq> None \<Longrightarrow> x_time_indices api x' r = x_time_indices api x r"
  shows "same_source api b c r"
proof -
  have t: "db_typed_value api c r = db_typed_value api b r"
    unfolding fun_eq_iff db_typed_value_def assms(1,2) using assms(5) by (simp add: same_signal_def)
  have i: "db_signal_info api c r = db_signal_info api b r"
    using assms(1,2,5) by (simp add: same_signal_def db_signal_info_def)
  have "native_typed_value_at api c r = native_typed_value_at api b r"
    unfolding native_typed_value_at_def fun_eq_iff t by blast
  moreover have "native_time_indices_of api c r = native_time_indices_of api b r"
    using assms(1,3,4,6) unfolding native_time_indices_of_def i by (auto simp: db_signal_info_def split: option.splits)
  ultimately show ?thesis using i by (simp add: same_source_def)
qed

lemma cache_inv_selected: "cache_inv api paired b \<Longrightarrow> cache_inv api paired (snd (selected_changes api r b))"
proof (cases "snd (selected_changes api r b) = b")
  case False
  assume inv: "cache_inv api paired b"
  obtain sel l where sel: "packed_selection_of b r = Some sel" "db_signal_info api b (ps_base_ref sel) \<noteq> None"
    "select_loop api b sel (native_time_indices_of api b (ps_base_ref sel)) 0 [] [] = Some l"
    and c: "snd (selected_changes api r b) = with_cache r l b"
    using False unfolding selected_changes_def by (auto simp: with_cache_def split: option.splits)
  have "cache_entry_ok api (with_cache r l b) q m" if "be_change_cache (with_cache r l b) q = Some m" for q m
  proof (cases "q = r")
    case True
    with that have "m = l" by (simp add: with_cache_def)
    with True sel have "cache_entry_ok api b q m" unfolding cache_entry_ok_def by blast
    then show ?thesis by (rule cache_entry_keep) (auto intro!: same_source_fields)
  next
    case False
    with that inv have "cache_entry_ok api b q m" by (auto simp: cache_inv_def with_cache_def)
    then show ?thesis by (rule cache_entry_keep) (auto intro!: same_source_fields)
  qed
  with inv show ?thesis unfolding c by (auto simp: cache_inv_def handles_paired_def with_cache_def)
qed simp

interpretation cached: query_invariant api "cache_inv api paired" for api paired
  by unfold_locales (rule cache_inv_selected)

lemma cache_inv_init: "cache_inv api paired backend_init"
  by (simp add: cache_inv_def handles_paired_def backend_init_def)

lemma cache_inv_open:
  assumes "library_laws api paired" "open_backend api path b = (ok, b')"
  shows "cache_inv api paired b'"
  using assms(2) library_lawsD(1) [OF assms(1), of path] cache_inv_init [of api paired] unfolding open_backend_def close_init
  by (auto simp: Let_def cache_inv_def handles_paired_def backend_init_def split: option.splits if_splits prod.splits)

text \<open>Finding a signal leaves the handles and the cache alone and only adds selections.\<close>

definition only_adds :: "('d, 'x) backend \<Rightarrow> ('d, 'x) backend \<Rightarrow> bool" where
  "only_adds b c \<longleftrightarrow> be_db c = be_db b \<and> be_xdb c = be_xdb b \<and> be_change_cache c = be_change_cache b \<and>
     (\<exists>ext. be_packed_selections c = be_packed_selections b @ ext)"

lemma create_only_adds: "create_packed_selection p b = (h, c) \<Longrightarrow> only_adds b c"
  using create_fields [of p b h c] by (simp add: only_adds_def)

lemma only_adds_trans: "only_adds a b \<Longrightarrow> only_adds b c \<Longrightarrow> only_adds a c"
  by (auto simp: only_adds_def)

lemma find_only_adds:
  assumes "find_signal api path b = (r, b')"
  shows "only_adds b b'"
proof -
  have "only_adds b b" "only_adds b (build_signal_index api b)" by (simp_all add: only_adds_def)
  with assms show ?thesis unfolding find_signal_def Let_def
    by (auto split: option.splits if_splits prod.splits dest!: create_only_adds intro: only_adds_trans)
qed

lemma cache_inv_find:
  assumes "cache_inv api paired b" "find_signal api path b = (r, b')"
  shows "cache_inv api paired b'"
proof -
  obtain ext where f: "be_db b' = be_db b" "be_xdb b' = be_xdb b" "be_change_cache b' = be_change_cache b"
    "be_packed_selections b' = be_packed_selections b @ ext"
    using find_only_adds [OF assms(2)] unfolding only_adds_def by blast
  have "cache_entry_ok api b' q l" if "cache_entry_ok api b q l" for q l
    using that by (rule cache_entry_keep) (auto intro: same_source_fields f packed_selection_of_extend [OF _ f(4)])
  with assms(1) f show ?thesis by (simp add: cache_inv_def handles_paired_def)
qed

lemma cache_inv_load:
  assumes "library_laws api paired" "cache_inv api paired b"
  shows "cache_inv api paired (snd (load_signals api refs b))"
proof (cases "snd (load_signals api refs b) = b")
  case False
  let ?c = "snd (load_signals api refs b)"
  define rs where "rs = map (native_signal_ref b) refs"
  have c: "?c = b\<lparr>be_db := map_option (\<lambda>db. snd (c_load_signals api db rs)) (be_db b),
      be_xdb := map_option (\<lambda>x. x_load_signals api x rs) (be_xdb b)\<rparr>"
    using False by (auto simp: load_signals_def rs_def Let_def split: option.splits prod.splits if_splits)
  have p: "packed_selection_of ?c q = packed_selection_of b q" for q by (rule packed_selection_of_cong) (simp add: c)
  have "cache_entry_ok api ?c q l" if "be_change_cache ?c q = Some l" for q l
  proof -
    have ok: "cache_entry_ok api b q l" using that assms(2) by (simp add: c cache_inv_def)
    then obtain db x where h: "be_db b = Some db" "be_xdb b = Some x" "paired db x"
      using assms(2) by (auto simp: cache_inv_def handles_paired_def cache_entry_ok_def db_signal_info_def split: option.splits)
    have "same_source api b ?c r" if "db_signal_info api b r \<noteq> None" for r
    proof (rule same_source_handles [OF h(1) _ h(2)])
      have i: "c_signal_info api db r \<noteq> None" using that h by (simp add: db_signal_info_def)
      show "same_signal api db (snd (c_load_signals api db rs)) r" using i by (rule library_lawsD(5) [OF assms(1)])
      show "x_time_indices api (x_load_signals api x rs) r = x_time_indices api x r"
        using library_lawsD(4) [OF assms(1) h(3) i] by (rule library_lawsD(7) [OF assms(1)])
    qed (simp_all add: c h)
    with ok show ?thesis by (rule_tac cache_entry_keep [OF ok]) (auto simp: p)
  qed
  moreover have "handles_paired paired ?c"
    using assms library_lawsD(2) [OF assms(1)] by (auto simp: c cache_inv_def handles_paired_def split: option.splits)
  ultimately show ?thesis by (simp add: cache_inv_def)
qed (use assms in simp)

lemma cache_inv_unload:
  assumes "library_laws api paired" "cache_inv api paired b"
  shows "cache_inv api paired (unload_signals api refs b)"
proof (cases "unload_signals api refs b = b")
  case False
  let ?c = "unload_signals api refs b"
  obtain rs where c: "?c = b\<lparr>be_change_cache := (\<lambda>r. case packed_selection_of b r of
          Some sel \<Rightarrow> if ps_base_ref sel \<in> set rs then None else be_change_cache b r | None \<Rightarrow> be_change_cache b r),
      be_db := map_option (\<lambda>db. c_unload_signals api db rs) (be_db b),
      be_xdb := map_option (\<lambda>x. x_unload_signals api x rs) (be_xdb b)\<rparr>"
    using False by (auto simp: unload_signals_def Let_def split: if_splits)
  have p: "packed_selection_of ?c q = packed_selection_of b q" for q by (rule packed_selection_of_cong) (simp add: c)
  have "cache_entry_ok api ?c q l" if cached: "be_change_cache ?c q = Some l" for q l
  proof -
    have ok: "cache_entry_ok api b q l"
      using cached assms(2) by (auto simp: c cache_inv_def split: option.splits if_splits)
    then obtain db x where h: "be_db b = Some db" "be_xdb b = Some x" "paired db x"
      using assms(2) by (auto simp: cache_inv_def handles_paired_def cache_entry_ok_def db_signal_info_def split: option.splits)
    show ?thesis
    proof (rule cache_entry_keep [OF ok])
      fix sel assume sel: "packed_selection_of b q = Some sel"
      with cached have n: "ps_base_ref sel \<notin> set rs" by (auto simp: c split: if_splits)
      have "same_source api b ?c (ps_base_ref sel)"
        by (rule same_source_handles [OF h(1) _ h(2) _ library_lawsD(6) [OF assms(1) n] library_lawsD(8) [OF assms(1) n]])
          (simp_all add: c h)
      with sel show "packed_selection_of ?c q = Some sel \<and> same_source api b ?c (ps_base_ref sel)" by (simp add: p)
    qed
  qed
  moreover have "handles_paired paired ?c"
    using assms library_lawsD(3) [OF assms(1)] by (auto simp: c cache_inv_def handles_paired_def split: option.splits)
  ultimately show ?thesis by (simp add: cache_inv_def)
qed (use assms in simp)

section \<open>Reachable states\<close>

text \<open>Reading by path finds the signal, loads it when it is not loaded, and queries it.\<close>

lemma value_at_keeps:
  assumes "query_invariant api I" "\<And>c r c'. I c \<Longrightarrow> find_signal api path c = (r, c') \<Longrightarrow> I c'"
    "\<And>c rs. I c \<Longrightarrow> I (snd (load_signals api rs c))" "I b" "value_at show_real api path t b = (v, b')"
  shows "I b'"
proof -
  obtain r c where c: "find_signal api path b = (r, c)" by (cases "find_signal api path b")
  define d where "d = (if is_loaded api r c then c else snd (load_signals api [r] c))"
  obtain i e where e: "backend_signal_info api r d = (i, e)" by (cases "backend_signal_info api r d")
  obtain off f where f: "signal_offset_at api r (time_idx_of d t) e = (off, f)" by (cases "signal_offset_at api r (time_idx_of d t) e")
  have "I c" using assms(2) [OF assms(4) c] .
  moreover from this have "I d" using assms(3) by (simp add: d_def)
  then have "I f" using query_invariant.keep_offset [OF assms(1) query_invariant.keep_info [OF assms(1) _ e] f] by blast
  ultimately show ?thesis
    using assms(5) c e f query_invariant.keep_value_str [OF assms(1)] unfolding value_at_def
    by (auto simp: Let_def d_def [symmetric] split: if_splits option.splits prod.splits)
qed

inductive reachable :: "('d, 'x) capi \<Rightarrow> ('d, 'x) backend \<Rightarrow> bool" for api where
  init: "reachable api backend_init"
| opened: "reachable api b \<Longrightarrow> open_backend api path b = (ok, b') \<Longrightarrow> reachable api b'"
| closed: "reachable api b \<Longrightarrow> reachable api (close_backend b)"
| found: "reachable api b \<Longrightarrow> find_signal api path b = (r, b') \<Longrightarrow> reachable api b'"
| loaded: "reachable api b \<Longrightarrow> load_signals api refs b = (n, b') \<Longrightarrow> reachable api b'"
| unloaded: "reachable api b \<Longrightarrow> reachable api (unload_signals api refs b)"
| info: "reachable api b \<Longrightarrow> backend_signal_info api r b = (i, b') \<Longrightarrow> reachable api b'"
| offset: "reachable api b \<Longrightarrow> signal_offset_at api r ti b = (off, b') \<Longrightarrow> reachable api b'"
| typed: "reachable api b \<Longrightarrow> signal_typed_value_at api r start el b = (tv, b') \<Longrightarrow> reachable api b'"
| shown: "reachable api b \<Longrightarrow> signal_value_str show_real api r start el b = (t, b') \<Longrightarrow> reachable api b'"
| indices: "reachable api b \<Longrightarrow> time_indices_of api r b = (ts, b') \<Longrightarrow> reachable api b'"
| sampled: "reachable api b \<Longrightarrow> sampled_value_at api r ti point b = (s, b') \<Longrightarrow> reachable api b'"
| deltas: "reachable api b \<Longrightarrow> delta_values_at api r ti b = (d, b') \<Longrightarrow> reachable api b'"
| change: "reachable api b \<Longrightarrow> signal_change_at api r k b = (c, b') \<Longrightarrow> reachable api b'"
| scanned: "reachable api b \<Longrightarrow> scan_changes api r lo hi limit b = (s, b') \<Longrightarrow> reachable api b'"
| batch: "reachable api b \<Longrightarrow> values_at show_real api rs ti b = (vs, b') \<Longrightarrow> reachable api b'"
| typed_batch: "reachable api b \<Longrightarrow> typed_values_at api rs ti point b = (ss, b') \<Longrightarrow> reachable api b'"
| direct: "reachable api b \<Longrightarrow> value_at show_real api path t b = (v, b') \<Longrightarrow> reachable api b'"

lemma inv_value_at: "backend_inv b \<Longrightarrow> value_at show_real api path t b = (v, b') \<Longrightarrow> backend_inv b'"
  by (rule value_at_keeps [OF queries.query_invariant_axioms inv_find inv_load])

lemma cache_inv_value_at:
  "library_laws api paired \<Longrightarrow> cache_inv api paired b \<Longrightarrow> value_at show_real api path t b = (v, b') \<Longrightarrow> cache_inv api paired b'"
  by (rule value_at_keeps [OF cached.query_invariant_axioms cache_inv_find cache_inv_load])

lemma reachable_inv: "reachable api b \<Longrightarrow> backend_inv b"
proof (induction rule: reachable.induct)
  case (loaded b refs n b')
  then show ?case using inv_load [of b api refs] by simp
qed (auto simp: close_init inv_init intro: inv_open inv_find inv_unload inv_value_at queries.keep_info queries.keep_offset
    queries.keep_value queries.keep_value_str queries.keep_indices queries.keep_sampled queries.keep_delta queries.keep_change
    queries.keep_scan queries.keep_values queries.keep_typed_values)

lemma reachable_cache_inv:
  assumes "library_laws api paired" "reachable api b"
  shows "cache_inv api paired b"
  using assms(2)
proof (induction rule: reachable.induct)
  case (loaded b refs n b')
  then show ?case using cache_inv_load [OF assms(1), of b refs] by simp
qed (auto simp: close_init cache_inv_init intro: cache_inv_open [OF assms(1)] cache_inv_find cache_inv_unload [OF assms(1)]
    cache_inv_value_at [OF assms(1)] cached.keep_info cached.keep_offset cached.keep_value cached.keep_value_str cached.keep_indices
    cached.keep_sampled cached.keep_delta cached.keep_change cached.keep_scan cached.keep_values cached.keep_typed_values)

end
