(* ===== verification/Wellen_Properties.thy ===== *)
theory Wellen_Properties
  imports Wellen_State
begin

unbundle bit_operations_syntax

text \<open>
  The properties of the waveform backend, and an in-memory implementation of the two C libraries for their
  witnesses.
\<close>

section \<open>Names\<close>

lemma to_lower_idem [simp]: "to_lower (to_lower c) = to_lower c"
proof -
  have "\<not> is_upper (char_of (n + 32))" if "65 \<le> n" "n \<le> 90" for n :: nat
    using that by (simp add: is_upper_def)
  then show ?thesis by (auto simp: to_lower_def is_upper_def)
qed

lemma lowercase_idem [simp]: "lowercase (lowercase s) = lowercase s"
  by (simp add: lowercase_def)

lemma normalize_lowercase: "normalize_path (lowercase p) = normalize_path p"
  by (simp add: normalize_path_def)

lemma normalize_top:
  "take 4 (lowercase p) \<noteq> ''top.'' \<Longrightarrow> take 4 (lowercase pre) = ''top.'' \<Longrightarrow> length pre = 4 \<Longrightarrow>
   normalize_path (pre @ p) = normalize_path p"
  by (simp add: normalize_path_def lowercase_def)

lemma find_signal_cong:
  "normalize_path p = normalize_path q \<Longrightarrow> p \<noteq> [] \<Longrightarrow> q \<noteq> [] \<Longrightarrow> find_signal api p b = find_signal api q b"
proof -
  assume e: "normalize_path p = normalize_path q" and "p \<noteq> []" "q \<noteq> []"
  then have "(p = [] \<or> be_db b = None) = (q = [] \<or> be_db b = None)" by simp
  then show ?thesis unfolding find_signal_def Let_def e by (simp only:)
qed

lemma find_signal_extends:
  assumes "find_signal api path b = (r, b')"
  shows "\<exists>ext. be_packed_selections b' = be_packed_selections b @ ext"
proof (cases "path = [] \<or> be_db b = None")
  case False
  let ?b = "build_signal_index api b" and ?key = "normalize_path path"
  obtain s c where s: "create_packed_selection ?key ?b = (s, c)" by (cases "create_packed_selection ?key ?b")
  obtain s' d where s': "create_packed_selection (drop 4 ?key) c = (s', d)"
    by (cases "create_packed_selection (drop 4 ?key) c")
  have "b' = ?b \<or> b' = c \<or> b' = d"
    using assms False unfolding find_signal_def Let_def by (auto simp: s s' split: option.splits if_splits)
  then show ?thesis using create_fields(10) [OF s] create_fields(10) [OF s'] by auto
qed (use assms in \<open>auto simp: find_signal_def\<close>)

section \<open>Scanning\<close>

text \<open>A reference whose queries leave the state as it is and return the given changes.\<close>

definition settled :: "('d, 'x) capi \<Rightarrow> ('d, 'x) backend \<Rightarrow> u32 \<Rightarrow> (nat \<times> waveform_value) list \<Rightarrow> bool" where
  "settled api b r ch \<longleftrightarrow>
     time_indices_of api r b = (map fst ch, b) \<and>
     (\<forall>i < length ch. signal_typed_value_at api r i 0 b = (Some (snd (ch ! i)), b))"

lemma info_settles:
  assumes "serves (api, b, r)"
  obtains info c where "backend_signal_info api r b = (Some info, c)" "settled api c r (backend_changes (api, b, r))"
    "time_at c = time_at b"
proof (cases "packed_selection_of b r")
  case None
  with assms obtain ch where ch: "native_ok api b r ch" "r AND kVirtualSignalFlag = 0" by (auto simp: serves_def)
  then obtain i where i: "db_signal_info api b r = Some i" by (auto simp: native_ok_def)
  have "native_signal_ref b r = r" using None ch by (simp add: native_signal_ref_def)
  then obtain info where "backend_signal_info api r b = (Some info, b)"
    using i None by (simp add: backend_signal_info_def)
  moreover have "settled api b r ch"
    using None ch by (simp add: settled_def time_indices_of_def native_ok_def signal_typed_value_at_def)
  ultimately show ?thesis using that backend_changes_native [OF None ch(1)] by simp
next
  case (Some sel)
  with assms obtain ch where ch: "packed_ok api b r sel ch" by (auto simp: serves_def)
  obtain l where l: "selected_changes api r b = (l, with_cache r l b)" and pc: "map change_pair l = packed_changes sel ch"
    using ch by (rule selected_changes_eq)
  obtain i where i: "db_signal_info api b (ps_base_ref sel) = Some i"
    using ch by (auto simp: packed_ok_def native_ok_def)
  have "native_signal_ref b r = ps_base_ref sel" using Some by (simp add: native_signal_ref_def)
  then obtain info where "backend_signal_info api r b = (Some info, with_cache r l b)"
    using i Some l by (simp add: backend_signal_info_def Let_def)
  moreover have "settled api (with_cache r l b) r (packed_changes sel ch)"
    using Some by (simp add: settled_def time_indices_of_def signal_typed_value_at_def selected_changes_again
        map_change_pair flip: pc)
  ultimately show ?thesis using that backend_changes_packed(1) [OF ch] by simp
qed

definition in_window :: "nat \<Rightarrow> nat \<Rightarrow> nat \<times> 'v \<Rightarrow> bool" where
  "in_window lo hi c \<longleftrightarrow> lo \<le> fst c \<and> fst c \<le> hi"

definition limited :: "nat \<Rightarrow> 'a list \<Rightarrow> 'a list" where
  "limited limit xs = (if limit = 0 then xs else take limit xs)"

definition row_pair :: "signal_change \<Rightarrow> nat \<times> waveform_value" where
  "row_pair c = (sc_time_idx c, sc_value c)"

lemma scan_loop_eq:
  assumes s: "settled api c r ch"
  shows "k \<le> length ch \<Longrightarrow> map row_pair out = limited limit (filter (in_window lo hi) (take k ch)) \<Longrightarrow>
    cnt = word_of_nat (length (filter (in_window lo hi) (take k ch))) \<Longrightarrow>
    \<exists>out'. scan_loop api r lo hi limit (map fst ch) [k..<length ch] cnt out c =
        (Some (word_of_nat (length (filter (in_window lo hi) ch)), out'), c) \<and>
      map row_pair out' = limited limit (filter (in_window lo hi) ch)"
proof (induction "length ch - k" arbitrary: k cnt out)
  case (Suc m)
  then have k: "k < length ch" by simp
  then have up: "[k..<length ch] = k # [Suc k..<length ch]" by (rule upt_conv_Cons)
  have tk: "take (Suc k) ch = take k ch @ [ch ! k]" using k by (rule take_Suc_conv_app_nth)
  have m: "m = length ch - Suc k" "Suc k \<le> length ch" using Suc.hyps(2) k by simp_all
  have v: "signal_typed_value_at api r k 0 c = (Some (snd (ch ! k)), c)" using s k by (simp add: settled_def)
  have len: "length out = length (limited limit (filter (in_window lo hi) (take k ch)))"
    using Suc.prems(2) by (metis length_map)
  show ?case
  proof (cases "in_window lo hi (ch ! k)")
    case False
    with Suc.hyps(1) [OF m, of out cnt] Suc.prems show ?thesis
      by (auto simp: up tk in_window_def k Let_def)
  next
    case True
    then have w: "\<not> (map fst ch ! k < lo \<or> map fst ch ! k > hi)" using k by (auto simp: in_window_def)
    have cnt: "cnt + 1 = word_of_nat (length (filter (in_window lo hi) (take (Suc k) ch)))"
      using Suc.prems(3) True by (simp add: tk)
    show ?thesis
    proof (cases "limit \<noteq> 0 \<and> length out \<ge> limit")
      case full: True
      then have "map row_pair out = limited limit (filter (in_window lo hi) (take (Suc k) ch))"
        using Suc.prems(2) len True by (auto simp: tk limited_def)
      from Suc.hyps(1) [OF m this cnt] full w show ?thesis by (simp add: up Let_def)
    next
      case room: False
      let ?row = "\<lparr>sc_time_idx = map fst ch ! k, sc_time = time_at c (map fst ch ! k),
        sc_delta = delta_of (map fst ch) k, sc_value = snd (ch ! k)\<rparr>"
      have "limit = 0 \<or> length (filter (in_window lo hi) (take k ch)) < limit"
        using len room by (auto simp: limited_def split: if_splits)
      then have "map row_pair (out @ [?row]) = limited limit (filter (in_window lo hi) (take (Suc k) ch))"
        using Suc.prems(2) True k by (auto simp: tk limited_def row_pair_def take_Cons')
      from Suc.hyps(1) [OF m this cnt] room w v show ?thesis by (auto simp: up Let_def)
    qed
  qed
qed (auto simp: limited_def)


section \<open>An in-memory database\<close>

text \<open>
  A reference implementation of the two C libraries over a list of variables in one scope, with the
  behaviour their headers document. It serves as the concrete parameter of the witnesses.
\<close>

record mem_var =
  mv_name :: string
  mv_width :: u32
  mv_index :: "(int \<times> int) option"
  mv_changes :: "(nat \<times> waveform_value) list"

definition mem_var_at :: "mem_var list \<Rightarrow> u32 \<Rightarrow> mem_var option" where
  "mem_var_at vs r = (if r = 0 \<or> length vs < unat r then None else Some (vs ! (unat r - 1)))"

definition mem_typed_value :: "mem_var list \<Rightarrow> u32 \<Rightarrow> nat \<Rightarrow> u16 \<Rightarrow> nat \<Rightarrow> int \<times> nat \<times> string \<times> double \<times> encoding" where
  "mem_typed_value vs r start el capacity =
     (case mem_var_at vs r of
        None \<Rightarrow> (- 1, 0, [], Double 0, Enc_bitvector)
      | Some v \<Rightarrow>
          if start + unat el < length (mv_changes v) then
            let s = wv_text (snd (mv_changes v ! (start + unat el)))
            in if capacity < length s then (- 2, length s, [], Double 0, Enc_bitvector)
               else (0, length s, s, Double 0, Enc_bitvector)
          else (- 1, 0, [], Double 0, Enc_bitvector))"

definition mem_capi :: "mem_var list \<Rightarrow> u64 list \<Rightarrow> (mem_var list, mem_var list) capi" where
  "mem_capi file tt = \<lparr>c_file_exists = (\<lambda>p. True), c_open = (\<lambda>p. Some file), x_open = (\<lambda>p. Some file),
     c_times = (\<lambda>vs. tt), c_timescale = (\<lambda>vs. Some (1, - 9)),
     c_scope_count = (\<lambda>vs. 1), c_scope_at = (\<lambda>vs i. 1), c_scope_var_count = (\<lambda>vs r. length vs),
     c_scope_var_at = (\<lambda>vs r i. word_of_nat (Suc i)),
     c_var_full_name = (\<lambda>vs r. map_option mv_name (mem_var_at vs r)),
     c_var_name = (\<lambda>vs r. map_option mv_name (mem_var_at vs r)),
     c_var_signal_ref = (\<lambda>vs r. r),
     c_var_encoding = (\<lambda>vs r. (Enc_bitvector, case mem_var_at vs r of Some v \<Rightarrow> mv_width v | None \<Rightarrow> 0)),
     c_var_index = (\<lambda>vs r. case mem_var_at vs r of Some v \<Rightarrow> mv_index v | None \<Rightarrow> None),
     c_load_signals = (\<lambda>vs rs. (int (length rs), vs)), c_unload_signals = (\<lambda>vs rs. vs),
     c_signal_info = (\<lambda>vs r. map_option (\<lambda>v. \<lparr>ri_encoding = Enc_bitvector,
        ri_num_changes = word_of_nat (length (mv_changes v)), ri_max_states = 4, ri_width = mv_width v,
        ri_bytes_per_entry = 1, ri_has_meta_byte = False\<rparr>) (mem_var_at vs r)),
     c_signal_offset_at = (\<lambda>vs r ti. case mem_var_at vs r of Some v \<Rightarrow> offset_in (map fst (mv_changes v)) ti | None \<Rightarrow> None),
     c_typed_value = mem_typed_value,
     x_load_signals = (\<lambda>vs rs. vs), x_unload_signals = (\<lambda>vs rs. vs),
     x_time_indices = (\<lambda>vs r. map_option (\<lambda>v. map fst (mv_changes v)) (mem_var_at vs r))\<rparr>"

definition bits_value :: "string \<Rightarrow> waveform_value" where
  "bits_value s = waveform_value_init\<lparr>wv_text := s\<rparr>"

lemma mem_native_ok:
  assumes "be_db b = Some vs" "be_xdb b = Some vs" "mem_var_at vs r = Some v" "valid_changes (mv_changes v)"
    "\<forall>c \<in> set (mv_changes v). snd c = bits_value (wv_text (snd c))"
  shows "native_ok (mem_capi file tt) b r (mv_changes v)"
proof -
  have "native_typed_value_at (mem_capi file tt) b r start el =
      (if start + unat el < length (mv_changes v) then Some (snd (mv_changes v ! (start + unat el))) else None)" for start el
  proof (cases "start + unat el < length (mv_changes v)")
    case True
    then obtain s where "snd (mv_changes v ! (start + unat el)) = bits_value s"
      using assms(5) nth_mem by blast
    with assms(1,3) True show ?thesis
      by (simp add: native_typed_value_at_def db_typed_value_def mem_capi_def mem_typed_value_def Let_def
          bits_value_def waveform_value_init_def split: if_splits)
  next
    case False
    with assms(1,3) show ?thesis
      by (simp add: native_typed_value_at_def db_typed_value_def mem_capi_def mem_typed_value_def)
  qed
  with assms show ?thesis
    by (simp add: native_ok_def db_signal_info_def native_time_indices_of_def db_offset_at_def mem_capi_def)
qed


section \<open>Properties\<close>

text \<open>
  Claim C1 (refinement). The backend's \<open>sampled_value_at\<close> implements the interface: for a native signal that the C
  libraries serve, and for a packed selection of one, it returns the last change up to and including the time
  index (settled value, for \<open>Raw\<close> and \<open>After\<close>) or strictly before it (for \<open>Before\<close>), and reports a time match
  exactly when the signal changes at that index.
\<close>

theorem sampled_value_observes:
  assumes "serves (api, b, r)"
  shows "map_option sv_value (fst (sampled_value_at api r ti point b)) = observe (backend_changes (api, b, r)) ti point \<and>
    (\<forall>s. fst (sampled_value_at api r ti point b) = Some s \<longrightarrow>
       (sv_time_match s \<longleftrightarrow> ti \<in> set (fst (time_indices_of api r b))))"
  using wellen.sampled_observe [OF assms, of ti point] wellen.sampled_match [OF assms, of ti point] by simp

definition bus_changes :: "(nat \<times> waveform_value) list" where
  "bus_changes = [(0, bits_value ''0000''), (2, bits_value ''0011''), (2, bits_value ''01x1''), (5, bits_value ''0101'')]"

definition bus_var :: mem_var where
  "bus_var = \<lparr>mv_name = ''top.bus'', mv_width = 4, mv_index = Some (3, 0), mv_changes = bus_changes\<rparr>"

definition mem_backend :: "(mem_var list, mem_var list) backend" where
  "mem_backend = backend_init\<lparr>be_db := Some [bus_var], be_xdb := Some [bus_var],
     be_time_table := [0, 10, 20, 30, 40, 50]\<rparr>"

abbreviation mem_api :: "(mem_var list, mem_var list) capi" where
  "mem_api \<equiv> mem_capi [bus_var] [0, 10, 20, 30, 40, 50]"

lemma valid_changes_short:
  "sorted (map fst ch) \<Longrightarrow> length ch < 2 ^ 16 \<Longrightarrow> valid_changes ch"
  unfolding valid_changes_def using le_less_trans [OF length_filter_le] by blast

lemma bus_ok: "valid_changes bus_changes" "\<forall>c \<in> set bus_changes. snd c = bits_value (wv_text (snd c))"
  by (simp_all add: bus_changes_def valid_changes_short bits_value_def)

lemma bus_at: "mem_var_at [bus_var] 1 = Some bus_var" "mv_changes bus_var = bus_changes"
  by (simp_all add: mem_var_at_def bus_var_def)

lemma mem_backend_native: "native_ok mem_api mem_backend 1 bus_changes"
  using mem_native_ok [of mem_backend "[bus_var]" 1 bus_var "[bus_var]" "[0, 10, 20, 30, 40, 50]"] bus_at bus_ok
  by (simp add: mem_backend_def)

lemma mem_serves: "serves (mem_api, mem_backend, 1)"
  using mem_backend_native
  by (auto simp: serves_def packed_selection_of_def kVirtualSignalFlag_def split: option.split)

theorem sampled_value_observes_witness:
  "map_option (wv_text \<circ> sv_value) (fst (sampled_value_at mem_api 1 2 Before mem_backend)) = Some ''0000''"
proof -
  have "backend_changes (mem_api, mem_backend, 1) = bus_changes"
    by (rule backend_changes_native [OF _ mem_backend_native])
      (simp add: packed_selection_of_def kVirtualSignalFlag_def)
  then have "map_option sv_value (fst (sampled_value_at mem_api 1 2 Before mem_backend)) = Some (bits_value ''0000'')"
    using sampled_value_observes [OF mem_serves, of 2 Before] by (simp add: observe_def bus_changes_def)
  then show ?thesis by (auto simp: bits_value_def)
qed

text \<open>
  A packed selection follows its base signal: sampling the virtual signal at any time and
  observation point gives the selected bits of the base signal's value there, although the virtual signal has
  its own, deduplicated list of changes. The text has the width of the selection, and the sampled state serves
  the same selection again.
\<close>

theorem packed_selection_follows_base:
  assumes "packed_ok api b r sel ch"
  shows "map_option sv_value (fst (sampled_value_at api r ti point b)) =
      map_option (\<lambda>v. waveform_value_init\<lparr>wv_text := selected_text sel (wv_text v)\<rparr>) (observe ch ti point) \<and>
    (\<forall>s. length (selected_text sel s) = unat (ps_width sel)) \<and>
    packed_ok api (snd (sampled_value_at api r ti point b)) r sel ch"
proof -
  obtain l where s: "sampled_value_at api r ti point b = (sample_changes (packed_changes sel ch) ti point, with_cache r l b)"
    and l: "map change_pair l = packed_changes sel ch"
    using assms by (rule sampled_packed)
  have ok: "selection_ok sel" "valid_changes ch"
    using assms by (auto simp: packed_ok_def base_ok_def native_ok_def)
  with valid_changes_sample(1) [OF valid_packed_changes [OF ok(2)], of sel ti point]
    observe_packed_changes [of ch sel ti point] packed_ok_with_cache [OF assms l] s
  show ?thesis by (simp add: length_selected_text valid_changes_def)
qed

definition mem_selected :: "(mem_var list, mem_var list) backend" where
  "mem_selected = mem_backend\<lparr>be_packed_selections := [\<lparr>ps_base_ref = 1, ps_declared_msb = 3, ps_declared_lsb = 0,
     ps_selected_msb = 2, ps_selected_lsb = 1, ps_width = 2\<rparr>]\<rparr>"

theorem packed_selection_follows_base_witness:
  "map_option (wv_text \<circ> sv_value) (fst (sampled_value_at mem_api (handle 1) 3 Raw mem_selected)) = Some ''1x''"
proof -
  let ?sel = "\<lparr>ps_base_ref = 1, ps_declared_msb = 3, ps_declared_lsb = 0, ps_selected_msb = 2, ps_selected_lsb = 1, ps_width = 2\<rparr>"
  have sel: "packed_selection_of mem_selected (handle 1) = Some ?sel"
    using packed_selection_handle [of 0 mem_selected] by (simp add: mem_selected_def)
  have n: "native_ok mem_api mem_selected 1 bus_changes"
    using mem_native_ok [of mem_selected "[bus_var]" 1 bus_var "[bus_var]" "[0, 10, 20, 30, 40, 50]"] bus_at bus_ok
    by (simp add: mem_selected_def mem_backend_def)
  have "base_ok ?sel bus_changes"
    by (simp add: bus_changes_def base_ok_def selection_ok_def span_def bits_value_def waveform_value_init_def)
  with sel n have "packed_ok mem_api mem_selected (handle 1) ?sel bus_changes"
    by (simp add: packed_ok_def cache_right_def mem_selected_def mem_backend_def backend_init_def)
  from packed_selection_follows_base [OF this, of 3 Raw]
  have "map_option sv_value (fst (sampled_value_at mem_api (handle 1) 3 Raw mem_selected)) = Some (bits_value ''1x'')"
    by (simp add: bus_changes_def observe_def bits_value_def waveform_value_init_def selected_text_def selected_indices_def bit_offset_def
        upto.simps)
  then show ?thesis by (auto simp: bits_value_def)
qed

text \<open>
  A change scan of a window is exact: it returns the changes of the window in order, cut to
  the limit (0 for none), the total counts all of them, and it is reported truncated exactly when some were cut.
\<close>

theorem scan_changes_exact:
  assumes "serves (api, b, r)" and "lo \<le> hi" and "length (backend_changes (api, b, r)) < 2 ^ 32"
  shows "\<exists>out diag c. scan_changes api r lo hi limit b = (Some (out, diag), c) \<and>
    map row_pair out = limited limit (filter (in_window lo hi) (backend_changes (api, b, r))) \<and>
    unat (sd_total_count diag) = length (filter (in_window lo hi) (backend_changes (api, b, r))) \<and>
    (sd_truncated diag \<longleftrightarrow> limit \<noteq> 0 \<and> limit < length (filter (in_window lo hi) (backend_changes (api, b, r))))"
proof -
  let ?ch = "backend_changes (api, b, r)" let ?w = "filter (in_window lo hi) ?ch"
  obtain info c where i: "backend_signal_info api r b = (Some info, c)" and s: "settled api c r ?ch"
    using assms(1) by (rule info_settles)
  obtain out where out: "scan_loop api r lo hi limit (map fst ?ch) [0..<length ?ch] 0 [] c =
      (Some (word_of_nat (length ?w), out), c)" "map row_pair out = limited limit ?w"
  proof -
    have "map row_pair [] = limited limit (filter (in_window lo hi) (take 0 ?ch))" by (simp add: limited_def)
    from scan_loop_eq [OF s _ this] that show thesis by auto
  qed
  have t: "time_indices_of api r c = (map fst ?ch, c)" using s by (simp add: settled_def)
  have w: "length ?w < 2 ^ 32" using assms(3) le_less_trans [OF length_filter_le] by blast
  have "length out = length (limited limit ?w)" using out(2) by (metis length_map)
  then have le: "length out \<le> length ?w" "length out < length ?w \<longleftrightarrow> limit \<noteq> 0 \<and> limit < length ?w"
    by (auto simp: limited_def)
  have "unat (word_of_nat (length ?w) :: u32) = length ?w" "unat (word_of_nat (length out) :: u32) = length out"
    using w le(1) by (simp_all add: unat_of_nat)
  with i t out le(2) assms(2) show ?thesis
    unfolding scan_changes_def by (auto simp: word_less_nat_alt)
qed

theorem scan_changes_exact_witness:
  "\<exists>out diag c. scan_changes mem_api 1 1 3 1 mem_backend = (Some (out, diag), c) \<and>
     map row_pair out = [(2, bits_value ''0011'')] \<and> unat (sd_total_count diag) = 2 \<and> sd_truncated diag"
proof -
  have "backend_changes (mem_api, mem_backend, 1) = bus_changes"
    by (rule backend_changes_native [OF _ mem_backend_native])
      (simp add: packed_selection_of_def kVirtualSignalFlag_def)
  with scan_changes_exact [OF mem_serves, of 1 3 1]
  have "\<exists>out diag c. scan_changes mem_api 1 1 3 1 mem_backend = (Some (out, diag), c) \<and>
     map row_pair out = [(2, bits_value ''0011'')] \<and> unat (sd_total_count diag) = Suc (Suc 0) \<and> sd_truncated diag"
    by (simp add: bus_changes_def in_window_def limited_def)
  then show ?thesis by (simp only: numeral_2_eq_2)
qed


lemma cache_entry_again:
  assumes "cache_entry_ok api b r l"
  shows "selected_changes api r (b\<lparr>be_change_cache := Map.empty\<rparr>) = (l, b\<lparr>be_change_cache := [r \<mapsto> l]\<rparr>)"
proof -
  let ?c = "b\<lparr>be_change_cache := Map.empty\<rparr>"
  have p: "packed_selection_of ?c r = packed_selection_of b r" by (rule packed_selection_of_cong) simp
  have "cache_entry_ok api ?c r l"
    using assms by (rule cache_entry_keep) (auto simp: p intro: same_source_fields)
  then show ?thesis unfolding cache_entry_ok_def by (auto simp: selected_changes_def)
qed

lemma cache_entry_right:
  assumes "cache_entry_ok api b r l" "packed_selection_of b r = Some sel" "native_ok api b (ps_base_ref sel) ch" "base_ok sel ch"
  shows "map change_pair l = packed_changes sel ch"
proof -
  obtain m where "select_loop api b sel (map fst ch) 0 [] [] = Some m" "map change_pair m = packed_changes sel ch"
    using select_loop_eq [OF assms(3,4), of 0 "[]" "[]"] by (auto simp: packed_changes_def)
  with assms show ?thesis by (auto simp: cache_entry_ok_def native_ok_def)
qed

text \<open>
  Claim C29 (invariant). Take a library that keeps, when signals are loaded, what is readable of those loaded already,
  and, when signals are unloaded, what is readable of the others, with both of its handles in step. In every state the
  backend reaches from its initial one by opening, closing, finding, loading, unloading and querying, a closed backend
  has no residue of an earlier file, the name index is built at most once per opening, and every handle ever given out
  denotes the selection of its path, which lies within the declared range and has the declared width. A list of
  changes is cached only for a packed selection of a loaded signal, and it is right: with an empty cache the
  backend would compute and store the same list, which are the changes of the selected bits.
\<close>

theorem backend_reachable_inv:
  assumes "reachable api b" and "library_laws api paired"
  shows "(be_db b = None \<longrightarrow> b = backend_init) \<and> be_build_count b \<le> 1 \<and>
    (\<forall>p h. be_packed_index b p = Some h \<longrightarrow> (\<exists>sel. packed_selection_of b h = Some sel \<and>
       selection_for b p = Some sel \<and> selection_ok sel)) \<and>
    (\<forall>r l. be_change_cache b r = Some l \<longrightarrow>
       is_loaded api r b \<and> selected_changes api r (b\<lparr>be_change_cache := Map.empty\<rparr>) = (l, b\<lparr>be_change_cache := [r \<mapsto> l]\<rparr>) \<and>
       (\<exists>sel. packed_selection_of b r = Some sel \<and>
          (\<forall>ch. native_ok api b (ps_base_ref sel) ch \<and> base_ok sel ch \<longrightarrow> map change_pair l = packed_changes sel ch)))"
proof (intro conjI allI impI)
  have inv: "backend_inv b" using assms(1) by (rule reachable_inv)
  show "b = backend_init" if "be_db b = None" using that inv by (simp add: backend_inv_def)
  show "be_build_count b \<le> 1" using inv by (simp add: backend_inv_def)
  show "\<exists>sel. packed_selection_of b h = Some sel \<and> selection_for b p = Some sel \<and> selection_ok sel"
    if "be_packed_index b p = Some h" for p h
  proof -
    from that inv obtain i where "i < length (be_packed_selections b)" "h = handle (Suc i)"
      "selection_for b p = Some (be_packed_selections b ! i)" unfolding backend_inv_def by blast
    with inv packed_selection_handle [of i b] selection_for_ok [of b p] show ?thesis
      by (auto simp: backend_inv_def)
  qed
  fix r l assume cached: "be_change_cache b r = Some l"
  have ok: "cache_entry_ok api b r l"
    using reachable_cache_inv [OF assms(2,1)] cached by (simp add: cache_inv_def)
  then show "is_loaded api r b" by (auto simp: cache_entry_ok_def is_loaded_def native_signal_ref_def)
  show "selected_changes api r (b\<lparr>be_change_cache := Map.empty\<rparr>) = (l, b\<lparr>be_change_cache := [r \<mapsto> l]\<rparr>)"
    using ok by (rule cache_entry_again)
  show "\<exists>sel. packed_selection_of b r = Some sel \<and>
      (\<forall>ch. native_ok api b (ps_base_ref sel) ch \<and> base_ok sel ch \<longrightarrow> map change_pair l = packed_changes sel ch)"
    using ok cache_entry_right [OF ok] by (auto simp: cache_entry_ok_def)
qed

text \<open>A library over the same variables that knows only the signals that are loaded, and one life of the backend on it.\<close>

type_synonym lazy_file = "mem_var list \<times> u32 list"

definition lazy_api :: "(lazy_file, lazy_file) capi" where
  "lazy_api = \<lparr>c_file_exists = (\<lambda>p. True), c_open = (\<lambda>p. Some ([bus_var], [])), x_open = (\<lambda>p. Some ([bus_var], [])),
     c_times = (\<lambda>f. [0, 10, 20, 30, 40, 50]), c_timescale = (\<lambda>f. Some (1, - 9)),
     c_scope_count = (\<lambda>f. 1), c_scope_at = (\<lambda>f i. 1), c_scope_var_count = (\<lambda>f r. 1), c_scope_var_at = (\<lambda>f r i. 1),
     c_var_full_name = (\<lambda>f r. Some ''top.bus''), c_var_name = (\<lambda>f r. Some ''bus''), c_var_signal_ref = (\<lambda>f r. r),
     c_var_encoding = (\<lambda>f r. (Enc_bitvector, 4)), c_var_index = (\<lambda>f r. Some (3, 0)),
     c_load_signals = (\<lambda>(vs, ls) rs. (int (length rs), (vs, rs @ ls))),
     c_unload_signals = (\<lambda>(vs, ls) rs. (vs, filter (\<lambda>r. r \<notin> set rs) ls)),
     c_signal_info = (\<lambda>(vs, ls) r. if r \<in> set ls then c_signal_info mem_api vs r else None),
     c_signal_offset_at = (\<lambda>(vs, ls) r ti. if r \<in> set ls then c_signal_offset_at mem_api vs r ti else None),
     c_typed_value = (\<lambda>(vs, ls) r start el capacity. mem_typed_value (if r \<in> set ls then vs else []) r start el capacity),
     x_load_signals = (\<lambda>(vs, ls) rs. (vs, rs @ ls)), x_unload_signals = (\<lambda>(vs, ls) rs. (vs, filter (\<lambda>r. r \<notin> set rs) ls)),
     x_time_indices = (\<lambda>(vs, ls) r. if r \<in> set ls then x_time_indices mem_api vs r else None)\<rparr>"

lemma lazy_laws: "library_laws lazy_api (=)"
  by (auto simp: library_laws_def same_signal_def lazy_api_def mem_capi_def fun_eq_iff)

definition lazy_index :: "(lazy_file, lazy_file) backend" where
  "lazy_index = build_signal_index lazy_api (snd (open_backend lazy_api ''a.fst'' backend_init))"

definition lazy_found :: "(lazy_file, lazy_file) backend" where
  "lazy_found = lazy_index\<lparr>be_packed_selections := [the (selection_for lazy_index ''bus[2:1]'')], be_packed_index := [''bus[2:1]'' \<mapsto> handle 1]\<rparr>"

lemma lazy_find: "find_signal lazy_api ''bus[2:1]'' (snd (open_backend lazy_api ''a.fst'' backend_init)) = (handle 1, lazy_found)"
proof -
  have o: "be_db (snd (open_backend lazy_api ''a.fst'' backend_init)) \<noteq> None" by code_simp
  have k: "normalize_path ''bus[2:1]'' = ''bus[2:1]''" by code_simp
  have e: "be_packed_selections lazy_index = []" "be_packed_index lazy_index = Map.empty"
    by (simp_all add: lazy_index_def open_backend_def close_init backend_init_def has_fst_suffix_def lazy_api_def)
  have i: "be_signal_index lazy_index ''bus[2:1]'' = None" by code_simp
  have "selection_for lazy_index ''bus[2:1]'' \<noteq> None" by code_simp
  then have c: "create_packed_selection ''bus[2:1]'' lazy_index = (handle 1, lazy_found)"
    unfolding create_eq by (auto simp: e lazy_found_def)
  show ?thesis
    unfolding find_signal_def k Let_def lazy_index_def [symmetric] using o handle_nonzero [of 1]
    by (auto simp: i c kInvalidSignalRef_def split: option.splits)
qed

definition lazy_read :: "(lazy_file, lazy_file) backend" where
  "lazy_read = snd (time_indices_of lazy_api (handle 1) (snd (load_signals lazy_api [handle 1] lazy_found)))"

lemma lazy_reachable: "reachable lazy_api lazy_read" "reachable lazy_api (unload_signals lazy_api [handle 1] lazy_read)"
proof -
  have "reachable lazy_api (snd (open_backend lazy_api ''a.fst'' backend_init))"
    by (rule reachable.opened [OF reachable.init]) (rule prod.collapse [symmetric])
  then have "reachable lazy_api lazy_found" using lazy_find by (rule reachable.found)
  then have "reachable lazy_api (snd (load_signals lazy_api [handle 1] lazy_found))"
    by (rule reachable.loaded) (rule prod.collapse [symmetric])
  then show "reachable lazy_api lazy_read" unfolding lazy_read_def
    by (rule reachable.indices) (rule prod.collapse [symmetric])
  then show "reachable lazy_api (unload_signals lazy_api [handle 1] lazy_read)" by (rule reachable.unloaded)
qed

theorem backend_reachable_inv_witness:
  "\<exists>l. be_change_cache lazy_read (handle 1) = Some l \<and> length l = 4 \<and>
     selected_changes lazy_api (handle 1) (lazy_read\<lparr>be_change_cache := Map.empty\<rparr>) =
       (l, lazy_read\<lparr>be_change_cache := [handle 1 \<mapsto> l]\<rparr>) \<and>
     be_change_cache (unload_signals lazy_api [handle 1] lazy_read) (handle 1) = None"
proof -
  have "length (the (be_change_cache lazy_read (handle 1))) = 4 \<and> be_change_cache lazy_read (handle 1) \<noteq> None" by code_simp
  then obtain l where l: "be_change_cache lazy_read (handle 1) = Some l" "length l = 4" by auto
  have "\<not> is_loaded lazy_api (handle 1) (unload_signals lazy_api [handle 1] lazy_read)" by code_simp
  then have "be_change_cache (unload_signals lazy_api [handle 1] lazy_read) (handle 1) = None"
    using backend_reachable_inv [OF lazy_reachable(2) lazy_laws] by (metis not_None_eq)
  with l backend_reachable_inv [OF lazy_reachable(1) lazy_laws] show ?thesis by blast
qed

text \<open>
  Finding a signal is idempotent and stable: asking again for the same path returns the same
  reference and changes nothing, every packed selection handed out before still denotes the same bits, and the
  answer does not depend on letter case nor on one leading \<open>TOP.\<close> in front of a path that has none.
\<close>

theorem find_signal_stable:
  assumes "find_signal api path b = (r, b')"
  shows "find_signal api path b' = (r, b') \<and>
    (\<forall>h sel. packed_selection_of b h = Some sel \<longrightarrow> packed_selection_of b' h = Some sel) \<and>
    find_signal api (lowercase path) b = (r, b') \<and>
    (path \<noteq> [] \<and> take 4 (lowercase path) \<noteq> ''top.'' \<longrightarrow> find_signal api (''TOP.'' @ path) b = (r, b'))"
proof (intro conjI allI impI)
  show "find_signal api path b' = (r, b')" using assms by (rule find_signal_again)
  show "find_signal api (lowercase path) b = (r, b')"
    using assms find_signal_cong [OF normalize_lowercase [of path], of api b]
    by (cases "path = []") (simp_all add: lowercase_def)
  show "find_signal api (''TOP.'' @ path) b = (r, b')" if "path \<noteq> [] \<and> take 4 (lowercase path) \<noteq> ''top.''"
  proof -
    have "take 4 (lowercase ''TOP.'') = ''top.''" by code_simp
    with that have "normalize_path (''TOP.'' @ path) = normalize_path path" by (intro normalize_top) simp_all
    from find_signal_cong [OF this, of api b] that assms show ?thesis by simp
  qed
  fix h sel assume "packed_selection_of b h = Some sel"
  then show "packed_selection_of b' h = Some sel"
    using find_signal_extends [OF assms] packed_selection_of_extend by blast
qed

theorem find_signal_stable_witness:
  "find_signal mem_api ''TOP.BUS[2:1]'' mem_backend = find_signal mem_api ''BUS[2:1]'' mem_backend"
proof -
  obtain r b where f: "find_signal mem_api ''BUS[2:1]'' mem_backend = (r, b)" by fastforce
  have "take 4 (lowercase ''BUS[2:1]'') \<noteq> ''top.''" by code_simp
  with find_signal_stable [OF f] f show ?thesis by simp
qed

text \<open>
  The binary search for a time finds the largest index whose time is not after it: in a sorted
  time table, from the first time on, the table's time at the index is at most \<open>t\<close> and every later one is
  greater; before the first time the index is 0.
\<close>

theorem time_idx_of_largest:
  assumes "sorted (be_time_table b)" and "be_time_table b \<noteq> []"
  shows "(min_time b \<le> t \<longrightarrow> time_idx_of b t < time_count b \<and> time_at b (time_idx_of b t) \<le> t) \<and>
    (\<forall>j. time_idx_of b t < j \<and> j < time_count b \<longrightarrow> t < time_at b j) \<and>
    (t < min_time b \<longrightarrow> time_idx_of b t = 0)"
proof -
  let ?ts = "be_time_table b" let ?k = "length (filter (\<lambda>x. x \<le> t) ?ts)"
  have gt: "i < length ?ts \<Longrightarrow> t < ?ts ! i \<longleftrightarrow> ?k \<le> i" for i
    using sorted_filter_le_length(2) [OF assms(1)] .
  have idx: "time_idx_of b t = ?k - 1"
    using assms upper_bound_sorted [OF assms(1), of t] by (simp add: time_idx_of_def)
  have k: "?k \<le> length ?ts" by simp
  have "?k = 0 \<longleftrightarrow> t < min_time b"
    using gt [of 0] assms(2) by (auto simp: min_time_def hd_conv_nth)
  moreover have "\<not> t < ?ts ! (?k - 1) \<and> ?k - 1 < length ?ts" if "0 < ?k"
  proof -
    from that k have l: "?k - 1 < length ?ts" "\<not> ?k \<le> ?k - 1" by linarith+
    with gt [OF l(1)] show ?thesis by blast
  qed
  ultimately show ?thesis
    using gt k unfolding idx time_at_def time_count_def by (auto simp: not_less not_le)
qed

theorem time_idx_of_largest_witness:
  "time_at mem_backend (time_idx_of mem_backend 25) \<le> 25 \<and> time_idx_of mem_backend 25 < 6"
proof -
  have "sorted (be_time_table mem_backend)" "be_time_table mem_backend \<noteq> []" "min_time mem_backend \<le> 25"
    "time_count mem_backend = 6"
    by (simp_all add: mem_backend_def min_time_def time_count_def)
  then show ?thesis using time_idx_of_largest [of mem_backend 25] by auto
qed

end
