(* ===== verification/Clock_Sampling.thy ===== *)
theory Clock_Sampling
  imports Wellen_Properties
begin

text \<open>
  Clock-edge sampling, \<open>waveform/clock_sampling.{h,cpp}\<close>: the edge list of a clock, the values before, at and after
  an edge, and the scan of a window. The facts about edges are proved once from \<open>waveform_contract\<close>, in its
  context, and used through the interpretation on the waveform backend.
\<close>

section \<open>Point values\<close>

record point_values =
  pv_before :: string
  pv_middle :: string
  pv_after :: string
  pv_middle_match :: bool
  pv_has_before :: bool
  pv_has_after :: bool

definition point_values_init :: point_values where
  "point_values_init = \<lparr>pv_before = [], pv_middle = [], pv_after = [], pv_middle_match = False,
     pv_has_before = False, pv_has_after = False\<rparr>"

text \<open>\<open>value_text\<close> renders a value; \<open>show_real\<close> is \<open>std::to_string\<close> of a \<open>double\<close>.\<close>

definition read_point_values :: "(double \<Rightarrow> string) \<Rightarrow> waveform \<Rightarrow> signal_ref \<Rightarrow> nat \<Rightarrow> point_values" where
  "read_point_values show_real wave signal_ref time_idx =
     (case wf_sampled_value_at wave signal_ref time_idx Raw of
        None \<Rightarrow> point_values_init
      | Some sampled \<Rightarrow>
          let out = point_values_init\<lparr>pv_middle := value_text show_real (sv_value sampled),
                      pv_middle_match := sv_time_match sampled\<rparr>;
              out = (case wf_sampled_value_at wave signal_ref time_idx Before of
                       Some s \<Rightarrow> out\<lparr>pv_before := value_text show_real (sv_value s), pv_has_before := True\<rparr>
                     | None \<Rightarrow> out)
          in case wf_sampled_value_at wave signal_ref time_idx After of
               Some s \<Rightarrow> out\<lparr>pv_after := value_text show_real (sv_value s), pv_has_after := True\<rparr>
             | None \<Rightarrow> out)"

section \<open>The scanner\<close>

definition is_rising_edge :: "string \<Rightarrow> string \<Rightarrow> bool" where
  "is_rising_edge prev cur \<longleftrightarrow> prev \<noteq> [] \<and> cur \<noteq> [] \<and> last prev = CHR ''0'' \<and> last cur = CHR ''1''"

definition is_falling_edge :: "string \<Rightarrow> string \<Rightarrow> bool" where
  "is_falling_edge prev cur \<longleftrightarrow> prev \<noteq> [] \<and> cur \<noteq> [] \<and> last prev = CHR ''1'' \<and> last cur = CHR ''0''"

definition wanted_edge :: "bool \<Rightarrow> bool \<Rightarrow> string \<Rightarrow> string \<Rightarrow> bool" where
  "wanted_edge rising falling prev cur \<longleftrightarrow>
     (rising \<and> is_rising_edge prev cur) \<or> (falling \<and> is_falling_edge prev cur)"

text \<open>
  The loop of the constructor: the change times still to visit, the last time visited (initially
  \<open>UINT32_MAX\<close>), the last value seen, the edges found.
\<close>

fun edge_loop :: "(nat \<Rightarrow> sampled_value option) \<Rightarrow> bool \<Rightarrow> bool \<Rightarrow> nat list \<Rightarrow> nat \<Rightarrow> string \<Rightarrow> nat list \<Rightarrow> nat list" where
  "edge_loop sample rising falling [] previous_ti prev edges = edges"
| "edge_loop sample rising falling (ti # ts) previous_ti prev edges =
     (if ti = previous_ti then edge_loop sample rising falling ts previous_ti prev edges
      else case sample ti of
             None \<Rightarrow> edge_loop sample rising falling ts ti prev edges
           | Some s \<Rightarrow>
               let cur = wv_text (sv_value s)
               in edge_loop sample rising falling ts ti cur
                    (if prev \<noteq> [] \<and> wanted_edge rising falling prev cur then edges @ [ti] else edges))"

record clock_sample_scanner =
  cs_wave :: waveform
  cs_clk_ref :: signal_ref
  cs_target_ref :: signal_ref
  cs_rising :: bool
  cs_falling :: bool
  cs_edge_indices :: "nat list"

definition clock_sample_scanner_new :: "waveform \<Rightarrow> signal_ref \<Rightarrow> signal_ref \<Rightarrow> bool \<Rightarrow> bool \<Rightarrow> clock_sample_scanner" where
  "clock_sample_scanner_new wave clk target rising falling =
     \<lparr>cs_wave = wave, cs_clk_ref = clk, cs_target_ref = target, cs_rising = rising, cs_falling = falling,
      cs_edge_indices = edge_loop (\<lambda>ti. wf_sampled_value_at wave clk ti Raw) rising falling
        (wf_time_indices_of wave clk) (2 ^ 32 - 1) [] []\<rparr>"

record clock_sample =
  sm_time_idx :: nat
  sm_time :: u64
  sm_before :: string
  sm_middle :: string
  sm_after :: string
  sm_changed_at_edge :: bool

definition sample_edge :: "(double \<Rightarrow> string) \<Rightarrow> clock_sample_scanner \<Rightarrow> nat \<Rightarrow> clock_sample option" where
  "sample_edge show_real sc ti =
     (let point = read_point_values show_real (cs_wave sc) (cs_target_ref sc) ti
      in if pv_middle point = [] then None
         else Some \<lparr>sm_time_idx = ti, sm_time = wf_time_at (cs_wave sc) ti, sm_before = pv_before point,
                sm_middle = pv_middle point, sm_after = pv_after point,
                sm_changed_at_edge = (pv_middle_match point \<and> pv_has_before point \<and> pv_before point \<noteq> pv_after point)\<rparr>)"

text \<open>The samples appended and their number.\<close>

definition scan_clock ::
  "(double \<Rightarrow> string) \<Rightarrow> clock_sample_scanner \<Rightarrow> nat \<Rightarrow> nat \<Rightarrow> clock_sample list \<Rightarrow> nat \<times> clock_sample list" where
  "scan_clock show_real sc lo hi out =
     (let out' = out @ List.map_filter (sample_edge show_real sc)
            (filter (\<lambda>ti. \<not> (ti < lo \<or> ti > hi)) (cs_edge_indices sc))
      in (length out' - length out, out'))"

section \<open>Edges against the contract\<close>

definition text_of :: "sampled_value option \<Rightarrow> string" where
  "text_of s = (case s of Some s \<Rightarrow> wv_text (sv_value s) | None \<Rightarrow> [])"

lemma text_of_cong: "map_option sv_value s = map_option sv_value s' \<Longrightarrow> text_of s = text_of s'"
  by (cases s; cases s') (auto simp: text_of_def)

context waveform_contract
begin

lemma before_next:
  assumes "valid r" "\<forall>t \<in> set (indices r). t < ti \<longleftrightarrow> t \<le> p"
  shows "text_of (sampled r ti Before) = text_of (sampled r p Raw)"
proof (rule text_of_cong)
  have "\<forall>c \<in> set (changes r). fst c < ti \<longleftrightarrow> fst c \<le> p"
    using assms(2) by (simp add: indices_changes [OF assms(1)])
  then have "filter (\<lambda>(t, v). t < ti) (changes r) = filter (\<lambda>(t, v). t \<le> p) (changes r)"
    by (intro filter_cong refl) auto
  then show "map_option sv_value (sampled r ti Before) = map_option sv_value (sampled r p Raw)"
    using assms(1) by (simp add: sampled_observe observe_def)
qed

lemma before_first:
  assumes "valid r" "\<forall>t \<in> set (indices r). ti \<le> t"
  shows "text_of (sampled r ti Before) = []"
proof -
  have "\<forall>c \<in> set (changes r). \<not> fst c < ti"
    using assms(2) by (auto simp: indices_changes [OF assms(1)] not_less)
  then have "filter (\<lambda>(t, v). t < ti) (changes r) = []" by (auto simp: filter_empty_conv)
  then have "sampled r ti Before = None"
    using sampled_observe [OF assms(1), of ti Before] by (simp add: observe_def)
  then show ?thesis by (simp add: text_of_def)
qed

lemma edge_loop_filter:
  assumes v: "valid r"
  shows "indices r = seen @ p # ts \<Longrightarrow>
    edge_loop (\<lambda>ti. sampled r ti Raw) rising falling ts p (text_of (sampled r p Raw)) edges =
      edges @ filter (\<lambda>ti. wanted_edge rising falling (text_of (sampled r ti Before)) (text_of (sampled r ti Raw)))
        (tl (remdups_adj (p # ts)))"
proof (induction ts arbitrary: seen p edges)
  case (Cons ti ts)
  have srt: "sorted (seen @ p # ti # ts)"
    using changes_sorted [OF v] indices_changes [OF v] Cons.prems by simp
  have next_seen: "indices r = (seen @ [p]) @ ti # ts" using Cons.prems by simp
  show ?case
  proof (cases "ti = p")
    case True
    with Cons.IH [OF next_seen] show ?thesis by simp
  next
    case False
    then have "\<forall>t \<in> set (indices r). t < ti \<longleftrightarrow> t \<le> p"
      using srt by (auto simp: Cons.prems sorted_append)
    then have b: "text_of (sampled r ti Before) = text_of (sampled r p Raw)" by (rule before_next [OF v])
    obtain s where s: "sampled r ti Raw = Some s" using raw_defined [OF v, of ti] Cons.prems by auto
    obtain us where us: "remdups_adj (ti # ts) = ti # us" by (metis remdups_adj_Cons_alt)
    show ?thesis
      using False s b Cons.IH [OF next_seen]
      by (auto simp: us text_of_def Let_def wanted_edge_def is_rising_edge_def is_falling_edge_def)
  qed
qed simp

lemma edges_are_filtered:
  assumes v: "valid r" and small: "\<forall>t \<in> set (indices r). t < 2 ^ 32 - 1"
  shows "edge_loop (\<lambda>ti. sampled r ti Raw) rising falling (indices r) (2 ^ 32 - 1) [] [] =
    filter (\<lambda>ti. wanted_edge rising falling (text_of (sampled r ti Before)) (text_of (sampled r ti Raw)))
      (remdups_adj (indices r))"
proof (cases "indices r")
  case (Cons ti ts)
  have "sorted (ti # ts)" using changes_sorted [OF v] indices_changes [OF v] Cons by simp
  then have "text_of (sampled r ti Before) = []" by (intro before_first [OF v]) (auto simp: Cons)
  moreover obtain s where s: "sampled r ti Raw = Some s" using raw_defined [OF v, of ti] Cons by auto
  moreover have "ti \<noteq> 2 ^ 32 - 1" using small Cons by auto
  moreover obtain us where us: "remdups_adj (ti # ts) = ti # us" by (metis remdups_adj_Cons_alt)
  ultimately show ?thesis
    using edge_loop_filter [OF v, of "[]" ti ts rising falling "[]"] Cons
    by (auto simp: text_of_def Let_def wanted_edge_def is_rising_edge_def is_falling_edge_def)
qed simp

lemma edge_times_increase: "valid r \<Longrightarrow> sorted_wrt (<) (remdups_adj (indices r))"
  using changes_sorted [of r] indices_changes [of r] by (simp add: remdups_adj_increasing)

end


definition shown :: "(double \<Rightarrow> string) \<Rightarrow> sampled_value option \<Rightarrow> string" where
  "shown show_real s = (case s of Some v \<Rightarrow> value_text show_real (sv_value v) | None \<Rightarrow> [])"

lemma shown_cong: "map_option sv_value s = map_option sv_value s' \<Longrightarrow> shown show_real s = shown show_real s'"
  by (cases s; cases s') (auto simp: shown_def)

lemma read_point_fields:
  assumes "wf_sampled_value_at wave r ti Raw = Some m"
  shows "pv_middle (read_point_values show_real wave r ti) = shown show_real (Some m)"
    "pv_before (read_point_values show_real wave r ti) = shown show_real (wf_sampled_value_at wave r ti Before)"
    "pv_after (read_point_values show_real wave r ti) = shown show_real (wf_sampled_value_at wave r ti After)"
    "pv_middle_match (read_point_values show_real wave r ti) = sv_time_match m"
    "pv_has_before (read_point_values show_real wave r ti) \<longleftrightarrow> wf_sampled_value_at wave r ti Before \<noteq> None"
  using assms
  by (auto simp: read_point_values_def shown_def point_values_init_def Let_def split: option.split)

lemma read_point_none: "wf_sampled_value_at wave r ti Raw = None \<Longrightarrow> pv_middle (read_point_values show_real wave r ti) = []"
  by (simp add: read_point_values_def point_values_init_def)

section \<open>Properties\<close>

text \<open>The interface record of a backend in a given state.\<close>

definition backend_waveform :: "('d, 'x) capi \<Rightarrow> ('d, 'x) backend \<Rightarrow> waveform" where
  "backend_waveform api b = \<lparr>wf_time_at = time_at b, wf_find_signal = (\<lambda>p. fst (find_signal api p b)),
     wf_signal_info = (\<lambda>r. fst (backend_signal_info api r b)),
     wf_sampled_value_at = (\<lambda>r ti point. fst (sampled_value_at api r ti point b)),
     wf_time_indices_of = (\<lambda>r. fst (time_indices_of api r b))\<rparr>"

text \<open>
  Claim C2 (functional). The scanner finds exactly the clock edges: on the waveform backend, its edge list is strictly
  increasing and holds the time indices at which the clock's settled value changes in the wanted direction, a
  known 0 to a known 1 or back, from the value immediately before that time. Glitches within one time and
  transitions from or to X and Z are no edges.
\<close>

theorem clock_edges_exact:
  assumes "serves (api, b, clk)" and "\<forall>t \<in> set (fst (time_indices_of api clk b)). t < 2 ^ 32 - 1"
  shows "let edges = cs_edge_indices (clock_sample_scanner_new (backend_waveform api b) clk tgt rising falling)
    in sorted_wrt (<) edges \<and>
       (\<forall>ti. ti \<in> set edges \<longleftrightarrow> ti \<in> set (fst (time_indices_of api clk b)) \<and>
          wanted_edge rising falling (text_of (fst (sampled_value_at api clk ti Before b)))
            (text_of (fst (sampled_value_at api clk ti Raw b))))"
proof -
  have "cs_edge_indices (clock_sample_scanner_new (backend_waveform api b) clk tgt rising falling) =
    filter (\<lambda>ti. wanted_edge rising falling (text_of (fst (sampled_value_at api clk ti Before b)))
        (text_of (fst (sampled_value_at api clk ti Raw b))))
      (remdups_adj (fst (time_indices_of api clk b)))"
    using wellen.edges_are_filtered [OF assms(1), of rising falling] assms(2)
    by (simp add: clock_sample_scanner_new_def backend_waveform_def)
  moreover have "sorted_wrt (<) (remdups_adj (fst (time_indices_of api clk b)))"
    using wellen.edge_times_increase [OF assms(1)] by simp
  ultimately show ?thesis by (auto simp: Let_def intro: sorted_wrt_filter)
qed

definition clk_changes :: "(nat \<times> waveform_value) list" where
  "clk_changes = [(0, bits_value ''0''), (1, bits_value ''1''), (2, bits_value ''0''), (2, bits_value ''x''), (3, bits_value ''1'')]"

definition clk_var :: mem_var where
  "clk_var = \<lparr>mv_name = ''top.clk'', mv_width = 1, mv_index = None, mv_changes = clk_changes\<rparr>"

definition clk_backend :: "(mem_var list, mem_var list) backend" where
  "clk_backend = mem_backend\<lparr>be_db := Some [clk_var], be_xdb := Some [clk_var]\<rparr>"

lemma clk_native: "native_ok mem_api clk_backend 1 clk_changes"
proof -
  have "valid_changes clk_changes" "\<forall>c \<in> set clk_changes. snd c = bits_value (wv_text (snd c))"
    by (simp_all add: clk_changes_def valid_changes_short bits_value_def)
  moreover have "mem_var_at [clk_var] 1 = Some clk_var" "mv_changes clk_var = clk_changes"
    by (simp_all add: mem_var_at_def clk_var_def)
  ultimately show ?thesis
    using mem_native_ok [of clk_backend "[clk_var]" 1 clk_var "[bus_var]" "[0, 10, 20, 30, 40, 50]"]
    by (simp add: clk_backend_def)
qed

lemma clk_serves: "serves (mem_api, clk_backend, 1)" "fst (time_indices_of mem_api 1 clk_backend) = [0, 1, 2, 2, 3]"
proof -
  have p: "packed_selection_of clk_backend 1 = None" by (simp add: packed_selection_of_def kVirtualSignalFlag_def)
  then show "serves (mem_api, clk_backend, 1)" using clk_native by (auto simp: serves_def kVirtualSignalFlag_def)
  show "fst (time_indices_of mem_api 1 clk_backend) = [0, 1, 2, 2, 3]"
    using p clk_native by (simp add: time_indices_of_def native_ok_def clk_changes_def)
qed

theorem clock_edges_exact_witness:
  "sorted_wrt (<) (cs_edge_indices (clock_sample_scanner_new (backend_waveform mem_api clk_backend) 1 1 True False)) \<and>
   0 \<notin> set (cs_edge_indices (clock_sample_scanner_new (backend_waveform mem_api clk_backend) 1 1 True False))"
proof -
  have "\<forall>t \<in> set (fst (time_indices_of mem_api 1 clk_backend)). t < 2 ^ 32 - 1" by (simp add: clk_serves(2))
  note edges = clock_edges_exact [OF clk_serves(1) this, of 1 True False]
  have "text_of (fst (sampled_value_at mem_api 1 0 Before clk_backend)) = []"
    using wellen.before_first [OF clk_serves(1), of 0] by simp
  with edges show ?thesis by (auto simp: Let_def wanted_edge_def is_rising_edge_def is_falling_edge_def)
qed

text \<open>
  A clock sample says what it means to: its middle and after values are both the settled
  value at the edge, its before value is the settled value one time index earlier, and it is marked changed at
  the edge exactly when the target has an earlier value and that value renders differently.
\<close>

theorem clock_sample_consistent:
  assumes "serves (api, b, tgt)"
    and "sample_edge show_real (clock_sample_scanner_new (backend_waveform api b) clk tgt rising falling) ti = Some s"
  shows "sm_after s = sm_middle s \<and>
    (0 < ti \<longrightarrow> sm_before s = shown show_real (fst (sampled_value_at api tgt (ti - 1) Raw b))) \<and>
    (sm_changed_at_edge s \<longleftrightarrow>
       fst (sampled_value_at api tgt ti Before b) \<noteq> None \<and> sm_before s \<noteq> sm_after s)"
proof -
  let ?S = "\<lambda>ti point. fst (sampled_value_at api tgt ti point b)"
  let ?tx = "shown show_real"
  let ?w = "backend_waveform api b"
  have w: "wf_sampled_value_at ?w tgt ti point = ?S ti point" for ti point by (simp add: backend_waveform_def)
  have sc: "cs_wave (clock_sample_scanner_new ?w clk tgt rising falling) = ?w"
    "cs_target_ref (clock_sample_scanner_new ?w clk tgt rising falling) = tgt"
    by (simp_all add: clock_sample_scanner_new_def)
  have "?S ti Raw \<noteq> None"
  proof
    assume "?S ti Raw = None"
    then have "pv_middle (read_point_values show_real ?w tgt ti) = []" using read_point_none [of ?w tgt ti] w by simp
    with assms(2) show False unfolding sample_edge_def sc Let_def by simp
  qed
  then obtain m where m: "?S ti Raw = Some m" by auto
  have ra: "map_option sv_value (?S ti After) = map_option sv_value (?S ti Raw)"
    using wellen.raw_after [OF assms(1), of ti] by simp
  have fields: "sm_middle s = ?tx (?S ti Raw)" "sm_after s = ?tx (?S ti After)" "sm_before s = ?tx (?S ti Before)"
    "sm_changed_at_edge s \<longleftrightarrow> sv_time_match m \<and> ?S ti Before \<noteq> None \<and> ?tx (?S ti Before) \<noteq> ?tx (?S ti After)"
    using assms(2) read_point_fields [of ?w tgt ti m show_real] m unfolding sample_edge_def sc w Let_def
    by (auto split: if_splits)
  have "?tx (?S ti Before) = ?tx (?S ti After)" if "\<not> sv_time_match m"
  proof -
    have "ti \<notin> set (fst (time_indices_of api tgt b))"
      using wellen.sampled_match [OF assms(1), of ti Raw m] m that by simp
    then have "map_option sv_value (?S ti Before) = map_option sv_value (?S ti Raw)"
      using wellen.before_between [OF assms(1), of ti] by simp
    with ra show ?thesis by (intro shown_cong) simp
  qed
  moreover have "?tx (?S ti Before) = ?tx (?S (ti - 1) Raw)" if "0 < ti"
    using wellen.before_is_previous [OF assms(1) that] by (intro shown_cong) simp
  moreover have "?tx (?S ti After) = ?tx (?S ti Raw)" using ra by (rule shown_cong)
  ultimately show ?thesis using fields by auto
qed

theorem clock_sample_consistent_witness:
  "\<exists>s. sample_edge (\<lambda>d. []) (clock_sample_scanner_new (backend_waveform mem_api clk_backend) 1 1 True False) 1 = Some s \<and>
     sm_after s = sm_middle s"
proof -
  have c: "backend_changes (mem_api, clk_backend, 1) = clk_changes"
    by (rule backend_changes_native [OF _ clk_native]) (simp add: packed_selection_of_def kVirtualSignalFlag_def)
  have "map_option sv_value (fst (sampled_value_at mem_api 1 1 Raw clk_backend)) = Some (bits_value ''1'')"
    using wellen.sampled_observe [OF clk_serves(1), of 1 Raw] c by (simp add: observe_def clk_changes_def)
  then obtain m where "fst (sampled_value_at mem_api 1 1 Raw clk_backend) = Some m" "sv_value m = bits_value ''1''" by auto
  then have m: "wf_sampled_value_at (backend_waveform mem_api clk_backend) 1 1 Raw = Some m"
    "shown (\<lambda>d. []) (Some m) = ''1''"
    by (simp_all add: backend_waveform_def shown_def value_text_def bits_value_def waveform_value_init_def)
  then obtain s where s: "sample_edge (\<lambda>d. []) (clock_sample_scanner_new (backend_waveform mem_api clk_backend) 1 1 True False) 1 = Some s"
    using read_point_fields(1) [OF m(1), of "\<lambda>d. []"] by (simp add: sample_edge_def clock_sample_scanner_new_def Let_def)
  from clock_sample_consistent [OF clk_serves(1) this] s show ?thesis by auto
qed

end
