(* ===== verification/Ordered_Map.thy ===== *)
theory Ordered_Map
  imports Cxx_Prelude "HOL-Library.List_Lexorder" "HOL-Library.Char_ord"
begin

text \<open>
  \<open>std::map<std::string, V>\<close> as the managers use it: \<open>find\<close>, \<open>operator[]\<close> with assignment, \<open>erase\<close> and iteration in
  key order. The map is the list of its entries by strictly increasing key, strings being compared byte by byte.
  The locale \<open>ordered_map\<close> is what a client may rely on; \<open>named_registry\<close> is the contract that the session's
  registries of named things share.
\<close>

type_synonym ('k, 'v) omap = "('k \<times> 'v) list"

fun omap_find :: "'k::linorder \<Rightarrow> ('k, 'v) omap \<Rightarrow> 'v option" where
  "omap_find k [] = None"
| "omap_find k ((l, w) # m) = (if k = l then Some w else omap_find k m)"

fun omap_set :: "'k::linorder \<Rightarrow> 'v \<Rightarrow> ('k, 'v) omap \<Rightarrow> ('k, 'v) omap" where
  "omap_set k v [] = [(k, v)]"
| "omap_set k v ((l, w) # m) =
     (if k < l then (k, v) # (l, w) # m else if k = l then (k, v) # m else (l, w) # omap_set k v m)"

fun omap_erase :: "'k::linorder \<Rightarrow> ('k, 'v) omap \<Rightarrow> ('k, 'v) omap" where
  "omap_erase k [] = []"
| "omap_erase k ((l, w) # m) = (if k = l then m else (l, w) # omap_erase k m)"

definition omap_ok :: "('k::linorder, 'v) omap \<Rightarrow> bool" where
  "omap_ok m \<longleftrightarrow> sorted_wrt (<) (map fst m)"

section \<open>The contract of an ordered map\<close>

locale ordered_map =
  fixes ok :: "'m \<Rightarrow> bool"
    and find :: "'k::linorder \<Rightarrow> 'm \<Rightarrow> 'v option"
    and assign :: "'k \<Rightarrow> 'v \<Rightarrow> 'm \<Rightarrow> 'm"
    and erase :: "'k \<Rightarrow> 'm \<Rightarrow> 'm"
    and entries :: "'m \<Rightarrow> ('k \<times> 'v) list"
  assumes find_assign: "ok m \<Longrightarrow> find l (assign k v m) = (if l = k then Some v else find l m)"
    and find_erase: "ok m \<Longrightarrow> find l (erase k m) = (if l = k then None else find l m)"
    and ok_assign: "ok m \<Longrightarrow> ok (assign k v m)"
    and ok_erase: "ok m \<Longrightarrow> ok (erase k m)"
    and entries_sorted: "ok m \<Longrightarrow> sorted_wrt (<) (map fst (entries m))"
    and entries_find: "ok m \<Longrightarrow> (k, v) \<in> set (entries m) \<longleftrightarrow> find k m = Some v"
begin

lemma keys_dom: "ok m \<Longrightarrow> k \<in> fst ` set (entries m) \<longleftrightarrow> find k m \<noteq> None"
  using entries_find by force

lemma erase_absent: "ok m \<Longrightarrow> find k m = None \<Longrightarrow> find l (erase k m) = find l m"
  by (simp add: find_erase)

lemma entries_distinct: "ok m \<Longrightarrow> distinct (map fst (entries m))"
  using entries_sorted by (simp add: strict_sorted_iff)

lemma entries_from_keys: "ok m \<Longrightarrow> entries m = map (\<lambda>k. (k, the (find k m))) (map fst (entries m))"
  by (simp add: comp_def) (auto simp: entries_find intro!: map_idI [symmetric])

lemma same_find_same_entries:
  assumes "ok m" "ok n" "\<And>k. find k m = find k n"
  shows "entries m = entries n"
proof -
  have "map fst (entries m) = map fst (entries n)"
    using assms keys_dom [OF assms(1)] keys_dom [OF assms(2)] entries_sorted
    by (intro strict_sorted_equal) (simp_all add: set_eq_iff)
  then show ?thesis using entries_from_keys [OF assms(1)] entries_from_keys [OF assms(2)] assms(3) by simp
qed

end

lemma omap_find_less: "\<forall>k \<in> fst ` set m. l < k \<Longrightarrow> omap_find l m = None"
  by (induction m) auto

lemma omap_set_keys: "fst ` set (omap_set k v m) = insert k (fst ` set m)"
  by (induction k v m rule: omap_set.induct) auto

lemma omap_erase_keys: "fst ` set (omap_erase k m) \<subseteq> fst ` set m"
  by (induction k m rule: omap_erase.induct) auto

lemma omap_ok_Nil [simp]: "omap_ok []"
  by (simp add: omap_ok_def)

lemma omap_ok_Cons: "omap_ok ((l, w) # m) \<longleftrightarrow> (\<forall>k \<in> fst ` set m. l < k) \<and> omap_ok m"
  by (auto simp: omap_ok_def)

lemma omap_find_not_key: "k \<notin> fst ` set m \<Longrightarrow> omap_find k m = None"
  by (induction k m rule: omap_find.induct) auto

lemma omap_find_mem: "omap_ok m \<Longrightarrow> (k, v) \<in> set m \<longleftrightarrow> omap_find k m = Some v"
  by (induction k m rule: omap_find.induct) (force simp: omap_ok_Cons)+

lemma omap_find_set: "omap_ok m \<Longrightarrow> omap_find l (omap_set k v m) = (if l = k then Some v else omap_find l m)"
  by (induction k v m rule: omap_set.induct) (auto simp: omap_ok_Cons)

lemma omap_find_erase: "omap_ok m \<Longrightarrow> omap_find l (omap_erase k m) = (if l = k then None else omap_find l m)"
  by (induction k m rule: omap_erase.induct) (auto simp: omap_ok_Cons simp: omap_find_less)

lemma omap_ok_set: "omap_ok m \<Longrightarrow> omap_ok (omap_set k v m)"
  by (induction k v m rule: omap_set.induct) (auto simp: omap_ok_Cons omap_set_keys intro: less_trans)

lemma omap_ok_erase: "omap_ok m \<Longrightarrow> omap_ok (omap_erase k m)"
proof (induction k m rule: omap_erase.induct)
  case (2 k l w m)
  then have "\<forall>j \<in> fst ` set (omap_erase k m). l < j" using omap_erase_keys [of k m] unfolding omap_ok_Cons by blast
  with 2 show ?case by (simp add: omap_ok_Cons)
qed simp

interpretation omap: ordered_map omap_ok omap_find omap_set omap_erase "\<lambda>m. m"
  by unfold_locales (simp_all add: omap_find_set omap_find_erase omap_ok_set omap_ok_erase omap_find_mem, simp add: omap_ok_def)

lemmas omap_laws = omap.find_assign omap.find_erase omap.ok_assign omap.ok_erase

section \<open>Registries of named things\<close>

text \<open>
  A registry keeps things under names and lists the names in order; \<open>inv\<close> is what its operations keep.
\<close>

locale named_registry =
  fixes inv :: "'s \<Rightarrow> bool"
    and lookup :: "'s \<Rightarrow> string \<Rightarrow> 'v option"
    and names :: "'s \<Rightarrow> string list"
  assumes names_sorted: "inv s \<Longrightarrow> sorted_wrt (<) (names s)"
    and names_lookup: "inv s \<Longrightarrow> n \<in> set (names s) \<longleftrightarrow> lookup s n \<noteq> None"
begin

lemma names_distinct: "inv s \<Longrightarrow> distinct (names s)"
  using names_sorted by (simp add: strict_sorted_iff)

lemma names_extensional: "inv s \<Longrightarrow> inv t \<Longrightarrow> (\<And>n. lookup s n = None \<longleftrightarrow> lookup t n = None) \<Longrightarrow> names s = names t"
  by (rule strict_sorted_equal) (auto simp: names_sorted names_lookup)

lemma names_count: "inv s \<Longrightarrow> length (names s) = card {n. lookup s n \<noteq> None}"
  by (subst names_lookup [symmetric]) (simp_all add: distinct_card names_distinct)

end

end
