(* ===== verification/Cursor_Manager.thy ===== *)
theory Cursor_Manager
  imports Ordered_Map
begin

text \<open>
  Named waveform cursors, \<open>waveform/cursor/cursor_manager.{h,cpp}\<close>: the record of a cursor, the session's manager
  with its active cursor and revision counter, and each of its methods. An out parameter is an option result.
\<close>

section \<open>State and operations\<close>

record waveform_cursor =
  cu_name :: string
  cu_time :: u64
  cu_note :: string
  cu_origin :: string
  cu_clock :: string
  cu_created_at :: u64
  cu_updated_at :: u64

definition waveform_cursor_init :: waveform_cursor where
  "waveform_cursor_init = \<lparr>cu_name = [], cu_time = 0, cu_note = [], cu_origin = ''user'', cu_clock = [],
     cu_created_at = 0, cu_updated_at = 0\<rparr>"

record cursor_manager =
  cm_cursors :: "(string, waveform_cursor) omap"
  cm_active_name :: string
  cm_revision :: u64

definition cursor_manager_init :: cursor_manager where
  "cursor_manager_init = \<lparr>cm_cursors = [], cm_active_name = [], cm_revision = 0\<rparr>"

definition cursor_set :: "string \<Rightarrow> u64 \<Rightarrow> cursor_manager \<Rightarrow> bool \<times> cursor_manager" where
  "cursor_set name time m =
     (if name = [] then (False, m)
      else
        let revision = cm_revision m + 1;
            m = m\<lparr>cm_revision := revision\<rparr>;
            cursor = (case omap_find name (cm_cursors m) of
                        None \<Rightarrow> waveform_cursor_init\<lparr>cu_name := name, cu_time := time,
                          cu_created_at := revision, cu_updated_at := revision\<rparr>
                      | Some c \<Rightarrow> c\<lparr>cu_time := time, cu_updated_at := revision\<rparr>)
        in (True, m\<lparr>cm_cursors := omap_set name cursor (cm_cursors m)\<rparr>))"

definition cursor_get :: "string \<Rightarrow> cursor_manager \<Rightarrow> waveform_cursor option" where
  "cursor_get name m = omap_find name (cm_cursors m)"

definition cursor_remove :: "string \<Rightarrow> cursor_manager \<Rightarrow> bool \<times> cursor_manager" where
  "cursor_remove name m =
     (let removed = omap_find name (cm_cursors m) \<noteq> None;
          m = m\<lparr>cm_cursors := omap_erase name (cm_cursors m)\<rparr>
      in (removed, if removed \<and> cm_active_name m = name then m\<lparr>cm_active_name := []\<rparr> else m))"

definition cursor_use :: "string \<Rightarrow> cursor_manager \<Rightarrow> waveform_cursor option \<times> cursor_manager" where
  "cursor_use name m =
     (case cursor_get name m of None \<Rightarrow> (None, m) | Some c \<Rightarrow> (Some c, m\<lparr>cm_active_name := name\<rparr>))"

definition cursor_all :: "cursor_manager \<Rightarrow> waveform_cursor list" where
  "cursor_all m = map snd (cm_cursors m)"

definition cursor_active_name :: "cursor_manager \<Rightarrow> string" where
  "cursor_active_name m = cm_active_name m"

definition cursor_clear :: "cursor_manager \<Rightarrow> cursor_manager" where
  "cursor_clear m = m\<lparr>cm_cursors := [], cm_active_name := [], cm_revision := 0\<rparr>"

section \<open>Sequences of operations\<close>

text \<open>The operations of a session that change the manager, in the order they are called.\<close>

datatype cursor_op = Cursor_set string u64 | Cursor_remove string | Cursor_use string | Cursor_clear

fun cursor_step :: "cursor_op \<Rightarrow> cursor_manager \<Rightarrow> cursor_manager" where
  "cursor_step (Cursor_set name time) m = snd (cursor_set name time m)"
| "cursor_step (Cursor_remove name) m = snd (cursor_remove name m)"
| "cursor_step (Cursor_use name) m = snd (cursor_use name m)"
| "cursor_step Cursor_clear m = cursor_clear m"

definition cursor_run :: "cursor_op list \<Rightarrow> cursor_manager" where
  "cursor_run ops = fold cursor_step ops cursor_manager_init"

section \<open>The specification\<close>

text \<open>
  What a cursor manager means: a finite map from names to times, the active name, and the names in the order
  in which they were last set, the latest first.
\<close>

record cursor_spec =
  sp_times :: "string \<rightharpoonup> u64"
  sp_active :: string
  sp_recent :: "string list"

fun spec_step :: "cursor_op \<Rightarrow> cursor_spec \<Rightarrow> cursor_spec" where
  "spec_step (Cursor_set name time) s =
     (if name = [] then s
      else s\<lparr>sp_times := (sp_times s)(name \<mapsto> time), sp_recent := name # filter (\<lambda>n. n \<noteq> name) (sp_recent s)\<rparr>)"
| "spec_step (Cursor_remove name) s =
     s\<lparr>sp_times := (sp_times s)(name := None), sp_recent := filter (\<lambda>n. n \<noteq> name) (sp_recent s),
       sp_active := (if sp_active s = name then [] else sp_active s)\<rparr>"
| "spec_step (Cursor_use name) s = (if sp_times s name = None then s else s\<lparr>sp_active := name\<rparr>)"
| "spec_step Cursor_clear s = \<lparr>sp_times = Map.empty, sp_active = [], sp_recent = []\<rparr>"

definition spec_run :: "cursor_op list \<Rightarrow> cursor_spec" where
  "spec_run ops = fold spec_step ops \<lparr>sp_times = Map.empty, sp_active = [], sp_recent = []\<rparr>"

definition latest_first :: "(string \<Rightarrow> u64) \<Rightarrow> string list \<Rightarrow> bool" where
  "latest_first stamp ns = sorted_wrt (\<lambda>a b. stamp b < stamp a) ns"

text \<open>
  The simulation. After \<open>k\<close> operations the manager \<open>m\<close> stands for the specification state \<open>s\<close>.
\<close>

definition updated_at :: "cursor_manager \<Rightarrow> string \<Rightarrow> u64" where
  "updated_at m n = (case omap_find n (cm_cursors m) of Some c \<Rightarrow> cu_updated_at c | None \<Rightarrow> 0)"

definition cursor_ok :: "cursor_manager \<Rightarrow> string \<Rightarrow> waveform_cursor \<Rightarrow> bool" where
  "cursor_ok m n c \<longleftrightarrow> cu_name c = n \<and> n \<noteq> [] \<and> 0 < cu_created_at c \<and> cu_created_at c \<le> cu_updated_at c \<and>
     cu_updated_at c \<le> cm_revision m"

definition simulates :: "nat \<Rightarrow> cursor_manager \<Rightarrow> cursor_spec \<Rightarrow> bool" where
  "simulates k m s \<longleftrightarrow>
     omap_ok (cm_cursors m) \<and> unat (cm_revision m) \<le> k \<and>
     (\<forall>n. sp_times s n = map_option cu_time (omap_find n (cm_cursors m))) \<and>
     sp_active s = cm_active_name m \<and> (cm_active_name m = [] \<or> omap_find (cm_active_name m) (cm_cursors m) \<noteq> None) \<and>
     (\<forall>n c. omap_find n (cm_cursors m) = Some c \<longrightarrow> cursor_ok m n c) \<and>
     set (sp_recent s) = {n. omap_find n (cm_cursors m) \<noteq> None} \<and> latest_first (updated_at m) (sp_recent s)"

section \<open>The simulation is kept\<close>

lemma latest_first_cong:
  "latest_first f ns \<Longrightarrow> (\<And>n. n \<in> set ns \<Longrightarrow> f n = g n) \<Longrightarrow> latest_first g ns"
  unfolding latest_first_def by (erule sorted_wrt_mono_rel [rotated]) auto

lemma latest_first_filter: "latest_first f ns \<Longrightarrow> latest_first f (filter P ns)"
  by (simp add: latest_first_def sorted_wrt_filter)

lemma cursor_ok_mono: "cursor_ok m n c \<Longrightarrow> cm_revision m \<le> cm_revision m' \<Longrightarrow> cursor_ok m' n c"
  unfolding cursor_ok_def by fastforce

lemma simulates_set:
  assumes sim: "simulates k m s" and k: "k + 1 < 2 ^ 64" and name: "name \<noteq> []"
  shows "simulates (k + 1) (snd (cursor_set name time m)) (spec_step (Cursor_set name time) s)"
proof -
  let ?m = "snd (cursor_set name time m)" and ?rev = "cm_revision m + 1"
  have ok: "omap_ok (cm_cursors m)" and rev: "unat (cm_revision m) \<le> k" using sim by (auto simp: simulates_def)
  have u: "unat ?rev = Suc (unat (cm_revision m))"
    by (rule unat_plus_one) (use k rev in simp)
  then have lt: "cm_revision m < ?rev" by (simp add: word_less_nat_alt)
  obtain c where c: "omap_find name (cm_cursors ?m) = Some c" "cu_time c = time" "cu_updated_at c = ?rev" "cursor_ok ?m name c"
    and other: "\<And>n. n \<noteq> name \<Longrightarrow> omap_find n (cm_cursors ?m) = omap_find n (cm_cursors m)"
    and r: "cm_revision ?m = ?rev" "cm_active_name ?m = cm_active_name m" "omap_ok (cm_cursors ?m)"
  proof -
    let ?c = "case omap_find name (cm_cursors m) of
        None \<Rightarrow> waveform_cursor_init\<lparr>cu_name := name, cu_time := time, cu_created_at := ?rev, cu_updated_at := ?rev\<rparr>
      | Some c \<Rightarrow> c\<lparr>cu_time := time, cu_updated_at := ?rev\<rparr>"
    have m: "?m = m\<lparr>cm_revision := ?rev, cm_cursors := omap_set name ?c (cm_cursors m)\<rparr>"
      using name by (simp add: cursor_set_def Let_def)
    have "cursor_ok m name c" if "omap_find name (cm_cursors m) = Some c" for c
      using sim that by (simp add: simulates_def)
    moreover have "0 < ?rev" using u by (simp add: word_less_nat_alt)
    ultimately have "cursor_ok ?m name ?c"
      using name lt unfolding m cursor_ok_def
      by (fastforce simp: waveform_cursor_init_def split: option.split)
    moreover have "cu_time ?c = time" "cu_updated_at ?c = ?rev" by (simp_all split: option.split)
    ultimately show thesis using m ok by (intro that [of ?c]) (simp_all add: omap_laws)
  qed
  have upd: "updated_at ?m name = ?rev" "\<And>n. n \<noteq> name \<Longrightarrow> updated_at ?m n = updated_at m n"
    using c other by (simp_all add: updated_at_def)
  have old: "updated_at m n \<le> cm_revision m" for n
    using sim by (auto simp: updated_at_def simulates_def cursor_ok_def split: option.split)
  have "latest_first (updated_at ?m) (filter (\<lambda>n. n \<noteq> name) (sp_recent s))"
    by (rule latest_first_cong [of "updated_at m"]) (use sim upd in \<open>auto simp: simulates_def latest_first_filter\<close>)
  then have "latest_first (updated_at ?m) (name # filter (\<lambda>n. n \<noteq> name) (sp_recent s))"
    using upd lt old by (auto simp: latest_first_def intro: le_less_trans)
  moreover have "cursor_ok ?m n d" if "omap_find n (cm_cursors ?m) = Some d" for n d
  proof (cases "n = name")
    case False
    then have "cursor_ok m n d" using that other sim by (simp add: simulates_def)
    then show ?thesis by (rule cursor_ok_mono) (use lt r in simp)
  qed (use that c in simp)
  moreover have "sp_times (spec_step (Cursor_set name time) s) n = map_option cu_time (omap_find n (cm_cursors ?m))" for n
    using c other [of n] sim name by (cases "n = name") (auto simp: simulates_def)
  moreover have "set (name # filter (\<lambda>n. n \<noteq> name) (sp_recent s)) = {n. omap_find n (cm_cursors ?m) \<noteq> None}"
    using c other sim by (auto simp: simulates_def)
  moreover have "cm_active_name m = [] \<or> omap_find (cm_active_name m) (cm_cursors ?m) \<noteq> None"
    using c other [of "cm_active_name m"] sim by (cases "cm_active_name m = name") (auto simp: simulates_def)
  ultimately show ?thesis using name r u rev sim unfolding simulates_def by simp
qed

lemma simulates_remove:
  assumes sim: "simulates k m s"
  shows "simulates k (snd (cursor_remove name m)) (spec_step (Cursor_remove name) s)"
proof -
  let ?m = "snd (cursor_remove name m)"
  have ok: "omap_ok (cm_cursors m)" using sim by (simp add: simulates_def)
  then have f: "omap_find n (cm_cursors ?m) = (if n = name then None else omap_find n (cm_cursors m))" for n
    by (simp add: cursor_remove_def Let_def omap_laws)
  have r: "cm_revision ?m = cm_revision m" "omap_ok (cm_cursors ?m)"
    using ok by (simp_all add: cursor_remove_def Let_def omap_laws)
  have a: "cm_active_name ?m = (if cm_active_name m = name then [] else cm_active_name m)"
    using sim by (auto simp: cursor_remove_def Let_def simulates_def)
  have "latest_first (updated_at ?m) (filter (\<lambda>n. n \<noteq> name) (sp_recent s))"
    by (rule latest_first_cong [of "updated_at m"]) (use sim f in \<open>auto simp: simulates_def latest_first_filter updated_at_def\<close>)
  with sim f r a show ?thesis by (auto simp: simulates_def cursor_ok_def)
qed

lemma simulates_step:
  assumes "simulates k m s" "k + 1 < 2 ^ 64"
  shows "simulates (k + 1) (cursor_step op m) (spec_step op s)"
proof -
  have up: "simulates (k + 1) m' s'" if "simulates k m' s'" for m' s' using that by (auto simp: simulates_def)
  show ?thesis
  proof (cases op)
    case (Cursor_set name time)
    then show ?thesis using simulates_set [OF assms] up [OF assms(1)] by (cases "name = []") (auto simp: cursor_set_def)
  next
    case (Cursor_remove name)
    then show ?thesis using up [OF simulates_remove [OF assms(1)]] by simp
  next
    case (Cursor_use name)
    then show ?thesis using assms(1)
      by (auto simp: simulates_def cursor_use_def cursor_get_def cursor_ok_def updated_at_def [abs_def] split: option.split)
  next
    case Cursor_clear
    then show ?thesis by (simp add: simulates_def cursor_clear_def latest_first_def)
  qed
qed

lemma simulates_run: "length ops < 2 ^ 64 \<Longrightarrow> simulates (length ops) (cursor_run ops) (spec_run ops)"
proof (induction ops rule: rev_induct)
  case Nil
  show ?case by (simp add: simulates_def cursor_run_def spec_run_def cursor_manager_init_def latest_first_def)
next
  case (snoc op ops)
  then show ?case using simulates_step [of "length ops" "cursor_run ops" "spec_run ops" op]
    by (simp add: cursor_run_def spec_run_def)
qed

text \<open>The manager is a registry of named things: its names are those of \<open>cursor_all\<close>, in order.\<close>

definition cursor_inv :: "cursor_manager \<Rightarrow> bool" where
  "cursor_inv m \<longleftrightarrow> omap_ok (cm_cursors m) \<and> (\<forall>n c. omap_find n (cm_cursors m) = Some c \<longrightarrow> cu_name c = n)"

lemma cursor_names: "cursor_inv m \<Longrightarrow> map cu_name (cursor_all m) = map fst (cm_cursors m)"
  by (auto simp: cursor_all_def cursor_inv_def omap_find_mem [symmetric])

interpretation cursors: named_registry cursor_inv "\<lambda>m n. cursor_get n m" "\<lambda>m. map cu_name (cursor_all m)"
proof
  fix m n assume m: "cursor_inv m"
  then have ok: "omap_ok (cm_cursors m)" by (simp add: cursor_inv_def)
  show "sorted_wrt (<) (map cu_name (cursor_all m))"
    unfolding cursor_names [OF m] using omap.entries_sorted [OF ok] .
  show "n \<in> set (map cu_name (cursor_all m)) \<longleftrightarrow> cursor_get n m \<noteq> None"
    unfolding cursor_names [OF m] cursor_get_def using omap.keys_dom [OF ok, of n] by simp
qed

lemma simulates_inv: "simulates k m s \<Longrightarrow> cursor_inv m"
  by (simp add: simulates_def cursor_inv_def cursor_ok_def)

section \<open>Properties\<close>

text \<open>
  Claim C23 (refinement). Through any sequence of fewer than \<open>2^64\<close> operations the cursor manager is the map it
  stands for: a lookup returns the time of the last \<open>set\<close> not followed by a \<open>remove\<close> or \<open>clear\<close>, the active name is
  the specification's and is empty or names an existing cursor, and sorting the cursors by \<open>updated_at\<close> gives the
  order in which they were last set, with no two revisions equal.
\<close>

theorem cursor_run_refines:
  assumes "length ops < 2 ^ 64"
  shows "(\<forall>n. map_option cu_time (cursor_get n (cursor_run ops)) = sp_times (spec_run ops) n) \<and>
    cursor_active_name (cursor_run ops) = sp_active (spec_run ops) \<and>
    (cursor_active_name (cursor_run ops) = [] \<or> cursor_get (cursor_active_name (cursor_run ops)) (cursor_run ops) \<noteq> None) \<and>
    latest_first (updated_at (cursor_run ops)) (sp_recent (spec_run ops)) \<and>
    set (sp_recent (spec_run ops)) = {n. cursor_get n (cursor_run ops) \<noteq> None}"
  using simulates_run [OF assms] unfolding simulates_def cursor_get_def cursor_active_name_def by simp

theorem cursor_run_refines_witness:
  "map_option cu_time (cursor_get ''b'' (cursor_run [Cursor_set ''b'' 5, Cursor_set ''a'' 7, Cursor_use ''b'', Cursor_set ''b'' 9]))
     = Some 9"
  using cursor_run_refines [of "[Cursor_set ''b'' 5, Cursor_set ''a'' 7, Cursor_use ''b'', Cursor_set ''b'' 9]"]
  by (simp add: spec_run_def)

text \<open>
  After any sequence of fewer than \<open>2^64\<close> operations the listing is sorted by name without
  repetition, holds exactly the cursors that a lookup finds, each under its own non-empty name, and each cursor was
  created at a positive revision not after the one of its last update.
\<close>

theorem cursor_all_sorted:
  assumes "length ops < 2 ^ 64"
  shows "sorted_wrt (<) (map cu_name (cursor_all (cursor_run ops))) \<and>
    (\<forall>c. c \<in> set (cursor_all (cursor_run ops)) \<longleftrightarrow> cursor_get (cu_name c) (cursor_run ops) = Some c) \<and>
    (\<forall>c \<in> set (cursor_all (cursor_run ops)). cu_name c \<noteq> [] \<and> 0 < cu_created_at c \<and> cu_created_at c \<le> cu_updated_at c)"
proof -
  let ?m = "cursor_run ops"
  have sim: "simulates (length ops) ?m (spec_run ops)" using assms by (rule simulates_run)
  then have inv: "cursor_inv ?m" by (rule simulates_inv)
  then have mem: "(n, c) \<in> set (cm_cursors ?m) \<longleftrightarrow> cursor_get n ?m = Some c" for n c
    by (simp add: cursor_inv_def cursor_get_def omap_find_mem)
  have ok: "cursor_ok ?m n c" if "cursor_get n ?m = Some c" for n c
    using sim that by (simp add: simulates_def cursor_get_def)
  have "c \<in> set (cursor_all ?m) \<longleftrightarrow> cursor_get (cu_name c) ?m = Some c" for c
  proof
    assume "c \<in> set (cursor_all ?m)"
    then obtain n where "cursor_get n ?m = Some c" using mem by (auto simp: cursor_all_def)
    with ok [OF this] show "cursor_get (cu_name c) ?m = Some c" by (simp add: cursor_ok_def)
  next
    assume "cursor_get (cu_name c) ?m = Some c"
    then show "c \<in> set (cursor_all ?m)" using mem [of "cu_name c" c] by (force simp: cursor_all_def)
  qed
  moreover have "cu_name c \<noteq> [] \<and> 0 < cu_created_at c \<and> cu_created_at c \<le> cu_updated_at c"
    if "cursor_get (cu_name c) ?m = Some c" for c using ok [OF that] by (simp add: cursor_ok_def)
  ultimately show ?thesis using cursors.names_sorted [OF inv] by simp
qed

theorem cursor_all_sorted_witness:
  "sorted_wrt (<) (map cu_name (cursor_all (cursor_run [Cursor_set ''b'' 5, Cursor_set ''a'' 7])))"
  using cursor_all_sorted [of "[Cursor_set ''b'' 5, Cursor_set ''a'' 7]"] by simp

end
