(* ===== verification/List_Manager.thy ===== *)
theory List_Manager
  imports Ordered_Map
begin

text \<open>
  Named signal lists of a session, \<open>waveform/list/list_manager.{h,cpp}\<close>. A method that returns \<open>false\<close> with an error
  text is \<open>Inl\<close> of that text. The file system is a parameter: \<open>fs path\<close> is what can be read from the path, \<open>None\<close>
  when it cannot be opened.
\<close>

section \<open>State and operations\<close>

record signal_list =
  sl_name :: string
  sl_signals :: "string list"
  sl_created_from :: string

definition signal_list_init :: signal_list where
  "signal_list_init = \<lparr>sl_name = [], sl_signals = [], sl_created_from = []\<rparr>"

type_synonym list_manager = "(string, signal_list) omap"

definition list_create :: "string \<Rightarrow> list_manager \<Rightarrow> string + list_manager" where
  "list_create name m =
     (if name = [] then Inl ''list name is required''
      else if omap_find name m \<noteq> None then Inl (''list already exists: '' @ name)
      else Inr (omap_set name (signal_list_init\<lparr>sl_name := name, sl_created_from := ''user''\<rparr>) m))"

fun add_loop :: "string list \<Rightarrow> string list \<Rightarrow> string list" where
  "add_loop [] existing = existing"
| "add_loop (s # r) existing =
     (if s = [] then add_loop r existing
      else if s \<in> set existing then add_loop r existing
      else add_loop r (existing @ [s]))"

definition list_add :: "string \<Rightarrow> string list \<Rightarrow> list_manager \<Rightarrow> string + list_manager" where
  "list_add name signals m =
     (case omap_find name m of
        None \<Rightarrow> Inl (''list not found: '' @ name)
      | Some l \<Rightarrow> Inr (omap_set name (l\<lparr>sl_signals := add_loop signals (sl_signals l)\<rparr>) m))"

fun remove_loop :: "string list \<Rightarrow> string list \<Rightarrow> string list \<Rightarrow> string list" where
  "remove_loop signals [] kept = kept"
| "remove_loop signals (s # r) kept = remove_loop signals r (if s \<in> set signals then kept else kept @ [s])"

definition list_remove :: "string \<Rightarrow> string list \<Rightarrow> list_manager \<Rightarrow> string + list_manager" where
  "list_remove name signals m =
     (case omap_find name m of
        None \<Rightarrow> Inl (''list not found: '' @ name)
      | Some l \<Rightarrow> Inr (omap_set name (l\<lparr>sl_signals := remove_loop signals (sl_signals l) []\<rparr>) m))"

definition list_erase :: "string \<Rightarrow> list_manager \<Rightarrow> bool \<times> list_manager" where
  "list_erase name m = (omap_find name m \<noteq> None, omap_erase name m)"

text \<open>\<open>std::getline\<close> until the stream ends: a last line without a newline counts, an empty one does not.\<close>

fun getlines :: "string \<Rightarrow> string \<Rightarrow> string list" where
  "getlines [] acc = (if acc = [] then [] else [acc])"
| "getlines (c # s) acc = (if c = CHR 0x0A then acc # getlines s [] else getlines s (acc @ [c]))"

text \<open>\<open>while (ss >> token)\<close>: the maximal runs of characters that are not white space.\<close>

fun tokens :: "string \<Rightarrow> string \<Rightarrow> string list" where
  "tokens [] acc = (if acc = [] then [] else [acc])"
| "tokens (c # s) acc =
     (if is_space c then (if acc = [] then tokens s [] else acc # tokens s []) else tokens s (acc @ [c]))"

definition strip_comment :: "string \<Rightarrow> string" where
  "strip_comment line = (case str_find (CHR ''#'') line of Some hash \<Rightarrow> take hash line | None \<Rightarrow> line)"

definition file_signals :: "string \<Rightarrow> string list" where
  "file_signals contents = concat (map (\<lambda>line. tokens (strip_comment line) []) (getlines contents []))"

definition list_load :: "(string \<rightharpoonup> string) \<Rightarrow> string \<Rightarrow> string \<Rightarrow> list_manager \<Rightarrow> string + list_manager" where
  "list_load fs name file_path m =
     (case fs file_path of
        None \<Rightarrow> Inl (''cannot open file: '' @ file_path)
      | Some contents \<Rightarrow>
          let l = (case omap_find name m of
                     Some l \<Rightarrow> l\<lparr>sl_signals := []\<rparr>
                   | None \<Rightarrow> signal_list_init\<lparr>sl_name := name\<rparr>)
          in Inr (omap_set name (l\<lparr>sl_created_from := ''file:'' @ file_path, sl_signals := file_signals contents\<rparr>) m))"

definition list_validate :: "string \<Rightarrow> list_manager \<Rightarrow> string + unit" where
  "list_validate name m =
     (case omap_find name m of
        None \<Rightarrow> Inl (''list not found: '' @ name)
      | Some l \<Rightarrow> if [] \<in> set (sl_signals l) then Inl ''list contains an empty signal name'' else Inr ())"

definition list_get :: "string \<Rightarrow> list_manager \<Rightarrow> signal_list option" where
  "list_get name m = omap_find name m"

definition list_exists :: "string \<Rightarrow> list_manager \<Rightarrow> bool" where
  "list_exists name m \<longleftrightarrow> omap_find name m \<noteq> None"

definition list_names :: "list_manager \<Rightarrow> string list" where
  "list_names m = map fst m"

definition list_clear :: "list_manager \<Rightarrow> list_manager" where
  "list_clear m = []"

section \<open>Reachable registries\<close>

inductive list_reachable :: "(string \<rightharpoonup> string) \<Rightarrow> list_manager \<Rightarrow> bool" for fs where
  init: "list_reachable fs []"
| created: "list_reachable fs m \<Longrightarrow> list_create name m = Inr m' \<Longrightarrow> list_reachable fs m'"
| added: "list_reachable fs m \<Longrightarrow> list_add name signals m = Inr m' \<Longrightarrow> list_reachable fs m'"
| removed: "list_reachable fs m \<Longrightarrow> list_remove name signals m = Inr m' \<Longrightarrow> list_reachable fs m'"
| erased: "list_reachable fs m \<Longrightarrow> list_reachable fs (snd (list_erase name m))"
| loaded: "list_reachable fs m \<Longrightarrow> list_load fs name path m = Inr m' \<Longrightarrow> list_reachable fs m'"
| cleared: "list_reachable fs m \<Longrightarrow> list_reachable fs (list_clear m)"

definition from_file :: "signal_list \<Rightarrow> bool" where
  "from_file l \<longleftrightarrow> starts_with ''file:'' (sl_created_from l)"

definition signal_list_ok :: "string \<Rightarrow> signal_list \<Rightarrow> bool" where
  "signal_list_ok n l \<longleftrightarrow> sl_name l = n \<and> [] \<notin> set (sl_signals l) \<and>
     (from_file l \<or> sl_created_from l = ''user'' \<and> n \<noteq> [] \<and> distinct (sl_signals l))"

definition list_inv :: "list_manager \<Rightarrow> bool" where
  "list_inv m \<longleftrightarrow> omap_ok m \<and> (\<forall>n l. omap_find n m = Some l \<longrightarrow> signal_list_ok n l)"

section \<open>The loops\<close>

lemma remdups_snoc: "remdups (ys @ [s]) = remdups (filter (\<lambda>x. x \<noteq> s) ys) @ [s]"
  by (induction ys) auto

lemma add_loop_eq:
  "add_loop signals existing = existing @ rev (remdups (rev (filter (\<lambda>s. s \<noteq> [] \<and> s \<notin> set existing) signals)))"
proof (induction signals existing rule: add_loop.induct)
  case (2 s r existing)
  have "filter (\<lambda>x. x \<noteq> [] \<and> x \<notin> set existing \<and> x \<noteq> s) r = filter (\<lambda>x. x \<noteq> [] \<and> x \<noteq> s \<and> x \<notin> set existing) r"
    by (rule filter_cong) auto
  with 2 show ?case by (simp add: remdups_snoc rev_filter [symmetric])
qed simp

lemma add_loop_set: "set (add_loop signals existing) = set existing \<union> (set signals - {[]})"
  by (auto simp: add_loop_eq)

lemma distinct_add_loop: "distinct existing \<Longrightarrow> distinct (add_loop signals existing)"
  by (auto simp: add_loop_eq)

lemma remove_loop_eq: "remove_loop signals xs kept = kept @ filter (\<lambda>s. s \<notin> set signals) xs"
  by (induction signals xs kept rule: remove_loop.induct) auto

lemma tokens_nonempty: "[] \<notin> set (tokens s acc)"
  by (induction s acc rule: tokens.induct) auto

lemma file_signals_nonempty: "[] \<notin> set (file_signals contents)"
  by (auto simp: file_signals_def tokens_nonempty)

section \<open>The invariant\<close>

lemma list_inv_set:
  "list_inv m \<Longrightarrow> signal_list_ok n l \<Longrightarrow> list_inv (omap_set n l m)"
  by (simp add: list_inv_def omap_laws)

lemma list_inv_find: "list_inv m \<Longrightarrow> omap_find n m = Some l \<Longrightarrow> signal_list_ok n l"
  by (simp add: list_inv_def)

lemma list_reachable_inv: "list_reachable fs m \<Longrightarrow> list_inv m"
proof (induction rule: list_reachable.induct)
  case (created m name m')
  then show ?case
    by (auto simp: list_create_def signal_list_ok_def signal_list_init_def intro!: list_inv_set split: if_splits)
next
  case (added m name signals m')
  then obtain l where l: "omap_find name m = Some l" "m' = omap_set name (l\<lparr>sl_signals := add_loop signals (sl_signals l)\<rparr>) m"
    by (auto simp: list_add_def split: option.splits)
  with list_inv_find [OF added.IH l(1)] added.IH show ?case
    by (auto simp: signal_list_ok_def from_file_def add_loop_set distinct_add_loop intro!: list_inv_set)
next
  case (removed m name signals m')
  then obtain l where l: "omap_find name m = Some l" "m' = omap_set name (l\<lparr>sl_signals := remove_loop signals (sl_signals l) []\<rparr>) m"
    by (auto simp: list_remove_def split: option.splits)
  with list_inv_find [OF removed.IH l(1)] removed.IH show ?case
    by (auto simp: signal_list_ok_def from_file_def remove_loop_eq intro!: list_inv_set)
next
  case (erased m name)
  then show ?case by (auto simp: list_erase_def list_inv_def omap_laws)
next
  case (loaded m name path m')
  then show ?case
    by (auto simp: list_load_def Let_def signal_list_ok_def from_file_def starts_with_def signal_list_init_def
        file_signals_nonempty dest: list_inv_find intro!: list_inv_set split: option.splits)
qed (simp_all add: list_inv_def list_clear_def)

interpretation lists: named_registry list_inv "\<lambda>m n. list_get n m" list_names
proof
  fix m n assume "list_inv m"
  then have ok: "omap_ok m" by (simp add: list_inv_def)
  show "sorted_wrt (<) (list_names m)" unfolding list_names_def using omap.entries_sorted [OF ok] .
  show "n \<in> set (list_names m) \<longleftrightarrow> list_get n m \<noteq> None"
    unfolding list_names_def list_get_def using omap.keys_dom [OF ok, of n] by simp
qed

section \<open>Reading a file\<close>

text \<open>A name that a list file can hold: not empty, without white space and without the comment character.\<close>

definition plain_name :: "string \<Rightarrow> bool" where
  "plain_name s \<longleftrightarrow> s \<noteq> [] \<and> (\<forall>c \<in> set s. \<not> is_space c) \<and> CHR ''#'' \<notin> set s"

definition file_line :: "string \<times> string \<Rightarrow> string" where
  "file_line = (\<lambda>(s, comment). s @ '' # '' @ comment @ [CHR 0x0A])"

lemma getlines_line: "CHR 0x0A \<notin> set l \<Longrightarrow> getlines (l @ CHR 0x0A # rest) acc = (acc @ l) # getlines rest []"
  by (induction l arbitrary: acc) auto

lemma tokens_run: "\<forall>c \<in> set s. \<not> is_space c \<Longrightarrow> tokens (s @ t) acc = tokens t (acc @ s)"
  by (induction s arbitrary: acc) auto

lemma plain_name_line: "plain_name s \<Longrightarrow> tokens (strip_comment (s @ '' # '' @ comment)) [] = [s]"
proof -
  assume s: "plain_name s"
  then have "str_find (CHR ''#'') ((s @ '' '') @ CHR ''#'' # CHR '' '' # comment) = Some (length (s @ '' ''))"
    by (intro str_find_append) (simp add: plain_name_def)
  moreover have "is_space (CHR '' '')" by (simp add: is_space_def)
  ultimately show ?thesis using s tokens_run [of s "'' ''" "[]"] by (simp add: strip_comment_def plain_name_def)
qed

lemma file_signals_lines:
  "\<forall>(s, comment) \<in> set ls. plain_name s \<and> CHR 0x0A \<notin> set comment \<Longrightarrow> file_signals (concat (map file_line ls)) = map fst ls"
proof (induction ls)
  case (Cons p ls)
  obtain s comment where p: "p = (s, comment)" by (cases p)
  with Cons have s: "plain_name s" "CHR 0x0A \<notin> set comment" by auto
  then have "CHR 0x0A \<notin> set (s @ '' # '' @ comment)" by (auto simp: plain_name_def is_space_def)
  from getlines_line [OF this, of "concat (map file_line ls)" "[]"]
  have "getlines (concat (map file_line (p # ls))) [] = (s @ '' # '' @ comment) # getlines (concat (map file_line ls)) []"
    by (simp add: p file_line_def)
  with Cons p plain_name_line [OF s(1), of comment] show ?case by (simp add: file_signals_def)
qed (simp add: file_signals_def)

section \<open>Properties\<close>

text \<open>
  In every registry reachable by the operations the names are listed in order without
  repetition and are those that \<open>exists\<close> accepts, each list is stored under its own name, no list holds an empty
  signal name, and a list that the user created has a non-empty name and no repeated signal. Hence \<open>validate\<close>
  fails only on a missing list.
\<close>

theorem list_registry_inv:
  assumes "list_reachable fs m"
  shows "sorted_wrt (<) (list_names m) \<and> (\<forall>n. n \<in> set (list_names m) \<longleftrightarrow> list_exists n m) \<and>
    (\<forall>n. list_validate n m = (if list_exists n m then Inr () else Inl (''list not found: '' @ n))) \<and>
    (\<forall>n l. list_get n m = Some l \<longrightarrow> sl_name l = n \<and> (sl_created_from l = ''user'' \<longrightarrow> n \<noteq> [] \<and> distinct (sl_signals l)))"
proof -
  have inv: "list_inv m" using assms by (rule list_reachable_inv)
  then have "list_validate n m = (if list_exists n m then Inr () else Inl (''list not found: '' @ n))" for n
    by (auto simp: list_validate_def list_exists_def signal_list_ok_def dest: list_inv_find split: option.split)
  moreover have "sl_name l = n \<and> (sl_created_from l = ''user'' \<longrightarrow> n \<noteq> [] \<and> distinct (sl_signals l))"
    if "list_get n m = Some l" for n l
    using list_inv_find [OF inv that [unfolded list_get_def]]
    by (auto simp: signal_list_ok_def from_file_def starts_with_def)
  ultimately show ?thesis using lists.names_sorted [OF inv] lists.names_lookup [OF inv]
    by (simp add: list_exists_def list_get_def)
qed

theorem list_registry_inv_witness:
  "\<exists>m. list_create ''bus'' [] = Inr m \<and> list_validate ''bus'' m = Inr ()"
proof -
  obtain m where m: "list_create ''bus'' [] = Inr m" by (simp add: list_create_def)
  then have "list_reachable Map.empty m" by (rule list_reachable.created [OF list_reachable.init])
  from list_registry_inv [OF this] m show ?thesis by (auto simp: list_create_def list_exists_def)
qed

text \<open>
  Adding signals to an existing list appends, in the order given, the first occurrence of each
  non-empty signal that the list does not have; removing drops exactly the given signals and keeps the order; so
  removing what was added to a list that had none of it gives the list back. Other lists do not change.
\<close>

theorem list_add_remove:
  assumes "list_reachable fs m" and "list_get n m = Some l"
  shows "\<exists>m'. list_add n signals m = Inr m' \<and>
    map_option sl_signals (list_get n m') =
      Some (sl_signals l @ rev (remdups (rev (filter (\<lambda>s. s \<noteq> [] \<and> s \<notin> set (sl_signals l)) signals)))) \<and>
    (\<forall>k. k \<noteq> n \<longrightarrow> list_get k m' = list_get k m) \<and>
    (\<exists>m''. list_remove n signals m' = Inr m'' \<and>
       list_get n m'' = Some (l\<lparr>sl_signals := filter (\<lambda>s. s \<notin> set signals) (sl_signals l)\<rparr>) \<and>
       (\<forall>k. k \<noteq> n \<longrightarrow> list_get k m'' = list_get k m))"
proof -
  let ?m = "omap_set n (l\<lparr>sl_signals := add_loop signals (sl_signals l)\<rparr>) m"
  have ok: "omap_ok m" using list_reachable_inv [OF assms(1)] by (simp add: list_inv_def)
  have f: "filter (\<lambda>s. s \<notin> set signals) (add_loop signals (sl_signals l)) = filter (\<lambda>s. s \<notin> set signals) (sl_signals l)"
    by (auto simp: add_loop_eq filter_empty_conv)
  have "list_add n signals m = Inr ?m" using assms(2) by (simp add: list_add_def list_get_def)
  moreover have "list_remove n signals ?m =
      Inr (omap_set n (l\<lparr>sl_signals := filter (\<lambda>s. s \<notin> set signals) (sl_signals l)\<rparr>) ?m)"
    using ok f by (simp add: list_remove_def omap_laws remove_loop_eq)
  ultimately show ?thesis using ok by (auto simp: list_get_def omap_laws add_loop_eq)
qed

theorem list_add_remove_witness:
  "\<exists>m m'. list_create ''bus'' [] = Inr m \<and> list_add ''bus'' [''b'', [], ''a'', ''b''] m = Inr m' \<and>
     map_option sl_signals (list_get ''bus'' m') = Some [''b'', ''a'']"
proof -
  obtain m where m: "list_create ''bus'' [] = Inr m" by (simp add: list_create_def)
  then have r: "list_reachable Map.empty m" by (rule list_reachable.created [OF list_reachable.init])
  have "list_get ''bus'' m = Some \<lparr>sl_name = ''bus'', sl_signals = [], sl_created_from = ''user''\<rparr>"
    using m by (auto simp: list_create_def list_get_def signal_list_init_def)
  from list_add_remove [OF r this, of "[''b'', [], ''a'', ''b'']"] m show ?thesis by auto
qed

text \<open>
  A file with one signal name per line, each followed by a comment, loads as exactly the list of
  those names in order, whatever the comments hold; the list says which file it came from.
\<close>

theorem list_load_roundtrip:
  assumes "list_reachable fs m" and "fs path = Some (concat (map file_line ls))"
    and "\<forall>(s, comment) \<in> set ls. plain_name s \<and> CHR 0x0A \<notin> set comment"
  shows "\<exists>m'. list_load fs n path m = Inr m' \<and>
    list_get n m' = Some \<lparr>sl_name = n, sl_signals = map fst ls, sl_created_from = ''file:'' @ path\<rparr>"
proof -
  have inv: "list_inv m" using assms(1) by (rule list_reachable_inv)
  have "l\<lparr>sl_created_from := ''file:'' @ path, sl_signals := map fst ls\<rparr> =
      \<lparr>sl_name = n, sl_signals = map fst ls, sl_created_from = ''file:'' @ path\<rparr>" if "omap_find n m = Some l" for l
    using list_inv_find [OF inv that] by (cases l) (simp add: signal_list_ok_def)
  with inv assms(2) file_signals_lines [OF assms(3)] show ?thesis
    by (auto simp: list_load_def list_get_def Let_def list_inv_def omap_laws signal_list_init_def split: option.split)
qed

theorem list_load_roundtrip_witness:
  "\<exists>m. list_load [''a.txt'' \<mapsto> concat (map file_line [(''top.x'', ''clk''), (''top.y'', [])])] ''l'' ''a.txt'' [] = Inr m \<and>
     map_option sl_signals (list_get ''l'' m) = Some [''top.x'', ''top.y'']"
proof -
  have "\<forall>(s, comment) \<in> set [(''top.x'', ''clk''), (''top.y'', [])]. plain_name s \<and> CHR 0x0A \<notin> set comment"
    by (simp add: plain_name_def is_space_def)
  from list_load_roundtrip [OF list_reachable.init _ this, of "[''a.txt'' \<mapsto> concat (map file_line [(''top.x'', ''clk''), (''top.y'', [])])]" "''a.txt''" "''l''"]
  show ?thesis by auto
qed

text \<open>
  Loading a file bypasses what \<open>create\<close> and \<open>add\<close> enforce: a list with the empty name, which \<open>create\<close>
  refuses, can be loaded, and the loaded list can hold a signal twice, which \<open>add\<close> never does.
\<close>

theorem list_load_unchecked:
  "list_create [] [] = Inl ''list name is required'' \<and>
   (\<exists>m. list_load [''f'' \<mapsto> ''a a''] [] ''f'' [] = Inr m \<and> list_exists [] m \<and>
      map_option sl_signals (list_get [] m) = Some [''a'', ''a''])"
  by (simp add: list_create_def list_load_def Let_def list_exists_def list_get_def file_signals_def strip_comment_def
      is_space_def)

end
