(* ===== verification/Design_Interface.thy ===== *)
theory Design_Interface
  imports Cxx_Prelude
begin

text \<open>
  The design database interface \<open>backend/design_backend.h\<close>: the records its queries return, the queries that the
  modelled clients call as a record of functions, and the locale \<open>design_contract\<close> with what a client may rely on.
\<close>

record driver_record =
  dv_src_signal :: int
  dv_kind :: string
  dv_dependency_role :: string
  dv_activation_predicate :: string
  dv_file :: string
  dv_line :: int
  dv_statement_identity :: string
  dv_has_target_loop_range :: bool
  dv_target_loop_first :: int
  dv_target_loop_last :: int
  dv_rhs_selector_signal :: int
  dv_has_rhs_numeric_selector :: bool
  dv_rhs_numeric_selector :: int

definition driver_record_init :: driver_record where
  "driver_record_init = \<lparr>dv_src_signal = - 1, dv_kind = [], dv_dependency_role = [], dv_activation_predicate = [],
     dv_file = [], dv_line = 0, dv_statement_identity = [], dv_has_target_loop_range = False, dv_target_loop_first = 0,
     dv_target_loop_last = 0, dv_rhs_selector_signal = - 1, dv_has_rhs_numeric_selector = False,
     dv_rhs_numeric_selector = 0\<rparr>"

record load_record =
  lr_consumer :: int
  lr_kind :: string
  lr_file :: string
  lr_line :: int

record port_connection =
  pc_port_signal :: int
  pc_connected_signal :: int
  pc_kind :: string

text \<open>The queries of an open database: a null pointer is \<open>None\<close>.\<close>

record design =
  ds_signal_count :: int
  ds_resolve :: "string \<Rightarrow> int"
  ds_signal_name :: "int \<Rightarrow> string option"
  ds_signal_direction :: "int \<Rightarrow> int"
  ds_port_connections :: "int \<Rightarrow> port_connection list"

text \<open>
  The contract: names resolve to signals or to \<open>-1\<close>, every signal has a name and a direction from 0 to 3, and
  the connections of a signal join it to signals of the design.
\<close>

locale design_contract =
  fixes valid :: "'s \<Rightarrow> bool"
    and queries :: "'s \<Rightarrow> design"
  assumes count_nonneg: "valid s \<Longrightarrow> 0 \<le> ds_signal_count (queries s)"
    and resolve_range: "valid s \<Longrightarrow> - 1 \<le> ds_resolve (queries s) n \<and> ds_resolve (queries s) n < ds_signal_count (queries s)"
    and has_name: "valid s \<Longrightarrow> 0 \<le> i \<Longrightarrow> i < ds_signal_count (queries s) \<Longrightarrow> ds_signal_name (queries s) i \<noteq> None"
    and direction_range: "valid s \<Longrightarrow> 0 \<le> ds_signal_direction (queries s) i \<and> ds_signal_direction (queries s) i \<le> 3"
    and connection_range: "valid s \<Longrightarrow> c \<in> set (ds_port_connections (queries s) i) \<Longrightarrow>
        pc_port_signal c = i \<and> 0 \<le> pc_connected_signal c \<and> pc_connected_signal c < ds_signal_count (queries s)"
begin

lemma resolved_has_name:
  "valid s \<Longrightarrow> ds_resolve (queries s) n \<noteq> - 1 \<Longrightarrow> ds_signal_name (queries s) (ds_resolve (queries s) n) \<noteq> None"
  using resolve_range [of s n] has_name [of s "ds_resolve (queries s) n"] by linarith

end

end
