(* ===== verification/Binary_Design.thy ===== *)
theory Binary_Design
  imports Design_Interface "HOL-Library.Monad_Syntax" "HOL-Library.List_Lexorder" "HOL-Library.Char_ord"
begin

text \<open>
  The memory-mapped design database: \<open>backend/binary_design_format.h\<close> and
  \<open>backend/binary_design_backend.{h,cpp}\<close>. The mapped file is a list of bytes. A read through a pointer is an option:
  \<open>None\<close> is a read outside the mapping (or a misaligned read of a 64-bit integer), which C++ leaves undefined. All
  later theorems that a result is \<open>Some\<close> say that no such read happens. A \<open>const char*\<close> that may be null is an option of
  the text up to its NUL. The host is little-endian, which is what the endian tag of the header checks.
\<close>

type_synonym image = "u8 list"

section \<open>Reading memory\<close>

text \<open>The integer whose little-endian bytes are given.\<close>

fun le_word :: "u8 list \<Rightarrow> 'a::len word" where
  "le_word [] = 0"
| "le_word (b # bs) = ucast b + 256 * le_word bs"

definition load_bytes :: "image \<Rightarrow> nat \<Rightarrow> nat \<Rightarrow> u8 list option" where
  "load_bytes bs off n = (if off + n \<le> length bs then Some (take n (drop off bs)) else None)"

definition field_u32 :: "u8 list \<Rightarrow> nat \<Rightarrow> u32" where
  "field_u32 r off = le_word (take 4 (drop off r))"

definition field_i32 :: "u8 list \<Rightarrow> nat \<Rightarrow> int" where
  "field_i32 r off = sint (field_u32 r off)"

definition field_u64 :: "u8 list \<Rightarrow> nat \<Rightarrow> u64" where
  "field_u64 r off = le_word (take 8 (drop off r))"

definition load_u64 :: "image \<Rightarrow> nat \<Rightarrow> u64 option" where
  "load_u64 bs off = (if off mod 8 = 0 then map_option (\<lambda>r. field_u64 r 0) (load_bytes bs off 8) else None)"

section \<open>The file format\<close>

definition kMagic :: "u8 list" where
  "kMagic = [88, 68, 68, 66, 73, 78, 49, 0]"

definition kMajor :: u32 where "kMajor = 1"
definition kMinor :: u32 where "kMinor = 0"
definition kEndianTag :: u32 where "kEndianTag = 0x01020304"

record section_entry =
  se_offset :: u64
  se_count :: u64

datatype section_index =
  Signals | NameIndex | Drivers | DriverStarts | Loads | LoadStarts | Ports | PortStarts | Strings

definition all_sections :: "section_index list" where
  "all_sections = [Signals, NameIndex, Drivers, DriverStarts, Loads, LoadStarts, Ports, PortStarts, Strings]"

fun section_no :: "section_index \<Rightarrow> nat" where
  "section_no Signals = 0"
| "section_no NameIndex = 1"
| "section_no Drivers = 2"
| "section_no DriverStarts = 3"
| "section_no Loads = 4"
| "section_no LoadStarts = 5"
| "section_no Ports = 6"
| "section_no PortStarts = 7"
| "section_no Strings = 8"

text \<open>The size of one element of a section: \<open>sizeof\<close> of its packed record.\<close>

fun section_width :: "section_index \<Rightarrow> nat" where
  "section_width Signals = 24"
| "section_width NameIndex = 8"
| "section_width Drivers = 28"
| "section_width DriverStarts = 8"
| "section_width Loads = 20"
| "section_width LoadStarts = 8"
| "section_width Ports = 12"
| "section_width PortStarts = 8"
| "section_width Strings = 1"

definition header_bytes :: nat where "header_bytes = 176"

record header =
  hd_magic :: "u8 list"
  hd_major :: u32
  hd_minor :: u32
  hd_endian_tag :: u32
  hd_header_size :: u32
  hd_file_size :: u64
  hd_sections :: "section_index \<Rightarrow> section_entry"

definition header_at :: "image \<Rightarrow> header option" where
  "header_at bs =
     map_option (\<lambda>r. \<lparr>hd_magic = take 8 r, hd_major = field_u32 r 8, hd_minor = field_u32 r 12,
         hd_endian_tag = field_u32 r 16, hd_header_size = field_u32 r 20, hd_file_size = field_u64 r 24,
         hd_sections = (\<lambda>s. \<lparr>se_offset = field_u64 r (32 + 16 * section_no s),
                             se_count = field_u64 r (40 + 16 * section_no s)\<rparr>)\<rparr>)
       (load_bytes bs 0 header_bytes)"

record signal_rec =
  sr_name :: u32
  sr_type :: u32
  sr_file :: u32
  sr_width :: int
  sr_line :: int
  sr_direction :: int

definition signal_rec_of :: "u8 list \<Rightarrow> signal_rec" where
  "signal_rec_of r = \<lparr>sr_name = field_u32 r 0, sr_type = field_u32 r 4, sr_file = field_u32 r 8,
     sr_width = field_i32 r 12, sr_line = field_i32 r 16, sr_direction = field_i32 r 20\<rparr>"

record name_index_rec =
  nr_name :: u32
  nr_signal :: int

definition name_index_rec_of :: "u8 list \<Rightarrow> name_index_rec" where
  "name_index_rec_of r = \<lparr>nr_name = field_u32 r 0, nr_signal = field_i32 r 4\<rparr>"

record driver_rec =
  br_target :: int
  br_source :: int
  br_kind :: u32
  br_role :: u32
  br_predicate :: u32
  br_file :: u32
  br_line :: int

definition driver_rec_of :: "u8 list \<Rightarrow> driver_rec" where
  "driver_rec_of r = \<lparr>br_target = field_i32 r 0, br_source = field_i32 r 4, br_kind = field_u32 r 8,
     br_role = field_u32 r 12, br_predicate = field_u32 r 16, br_file = field_u32 r 20, br_line = field_i32 r 24\<rparr>"

record load_rec =
  or_source :: int
  or_consumer :: int
  or_kind :: u32
  or_file :: u32
  or_line :: int

definition load_rec_of :: "u8 list \<Rightarrow> load_rec" where
  "load_rec_of r = \<lparr>or_source = field_i32 r 0, or_consumer = field_i32 r 4, or_kind = field_u32 r 8,
     or_file = field_u32 r 12, or_line = field_i32 r 16\<rparr>"

record port_rec =
  pr_signal :: int
  pr_connected :: int
  pr_kind :: u32

definition port_rec_of :: "u8 list \<Rightarrow> port_rec" where
  "port_rec_of r = \<lparr>pr_signal = field_i32 r 0, pr_connected = field_i32 r 4, pr_kind = field_u32 r 8\<rparr>"

section \<open>State\<close>

text \<open>
  The operating system calls of \<open>open\<close>: the descriptor (negative on failure), the size \<open>fstat\<close> reports, and the
  bytes that \<open>mmap\<close> makes visible.
\<close>

record design_os =
  os_open :: "string \<Rightarrow> int"
  os_size :: "int \<Rightarrow> int option"
  os_mmap :: "int \<Rightarrow> u64 \<Rightarrow> image option"

record binary_backend =
  bb_fd :: int
  bb_bytes :: "image option"
  bb_size :: u64
  bb_header :: "header option"

definition binary_backend_init :: binary_backend where
  "binary_backend_init = \<lparr>bb_fd = - 1, bb_bytes = None, bb_size = 0, bb_header = None\<rparr>"

definition close_design :: "binary_backend \<Rightarrow> binary_backend" where
  "close_design b = b\<lparr>bb_fd := - 1, bb_bytes := None, bb_size := 0, bb_header := None\<rparr>"

definition design_is_open :: "binary_backend \<Rightarrow> bool" where
  "design_is_open b \<longleftrightarrow> bb_bytes b \<noteq> None"

definition section_of :: "header \<Rightarrow> section_index \<Rightarrow> section_entry" where
  "section_of h s = hd_sections h s"

definition section_count :: "header \<Rightarrow> section_index \<Rightarrow> nat" where
  "section_count h s = unat (se_count (section_of h s))"

text \<open>Element \<open>i\<close> of a section, and entry \<open>i\<close> of a section of 64-bit integers.\<close>

definition element_at :: "image \<Rightarrow> header \<Rightarrow> section_index \<Rightarrow> nat \<Rightarrow> u8 list option" where
  "element_at bs h s i = load_bytes bs (unat (se_offset (section_of h s)) + i * section_width s) (section_width s)"

definition start_at :: "image \<Rightarrow> header \<Rightarrow> section_index \<Rightarrow> nat \<Rightarrow> u64 option" where
  "start_at bs h s i = load_u64 bs (unat (se_offset (section_of h s)) + i * 8)"

text \<open>\<open>memchr\<close> for the NUL in the next \<open>n\<close> bytes, with the text before it.\<close>

fun c_string :: "image \<Rightarrow> nat \<Rightarrow> nat \<Rightarrow> string option option" where
  "c_string bs p 0 = Some None"
| "c_string bs p (Suc n) =
     (if p < length bs then
        if bs ! p = 0 then Some (Some [])
        else map_option (map_option ((#) (char_of (unat (bs ! p))))) (c_string bs (Suc p) n)
      else None)"

definition string_at :: "image \<Rightarrow> header \<Rightarrow> u32 \<Rightarrow> string option option" where
  "string_at bs h offset =
     (let strings = section_of h Strings
      in if ucast offset \<ge> se_count strings then Some None
         else c_string bs (unat (se_offset strings) + unat offset) (unat (se_count strings - ucast offset)))"

section \<open>Validation\<close>

definition valid_section :: "header \<Rightarrow> section_index \<Rightarrow> u64 \<Rightarrow> bool" where
  "valid_section h s file_size =
     (let e = section_of h s; width = word_of_nat (section_width s)
      in if se_offset e < word_of_nat header_bytes \<or> se_offset e > file_size then False
         else if se_count e > (- 1) div width then False
         else se_count e * width \<le> file_size - se_offset e)"

definition int32_max :: u64 where "int32_max = 0x7FFFFFFF"

definition counts_ok :: "header \<Rightarrow> bool" where
  "counts_ok h =
     (let count = (\<lambda>s. se_count (section_of h s))
      in \<not> (count Signals > int32_max \<or> count Drivers > int32_max \<or> count Loads > int32_max \<or> count Ports > int32_max \<or>
            count NameIndex \<noteq> count Signals \<or> count DriverStarts \<noteq> count Signals + 1 \<or>
            count LoadStarts \<noteq> count Signals + 1 \<or> count PortStarts \<noteq> count Signals + 1 \<or> count Strings = 0))"

definition section_end :: "header \<Rightarrow> section_index \<Rightarrow> u64" where
  "section_end h s = se_offset (section_of h s) + se_count (section_of h s) * word_of_nat (section_width s)"

fun layout_loop :: "header \<Rightarrow> u64 \<Rightarrow> section_index list \<Rightarrow> bool" where
  "layout_loop h previous [] = True"
| "layout_loop h previous (s # r) =
     (if se_offset (section_of h s) < previous \<or> se_offset (section_of h s) mod 8 \<noteq> 0 then False
      else layout_loop h (section_end h s) r)"

text \<open>\<open>a && b\<close> with reads in both operands, and a loop that returns \<open>false\<close> at the first failed test.\<close>

definition and_then :: "bool option \<Rightarrow> bool option \<Rightarrow> bool option" where
  "and_then a b = (case a of None \<Rightarrow> None | Some True \<Rightarrow> b | Some False \<Rightarrow> Some False)"

fun all_loop :: "('a \<Rightarrow> bool option) \<Rightarrow> 'a list \<Rightarrow> bool option" where
  "all_loop f [] = Some True"
| "all_loop f (i # r) = and_then (f i) (all_loop f r)"

definition has_string :: "image \<Rightarrow> header \<Rightarrow> u32 \<Rightarrow> bool option" where
  "has_string bs h offset = map_option (\<lambda>s. s \<noteq> None) (string_at bs h offset)"

definition signal_record :: "image \<Rightarrow> header \<Rightarrow> nat \<Rightarrow> signal_rec option" where
  "signal_record bs h i = map_option signal_rec_of (element_at bs h Signals i)"

definition name_record :: "image \<Rightarrow> header \<Rightarrow> nat \<Rightarrow> name_index_rec option" where
  "name_record bs h i = map_option name_index_rec_of (element_at bs h NameIndex i)"

definition driver_record_at :: "image \<Rightarrow> header \<Rightarrow> nat \<Rightarrow> driver_rec option" where
  "driver_record_at bs h i = map_option driver_rec_of (element_at bs h Drivers i)"

definition load_record_at :: "image \<Rightarrow> header \<Rightarrow> nat \<Rightarrow> load_rec option" where
  "load_record_at bs h i = map_option load_rec_of (element_at bs h Loads i)"

definition port_record_at :: "image \<Rightarrow> header \<Rightarrow> nat \<Rightarrow> port_rec option" where
  "port_record_at bs h i = map_option port_rec_of (element_at bs h Ports i)"

definition check_signal :: "image \<Rightarrow> header \<Rightarrow> nat \<Rightarrow> bool option" where
  "check_signal bs h i = do {
     r \<leftarrow> signal_record bs h i;
     and_then (has_string bs h (sr_name r)) (and_then (has_string bs h (sr_type r)) (and_then (has_string bs h (sr_file r))
       (Some (\<not> (sr_direction r < 0 \<or> sr_direction r > 3)))))
   }"

fun names_loop :: "image \<Rightarrow> header \<Rightarrow> nat \<Rightarrow> nat list \<Rightarrow> bool list \<Rightarrow> string option \<Rightarrow> bool option" where
  "names_loop bs h signals [] indexed prior = Some True"
| "names_loop bs h signals (i # r) indexed prior = do {
     rec \<leftarrow> name_record bs h i;
     name \<leftarrow> string_at bs h (nr_name rec);
     (case name of
        None \<Rightarrow> Some False
      | Some n \<Rightarrow>
          if nr_signal rec < 0 \<or> nat (nr_signal rec) \<ge> signals then Some False
          else if indexed ! nat (nr_signal rec) then Some False
          else if (\<exists>p \<in> set_option prior. \<not> p < n) then Some False
          else names_loop bs h signals r (indexed[nat (nr_signal rec) := True]) (Some n))
   }"

definition validate_starts :: "image \<Rightarrow> header \<Rightarrow> nat \<Rightarrow> section_index \<Rightarrow> u64 \<Rightarrow> bool option" where
  "validate_starts bs h signals s records = do {
     first \<leftarrow> start_at bs h s 0;
     if first \<noteq> 0 then Some False
     else do {
       last \<leftarrow> start_at bs h s signals;
       if last \<noteq> records then Some False
       else all_loop (\<lambda>i. do { x \<leftarrow> start_at bs h s i; y \<leftarrow> start_at bs h s (i - 1); Some (\<not> (x < y \<or> x > records)) })
              [1..<signals + 1]
     }
   }"

function advance_owner :: "image \<Rightarrow> header \<Rightarrow> section_index \<Rightarrow> nat \<Rightarrow> nat \<Rightarrow> nat \<Rightarrow> nat option" where
  "advance_owner bs h s signals i owner =
     (if owner < signals then
        case start_at bs h s (owner + 1) of
          None \<Rightarrow> None
        | Some e \<Rightarrow> if i \<ge> unat e then advance_owner bs h s signals i (owner + 1) else Some owner
      else Some owner)"
  by pat_completeness auto
termination
  by (relation "measure (\<lambda>(_, _, _, signals, _, owner). signals - owner)") auto

declare advance_owner.simps [simp del]

text \<open>The loop over the records of a group section, with the test of one record and its owner as a parameter.\<close>

fun owned_loop ::
  "image \<Rightarrow> header \<Rightarrow> section_index \<Rightarrow> nat \<Rightarrow> (nat \<Rightarrow> nat \<Rightarrow> bool option) \<Rightarrow> nat list \<Rightarrow> nat \<Rightarrow> bool option" where
  "owned_loop bs h s signals check [] owner = Some True"
| "owned_loop bs h s signals check (i # r) owner =
     (case advance_owner bs h s signals i owner of
        None \<Rightarrow> None
      | Some owner \<Rightarrow>
          if owner \<ge> signals then Some False
          else and_then (check i owner) (owned_loop bs h s signals check r owner))"

definition check_driver :: "image \<Rightarrow> header \<Rightarrow> nat \<Rightarrow> nat \<Rightarrow> nat \<Rightarrow> bool option" where
  "check_driver bs h signals i owner = do {
     r \<leftarrow> driver_record_at bs h i;
     if br_target r < 0 \<or> nat (br_target r) \<noteq> owner \<or> br_source r < - 1 \<or> (br_source r \<ge> 0 \<and> nat (br_source r) \<ge> signals)
     then Some False
     else and_then (has_string bs h (br_kind r)) (and_then (has_string bs h (br_role r))
       (and_then (has_string bs h (br_predicate r)) (has_string bs h (br_file r))))
   }"

definition check_load :: "image \<Rightarrow> header \<Rightarrow> nat \<Rightarrow> nat \<Rightarrow> nat \<Rightarrow> bool option" where
  "check_load bs h signals i owner = do {
     r \<leftarrow> load_record_at bs h i;
     if or_source r < 0 \<or> or_consumer r < 0 \<or> nat (or_source r) \<noteq> owner \<or> nat (or_consumer r) \<ge> signals then Some False
     else and_then (has_string bs h (or_kind r)) (has_string bs h (or_file r))
   }"

definition check_port :: "image \<Rightarrow> header \<Rightarrow> nat \<Rightarrow> nat \<Rightarrow> nat \<Rightarrow> bool option" where
  "check_port bs h signals i owner = do {
     r \<leftarrow> port_record_at bs h i;
     if pr_signal r < 0 \<or> pr_connected r < 0 \<or> nat (pr_signal r) \<noteq> owner \<or> nat (pr_connected r) \<ge> signals then Some False
     else has_string bs h (pr_kind r)
   }"

definition validate_records :: "image \<Rightarrow> header \<Rightarrow> bool option" where
  "validate_records bs h =
     (let signals = section_count h Signals; count = (\<lambda>s. se_count (section_of h s))
      in and_then (all_loop (check_signal bs h) [0..<signals])
        (and_then (names_loop bs h signals [0..<signals] (replicate signals False) None)
        (and_then (validate_starts bs h signals DriverStarts (count Drivers))
        (and_then (validate_starts bs h signals LoadStarts (count Loads))
        (and_then (validate_starts bs h signals PortStarts (count Ports))
        (and_then (owned_loop bs h DriverStarts signals (check_driver bs h signals) [0..<section_count h Drivers] 0)
        (and_then (owned_loop bs h LoadStarts signals (check_load bs h signals) [0..<section_count h Loads] 0)
                  (owned_loop bs h PortStarts signals (check_port bs h signals) [0..<section_count h Ports] 0))))))))"

definition header_ok :: "header \<Rightarrow> u64 \<Rightarrow> bool" where
  "header_ok h sz \<longleftrightarrow>
     \<not> (hd_magic h \<noteq> kMagic \<or> hd_major h \<noteq> kMajor \<or> hd_minor h \<noteq> kMinor \<or> hd_endian_tag h \<noteq> kEndianTag \<or>
        hd_header_size h \<noteq> word_of_nat header_bytes \<or> hd_file_size h \<noteq> sz)"

definition sections_ok :: "header \<Rightarrow> u64 \<Rightarrow> bool" where
  "sections_ok h sz \<longleftrightarrow> (\<forall>s \<in> set all_sections. valid_section h s sz)"

definition validate :: "image \<Rightarrow> header \<Rightarrow> u64 \<Rightarrow> bool option" where
  "validate bs h sz =
     (if \<not> header_ok h sz then Some False
      else if \<not> sections_ok h sz \<or> \<not> counts_ok h then Some False
      else if \<not> layout_loop h (word_of_nat header_bytes) all_sections then Some False
      else validate_records bs h)"

definition open_design :: "design_os \<Rightarrow> string \<Rightarrow> binary_backend \<Rightarrow> (bool \<times> binary_backend) option" where
  "open_design os path b =
     (let b = close_design b; fd = os_open os path; b = b\<lparr>bb_fd := fd\<rparr>
      in if fd < 0 then Some (False, b)
         else case os_size os fd of
                None \<Rightarrow> Some (False, close_design b)
              | Some st_size \<Rightarrow>
                  if st_size < 0 \<or> st_size > 2 ^ 64 - 1 then Some (False, close_design b)
                  else
                    let b = b\<lparr>bb_size := word_of_int st_size\<rparr>
                    in if bb_size b < word_of_nat header_bytes then Some (False, close_design b)
                       else case os_mmap os fd (bb_size b) of
                              None \<Rightarrow> Some (False, close_design b)
                            | Some bs \<Rightarrow> do {
                                h \<leftarrow> header_at bs;
                                v \<leftarrow> validate bs h (bb_size b);
                                Some (if v then (True, b\<lparr>bb_bytes := Some bs, bb_header := Some h\<rparr>)
                                      else (False, close_design b))
                              })"

section \<open>Queries\<close>

definition valid_signal :: "header \<Rightarrow> int \<Rightarrow> bool" where
  "valid_signal h index \<longleftrightarrow> index \<ge> 0 \<and> nat index < section_count h Signals"

definition signal_count :: "header option \<Rightarrow> int" where
  "signal_count h = (case h of Some h \<Rightarrow> sint (ucast (se_count (section_of h Signals)) :: u32) | None \<Rightarrow> 0)"

function exact_loop :: "image \<Rightarrow> header \<Rightarrow> string \<Rightarrow> nat \<Rightarrow> nat \<Rightarrow> int option" where
  "exact_loop bs h query low high =
     (if low < high then
        let mid = low + (high - low) div 2
        in case name_record bs h mid of
             None \<Rightarrow> None
           | Some r \<Rightarrow>
               (case string_at bs h (nr_name r) of
                  Some (Some n) \<Rightarrow>
                    if query = n then Some (nr_signal r)
                    else if query < n then exact_loop bs h query low mid
                    else exact_loop bs h query (mid + 1) high
                | _ \<Rightarrow> None)
      else Some (- 1))"
  by pat_completeness auto
termination
  by (relation "measure (\<lambda>(_, _, _, low, high). high - low)") (auto simp: Let_def)

declare exact_loop.simps [simp del]

definition exact :: "image \<Rightarrow> header \<Rightarrow> string \<Rightarrow> int option" where
  "exact bs h query = exact_loop bs h query 0 (section_count h NameIndex)"

definition or_else :: "int option \<Rightarrow> int option \<Rightarrow> int option" where
  "or_else a b = (case a of None \<Rightarrow> None | Some r \<Rightarrow> if r \<ge> 0 then Some r else b)"

definition resolve :: "image \<Rightarrow> header \<Rightarrow> string option \<Rightarrow> int option" where
  "resolve bs h name =
     (case name of
        None \<Rightarrow> Some (- 1)
      | Some [] \<Rightarrow> Some (- 1)
      | Some query \<Rightarrow>
          or_else (exact bs h query)
            (let upper = starts_with ''TOP.'' query;
                 query' = (if upper then ''top.'' @ drop 4 query else query);
                 rest = (if \<not> starts_with ''top.'' query' then exact bs h (''top.'' @ query')
                         else or_else (exact bs h (drop 4 query')) (or_else (exact bs h (''top.'' @ query')) (Some (- 1))))
             in if upper then or_else (exact bs h query') rest else rest))"

definition signal_string :: "(signal_rec \<Rightarrow> u32) \<Rightarrow> image \<Rightarrow> header \<Rightarrow> int \<Rightarrow> string option option" where
  "signal_string field bs h idx =
     (if valid_signal h idx then do { r \<leftarrow> signal_record bs h (nat idx); string_at bs h (field r) } else Some None)"

definition signal_number :: "(signal_rec \<Rightarrow> int) \<Rightarrow> image \<Rightarrow> header \<Rightarrow> int \<Rightarrow> int option" where
  "signal_number field bs h idx =
     (if valid_signal h idx then map_option field (signal_record bs h (nat idx)) else Some 0)"

definition signal_name where "signal_name = signal_string sr_name"
definition signal_type where "signal_type = signal_string sr_type"
definition signal_file where "signal_file = signal_string sr_file"
definition signal_width where "signal_width = signal_number sr_width"
definition signal_line where "signal_line = signal_number sr_line"
definition signal_direction where "signal_direction = signal_number sr_direction"

definition grouped_range ::
  "image \<Rightarrow> header \<Rightarrow> section_index \<Rightarrow> section_index \<Rightarrow> int \<Rightarrow> (nat \<times> nat) option option" where
  "grouped_range bs h starts records signal =
     (if \<not> valid_signal h signal then Some None
      else do {
        b \<leftarrow> start_at bs h starts (nat signal);
        e \<leftarrow> start_at bs h starts (nat signal + 1);
        Some (if e \<le> se_count (section_of h records) then Some (unat b, unat e) else None)
      })"

definition group_count :: "image \<Rightarrow> header \<Rightarrow> section_index \<Rightarrow> section_index \<Rightarrow> int \<Rightarrow> int option" where
  "group_count bs h starts records signal = do {
     g \<leftarrow> grouped_range bs h starts records signal;
     Some (case g of None \<Rightarrow> 0 | Some (b, e) \<Rightarrow> sint (word_of_int (int e - int b) :: u32))
   }"

definition trace_driver_count where "trace_driver_count bs h = group_count bs h DriverStarts Drivers"
definition trace_load_count where "trace_load_count bs h = group_count bs h LoadStarts Loads"
definition port_conn_count where "port_conn_count bs h = group_count bs h PortStarts Ports"

text \<open>A text that is copied into a \<open>std::string\<close>: a null pointer there is undefined.\<close>

definition string_of :: "image \<Rightarrow> header \<Rightarrow> u32 \<Rightarrow> string option" where
  "string_of bs h offset = Option.bind (string_at bs h offset) (\<lambda>s. s)"

definition group_records ::
  "(nat \<Rightarrow> 'r option) \<Rightarrow> image \<Rightarrow> header \<Rightarrow> section_index \<Rightarrow> section_index \<Rightarrow> int \<Rightarrow> (int \<times> 'r list) option" where
  "group_records rec bs h starts records signal = do {
     g \<leftarrow> grouped_range bs h starts records signal;
     (case g of
        None \<Rightarrow> Some (0, [])
      | Some (b, e) \<Rightarrow> map_option (\<lambda>out. (sint (word_of_nat (length out) :: u32), out)) (those (map rec [b..<e])))
   }"

definition driver_out :: "image \<Rightarrow> header \<Rightarrow> nat \<Rightarrow> driver_record option" where
  "driver_out bs h i = do {
     r \<leftarrow> driver_record_at bs h i;
     kind \<leftarrow> string_of bs h (br_kind r);
     role \<leftarrow> string_of bs h (br_role r);
     predicate \<leftarrow> string_of bs h (br_predicate r);
     file_name \<leftarrow> string_of bs h (br_file r);
     Some (driver_record_init\<lparr>dv_src_signal := br_source r, dv_kind := kind, dv_dependency_role := role,
       dv_activation_predicate := predicate, dv_file := file_name, dv_line := br_line r\<rparr>)
   }"

definition load_out :: "image \<Rightarrow> header \<Rightarrow> nat \<Rightarrow> load_record option" where
  "load_out bs h i = do {
     r \<leftarrow> load_record_at bs h i;
     kind \<leftarrow> string_of bs h (or_kind r);
     file_name \<leftarrow> string_of bs h (or_file r);
     Some \<lparr>lr_consumer = or_consumer r, lr_kind = kind, lr_file = file_name, lr_line = or_line r\<rparr>
   }"

definition port_out :: "image \<Rightarrow> header \<Rightarrow> nat \<Rightarrow> port_connection option" where
  "port_out bs h i = do {
     r \<leftarrow> port_record_at bs h i;
     kind \<leftarrow> string_of bs h (pr_kind r);
     Some \<lparr>pc_port_signal = pr_signal r, pc_connected_signal = pr_connected r, pc_kind = kind\<rparr>
   }"

definition trace_driver where "trace_driver bs h = group_records (driver_out bs h) bs h DriverStarts Drivers"
definition trace_load where "trace_load bs h = group_records (load_out bs h) bs h LoadStarts Loads"
definition port_connections where "port_connections bs h = group_records (port_out bs h) bs h PortStarts Ports"

end
