(* ===== verification/Binary_Design_Safety.thy ===== *)
theory Binary_Design_Safety
  imports Binary_Design
begin

text \<open>
  What validation buys: it never reads outside the mapping itself, and once it has accepted a file no query does. The
  facts that validation establishes are collected in \<open>design_ok\<close>, which the queries' lemmas rest on.
\<close>

section \<open>Tests with reads\<close>

lemma and_then_True [simp]: "and_then a b = Some True \<longleftrightarrow> a = Some True \<and> b = Some True"
  by (auto simp: and_then_def split: option.splits bool.splits)

lemma and_then_defined: "a \<noteq> None \<Longrightarrow> (a = Some True \<Longrightarrow> b \<noteq> None) \<Longrightarrow> and_then a b \<noteq> None"
  by (auto simp: and_then_def split: option.splits bool.splits)

lemma and_then_None: "and_then a b = None \<longleftrightarrow> a = None \<or> a = Some True \<and> b = None"
  by (auto simp: and_then_def split: option.splits bool.splits)

lemma all_loop_True: "all_loop f xs = Some True \<longleftrightarrow> (\<forall>x \<in> set xs. f x = Some True)"
  by (induction xs) auto

lemma all_loop_defined: "(\<And>x. x \<in> set xs \<Longrightarrow> f x \<noteq> None) \<Longrightarrow> all_loop f xs \<noteq> None"
proof (induction xs)
  case (Cons x xs)
  then have "f x \<noteq> None" "all_loop f xs \<noteq> None" by auto
  then show ?case unfolding all_loop.simps by (rule and_then_defined)
qed simp

lemma those_defined: "(\<And>x. x \<in> set xs \<Longrightarrow> f x \<noteq> None) \<Longrightarrow> those (map f xs) = Some (map (the \<circ> f) xs)"
proof (induction xs)
  case (Cons x xs)
  then obtain y where "f x = Some y" by auto
  with Cons show ?case by simp
qed simp

lemma sint_small: "n < 2 ^ 31 \<Longrightarrow> sint (word_of_nat n :: u32) = int n"
  by (simp add: signed_of_nat signed_take_bit_int_eq_self)

section \<open>Sections in bounds\<close>

text \<open>What the first part of validation establishes, before any record is read.\<close>

definition bounds_ok :: "image \<Rightarrow> header \<Rightarrow> bool" where
  "bounds_ok bs h \<longleftrightarrow>
     (\<forall>s. unat (se_offset (section_of h s)) + section_count h s * section_width s \<le> length bs \<and>
          unat (se_offset (section_of h s)) mod 8 = 0) \<and>
     section_count h NameIndex = section_count h Signals \<and>
     (\<forall>s \<in> {DriverStarts, LoadStarts, PortStarts}. section_count h s = section_count h Signals + 1) \<and>
     (\<forall>s \<in> {Signals, Drivers, Loads, Ports}. section_count h s < 2 ^ 31)"

lemma section_width_bounds: "0 < section_width s" "section_width s < 32"
  by (cases s; simp)+

lemma all_sections_UNIV: "set all_sections = UNIV"
proof -
  have "s \<in> set all_sections" for s by (cases s) (simp_all add: all_sections_def)
  then show ?thesis by auto
qed

lemma unat_width: "unat (word_of_nat (section_width s) :: u64) = section_width s"
  using section_width_bounds(2) [of s] by (simp add: unat_of_nat)

lemma valid_section_bounds:
  assumes "valid_section h s sz"
  shows "unat (se_offset (section_of h s)) + section_count h s * section_width s \<le> unat sz"
proof -
  let ?w = "word_of_nat (section_width s) :: u64" and ?c = "se_count (section_of h s)" and ?o = "se_offset (section_of h s)"
  have a: "?o \<le> sz" "?c \<le> (- 1) div ?w" "?c * ?w \<le> sz - ?o"
    using assms by (auto simp: valid_section_def Let_def split: if_splits)
  have "unat ?c \<le> unat ((- 1) div ?w)" using a(2) by (simp add: word_le_nat_alt)
  also have "\<dots> = (2 ^ 64 - 1) div section_width s"
    by (simp add: unat_div unat_width unsigned_minus_1_eq_mask mask_eq_exp_minus_1)
  finally have "unat ?c * section_width s \<le> 2 ^ 64 - 1"
    using section_width_bounds(1) [of s] by (simp add: less_eq_div_iff_mult_less_eq)
  then have "unat (?c * ?w) = unat ?c * section_width s"
    by (subst unat_mult_lem [THEN iffD1]) (simp_all add: unat_width)
  moreover have "unat (?c * ?w) \<le> unat (sz - ?o)" using a(3) by (simp add: word_le_nat_alt)
  ultimately show ?thesis using a(1) by (simp add: section_count_def unat_sub word_le_nat_alt)
qed

lemma layout_aligned:
  "layout_loop h previous ss \<Longrightarrow> s \<in> set ss \<Longrightarrow> unat (se_offset (section_of h s)) mod 8 = 0"
proof (induction ss arbitrary: previous)
  case (Cons t ss)
  then show ?case
  proof (cases "s = t")
    case True
    with Cons.prems have "se_offset (section_of h s) mod 8 = 0" by (auto split: if_splits)
    then have "unat (se_offset (section_of h s) mod 8) = 0" by simp
    then show ?thesis by (simp only: unat_mod) simp
  qed (auto split: if_splits)
qed simp

lemma count_plus_one:
  assumes "(c :: u64) \<le> int32_max"
  shows "unat (c + 1) = unat c + 1"
proof -
  have "unat c \<le> unat int32_max" using assms by (simp add: word_le_nat_alt)
  then show ?thesis by (subst unat_plus_one) (simp_all add: int32_max_def)
qed

lemma bounds_ok_intro:
  assumes "sections_ok h (word_of_nat (length bs))" "counts_ok h" "layout_loop h (word_of_nat header_bytes) all_sections"
    and len: "length bs < 2 ^ 64"
  shows "bounds_ok bs h"
proof -
  have "unat (word_of_nat (length bs) :: u64) = length bs" using len by (simp add: unat_of_nat)
  then have "unat (se_offset (section_of h s)) + section_count h s * section_width s \<le> length bs" for s
    using assms(1) valid_section_bounds [of h s "word_of_nat (length bs)"] by (simp add: sections_ok_def all_sections_UNIV)
  moreover have "unat (se_offset (section_of h s)) mod 8 = 0" for s
    using layout_aligned [OF assms(3), of s] by (simp add: all_sections_UNIV)
  moreover have c: "se_count (section_of h Signals) \<le> int32_max" using assms(2) by (simp add: counts_ok_def Let_def not_less)
  moreover have "unat c < 2 ^ 31" if "c \<le> int32_max" for c :: u64
    using that by (simp add: word_le_nat_alt int32_max_def)
  ultimately show ?thesis
    using assms(2) count_plus_one [OF c] by (simp add: bounds_ok_def counts_ok_def Let_def section_count_def not_less)
qed

lemma element_defined:
  assumes "bounds_ok bs h" "i < section_count h s"
  shows "\<exists>r. element_at bs h s i = Some r"
proof -
  have "i * section_width s + section_width s \<le> section_count h s * section_width s"
    using assms(2) by (metis Suc_leI add.commute mult_Suc mult_le_mono1)
  moreover have "unat (se_offset (section_of h s)) + section_count h s * section_width s \<le> length bs"
    using assms(1) by (simp add: bounds_ok_def)
  ultimately have "unat (se_offset (section_of h s)) + i * section_width s + section_width s \<le> length bs" by linarith
  then show ?thesis by (simp add: element_at_def load_bytes_def)
qed

lemma start_defined:
  assumes "bounds_ok bs h" "s \<in> {DriverStarts, LoadStarts, PortStarts}" "i \<le> section_count h Signals"
  shows "\<exists>x. start_at bs h s i = Some x"
proof -
  have i: "i < section_count h s" using assms by (auto simp: bounds_ok_def)
  have w: "section_width s = 8" using assms(2) by auto
  have "unat (se_offset (section_of h s)) mod 8 = 0" using assms(1) by (simp add: bounds_ok_def)
  then have "(unat (se_offset (section_of h s)) + i * 8) mod 8 = 0" by (simp add: mod_add_left_eq [symmetric])
  with element_defined [OF assms(1) i] w show ?thesis by (auto simp: start_at_def load_u64_def element_at_def)
qed

lemma c_string_defined: "p + n \<le> length bs \<Longrightarrow> c_string bs p n \<noteq> None"
  by (induction bs p n rule: c_string.induct) auto

lemma string_defined:
  assumes "bounds_ok bs h"
  shows "string_at bs h offset \<noteq> None"
proof (cases "ucast offset \<ge> se_count (section_of h Strings)")
  case False
  let ?e = "section_of h Strings" and ?o = "ucast offset :: u64"
  have u: "unat ?o = unat offset" by (simp add: unsigned_ucast_eq take_bit_nat_eq_self less_trans [OF unsigned_less])
  have lt: "?o < se_count ?e" using False by simp
  then have "unat (se_count ?e - ?o) = unat (se_count ?e) - unat offset" using u by (simp add: unat_sub)
  moreover have "unat offset < unat (se_count ?e)" using lt u by (simp add: word_less_nat_alt)
  moreover have "unat (se_offset ?e) + unat (se_count ?e) \<le> length bs"
    using assms by (auto simp: bounds_ok_def section_count_def dest: spec [of _ Strings])
  ultimately show ?thesis using False by (simp add: string_at_def Let_def c_string_defined)
qed (simp add: string_at_def)

lemma has_string_defined: "bounds_ok bs h \<Longrightarrow> has_string bs h offset \<noteq> None"
  using string_defined by (simp add: has_string_def)

lemma has_string_True: "has_string bs h offset = Some True \<longleftrightarrow> (\<exists>t. string_at bs h offset = Some (Some t))"
  by (auto simp: has_string_def)

lemma string_of_Some: "string_of bs h offset = Some t \<longleftrightarrow> string_at bs h offset = Some (Some t)"
  by (auto simp: string_of_def split: bind_splits)

lemmas record_defs = signal_record_def name_record_def driver_record_at_def load_record_at_def port_record_at_def

lemma record_defined:
  assumes "bounds_ok bs h"
  shows "i < section_count h Signals \<Longrightarrow> \<exists>r. signal_record bs h i = Some r"
    and "i < section_count h Signals \<Longrightarrow> \<exists>r. name_record bs h i = Some r"
    and "i < section_count h Drivers \<Longrightarrow> \<exists>r. driver_record_at bs h i = Some r"
    and "i < section_count h Loads \<Longrightarrow> \<exists>r. load_record_at bs h i = Some r"
    and "i < section_count h Ports \<Longrightarrow> \<exists>r. port_record_at bs h i = Some r"
proof -
  have "section_count h NameIndex = section_count h Signals" using assms by (simp add: bounds_ok_def)
  then show "i < section_count h Signals \<Longrightarrow> \<exists>r. name_record bs h i = Some r"
    using element_defined [OF assms, of i NameIndex] by (auto simp: record_defs)
qed (use element_defined [OF assms, of i] in \<open>auto simp: record_defs\<close>)

section \<open>Validation reads in bounds\<close>

lemma check_signal_defined: "bounds_ok bs h \<Longrightarrow> i < section_count h Signals \<Longrightarrow> check_signal bs h i \<noteq> None"
  using record_defined(1) [of bs h i] has_string_defined [of bs h]
  by (auto simp: check_signal_def and_then_None iff del: not_None_eq)

lemma check_defined:
  assumes "bounds_ok bs h"
  shows "i < section_count h Drivers \<Longrightarrow> check_driver bs h signals i owner \<noteq> None"
    and "i < section_count h Loads \<Longrightarrow> check_load bs h signals i owner \<noteq> None"
    and "i < section_count h Ports \<Longrightarrow> check_port bs h signals i owner \<noteq> None"
  using record_defined(3-5) [OF assms, of i] has_string_defined [OF assms]
  by (auto simp: check_driver_def check_load_def check_port_def and_then_None split: if_splits iff del: not_None_eq)

lemma names_loop_defined:
  "bounds_ok bs h \<Longrightarrow> \<forall>i \<in> set is. i < section_count h Signals \<Longrightarrow> names_loop bs h signals is indexed prior \<noteq> None"
proof (induction "is" arbitrary: indexed prior)
  case (Cons i "is")
  obtain r where r: "name_record bs h i = Some r" using record_defined(2) [OF Cons.prems(1), of i] Cons.prems(2) by auto
  obtain n where "string_at bs h (nr_name r) = Some n" using string_defined [OF Cons.prems(1)] by fastforce
  with r Cons show ?case by (auto iff del: not_None_eq split: option.split)
qed simp

lemma validate_starts_defined:
  assumes "bounds_ok bs h" "s \<in> {DriverStarts, LoadStarts, PortStarts}"
  shows "validate_starts bs h (section_count h Signals) s records \<noteq> None"
proof -
  note st = start_defined [OF assms]
  obtain a b where "start_at bs h s 0 = Some a" "start_at bs h s (section_count h Signals) = Some b"
    using st [of 0] st [of "section_count h Signals"] by auto
  moreover have "do { x \<leftarrow> start_at bs h s i; y \<leftarrow> start_at bs h s (i - 1); Some (\<not> (x < y \<or> x > records)) } \<noteq> None"
    if i: "i \<in> set [1..<section_count h Signals + 1]" for i
  proof -
    obtain x y where "start_at bs h s i = Some x" "start_at bs h s (i - 1) = Some y"
      using st [of i] st [of "i - 1"] i by fastforce
    then show ?thesis by simp
  qed
  note all_loop_defined [of "[1..<section_count h Signals + 1]", OF this]
  ultimately show ?thesis by (simp add: validate_starts_def del: not_None_eq upt_Suc)
qed

lemma advance_owner_defined:
  assumes "bounds_ok bs h" "s \<in> {DriverStarts, LoadStarts, PortStarts}"
  shows "advance_owner bs h s (section_count h Signals) i owner \<noteq> None"
proof (induction "section_count h Signals - owner" arbitrary: owner)
  case 0
  then show ?case by (subst advance_owner.simps) simp
next
  case (Suc k)
  obtain e where "start_at bs h s (owner + 1) = Some e"
    using start_defined [OF assms, of "owner + 1"] Suc.hyps(2) by (metis Suc_eq_plus1 Suc_leI zero_less_Suc zero_less_diff)
  with Suc show ?case by (subst advance_owner.simps) simp
qed

lemma owned_loop_defined:
  assumes "bounds_ok bs h" "s \<in> {DriverStarts, LoadStarts, PortStarts}"
    and "\<And>i owner. i \<in> set is \<Longrightarrow> check i owner \<noteq> None"
  shows "owned_loop bs h s (section_count h Signals) check is owner \<noteq> None"
  using assms(3)
proof (induction "is" arbitrary: owner)
  case (Cons i "is")
  obtain k where k: "advance_owner bs h s (section_count h Signals) i owner = Some k"
    using advance_owner_defined [OF assms(1,2)] by blast
  have "and_then (check i k) (owned_loop bs h s (section_count h Signals) check is k) \<noteq> None"
    using Cons by (intro and_then_defined) auto
  with k show ?case by (simp del: not_None_eq)
qed simp

lemma validate_records_defined:
  assumes "bounds_ok bs h"
  shows "validate_records bs h \<noteq> None"
proof -
  let ?n = "section_count h Signals"
  have "all_loop (check_signal bs h) [0..<?n] \<noteq> None"
    by (rule all_loop_defined) (use check_signal_defined [OF assms] in auto)
  moreover have "names_loop bs h ?n [0..<?n] ix p \<noteq> None" for ix p by (rule names_loop_defined [OF assms]) simp
  moreover note validate_starts_defined [OF assms]
  moreover have "owned_loop bs h DriverStarts ?n (check_driver bs h ?n) [0..<section_count h Drivers] 0 \<noteq> None"
    "owned_loop bs h LoadStarts ?n (check_load bs h ?n) [0..<section_count h Loads] 0 \<noteq> None"
    "owned_loop bs h PortStarts ?n (check_port bs h ?n) [0..<section_count h Ports] 0 \<noteq> None"
    by (rule owned_loop_defined [OF assms]; use check_defined [OF assms] in simp)+
  ultimately show ?thesis unfolding validate_records_def Let_def by (intro and_then_defined) simp_all
qed

lemma validate_defined:
  assumes "length bs < 2 ^ 64"
  shows "validate bs h (word_of_nat (length bs)) \<noteq> None"
  using validate_records_defined [of bs h] bounds_ok_intro [of h bs] assms by (auto simp: validate_def)

section \<open>What validation establishes\<close>

definition start_of :: "image \<Rightarrow> header \<Rightarrow> section_index \<Rightarrow> nat \<Rightarrow> nat" where
  "start_of bs h s i = unat (the (start_at bs h s i))"

text \<open>The starts of the groups: a partition of the records, one group per signal.\<close>

definition starts_ok :: "image \<Rightarrow> header \<Rightarrow> section_index \<Rightarrow> section_index \<Rightarrow> bool" where
  "starts_ok bs h s records \<longleftrightarrow>
     start_of bs h s 0 = 0 \<and> start_of bs h s (section_count h Signals) = section_count h records \<and>
     (\<forall>i < section_count h Signals. start_of bs h s i \<le> start_of bs h s (i + 1)) \<and>
     (\<forall>i \<le> section_count h Signals. start_of bs h s i \<le> section_count h records)"

lemma validate_starts_ok:
  assumes "bounds_ok bs h" "s \<in> {DriverStarts, LoadStarts, PortStarts}"
    and v: "validate_starts bs h (section_count h Signals) s (se_count (section_of h records)) = Some True"
  shows "starts_ok bs h s records"
proof -
  let ?n = "section_count h Signals" and ?rec = "se_count (section_of h records)"
  have st: "start_at bs h s i = Some (the (start_at bs h s i))" if "i \<le> ?n" for i
    using start_defined [OF assms(1,2) that] by auto
  have "the (start_at bs h s 0) = 0 \<and> the (start_at bs h s ?n) = ?rec \<and>
    all_loop (\<lambda>i. do { x \<leftarrow> start_at bs h s i; y \<leftarrow> start_at bs h s (i - 1); Some (\<not> (x < y \<or> x > ?rec)) }) [1..<?n + 1] = Some True"
    using v st [of 0] st [of ?n] unfolding validate_starts_def
    by (cases "start_at bs h s 0"; cases "start_at bs h s ?n") (auto split: if_splits)
  then have ends: "the (start_at bs h s 0) = 0" "the (start_at bs h s ?n) = ?rec"
    and steps: "\<And>i. 1 \<le> i \<Longrightarrow> i \<le> ?n \<Longrightarrow>
      do { x \<leftarrow> start_at bs h s i; y \<leftarrow> start_at bs h s (i - 1); Some (\<not> (x < y \<or> x > ?rec)) } = Some True"
    by (auto simp: all_loop_True simp del: upt_Suc)
  have step: "start_of bs h s i \<le> start_of bs h s (i + 1) \<and> start_of bs h s (i + 1) \<le> section_count h records"
    if "i < ?n" for i
    using steps [of "i + 1"] that st [of i] st [of "i + 1"]
    by (auto simp: start_of_def section_count_def word_le_nat_alt not_less bind_eq_Some_conv)
  have "start_of bs h s i \<le> section_count h records" if "i \<le> ?n" for i
    using that step [of "i - 1"] ends(1) by (cases i) (auto simp: start_of_def)
  with step ends show ?thesis by (simp add: starts_ok_def start_of_def section_count_def)
qed

lemma starts_mono:
  assumes "starts_ok bs h s records" "i \<le> j" "j \<le> section_count h Signals"
  shows "start_of bs h s i \<le> start_of bs h s j"
  using assms(2,3)
proof (induction rule: dec_induct)
  case (step n)
  with assms(1) show ?case by (auto simp: starts_ok_def intro: le_trans)
qed simp

lemma advance_owner_le:
  assumes "bounds_ok bs h" "s \<in> {DriverStarts, LoadStarts, PortStarts}"
    and "advance_owner bs h s (section_count h Signals) i owner = Some k" "start_of bs h s owner \<le> i"
  shows "start_of bs h s k \<le> i \<and> (k < section_count h Signals \<longrightarrow> i < start_of bs h s (k + 1))"
  using assms(3,4)
proof (induction "section_count h Signals - owner" arbitrary: owner)
  case 0
  then show ?case by (simp add: advance_owner.simps [of bs h s _ i owner])
next
  case (Suc j)
  obtain e where e: "start_at bs h s (owner + 1) = Some e"
    using start_defined [OF assms(1,2), of "owner + 1"] Suc.hyps(2) by (metis Suc_eq_plus1 Suc_leI zero_less_Suc zero_less_diff)
  have "owner < section_count h Signals" using Suc.hyps(2) by simp
  with e have "advance_owner bs h s (section_count h Signals) i owner =
      (if unat e \<le> i then advance_owner bs h s (section_count h Signals) i (owner + 1) else Some owner)"
    by (subst advance_owner.simps) simp
  with Suc.prems(1) consider
    "unat e \<le> i" "advance_owner bs h s (section_count h Signals) i (owner + 1) = Some k" | "i < unat e" "k = owner"
    by (cases "unat e \<le> i") auto
  then show ?case
  proof cases
    case 1
    with e show ?thesis by (intro Suc.hyps(1)) (use Suc.hyps(2) in \<open>auto simp: start_of_def\<close>)
  next
    case 2
    with e Suc.prems(2) show ?thesis by (simp add: start_of_def)
  qed
qed

lemma owned_loop_owner:
  assumes "bounds_ok bs h" "s \<in> {DriverStarts, LoadStarts, PortStarts}"
    and "owned_loop bs h s (section_count h Signals) check [k..<n] owner = Some True" "start_of bs h s owner \<le> k"
    and "k \<le> i" "i < n"
  shows "\<exists>o'. o' < section_count h Signals \<and> start_of bs h s o' \<le> i \<and> i < start_of bs h s (o' + 1) \<and> check i o' = Some True"
  using assms(3-)
proof (induction "n - k" arbitrary: k owner)
  case (Suc j)
  then have u: "[k..<n] = k # [Suc k..<n]" by (simp add: upt_rec)
  with Suc.prems(1) obtain o' where o': "advance_owner bs h s (section_count h Signals) k owner = Some o'" "o' < section_count h Signals"
    "check k o' = Some True" "owned_loop bs h s (section_count h Signals) check [Suc k..<n] o' = Some True"
    by (auto split: option.splits if_splits)
  note le = advance_owner_le [OF assms(1,2) o'(1) Suc.prems(2)]
  show ?case
  proof (cases "i = k")
    case True
    with o' le show ?thesis by blast
  next
    case False
    with Suc.prems Suc.hyps(2) le show ?thesis by (intro Suc.hyps(1) [OF _ o'(4)]) auto
  qed
qed simp

text \<open>Every record in the group of a signal passed its test with that signal as the owner.\<close>

lemma group_checked:
  assumes "bounds_ok bs h" "s \<in> {DriverStarts, LoadStarts, PortStarts}" "starts_ok bs h s records"
    and loop: "owned_loop bs h s (section_count h Signals) check [0..<section_count h records] 0 = Some True"
    and sig: "k < section_count h Signals" and i: "start_of bs h s k \<le> i" "i < start_of bs h s (k + 1)"
  shows "i < section_count h records \<and> check i k = Some True"
proof -
  have lt: "i < section_count h records"
    using i(2) assms(3) sig by (auto simp: starts_ok_def intro: less_le_trans)
  have "start_of bs h s 0 \<le> 0" using assms(3) by (simp add: starts_ok_def)
  from owned_loop_owner [OF assms(1,2) loop this le0 lt] obtain o' where
    o': "o' < section_count h Signals" "start_of bs h s o' \<le> i" "i < start_of bs h s (o' + 1)" "check i o' = Some True"
    by blast
  have "\<not> o' < k" using starts_mono [OF assms(3), of "o' + 1" k] o' i sig by auto
  moreover have "\<not> k < o'" using starts_mono [OF assms(3), of "k + 1" o'] o' i sig by auto
  ultimately have "o' = k" by simp
  with lt o' show ?thesis by simp
qed

end
