(* ===== verification/Binary_Design_Queries.thy ===== *)
theory Binary_Design_Queries
  imports Binary_Design_Safety
begin

text \<open>
  The queries on a validated database. \<open>design_ok\<close> collects what validation establishes; from it follow that no query
  reads outside the mapping, that the binary search of \<open>resolve\<close> is a lookup in the name index, and that the groups of
  drivers, loads and port connections partition the records. The binary backend then meets the design contract.
\<close>

definition design_ok :: "image \<Rightarrow> header \<Rightarrow> bool" where
  "design_ok bs h \<longleftrightarrow> bounds_ok bs h \<and> validate_records bs h = Some True"

lemma validate_ok:
  assumes "validate bs h (word_of_nat (length bs)) = Some True" "length bs < 2 ^ 64"
  shows "design_ok bs h"
  using assms bounds_ok_intro [of h bs] by (auto simp: validate_def design_ok_def split: if_splits)

section \<open>Facts about single records\<close>

lemma design_ok_bounds: "design_ok bs h \<Longrightarrow> bounds_ok bs h"
  by (simp add: design_ok_def)

lemma design_ok_loops:
  assumes "design_ok bs h"
  shows "all_loop (check_signal bs h) [0..<section_count h Signals] = Some True"
    and "names_loop bs h (section_count h Signals) [0..<section_count h Signals] (replicate (section_count h Signals) False) None = Some True"
    and "owned_loop bs h DriverStarts (section_count h Signals) (check_driver bs h (section_count h Signals)) [0..<section_count h Drivers] 0 = Some True"
    and "owned_loop bs h LoadStarts (section_count h Signals) (check_load bs h (section_count h Signals)) [0..<section_count h Loads] 0 = Some True"
    and "owned_loop bs h PortStarts (section_count h Signals) (check_port bs h (section_count h Signals)) [0..<section_count h Ports] 0 = Some True"
  using assms by (simp_all add: design_ok_def validate_records_def Let_def)

lemma design_ok_starts:
  assumes "design_ok bs h"
  shows "starts_ok bs h DriverStarts Drivers" "starts_ok bs h LoadStarts Loads" "starts_ok bs h PortStarts Ports"
  using assms by (auto simp: design_ok_def validate_records_def Let_def intro!: validate_starts_ok)

lemma signal_checked:
  assumes "design_ok bs h" "i < section_count h Signals"
  obtains r n t f where "signal_record bs h i = Some r" "string_at bs h (sr_name r) = Some (Some n)"
    "string_at bs h (sr_type r) = Some (Some t)" "string_at bs h (sr_file r) = Some (Some f)"
    "0 \<le> sr_direction r" "sr_direction r \<le> 3"
proof -
  have "check_signal bs h i = Some True" using design_ok_loops(1) [OF assms(1)] assms(2) by (simp add: all_loop_True)
  then show thesis by (auto simp: check_signal_def bind_eq_Some_conv has_string_True intro!: that)
qed

lemma driver_out_defined:
  assumes "check_driver bs h n i k = Some True"
  shows "\<exists>r d. driver_record_at bs h i = Some r \<and> br_target r = int k \<and> driver_out bs h i = Some d \<and>
    dv_src_signal d = br_source r \<and> - 1 \<le> br_source r \<and> br_source r < int n"
  using assms by (auto simp: check_driver_def driver_out_def bind_eq_Some_conv has_string_True string_of_Some split: if_splits)

lemma load_out_defined:
  assumes "check_load bs h n i k = Some True"
  shows "\<exists>r d. load_record_at bs h i = Some r \<and> or_source r = int k \<and> load_out bs h i = Some d \<and>
    0 \<le> lr_consumer d \<and> lr_consumer d < int n"
  using assms by (auto simp: check_load_def load_out_def bind_eq_Some_conv has_string_True string_of_Some split: if_splits)

lemma port_out_defined:
  assumes "check_port bs h n i k = Some True"
  shows "\<exists>d. port_out bs h i = Some d \<and> pc_port_signal d = int k \<and> 0 \<le> pc_connected_signal d \<and> pc_connected_signal d < int n"
  using assms by (auto simp: check_port_def port_out_def bind_eq_Some_conv has_string_True string_of_Some split: if_splits)

section \<open>The name index\<close>

definition name_entry :: "image \<Rightarrow> header \<Rightarrow> nat \<Rightarrow> (string \<times> int) option" where
  "name_entry bs h i = do {
     r \<leftarrow> name_record bs h i;
     n \<leftarrow> string_of bs h (nr_name r);
     Some (n, nr_signal r)
   }"

text \<open>The entries of the name index in file order.\<close>

definition name_entries :: "image \<Rightarrow> header \<Rightarrow> (string \<times> int) list" where
  "name_entries bs h = map (the \<circ> name_entry bs h) [0..<section_count h Signals]"

lemma names_loop_entries:
  assumes "names_loop bs h n is indexed prior = Some True" "length indexed = n"
  shows "\<exists>es. map (name_entry bs h) is = map Some es \<and> sorted_wrt (<) (map fst es) \<and>
    (\<forall>p \<in> set_option prior. \<forall>e \<in> set es. p < fst e) \<and>
    (\<forall>e \<in> set es. 0 \<le> snd e \<and> nat (snd e) < n \<and> \<not> indexed ! nat (snd e)) \<and> distinct (map snd es)"
  using assms
proof (induction "is" arbitrary: indexed prior)
  case (Cons i "is")
  from Cons.prems(1) obtain r m where r: "name_record bs h i = Some r" "string_at bs h (nr_name r) = Some (Some m)"
    and s: "0 \<le> nr_signal r" "nat (nr_signal r) < n" "\<not> indexed ! nat (nr_signal r)" "\<forall>p \<in> set_option prior. p < m"
    and rest: "names_loop bs h n is (indexed[nat (nr_signal r) := True]) (Some m) = Some True"
    by (auto simp: bind_eq_Some_conv split: option.splits if_splits)
  from Cons.IH [OF rest] Cons.prems(2) obtain es where
    es: "map (name_entry bs h) is = map Some es" "sorted_wrt (<) (map fst es)" "\<forall>e \<in> set es. m < fst e"
      "\<forall>e \<in> set es. 0 \<le> snd e \<and> nat (snd e) < n \<and> \<not> indexed[nat (nr_signal r) := True] ! nat (snd e)" "distinct (map snd es)"
    by auto
  have "name_entry bs h i = Some (m, nr_signal r)" using r by (simp add: name_entry_def string_of_def)
  moreover have "snd e \<noteq> nr_signal r \<and> \<not> indexed ! nat (snd e)" if "e \<in> set es" for e
    using es(4) that s(2) Cons.prems(2) by (cases "nat (snd e) = nat (nr_signal r)") (auto simp: nth_list_update_neq)
  moreover have "p < fst e" if "e \<in> set es" "p \<in> set_option prior" for e p
    using es(3) s(4) that by (meson less_trans)
  ultimately show ?case using es s by (intro exI [of _ "(m, nr_signal r) # es"]) (simp add: image_iff, metis)
qed simp

lemma map_eq_map_Some: "map f xs = map Some ys \<Longrightarrow> map (the \<circ> f) xs = ys"
  by (metis list.map_comp list.map_id0 comp_def option.sel id_def map_idI)

lemma name_entries_ok:
  assumes "design_ok bs h"
  shows "map (name_entry bs h) [0..<section_count h Signals] = map Some (name_entries bs h)"
    and "sorted_wrt (<) (map fst (name_entries bs h))"
    and "(n, s) \<in> set (name_entries bs h) \<Longrightarrow> 0 \<le> s \<and> nat s < section_count h Signals"
    and "distinct (map snd (name_entries bs h))"
proof -
  from names_loop_entries [OF design_ok_loops(2) [OF assms]] obtain es where
    es: "map (name_entry bs h) [0..<section_count h Signals] = map Some es" "sorted_wrt (<) (map fst es)"
      "\<forall>e \<in> set es. 0 \<le> snd e \<and> nat (snd e) < section_count h Signals" "distinct (map snd es)"
    by auto
  then have e: "name_entries bs h = es" unfolding name_entries_def by (intro map_eq_map_Some)
  show "map (name_entry bs h) [0..<section_count h Signals] = map Some (name_entries bs h)"
    "sorted_wrt (<) (map fst (name_entries bs h))" "distinct (map snd (name_entries bs h))"
    using es e by simp_all
  show "(n, s) \<in> set (name_entries bs h) \<Longrightarrow> 0 \<le> s \<and> nat s < section_count h Signals" using es(3) e by force
qed

text \<open>The lookup that the binary search computes, with \<open>-1\<close> for an absent name.\<close>

definition index_lookup :: "(string \<times> int) list \<Rightarrow> string \<Rightarrow> int" where
  "index_lookup es q = (case map_of es q of Some s \<Rightarrow> s | None \<Rightarrow> - 1)"

lemma index_lookup_nth:
  assumes "sorted_wrt (<) (map fst es)" "i < length es"
  shows "index_lookup es (fst (es ! i)) = snd (es ! i)"
proof -
  have "(fst (es ! i), snd (es ! i)) \<in> set es" using assms(2) by simp
  with assms(1) have "map_of es (fst (es ! i)) = Some (snd (es ! i))"
    by (intro map_of_is_SomeI) (simp_all add: strict_sorted_iff)
  then show ?thesis by (simp add: index_lookup_def)
qed

lemma exact_loop_lookup:
  assumes "sorted_wrt (<) (map fst es)" "map (name_entry bs h) [0..<length es] = map Some es"
    and "\<And>i. i < length es \<Longrightarrow> fst (es ! i) = q \<Longrightarrow> low \<le> i \<and> i < high" "high \<le> length es"
  shows "exact_loop bs h q low high = Some (index_lookup es q)"
  using assms(3,4)
proof (induction "high - low" arbitrary: low high rule: less_induct)
  case less
  show ?case
  proof (cases "low < high")
    case False
    with less.prems(1) have "map_of es q = None" by (fastforce simp: map_of_eq_None_iff in_set_conv_nth)
    with False show ?thesis by (subst exact_loop.simps) (simp add: index_lookup_def)
  next
    case True
    define mid where "mid = low + (high - low) div 2"
    have mid: "low \<le> mid" "mid < high" "mid < length es" using True less.prems(2) by (auto simp: mid_def)
    have "name_entry bs h mid = Some (es ! mid)" using assms(2) mid(3) by (metis add_0 length_map map_nth nth_map nth_upt)
    then obtain r where r: "name_record bs h mid = Some r" "string_at bs h (nr_name r) = Some (Some (fst (es ! mid)))"
      "nr_signal r = snd (es ! mid)"
      by (auto simp: name_entry_def bind_eq_Some_conv string_of_Some prod_eq_iff)
    have step: "exact_loop bs h q low high = (if q = fst (es ! mid) then Some (nr_signal r)
        else if q < fst (es ! mid) then exact_loop bs h q low mid else exact_loop bs h q (mid + 1) high)"
      using True r by (subst exact_loop.simps) (simp add: mid_def Let_def)
    have mono: "i < j \<Longrightarrow> j < length es \<Longrightarrow> fst (es ! i) < fst (es ! j)" for i j
      using assms(1) by (simp add: sorted_wrt_iff_nth_less)
    consider "q = fst (es ! mid)" | "q < fst (es ! mid)" | "fst (es ! mid) < q" by fastforce
    then show ?thesis
    proof cases
      case 1
      with step index_lookup_nth [OF assms(1) mid(3)] r(3) show ?thesis by simp
    next
      case 2
      have "exact_loop bs h q low mid = Some (index_lookup es q)"
      proof (rule less.hyps)
        fix i assume i: "i < length es" "fst (es ! i) = q"
        then have "\<not> mid < i" "i \<noteq> mid" using 2 mono [of mid i] by (auto dest: less_trans)
        with less.prems(1) [OF i] show "low \<le> i \<and> i < mid" by simp
      qed (use mid in auto)
      with step 2 show ?thesis by auto
    next
      case 3
      have "exact_loop bs h q (mid + 1) high = Some (index_lookup es q)"
      proof (rule less.hyps)
        fix i assume i: "i < length es" "fst (es ! i) = q"
        then have "\<not> i < mid" "i \<noteq> mid" using 3 mono [of i mid] mid by (auto dest: less_trans)
        with less.prems(1) [OF i] show "mid + 1 \<le> i \<and> i < high" by simp
      qed (use mid less.prems in auto)
      with step 3 show ?thesis by auto
    qed
  qed
qed

lemma exact_lookup: "design_ok bs h \<Longrightarrow> exact bs h q = Some (index_lookup (name_entries bs h) q)"
  unfolding exact_def using name_entries_ok(1,2) [of bs h] design_ok_bounds [of bs h]
  by (intro exact_loop_lookup) (auto simp: name_entries_def bounds_ok_def)

lemma index_lookup_range:
  "design_ok bs h \<Longrightarrow> - 1 \<le> index_lookup (name_entries bs h) q \<and> index_lookup (name_entries bs h) q < int (section_count h Signals)"
  using name_entries_ok(3) [of bs h q] by (fastforce simp: index_lookup_def dest!: map_of_SomeD split: option.split)

section \<open>Resolving names\<close>

text \<open>The spellings that \<open>resolve\<close> tries, in order.\<close>

definition candidates :: "string \<Rightarrow> string list" where
  "candidates q =
     (if q = [] then []
      else if starts_with ''TOP.'' q then
        let q' = ''top.'' @ drop 4 q in [q, q', drop 4 q', ''top.'' @ q']
      else if starts_with ''top.'' q then [q, drop 4 q, ''top.'' @ q]
      else [q, ''top.'' @ q])"

fun first_found :: "(string \<Rightarrow> int) \<Rightarrow> string list \<Rightarrow> int" where
  "first_found f [] = - 1"
| "first_found f (q # qs) = (if 0 \<le> f q then f q else first_found f qs)"

lemma first_found_range:
  "(\<And>q. - 1 \<le> f q \<and> f q < n) \<Longrightarrow> - 1 \<le> first_found f qs \<and> first_found f qs < (n :: int)"
  by (induction qs) (auto, metis add.right_neutral less_le_trans zero_le_one add_uminus_conv_diff le_less_trans)

lemma resolve_candidates:
  assumes "design_ok bs h"
  shows "resolve bs h (Some q) = Some (first_found (index_lookup (name_entries bs h)) (candidates q))"
proof -
  let ?f = "index_lookup (name_entries bs h)"
  have miss: "\<not> 0 \<le> ?f q' \<Longrightarrow> ?f q' = - 1" for q' using index_lookup_range [OF assms, of q'] by linarith
  have or_else: "or_else (exact bs h q') (Some x) = Some (if 0 \<le> ?f q' then ?f q' else x)" for q' x
    by (simp add: exact_lookup [OF assms] or_else_def)
  have top: "starts_with ''top.'' (''top.'' @ drop 4 q)" by (simp add: starts_with_def)
  consider "q = []" | c t where "q = c # t" "starts_with ''TOP.'' q"
    | c t where "q = c # t" "\<not> starts_with ''TOP.'' q" "starts_with ''top.'' q"
    | c t where "q = c # t" "\<not> starts_with ''TOP.'' q" "\<not> starts_with ''top.'' q"
    by (cases q) auto
  then show ?thesis
  proof cases
    case 1
    then show ?thesis by (simp add: resolve_def candidates_def)
  next
    case 2
    then have "resolve bs h (Some q) = or_else (exact bs h q) (or_else (exact bs h (''top.'' @ drop 4 q))
        (or_else (exact bs h (drop 4 (''top.'' @ drop 4 q))) (or_else (exact bs h (''top.'' @ ''top.'' @ drop 4 q)) (Some (- 1)))))"
      using top by (simp add: resolve_def Let_def)
    with 2 show ?thesis unfolding or_else by (simp add: candidates_def Let_def)
  next
    case 3
    then have "resolve bs h (Some q) = or_else (exact bs h q)
        (or_else (exact bs h (drop 4 q)) (or_else (exact bs h (''top.'' @ q)) (Some (- 1))))"
      by (simp add: resolve_def Let_def)
    with 3 show ?thesis unfolding or_else by (simp add: candidates_def)
  next
    case 4
    then have "resolve bs h (Some q) = or_else (exact bs h q) (Some (?f (''top.'' @ q)))"
      by (simp add: resolve_def Let_def exact_lookup [OF assms])
    with 4 miss [of "''top.'' @ q"] show ?thesis unfolding or_else by (simp add: candidates_def)
  qed
qed

section \<open>The groups\<close>

lemma group_defined:
  assumes "design_ok bs h" "s \<in> {DriverStarts, LoadStarts, PortStarts}" "starts_ok bs h s records"
    and "k < section_count h Signals"
  shows "grouped_range bs h s records (int k) = Some (Some (start_of bs h s k, start_of bs h s (k + 1)))"
proof -
  have b: "bounds_ok bs h" using assms(1) by (rule design_ok_bounds)
  obtain x y where xy: "start_at bs h s k = Some x" "start_at bs h s (k + 1) = Some y"
    using start_defined [OF b assms(2), of k] start_defined [OF b assms(2), of "k + 1"] assms(4) by auto
  have "start_of bs h s (k + 1) \<le> section_count h records" using assms(3,4) by (simp add: starts_ok_def)
  with xy have "y \<le> se_count (section_of h records)" by (simp add: start_of_def section_count_def word_le_nat_alt)
  with xy assms(4) show ?thesis by (simp add: grouped_range_def valid_signal_def start_of_def)
qed

text \<open>
  A group section with its records: the conditions under which the group of a signal is the slice of the records
  that its starts delimit.
\<close>

lemma group_records_slice:
  assumes "design_ok bs h" "s \<in> {DriverStarts, LoadStarts, PortStarts}" "starts_ok bs h s records"
    and loop: "owned_loop bs h s (section_count h Signals) check [0..<section_count h records] 0 = Some True"
    and out: "\<And>i k. check i k = Some True \<Longrightarrow> rec i \<noteq> None"
    and k: "k < section_count h Signals" and small: "section_count h records < 2 ^ 31"
  shows "group_records rec bs h s records (int k) =
    Some (int (start_of bs h s (k + 1) - start_of bs h s k), map (the \<circ> rec) [start_of bs h s k..<start_of bs h s (k + 1)])"
proof -
  let ?b = "start_of bs h s k" and ?e = "start_of bs h s (k + 1)"
  have "rec i \<noteq> None" if "i \<in> set [?b..<?e]" for i
    using group_checked [OF design_ok_bounds [OF assms(1)] assms(2,3) loop k, of i] out that by auto
  then have t: "those (map rec [?b..<?e]) = Some (map (the \<circ> rec) [?b..<?e])" by (rule those_defined)
  have "?e \<le> section_count h records" using assms(3) k by (simp add: starts_ok_def)
  then have "?e - ?b < 2 ^ 31" using small by linarith
  then have "sint (word_of_nat (?e - ?b) :: u32) = int (?e - ?b)"
    by (rule sint_small)
  with t group_defined [OF assms(1-3) k] show ?thesis by (simp add: group_records_def)
qed

lemma group_records_invalid: "\<not> valid_signal h k \<Longrightarrow> group_records rec bs h s records k = Some (0, [])"
  by (simp add: group_records_def grouped_range_def)

lemma concat_groups:
  assumes "starts_ok bs h s records"
  shows "n \<le> section_count h Signals \<Longrightarrow>
    concat (map (\<lambda>k. [start_of bs h s k..<start_of bs h s (k + 1)]) [0..<n]) = [0..<start_of bs h s n]"
proof (induction n)
  case 0
  with assms show ?case by (simp add: starts_ok_def)
next
  case (Suc n)
  with assms show ?case
    by (simp add: starts_ok_def) (metis Suc_le_lessD le_add_diff_inverse upt_add_eq_append zero_le)
qed

lemma concat_group_records:
  assumes "starts_ok bs h s records"
    and "\<And>k. k < section_count h Signals \<Longrightarrow> g k = map f [start_of bs h s k..<start_of bs h s (k + 1)]"
  shows "concat (map g [0..<section_count h Signals]) = map f [0..<section_count h records]"
proof -
  have "concat (map g [0..<section_count h Signals]) =
      concat (map (\<lambda>k. map f [start_of bs h s k..<start_of bs h s (k + 1)]) [0..<section_count h Signals])"
    using assms(2) by (intro arg_cong [of _ _ concat] map_cong) auto
  also have "\<dots> = map f (concat (map (\<lambda>k. [start_of bs h s k..<start_of bs h s (k + 1)]) [0..<section_count h Signals]))"
    by (simp add: map_concat comp_def)
  also have "\<dots> = map f [0..<section_count h records]"
    using concat_groups [OF assms(1) order_refl] assms(1) by (simp add: starts_ok_def)
  finally show ?thesis .
qed

lemma group_count_slice:
  assumes "design_ok bs h" "s \<in> {DriverStarts, LoadStarts, PortStarts}" "starts_ok bs h s records"
    and k: "k < section_count h Signals" and small: "section_count h records < 2 ^ 31"
  shows "group_count bs h s records (int k) = Some (int (start_of bs h s (k + 1) - start_of bs h s k))"
proof -
  let ?b = "start_of bs h s k" and ?e = "start_of bs h s (k + 1)"
  have le: "?b \<le> ?e" "?e \<le> section_count h records" using assms(3) k by (simp_all add: starts_ok_def)
  then have "?e - ?b < 2 ^ 31" using small by linarith
  then have "sint (word_of_nat (?e - ?b) :: u32) = int (?e - ?b)" by (rule sint_small)
  moreover have "int ?e - int ?b = int (?e - ?b)" using le by simp
  ultimately have "sint (word_of_int (int ?e - int ?b) :: u32) = int (?e - ?b)" by (metis of_int_of_nat_eq)
  then show ?thesis
    unfolding group_count_def group_defined [OF assms(1-3) k] by (simp only: Option.bind.simps option.case prod.case)
qed

text \<open>The three kinds of groups, with the tests their records passed.\<close>

lemma group_instances:
  assumes "design_ok bs h" "k < section_count h Signals"
  shows "trace_driver bs h (int k) = Some (int (start_of bs h DriverStarts (k + 1) - start_of bs h DriverStarts k),
      map (the \<circ> driver_out bs h) [start_of bs h DriverStarts k..<start_of bs h DriverStarts (k + 1)])"
    and "trace_load bs h (int k) = Some (int (start_of bs h LoadStarts (k + 1) - start_of bs h LoadStarts k),
      map (the \<circ> load_out bs h) [start_of bs h LoadStarts k..<start_of bs h LoadStarts (k + 1)])"
    and "port_connections bs h (int k) = Some (int (start_of bs h PortStarts (k + 1) - start_of bs h PortStarts k),
      map (the \<circ> port_out bs h) [start_of bs h PortStarts k..<start_of bs h PortStarts (k + 1)])"
proof -
  note b = design_ok_bounds [OF assms(1)]
  show "trace_driver bs h (int k) = Some (int (start_of bs h DriverStarts (k + 1) - start_of bs h DriverStarts k),
      map (the \<circ> driver_out bs h) [start_of bs h DriverStarts k..<start_of bs h DriverStarts (k + 1)])"
    unfolding trace_driver_def
    by (rule group_records_slice [OF assms(1) _ design_ok_starts(1) [OF assms(1)] design_ok_loops(3) [OF assms(1)] _ assms(2)])
      (use b in \<open>auto simp: bounds_ok_def dest: driver_out_defined\<close>)
  show "trace_load bs h (int k) = Some (int (start_of bs h LoadStarts (k + 1) - start_of bs h LoadStarts k),
      map (the \<circ> load_out bs h) [start_of bs h LoadStarts k..<start_of bs h LoadStarts (k + 1)])"
    unfolding trace_load_def
    by (rule group_records_slice [OF assms(1) _ design_ok_starts(2) [OF assms(1)] design_ok_loops(4) [OF assms(1)] _ assms(2)])
      (use b in \<open>auto simp: bounds_ok_def dest: load_out_defined\<close>)
  show "port_connections bs h (int k) = Some (int (start_of bs h PortStarts (k + 1) - start_of bs h PortStarts k),
      map (the \<circ> port_out bs h) [start_of bs h PortStarts k..<start_of bs h PortStarts (k + 1)])"
    unfolding port_connections_def
    by (rule group_records_slice [OF assms(1) _ design_ok_starts(3) [OF assms(1)] design_ok_loops(5) [OF assms(1)] _ assms(2)])
      (use b in \<open>auto simp: bounds_ok_def dest: port_out_defined\<close>)
qed

end
