(* ===== verification/Binary_Design_Properties.thy ===== *)
theory Binary_Design_Properties
  imports Binary_Design_Queries
begin

text \<open>
  The binary design database meets the design contract, and the properties of its file handling and queries.
\<close>

section \<open>The design contract\<close>

definition binary_queries :: "image \<times> header \<Rightarrow> design" where
  "binary_queries = (\<lambda>(bs, h). \<lparr>ds_signal_count = signal_count (Some h), ds_resolve = (\<lambda>n. the (resolve bs h (Some n))),
     ds_signal_name = (\<lambda>i. the (signal_name bs h i)), ds_signal_direction = (\<lambda>i. the (signal_direction bs h i)),
     ds_port_connections = (\<lambda>i. snd (the (port_connections bs h i)))\<rparr>)"

definition binary_valid :: "image \<times> header \<Rightarrow> bool" where
  "binary_valid = (\<lambda>(bs, h). design_ok bs h)"

lemma signal_count_eq:
  assumes "bounds_ok bs h"
  shows "signal_count (Some h) = int (section_count h Signals)"
proof -
  let ?c = "se_count (section_of h Signals)"
  have lt: "unat ?c < 2 ^ 31" using assms by (simp add: bounds_ok_def section_count_def)
  from sint_small [OF lt] show ?thesis by (simp add: signal_count_def section_count_def)
qed

lemma valid_signal_iff: "valid_signal h i \<longleftrightarrow> (\<exists>k. i = int k \<and> k < section_count h Signals)"
  unfolding valid_signal_def by (metis int_nat_eq nat_int of_nat_0_le_iff)

lemma name_and_direction:
  assumes "design_ok bs h"
  shows "valid_signal h i \<Longrightarrow> \<exists>n. signal_name bs h i = Some (Some n)"
    and "\<exists>d. signal_direction bs h i = Some d \<and> 0 \<le> d \<and> d \<le> 3"
proof -
  show "\<exists>n. signal_name bs h i = Some (Some n)" if v: "valid_signal h i"
  proof -
    have "nat i < section_count h Signals" using v by (simp add: valid_signal_def)
    then obtain r n where "signal_record bs h (nat i) = Some r" "string_at bs h (sr_name r) = Some (Some n)"
      using signal_checked [OF assms] by metis
    with v show ?thesis by (simp add: signal_name_def signal_string_def)
  qed
  show "\<exists>d. signal_direction bs h i = Some d \<and> 0 \<le> d \<and> d \<le> 3"
  proof (cases "valid_signal h i")
    case True
    then have "nat i < section_count h Signals" by (simp add: valid_signal_def)
    then obtain r where "signal_record bs h (nat i) = Some r" "0 \<le> sr_direction r" "sr_direction r \<le> 3"
      using signal_checked [OF assms] by metis
    with True show ?thesis by (simp add: signal_direction_def signal_number_def)
  qed (simp add: signal_direction_def signal_number_def)
qed

lemma resolve_range:
  assumes "design_ok bs h"
  shows "\<exists>r. resolve bs h name = Some r \<and> - 1 \<le> r \<and> r < int (section_count h Signals)"
proof (cases name)
  case (Some q)
  have "- 1 \<le> first_found (index_lookup (name_entries bs h)) (candidates q) \<and>
      first_found (index_lookup (name_entries bs h)) (candidates q) < int (section_count h Signals)"
    by (rule first_found_range) (rule index_lookup_range [OF assms])
  with Some show ?thesis by (simp add: resolve_candidates [OF assms])
qed (simp add: resolve_def)

lemma port_connections_defined: "design_ok bs h \<Longrightarrow> \<exists>n out. port_connections bs h i = Some (n, out)"
proof (cases "valid_signal h i")
  case False
  then show ?thesis by (simp add: port_connections_def group_records_invalid)
qed (auto simp: valid_signal_iff group_instances)

lemma port_connections_range:
  assumes "design_ok bs h" "port_connections bs h i = Some (n, out)" "c \<in> set out"
  shows "valid_signal h i \<and> pc_port_signal c = i \<and> 0 \<le> pc_connected_signal c \<and> pc_connected_signal c < int (section_count h Signals)"
proof (cases "valid_signal h i")
  case True
  then obtain k where k: "i = int k" "k < section_count h Signals" by (auto simp: valid_signal_iff)
  with group_instances(3) [OF assms(1) k(2)] assms(2,3) obtain j where
    j: "start_of bs h PortStarts k \<le> j" "j < start_of bs h PortStarts (k + 1)" "c = the (port_out bs h j)"
    by auto
  from group_checked [OF design_ok_bounds [OF assms(1)] _ design_ok_starts(3) [OF assms(1)] design_ok_loops(5) [OF assms(1)] k(2) j(1,2)]
  have "check_port bs h (section_count h Signals) j k = Some True" by simp
  from port_out_defined [OF this] j(3) k(1) True show ?thesis by auto
next
  case False
  with assms(2,3) show ?thesis by (simp add: port_connections_def group_records_invalid)
qed

interpretation binary: design_contract binary_valid binary_queries
proof (unfold_locales)
  fix s n i c assume "binary_valid s"
  then obtain bs h where s: "s = (bs, h)" "design_ok bs h" by (cases s) (simp add: binary_valid_def)
  note cnt = signal_count_eq [OF design_ok_bounds [OF s(2)]]
  show "0 \<le> ds_signal_count (binary_queries s)" by (simp add: s binary_queries_def cnt)
  show "- 1 \<le> ds_resolve (binary_queries s) n \<and> ds_resolve (binary_queries s) n < ds_signal_count (binary_queries s)"
    using resolve_range [OF s(2), of "Some n"] by (auto simp: s(1) binary_queries_def cnt)
  show "0 \<le> ds_signal_direction (binary_queries s) i \<and> ds_signal_direction (binary_queries s) i \<le> 3"
    using name_and_direction(2) [OF s(2), of i] by (auto simp: s(1) binary_queries_def)
  show "ds_signal_name (binary_queries s) i \<noteq> None" if "0 \<le> i" "i < ds_signal_count (binary_queries s)"
    using name_and_direction(1) [OF s(2), of i] that by (auto simp: s(1) binary_queries_def cnt valid_signal_def nat_less_iff)
  show "pc_port_signal c = i \<and> 0 \<le> pc_connected_signal c \<and> pc_connected_signal c < ds_signal_count (binary_queries s)"
    if c: "c \<in> set (ds_port_connections (binary_queries s) i)"
  proof -
    obtain m out where o: "port_connections bs h i = Some (m, out)"
      using port_connections_defined [OF s(2)] by blast
    with c have "c \<in> set out" by (simp add: s(1) binary_queries_def)
    from port_connections_range [OF s(2) o this] show ?thesis by (simp add: s(1) binary_queries_def cnt)
  qed
qed

section \<open>Properties\<close>

text \<open>
  Claim C3 (safety). Opening a database never reads outside the mapped file, whatever bytes the file holds: \<open>open\<close>
  always returns, it returns true exactly when a validated database is open afterwards, and every failure leaves the
  backend closed. The hypothesis is what \<open>mmap\<close> documents: the mapping has the size asked for.
\<close>

theorem open_design_safe:
  assumes "\<And>fd sz bs. os_mmap os fd sz = Some bs \<Longrightarrow> length bs = unat sz"
  shows "\<exists>ok b'. open_design os path b = Some (ok, b') \<and> (ok \<longleftrightarrow> design_is_open b') \<and>
    (\<forall>bs. bb_bytes b' = Some bs \<longrightarrow> (\<exists>h. bb_header b' = Some h \<and> header_at bs = Some h \<and>
       validate bs h (word_of_nat (length bs)) = Some True \<and> length bs < 2 ^ 64))"
    (is "\<exists>ok b'. open_design os path b = Some (ok, b') \<and> ?post ok b'")
proof -
  let ?b = "(close_design b)\<lparr>bb_fd := os_open os path\<rparr>"
  have closed: "?post False (close_design c)" "?post False ?b" for c
    by (simp_all add: design_is_open_def close_design_def)
  show ?thesis
  proof (cases "open_design os path b = Some (False, ?b) \<or> (\<exists>c. open_design os path b = Some (False, close_design c))")
    case True
    then show ?thesis using closed by blast
  next
    case False
    then obtain st bs where st: "os_size os (os_open os path) = Some st" "\<not> (word_of_int st :: u64) < word_of_nat header_bytes"
      and bs: "os_mmap os (os_open os path) (word_of_int st) = Some bs"
      and o: "open_design os path b = do { h \<leftarrow> header_at bs; v \<leftarrow> validate bs h (word_of_int st);
        Some (if v then (True, ?b\<lparr>bb_size := word_of_int st, bb_bytes := Some bs, bb_header := Some h\<rparr>)
              else (False, close_design (?b\<lparr>bb_size := word_of_int st\<rparr>))) }"
      by (auto simp: open_design_def Let_def split: option.splits if_splits)
    have len: "length bs = unat (word_of_int st :: u64)" using assms bs by blast
    then have w: "word_of_int st = (word_of_nat (length bs) :: u64)" and small: "length bs < 2 ^ 64"
      using unsigned_less [of "word_of_int st :: u64"] by simp_all
    have "header_bytes \<le> length bs" using st(2) len by (simp add: not_less word_le_nat_alt header_bytes_def)
    then obtain h where h: "header_at bs = Some h" by (auto simp: header_at_def load_bytes_def)
    obtain v where v: "validate bs h (word_of_nat (length bs)) = Some v" using validate_defined [OF small] by blast
    show ?thesis
    proof (cases v)
      case True
      with o h v w small show ?thesis by (auto simp: design_is_open_def)
    next
      case False
      with o h v w have "open_design os path b = Some (False, close_design (?b\<lparr>bb_size := word_of_int st\<rparr>))" by simp
      then show ?thesis using closed(1) by blast
    qed
  qed
qed

text \<open>
  A file with one signal \<open>a\<close> (declared at line 3, an input), one statement-only driver of it at line 9, no loads and no
  ports. The strings are the empty text and \<open>a\<close>.
\<close>

definition sample_image :: image where
  "sample_image = [
     88, 68, 68, 66, 73, 78, 49, 0, 1, 0, 0, 0, 0, 0, 0, 0, 4, 3, 2, 1, 176, 0, 0, 0,
     35, 1, 0, 0, 0, 0, 0, 0, 176, 0, 0, 0, 0, 0, 0, 0, 1, 0, 0, 0, 0, 0, 0, 0,
     200, 0, 0, 0, 0, 0, 0, 0, 1, 0, 0, 0, 0, 0, 0, 0, 208, 0, 0, 0, 0, 0, 0, 0,
     1, 0, 0, 0, 0, 0, 0, 0, 240, 0, 0, 0, 0, 0, 0, 0, 2, 0, 0, 0, 0, 0, 0, 0,
     0, 1, 0, 0, 0, 0, 0, 0, 0, 0, 0, 0, 0, 0, 0, 0, 0, 1, 0, 0, 0, 0, 0, 0,
     2, 0, 0, 0, 0, 0, 0, 0, 16, 1, 0, 0, 0, 0, 0, 0, 0, 0, 0, 0, 0, 0, 0, 0,
     16, 1, 0, 0, 0, 0, 0, 0, 2, 0, 0, 0, 0, 0, 0, 0, 32, 1, 0, 0, 0, 0, 0, 0,
     3, 0, 0, 0, 0, 0, 0, 0, 1, 0, 0, 0, 0, 0, 0, 0, 0, 0, 0, 0, 1, 0, 0, 0,
     3, 0, 0, 0, 1, 0, 0, 0, 1, 0, 0, 0, 0, 0, 0, 0, 0, 0, 0, 0, 255, 255, 255, 255,
     0, 0, 0, 0, 0, 0, 0, 0, 0, 0, 0, 0, 0, 0, 0, 0, 9, 0, 0, 0, 0, 0, 0, 0,
     0, 0, 0, 0, 0, 0, 0, 0, 1, 0, 0, 0, 0, 0, 0, 0, 0, 0, 0, 0, 0, 0, 0, 0,
     0, 0, 0, 0, 0, 0, 0, 0, 0, 0, 0, 0, 0, 0, 0, 0, 0, 0, 0, 0, 0, 0, 0, 0,
     0, 97, 0]"

definition sample_header :: header where
  "sample_header = the (header_at sample_image)"

lemma sample_length: "length sample_image = 291"
  by code_simp

lemma sample_header_at: "header_at sample_image = Some sample_header"
  by (simp add: sample_header_def header_at_def load_bytes_def sample_length header_bytes_def)

lemma sample_valid: "validate sample_image sample_header 291 = Some True"
  by code_simp

lemma sample_validated: "validate sample_image sample_header (word_of_nat (length sample_image)) = Some True"
  using sample_valid by (simp add: sample_length)

definition sample_os :: design_os where
  "sample_os = \<lparr>os_open = (\<lambda>p. 3), os_size = (\<lambda>fd. Some 291),
     os_mmap = (\<lambda>fd sz. if sz = 291 then Some sample_image else None)\<rparr>"

theorem open_design_safe_witness:
  "\<exists>ok b'. open_design sample_os ''a.xdd'' binary_backend_init = Some (ok, b') \<and> (ok \<longleftrightarrow> design_is_open b')"
proof -
  have "length bs = unat sz" if "os_mmap sample_os fd sz = Some bs" for fd sz bs
    using that by (auto simp: sample_os_def sample_length split: if_splits)
  then show ?thesis using open_design_safe [of sample_os "''a.xdd''" binary_backend_init] by blast
qed

text \<open>
  Claim C30 (safety). After validation no query reads outside the mapping, follows a null string or returns an index out of
  range: every accessor returns for every signal number, a signal has a name, a type and a file, a name resolves to \<open>-1\<close>
  or to a signal, and the sources, consumers and connections of a signal are signals (or \<open>-1\<close> for a driver without
  a source).
\<close>

theorem validated_queries_safe:
  assumes "validate bs h (word_of_nat (length bs)) = Some True" and "length bs < 2 ^ 64"
  shows "(\<exists>r. resolve bs h name = Some r \<and> - 1 \<le> r \<and> r < signal_count (Some h)) \<and>
    (0 \<le> i \<and> i < signal_count (Some h) \<longrightarrow>
       (\<exists>n t f. signal_name bs h i = Some (Some n) \<and> signal_type bs h i = Some (Some t) \<and> signal_file bs h i = Some (Some f))) \<and>
    (\<exists>d. signal_direction bs h i = Some d \<and> 0 \<le> d \<and> d \<le> 3) \<and>
    (\<exists>n out. trace_driver bs h i = Some (n, out) \<and> n = int (length out) \<and>
       (\<forall>d \<in> set out. - 1 \<le> dv_src_signal d \<and> dv_src_signal d < signal_count (Some h))) \<and>
    (\<exists>n out. trace_load bs h i = Some (n, out) \<and> n = int (length out) \<and>
       (\<forall>d \<in> set out. 0 \<le> lr_consumer d \<and> lr_consumer d < signal_count (Some h))) \<and>
    (\<exists>n out. port_connections bs h i = Some (n, out) \<and> n = int (length out) \<and>
       (\<forall>d \<in> set out. pc_port_signal d = i \<and> 0 \<le> pc_connected_signal d \<and> pc_connected_signal d < signal_count (Some h)))"
proof -
  have ok: "design_ok bs h" using assms by (rule validate_ok)
  note b = design_ok_bounds [OF ok]
  note cnt = signal_count_eq [OF b]
  have "\<exists>r. resolve bs h name = Some r \<and> - 1 \<le> r \<and> r < signal_count (Some h)"
    using resolve_range [OF ok] by (simp add: cnt)
  moreover have "\<exists>n t f. signal_name bs h i = Some (Some n) \<and> signal_type bs h i = Some (Some t) \<and> signal_file bs h i = Some (Some f)"
    if "0 \<le> i" "i < signal_count (Some h)"
  proof -
    have v: "valid_signal h i" "nat i < section_count h Signals" using that by (auto simp: cnt valid_signal_def)
    from signal_checked [OF ok v(2)] obtain rec n t f where "signal_record bs h (nat i) = Some rec"
      "string_at bs h (sr_name rec) = Some (Some n)" "string_at bs h (sr_type rec) = Some (Some t)"
      "string_at bs h (sr_file rec) = Some (Some f)" by metis
    with v(1) show ?thesis by (simp add: signal_name_def signal_type_def signal_file_def signal_string_def)
  qed
  moreover have "(\<exists>n out. trace_driver bs h i = Some (n, out) \<and> n = int (length out) \<and>
       (\<forall>d \<in> set out. - 1 \<le> dv_src_signal d \<and> dv_src_signal d < signal_count (Some h)))"
  proof (cases "valid_signal h i")
    case True
    then obtain k where k: "i = int k" "k < section_count h Signals" by (auto simp: valid_signal_iff)
    have "- 1 \<le> dv_src_signal (the (driver_out bs h j)) \<and> dv_src_signal (the (driver_out bs h j)) < signal_count (Some h)"
      if "start_of bs h DriverStarts k \<le> j" "j < start_of bs h DriverStarts (k + 1)" for j
      using group_checked [OF b _ design_ok_starts(1) [OF ok] design_ok_loops(3) [OF ok] k(2) that] cnt
      by (auto dest!: driver_out_defined)
    with group_instances(1) [OF ok k(2)] k(1) show ?thesis by auto
  qed (simp add: trace_driver_def group_records_invalid)
  moreover have "(\<exists>n out. trace_load bs h i = Some (n, out) \<and> n = int (length out) \<and>
       (\<forall>d \<in> set out. 0 \<le> lr_consumer d \<and> lr_consumer d < signal_count (Some h)))"
  proof (cases "valid_signal h i")
    case True
    then obtain k where k: "i = int k" "k < section_count h Signals" by (auto simp: valid_signal_iff)
    have "0 \<le> lr_consumer (the (load_out bs h j)) \<and> lr_consumer (the (load_out bs h j)) < signal_count (Some h)"
      if "start_of bs h LoadStarts k \<le> j" "j < start_of bs h LoadStarts (k + 1)" for j
      using group_checked [OF b _ design_ok_starts(2) [OF ok] design_ok_loops(4) [OF ok] k(2) that] cnt
      by (auto dest!: load_out_defined)
    with group_instances(2) [OF ok k(2)] k(1) show ?thesis by auto
  qed (simp add: trace_load_def group_records_invalid)
  moreover have "(\<exists>n out. port_connections bs h i = Some (n, out) \<and> n = int (length out) \<and>
       (\<forall>d \<in> set out. pc_port_signal d = i \<and> 0 \<le> pc_connected_signal d \<and> pc_connected_signal d < signal_count (Some h)))"
  proof -
    obtain n out where p: "port_connections bs h i = Some (n, out)" using port_connections_defined [OF ok] by blast
    moreover have "n = int (length out)"
      using p group_instances(3) [OF ok] by (cases "valid_signal h i") (auto simp: valid_signal_iff port_connections_def group_records_invalid)
    ultimately show ?thesis using port_connections_range [OF ok p] cnt by auto
  qed
  ultimately show ?thesis using name_and_direction(2) [OF ok, of i] by blast
qed

theorem validated_queries_safe_witness:
  "\<exists>r. resolve sample_image sample_header (Some ''TOP.a'') = Some r \<and> - 1 \<le> r \<and> r < signal_count (Some sample_header)"
  using validated_queries_safe [OF sample_validated] by (auto simp: sample_length)

text \<open>
  Claim C19 (equivalence). On a validated database \<open>resolve\<close>, whose search is binary, is a lookup in the name index: the
  spellings of the query are tried in the documented order (as given, with \<open>TOP.\<close> in lower case, without or with the
  leading \<open>top.\<close>), and the first that is in the index decides. The names of the index are strictly increasing, so
  each has one signal, and no two names have the same signal.
\<close>

theorem resolve_is_lookup:
  assumes "validate bs h (word_of_nat (length bs)) = Some True" and "length bs < 2 ^ 64"
  shows "resolve bs h (Some q) = Some (first_found (index_lookup (name_entries bs h)) (candidates q)) \<and>
    sorted_wrt (<) (map fst (name_entries bs h)) \<and> distinct (map snd (name_entries bs h)) \<and>
    length (name_entries bs h) = section_count h Signals"
  using resolve_candidates [OF validate_ok [OF assms]] name_entries_ok(2,4) [OF validate_ok [OF assms]]
  by (simp add: name_entries_def)

theorem resolve_is_lookup_witness:
  "resolve sample_image sample_header (Some ''TOP.a'') =
     Some (first_found (index_lookup (name_entries sample_image sample_header)) [''TOP.a'', ''top.a'', ''a'', ''top.top.a''])"
  using resolve_is_lookup [OF sample_validated, of "''TOP.a''"]
  by (simp add: sample_length candidates_def starts_with_def Let_def del: first_found.simps)

text \<open>
  On a validated database the groups partition the records: going through the signals in order, the
  drivers that \<open>trace_driver\<close> returns are all driver records in file order, each record returned for a signal has that
  signal as its target; the same holds of loads with their source and of port connections. The counting
  functions return the number of records of the group.
\<close>

theorem groups_partition:
  assumes "validate bs h (word_of_nat (length bs)) = Some True" and "length bs < 2 ^ 64"
  shows "concat (map (\<lambda>k. snd (the (trace_driver bs h (int k)))) [0..<section_count h Signals]) =
      map (the \<circ> driver_out bs h) [0..<section_count h Drivers] \<and>
    concat (map (\<lambda>k. snd (the (trace_load bs h (int k)))) [0..<section_count h Signals]) =
      map (the \<circ> load_out bs h) [0..<section_count h Loads] \<and>
    concat (map (\<lambda>k. snd (the (port_connections bs h (int k)))) [0..<section_count h Signals]) =
      map (the \<circ> port_out bs h) [0..<section_count h Ports] \<and>
    (\<forall>k < section_count h Signals. \<exists>b e.
       trace_driver bs h (int k) = Some (int (e - b), map (the \<circ> driver_out bs h) [b..<e]) \<and>
       trace_driver_count bs h (int k) = Some (int (e - b)) \<and>
       (\<forall>j \<in> {b..<e}. map_option br_target (driver_record_at bs h j) = Some (int k)))"
proof -
  have ok: "design_ok bs h" using assms by (rule validate_ok)
  have "concat (map (\<lambda>k. snd (the (trace_driver bs h (int k)))) [0..<section_count h Signals]) =
      map (the \<circ> driver_out bs h) [0..<section_count h Drivers]"
    by (rule concat_group_records [OF design_ok_starts(1) [OF ok]]) (simp add: group_instances(1) [OF ok])
  moreover have "concat (map (\<lambda>k. snd (the (trace_load bs h (int k)))) [0..<section_count h Signals]) =
      map (the \<circ> load_out bs h) [0..<section_count h Loads]"
    by (rule concat_group_records [OF design_ok_starts(2) [OF ok]]) (simp add: group_instances(2) [OF ok])
  moreover have "concat (map (\<lambda>k. snd (the (port_connections bs h (int k)))) [0..<section_count h Signals]) =
      map (the \<circ> port_out bs h) [0..<section_count h Ports]"
    by (rule concat_group_records [OF design_ok_starts(3) [OF ok]]) (simp add: group_instances(3) [OF ok])
  moreover have "\<exists>b e. trace_driver bs h (int k) = Some (int (e - b), map (the \<circ> driver_out bs h) [b..<e]) \<and>
       trace_driver_count bs h (int k) = Some (int (e - b)) \<and>
       (\<forall>j \<in> {b..<e}. map_option br_target (driver_record_at bs h j) = Some (int k))"
    if k: "k < section_count h Signals" for k
  proof (intro exI conjI ballI)
    show "trace_driver bs h (int k) = Some (int (start_of bs h DriverStarts (k + 1) - start_of bs h DriverStarts k),
        map (the \<circ> driver_out bs h) [start_of bs h DriverStarts k..<start_of bs h DriverStarts (k + 1)])"
      using ok k by (rule group_instances(1))
    show "trace_driver_count bs h (int k) = Some (int (start_of bs h DriverStarts (k + 1) - start_of bs h DriverStarts k))"
      unfolding trace_driver_count_def
      by (rule group_count_slice [OF ok _ design_ok_starts(1) [OF ok] k])
        (use design_ok_bounds [OF ok] in \<open>auto simp: bounds_ok_def\<close>)
    fix j assume "j \<in> {start_of bs h DriverStarts k..<start_of bs h DriverStarts (k + 1)}"
    with group_checked [OF design_ok_bounds [OF ok] _ design_ok_starts(1) [OF ok] design_ok_loops(3) [OF ok] k, of j]
    show "map_option br_target (driver_record_at bs h j) = Some (int k)" by (auto dest!: driver_out_defined)
  qed
  ultimately show ?thesis by blast
qed

theorem groups_partition_witness:
  "concat (map (\<lambda>k. snd (the (trace_driver sample_image sample_header (int k)))) [0..<section_count sample_header Signals]) =
     map (the \<circ> driver_out sample_image sample_header) [0..<section_count sample_header Drivers]"
  using groups_partition [OF sample_validated] by (simp add: sample_length)

text \<open>A file whose only signal is recorded as \<open>a\<close> while the name index calls it \<open>b\<close>.\<close>

definition renamed_image :: image where
  "renamed_image = [
     88, 68, 68, 66, 73, 78, 49, 0, 1, 0, 0, 0, 0, 0, 0, 0, 4, 3, 2, 1, 176, 0, 0, 0,
     5, 1, 0, 0, 0, 0, 0, 0, 176, 0, 0, 0, 0, 0, 0, 0, 1, 0, 0, 0, 0, 0, 0, 0,
     200, 0, 0, 0, 0, 0, 0, 0, 1, 0, 0, 0, 0, 0, 0, 0, 208, 0, 0, 0, 0, 0, 0, 0,
     0, 0, 0, 0, 0, 0, 0, 0, 208, 0, 0, 0, 0, 0, 0, 0, 2, 0, 0, 0, 0, 0, 0, 0,
     224, 0, 0, 0, 0, 0, 0, 0, 0, 0, 0, 0, 0, 0, 0, 0, 224, 0, 0, 0, 0, 0, 0, 0,
     2, 0, 0, 0, 0, 0, 0, 0, 240, 0, 0, 0, 0, 0, 0, 0, 0, 0, 0, 0, 0, 0, 0, 0,
     240, 0, 0, 0, 0, 0, 0, 0, 2, 0, 0, 0, 0, 0, 0, 0, 0, 1, 0, 0, 0, 0, 0, 0,
     5, 0, 0, 0, 0, 0, 0, 0, 1, 0, 0, 0, 0, 0, 0, 0, 0, 0, 0, 0, 1, 0, 0, 0,
     3, 0, 0, 0, 1, 0, 0, 0, 3, 0, 0, 0, 0, 0, 0, 0, 0, 0, 0, 0, 0, 0, 0, 0,
     0, 0, 0, 0, 0, 0, 0, 0, 0, 0, 0, 0, 0, 0, 0, 0, 0, 0, 0, 0, 0, 0, 0, 0,
     0, 0, 0, 0, 0, 0, 0, 0, 0, 0, 0, 0, 0, 0, 0, 0, 0, 97, 0, 98, 0]"

text \<open>
  Validation does not compare the name index with the signals: there is a file that it accepts in which
  the name \<open>b\<close> resolves to signal 0, whose name is \<open>a\<close>, while \<open>a\<close> does not resolve at all.
\<close>

theorem name_index_unchecked:
  "map_option (\<lambda>h. (validate renamed_image h (word_of_nat (length renamed_image)), resolve renamed_image h (Some ''b''),
       signal_name renamed_image h 0, resolve renamed_image h (Some ''a'')))
     (header_at renamed_image) = Some (Some True, Some 0, Some (Some ''a''), Some (- 1))"
  by code_simp

end
