(* ===== verification/Design_Query_Index.thy ===== *)
theory Design_Query_Index
  imports Binary_Design_Properties
begin

text \<open>
  The reverse indexes for trace queries, \<open>backend/design_query_index.{h,cpp}\<close>: one pass over the signals of a design fills
  them, the queries look them up. The pass is shown equal to definitions by comprehension over the design. The size
  estimate, which adds up capacities that the language leaves to the implementation, is not part of the model.
\<close>

section \<open>Names\<close>

definition scope_of :: "string \<Rightarrow> string" where
  "scope_of signal = (case str_rfind (CHR ''.'') signal of None \<Rightarrow> [] | Some dot \<Rightarrow> take dot signal)"

definition final_numeric_selector :: "string \<Rightarrow> (string \<times> int) option" where
  "final_numeric_selector signal =
     (if signal = [] \<or> last signal \<noteq> CHR '']'' then None
      else case str_rfind (CHR ''['') signal of
             None \<Rightarrow> None
           | Some opn \<Rightarrow>
               if opn + 1 \<ge> length signal - 1 then None
               else
                 let txt = take (length signal - opn - 2) (drop (opn + 1) signal)
                 in if txt = [] \<or> (\<exists>c \<in> set txt. \<not> is_digit c) then None
                    else
                      let parsed = num_of 10 (digits_prefix 10 txt); base = take opn signal
                      in if parsed > 2 ^ 64 - 1 \<or> parsed > 2 ^ 63 - 1 then None
                         else if base = [] then None
                         else Some (base, int parsed))"

section \<open>The indexes\<close>

text \<open>The four vectors of \<open>Directions\<close>, by direction; \<open>operator[]\<close> of a map adds an entry of empty vectors.\<close>

type_synonym directions = "int \<Rightarrow> int list"

record query_index =
  qi_connected_ports :: "int \<rightharpoonup> directions"
  qi_connected_signals :: "int \<rightharpoonup> int list"
  qi_scope_ports :: "string \<rightharpoonup> directions"
  qi_last_selectors :: "string \<rightharpoonup> int"
  qi_signals_scanned :: nat
  qi_port_records_scanned :: nat

definition push_direction :: "'k \<Rightarrow> int \<Rightarrow> int \<Rightarrow> ('k \<rightharpoonup> directions) \<Rightarrow> ('k \<rightharpoonup> directions)" where
  "push_direction key direction index m =
     (let ds = (case m key of Some ds \<Rightarrow> ds | None \<Rightarrow> (\<lambda>_. []))
      in m(key \<mapsto> ds(direction := ds direction @ [index])))"

definition list_at :: "('k \<rightharpoonup> 'v list) \<Rightarrow> 'k \<Rightarrow> 'v list" where
  "list_at m key = (case m key of None \<Rightarrow> [] | Some l \<Rightarrow> l)"

definition push_signal :: "int \<Rightarrow> int \<Rightarrow> (int \<rightharpoonup> int list) \<Rightarrow> (int \<rightharpoonup> int list)" where
  "push_signal key other m = m(key \<mapsto> list_at m key @ [other])"

definition other_end :: "int \<Rightarrow> port_connection \<Rightarrow> int" where
  "other_end index c = (if pc_port_signal c = index then pc_connected_signal c else pc_port_signal c)"

definition is_port :: "int \<Rightarrow> bool" where
  "is_port direction \<longleftrightarrow> direction > 0 \<and> direction < 4"

fun index_connections :: "int \<Rightarrow> int \<Rightarrow> port_connection list \<Rightarrow> int set \<Rightarrow> query_index \<Rightarrow> query_index" where
  "index_connections index direction [] once q = q"
| "index_connections index direction (c # cs) once q =
     (let other = other_end index c;
          fresh = (other \<ge> 0 \<and> other \<notin> once);
          q = (if fresh then q\<lparr>qi_connected_ports := push_direction other direction index (qi_connected_ports q)\<rparr> else q);
          once = (if fresh then insert other once else once);
          q = (if pc_port_signal c \<ge> 0 \<and> pc_connected_signal c \<ge> 0 then
                 q\<lparr>qi_connected_signals := push_signal (pc_connected_signal c) (pc_port_signal c)
                     (push_signal (pc_port_signal c) (pc_connected_signal c) (qi_connected_signals q))\<rparr>
               else q)
      in index_connections index direction cs once q)"

definition index_signal :: "design \<Rightarrow> int \<Rightarrow> query_index \<Rightarrow> query_index" where
  "index_signal d index q =
     (let name = (case ds_signal_name d index of Some n \<Rightarrow> n | None \<Rightarrow> []);
          direction = ds_signal_direction d index;
          q = (if is_port direction
               then q\<lparr>qi_scope_ports := push_direction (scope_of name) direction index (qi_scope_ports q)\<rparr> else q);
          q = (case final_numeric_selector name of
                 None \<Rightarrow> q
               | Some (base, selector) \<Rightarrow>
                   if (\<forall>old \<in> set_option (qi_last_selectors q base). selector > old)
                   then q\<lparr>qi_last_selectors := (qi_last_selectors q)(base \<mapsto> selector)\<rparr> else q)
      in if \<not> is_port direction then q
         else
           let cs = ds_port_connections d index
           in index_connections index direction cs {}
                (q\<lparr>qi_port_records_scanned := qi_port_records_scanned q + length cs\<rparr>))"

definition query_index_init :: "int \<Rightarrow> query_index" where
  "query_index_init count = \<lparr>qi_connected_ports = Map.empty, qi_connected_signals = Map.empty, qi_scope_ports = Map.empty,
     qi_last_selectors = Map.empty, qi_signals_scanned = (if count > 0 then nat count else 0), qi_port_records_scanned = 0\<rparr>"

definition scan_signals :: "design \<Rightarrow> nat \<Rightarrow> query_index" where
  "scan_signals d n = fold (index_signal d \<circ> int) [0..<n] (query_index_init (ds_signal_count d))"

definition design_query_index :: "design \<Rightarrow> query_index" where
  "design_query_index d =
     (let q = scan_signals d (nat (ds_signal_count d))
      in q\<lparr>qi_connected_signals := (\<lambda>s. map_option (remdups_adj \<circ> sort) (qi_connected_signals q s))\<rparr>)"

section \<open>Queries\<close>

definition connected_signals :: "query_index \<Rightarrow> int \<Rightarrow> int list" where
  "connected_signals q signal = list_at (qi_connected_signals q) signal"

definition directions_at :: "('k \<rightharpoonup> directions) \<Rightarrow> 'k \<Rightarrow> int \<Rightarrow> int list" where
  "directions_at m key direction =
     (case m key of None \<Rightarrow> [] | Some ds \<Rightarrow> if direction < 0 \<or> direction \<ge> 4 then [] else ds direction)"

definition ports_connected_to :: "query_index \<Rightarrow> int \<Rightarrow> int \<Rightarrow> int list" where
  "ports_connected_to q signal direction = directions_at (qi_connected_ports q) signal direction"

definition ports_in_scope :: "query_index \<Rightarrow> string \<Rightarrow> int \<Rightarrow> int list" where
  "ports_in_scope q scope direction = directions_at (qi_scope_ports q) scope direction"

definition last_materialized_selector :: "query_index \<Rightarrow> string \<Rightarrow> int option" where
  "last_materialized_selector q base = qi_last_selectors q base"

section \<open>Reference definitions\<close>

definition name_of :: "design \<Rightarrow> int \<Rightarrow> string" where
  "name_of d i = (case ds_signal_name d i of Some n \<Rightarrow> n | None \<Rightarrow> [])"

definition signals_below :: "nat \<Rightarrow> int list" where
  "signals_below n = map int [0..<n]"

definition port_joins :: "design \<Rightarrow> int \<Rightarrow> int \<Rightarrow> bool" where
  "port_joins d s i \<longleftrightarrow> is_port (ds_signal_direction d i) \<and> 0 \<le> s \<and> s \<in> other_end i ` set (ds_port_connections d i)"

text \<open>Two signals are joined by a connection record of a port, in either order.\<close>

definition joined :: "design \<Rightarrow> nat \<Rightarrow> int \<Rightarrow> int \<Rightarrow> bool" where
  "joined d n a b \<longleftrightarrow> (\<exists>i \<in> set (signals_below n). is_port (ds_signal_direction d i) \<and>
     (\<exists>c \<in> set (ds_port_connections d i). 0 \<le> a \<and> 0 \<le> b \<and>
        (pc_port_signal c = a \<and> pc_connected_signal c = b \<or> pc_port_signal c = b \<and> pc_connected_signal c = a)))"

definition selectors :: "design \<Rightarrow> nat \<Rightarrow> string \<Rightarrow> int set" where
  "selectors d n base = {v. \<exists>i \<in> set (signals_below n). final_numeric_selector (name_of d i) = Some (base, v)}"

section \<open>One step of the pass\<close>

lemma directions_at_push:
  "is_port d \<Longrightarrow> directions_at (push_direction k d i m) k' d' = directions_at m k' d' @ (if k' = k \<and> d' = d then [i] else [])"
  by (auto simp: directions_at_def push_direction_def is_port_def Let_def split: option.split)

lemma list_at_push: "list_at (push_signal k v m) a = list_at m a @ (if a = k then [v] else [])"
  by (simp add: push_signal_def list_at_def)

lemma index_connections_frame [simp]:
  "qi_scope_ports (index_connections i d cs once q) = qi_scope_ports q"
  "qi_last_selectors (index_connections i d cs once q) = qi_last_selectors q"
  "qi_signals_scanned (index_connections i d cs once q) = qi_signals_scanned q"
  "qi_port_records_scanned (index_connections i d cs once q) = qi_port_records_scanned q"
  by (induction i d cs once q rule: index_connections.induct) (simp_all add: Let_def)

lemma index_connections_ports:
  "is_port d \<Longrightarrow> directions_at (qi_connected_ports (index_connections i d cs once q)) s d' =
     directions_at (qi_connected_ports q) s d' @
       (if d' = d \<and> 0 \<le> s \<and> s \<in> other_end i ` set cs \<and> s \<notin> once then [i] else [])"
proof (induction cs arbitrary: once q)
  case (Cons c cs)
  show ?case
  proof (cases "other_end i c \<ge> 0 \<and> other_end i c \<notin> once")
    case True
    with Cons show ?thesis by (auto simp: Let_def directions_at_push)
  next
    case False
    with Cons show ?thesis by (auto simp: Let_def)
  qed
qed simp

lemma index_connections_signals:
  "set (connected_signals (index_connections i d cs once q) a) = set (connected_signals q a) \<union>
     {b. \<exists>c \<in> set cs. 0 \<le> a \<and> 0 \<le> b \<and> (pc_port_signal c = a \<and> pc_connected_signal c = b \<or> pc_port_signal c = b \<and> pc_connected_signal c = a)}"
proof (induction cs arbitrary: once q)
  case (Cons c cs)
  let ?q = "if other_end i c \<ge> 0 \<and> other_end i c \<notin> once
    then q\<lparr>qi_connected_ports := push_direction (other_end i c) d i (qi_connected_ports q)\<rparr> else q"
  have frame: "qi_connected_signals ?q = qi_connected_signals q" by simp
  have "set (connected_signals (if pc_port_signal c \<ge> 0 \<and> pc_connected_signal c \<ge> 0 then
        ?q\<lparr>qi_connected_signals := push_signal (pc_connected_signal c) (pc_port_signal c)
             (push_signal (pc_port_signal c) (pc_connected_signal c) (qi_connected_signals ?q))\<rparr> else ?q) a) =
      set (connected_signals q a) \<union> {b. 0 \<le> a \<and> 0 \<le> b \<and>
        (pc_port_signal c = a \<and> pc_connected_signal c = b \<or> pc_port_signal c = b \<and> pc_connected_signal c = a)}"
    unfolding frame by (auto simp: connected_signals_def list_at_push)
  with Cons show ?case by (simp add: Let_def Un_assoc) blast
qed simp

lemma scan_signals_Suc: "scan_signals d (Suc n) = index_signal d (int n) (scan_signals d n)"
  by (simp add: scan_signals_def)

lemma scan_signals_0: "scan_signals d 0 = query_index_init (ds_signal_count d)"
  by (simp add: scan_signals_def)

lemmas query_index_init_simps = query_index_init_def directions_at_def connected_signals_def list_at_def signals_below_def

lemma signals_below_Suc: "signals_below (Suc n) = signals_below n @ [int n]"
  by (simp add: signals_below_def)

section \<open>The whole pass\<close>

lemma scan_scope_ports:
  "directions_at (qi_scope_ports (scan_signals d n)) scope dir =
     filter (\<lambda>i. is_port dir \<and> ds_signal_direction d i = dir \<and> scope_of (name_of d i) = scope) (signals_below n)"
proof (induction n)
  case 0
  then show ?case by (simp add: scan_signals_0 query_index_init_simps)
next
  case (Suc n)
  then show ?case
    by (auto simp: scan_signals_Suc index_signal_def signals_below_Suc name_of_def directions_at_push Let_def
        split: option.split prod.split)
qed

lemma scan_connected_ports:
  "directions_at (qi_connected_ports (scan_signals d n)) s dir =
     filter (\<lambda>i. ds_signal_direction d i = dir \<and> port_joins d s i) (signals_below n)"
proof (induction n)
  case 0
  then show ?case by (simp add: scan_signals_0 query_index_init_simps)
next
  case (Suc n)
  then show ?case
    by (auto simp: scan_signals_Suc index_signal_def signals_below_Suc index_connections_ports port_joins_def Let_def
        split: option.split prod.split)
qed

lemma connected_signals_frame:
  "connected_signals (q\<lparr>qi_scope_ports := x\<rparr>) = connected_signals q"
  "connected_signals (q\<lparr>qi_last_selectors := y\<rparr>) = connected_signals q"
  "connected_signals (q\<lparr>qi_port_records_scanned := z\<rparr>) = connected_signals q"
  by (simp_all add: connected_signals_def [abs_def])

lemma scan_connected_signals: "set (connected_signals (scan_signals d n) a) = {b. joined d n a b}"
proof (induction n)
  case 0
  then show ?case by (simp add: scan_signals_0 query_index_init_simps joined_def)
next
  case (Suc n)
  have "set (connected_signals (scan_signals d (Suc n)) a) = set (connected_signals (scan_signals d n) a) \<union>
     {b. is_port (ds_signal_direction d (int n)) \<and> (\<exists>c \<in> set (ds_port_connections d (int n)). 0 \<le> a \<and> 0 \<le> b \<and>
        (pc_port_signal c = a \<and> pc_connected_signal c = b \<or> pc_port_signal c = b \<and> pc_connected_signal c = a))}"
    by (auto simp: scan_signals_Suc index_signal_def Let_def index_connections_signals connected_signals_frame
        split: option.split prod.split)
  with Suc show ?case by (auto simp: joined_def signals_below_Suc)
qed

lemma scan_selectors:
  "qi_last_selectors (scan_signals d n) base =
     (if selectors d n base = {} then None else Some (Max (selectors d n base))) \<and> finite (selectors d n base)"
proof (induction n)
  case 0
  then show ?case by (simp add: scan_signals_0 query_index_init_simps selectors_def)
next
  case (Suc n)
  have sel: "selectors d (Suc n) base = selectors d n base \<union> {v. final_numeric_selector (name_of d (int n)) = Some (base, v)}"
    by (auto simp: selectors_def signals_below_Suc)
  have last: "qi_last_selectors (scan_signals d (Suc n)) base =
      (case final_numeric_selector (name_of d (int n)) of
         None \<Rightarrow> qi_last_selectors (scan_signals d n) base
       | Some (k, v) \<Rightarrow> if k = base \<and> (\<forall>old \<in> set_option (qi_last_selectors (scan_signals d n) base). v > old)
                      then Some v else qi_last_selectors (scan_signals d n) base)"
    by (auto simp: scan_signals_Suc index_signal_def Let_def name_of_def split: option.split prod.split)
  show ?case
  proof (cases "\<exists>v. final_numeric_selector (name_of d (int n)) = Some (base, v)")
    case True
    then obtain v where v: "final_numeric_selector (name_of d (int n)) = Some (base, v)" by blast
    then have "selectors d (Suc n) base = insert v (selectors d n base)" using sel by auto
    moreover have "qi_last_selectors (scan_signals d (Suc n)) base =
        (if \<forall>old \<in> set_option (qi_last_selectors (scan_signals d n) base). v > old then Some v
         else qi_last_selectors (scan_signals d n) base)"
      using last v by simp
    ultimately show ?thesis using Suc by (cases "selectors d n base = {}") (auto simp: max_def not_le simp flip: Max_less_iff)
  next
    case False
    then have "selectors d (Suc n) base = selectors d n base" using sel by auto
    with Suc last False show ?thesis by (auto split: option.split)
  qed
qed

section \<open>The finished index\<close>

lemma index_scope_ports:
  "ports_in_scope (design_query_index d) scope dir =
     filter (\<lambda>i. is_port dir \<and> ds_signal_direction d i = dir \<and> scope_of (name_of d i) = scope)
       (signals_below (nat (ds_signal_count d)))"
  by (simp add: ports_in_scope_def design_query_index_def scan_scope_ports Let_def)

lemma index_connected_ports:
  "ports_connected_to (design_query_index d) s dir =
     filter (\<lambda>i. ds_signal_direction d i = dir \<and> port_joins d s i) (signals_below (nat (ds_signal_count d)))"
  by (simp add: ports_connected_to_def design_query_index_def scan_connected_ports Let_def)

lemma sort_unique: "remdups_adj (sort l) = sorted_list_of_set (set l)" for l :: "int list"
  by (intro strict_sorted_equal) (simp_all add: remdups_adj_increasing)

lemma index_connected_signals:
  "connected_signals (design_query_index d) a = sorted_list_of_set {b. joined d (nat (ds_signal_count d)) a b}"
proof -
  have "connected_signals (design_query_index d) a =
      remdups_adj (sort (connected_signals (scan_signals d (nat (ds_signal_count d))) a))"
    by (simp add: design_query_index_def connected_signals_def list_at_def Let_def split: option.split)
  then show ?thesis by (simp add: sort_unique scan_connected_signals)
qed

lemma index_neighbours:
  "b \<in> set (connected_signals (design_query_index d) a) \<longleftrightarrow> joined d (nat (ds_signal_count d)) a b"
proof -
  have "finite {b. joined d (nat (ds_signal_count d)) a b}"
    using scan_connected_signals [of d "nat (ds_signal_count d)" a] by (metis List.finite_set)
  then show ?thesis by (simp add: index_connected_signals)
qed

section \<open>Under the design contract\<close>

context design_contract
begin

lemma joined_ports:
  assumes "valid s" "joined (queries s) n a b"
  shows "\<exists>p \<in> {a, b}. is_port (ds_signal_direction (queries s) p) \<and> p \<in> set (signals_below n) \<and>
    0 \<le> a \<and> a < max (int n) (ds_signal_count (queries s)) \<and> 0 \<le> b \<and> b < max (int n) (ds_signal_count (queries s))"
  using assms(2) connection_range [OF assms(1)] unfolding joined_def signals_below_def by fastforce

lemma port_joins_connected:
  assumes "valid s"
  shows "port_joins (queries s) a i \<longleftrightarrow>
    is_port (ds_signal_direction (queries s) i) \<and> (\<exists>c \<in> set (ds_port_connections (queries s) i). pc_connected_signal c = a)"
  using connection_range [OF assms] unfolding port_joins_def other_end_def by force

end

section \<open>Properties\<close>

text \<open>
  Claim C24 (equivalence). The indexes built in one pass answer each query as a search of the whole design would: the ports of
  a scope and direction, the ports with a connection to a signal, the neighbours of a signal (each once, in
  increasing order), and the largest numeric selector of a base name. The neighbour relation is symmetric.
\<close>

theorem design_query_index_exact:
  "ports_in_scope (design_query_index d) scope dir =
     filter (\<lambda>i. is_port dir \<and> ds_signal_direction d i = dir \<and> scope_of (name_of d i) = scope)
       (signals_below (nat (ds_signal_count d))) \<and>
   ports_connected_to (design_query_index d) s dir =
     filter (\<lambda>i. ds_signal_direction d i = dir \<and> port_joins d s i) (signals_below (nat (ds_signal_count d))) \<and>
   connected_signals (design_query_index d) a = sorted_list_of_set {b. joined d (nat (ds_signal_count d)) a b} \<and>
   (b \<in> set (connected_signals (design_query_index d) a) \<longleftrightarrow> a \<in> set (connected_signals (design_query_index d) b)) \<and>
   last_materialized_selector (design_query_index d) base =
     (if selectors d (nat (ds_signal_count d)) base = {} then None
      else Some (Max (selectors d (nat (ds_signal_count d)) base)))"
proof -
  have "joined d (nat (ds_signal_count d)) a b \<longleftrightarrow> joined d (nat (ds_signal_count d)) b a" by (auto simp: joined_def)
  moreover have "last_materialized_selector (design_query_index d) base =
     (if selectors d (nat (ds_signal_count d)) base = {} then None
      else Some (Max (selectors d (nat (ds_signal_count d)) base)))"
    using scan_selectors [of d "nat (ds_signal_count d)" base]
    by (simp add: last_materialized_selector_def design_query_index_def Let_def)
  ultimately show ?thesis
    unfolding index_neighbours by (simp add: index_scope_ports index_connected_ports index_connected_signals)
qed

text \<open>
  On a validated binary database the indexes name signals of the database only: a neighbour of a signal is a
  signal number in range, one of the two is a port, and a port is listed for a signal exactly when one of its
  connection records has that signal as its other end.
\<close>

theorem binary_index_in_range:
  assumes "validate bs h (word_of_nat (length bs)) = Some True" and "length bs < 2 ^ 64"
    and "d = binary_queries (bs, h)"
  shows "(b \<in> set (connected_signals (design_query_index d) a) \<longrightarrow>
      0 \<le> a \<and> a < signal_count (Some h) \<and> 0 \<le> b \<and> b < signal_count (Some h) \<and>
      (is_port (ds_signal_direction d a) \<or> is_port (ds_signal_direction d b))) \<and>
    (i \<in> set (ports_connected_to (design_query_index d) a dir) \<longleftrightarrow>
      0 \<le> i \<and> i < signal_count (Some h) \<and> is_port dir \<and> ds_signal_direction d i = dir \<and>
      (\<exists>c \<in> set (ds_port_connections d i). pc_connected_signal c = a))"
proof -
  have v: "binary_valid (bs, h)" using validate_ok [OF assms(1,2)] by (simp add: binary_valid_def)
  have n: "int (nat (ds_signal_count d)) = ds_signal_count d" "ds_signal_count d = signal_count (Some h)"
    using binary.count_nonneg [OF v] by (simp_all add: assms(3) binary_queries_def)
  have "0 \<le> a \<and> a < signal_count (Some h) \<and> 0 \<le> b \<and> b < signal_count (Some h) \<and>
      (is_port (ds_signal_direction d a) \<or> is_port (ds_signal_direction d b))"
    if "joined d (nat (ds_signal_count d)) a b"
    using binary.joined_ports [OF v, of "nat (ds_signal_count d)" a b] that n by (auto simp: assms(3))
  moreover have "i \<in> set (signals_below (nat (ds_signal_count d))) \<longleftrightarrow> 0 \<le> i \<and> i < signal_count (Some h)"
    using n by (auto simp: signals_below_def image_iff intro!: bexI [of _ "nat i"])
  moreover note binary.port_joins_connected [OF v, of a i]
  ultimately show ?thesis
    by (auto simp: index_neighbours index_connected_ports port_joins_def simp flip: assms(3))
qed

theorem binary_index_in_range_witness:
  "- 1 \<notin> set (connected_signals (design_query_index (binary_queries (sample_image, sample_header))) 0)"
  using binary_index_in_range [OF sample_validated _ refl, where b = "- 1" and a = 0] by (auto simp: sample_length)

end
