(* ===== verification/Path_Utils.thy ===== *)
theory Path_Utils
  imports Cxx_Prelude
begin

unbundle bit_operations_syntax

text \<open>
  Session names and the paths of a session: \<open>core/common/path_utils.cpp\<close> and the path functions of
  \<open>session/session_paths.cpp\<close>. The environment (\<open>HOME\<close>, \<open>XVERIF_TEST_TMPDIR\<close> and the user id) is the record
  \<open>environment\<close>; creating the directories on the way is left to the file system operations.
\<close>

record environment =
  env_home :: string
  env_test_tmpdir :: string
  env_uid :: nat

section \<open>Hashing and printing\<close>

text \<open>The 64-bit FNV-1a hash of the bytes of a text.\<close>

fun hash_step :: "u64 \<Rightarrow> char \<Rightarrow> u64" where
  "hash_step hash c = (hash XOR word_of_nat (of_char c)) * 1099511628211"

definition stable_path_hash :: "string \<Rightarrow> u64" where
  "stable_path_hash s = foldl hash_step 1469598103934665603 s"

definition hex_char :: "u64 \<Rightarrow> char" where
  "hex_char d = ''0123456789abcdef'' ! unat (d AND 15)"

text \<open>\<open>std::hex\<close> with width 16 and fill 0: all sixteen digits of a 64-bit integer, the most significant first.\<close>

definition hex16 :: "u64 \<Rightarrow> string" where
  "hex16 w = map (\<lambda>i. hex_char (drop_bit (4 * (15 - i)) w)) [0..<16]"

text \<open>\<open>std::hex\<close> alone: without the leading zeros.\<close>

definition hex_text :: "u64 \<Rightarrow> string" where
  "hex_text w = (if w = 0 then ''0'' else dropWhile (\<lambda>c. c = CHR ''0'') (hex16 w))"

section \<open>Names\<close>

definition is_name_char :: "char \<Rightarrow> bool" where
  "is_name_char c \<longleftrightarrow> is_upper c \<or> is_lower c \<or> is_digit c \<or> c = CHR ''_''"

definition is_valid_session_name :: "string \<Rightarrow> bool" where
  "is_valid_session_name session_id =
     (if session_id = [] \<or> length session_id > 64 then False
      else if \<not> (is_upper (hd session_id) \<or> is_lower (hd session_id)) then False
      else list_all is_name_char session_id)"

definition safe_dir_prefix :: "string \<Rightarrow> string" where
  "safe_dir_prefix session_id =
     (let prefix = map (\<lambda>c. if is_name_char c then c else CHR ''_'') (take 16 session_id)
      in if prefix = [] then ''adhoc'' else prefix)"

definition session_dir_name :: "string \<Rightarrow> string" where
  "session_dir_name session_id = safe_dir_prefix session_id @ ''_'' @ hex16 (stable_path_hash session_id)"

section \<open>Paths\<close>

definition temporary_dir :: "environment \<Rightarrow> string" where
  "temporary_dir env =
     (if env_test_tmpdir env \<noteq> [] then env_test_tmpdir env
      else (if env_home env = [] then ''.'' else env_home env) @ ''/.xdebug/tmp'')"

definition home_dir :: "environment \<Rightarrow> string" where
  "home_dir env = (if env_home env = [] then temporary_dir env else env_home env)"

text \<open>The tool configuration of the engine names its directory below the home directory.\<close>

definition home_dir_name :: string where
  "home_dir_name = ''.xdebug/engine''"

definition tool_home_dir :: "environment \<Rightarrow> string" where
  "tool_home_dir env = home_dir env @ ''/'' @ home_dir_name"

definition tool_sessions_dir :: "environment \<Rightarrow> string" where
  "tool_sessions_dir env = tool_home_dir env @ ''/sessions''"

definition tool_session_dir :: "environment \<Rightarrow> string \<Rightarrow> string" where
  "tool_session_dir env session_id = tool_sessions_dir env @ ''/'' @ session_dir_name session_id"

definition registry_path :: "environment \<Rightarrow> string" where
  "registry_path env = tool_home_dir env @ ''/registry.json''"

definition short_socket_path :: "environment \<Rightarrow> string \<Rightarrow> string" where
  "short_socket_path env nominal_path =
     temporary_dir env @ ''/xdebug-'' @ dec_digits (env_uid env) @ ''-'' @ hex_text (stable_path_hash nominal_path) @ ''.sock''"

definition socket_path :: "environment \<Rightarrow> string \<Rightarrow> string" where
  "socket_path env session_id =
     (let nominal = tool_session_dir env session_id @ ''/socket''
      in if length nominal < 104 then nominal else short_socket_path env nominal)"

definition endpoint_path :: "environment \<Rightarrow> string \<Rightarrow> string" where
  "endpoint_path env session_id = tool_session_dir env session_id @ ''/endpoint.json''"

definition session_state_path :: "environment \<Rightarrow> string \<Rightarrow> string" where
  "session_state_path env session_id = tool_session_dir env session_id @ ''/state.json''"

definition session_activity_path :: "environment \<Rightarrow> string \<Rightarrow> string" where
  "session_activity_path env session_id = tool_session_dir env session_id @ ''/activity''"

definition generation_marker_path :: "environment \<Rightarrow> string \<Rightarrow> string" where
  "generation_marker_path env session_id = tool_session_dir env session_id @ ''/generation''"

definition lifecycle_lock_path :: "environment \<Rightarrow> string \<Rightarrow> string" where
  "lifecycle_lock_path env session_id = tool_home_dir env @ ''/lifecycle-locks/'' @ session_dir_name session_id @ ''.lock''"

section \<open>Lemmas\<close>

lemma length_hex16 [simp]: "length (hex16 w) = 16"
  by (simp add: hex16_def)

lemma and_15_less: "unat (d AND 15 :: u64) < 16"
proof -
  have "d AND 15 \<le> (15 :: u64)" by (simp add: word_and_le1)
  then show ?thesis by (simp add: word_le_nat_alt)
qed

lemma hex_char_name: "is_name_char (hex_char d)"
proof -
  have "list_all is_name_char ''0123456789abcdef''" by code_simp
  then show ?thesis using and_15_less [of d] by (simp add: hex_char_def list_all_length)
qed

lemma session_dir_name_safe: "list_all is_name_char (session_dir_name s)"
proof -
  have "list_all is_name_char ''adhoc''" "is_name_char (CHR ''_'')" by code_simp+
  then show ?thesis
    by (auto simp: session_dir_name_def safe_dir_prefix_def Let_def hex16_def list_all_iff hex_char_name)
qed

lemma session_dir_name_length: "18 \<le> length (session_dir_name s) \<and> length (session_dir_name s) \<le> 33"
  by (cases s) (auto simp: session_dir_name_def safe_dir_prefix_def Let_def)

lemma name_char_not_slash: "is_name_char c \<Longrightarrow> c \<noteq> CHR ''/''"
  by (auto simp: is_name_char_def char_class)

end
