(* ===== verification/Session_Contract.thy ===== *)
theory Session_Contract
  imports Path_Utils Json_Value
begin

text \<open>
  The record of a session and its JSON forms: \<open>core/session/session_types.{h,cpp}\<close>,
  \<open>core/session/session_registry_contract.cpp\<close> and \<open>core/session/session_endpoint_contract.cpp\<close>. A function that returns
  \<open>false\<close> with an error text is \<open>Inl\<close> of the text. Machine integers are words; a signed one is read by \<open>sint\<close>.
\<close>

section \<open>Session records\<close>

datatype database_kind = Fsdb | Daidir | Combined

record session_info =
  si_session_id :: string
  si_generation :: string
  si_lifecycle_state :: string
  si_transport :: string
  si_socket_path :: string
  si_file_dir :: string
  si_host :: string
  si_bind_host :: string
  si_port :: u32
  si_server_host :: string
  si_auth_token :: string
  si_ownership_token_hash :: string
  si_server_pid :: u32
  si_created_at :: u64
  si_last_active :: u64
  si_dbdir_path :: string
  si_design_db_format :: string
  si_dbdir_mtime :: u64
  si_dbdir_size :: u64
  si_dbdir_dev :: u64
  si_dbdir_inode :: u64
  si_fsdb_file :: string
  si_fsdb_mtime :: u64
  si_fsdb_size :: u64
  si_fsdb_dev :: u64
  si_fsdb_inode :: u64

definition session_info_init :: session_info where
  "session_info_init = \<lparr>si_session_id = [], si_generation = [], si_lifecycle_state = [], si_transport = [],
     si_socket_path = [], si_file_dir = [], si_host = [], si_bind_host = [], si_port = 0, si_server_host = [],
     si_auth_token = [], si_ownership_token_hash = [], si_server_pid = 0, si_created_at = 0, si_last_active = 0,
     si_dbdir_path = [], si_design_db_format = [], si_dbdir_mtime = 0, si_dbdir_size = 0, si_dbdir_dev = 0,
     si_dbdir_inode = 0, si_fsdb_file = [], si_fsdb_mtime = 0, si_fsdb_size = 0, si_fsdb_dev = 0, si_fsdb_inode = 0\<rparr>"

definition session_database_kind :: "session_info \<Rightarrow> database_kind" where
  "session_database_kind s =
     (if si_dbdir_path s \<noteq> [] \<and> si_fsdb_file s \<noteq> [] then Combined
      else if si_dbdir_path s = [] then Fsdb else Daidir)"

fun database_kind_name :: "database_kind \<Rightarrow> string" where
  "database_kind_name Fsdb = ''fsdb''"
| "database_kind_name Daidir = ''daidir''"
| "database_kind_name Combined = ''combined''"

definition resource_content_matches :: "u64 \<Rightarrow> u64 \<Rightarrow> u64 \<Rightarrow> u64 \<Rightarrow> bool" where
  "resource_content_matches expected_mtime expected_size current_mtime current_size \<longleftrightarrow>
     expected_mtime = current_mtime \<and> expected_size = current_size"

definition resource_identity_differs :: "u64 \<Rightarrow> u64 \<Rightarrow> u64 \<Rightarrow> u64 \<Rightarrow> bool" where
  "resource_identity_differs expected_dev expected_inode current_dev current_inode \<longleftrightarrow>
     expected_dev \<noteq> current_dev \<or> expected_inode \<noteq> current_inode"

section \<open>Reading fields\<close>

text \<open>The fields of a record in the order of the \<open>std::set\<close> that holds them.\<close>

definition record_fields :: "string list" where
  "record_fields = [''auth_token'', ''bind_host'', ''created_at'', ''dbdir_dev'', ''dbdir_inode'', ''dbdir_mtime'',
     ''dbdir_path'', ''dbdir_size'', ''design_db_format'', ''file_dir'', ''fsdb_dev'', ''fsdb_file'', ''fsdb_inode'',
     ''fsdb_mtime'', ''fsdb_size'', ''generation'', ''host'', ''last_active'', ''lifecycle_state'',
     ''ownership_token_hash'', ''port'', ''server_host'', ''server_pid'', ''session_id'', ''socket_path'', ''transport'']"

definition string_fields :: "string list" where
  "string_fields = [''session_id'', ''generation'', ''lifecycle_state'', ''transport'', ''socket_path'', ''file_dir'', ''host'',
     ''bind_host'', ''server_host'', ''auth_token'', ''ownership_token_hash'', ''dbdir_path'', ''fsdb_file'', ''design_db_format'']"

definition ensure :: "bool \<Rightarrow> string \<Rightarrow> string + unit" where
  "ensure c msg = (if c then Inr () else Inl msg)"

fun ensure_all :: "('a \<Rightarrow> bool) \<Rightarrow> ('a \<Rightarrow> string) \<Rightarrow> 'a list \<Rightarrow> string + unit" where
  "ensure_all P msg [] = Inr ()"
| "ensure_all P msg (x # xs) = (if P x then ensure_all P msg xs else Inl (msg x))"

fun read_nonnegative_u64 :: "json option \<Rightarrow> u64 option" where
  "read_nonnegative_u64 (Some (JUnsigned n)) = Some (word_of_nat n)"
| "read_nonnegative_u64 (Some (JInteger i)) = (if i < 0 then None else Some (word_of_int i))"
| "read_nonnegative_u64 _ = None"

text \<open>The field as an unsigned integer of at most \<open>maximum\<close>, the largest value of the type read.\<close>

definition read_bounded_nonnegative :: "json \<Rightarrow> string \<Rightarrow> u64 \<Rightarrow> string \<Rightarrow> string + u64" where
  "read_bounded_nonnegative v field maximum msg =
     (case read_nonnegative_u64 (json_get v field) of
        None \<Rightarrow> Inl msg
      | Some parsed \<Rightarrow> if parsed > maximum then Inl msg else Inr parsed)"

definition int_maximum :: u64 where "int_maximum = 0x7FFFFFFF"
definition long_maximum :: u64 where "long_maximum = 0x7FFFFFFFFFFFFFFF"
definition unsigned_maximum :: u64 where "unsigned_maximum = - 1"

definition string_field :: "json \<Rightarrow> string \<Rightarrow> string" where
  "string_field v field = (case json_get v field of Some (JString s) \<Rightarrow> s | _ \<Rightarrow> [])"

definition is_string_field :: "json \<Rightarrow> string \<Rightarrow> bool" where
  "is_string_field v field \<longleftrightarrow> (\<exists>s. json_get v field = Some (JString s))"

lemma is_string_field_code [code]:
  "is_string_field v field = (case json_get v field of Some j \<Rightarrow> is_string j | None \<Rightarrow> False)"
  by (auto simp: is_string_field_def split: option.split elim: is_string.elims)

section \<open>Invariants\<close>

definition is_lower_hex :: "char \<Rightarrow> bool" where
  "is_lower_hex c \<longleftrightarrow> is_digit c \<or> (is_lower c \<and> (of_char c :: nat) \<le> 102)"

definition valid_generation :: "string \<Rightarrow> bool" where
  "valid_generation generation = (if length generation \<noteq> 64 then False else list_all is_lower_hex generation)"

definition valid_optional_sha256 :: "string \<Rightarrow> bool" where
  "valid_optional_sha256 digest =
     (if digest = [] then True else if length digest \<noteq> 64 then False else list_all is_lower_hex digest)"

definition resource_fingerprint_is_zero :: "u64 \<Rightarrow> u64 \<Rightarrow> u64 \<Rightarrow> u64 \<Rightarrow> bool" where
  "resource_fingerprint_is_zero mtime sz dev inode \<longleftrightarrow> mtime = 0 \<and> sz = 0 \<and> dev = 0 \<and> inode = 0"

definition validate_resource_invariants :: "session_info \<Rightarrow> string + unit" where
  "validate_resource_invariants s =
     (if si_dbdir_path s = [] \<and> si_fsdb_file s = [] then Inl ''session requires dbdir_path or fsdb_file''
      else if si_dbdir_path s = [] \<and> si_design_db_format s \<noteq> [] then
        Inl ''session without dbdir_path must not carry design_db_format''
      else if si_dbdir_path s \<noteq> [] \<and> si_design_db_format s \<noteq> ''xdd-so'' \<and> si_design_db_format s \<noteq> ''binary-v1'' then
        Inl ''design session requires design_db_format xdd-so or binary-v1''
      else if si_dbdir_path s = [] \<and>
          \<not> resource_fingerprint_is_zero (si_dbdir_mtime s) (si_dbdir_size s) (si_dbdir_dev s) (si_dbdir_inode s) then
        Inl ''session without dbdir_path must not carry dbdir fingerprint fields''
      else if si_fsdb_file s = [] \<and>
          \<not> resource_fingerprint_is_zero (si_fsdb_mtime s) (si_fsdb_size s) (si_fsdb_dev s) (si_fsdb_inode s) then
        Inl ''session without fsdb_file must not carry fsdb fingerprint fields''
      else Inr ())"

definition validate_transport_invariants :: "session_info \<Rightarrow> string + unit" where
  "validate_transport_invariants s =
     (if si_server_host s = [] then Inl ''session requires nonempty server_host''
      else if si_transport s = ''uds'' then
        (if si_socket_path s = [] then Inl ''uds session requires socket_path''
         else if si_file_dir s \<noteq> [] \<or> si_host s \<noteq> [] \<or> si_bind_host s \<noteq> [] \<or> si_port s \<noteq> 0 \<or> si_auth_token s \<noteq> [] then
           Inl ''uds session forbids file_dir, host, bind_host, port, and auth_token''
         else Inr ())
      else if si_transport s = ''tcp'' then
        (let active_port = (sint (si_port s) > 0 \<and> sint (si_port s) \<le> 65535);
             pending_ephemeral_port = (si_lifecycle_state s \<noteq> ''active'' \<and> si_port s = 0)
         in if si_host s = [] \<or> si_bind_host s = [] \<or> si_auth_token s = [] \<or> (\<not> active_port \<and> \<not> pending_ephemeral_port) then
              Inl ''tcp session requires host, bind_host, auth_token, and an active port in 1..65535''
            else if si_socket_path s \<noteq> [] \<or> si_file_dir s \<noteq> [] then Inl ''tcp session forbids socket_path and file_dir''
            else Inr ())
      else if si_transport s = ''file'' then
        (if si_file_dir s = [] then Inl ''file session requires file_dir''
         else if si_socket_path s \<noteq> [] \<or> si_host s \<noteq> [] \<or> si_bind_host s \<noteq> [] \<or> si_port s \<noteq> 0 \<or> si_auth_token s \<noteq> [] then
           Inl ''file session forbids socket_path, host, bind_host, port, and auth_token''
         else Inr ())
      else Inl ''transport must be uds, tcp, or file'')"

definition validate_lifecycle_invariants :: "session_info \<Rightarrow> string + unit" where
  "validate_lifecycle_invariants s =
     (if \<not> valid_generation (si_generation s) then Inl ''generation must be 64 lowercase hexadecimal characters''
      else if si_lifecycle_state s \<noteq> ''opening'' \<and> si_lifecycle_state s \<noteq> ''active'' \<and> si_lifecycle_state s \<noteq> ''cleanup_failed'' then
        Inl ''lifecycle_state must be opening, active, or cleanup_failed''
      else if si_lifecycle_state s = ''active'' \<and> sint (si_server_pid s) \<le> 0 then
        Inl ''active session requires a positive server_pid''
      else Inr ())"

section \<open>Records and documents\<close>

text \<open>A signed integer becomes a JSON integer, an unsigned one a JSON unsigned number.\<close>

definition session_registry_record_to_json :: "session_info \<Rightarrow> json" where
  "session_registry_record_to_json s = JObject [
     (''session_id'', JString (si_session_id s)),
     (''generation'', JString (si_generation s)),
     (''lifecycle_state'', JString (si_lifecycle_state s)),
     (''transport'', JString (si_transport s)),
     (''socket_path'', JString (si_socket_path s)),
     (''file_dir'', JString (si_file_dir s)),
     (''host'', JString (si_host s)),
     (''bind_host'', JString (si_bind_host s)),
     (''port'', JInteger (sint (si_port s))),
     (''server_host'', JString (si_server_host s)),
     (''auth_token'', JString (si_auth_token s)),
     (''ownership_token_hash'', JString (si_ownership_token_hash s)),
     (''dbdir_path'', JString (si_dbdir_path s)),
     (''design_db_format'', JString (si_design_db_format s)),
     (''fsdb_file'', JString (si_fsdb_file s)),
     (''server_pid'', JInteger (sint (si_server_pid s))),
     (''created_at'', JInteger (sint (si_created_at s))),
     (''last_active'', JInteger (sint (si_last_active s))),
     (''dbdir_mtime'', JInteger (sint (si_dbdir_mtime s))),
     (''dbdir_size'', JInteger (sint (si_dbdir_size s))),
     (''dbdir_dev'', JUnsigned (unat (si_dbdir_dev s))),
     (''dbdir_inode'', JUnsigned (unat (si_dbdir_inode s))),
     (''fsdb_mtime'', JInteger (sint (si_fsdb_mtime s))),
     (''fsdb_size'', JInteger (sint (si_fsdb_size s))),
     (''fsdb_dev'', JUnsigned (unat (si_fsdb_dev s))),
     (''fsdb_inode'', JUnsigned (unat (si_fsdb_inode s)))]"

definition legacy_without_format :: "json \<Rightarrow> bool" where
  "legacy_without_format v \<longleftrightarrow> json_size v + 1 = length record_fields \<and> \<not> json_contains v ''design_db_format''"

definition check_record_shape :: "json \<Rightarrow> string + unit" where
  "check_record_shape v =
     (let legacy = legacy_without_format v
      in if \<not> is_object v then Inl ''session record must be an object''
         else if json_size v \<noteq> length record_fields \<and> \<not> legacy then Inl ''session record fields do not match schema version 3''
         else rbind (ensure_all (\<lambda>field. legacy \<and> field = ''design_db_format'' \<or> json_contains v field)
                       (\<lambda>field. ''session record is missing field: '' @ field) record_fields)
           (\<lambda>_. ensure_all (\<lambda>field. legacy \<and> field = ''design_db_format'' \<or> is_string_field v field)
                       (\<lambda>field. ''session field must be string: '' @ field) string_fields))"

definition read_string_fields :: "json \<Rightarrow> session_info" where
  "read_string_fields v = session_info_init\<lparr>
     si_session_id := string_field v ''session_id'', si_generation := string_field v ''generation'',
     si_lifecycle_state := string_field v ''lifecycle_state'', si_transport := string_field v ''transport'',
     si_socket_path := string_field v ''socket_path'', si_file_dir := string_field v ''file_dir'',
     si_host := string_field v ''host'', si_bind_host := string_field v ''bind_host'',
     si_server_host := string_field v ''server_host'', si_auth_token := string_field v ''auth_token'',
     si_ownership_token_hash := string_field v ''ownership_token_hash'', si_dbdir_path := string_field v ''dbdir_path'',
     si_design_db_format := (if legacy_without_format v then [] else string_field v ''design_db_format''),
     si_fsdb_file := string_field v ''fsdb_file''\<rparr>"

definition read_number_fields :: "json \<Rightarrow> session_info \<Rightarrow> string + session_info" where
  "read_number_fields v s =
     rbind (read_bounded_nonnegative v ''port'' int_maximum ''session port must be in range 0..65535'') (\<lambda>port.
     rbind (ensure (\<not> sint (ucast port :: u32) > 65535) ''session port must be in range 0..65535'') (\<lambda>_.
     rbind (read_bounded_nonnegative v ''server_pid'' int_maximum ''session server_pid is out of range'') (\<lambda>pid.
     rbind (read_bounded_nonnegative v ''created_at'' long_maximum ''session created_at is out of range'') (\<lambda>created.
     rbind (read_bounded_nonnegative v ''last_active'' long_maximum ''session last_active is out of range'') (\<lambda>active.
     rbind (read_bounded_nonnegative v ''dbdir_mtime'' long_maximum ''session dbdir_mtime is out of range'') (\<lambda>dmtime.
     rbind (read_bounded_nonnegative v ''dbdir_size'' long_maximum ''session dbdir_size is out of range'') (\<lambda>dsize.
     rbind (read_bounded_nonnegative v ''dbdir_dev'' unsigned_maximum ''session dbdir_dev is out of range'') (\<lambda>ddev.
     rbind (read_bounded_nonnegative v ''dbdir_inode'' unsigned_maximum ''session dbdir_inode is out of range'') (\<lambda>dinode.
     rbind (read_bounded_nonnegative v ''fsdb_mtime'' long_maximum ''session fsdb_mtime is out of range'') (\<lambda>fmtime.
     rbind (read_bounded_nonnegative v ''fsdb_size'' long_maximum ''session fsdb_size is out of range'') (\<lambda>fsize.
     rbind (read_bounded_nonnegative v ''fsdb_dev'' unsigned_maximum ''session fsdb_dev is out of range'') (\<lambda>fdev.
     rbind (read_bounded_nonnegative v ''fsdb_inode'' unsigned_maximum ''session fsdb_inode is out of range'') (\<lambda>finode.
     Inr (s\<lparr>si_port := ucast port, si_server_pid := ucast pid, si_created_at := created, si_last_active := active,
        si_dbdir_mtime := dmtime, si_dbdir_size := dsize, si_dbdir_dev := ddev, si_dbdir_inode := dinode,
        si_fsdb_mtime := fmtime, si_fsdb_size := fsize, si_fsdb_dev := fdev, si_fsdb_inode := finode\<rparr>))))))))))))))"

definition validate_session :: "bool \<Rightarrow> session_info \<Rightarrow> string + unit" where
  "validate_session legacy s =
     (if \<not> is_valid_session_name (si_session_id s) then Inl ''session_id is invalid''
      else if \<not> valid_optional_sha256 (si_ownership_token_hash s) then
        Inl ''ownership_token_hash must be empty or 64 lowercase hexadecimal characters''
      else if legacy \<and> si_dbdir_path s \<noteq> [] then
        Inl ''legacy design session lacks design_db_format and must be reopened''
      else rbind (validate_lifecycle_invariants s) (\<lambda>_.
           rbind (validate_resource_invariants s) (\<lambda>_. validate_transport_invariants s)))"

definition session_registry_record_from_json :: "json \<Rightarrow> string + session_info" where
  "session_registry_record_from_json v =
     rbind (check_record_shape v) (\<lambda>_.
     rbind (read_number_fields v (read_string_fields v)) (\<lambda>s.
     rbind (validate_session (legacy_without_format v) s) (\<lambda>_. Inr s)))"

fun documents_loop :: "json list \<Rightarrow> nat \<Rightarrow> string set \<Rightarrow> session_info list \<Rightarrow> string + session_info list" where
  "documents_loop [] index ids sessions = Inr sessions"
| "documents_loop (v # vs) index ids sessions =
     (case session_registry_record_from_json v of
        Inl e \<Rightarrow> Inl (''sessions['' @ dec_digits index @ '']: '' @ e)
      | Inr s \<Rightarrow>
          if si_session_id s \<in> ids then Inl (''duplicate session_id: '' @ si_session_id s)
          else documents_loop vs (index + 1) (insert (si_session_id s) ids) (sessions @ [s]))"

definition session_registry_document_from_json :: "json \<Rightarrow> string + session_info list" where
  "session_registry_document_from_json v =
     (if \<not> is_object v \<or> json_size v \<noteq> 2 \<or> \<not> json_contains v ''version'' \<or>
         read_nonnegative_u64 (json_get v ''version'') \<noteq> Some 2 \<or> \<not> json_contains v ''sessions''
      then Inl ''registry must match schema version 2''
      else case json_get v ''sessions'' of
             Some (JArray vs) \<Rightarrow> documents_loop vs 0 {} []
           | _ \<Rightarrow> Inl ''registry must match schema version 2'')"

fun write_loop :: "session_info list \<Rightarrow> string set \<Rightarrow> json list \<Rightarrow> string + json list" where
  "write_loop [] ids records = Inr records"
| "write_loop (s # ss) ids records =
     (if si_session_id s \<in> ids then Inl (''duplicate session_id: '' @ si_session_id s)
      else case session_registry_record_from_json (session_registry_record_to_json s) of
             Inl e \<Rightarrow> Inl (''session '' @ si_session_id s @ '': '' @ e)
           | Inr _ \<Rightarrow> write_loop ss (insert (si_session_id s) ids) (records @ [session_registry_record_to_json s]))"

definition session_registry_document_to_json :: "session_info list \<Rightarrow> string + json" where
  "session_registry_document_to_json sessions =
     rbind (write_loop sessions {} []) (\<lambda>records. Inr (JObject [(''version'', JInteger 2), (''sessions'', JArray records)]))"

section \<open>Endpoints\<close>

definition has_exact_fields :: "json \<Rightarrow> string list \<Rightarrow> bool" where
  "has_exact_fields v flds \<longleftrightarrow> is_object v \<and> json_size v = length flds \<and> (\<forall>f \<in> set flds. json_contains v f)"

definition require_nonempty_string :: "json \<Rightarrow> string \<Rightarrow> string + string" where
  "require_nonempty_string v field =
     (if \<not> is_string_field v field \<or> string_field v field = []
      then Inl (''endpoint field must be a nonempty string: '' @ field) else Inr (string_field v field))"

definition validate_common :: "session_info \<Rightarrow> string + unit" where
  "validate_common e =
     (if \<not> is_valid_session_name (si_session_id e) then Inl ''endpoint session_id is invalid''
      else if si_server_host e = [] then Inl ''endpoint server_host must be nonempty'' else Inr ())"

definition endpoint_fields :: "session_info \<Rightarrow> string + json" where
  "endpoint_fields e =
     (if si_transport e = ''uds'' then
        (if si_socket_path e = [] then Inl ''uds endpoint requires socket_path''
         else Inr (JObject [(''transport'', JString ''uds''), (''socket_path'', JString (si_socket_path e)),
                (''server_host'', JString (si_server_host e))]))
      else if si_transport e = ''tcp'' then
        (if si_host e = [] \<or> si_bind_host e = [] \<or> si_auth_token e = [] \<or> sint (si_port e) \<le> 0 \<or> sint (si_port e) > 65535
         then Inl ''tcp endpoint requires host, bind_host, auth_token, and port in 1..65535''
         else Inr (JObject [(''transport'', JString ''tcp''), (''host'', JString (si_host e)), (''bind_host'', JString (si_bind_host e)),
                (''port'', JInteger (sint (si_port e))), (''server_host'', JString (si_server_host e)),
                (''auth_token'', JString (si_auth_token e))]))
      else if si_transport e = ''file'' then
        (if si_file_dir e = [] then Inl ''file endpoint requires file_dir''
         else Inr (JObject [(''transport'', JString ''file''), (''file_dir'', JString (si_file_dir e)),
                (''server_host'', JString (si_server_host e))]))
      else Inl ''endpoint transport must be uds, tcp, or file'')"

definition session_endpoint_document_to_json :: "session_info \<Rightarrow> string + json" where
  "session_endpoint_document_to_json e =
     rbind (validate_common e) (\<lambda>_. rbind (endpoint_fields e) (\<lambda>flds.
       Inr (JObject [(''version'', JInteger 1), (''endpoint'', flds)])))"

text \<open>\<open>get<int>()\<close> of a JSON integer: the library converts by a cast, which keeps the low 32 bits.\<close>

fun get_int :: "json option \<Rightarrow> u32 option" where
  "get_int (Some (JUnsigned n)) = Some (word_of_nat n)"
| "get_int (Some (JInteger i)) = Some (word_of_int i)"
| "get_int _ = None"

definition parse_uds_fields :: "json \<Rightarrow> session_info \<Rightarrow> string + session_info" where
  "parse_uds_fields flds p =
     (if \<not> has_exact_fields flds [''transport'', ''socket_path'', ''server_host'']
      then Inl ''uds endpoint fields do not match schema version 1''
      else rbind (require_nonempty_string flds ''socket_path'') (\<lambda>sp.
           rbind (require_nonempty_string flds ''server_host'') (\<lambda>sh.
             Inr (p\<lparr>si_socket_path := sp, si_server_host := sh\<rparr>))))"

definition parse_tcp_fields :: "json \<Rightarrow> session_info \<Rightarrow> string + session_info" where
  "parse_tcp_fields flds p =
     (if \<not> has_exact_fields flds [''transport'', ''host'', ''bind_host'', ''port'', ''server_host'', ''auth_token'']
      then Inl ''tcp endpoint fields do not match schema version 1''
      else rbind (require_nonempty_string flds ''host'') (\<lambda>h.
           rbind (require_nonempty_string flds ''bind_host'') (\<lambda>bh.
           rbind (require_nonempty_string flds ''server_host'') (\<lambda>sh.
           rbind (require_nonempty_string flds ''auth_token'') (\<lambda>tok.
             case get_int (json_get flds ''port'') of
               None \<Rightarrow> Inl ''endpoint port must be an integer in 1..65535''
             | Some port \<Rightarrow>
                 if sint port \<le> 0 \<or> sint port > 65535 then Inl ''endpoint port must be an integer in 1..65535''
                 else Inr (p\<lparr>si_host := h, si_bind_host := bh, si_server_host := sh, si_auth_token := tok, si_port := port\<rparr>))))))"

definition parse_file_fields :: "json \<Rightarrow> session_info \<Rightarrow> string + session_info" where
  "parse_file_fields flds p =
     (if \<not> has_exact_fields flds [''transport'', ''file_dir'', ''server_host'']
      then Inl ''file endpoint fields do not match schema version 1''
      else rbind (require_nonempty_string flds ''file_dir'') (\<lambda>fd.
           rbind (require_nonempty_string flds ''server_host'') (\<lambda>sh.
             Inr (p\<lparr>si_file_dir := fd, si_server_host := sh\<rparr>))))"

definition session_endpoint_document_from_json :: "json \<Rightarrow> string \<Rightarrow> string + session_info" where
  "session_endpoint_document_from_json v expected_session_id =
     (if \<not> is_valid_session_name expected_session_id then Inl ''expected endpoint session_id is invalid''
      else if \<not> has_exact_fields v [''version'', ''endpoint''] \<or> get_int (json_get v ''version'') \<noteq> Some 1 \<or>
          \<not> (case json_get v ''endpoint'' of Some j \<Rightarrow> is_object j | None \<Rightarrow> False)
      then Inl ''endpoint document must match schema version 1''
      else
        let flds = the (json_get v ''endpoint'')
        in if \<not> is_string_field flds ''transport'' then Inl ''endpoint transport must be a string''
           else
             let transport = string_field flds ''transport'';
                 p = session_info_init\<lparr>si_session_id := expected_session_id, si_transport := transport\<rparr>
             in if transport = ''uds'' then parse_uds_fields flds p
                else if transport = ''tcp'' then parse_tcp_fields flds p
                else if transport = ''file'' then parse_file_fields flds p
                else Inl ''endpoint transport must be uds, tcp, or file'')"

end
