(* ===== verification/Session_Contract_Properties.thy ===== *)
theory Session_Contract_Properties
  imports Session_Contract
begin

text \<open>
  What the JSON contract of sessions guarantees: a record is accepted exactly when it satisfies \<open>session_valid\<close>, and
  writing and reading records, registry documents and endpoint documents are inverse to each other.
\<close>

section \<open>Valid sessions\<close>

definition fingerprint_free :: "u64 \<Rightarrow> u64 \<Rightarrow> u64 \<Rightarrow> u64 \<Rightarrow> bool" where
  "fingerprint_free m z d i \<longleftrightarrow> m = 0 \<and> z = 0 \<and> d = 0 \<and> i = 0"

definition transport_valid :: "session_info \<Rightarrow> bool" where
  "transport_valid s \<longleftrightarrow> si_server_host s \<noteq> [] \<and>
     (si_transport s = ''uds'' \<and> si_socket_path s \<noteq> [] \<and> si_file_dir s = [] \<and> si_host s = [] \<and> si_bind_host s = [] \<and>
        si_port s = 0 \<and> si_auth_token s = [] \<or>
      si_transport s = ''tcp'' \<and> si_socket_path s = [] \<and> si_file_dir s = [] \<and> si_host s \<noteq> [] \<and> si_bind_host s \<noteq> [] \<and>
        si_auth_token s \<noteq> [] \<and> (si_lifecycle_state s = ''active'' \<longrightarrow> 0 < sint (si_port s)) \<or>
      si_transport s = ''file'' \<and> si_file_dir s \<noteq> [] \<and> si_socket_path s = [] \<and> si_host s = [] \<and> si_bind_host s = [] \<and>
        si_port s = 0 \<and> si_auth_token s = [])"

definition resource_valid :: "session_info \<Rightarrow> bool" where
  "resource_valid s \<longleftrightarrow> (si_dbdir_path s \<noteq> [] \<or> si_fsdb_file s \<noteq> []) \<and>
     (if si_dbdir_path s = []
      then si_design_db_format s = [] \<and> fingerprint_free (si_dbdir_mtime s) (si_dbdir_size s) (si_dbdir_dev s) (si_dbdir_inode s)
      else si_design_db_format s \<in> {''xdd-so'', ''binary-v1''}) \<and>
     (si_fsdb_file s = [] \<longrightarrow> fingerprint_free (si_fsdb_mtime s) (si_fsdb_size s) (si_fsdb_dev s) (si_fsdb_inode s))"

definition lifecycle_valid :: "session_info \<Rightarrow> bool" where
  "lifecycle_valid s \<longleftrightarrow> length (si_generation s) = 64 \<and> (\<forall>c \<in> set (si_generation s). is_lower_hex c) \<and>
     si_lifecycle_state s \<in> {''opening'', ''active'', ''cleanup_failed''} \<and>
     (si_lifecycle_state s = ''active'' \<longrightarrow> 0 < sint (si_server_pid s))"

definition numbers_valid :: "session_info \<Rightarrow> bool" where
  "numbers_valid s \<longleftrightarrow> 0 \<le> sint (si_port s) \<and> sint (si_port s) \<le> 65535 \<and> 0 \<le> sint (si_server_pid s) \<and>
     (\<forall>w \<in> {si_created_at s, si_last_active s, si_dbdir_mtime s, si_dbdir_size s, si_fsdb_mtime s, si_fsdb_size s}. 0 \<le> sint w)"

definition session_valid :: "session_info \<Rightarrow> bool" where
  "session_valid s \<longleftrightarrow> is_valid_session_name (si_session_id s) \<and> valid_optional_sha256 (si_ownership_token_hash s) \<and>
     lifecycle_valid s \<and> resource_valid s \<and> transport_valid s \<and> numbers_valid s"

section \<open>Reading what was written\<close>

lemma sint_nonneg_64: "w \<le> long_maximum \<longleftrightarrow> 0 \<le> sint w" for w :: u64
  by (simp add: sint_nonneg_iff long_maximum_def word_le_def) linarith

lemma read_signed_64:
  "json_get v f = Some (JInteger (sint w)) \<Longrightarrow>
     read_bounded_nonnegative v f long_maximum msg = (if sint w < 0 then Inl msg else Inr w)" for w :: u64
  using sint_nonneg_64 [of w] by (auto simp: read_bounded_nonnegative_def not_le)

lemma read_unsigned_64:
  "json_get v f = Some (JUnsigned (unat w)) \<Longrightarrow> read_bounded_nonnegative v f unsigned_maximum msg = Inr w" for w :: u64
  by (simp add: read_bounded_nonnegative_def unsigned_maximum_def)

lemma read_signed_32:
  fixes w :: u32
  assumes "json_get v f = Some (JInteger (sint w))"
  shows "read_bounded_nonnegative v f int_maximum msg = (if sint w < 0 then Inl msg else Inr (ucast w))"
proof (cases "sint w < 0")
  case False
  then have lt: "uint w < 2 ^ 31" using sint_nonneg_iff [of w] by simp
  then have "sint w = uint w" using sint_cases(1) [of w] by simp
  then have u: "word_of_int (sint w) = (ucast w :: u64)" by (simp add: unsigned_ucast_eq)
  have "uint (ucast w :: u64) = uint w" using lt by (simp add: unsigned_ucast_eq take_bit_int_eq_self)
  then have "\<not> int_maximum < (ucast w :: u64)" using lt by (simp add: word_less_def int_maximum_def)
  with u assms False show ?thesis by (simp add: read_bounded_nonnegative_def)
qed (simp add: read_bounded_nonnegative_def assms)

lemma record_get:
  "json_get (session_registry_record_to_json s) ''session_id'' = Some (JString (si_session_id s))"
  "json_get (session_registry_record_to_json s) ''generation'' = Some (JString (si_generation s))"
  "json_get (session_registry_record_to_json s) ''lifecycle_state'' = Some (JString (si_lifecycle_state s))"
  "json_get (session_registry_record_to_json s) ''transport'' = Some (JString (si_transport s))"
  "json_get (session_registry_record_to_json s) ''socket_path'' = Some (JString (si_socket_path s))"
  "json_get (session_registry_record_to_json s) ''file_dir'' = Some (JString (si_file_dir s))"
  "json_get (session_registry_record_to_json s) ''host'' = Some (JString (si_host s))"
  "json_get (session_registry_record_to_json s) ''bind_host'' = Some (JString (si_bind_host s))"
  "json_get (session_registry_record_to_json s) ''port'' = Some (JInteger (sint (si_port s)))"
  "json_get (session_registry_record_to_json s) ''server_host'' = Some (JString (si_server_host s))"
  "json_get (session_registry_record_to_json s) ''auth_token'' = Some (JString (si_auth_token s))"
  "json_get (session_registry_record_to_json s) ''ownership_token_hash'' = Some (JString (si_ownership_token_hash s))"
  "json_get (session_registry_record_to_json s) ''dbdir_path'' = Some (JString (si_dbdir_path s))"
  "json_get (session_registry_record_to_json s) ''design_db_format'' = Some (JString (si_design_db_format s))"
  "json_get (session_registry_record_to_json s) ''fsdb_file'' = Some (JString (si_fsdb_file s))"
  "json_get (session_registry_record_to_json s) ''server_pid'' = Some (JInteger (sint (si_server_pid s)))"
  "json_get (session_registry_record_to_json s) ''created_at'' = Some (JInteger (sint (si_created_at s)))"
  "json_get (session_registry_record_to_json s) ''last_active'' = Some (JInteger (sint (si_last_active s)))"
  "json_get (session_registry_record_to_json s) ''dbdir_mtime'' = Some (JInteger (sint (si_dbdir_mtime s)))"
  "json_get (session_registry_record_to_json s) ''dbdir_size'' = Some (JInteger (sint (si_dbdir_size s)))"
  "json_get (session_registry_record_to_json s) ''dbdir_dev'' = Some (JUnsigned (unat (si_dbdir_dev s)))"
  "json_get (session_registry_record_to_json s) ''dbdir_inode'' = Some (JUnsigned (unat (si_dbdir_inode s)))"
  "json_get (session_registry_record_to_json s) ''fsdb_mtime'' = Some (JInteger (sint (si_fsdb_mtime s)))"
  "json_get (session_registry_record_to_json s) ''fsdb_size'' = Some (JInteger (sint (si_fsdb_size s)))"
  "json_get (session_registry_record_to_json s) ''fsdb_dev'' = Some (JUnsigned (unat (si_fsdb_dev s)))"
  "json_get (session_registry_record_to_json s) ''fsdb_inode'' = Some (JUnsigned (unat (si_fsdb_inode s)))"
  by (simp_all add: session_registry_record_to_json_def)

lemma record_shape:
  "\<not> legacy_without_format (session_registry_record_to_json s)"
  "check_record_shape (session_registry_record_to_json s) = Inr ()"
proof -
  have size: "json_size (session_registry_record_to_json s) = 26" "is_object (session_registry_record_to_json s)"
    by (simp_all add: session_registry_record_to_json_def)
  show l: "\<not> legacy_without_format (session_registry_record_to_json s)"
    by (simp add: legacy_without_format_def json_contains_def record_get)
  have "length record_fields = 26" by (simp add: record_fields_def)
  moreover have "ensure_all (\<lambda>f. False \<and> f = ''design_db_format'' \<or> json_contains (session_registry_record_to_json s) f) m record_fields = Inr ()" for m
    by (simp add: record_fields_def json_contains_def record_get)
  moreover have "ensure_all (\<lambda>f. False \<and> f = ''design_db_format'' \<or> is_string_field (session_registry_record_to_json s) f) m string_fields = Inr ()" for m
    by (simp add: string_fields_def is_string_field_def record_get)
  ultimately show "check_record_shape (session_registry_record_to_json s) = Inr ()"
    using l size by (simp add: check_record_shape_def Let_def)
qed

lemma record_strings:
  "read_string_fields (session_registry_record_to_json s) =
     s\<lparr>si_port := 0, si_server_pid := 0, si_created_at := 0, si_last_active := 0, si_dbdir_mtime := 0, si_dbdir_size := 0,
       si_dbdir_dev := 0, si_dbdir_inode := 0, si_fsdb_mtime := 0, si_fsdb_size := 0, si_fsdb_dev := 0, si_fsdb_inode := 0\<rparr>"
  by (simp add: read_string_fields_def string_field_def record_get record_shape session_info_init_def)

lemma ucast_back [simp]: "(ucast (ucast w :: u64) :: u32) = w" for w :: u32
  by (rule bit_word_eqI) (simp add: bit_simps)

lemma record_numbers:
  "read_number_fields (session_registry_record_to_json s) (read_string_fields (session_registry_record_to_json s)) = Inr t \<longleftrightarrow>
     t = s \<and> numbers_valid s"
  by (auto simp: read_number_fields_def record_strings record_get read_signed_64 read_unsigned_64 read_signed_32 ensure_def
      numbers_valid_def not_less split: if_splits)

lemma validate_session_False: "validate_session False s = Inr () \<longleftrightarrow>
    is_valid_session_name (si_session_id s) \<and> valid_optional_sha256 (si_ownership_token_hash s) \<and>
    validate_lifecycle_invariants s = Inr () \<and> validate_resource_invariants s = Inr () \<and> validate_transport_invariants s = Inr ()"
  by (auto simp: validate_session_def rbind_def split: sum.splits)

lemma validate_lifecycle_iff: "validate_lifecycle_invariants s = Inr () \<longleftrightarrow> lifecycle_valid s"
  by (auto simp: validate_lifecycle_invariants_def lifecycle_valid_def valid_generation_def list_all_iff)

lemma validate_resource_iff: "validate_resource_invariants s = Inr () \<longleftrightarrow> resource_valid s"
  by (auto simp: validate_resource_invariants_def resource_valid_def resource_fingerprint_is_zero_def fingerprint_free_def)

lemma validate_transport_iff:
  assumes "numbers_valid s"
  shows "validate_transport_invariants s = Inr () \<longleftrightarrow> transport_valid s"
proof -
  have "sint (si_port s) = 0 \<longleftrightarrow> si_port s = 0" by (simp add: signed_eq_0_iff)
  then have port: "(0 < sint (si_port s) \<and> sint (si_port s) \<le> 65535 \<or> si_lifecycle_state s \<noteq> ''active'' \<and> si_port s = 0) \<longleftrightarrow>
      (si_lifecycle_state s = ''active'' \<longrightarrow> 0 < sint (si_port s))"
    using assms by (auto simp: numbers_valid_def)
  show ?thesis
    unfolding validate_transport_invariants_def transport_valid_def Let_def de_Morgan_disj [symmetric] port
    by auto
qed

lemma record_valid: "session_registry_record_from_json (session_registry_record_to_json s) = Inr t \<longleftrightarrow> t = s \<and> session_valid s"
proof -
  have "session_registry_record_from_json (session_registry_record_to_json s) = Inr t \<longleftrightarrow>
      read_number_fields (session_registry_record_to_json s) (read_string_fields (session_registry_record_to_json s)) = Inr t \<and>
      validate_session False t = Inr ()"
    by (auto simp: session_registry_record_from_json_def record_shape rbind_def split: sum.splits)
  then show ?thesis
    using validate_transport_iff [of s]
    by (auto simp: record_numbers validate_session_False session_valid_def validate_lifecycle_iff validate_resource_iff)
qed

section \<open>Accepted records\<close>

lemma read_bounded_le: "read_bounded_nonnegative v f m msg = Inr w \<Longrightarrow> w \<le> m"
  by (auto simp: read_bounded_nonnegative_def not_less split: option.splits if_splits)

lemma ucast_int: "port \<le> int_maximum \<Longrightarrow> 0 \<le> sint (ucast port :: u32)"
proof -
  assume "port \<le> int_maximum"
  then have "uint port < 2 ^ 31" by (simp add: word_le_def int_maximum_def)
  then have "uint (ucast port :: u32) < 2 ^ 31" by (simp add: unsigned_ucast_eq take_bit_int_eq_self)
  then show ?thesis by (simp add: sint_nonneg_iff)
qed

lemma read_number_valid:
  assumes "read_number_fields v s = Inr t"
  shows "numbers_valid t"
proof -
  have long: "0 \<le> sint w" if "read_bounded_nonnegative v f long_maximum msg = Inr w" for w f msg
    using read_bounded_le [OF that] by (simp add: sint_nonneg_64)
  have int: "0 \<le> sint (ucast w :: u32)" if "read_bounded_nonnegative v f int_maximum msg = Inr w" for w f msg
    using read_bounded_le [OF that] by (rule ucast_int)
  from assms show ?thesis
    unfolding read_number_fields_def rbind_def ensure_def
    by (auto simp: numbers_valid_def long int split: sum.splits if_splits)
qed

lemma record_accepted_valid:
  assumes "session_registry_record_from_json v = Inr s"
  shows "session_valid s"
proof -
  from assms obtain l where n: "read_number_fields v (read_string_fields v) = Inr s" and l: "validate_session l s = Inr ()"
    by (auto simp: session_registry_record_from_json_def rbind_def split: sum.splits)
  have nv: "numbers_valid s" using n by (rule read_number_valid)
  from l have "validate_session False s = Inr ()"
    by (auto simp: validate_session_def split: if_splits)
  then show ?thesis
    using nv by (simp add: validate_session_False session_valid_def validate_lifecycle_iff validate_resource_iff validate_transport_iff)
qed

section \<open>Documents\<close>

lemma write_loop_iff:
  "write_loop ss ids rs = Inr j \<longleftrightarrow>
     (\<forall>s \<in> set ss. session_valid s) \<and> distinct (map si_session_id ss) \<and> si_session_id ` set ss \<inter> ids = {} \<and>
     j = rs @ map session_registry_record_to_json ss"
proof (induction ss arbitrary: ids rs)
  case (Cons s ss)
  show ?case
  proof (cases "session_valid s")
    case True
    then have "session_registry_record_from_json (session_registry_record_to_json s) = Inr s"
      by (simp add: record_valid)
    then show ?thesis using True by (auto simp: Cons.IH)
  next
    case False
    then obtain e where "session_registry_record_from_json (session_registry_record_to_json s) = Inl e"
      using record_valid by (cases "session_registry_record_from_json (session_registry_record_to_json s)") auto
    then show ?thesis using False by simp
  qed
qed auto

lemma documents_loop_written:
  assumes "\<forall>s \<in> set ss. session_valid s" "distinct (map si_session_id ss)" "si_session_id ` set ss \<inter> ids = {}"
  shows "documents_loop (map session_registry_record_to_json ss) i ids acc = Inr (acc @ ss)"
  using assms
proof (induction ss arbitrary: i ids acc)
  case (Cons s ss)
  then have "session_registry_record_from_json (session_registry_record_to_json s) = Inr s" by (simp add: record_valid)
  then show ?case using Cons by auto
qed simp

lemma documents_loop_valid:
  "documents_loop vs i ids acc = Inr ss \<Longrightarrow> \<forall>s \<in> set acc. session_valid s \<Longrightarrow>
     distinct (map si_session_id acc) \<Longrightarrow> ids = si_session_id ` set acc \<Longrightarrow>
     (\<forall>s \<in> set ss. session_valid s) \<and> distinct (map si_session_id ss) \<and> length ss = length acc + length vs"
proof (induction vs i ids acc rule: documents_loop.induct)
  case (2 v vs index ids sessions)
  from "2.prems"(1) obtain s where s: "session_registry_record_from_json v = Inr s" and new: "si_session_id s \<notin> ids"
    and rest: "documents_loop vs (index + 1) (insert (si_session_id s) ids) (sessions @ [s]) = Inr ss"
    by (auto split: sum.splits if_splits)
  from "2.IH" [OF s new rest] record_accepted_valid [OF s] new "2.prems" show ?case by auto
qed auto

lemma document_written:
  "session_registry_document_to_json ss = Inr j \<longleftrightarrow>
     (\<forall>s \<in> set ss. session_valid s) \<and> distinct (map si_session_id ss) \<and>
     j = JObject [(''version'', JInteger 2), (''sessions'', JArray (map session_registry_record_to_json ss))]"
proof (cases "write_loop ss {} []")
  case (Inl e)
  then have "\<not> ((\<forall>s \<in> set ss. session_valid s) \<and> distinct (map si_session_id ss))"
    using write_loop_iff [of ss "{}" "[]" "map session_registry_record_to_json ss"] by simp
  then show ?thesis by (auto simp: session_registry_document_to_json_def Inl)
next
  case (Inr rs)
  then show ?thesis
    using write_loop_iff [of ss "{}" "[]" rs] by (auto simp: session_registry_document_to_json_def)
qed

lemma document_accepted:
  assumes "session_registry_document_from_json v = Inr ss"
  shows "(\<forall>s \<in> set ss. session_valid s) \<and> distinct (map si_session_id ss)"
proof -
  from assms obtain vs where "documents_loop vs 0 {} [] = Inr ss"
    by (auto simp: session_registry_document_from_json_def split: if_splits option.splits json.splits)
  then show ?thesis using documents_loop_valid by fastforce
qed

section \<open>Endpoints\<close>

text \<open>What an endpoint document holds of a session.\<close>

definition endpoint_view :: "session_info \<Rightarrow> session_info" where
  "endpoint_view e =
     (let p = session_info_init\<lparr>si_session_id := si_session_id e, si_transport := si_transport e, si_server_host := si_server_host e\<rparr>
      in if si_transport e = ''uds'' then p\<lparr>si_socket_path := si_socket_path e\<rparr>
         else if si_transport e = ''tcp'' then
           p\<lparr>si_host := si_host e, si_bind_host := si_bind_host e, si_port := si_port e, si_auth_token := si_auth_token e\<rparr>
         else p\<lparr>si_file_dir := si_file_dir e\<rparr>)"

lemmas endpoint_parse_defs =
  has_exact_fields_def json_contains_def is_string_field_def string_field_def require_nonempty_string_def

lemma uds_fields_written:
  "socket \<noteq> [] \<Longrightarrow> host \<noteq> [] \<Longrightarrow>
     parse_uds_fields (JObject [(''transport'', t), (''socket_path'', JString socket), (''server_host'', JString host)]) p =
     Inr (p\<lparr>si_socket_path := socket, si_server_host := host\<rparr>)"
  by (simp add: parse_uds_fields_def endpoint_parse_defs)

lemma file_fields_written:
  "dir \<noteq> [] \<Longrightarrow> host \<noteq> [] \<Longrightarrow>
     parse_file_fields (JObject [(''transport'', t), (''file_dir'', JString dir), (''server_host'', JString host)]) p =
     Inr (p\<lparr>si_file_dir := dir, si_server_host := host\<rparr>)"
  by (simp add: parse_file_fields_def endpoint_parse_defs)

lemma tcp_fields_written:
  "h \<noteq> [] \<Longrightarrow> b \<noteq> [] \<Longrightarrow> host \<noteq> [] \<Longrightarrow> tok \<noteq> [] \<Longrightarrow> 0 < sint port \<Longrightarrow> sint port \<le> 65535 \<Longrightarrow>
     parse_tcp_fields (JObject [(''transport'', t), (''host'', JString h), (''bind_host'', JString b),
       (''port'', JInteger (sint port)), (''server_host'', JString host), (''auth_token'', JString tok)]) p =
     Inr (p\<lparr>si_host := h, si_bind_host := b, si_server_host := host, si_auth_token := tok, si_port := port\<rparr>)"
  by (simp add: parse_tcp_fields_def endpoint_parse_defs)

lemma endpoint_document_read:
  assumes "is_valid_session_name name"
  shows "session_endpoint_document_from_json (JObject [(''version'', JInteger 1), (''endpoint'', JObject ((''transport'', JString t) # fs))]) name =
    (let p = session_info_init\<lparr>si_session_id := name, si_transport := t\<rparr>; flds = JObject ((''transport'', JString t) # fs)
     in if t = ''uds'' then parse_uds_fields flds p else if t = ''tcp'' then parse_tcp_fields flds p
        else if t = ''file'' then parse_file_fields flds p else Inl ''endpoint transport must be uds, tcp, or file'')"
  by (simp add: session_endpoint_document_from_json_def assms endpoint_parse_defs Let_def)

lemma endpoint_written_read:
  assumes "session_endpoint_document_to_json e = Inr v"
  shows "session_endpoint_document_from_json v (si_session_id e) = Inr (endpoint_view e)"
proof -
  from assms obtain flds where common: "is_valid_session_name (si_session_id e)" "si_server_host e \<noteq> []"
    and flds: "endpoint_fields e = Inr flds" and v: "v = JObject [(''version'', JInteger 1), (''endpoint'', flds)]"
    by (auto simp: session_endpoint_document_to_json_def validate_common_def rbind_def split: if_splits sum.splits)
  consider "si_transport e = ''uds''" | "si_transport e = ''tcp''" | "si_transport e = ''file''"
    using flds by (auto simp: endpoint_fields_def split: if_splits)
  then show ?thesis
  proof cases
    case 1
    then show ?thesis
      using flds common
      by (auto simp: v endpoint_fields_def endpoint_document_read uds_fields_written endpoint_view_def session_info_init_def split: if_splits)
  next
    case 2
    then show ?thesis
      using flds common
      by (auto simp: v endpoint_fields_def endpoint_document_read tcp_fields_written endpoint_view_def session_info_init_def split: if_splits)
  next
    case 3
    then show ?thesis
      using flds common
      by (auto simp: v endpoint_fields_def endpoint_document_read file_fields_written endpoint_view_def session_info_init_def split: if_splits)
  qed
qed

lemma endpoint_writable:
  "isl (session_endpoint_document_to_json e) \<longleftrightarrow> \<not> (is_valid_session_name (si_session_id e) \<and> si_server_host e \<noteq> [] \<and>
     (si_transport e = ''uds'' \<and> si_socket_path e \<noteq> [] \<or>
      si_transport e = ''tcp'' \<and> si_host e \<noteq> [] \<and> si_bind_host e \<noteq> [] \<and> si_auth_token e \<noteq> [] \<and>
        0 < sint (si_port e) \<and> sint (si_port e) \<le> 65535 \<or>
      si_transport e = ''file'' \<and> si_file_dir e \<noteq> []))"
  by (auto simp: session_endpoint_document_to_json_def validate_common_def endpoint_fields_def rbind_def not_le not_less)

section \<open>Session directories\<close>

lemma session_dir_name_inj:
  assumes "session_dir_name a = session_dir_name b" "list_all is_name_char a" "list_all is_name_char b"
    "a \<noteq> []" "b \<noteq> []" "length a \<le> 16" "length b \<le> 16"
  shows "a = b"
proof -
  have prefix: "safe_dir_prefix x = x" if "list_all is_name_char x" "x \<noteq> []" "length x \<le> 16" for x
  proof -
    have "map (\<lambda>c. if is_name_char c then c else CHR ''_'') x = x" using that by (intro map_idI) (auto simp: list_all_iff)
    then show ?thesis using that by (simp add: safe_dir_prefix_def Let_def)
  qed
  show ?thesis using assms by (simp add: session_dir_name_def prefix)
qed

lemma valid_name_chars: "is_valid_session_name s \<Longrightarrow> list_all is_name_char s \<and> s \<noteq> [] \<and> length s \<le> 64"
  by (auto simp: is_valid_session_name_def split: if_splits)

lemma session_dir_name_no_slash: "CHR ''/'' \<notin> set (session_dir_name s)"
  using session_dir_name_safe [of s] name_char_not_slash by (auto simp: list_all_iff)

definition sample_session :: session_info where
  "sample_session = session_info_init\<lparr>si_session_id := ''run_1'', si_generation := replicate 64 (CHR ''a''),
     si_lifecycle_state := ''active'', si_transport := ''uds'', si_socket_path := ''/tmp/s'', si_server_host := ''h'',
     si_server_pid := 7, si_created_at := 100, si_last_active := 120, si_fsdb_file := ''/w.fst'', si_fsdb_size := 9\<rparr>"

lemma sample_session_valid: "session_valid sample_session"
proof -
  have "is_valid_session_name ''run_1''" by code_simp
  moreover have "is_lower_hex (CHR ''a'')" by code_simp
  ultimately show ?thesis
    by (simp add: session_valid_def lifecycle_valid_def resource_valid_def transport_valid_def numbers_valid_def
        valid_optional_sha256_def sample_session_def session_info_init_def fingerprint_free_def)
qed

section \<open>Properties\<close>

text \<open>
  Claim C20 (roundtrip). A session record survives being written and read: reading the JSON of a session succeeds exactly
  when the session is valid, and then gives the session back field by field. Whatever JSON is accepted, the session read
  from it is valid, so it can be written and read again: names, generation and digest have their form, an active session
  has a server process, each transport has its own fields and no others, a missing resource has no fingerprint, and
  no signed number is negative.
\<close>

theorem session_record_roundtrip:
  "(session_registry_record_from_json (session_registry_record_to_json s) = Inr t \<longleftrightarrow> t = s \<and> session_valid s) \<and>
   (session_registry_record_from_json v = Inr u \<longrightarrow> session_valid u \<and>
      session_registry_record_from_json (session_registry_record_to_json u) = Inr u)"
  using record_valid record_accepted_valid by blast

lemma session_record_roundtrip_witness:
  "session_registry_record_from_json (session_registry_record_to_json sample_session) = Inr sample_session"
proof -
  have "session_registry_record_from_json (session_registry_record_to_json sample_session) = Inr sample_session"
    using session_record_roundtrip [of sample_session sample_session "session_registry_record_to_json sample_session" sample_session]
      sample_session_valid by simp
  then show ?thesis .
qed

text \<open>
  Writing a registry document succeeds exactly when every session is valid and no two share an id;
  the document then reads back as the same sessions in the same order. Every document that is accepted holds valid
  sessions with distinct ids, so it can be written again.
\<close>

theorem registry_document_roundtrip:
  assumes "session_registry_document_from_json v = Inr us"
  shows "(\<exists>j. session_registry_document_to_json us = Inr j \<and> session_registry_document_from_json j = Inr us) \<and>
    (isl (session_registry_document_to_json ss) \<or>
      (session_registry_document_from_json (projr (session_registry_document_to_json ss)) = Inr ss)) \<and>
    (isl (session_registry_document_to_json ss) \<longleftrightarrow>
      (\<exists>s \<in> set ss. \<not> session_valid s) \<or> \<not> distinct (map si_session_id ss))"
proof -
  have read: "session_registry_document_from_json j = Inr xs" if "session_registry_document_to_json xs = Inr j" for xs j
    using that documents_loop_written [of xs "{}" 0 "[]"]
    by (auto simp: document_written session_registry_document_from_json_def json_contains_def)
  have total: "isl (session_registry_document_to_json xs) \<longleftrightarrow>
      (\<exists>s \<in> set xs. \<not> session_valid s) \<or> \<not> distinct (map si_session_id xs)" for xs
    using document_written [of xs] by (cases "session_registry_document_to_json xs") auto
  from document_accepted [OF assms] have "\<not> isl (session_registry_document_to_json us)" by (auto simp: total)
  then obtain j where "session_registry_document_to_json us = Inr j"
    by (cases "session_registry_document_to_json us") auto
  with read [of us j] read [of ss] total [of ss] show ?thesis
    by (cases "session_registry_document_to_json ss") auto
qed

lemma registry_document_roundtrip_witness:
  "\<exists>j. session_registry_document_to_json [sample_session] = Inr j \<and> session_registry_document_from_json j = Inr [sample_session]"
proof -
  let ?v = "JObject [(''version'', JInteger 2), (''sessions'', JArray [session_registry_record_to_json sample_session])]"
  have "session_registry_record_from_json (session_registry_record_to_json sample_session) = Inr sample_session"
    using sample_session_valid by (simp add: record_valid)
  then have "session_registry_document_from_json ?v = Inr [sample_session]"
    by (simp add: session_registry_document_from_json_def json_contains_def)
  from registry_document_roundtrip [OF this] show ?thesis by blast
qed

text \<open>
  The endpoint document of a session is written exactly when the name is valid and the fields of its
  transport are present (for TCP with a port in 1..65535); read for the same session id it gives back the id, the server
  host and the fields of the transport.
\<close>

theorem endpoint_document_roundtrip:
  "(case session_endpoint_document_to_json e of
      Inr v \<Rightarrow> session_endpoint_document_from_json v (si_session_id e) = Inr (endpoint_view e)
    | Inl _ \<Rightarrow> \<not> (is_valid_session_name (si_session_id e) \<and> si_server_host e \<noteq> [] \<and>
        (si_transport e = ''uds'' \<and> si_socket_path e \<noteq> [] \<or>
         si_transport e = ''tcp'' \<and> si_host e \<noteq> [] \<and> si_bind_host e \<noteq> [] \<and> si_auth_token e \<noteq> [] \<and>
           0 < sint (si_port e) \<and> sint (si_port e) \<le> 65535 \<or>
         si_transport e = ''file'' \<and> si_file_dir e \<noteq> [])))"
proof (cases "session_endpoint_document_to_json e")
  case (Inl m)
  with endpoint_writable [of e] show ?thesis by simp
qed (simp add: endpoint_written_read)

text \<open>
  The integers of an endpoint document are converted without a range check, so a version or port beyond 32 bits is
  accepted as its low bits: version \<open>2^32 + 1\<close> counts as version 1, port \<open>2^32 + 80\<close> as port 80.
\<close>

lemma endpoint_integers_wrap:
  "session_endpoint_document_from_json
     (JObject [(''version'', JUnsigned (2 ^ 32 + 1)), (''endpoint'', JObject [(''transport'', JString ''tcp''), (''host'', JString ''h''),
        (''bind_host'', JString ''b''), (''port'', JUnsigned (2 ^ 32 + 80)), (''server_host'', JString ''s''),
        (''auth_token'', JString ''t'')])]) ''run'' =
   Inr (session_info_init\<lparr>si_session_id := ''run'', si_transport := ''tcp'', si_host := ''h'', si_bind_host := ''b'',
      si_server_host := ''s'', si_auth_token := ''t'', si_port := 80\<rparr>)"
proof -
  have "is_valid_session_name ''run''" by code_simp
  then show ?thesis
    by (simp add: session_endpoint_document_from_json_def parse_tcp_fields_def endpoint_parse_defs Let_def)
qed

text \<open>
  Claim C40 (safety). A session id cannot lead out of the sessions directory: the directory of any id, valid or not, is
  one path component of 18 to 33 letters, digits and underscores, so its files lie directly inside it. Two valid ids of
  at most 16 characters never share a directory, a state file or a lifecycle lock.
\<close>

theorem session_directory_confined:
  "(\<exists>name. tool_session_dir env s = tool_sessions_dir env @ ''/'' @ name \<and> 18 \<le> length name \<and> length name \<le> 33 \<and>
      list_all is_name_char name \<and> CHR ''/'' \<notin> set name \<and>
      session_state_path env s = tool_sessions_dir env @ ''/'' @ name @ ''/state.json'' \<and>
      lifecycle_lock_path env s = tool_home_dir env @ ''/lifecycle-locks/'' @ name @ ''.lock'') \<and>
   (is_valid_session_name a \<and> is_valid_session_name b \<and> length a \<le> 16 \<and> length b \<le> 16 \<longrightarrow>
      (tool_session_dir env a = tool_session_dir env b \<longleftrightarrow> a = b) \<and>
      (session_state_path env a = session_state_path env b \<longleftrightarrow> a = b) \<and>
      (lifecycle_lock_path env a = lifecycle_lock_path env b \<longleftrightarrow> a = b))"
proof (intro conjI impI)
  show "\<exists>name. tool_session_dir env s = tool_sessions_dir env @ ''/'' @ name \<and> 18 \<le> length name \<and> length name \<le> 33 \<and>
      list_all is_name_char name \<and> CHR ''/'' \<notin> set name \<and>
      session_state_path env s = tool_sessions_dir env @ ''/'' @ name @ ''/state.json'' \<and>
      lifecycle_lock_path env s = tool_home_dir env @ ''/lifecycle-locks/'' @ name @ ''.lock''"
    using session_dir_name_length session_dir_name_safe session_dir_name_no_slash
    by (intro exI [of _ "session_dir_name s"]) (simp add: tool_session_dir_def session_state_path_def lifecycle_lock_path_def)
next
  assume "is_valid_session_name a \<and> is_valid_session_name b \<and> length a \<le> 16 \<and> length b \<le> 16"
  then have same: "session_dir_name a = session_dir_name b \<longleftrightarrow> a = b"
    using session_dir_name_inj [of a b] valid_name_chars [of a] valid_name_chars [of b] by auto
  then show "tool_session_dir env a = tool_session_dir env b \<longleftrightarrow> a = b"
    and "session_state_path env a = session_state_path env b \<longleftrightarrow> a = b"
    and "lifecycle_lock_path env a = lifecycle_lock_path env b \<longleftrightarrow> a = b"
    by (simp_all add: tool_session_dir_def session_state_path_def lifecycle_lock_path_def)
qed

lemma session_directory_confined_witness:
  "tool_session_dir \<lparr>env_home = ''/root'', env_test_tmpdir = [], env_uid = 0\<rparr> ''left'' \<noteq>
   tool_session_dir \<lparr>env_home = ''/root'', env_test_tmpdir = [], env_uid = 0\<rparr> ''right''"
proof -
  have "is_valid_session_name ''left''" "is_valid_session_name ''right''" by code_simp+
  then show ?thesis using session_directory_confined [where a = "''left''" and b = "''right''"] by simp
qed

text \<open>
  The short socket path is no shorter than the temporary directory, which lies below the home directory: with a long
  home directory it does not fit the 108 bytes of a socket address either.
\<close>

lemma socket_path_too_long:
  assumes "env_test_tmpdir env = []" "100 \<le> length (env_home env)"
  shows "108 < length (socket_path env s)"
proof -
  have "env_home env \<noteq> []" using assms(2) by auto
  then have "108 < length (short_socket_path env p)" for p
    using assms by (simp add: short_socket_path_def temporary_dir_def)
  moreover have "\<not> length (tool_session_dir env s @ ''/socket'') < 104"
    using assms(2) session_dir_name_length [of s] \<open>env_home env \<noteq> []\<close>
    by (simp add: tool_session_dir_def tool_sessions_dir_def tool_home_dir_def home_dir_def)
  ultimately show ?thesis by (simp add: socket_path_def Let_def)
qed

end
