(* ===== verification/Session_Registry.thy ===== *)
theory Session_Registry
  imports Session_Contract_Properties Ordered_Map "HOL-Library.Countable"
begin

text \<open>
  The per-session registry of \<open>session/session_registry.{h,cpp}\<close> and the generation markers of
  \<open>session/session_paths.cpp\<close>: one state file, one activity marker and one generation marker per session directory.
  The file system is the record \<open>world\<close>; what the operating system answers to each call is the argument \<open>os\<close>, so every
  failure branch is reachable. Parsing and printing of JSON text, a library, is the argument \<open>codec\<close>; printing may throw,
  which is \<open>None\<close>, and a registry operation that lets an exception pass has no result.
\<close>

section \<open>The outside\<close>

record codec =
  co_parse :: "string \<Rightarrow> json option"
  co_dump :: "json \<Rightarrow> string option"

record file_entry =
  fe_data :: string
  fe_mtime :: u64

text \<open>The files by path, and the names in the sessions directory in the order a directory stream gives them.\<close>

record world =
  w_files :: "string \<rightharpoonup> file_entry"
  w_sessions :: "string list option"

datatype write_call = Interrupted | Wrote nat | Write_Error

text \<open>The system calls that replace one file; the answers of \<open>write\<close> depend on how much there is to write.\<close>

record file_calls =
  fc_create :: bool
  fc_fchmod :: bool
  fc_writes :: "nat \<Rightarrow> write_call list"
  fc_fsync :: bool
  fc_close :: bool
  fc_rename :: bool

datatype rename_outcome = Rename_Failed | Rename_Raced | Renamed
datatype touch_outcome = Touch_Open_Failed | Touched bool bool
datatype enumeration = Open_Denied | Enumerated bool bool

record os =
  os_denied :: "string \<Rightarrow> bool"
  os_mkdir :: "string \<Rightarrow> bool"
  os_calls :: "string \<Rightarrow> file_calls"
  os_unlink :: "string \<Rightarrow> bool"
  os_sync :: "string \<Rightarrow> bool"
  os_archive :: rename_outcome
  os_touch :: touch_outcome
  os_enumerate :: enumeration
  os_tree_kept :: "string \<Rightarrow> bool"
  os_tree_removed :: bool
  os_now :: u64

datatype read_outcome = Read_Missing | Read_Denied | Read_Data string

text \<open>
  Opening a file for reading may be denied; what is then read is the whole content. A read that fails midway, after which the
  stream would hold a prefix of the content, is not modelled.
\<close>

definition read_file :: "os \<Rightarrow> world \<Rightarrow> string \<Rightarrow> read_outcome" where
  "read_file os w path =
     (if os_denied os path then Read_Denied
      else case w_files w path of None \<Rightarrow> Read_Missing | Some f \<Rightarrow> Read_Data (fe_data f))"

definition put_file :: "string \<Rightarrow> file_entry \<Rightarrow> world \<Rightarrow> world" where
  "put_file path f w = w\<lparr>w_files := (w_files w)(path \<mapsto> f)\<rparr>"

definition drop_file :: "string \<Rightarrow> world \<Rightarrow> world" where
  "drop_file path w = w\<lparr>w_files := (w_files w)(path := None)\<rparr>"

section \<open>Results\<close>

datatype registry_status = Ok | NotFound | Conflict | GenerationMismatch | Invalid | IoError

type_synonym registry_result = "registry_status \<times> string"

definition result_ok :: registry_result where
  "result_ok = (Ok, [])"

section \<open>Writing files\<close>

text \<open>The loop around \<open>write\<close>: whether the remaining bytes all get written.\<close>

fun write_all :: "write_call list \<Rightarrow> nat \<Rightarrow> bool" where
  "write_all calls 0 = True"
| "write_all [] (Suc n) = False"
| "write_all (Interrupted # calls) (Suc n) = write_all calls (Suc n)"
| "write_all (Write_Error # calls) (Suc n) = False"
| "write_all (Wrote count # calls) (Suc n) = (if count = 0 then False else write_all calls (Suc n - count))"

definition parent_dir :: "string \<Rightarrow> string" where
  "parent_dir path =
     (if CHR ''/'' \<notin> set path then ''.''
      else rev (tl (dropWhile (\<lambda>c. c \<noteq> CHR ''/'') (rev path))))"

text \<open>
  The new content replaces the old one in one step, the rename. The temporary file has a fresh name; after a failure it is
  unlinked. That this \<open>unlink\<close> may fail too and leave the file behind is not modelled: its name, the path with
  \<open>.tmp.XXXXXX\<close> filled in, is the path of no operation.
\<close>

definition write_atomic_file :: "os \<Rightarrow> string \<Rightarrow> string \<Rightarrow> world \<Rightarrow> bool \<times> world" where
  "write_atomic_file os path data w =
     (let fc = os_calls os path
      in if \<not> fc_create fc then (False, w)
         else
           let ok = (fc_fchmod fc \<and> write_all (fc_writes fc (length data)) (length data));
               ok = (ok \<and> fc_fsync fc);
               ok = (ok \<and> fc_close fc);
               ok = (ok \<and> fc_rename fc)
           in if \<not> ok then (False, w)
              else (os_sync os (parent_dir path), put_file path \<lparr>fe_data = data, fe_mtime = os_now os\<rparr> w))"

definition xdebug_design_ensure_home :: "os \<Rightarrow> environment \<Rightarrow> bool" where
  "xdebug_design_ensure_home os env \<longleftrightarrow>
     os_mkdir os (home_dir env @ ''/.xdebug'') \<and> os_mkdir os (tool_home_dir env) \<and>
     os_mkdir os (tool_sessions_dir env) \<and> os_mkdir os (tool_home_dir env @ ''/lifecycle-locks'')"

definition enter_name :: "string \<Rightarrow> string list option \<Rightarrow> string list option" where
  "enter_name n ns = (case ns of None \<Rightarrow> Some [n] | Some xs \<Rightarrow> Some (if n \<in> set xs then xs else xs @ [n]))"

definition xdebug_design_ensure_session_dir :: "os \<Rightarrow> environment \<Rightarrow> string \<Rightarrow> world \<Rightarrow> bool \<times> world" where
  "xdebug_design_ensure_session_dir os env session_id w =
     (if \<not> xdebug_design_ensure_home os env then (False, w)
      else if \<not> os_mkdir os (tool_session_dir env session_id) then (False, w)
      else (True, w\<lparr>w_sessions := enter_name (session_dir_name session_id) (w_sessions w)\<rparr>))"

section \<open>Reading records\<close>

definition parse_record_file :: "os \<Rightarrow> codec \<Rightarrow> world \<Rightarrow> string \<Rightarrow> registry_result + session_info" where
  "parse_record_file os co w path =
     (case read_file os w path of
        Read_Missing \<Rightarrow> Inl (NotFound, ''session generation is not in registry'')
      | Read_Denied \<Rightarrow> Inl (IoError, ''cannot read per-session state'')
      | Read_Data t \<Rightarrow>
          (case co_parse co t of
             None \<Rightarrow> Inl (Invalid, ''per-session state is not strict JSON'')
           | Some v \<Rightarrow>
               (case session_registry_record_from_json v of
                  Inl e \<Rightarrow> Inl (Invalid, ''per-session state is invalid: '' @ e)
                | Inr s \<Rightarrow> Inr s)))"

definition merge_activity :: "os \<Rightarrow> world \<Rightarrow> string \<Rightarrow> session_info \<Rightarrow> session_info" where
  "merge_activity os w path s =
     (case (if os_denied os path then None else w_files w path) of
        Some f \<Rightarrow> if sint (fe_mtime f) > sint (si_last_active s) then s\<lparr>si_last_active := fe_mtime f\<rparr> else s
      | None \<Rightarrow> s)"

definition retired_path :: "environment \<Rightarrow> string" where
  "retired_path env = registry_path env @ ''.v2.retired''"

definition archive_legacy :: "environment \<Rightarrow> world \<Rightarrow> world" where
  "archive_legacy env w =
     (case w_files w (registry_path env) of
        None \<Rightarrow> w
      | Some f \<Rightarrow> put_file (retired_path env) f (drop_file (registry_path env) w))"

text \<open>
  A registry of the old format must be empty, and is then renamed. When the rename finds the file gone because another
  process has just archived it, the check succeeds as well.
\<close>

definition check_legacy_registry :: "os \<Rightarrow> codec \<Rightarrow> environment \<Rightarrow> world \<Rightarrow> registry_result \<times> world" where
  "check_legacy_registry os co env w =
     (case read_file os w (registry_path env) of
        Read_Missing \<Rightarrow> (result_ok, w)
      | Read_Denied \<Rightarrow> ((IoError, ''cannot inspect legacy session registry''), w)
      | Read_Data t \<Rightarrow>
          (case co_parse co t of
             None \<Rightarrow> ((Invalid, ''legacy registry is not strict JSON''), w)
           | Some root \<Rightarrow>
               (case session_registry_document_from_json root of
                  Inl e \<Rightarrow> ((Invalid, ''legacy registry is invalid: '' @ e), w)
                | Inr legacy \<Rightarrow>
                    if legacy \<noteq> [] then
                      ((Invalid, ''REGISTRY_MIGRATION_REQUIRED: close or gc every legacy session with the old binary before upgrading''), w)
                    else if os_denied os (retired_path env) then
                      ((IoError, ''cannot inspect legacy registry archive target''), w)
                    else if w_files w (retired_path env) \<noteq> None then
                      ((Invalid, ''legacy registry archive already exists; refusing to overwrite evidence''), w)
                    else
                      (case os_archive os of
                         Rename_Failed \<Rightarrow> ((IoError, ''cannot archive empty legacy session registry''), w)
                       | Rename_Raced \<Rightarrow> (result_ok, archive_legacy env w)
                       | Renamed \<Rightarrow>
                           (if os_sync os (parent_dir (registry_path env)) then result_ok
                            else (IoError, ''cannot sync legacy registry archive''), archive_legacy env w)))))"

definition read_one :: "os \<Rightarrow> codec \<Rightarrow> environment \<Rightarrow> world \<Rightarrow> string \<Rightarrow> (registry_result + session_info) \<times> world" where
  "read_one os co env w session_id =
     (let (legacy, w') = check_legacy_registry os co env w
      in if fst legacy \<noteq> Ok then (Inl legacy, w')
         else
           (case parse_record_file os co w' (session_state_path env session_id) of
              Inl r \<Rightarrow> (Inl r, w')
            | Inr s \<Rightarrow>
                if si_session_id s \<noteq> session_id then
                  (Inl (Invalid, ''per-session state identity does not match its directory''), w')
                else (Inr (merge_activity os w' (session_activity_path env session_id) s), w')))"

definition newline :: string where "newline = [CHR 0x0A]"

definition write_one :: "os \<Rightarrow> codec \<Rightarrow> environment \<Rightarrow> world \<Rightarrow> session_info \<Rightarrow> bool option \<times> world" where
  "write_one os co env w s =
     (let (made, w') = xdebug_design_ensure_session_dir os env (si_session_id s) w
      in if \<not> made then (Some False, w')
         else
           (case co_dump co (session_registry_record_to_json s) of
              None \<Rightarrow> (None, w')
            | Some t \<Rightarrow>
                (let (ok, w'') = write_atomic_file os (session_state_path env (si_session_id s)) (t @ newline) w'
                 in (Some ok, w''))))"

text \<open>\<open>return write_one(session) ? ok : IoError\<close>.\<close>

definition persist :: "os \<Rightarrow> codec \<Rightarrow> environment \<Rightarrow> world \<Rightarrow> session_info \<Rightarrow> string \<Rightarrow> registry_result option \<times> world" where
  "persist os co env w s msg =
     (let (ok, w') = write_one os co env w s
      in (map_option (\<lambda>b. if b then result_ok else (IoError, msg)) ok, w'))"

section \<open>Operations\<close>

fun load_loop :: "os \<Rightarrow> codec \<Rightarrow> environment \<Rightarrow> world \<Rightarrow> string list \<Rightarrow> session_info list" where
  "load_loop os co env w [] = []"
| "load_loop os co env w (name # names) =
     (if name = ''.'' \<or> name = ''..'' then load_loop os co env w names
      else
        let base = tool_sessions_dir env @ ''/'' @ name
        in case parse_record_file os co w (base @ ''/state.json'') of
             Inl _ \<Rightarrow> load_loop os co env w names
           | Inr s \<Rightarrow> merge_activity os w (base @ ''/activity'') s # load_loop os co env w names)"

definition load_all :: "os \<Rightarrow> codec \<Rightarrow> environment \<Rightarrow> world \<Rightarrow> (registry_result + session_info list) \<times> world" where
  "load_all os co env w =
     (let (legacy, w') = check_legacy_registry os co env w
      in if fst legacy \<noteq> Ok then (Inl legacy, w')
         else
           (case os_enumerate os of
              Open_Denied \<Rightarrow> (Inl (IoError, ''cannot enumerate per-session registry''), w')
            | Enumerated read closed \<Rightarrow>
                (case w_sessions w' of
                   None \<Rightarrow> (Inr [], w')
                 | Some names \<Rightarrow>
                     if \<not> read \<or> \<not> closed then (Inl (IoError, ''cannot complete per-session registry enumeration''), w')
                     else (Inr (sort_key si_session_id (load_loop os co env w' names)), w'))))"

definition reserve_opening ::
  "os \<Rightarrow> codec \<Rightarrow> environment \<Rightarrow> world \<Rightarrow> session_info \<Rightarrow> registry_result option \<times> world" where
  "reserve_opening os co env w s =
     (if si_lifecycle_state s \<noteq> ''opening'' then
        (Some (Invalid, ''new session reservation must use lifecycle_state=opening''), w)
      else
        (case read_one os co env w (si_session_id s) of
           (Inr current, w') \<Rightarrow> (Some (Conflict, ''session id already has a lifecycle generation''), w')
         | (Inl r, w') \<Rightarrow>
             if fst r \<noteq> NotFound then (Some r, w')
             else persist os co env w' s ''failed to persist opening session reservation''))"

definition update_opening ::
  "os \<Rightarrow> codec \<Rightarrow> environment \<Rightarrow> world \<Rightarrow> session_info \<Rightarrow> string \<Rightarrow> registry_result option \<times> world" where
  "update_opening os co env w s expected_generation =
     (if si_lifecycle_state s \<noteq> ''opening'' \<or> si_generation s \<noteq> expected_generation then
        (Some (Invalid, ''opening update requires the expected generation in opening state''), w)
      else
        (case read_one os co env w (si_session_id s) of
           (Inl r, w') \<Rightarrow> (Some r, w')
         | (Inr current, w') \<Rightarrow>
             if si_generation current \<noteq> expected_generation then
               (Some (GenerationMismatch, ''opening update no longer matches expected generation''), w')
             else if si_lifecycle_state current \<noteq> ''opening'' then
               (Some (Conflict, ''opening reservation is no longer opening''), w')
             else persist os co env w' s ''failed to persist opening session evidence''))"

definition finalize_opening ::
  "os \<Rightarrow> codec \<Rightarrow> environment \<Rightarrow> world \<Rightarrow> session_info \<Rightarrow> string \<Rightarrow> registry_result option \<times> world" where
  "finalize_opening os co env w s expected_generation =
     (if si_lifecycle_state s \<noteq> ''active'' \<or> si_generation s \<noteq> expected_generation then
        (Some (Invalid, ''session finalization requires the expected generation in active state''), w)
      else
        (case read_one os co env w (si_session_id s) of
           (Inl r, w') \<Rightarrow> (Some r, w')
         | (Inr current, w') \<Rightarrow>
             if si_generation current \<noteq> expected_generation then
               (Some (GenerationMismatch, ''opening reservation no longer matches expected generation''), w')
             else if si_lifecycle_state current \<noteq> ''opening'' then
               (Some (Conflict, ''opening reservation is no longer opening''), w')
             else persist os co env w' s ''failed to finalize opening session generation''))"

definition mark_cleanup_failed ::
  "os \<Rightarrow> codec \<Rightarrow> environment \<Rightarrow> world \<Rightarrow> session_info \<Rightarrow> string \<Rightarrow> registry_result option \<times> world" where
  "mark_cleanup_failed os co env w s expected_generation =
     (if si_lifecycle_state s \<noteq> ''cleanup_failed'' \<or> si_generation s \<noteq> expected_generation then
        (Some (Invalid, ''cleanup failure must preserve the expected generation''), w)
      else
        (case read_one os co env w (si_session_id s) of
           (Inl r, w') \<Rightarrow> (Some r, w')
         | (Inr current, w') \<Rightarrow>
             if si_generation current \<noteq> expected_generation then
               (Some (GenerationMismatch, ''cleanup failure generation no longer matches registry''), w')
             else persist os co env w' s ''failed to preserve cleanup failure generation''))"

text \<open>
  Touching the marker: \<open>open\<close> creates it with the present time if it is missing, \<open>futimens\<close> then sets its time.
\<close>

definition touch_file :: "os \<Rightarrow> string \<Rightarrow> u64 \<Rightarrow> world \<Rightarrow> registry_result \<times> world" where
  "touch_file os path t w =
     (case os_touch os of
        Touch_Open_Failed \<Rightarrow> ((IoError, ''failed to open session activity marker''), w)
      | Touched touched closed \<Rightarrow>
          (let f = (case w_files w path of None \<Rightarrow> \<lparr>fe_data = [], fe_mtime = os_now os\<rparr> | Some f \<Rightarrow> f);
               w' = put_file path (if touched then f\<lparr>fe_mtime := t\<rparr> else f) w
           in (if touched \<and> closed then result_ok else (IoError, ''failed to update session activity marker''), w')))"

definition touch_if_generation ::
  "os \<Rightarrow> codec \<Rightarrow> environment \<Rightarrow> world \<Rightarrow> string \<Rightarrow> string \<Rightarrow> u64 \<Rightarrow> registry_result \<times> world" where
  "touch_if_generation os co env w session_id expected_generation last_active =
     (case read_one os co env w session_id of
        (Inl r, w') \<Rightarrow> (r, w')
      | (Inr current, w') \<Rightarrow>
          if si_generation current \<noteq> expected_generation then
            ((GenerationMismatch, ''touch generation no longer matches registry''), w')
          else if sint (si_last_active current) \<ge> sint last_active then (result_ok, w')
          else touch_file os (session_activity_path env session_id) last_active w')"

text \<open>\<open>unlink\<close>, where a file that is not there is no error.\<close>

definition remove_file_if_exists :: "os \<Rightarrow> string \<Rightarrow> world \<Rightarrow> bool \<times> world" where
  "remove_file_if_exists os path w =
     (if os_unlink os path then (True, drop_file path w) else (w_files w path = None, w))"

definition history_path :: "environment \<Rightarrow> string \<Rightarrow> string \<Rightarrow> string" where
  "history_path env session_id generation = tool_session_dir env session_id @ ''/history/'' @ generation @ ''.json''"

definition closed_record :: "u64 \<Rightarrow> session_info \<Rightarrow> json" where
  "closed_record now s =
     (case session_registry_record_to_json s of
        JObject ms \<Rightarrow> JObject (member_set (member_set ms ''closed_at'' (JInteger (sint now))) ''final_state'' (JString ''closed''))
      | v \<Rightarrow> v)"

text \<open>The last steps of a removal: the state and the activity marker are unlinked, then the directory is synced.\<close>

definition retire_files :: "os \<Rightarrow> environment \<Rightarrow> string \<Rightarrow> world \<Rightarrow> registry_result \<times> world" where
  "retire_files os env session_id w =
     (let (gone, w1) = remove_file_if_exists os (session_state_path env session_id) w
      in if \<not> gone then ((IoError, ''failed to retire closed session state''), w1)
         else
           let (gone', w2) = remove_file_if_exists os (session_activity_path env session_id) w1
           in if \<not> gone' then ((IoError, ''failed to retire session activity marker''), w2)
              else (if os_sync os (tool_session_dir env session_id) then result_ok
                    else (IoError, ''failed to sync retired session state''), w2))"

definition remove_if_generation ::
  "os \<Rightarrow> codec \<Rightarrow> environment \<Rightarrow> world \<Rightarrow> string \<Rightarrow> string \<Rightarrow> registry_result option \<times> world" where
  "remove_if_generation os co env w session_id expected_generation =
     (case read_one os co env w session_id of
        (Inl r, w') \<Rightarrow> (Some r, w')
      | (Inr current, w') \<Rightarrow>
          if si_generation current \<noteq> expected_generation then
            (Some (GenerationMismatch, ''remove generation no longer matches registry''), w')
          else if \<not> os_mkdir os (tool_session_dir env session_id @ ''/history'') then
            (Some (IoError, ''failed to prepare session history''), w')
          else
            (case co_dump co (closed_record (os_now os) current) of
               None \<Rightarrow> (None, w')
             | Some t \<Rightarrow>
                 (let (written, w'') = write_atomic_file os (history_path env session_id expected_generation) (t @ newline) w'
                  in if \<not> written then (Some (IoError, ''failed to archive closed session generation''), w'')
                     else let (r, w3) = retire_files os env session_id w'' in (Some r, w3))))"

definition registry_get :: "os \<Rightarrow> codec \<Rightarrow> environment \<Rightarrow> world \<Rightarrow> string \<Rightarrow> (registry_result + session_info) \<times> world" where
  "registry_get os co env w session_id = read_one os co env w session_id"

text \<open>\<open>std::max_element\<close> by creation time: the first of the largest.\<close>

fun latest_loop :: "session_info \<Rightarrow> session_info list \<Rightarrow> session_info" where
  "latest_loop best [] = best"
| "latest_loop best (s # ss) = latest_loop (if sint (si_created_at best) < sint (si_created_at s) then s else best) ss"

definition get_latest :: "os \<Rightarrow> codec \<Rightarrow> environment \<Rightarrow> world \<Rightarrow> (registry_result + session_info) \<times> world" where
  "get_latest os co env w =
     (case load_all os co env w of
        (Inl r, w') \<Rightarrow> (Inl r, w')
      | (Inr [], w') \<Rightarrow> (Inl (NotFound, ''per-session registry is empty''), w')
      | (Inr (s # ss), w') \<Rightarrow> (Inr (latest_loop s ss), w'))"

section \<open>Generation markers\<close>

definition xdebug_design_write_generation_marker ::
  "os \<Rightarrow> environment \<Rightarrow> string \<Rightarrow> string \<Rightarrow> world \<Rightarrow> bool \<times> world" where
  "xdebug_design_write_generation_marker os env session_id generation w =
     (if \<not> valid_generation generation then (False, w)
      else
        let (made, w') = xdebug_design_ensure_session_dir os env session_id w;
            path = generation_marker_path env session_id;
            temp = path @ ''.tmp.'' @ generation;
            payload = generation @ newline;
            fc = os_calls os path
        in if \<not> made then (False, w')
           else if w_files w' temp \<noteq> None \<or> \<not> fc_create fc then (False, w')
           else
             let ok = (write_all (fc_writes fc (length payload)) (length payload) \<and> fc_fsync fc);
                 ok = (ok \<and> fc_close fc);
                 ok = (ok \<and> fc_rename fc)
             in if ok then (os_sync os (tool_session_dir env session_id), put_file path \<lparr>fe_data = payload, fe_mtime = os_now os\<rparr> w')
                else (False, w'))"

definition xdebug_design_read_generation_marker :: "os \<Rightarrow> environment \<Rightarrow> world \<Rightarrow> string \<Rightarrow> string option" where
  "xdebug_design_read_generation_marker os env w session_id =
     (case read_file os w (generation_marker_path env session_id) of
        Read_Data payload \<Rightarrow>
          if length payload \<noteq> 65 \<or> last payload \<noteq> CHR 0x0A then None
          else if \<not> list_all is_lower_hex (take 64 payload) then None
          else Some (take 64 payload)
      | _ \<Rightarrow> None)"

definition xdebug_design_generation_matches :: "os \<Rightarrow> environment \<Rightarrow> world \<Rightarrow> string \<Rightarrow> string \<Rightarrow> bool" where
  "xdebug_design_generation_matches os env w session_id generation =
     (if generation = [] then False
      else xdebug_design_read_generation_marker os env w session_id = Some generation)"

text \<open>
  The tree below \<open>transport\<close>: which of its files stay is up to the operating system, and so is whether all went well.
\<close>

definition below :: "string \<Rightarrow> string \<Rightarrow> bool" where
  "below root path \<longleftrightarrow> path = root \<or> take (length root + 1) path = root @ ''/''"

definition remove_tree_if_exists :: "os \<Rightarrow> string \<Rightarrow> world \<Rightarrow> bool \<times> world" where
  "remove_tree_if_exists os root w =
     (os_tree_removed os,
      w\<lparr>w_files := (\<lambda>p. if below root p \<and> (os_tree_removed os \<or> \<not> os_tree_kept os p) then None else w_files w p)\<rparr>)"

definition xdebug_design_remove_session_generation ::
  "os \<Rightarrow> environment \<Rightarrow> string \<Rightarrow> string \<Rightarrow> world \<Rightarrow> bool \<times> world" where
  "xdebug_design_remove_session_generation os env session_id expected_generation w =
     (if \<not> xdebug_design_generation_matches os env w session_id expected_generation then (False, w)
      else
        let dir = tool_session_dir env session_id;
            (ok1, w1) = remove_file_if_exists os (dir @ ''/session.json'') w;
            (ok2, w2) = remove_file_if_exists os (dir @ ''/socket'') w1;
            (ok3, w3) = remove_file_if_exists os (socket_path env session_id) w2;
            (ok4, w4) = remove_file_if_exists os (dir @ ''/endpoint.json'') w3;
            (ok5, w5) = remove_tree_if_exists os (dir @ ''/transport'') w4;
            ok = (ok1 \<and> ok2 \<and> ok3 \<and> ok4 \<and> ok5)
        in (ok \<and> os_sync os dir, w5))"

end
