(* ===== verification/Session_Registry_Properties.thy ===== *)
theory Session_Registry_Properties
  imports Session_Registry
begin

text \<open>
  The registry against an abstract view: each session id has a slot, which is vacant, damaged or holds a session. The
  operations move a slot along \<open>slot_step\<close>, transitions labelled with the operation and its result, whatever the operating
  system answers, guarded by the generation they expect.
\<close>

section \<open>What the JSON library promises\<close>

text \<open>
  Parsing gives every integer that is not negative as an unsigned number, and members in the order of their keys.
\<close>

primrec json_canon :: "json \<Rightarrow> json" where
  "json_canon JNull = JNull"
| "json_canon (JBool b) = JBool b"
| "json_canon (JUnsigned n) = JUnsigned n"
| "json_canon (JInteger i) = (if i < 0 then JInteger i else JUnsigned (nat i))"
| "json_canon (JFloat t) = JFloat t"
| "json_canon (JString t) = JString t"
| "json_canon (JArray xs) = JArray (map json_canon xs)"
| "json_canon (JObject ms) = JObject (sort_key fst (map (map_prod id json_canon) ms))"

fun json_plain :: "json \<Rightarrow> bool" where
  "json_plain (JUnsigned n) = (n < 2 ^ 64)"
| "json_plain (JInteger i) = (- (2 ^ 63) \<le> i \<and> i < 2 ^ 63)"
| "json_plain (JFloat t) = False"
| "json_plain (JArray xs) = (\<forall>x \<in> set xs. json_plain x)"
| "json_plain (JObject ms) = (distinct (map fst ms) \<and> (\<forall>v \<in> snd ` set ms. json_plain v))"
| "json_plain _ = True"

definition codec_roundtrips :: "codec \<Rightarrow> bool" where
  "codec_roundtrips co \<longleftrightarrow>
     (\<forall>v t. json_plain v \<longrightarrow> co_dump co v = Some t \<longrightarrow> co_parse co (t @ newline) = Some (json_canon v))"

instance json :: countable
  by countable_datatype

text \<open>A codec that satisfies this: the number of the value, in unary.\<close>

definition unary_codec :: codec where
  "unary_codec = \<lparr>co_parse = (\<lambda>t. if t = [] then None else Some (from_nat (length t - 1))),
     co_dump = (\<lambda>v. Some (replicate (to_nat (json_canon v)) (CHR ''x'')))\<rparr>"

lemma unary_codec_roundtrips: "codec_roundtrips unary_codec"
  by (simp add: codec_roundtrips_def unary_codec_def newline_def)

section \<open>Reading a record back\<close>

lemma map_of_sort_key: "distinct (map fst ms) \<Longrightarrow> map_of (sort_key fst ms) = map_of ms"
  by (subst map_of_inject_set) (simp_all add: distinct_map)

lemma canon_get:
  assumes "distinct (map fst ms)"
  shows "json_get (json_canon (JObject ms)) k = map_option json_canon (json_get (JObject ms) k)"
proof -
  have "map fst (map (map_prod id json_canon) ms) = map fst ms" by simp
  then have "map_of (sort_key fst (map (map_prod id json_canon) ms)) = map_of (map (map_prod id json_canon) ms)"
    using assms by (intro map_of_sort_key) (simp del: map_map)
  moreover have "map_of (map (map_prod id json_canon) ms) k = map_option json_canon (map_of ms k)"
    by (induction ms) auto
  ultimately show ?thesis by simp
qed

lemma read_canon: "read_nonnegative_u64 (map_option json_canon x) = read_nonnegative_u64 x"
  by (cases x rule: read_nonnegative_u64.cases) (simp_all add: of_nat_nat not_less)

lemma string_canon: "map_option json_canon x = Some (JString t) \<longleftrightarrow> x = Some (JString t)"
proof -
  have "json_canon v = JString t \<longleftrightarrow> v = JString t" for v by (cases v) auto
  then show ?thesis by (cases x) auto
qed

lemma record_from_canon:
  assumes "distinct (map fst ms)"
  shows "session_registry_record_from_json (json_canon (JObject ms)) = session_registry_record_from_json (JObject ms)"
proof -
  let ?u = "json_canon (JObject ms)" and ?v = "JObject ms"
  note get = canon_get [OF assms]
  have size: "json_size ?u = json_size ?v" "is_object ?u" "is_object ?v" by simp_all
  have contains: "json_contains ?u = json_contains ?v"
    by (simp only: fun_eq_iff json_contains_def get) simp
  have str: "is_string_field ?u = is_string_field ?v"
    by (simp only: fun_eq_iff is_string_field_def get string_canon) simp
  have field: "string_field ?u k = string_field ?v k" for k
  proof (cases "\<exists>t. json_get ?v k = Some (JString t)")
    case True
    then show ?thesis by (auto simp: string_field_def get simp del: json_get.simps json_canon.simps(8))
  next
    case False
    then have "\<nexists>t. json_get ?u k = Some (JString t)" by (simp only: get string_canon) simp
    with False show ?thesis unfolding string_field_def by (auto split: option.splits json.splits simp del: json_get.simps json_canon.simps)
  qed
  have bounded: "read_bounded_nonnegative ?u = read_bounded_nonnegative ?v"
    by (simp only: fun_eq_iff read_bounded_nonnegative_def get read_canon) simp
  show ?thesis
    unfolding session_registry_record_from_json_def check_record_shape_def legacy_without_format_def
      read_string_fields_def read_number_fields_def
    by (simp only: size contains str field bounded)
qed

lemma record_members: "\<exists>ms. session_registry_record_to_json s = JObject ms \<and> distinct (map fst ms)"
  by (simp add: session_registry_record_to_json_def)

lemma sint_plain: "- (2 ^ 63) \<le> sint w \<and> sint w < 2 ^ 63" for w :: u64
  using sint_range_size [of w] by (simp add: word_size)

lemma sint_plain_32: "- (2 ^ 63) \<le> sint w \<and> sint w < 2 ^ 63" for w :: u32
  using sint_range_size [of w] by (simp add: word_size)

lemma record_plain: "json_plain (session_registry_record_to_json s)"
proof -
  have "unat w < 2 ^ 64" for w :: u64 using unsigned_less [of w] by simp
  then show ?thesis
    using sint_plain sint_plain_32 by (simp add: session_registry_record_to_json_def)
qed

lemma record_parsed:
  assumes "codec_roundtrips co" "co_dump co (session_registry_record_to_json s) = Some t"
  shows "\<exists>v. co_parse co (t @ newline) = Some v \<and>
    (session_registry_record_from_json v = Inr u \<longleftrightarrow> u = s \<and> session_valid s)"
proof -
  have "co_parse co (t @ newline) = Some (json_canon (session_registry_record_to_json s))"
    using assms record_plain by (auto simp: codec_roundtrips_def)
  moreover have "session_registry_record_from_json (json_canon (session_registry_record_to_json s)) =
      session_registry_record_from_json (session_registry_record_to_json s)"
    using record_members [of s] record_from_canon by auto
  ultimately show ?thesis by (simp add: record_valid)
qed

section \<open>Paths\<close>

lemma dir_file_inj:
  assumes "tool_session_dir env a @ CHR ''/'' # f = tool_session_dir env b @ CHR ''/'' # g"
  shows "session_dir_name a = session_dir_name b \<and> f = g"
proof -
  have "session_dir_name a @ CHR ''/'' # f = session_dir_name b @ CHR ''/'' # g"
    using assms by (simp add: tool_session_dir_def)
  then show ?thesis
    using session_dir_name_no_slash [of a] session_dir_name_no_slash [of b]
    by (simp add: append_separated)
qed

lemma state_path_eq: "session_state_path env a = session_state_path env b \<longleftrightarrow> session_dir_name a = session_dir_name b"
  by (auto simp: session_state_path_def tool_session_dir_def)

lemma state_path_other:
  "session_state_path env a \<noteq> session_activity_path env b"
  "session_state_path env a \<noteq> history_path env b g"
  "session_state_path env a \<noteq> registry_path env"
  "session_state_path env a \<noteq> retired_path env"
  "session_activity_path env b \<noteq> session_state_path env a"
  "history_path env b g \<noteq> session_state_path env a"
proof -
  show "session_state_path env a \<noteq> session_activity_path env b"
    and "session_activity_path env b \<noteq> session_state_path env a"
    using dir_file_inj [of env a "''state.json''" b "''activity''"]
    by (auto simp: session_state_path_def session_activity_path_def)
  show "session_state_path env a \<noteq> history_path env b g"
    and "history_path env b g \<noteq> session_state_path env a"
    using dir_file_inj [of env a "''state.json''" b "''history/'' @ g @ ''.json''"]
    by (auto simp: session_state_path_def history_path_def)
  show "session_state_path env a \<noteq> registry_path env" "session_state_path env a \<noteq> retired_path env"
    by (simp_all add: session_state_path_def tool_session_dir_def tool_sessions_dir_def registry_path_def retired_path_def)
qed

section \<open>Slots\<close>

datatype slot = Vacant | Damaged | Held session_info

definition file_slot :: "codec \<Rightarrow> string \<Rightarrow> file_entry option \<Rightarrow> slot" where
  "file_slot co session_id f =
     (case f of
        None \<Rightarrow> Vacant
      | Some f \<Rightarrow>
          (case co_parse co (fe_data f) of
             None \<Rightarrow> Damaged
           | Some v \<Rightarrow>
               (case session_registry_record_from_json v of
                  Inl e \<Rightarrow> Damaged
                | Inr s \<Rightarrow> if si_session_id s = session_id then Held s else Damaged)))"

definition session_slot :: "codec \<Rightarrow> environment \<Rightarrow> world \<Rightarrow> string \<Rightarrow> slot" where
  "session_slot co env w session_id = file_slot co session_id (w_files w (session_state_path env session_id))"

text \<open>The files apart from the registry of the old format and its archive.\<close>

definition same_files :: "environment \<Rightarrow> world \<Rightarrow> world \<Rightarrow> bool" where
  "same_files env w w' \<longleftrightarrow> (\<forall>p. p \<noteq> registry_path env \<longrightarrow> p \<noteq> retired_path env \<longrightarrow> w_files w' p = w_files w p)"

lemma same_files_refl [simp]: "same_files env w w"
  by (simp add: same_files_def)

lemma same_files_slot: "same_files env w w' \<Longrightarrow> session_slot co env w' i = session_slot co env w i"
  by (simp add: session_slot_def same_files_def state_path_other)

lemma legacy_same_files: "same_files env w (snd (check_legacy_registry os co env w))"
proof -
  have "same_files env w (archive_legacy env w)"
    by (auto simp: same_files_def archive_legacy_def put_file_def drop_file_def split: option.splits)
  then show ?thesis
    by (auto simp: check_legacy_registry_def split: read_outcome.split option.split sum.split rename_outcome.split)
qed

lemma merge_activity_only: "\<exists>t. merge_activity os w p s = s\<lparr>si_last_active := t\<rparr>"
proof -
  have "\<exists>t. s = s\<lparr>si_last_active := t\<rparr>" by (rule exI [of _ "si_last_active s"]) simp
  then show ?thesis by (auto simp: merge_activity_def split: option.split)
qed

lemma parse_record_slot:
  "parse_record_file os co w (session_state_path env i) = Inr s \<Longrightarrow>
     session_slot co env w i = (if si_session_id s = i then Held s else Damaged)"
  "parse_record_file os co w (session_state_path env i) = Inl (NotFound, m) \<Longrightarrow> session_slot co env w i = Vacant"
  by (auto simp: parse_record_file_def read_file_def session_slot_def file_slot_def
      split: if_splits option.splits sum.splits)

lemma read_one_cases:
  assumes "read_one os co env w i = (r, w')"
  obtains (held) s t where "same_files env w w'" "r = Inr (s\<lparr>si_last_active := t\<rparr>)" "session_slot co env w i = Held s" "si_session_id s = i"
  | (missing) m where "same_files env w w'" "r = Inl (NotFound, m)" "session_slot co env w i = Vacant"
  | (failed) e where "same_files env w w'" "r = Inl e" "fst e \<noteq> NotFound" "fst e \<noteq> Ok"
proof -
  obtain l w1 where l: "check_legacy_registry os co env w = (l, w1)" by fastforce
  have same: "same_files env w w1" using legacy_same_files [of env w os co] l by simp
  have lnot: "fst l \<noteq> NotFound"
    using l by (auto simp: check_legacy_registry_def result_ok_def
        split: read_outcome.splits option.splits sum.splits rename_outcome.splits if_splits)
  show ?thesis
  proof (cases "fst l = Ok")
    case False
    then show ?thesis using assms l same lnot failed [of l] by (auto simp: read_one_def)
  next
    case True
    show ?thesis
    proof (cases "parse_record_file os co w1 (session_state_path env i)")
      case (Inl e)
      then have r: "r = Inl e" "w' = w1" using assms l True by (auto simp: read_one_def)
      have "fst e \<noteq> Ok" using Inl by (auto simp: parse_record_file_def split: read_outcome.splits option.splits sum.splits)
      then show ?thesis
        using r same parse_record_slot(2) [of os co w1 env i] same_files_slot [OF same] Inl missing failed
        by (cases e; cases "fst e = NotFound") auto
    next
      case (Inr s)
      then have slot: "session_slot co env w i = (if si_session_id s = i then Held s else Damaged)"
        using parse_record_slot(1) same_files_slot [OF same] by metis
      obtain t where "merge_activity os w1 (session_activity_path env i) s = s\<lparr>si_last_active := t\<rparr>"
        using merge_activity_only by metis
      then show ?thesis
        using assms l True Inr slot same held failed by (auto simp: read_one_def split: if_splits)
    qed
  qed
qed

section \<open>Effects\<close>

lemma ensure_dir_files: "w_files (snd (xdebug_design_ensure_session_dir os env i w)) = w_files w"
  by (simp add: xdebug_design_ensure_session_dir_def)

lemma write_atomic_files:
  assumes "write_atomic_file os p d w = (b, w')"
  shows "w_files w' = w_files w \<and> \<not> b \<or> w_files w' = (w_files w)(p \<mapsto> \<lparr>fe_data = d, fe_mtime = os_now os\<rparr>)"
  using assms by (auto simp: write_atomic_file_def put_file_def Let_def split: if_splits)

lemma persist_files:
  assumes "persist os co env w s msg = (r, w')"
  shows "(w_files w' = w_files w \<and> r \<noteq> Some result_ok) \<or>
    (\<exists>t m. co_dump co (session_registry_record_to_json s) = Some t \<and>
       w_files w' = (w_files w)(session_state_path env (si_session_id s) \<mapsto> \<lparr>fe_data = t @ newline, fe_mtime = m\<rparr>))"
proof -
  obtain made w1 where m: "xdebug_design_ensure_session_dir os env (si_session_id s) w = (made, w1)" by fastforce
  have f1: "w_files w1 = w_files w" using ensure_dir_files [of os env "si_session_id s" w] m by simp
  show ?thesis
  proof (cases "made \<and> co_dump co (session_registry_record_to_json s) \<noteq> None")
    case False
    then show ?thesis using assms m f1 by (cases made) (auto simp: persist_def write_one_def result_ok_def)
  next
    case True
    then obtain t where t: "co_dump co (session_registry_record_to_json s) = Some t" by auto
    obtain b w2 where w: "write_atomic_file os (session_state_path env (si_session_id s)) (t @ newline) w1 = (b, w2)" by fastforce
    then have "w' = w2" "r = Some (if b then result_ok else (IoError, msg))"
      using assms m t True by (auto simp: persist_def write_one_def)
    then show ?thesis using write_atomic_files [OF w] f1 t by (auto simp: result_ok_def)
  qed
qed

lemma written_slot:
  assumes "codec_roundtrips co" "co_dump co (session_registry_record_to_json s) = Some t"
  shows "file_slot co (si_session_id s) (Some \<lparr>fe_data = t @ newline, fe_mtime = m\<rparr>) = (if session_valid s then Held s else Damaged)"
proof -
  obtain v where v: "co_parse co (t @ newline) = Some v"
    and r: "session_registry_record_from_json v = Inr u \<longleftrightarrow> u = s \<and> session_valid s" for u
    using record_parsed [OF assms] by (metis option.inject)
  show ?thesis
    using r [of s] r [of "projr (session_registry_record_from_json v)"]
    by (cases "session_registry_record_from_json v") (auto simp: file_slot_def v)
qed

lemma persist_slot:
  assumes "persist os co env w s msg = (r, w')" "codec_roundtrips co"
  shows "r = Some result_ok \<Longrightarrow> session_slot co env w' (si_session_id s) = (if session_valid s then Held s else Damaged)"
    and "session_slot co env w' (si_session_id s) = session_slot co env w (si_session_id s) \<or>
      session_slot co env w' (si_session_id s) = (if session_valid s then Held s else Damaged)"
    and "session_dir_name i \<noteq> session_dir_name (si_session_id s) \<Longrightarrow> session_slot co env w' i = session_slot co env w i"
  using persist_files [OF assms(1)] written_slot [OF assms(2), of s]
  by (auto simp: session_slot_def state_path_eq)

lemma persist_result: "persist os co env w s msg = (Some r, w') \<Longrightarrow> r = result_ok \<or> r = (IoError, msg)"
  by (auto simp: persist_def split: prod.splits if_splits)

lemma same_files_trans: "same_files env w w1 \<Longrightarrow> same_files env w1 w2 \<Longrightarrow> same_files env w w2"
  by (simp add: same_files_def)

lemma touch_file_slot: "session_slot co env (snd (touch_file os (session_activity_path env j) t w)) i = session_slot co env w i"
  by (auto simp: touch_file_def session_slot_def put_file_def Let_def state_path_other split: touch_outcome.split)

lemma remove_file_slot:
  assumes "remove_file_if_exists os p w = (b, w')"
  shows "b \<longleftrightarrow> w_files w' p = None" "q \<noteq> p \<Longrightarrow> w_files w' q = w_files w q" "w_files w' p = w_files w p \<or> w_files w' p = None"
  using assms by (auto simp: remove_file_if_exists_def drop_file_def split: if_splits)

lemma retire_files_effect:
  assumes "retire_files os env i w = (r, w')"
  shows "w_files w' q = w_files w q \<or> w_files w' q = None"
    and "q \<noteq> session_state_path env i \<Longrightarrow> q \<noteq> session_activity_path env i \<Longrightarrow> w_files w' q = w_files w q"
    and "fst r = Ok \<Longrightarrow> w_files w' (session_state_path env i) = None \<and> w_files w' (session_activity_path env i) = None"
proof -
  obtain b1 w1 where 1: "remove_file_if_exists os (session_state_path env i) w = (b1, w1)" by fastforce
  obtain b2 w2 where 2: "remove_file_if_exists os (session_activity_path env i) w1 = (b2, w2)" by fastforce
  note effects = remove_file_slot [OF 1] remove_file_slot [OF 2]
  have w': "w' = (if b1 then w2 else w1)" and r: "fst r = Ok \<Longrightarrow> b1 \<and> b2"
    using assms by (auto simp: retire_files_def 1 2 result_ok_def split: if_splits)
  have "w_files w1 q = w_files w q \<or> w_files w1 q = None" "w_files w2 q = w_files w1 q \<or> w_files w2 q = None"
    using effects by metis+
  then show "w_files w' q = w_files w q \<or> w_files w' q = None" by (auto simp: w')
  show "w_files w' q = w_files w q" if "q \<noteq> session_state_path env i" "q \<noteq> session_activity_path env i"
    using that effects(2) [of q] effects(5) [of q] by (auto simp: w')
  show "w_files w' (session_state_path env i) = None \<and> w_files w' (session_activity_path env i) = None" if "fst r = Ok"
    using r [OF that] effects state_path_other(1) [of env i i] by (auto simp: w')
qed

lemma slot_vacant: "session_slot co env w i = Vacant \<longleftrightarrow> w_files w (session_state_path env i) = None"
  by (auto simp: session_slot_def file_slot_def split: option.splits sum.splits)

section \<open>Compare and swap\<close>

text \<open>Whether a slot holds a session of the generation.\<close>

fun holds :: "string \<Rightarrow> slot \<Rightarrow> bool" where
  "holds g (Held s) = (si_generation s = g)"
| "holds g _ = False"

lemma update_opening_effect:
  assumes "update_opening os co env w s g = (r, w')"
  shows "(same_files env w w' \<and> r \<noteq> Some result_ok) \<or>
    (\<exists>c w1 m. si_lifecycle_state s = ''opening'' \<and> si_generation s = g \<and> same_files env w w1 \<and>
       session_slot co env w (si_session_id s) = Held c \<and> si_generation c = g \<and> si_lifecycle_state c = ''opening'' \<and>
       persist os co env w1 s m = (r, w'))"
proof -
  obtain x w1 where x: "read_one os co env w (si_session_id s) = (x, w1)" by fastforce
  from x show ?thesis
    by (cases rule: read_one_cases) (use assms x in \<open>auto simp: update_opening_def result_ok_def split: if_splits\<close>)
qed

lemma finalize_opening_effect:
  assumes "finalize_opening os co env w s g = (r, w')"
  shows "(same_files env w w' \<and> r \<noteq> Some result_ok) \<or>
    (\<exists>c w1 m. si_lifecycle_state s = ''active'' \<and> si_generation s = g \<and> same_files env w w1 \<and>
       session_slot co env w (si_session_id s) = Held c \<and> si_generation c = g \<and> si_lifecycle_state c = ''opening'' \<and>
       persist os co env w1 s m = (r, w'))"
proof -
  obtain x w1 where x: "read_one os co env w (si_session_id s) = (x, w1)" by fastforce
  from x show ?thesis
    by (cases rule: read_one_cases) (use assms x in \<open>auto simp: finalize_opening_def result_ok_def split: if_splits\<close>)
qed

lemma mark_cleanup_failed_effect:
  assumes "mark_cleanup_failed os co env w s g = (r, w')"
  shows "(same_files env w w' \<and> r \<noteq> Some result_ok) \<or>
    (\<exists>c w1 m. si_lifecycle_state s = ''cleanup_failed'' \<and> si_generation s = g \<and> same_files env w w1 \<and>
       session_slot co env w (si_session_id s) = Held c \<and> si_generation c = g \<and>
       persist os co env w1 s m = (r, w'))"
proof -
  obtain x w1 where x: "read_one os co env w (si_session_id s) = (x, w1)" by fastforce
  from x show ?thesis
    by (cases rule: read_one_cases) (use assms x in \<open>auto simp: mark_cleanup_failed_def result_ok_def split: if_splits\<close>)
qed

lemma reserve_opening_effect:
  assumes "reserve_opening os co env w s = (r, w')"
  shows "(same_files env w w' \<and> r \<noteq> Some result_ok) \<or>
    (\<exists>w1 m. si_lifecycle_state s = ''opening'' \<and> same_files env w w1 \<and>
       session_slot co env w (si_session_id s) = Vacant \<and> persist os co env w1 s m = (r, w'))"
proof -
  obtain x w1 where x: "read_one os co env w (si_session_id s) = (x, w1)" by fastforce
  from x show ?thesis
    by (cases rule: read_one_cases) (use assms x in \<open>auto simp: reserve_opening_def result_ok_def split: if_splits\<close>)
qed

lemma touch_effect:
  assumes "touch_if_generation os co env w i g t = (r, w')"
  shows "(same_files env w w' \<and> r \<noteq> result_ok) \<or>
    (\<exists>c w1. session_slot co env w i = Held c \<and> si_generation c = g \<and> same_files env w w1 \<and>
      (w' = w1 \<or> touch_file os (session_activity_path env i) t w1 = (r, w')))"
proof -
  obtain x w1 where x: "read_one os co env w i = (x, w1)" by fastforce
  from x show ?thesis
    by (cases rule: read_one_cases) (use assms x in \<open>auto simp: touch_if_generation_def result_ok_def split: if_splits\<close>)
qed

lemma remove_effect:
  assumes "remove_if_generation os co env w i g = (r, w')"
  shows "(same_files env w w' \<and> r \<noteq> Some result_ok) \<or>
    (\<exists>c w1 d b w2. session_slot co env w i = Held c \<and> si_generation c = g \<and> same_files env w w1 \<and>
      write_atomic_file os (history_path env i g) d w1 = (b, w2) \<and>
      (w' = w2 \<and> \<not> b \<and> r \<noteq> Some result_ok \<or> b \<and> (\<exists>r'. retire_files os env i w2 = (r', w') \<and> r = Some r')))"
proof -
  obtain x w1 where x: "read_one os co env w i = (x, w1)" by fastforce
  from x show ?thesis
    by (cases rule: read_one_cases)
      (use assms x in \<open>auto simp: remove_if_generation_def result_ok_def split: if_splits option.splits prod.splits\<close>)
qed

section \<open>Sequences of operations\<close>

datatype registry_op =
    Reserve session_info
  | Update session_info string
  | Finalize session_info string
  | Cleanup session_info string
  | Touch string string u64
  | Remove string string
  | Load
  | Get string
  | Latest

fun op_session :: "registry_op \<Rightarrow> string option" where
  "op_session (Reserve s) = Some (si_session_id s)"
| "op_session (Update s g) = Some (si_session_id s)"
| "op_session (Finalize s g) = Some (si_session_id s)"
| "op_session (Cleanup s g) = Some (si_session_id s)"
| "op_session (Touch i g t) = Some i"
| "op_session (Remove i g) = Some i"
| "op_session _ = None"

fun op_valid :: "registry_op \<Rightarrow> bool" where
  "op_valid (Reserve s) = session_valid s"
| "op_valid (Update s g) = session_valid s"
| "op_valid (Finalize s g) = session_valid s"
| "op_valid (Cleanup s g) = session_valid s"
| "op_valid _ = True"

text \<open>The generation an operation expects; reading and reserving expect none.\<close>

fun op_generation :: "registry_op \<Rightarrow> string option" where
  "op_generation (Update s g) = Some g"
| "op_generation (Finalize s g) = Some g"
| "op_generation (Cleanup s g) = Some g"
| "op_generation (Touch i g t) = Some g"
| "op_generation (Remove i g) = Some g"
| "op_generation _ = None"

fun result_of :: "(registry_result + 'a) \<times> world \<Rightarrow> registry_result option \<times> world" where
  "result_of (Inl r, w) = (Some r, w)"
| "result_of (Inr x, w) = (Some result_ok, w)"

fun perform :: "codec \<Rightarrow> environment \<Rightarrow> os \<Rightarrow> registry_op \<Rightarrow> world \<Rightarrow> registry_result option \<times> world" where
  "perform co env os (Reserve s) w = reserve_opening os co env w s"
| "perform co env os (Update s g) w = update_opening os co env w s g"
| "perform co env os (Finalize s g) w = finalize_opening os co env w s g"
| "perform co env os (Cleanup s g) w = mark_cleanup_failed os co env w s g"
| "perform co env os (Touch i g t) w = map_prod Some id (touch_if_generation os co env w i g t)"
| "perform co env os (Remove i g) w = remove_if_generation os co env w i g"
| "perform co env os Load w = result_of (load_all os co env w)"
| "perform co env os (Get i) w = result_of (registry_get os co env w i)"
| "perform co env os Latest w = result_of (get_latest os co env w)"

fun perform_all :: "codec \<Rightarrow> environment \<Rightarrow> (os \<times> registry_op) list \<Rightarrow> world \<Rightarrow> world" where
  "perform_all co env [] w = w"
| "perform_all co env ((os, op) # ops) w = perform_all co env ops (snd (perform co env os op w))"

text \<open>The operations performed with the result each one returns.\<close>

fun perform_trace :: "codec \<Rightarrow> environment \<Rightarrow> (os \<times> registry_op) list \<Rightarrow> world \<Rightarrow> (registry_op \<times> registry_result option) list" where
  "perform_trace co env [] w = []"
| "perform_trace co env ((os, op) # ops) w =
     (op, fst (perform co env os op w)) # perform_trace co env ops (snd (perform co env os op w))"

text \<open>
  The lifecycle of the slot of one session id, as transitions labelled with the operation and its result. An operation that
  changes the slot is the one the transition names, with the generation and the states it requires; its result may still be
  a failure, since the new file can be in place when the directory cannot be synced. The slot stays as it is under an operation
  that does not report success, under touching the generation held, and under operations that are not about the id. So
  success is only possible along the transitions.
\<close>

inductive slot_step :: "string \<Rightarrow> registry_op \<Rightarrow> registry_result option \<Rightarrow> slot \<Rightarrow> slot \<Rightarrow> bool" for i where
  reserve: "si_session_id s = i \<Longrightarrow> si_lifecycle_state s = ''opening'' \<Longrightarrow> slot_step i (Reserve s) r Vacant (Held s)"
| update: "si_session_id s = i \<Longrightarrow> si_generation c = g \<Longrightarrow> si_lifecycle_state c = ''opening'' \<Longrightarrow>
    si_generation s = g \<Longrightarrow> si_lifecycle_state s = ''opening'' \<Longrightarrow> slot_step i (Update s g) r (Held c) (Held s)"
| finalize: "si_session_id s = i \<Longrightarrow> si_generation c = g \<Longrightarrow> si_lifecycle_state c = ''opening'' \<Longrightarrow>
    si_generation s = g \<Longrightarrow> si_lifecycle_state s = ''active'' \<Longrightarrow> slot_step i (Finalize s g) r (Held c) (Held s)"
| fail: "si_session_id s = i \<Longrightarrow> si_generation c = g \<Longrightarrow> si_generation s = g \<Longrightarrow>
    si_lifecycle_state s = ''cleanup_failed'' \<Longrightarrow> slot_step i (Cleanup s g) r (Held c) (Held s)"
| retire: "si_generation c = g \<Longrightarrow> slot_step i (Remove i g) r (Held c) Vacant"
| touch: "si_generation c = g \<Longrightarrow> slot_step i (Touch i g t) r (Held c) (Held c)"
| refuse: "op_session op = Some i \<Longrightarrow> r \<noteq> Some result_ok \<Longrightarrow> slot_step i op r x x"
| other: "op_session op \<noteq> Some i \<Longrightarrow> slot_step i op r x x"

inductive slot_run :: "string \<Rightarrow> slot \<Rightarrow> (registry_op \<times> registry_result option) list \<Rightarrow> slot \<Rightarrow> bool" for i where
  nil: "slot_run i x [] x"
| cons: "slot_step i op r x y \<Longrightarrow> slot_run i y trace z \<Longrightarrow> slot_run i x ((op, r) # trace) z"

inductive_cases slot_step_elim: "slot_step i op r x y"

lemma load_all_same_files: "same_files env w (snd (load_all os co env w))"
  using legacy_same_files [of env w os co]
  by (auto simp: load_all_def split: prod.splits enumeration.splits option.splits)

lemma snd_result_of [simp]: "snd (result_of p) = snd p"
  by (cases p rule: result_of.cases) auto

lemma reading_same_files:
  "op_session op = None \<Longrightarrow> same_files env w (snd (perform co env os op w))"
proof (cases op)
  case (Get i)
  obtain x w1 where x: "read_one os co env w i = (x, w1)" by fastforce
  then have "same_files env w w1" by (cases rule: read_one_cases) auto
  then show ?thesis using x Get by (simp add: registry_get_def)
next
  case Latest
  have "snd (get_latest os co env w) = snd (load_all os co env w)"
    by (simp add: get_latest_def split: prod.split sum.split list.split)
  then show ?thesis using Latest load_all_same_files by simp
qed (use load_all_same_files in auto)

lemma remove_slot:
  assumes "remove_if_generation os co env w i g = (r, w')"
  shows "session_slot co env w' i = session_slot co env w i \<or> (session_slot co env w' i = Vacant \<and> holds g (session_slot co env w i))"
    and "session_dir_name j \<noteq> session_dir_name i \<Longrightarrow> session_slot co env w' j = session_slot co env w j"
    and "r = Some result_ok \<Longrightarrow> session_slot co env w' i = Vacant \<and> holds g (session_slot co env w i)"
proof -
  from remove_effect [OF assms] consider
    (same) "same_files env w w'" "r \<noteq> Some result_ok"
  | (changed) c w1 d b w2 where "session_slot co env w i = Held c" "si_generation c = g" "same_files env w w1"
      "write_atomic_file os (history_path env i g) d w1 = (b, w2)"
      "w' = w2 \<and> \<not> b \<and> r \<noteq> Some result_ok \<or> b \<and> (\<exists>r'. retire_files os env i w2 = (r', w') \<and> r = Some r')"
    by blast
  then have all: "(session_slot co env w' i = session_slot co env w i \<or> (session_slot co env w' i = Vacant \<and> holds g (session_slot co env w i))) \<and>
    (session_dir_name j \<noteq> session_dir_name i \<longrightarrow> session_slot co env w' j = session_slot co env w j) \<and>
    (r = Some result_ok \<longrightarrow> session_slot co env w' i = Vacant \<and> holds g (session_slot co env w i))" for j
  proof cases
    case same
    then show ?thesis by (simp add: same_files_slot)
  next
    case changed
    have two: "w_files w2 (session_state_path env x) = w_files w (session_state_path env x)" for x
      using write_atomic_files [OF changed(4)] changed(3) by (auto simp: same_files_def state_path_other)
    from changed(5) show ?thesis
    proof (elim disjE conjE exE)
      assume "w' = w2" "\<not> b" "r \<noteq> Some result_ok"
      then show ?thesis using two by (simp add: session_slot_def)
    next
      fix r' assume r: "retire_files os env i w2 = (r', w')" "r = Some r'"
      note retire = retire_files_effect [OF r(1)]
      have "session_slot co env w' j = session_slot co env w j" if "session_dir_name j \<noteq> session_dir_name i"
        using that retire(2) [of "session_state_path env j"] two by (simp add: session_slot_def state_path_eq state_path_other)
      moreover have "session_slot co env w' i = session_slot co env w i \<or> session_slot co env w' i = Vacant"
        using retire(1) [of "session_state_path env i"] two [of i] by (auto simp: session_slot_def file_slot_def)
      moreover have "r = Some result_ok \<longrightarrow> session_slot co env w' i = Vacant"
        using retire(3) r(2) by (auto simp: slot_vacant result_ok_def)
      ultimately show ?thesis using changed(1,2) by auto
    qed
  qed
  show "session_slot co env w' i = session_slot co env w i \<or> (session_slot co env w' i = Vacant \<and> holds g (session_slot co env w i))"
    and "session_dir_name j \<noteq> session_dir_name i \<Longrightarrow> session_slot co env w' j = session_slot co env w j"
    and "r = Some result_ok \<Longrightarrow> session_slot co env w' i = Vacant \<and> holds g (session_slot co env w i)"
    using all by blast+
qed

text \<open>
  An operation that writes a record either refuses, or writes it along a transition; after a failure of the write the slot may
  be as before.
\<close>

lemma slot_change:
  assumes "(same_files env w w' \<and> r \<noteq> Some result_ok) \<or>
      (\<exists>w1 m. slot_step i op r (session_slot co env w i) (Held s) \<and> same_files env w w1 \<and> persist os co env w1 s m = (r, w'))"
    "session_valid s" "codec_roundtrips co" "si_session_id s = i" "op_session op = Some i"
  shows "slot_step i op r (session_slot co env w i) (session_slot co env w' i)"
  using assms(1)
proof (elim disjE conjE exE)
  assume "same_files env w w'" "r \<noteq> Some result_ok"
  then show ?thesis using slot_step.refuse [OF assms(5)] by (simp add: same_files_slot)
next
  fix w1 m assume step: "slot_step i op r (session_slot co env w i) (Held s)" "same_files env w w1"
    "persist os co env w1 s m = (r, w')"
  note slot = persist_slot [OF step(3) assms(3)]
  show ?thesis
  proof (cases "session_slot co env w' i = Held s")
    case False
    then have "r \<noteq> Some result_ok" "session_slot co env w' i = session_slot co env w i"
      using slot(1,2) assms(2,4) same_files_slot [OF step(2)] by auto
    then show ?thesis using slot_step.refuse [OF assms(5)] by simp
  qed (use step(1) in simp)
qed

lemma perform_slot_own:
  assumes "codec_roundtrips co" "op_valid op" "op_session op = Some i" "perform co env os op w = (r, w')"
  shows "slot_step i op r (session_slot co env w i) (session_slot co env w' i)"
proof (cases op)
  case (Reserve s)
  then show ?thesis using reserve_opening_effect [of os co env w s r w'] assms
    by (intro slot_change [of env w w' r i op co s os]) (auto intro: slot_step.reserve)
next
  case (Update s g)
  then show ?thesis using update_opening_effect [of os co env w s g r w'] assms
    by (intro slot_change [of env w w' r i op co s os]) (auto intro: slot_step.update)
next
  case (Finalize s g)
  then show ?thesis using finalize_opening_effect [of os co env w s g r w'] assms
    by (intro slot_change [of env w w' r i op co s os]) (auto intro: slot_step.finalize)
next
  case (Cleanup s g)
  then show ?thesis using mark_cleanup_failed_effect [of os co env w s g r w'] assms
    by (intro slot_change [of env w w' r i op co s os]) (auto intro: slot_step.fail)
next
  case (Touch j g t)
  obtain q u where "touch_if_generation os co env w j g t = (q, u)" by fastforce
  then have p: "touch_if_generation os co env w i g t = (q, w')" "r = Some q" "j = i" using Touch assms(3,4) by auto
  have same: "session_slot co env w' i = session_slot co env w i"
    using touch_effect [OF p(1)] touch_file_slot [of co env os i t _ i] by (auto simp: same_files_slot) (metis same_files_slot snd_conv)
  from touch_effect [OF p(1)] show ?thesis
    unfolding same using p Touch by (auto intro: slot_step.touch slot_step.refuse)
next
  case (Remove j g)
  then have p: "remove_if_generation os co env w i g = (r, w')" "op = Remove i g" using assms(3,4) by auto
  show ?thesis
  proof (cases "session_slot co env w' i = session_slot co env w i")
    case True
    then have "r \<noteq> Some result_ok" using remove_slot(3) [OF p(1)] by auto
    then show ?thesis using True slot_step.refuse [OF assms(3)] by simp
  next
    case False
    then have "session_slot co env w' i = Vacant" "holds g (session_slot co env w i)" using remove_slot(1) [OF p(1)] by auto
    then show ?thesis using p(2) slot_step.retire by (cases "session_slot co env w i") auto
  qed
qed (use assms in auto)

lemma perform_slot_other:
  assumes "codec_roundtrips co" "op_session op = Some j" "session_dir_name i \<noteq> session_dir_name j"
  shows "session_slot co env (snd (perform co env os op w)) i = session_slot co env w i"
proof (cases op)
  case (Reserve s)
  obtain r w' where p: "reserve_opening os co env w s = (r, w')" by fastforce
  from reserve_opening_effect [OF p] persist_slot(3) [OF _ assms(1)] assms Reserve p show ?thesis by (auto simp: same_files_slot)
next
  case (Update s g)
  obtain r w' where p: "update_opening os co env w s g = (r, w')" by fastforce
  from update_opening_effect [OF p] persist_slot(3) [OF _ assms(1)] assms Update p show ?thesis by (auto simp: same_files_slot)
next
  case (Finalize s g)
  obtain r w' where p: "finalize_opening os co env w s g = (r, w')" by fastforce
  from finalize_opening_effect [OF p] persist_slot(3) [OF _ assms(1)] assms Finalize p show ?thesis by (auto simp: same_files_slot)
next
  case (Cleanup s g)
  obtain r w' where p: "mark_cleanup_failed os co env w s g = (r, w')" by fastforce
  from mark_cleanup_failed_effect [OF p] persist_slot(3) [OF _ assms(1)] assms Cleanup p show ?thesis by (auto simp: same_files_slot)
next
  case (Touch k g t)
  obtain r w' where p: "touch_if_generation os co env w k g t = (r, w')" by fastforce
  from touch_effect [OF p] have "session_slot co env w' i = session_slot co env w i"
    using touch_file_slot [of co env os k t _ i] by (auto simp: same_files_slot) (metis same_files_slot snd_conv)
  then show ?thesis using p Touch by simp
next
  case (Remove k g)
  obtain r w' where p: "remove_if_generation os co env w k g = (r, w')" by fastforce
  show ?thesis using remove_slot(2) [OF p] assms(2,3) Remove p by simp
qed (use assms in auto)

lemma perform_slot:
  assumes "codec_roundtrips co" "op_valid op" "perform co env os op w = (r, w')"
    "\<And>j. op_session op = Some j \<Longrightarrow> session_dir_name i = session_dir_name j \<Longrightarrow> i = j"
  shows "slot_step i op r (session_slot co env w i) (session_slot co env w' i)"
proof (cases "op_session op = Some i")
  case True
  then show ?thesis using perform_slot_own [OF assms(1,2) _ assms(3)] by blast
next
  case False
  then have "session_slot co env w' i = session_slot co env w i"
    using assms(3,4) same_files_slot [OF reading_same_files [of op env w co os], of co i] perform_slot_other [OF assms(1), of op _ i env os w]
    by (cases "op_session op") auto
  then show ?thesis using slot_step.other [OF False] by simp
qed

lemma perform_mismatch:
  assumes "op_generation op = Some g" "op_session op = Some i" "\<not> holds g (session_slot co env w i)"
  shows "fst (perform co env os op w) \<noteq> Some result_ok \<and> same_files env w (snd (perform co env os op w))"
proof (cases op)
  case (Update s h)
  obtain r w' where p: "update_opening os co env w s h = (r, w')" by fastforce
  from update_opening_effect [OF p] assms Update p show ?thesis by auto
next
  case (Finalize s h)
  obtain r w' where p: "finalize_opening os co env w s h = (r, w')" by fastforce
  from finalize_opening_effect [OF p] assms Finalize p show ?thesis by auto
next
  case (Cleanup s h)
  obtain r w' where p: "mark_cleanup_failed os co env w s h = (r, w')" by fastforce
  from mark_cleanup_failed_effect [OF p] assms Cleanup p show ?thesis by auto
next
  case (Touch k h t)
  obtain r w' where p: "touch_if_generation os co env w k h t = (r, w')" by fastforce
  from touch_effect [OF p] assms Touch p show ?thesis by auto
next
  case (Remove k h)
  obtain r w' where p: "remove_if_generation os co env w k h = (r, w')" by fastforce
  from remove_effect [OF p] assms Remove p show ?thesis by auto
qed (use assms in auto)

lemma perform_ok:
  assumes "fst (perform co env os op w) = Some result_ok" "codec_roundtrips co"
  shows "op = Reserve s \<Longrightarrow> session_slot co env w (si_session_id s) = Vacant \<and>
      session_slot co env (snd (perform co env os op w)) (si_session_id s) = (if session_valid s then Held s else Damaged)"
    and "op \<in> {Update s g, Finalize s g, Cleanup s g} \<Longrightarrow> holds g (session_slot co env w (si_session_id s)) \<and>
      session_slot co env (snd (perform co env os op w)) (si_session_id s) = (if session_valid s then Held s else Damaged)"
    and "op = Remove i g \<Longrightarrow> holds g (session_slot co env w i) \<and>
      session_slot co env (snd (perform co env os op w)) i = Vacant"
proof -
  obtain r w' where p: "perform co env os op w = (r, w')" by fastforce
  note slot = persist_slot(1) [OF _ assms(2)]
  show "session_slot co env w (si_session_id s) = Vacant \<and>
      session_slot co env (snd (perform co env os op w)) (si_session_id s) = (if session_valid s then Held s else Damaged)"
    if "op = Reserve s"
    using reserve_opening_effect [of os co env w s r w'] assms(1) that p slot by auto
  show "holds g (session_slot co env w (si_session_id s)) \<and>
      session_slot co env (snd (perform co env os op w)) (si_session_id s) = (if session_valid s then Held s else Damaged)"
    if "op \<in> {Update s g, Finalize s g, Cleanup s g}"
    using update_opening_effect [of os co env w s g r w'] finalize_opening_effect [of os co env w s g r w']
      mark_cleanup_failed_effect [of os co env w s g r w'] assms(1) that p slot by auto
  show "holds g (session_slot co env w i) \<and> session_slot co env (snd (perform co env os op w)) i = Vacant" if "op = Remove i g"
    using remove_slot(3) [of os co env w i g r w'] assms(1) that p by auto
qed

lemma perform_all_slot:
  assumes "codec_roundtrips co" "\<forall>(os, op) \<in> set ops. op_valid op"
    "\<forall>(os, op) \<in> set ops. \<forall>j. op_session op = Some j \<longrightarrow> session_dir_name i = session_dir_name j \<longrightarrow> i = j"
  shows "slot_run i (session_slot co env w i) (perform_trace co env ops w) (session_slot co env (perform_all co env ops w) i)"
  using assms(2,3)
proof (induction ops arbitrary: w)
  case Nil
  then show ?case by (simp add: slot_run.nil)
next
  case (Cons x ops)
  obtain os op where x: "x = (os, op)" by fastforce
  have "slot_step i op (fst (perform co env os op w)) (session_slot co env w i) (session_slot co env (snd (perform co env os op w)) i)"
    using Cons.prems x by (intro perform_slot [OF assms(1), of _ env os]) auto
  moreover have "slot_run i (session_slot co env (snd (perform co env os op w)) i) (perform_trace co env ops (snd (perform co env os op w)))
      (session_slot co env (perform_all co env ops (snd (perform co env os op w))) i)"
    using Cons.prems by (intro Cons.IH) auto
  ultimately show ?case unfolding x perform_trace.simps perform_all.simps by (rule slot_run.cons)
qed

lemma slot_step_not_damaged: "slot_step i op r x y \<Longrightarrow> x \<noteq> Damaged \<Longrightarrow> y \<noteq> Damaged"
  by (auto elim: slot_step_elim)

lemma slot_run_not_damaged: "slot_run i x trace y \<Longrightarrow> x \<noteq> Damaged \<Longrightarrow> y \<noteq> Damaged"
  by (induction rule: slot_run.induct) (auto dest: slot_step_not_damaged)

section \<open>An operating system without failures\<close>

definition calls_work :: "file_calls \<Rightarrow> bool" where
  "calls_work fc \<longleftrightarrow> fc_create fc \<and> fc_fchmod fc \<and> (\<forall>n. write_all (fc_writes fc n) n) \<and> fc_fsync fc \<and> fc_close fc \<and> fc_rename fc"

definition os_works :: "os \<Rightarrow> bool" where
  "os_works os \<longleftrightarrow> (\<forall>p. \<not> os_denied os p \<and> os_mkdir os p \<and> calls_work (os_calls os p) \<and> os_unlink os p \<and> os_sync os p)"

definition working_os :: os where
  "working_os = \<lparr>os_denied = (\<lambda>p. False), os_mkdir = (\<lambda>p. True),
     os_calls = (\<lambda>p. \<lparr>fc_create = True, fc_fchmod = True, fc_writes = (\<lambda>n. [Interrupted, Wrote n]), fc_fsync = True, fc_close = True, fc_rename = True\<rparr>),
     os_unlink = (\<lambda>p. True), os_sync = (\<lambda>p. True), os_archive = Renamed, os_touch = Touched True True,
     os_enumerate = Enumerated True True, os_tree_kept = (\<lambda>p. False), os_tree_removed = True, os_now = 1000\<rparr>"

lemma working_os_works: "os_works working_os"
proof -
  have "write_all [Interrupted, Wrote n] n" for n by (cases n) auto
  then show ?thesis by (simp add: os_works_def working_os_def calls_work_def)
qed

lemma write_atomic_works:
  "os_works os \<Longrightarrow> write_atomic_file os p d w = (True, put_file p \<lparr>fe_data = d, fe_mtime = os_now os\<rparr> w)"
  by (simp add: write_atomic_file_def os_works_def calls_work_def Let_def)

lemma persist_works:
  assumes "os_works os" "co_dump co (session_registry_record_to_json s) = Some t"
  shows "\<exists>w'. persist os co env w s m = (Some result_ok, w') \<and>
    w_files w' = (w_files w)(session_state_path env (si_session_id s) \<mapsto> \<lparr>fe_data = t @ newline, fe_mtime = os_now os\<rparr>)"
  using assms(1)
  by (simp add: persist_def write_one_def xdebug_design_ensure_session_dir_def xdebug_design_ensure_home_def assms(2)
      write_atomic_works [OF assms(1)] put_file_def) (simp add: os_works_def)

lemma read_one_works:
  assumes "os_works os" "w_files w (registry_path env) = None"
  shows "session_slot co env w i = Held s \<Longrightarrow> \<exists>t. read_one os co env w i = (Inr (s\<lparr>si_last_active := t\<rparr>), w)"
    and "session_slot co env w i = Vacant \<Longrightarrow> \<exists>m. read_one os co env w i = (Inl (NotFound, m), w)"
    and "session_slot co env w i = Damaged \<Longrightarrow> \<exists>m. read_one os co env w i = (Inl (Invalid, m), w)"
proof -
  have granted: "\<not> os_denied os p" for p using assms(1) by (simp add: os_works_def)
  have legacy: "check_legacy_registry os co env w = (result_ok, w)"
    by (simp add: check_legacy_registry_def read_file_def granted assms(2))
  have read: "read_one os co env w i = (case parse_record_file os co w (session_state_path env i) of
      Inl r \<Rightarrow> (Inl r, w)
    | Inr s \<Rightarrow> if si_session_id s \<noteq> i then (Inl (Invalid, ''per-session state identity does not match its directory''), w)
        else (Inr (merge_activity os w (session_activity_path env i) s), w))"
    by (simp add: read_one_def legacy result_ok_def)
  show "\<exists>t. read_one os co env w i = (Inr (s\<lparr>si_last_active := t\<rparr>), w)" if "session_slot co env w i = Held s"
  proof -
    have "parse_record_file os co w (session_state_path env i) = Inr s" "si_session_id s = i"
      using that by (auto simp: parse_record_file_def read_file_def granted session_slot_def file_slot_def
          split: option.splits sum.splits if_splits)
    then show ?thesis
      using merge_activity_only [of os w "session_activity_path env i" s] by (auto simp: read)
  qed
  show "\<exists>m. read_one os co env w i = (Inl (NotFound, m), w)" if "session_slot co env w i = Vacant"
    using that by (auto simp: read parse_record_file_def read_file_def granted slot_vacant)
  show "\<exists>m. read_one os co env w i = (Inl (Invalid, m), w)" if "session_slot co env w i = Damaged"
    using that by (auto simp: read parse_record_file_def read_file_def granted session_slot_def file_slot_def
        split: option.splits sum.splits if_splits)
qed

lemma works_files:
  assumes "os_works os" "w_files w (registry_path env) = None" "\<And>v. co_dump co v \<noteq> None"
  shows "session_slot co env w (si_session_id s) = Vacant \<Longrightarrow> si_lifecycle_state s = ''opening'' \<Longrightarrow>
      fst (reserve_opening os co env w s) = Some result_ok \<and> w_files (snd (reserve_opening os co env w s)) (registry_path env) = None"
    and "session_slot co env w (si_session_id s) = Held c \<Longrightarrow> si_lifecycle_state c = ''opening'' \<Longrightarrow> si_generation c = g \<Longrightarrow>
      si_lifecycle_state s = ''active'' \<Longrightarrow> si_generation s = g \<Longrightarrow>
      fst (finalize_opening os co env w s g) = Some result_ok \<and> w_files (snd (finalize_opening os co env w s g)) (registry_path env) = None"
proof -
  obtain t where t: "co_dump co (session_registry_record_to_json s) = Some t" using assms(3) by auto
  have persist: "fst (persist os co env w s m) = Some result_ok \<and> w_files (snd (persist os co env w s m)) (registry_path env) = None" for m
    using persist_works [OF assms(1) t, of env w m] assms(2) state_path_other(3) [of env "si_session_id s", symmetric] by auto
  show "fst (reserve_opening os co env w s) = Some result_ok \<and> w_files (snd (reserve_opening os co env w s)) (registry_path env) = None"
    if "session_slot co env w (si_session_id s) = Vacant" "si_lifecycle_state s = ''opening''"
    using read_one_works(2) [OF assms(1,2) that(1)] that persist by (auto simp: reserve_opening_def)
  show "fst (finalize_opening os co env w s g) = Some result_ok \<and> w_files (snd (finalize_opening os co env w s g)) (registry_path env) = None"
    if "session_slot co env w (si_session_id s) = Held c" "si_lifecycle_state c = ''opening''" "si_generation c = g"
      "si_lifecycle_state s = ''active''" "si_generation s = g"
    using read_one_works(1) [OF assms(1,2) that(1)] that persist by (auto simp: finalize_opening_def)
qed

text \<open>
  A file that archives a closed session: it parses to an object with the final state and the closing time, whose other members are
  those of the record of the session, with a time of last activity not before the one recorded.
\<close>

definition archived :: "codec \<Rightarrow> u64 \<Rightarrow> session_info \<Rightarrow> file_entry option \<Rightarrow> bool" where
  "archived co now s f \<longleftrightarrow>
     (\<exists>e v t. f = Some e \<and> co_parse co (fe_data e) = Some v \<and> sint (si_last_active s) \<le> sint t \<and>
        json_get v ''final_state'' = Some (JString ''closed'') \<and> json_get v ''closed_at'' = Some (json_canon (JInteger (sint now))) \<and>
        (\<forall>k. k \<notin> {''final_state'', ''closed_at''} \<longrightarrow>
           json_get v k = json_get (json_canon (session_registry_record_to_json (s\<lparr>si_last_active := t\<rparr>))) k))"

lemma values_member_set: "snd ` set (member_set ms k v) \<subseteq> insert v (snd ` set ms)"
  by (induction ms k v rule: member_set.induct) auto

lemma closed_record_archived:
  assumes "codec_roundtrips co" "co_dump co (closed_record now (s\<lparr>si_last_active := t\<rparr>)) = Some d"
    "sint (si_last_active s) \<le> sint t"
  shows "archived co now s (Some \<lparr>fe_data = d @ newline, fe_mtime = m\<rparr>)"
proof -
  obtain ms where ms: "session_registry_record_to_json (s\<lparr>si_last_active := t\<rparr>) = JObject ms" "distinct (map fst ms)"
    using record_members by blast
  define ms' where "ms' = member_set (member_set ms ''closed_at'' (JInteger (sint now))) ''final_state'' (JString ''closed'')"
  have c: "closed_record now (s\<lparr>si_last_active := t\<rparr>) = JObject ms'" "distinct (map fst ms')"
    using ms by (simp_all add: closed_record_def ms'_def)
  have "\<forall>v \<in> snd ` set ms. json_plain v" using record_plain [of "s\<lparr>si_last_active := t\<rparr>"] ms(1) by simp
  then have "\<forall>v \<in> snd ` set ms'. json_plain v"
    using values_member_set [of ms "''closed_at''" "JInteger (sint now)"] sint_plain [of now]
      values_member_set [of "member_set ms ''closed_at'' (JInteger (sint now))" "''final_state''" "JString ''closed''"]
    unfolding ms'_def by fastforce
  then have "json_plain (JObject ms')" using c(2) by simp
  then have "co_parse co (d @ newline) = Some (json_canon (JObject ms'))"
    using assms(1,2) unfolding c(1) codec_roundtrips_def by blast
  moreover have "json_get (json_canon (JObject ms')) k = map_option json_canon (map_of ms' k)"
    "json_get (json_canon (JObject ms)) k = map_option json_canon (map_of ms k)" for k
    using canon_get [OF c(2)] canon_get [OF ms(2)] by (simp_all only: json_get.simps)
  moreover have "map_of ms' = (map_of ms)(''closed_at'' \<mapsto> JInteger (sint now), ''final_state'' \<mapsto> JString ''closed'')"
    by (simp add: ms'_def)
  ultimately show ?thesis
    unfolding archived_def using assms(3) ms(1)
    by (intro exI [of _ "\<lparr>fe_data = d @ newline, fe_mtime = m\<rparr>"] exI [of _ "json_canon (JObject ms')"] exI [of _ t])
      (simp del: json_canon.simps(8) json_get.simps)
qed

lemma read_one_last_active:
  assumes "read_one os co env w i = (Inr u, w')" "session_slot co env w i = Held s"
  shows "sint (si_last_active s) \<le> sint (si_last_active u)"
proof -
  obtain l w1 where l: "check_legacy_registry os co env w = (l, w1)" by fastforce
  then obtain x where x: "parse_record_file os co w1 (session_state_path env i) = Inr x" "u = merge_activity os w1 (session_activity_path env i) x"
    using assms(1) by (auto simp: read_one_def split: sum.splits if_splits)
  have "session_slot co env w1 i = session_slot co env w i" using legacy_same_files [of env w os co] l by (simp add: same_files_slot)
  with parse_record_slot(1) [OF x(1)] assms(2) have "x = s" by (simp split: if_splits)
  then show ?thesis using x(2) by (auto simp: merge_activity_def split: option.splits)
qed

lemma remove_works:
  assumes "os_works os" "w_files w (registry_path env) = None" "\<And>v. co_dump co v \<noteq> None" "codec_roundtrips co"
    "session_slot co env w i = Held c" "si_generation c = g"
  shows "fst (remove_if_generation os co env w i g) = Some result_ok \<and>
    archived co (os_now os) c (w_files (snd (remove_if_generation os co env w i g)) (history_path env i g))"
proof -
  obtain t where read: "read_one os co env w i = (Inr (c\<lparr>si_last_active := t\<rparr>), w)"
    using read_one_works(1) [OF assms(1,2,5)] by blast
  obtain d where d: "co_dump co (closed_record (os_now os) (c\<lparr>si_last_active := t\<rparr>)) = Some d" using assms(3) by auto
  let ?e = "\<lparr>fe_data = d @ newline, fe_mtime = os_now os\<rparr>"
  let ?w = "put_file (history_path env i g) ?e w"
  obtain r w' where r: "retire_files os env i ?w = (r, w')" by fastforce
  have all: "os_mkdir os p" "os_unlink os p" "os_sync os p" for p using assms(1) by (simp_all add: os_works_def)
  have "r = result_ok" using r by (simp add: retire_files_def remove_file_if_exists_def all split: if_splits)
  moreover have "history_path env i g \<noteq> session_activity_path env i"
    by (simp add: history_path_def session_activity_path_def)
  then have "w_files w' (history_path env i g) = Some ?e"
    using retire_files_effect(2) [OF r, of "history_path env i g"] by (simp add: put_file_def state_path_other)
  moreover have "archived co (os_now os) c (Some ?e)"
    using closed_record_archived [OF assms(4) d] read_one_last_active [OF read assms(5)] by simp
  moreover have "remove_if_generation os co env w i g = (Some r, w')"
    using assms(6) by (simp add: remove_if_generation_def read all d write_atomic_works [OF assms(1)] r)
  ultimately show ?thesis by simp
qed

text \<open>The life of a session, step by step.\<close>

lemma life_steps:
  assumes "os_works os" "codec_roundtrips co" "\<And>v. co_dump co v \<noteq> None" "w_files w (registry_path env) = None"
    "session_slot co env w (si_session_id s) = Vacant" "session_valid s" "session_valid a"
    "si_lifecycle_state s = ''opening''" "si_lifecycle_state a = ''active''"
    "si_session_id a = si_session_id s" "si_generation a = si_generation s"
  shows "let (r1, w1) = reserve_opening os co env w s;
             (r2, w2) = finalize_opening os co env w1 a (si_generation s);
             (r3, w3) = remove_if_generation os co env w2 (si_session_id s) (si_generation s)
         in r1 = Some result_ok \<and> r2 = Some result_ok \<and> r3 = Some result_ok \<and>
            session_slot co env w1 (si_session_id s) = Held s \<and> session_slot co env w2 (si_session_id s) = Held a \<and>
            session_slot co env w3 (si_session_id s) = Vacant \<and>
            archived co (os_now os) a (w_files w3 (history_path env (si_session_id s) (si_generation s)))"
proof -
  obtain r1 w1 where 1: "reserve_opening os co env w s = (r1, w1)" by fastforce
  obtain r2 w2 where 2: "finalize_opening os co env w1 a (si_generation s) = (r2, w2)" by fastforce
  obtain r3 w3 where 3: "remove_if_generation os co env w2 (si_session_id s) (si_generation s) = (r3, w3)" by fastforce
  from works_files(1) [OF assms(1,4,3,5,8)] 1 have ok1: "r1 = Some result_ok" "w_files w1 (registry_path env) = None" by simp_all
  then have s1: "session_slot co env w1 (si_session_id s) = Held s"
    using perform_ok(1) [of co env os "Reserve s" w s] 1 assms(2,6) by simp
  from works_files(2) [OF assms(1) ok1(2) assms(3), of a s "si_generation s"] s1 2 assms
  have ok2: "r2 = Some result_ok" "w_files w2 (registry_path env) = None" by simp_all
  then have s2: "session_slot co env w2 (si_session_id s) = Held a"
    using perform_ok(2) [of co env os "Finalize a (si_generation s)" w1 a "si_generation s"] 2 assms by simp
  from remove_works [OF assms(1) ok2(2) assms(3,2) s2 assms(11)] 3
  have ok3: "r3 = Some result_ok" "archived co (os_now os) a (w_files w3 (history_path env (si_session_id s) (si_generation s)))" by simp_all
  then have "session_slot co env w3 (si_session_id s) = Vacant"
    using remove_slot(3) [OF 3] by simp
  then show ?thesis using 1 2 3 ok1 ok2 ok3 s1 s2 by simp
qed

section \<open>Properties\<close>

text \<open>
  Claim C4 (refinement). Take any sequence of registry operations, with any answers of the operating system, in which the
  operations write valid sessions and none names another id with the same directory name, and let printed JSON parse back.
  Then the slot of a session id follows its lifecycle along the operations and the results they return: only a reservation fills
  a vacant slot, with an opening session; only an update or a finalization that names the generation of an opening session replaces it
  by an opening or active one; only a cleanup mark or a removal that names the generation held marks or vacates the slot.
  An operation on the slot that does none of this, such as one with another generation or in another state, leaves the slot as
  it is and does not report success, except that touching the generation held may. A slot that is not damaged never
  becomes damaged.
\<close>

theorem registry_refines_lifecycle:
  assumes "codec_roundtrips co" "\<forall>(os, op) \<in> set ops. op_valid op"
    "\<forall>(os, op) \<in> set ops. \<forall>j. op_session op = Some j \<longrightarrow> session_dir_name i = session_dir_name j \<longrightarrow> i = j"
  shows "slot_run i (session_slot co env w i) (perform_trace co env ops w) (session_slot co env (perform_all co env ops w) i) \<and>
    (session_slot co env w i = Damaged \<or> session_slot co env (perform_all co env ops w) i \<noteq> Damaged)"
  using perform_all_slot [OF assms] slot_run_not_damaged by blast

definition sample_env :: environment where
  "sample_env = \<lparr>env_home = ''/root'', env_test_tmpdir = [], env_uid = 0\<rparr>"

definition empty_world :: world where
  "empty_world = \<lparr>w_files = (\<lambda>p. None), w_sessions = None\<rparr>"

definition opening_session :: session_info where
  "opening_session = sample_session\<lparr>si_lifecycle_state := ''opening''\<rparr>"

lemma opening_session_valid: "session_valid opening_session"
  using sample_session_valid
  by (simp add: opening_session_def session_valid_def lifecycle_valid_def resource_valid_def transport_valid_def
      numbers_valid_def sample_session_def session_info_init_def)

lemma empty_slot: "session_slot co env empty_world i = Vacant"
  by (simp add: slot_vacant empty_world_def)

definition sample_generation :: string where
  "sample_generation = replicate 64 (CHR ''a'')"

lemma sample_life:
  "let (r1, w1) = reserve_opening working_os unary_codec sample_env empty_world opening_session;
       (r2, w2) = finalize_opening working_os unary_codec sample_env w1 sample_session sample_generation
   in r1 = Some result_ok \<and> r2 = Some result_ok \<and> session_slot unary_codec sample_env w2 ''run_1'' = Held sample_session"
proof -
  have "w_files empty_world (registry_path sample_env) = None" "\<And>v. co_dump unary_codec v \<noteq> None"
    "si_lifecycle_state opening_session = ''opening''" "si_lifecycle_state sample_session = ''active''"
    "si_session_id sample_session = si_session_id opening_session" "si_generation sample_session = si_generation opening_session"
    "si_session_id opening_session = ''run_1''" "si_generation opening_session = sample_generation"
    by (simp_all add: empty_world_def unary_codec_def opening_session_def sample_session_def sample_generation_def)
  with life_steps [OF working_os_works unary_codec_roundtrips this(2,1) empty_slot opening_session_valid
      sample_session_valid this(3-6)]
  show ?thesis by (auto simp: Let_def split: prod.splits)
qed

theorem registry_refines_lifecycle_witness:
  "slot_run ''run_1'' Vacant
     [(Reserve opening_session, Some result_ok), (Finalize sample_session sample_generation, Some result_ok)] (Held sample_session)"
proof -
  let ?ops = "[(working_os, Reserve opening_session), (working_os, Finalize sample_session sample_generation)]"
  have i: "si_session_id sample_session = ''run_1''" "si_session_id opening_session = ''run_1''"
    by (simp_all add: opening_session_def sample_session_def)
  have "slot_run ''run_1'' (session_slot unary_codec sample_env empty_world ''run_1'') (perform_trace unary_codec sample_env ?ops empty_world)
      (session_slot unary_codec sample_env (perform_all unary_codec sample_env ?ops empty_world) ''run_1'')"
    using registry_refines_lifecycle [OF unary_codec_roundtrips, of ?ops "''run_1''" sample_env empty_world]
      sample_session_valid opening_session_valid i by simp
  then show ?thesis using sample_life by (simp add: empty_slot Let_def split: prod.splits)
qed

text \<open>
  Claim C25 (error). Updating, finalizing, marking, touching and removing compare the generation first: if the slot of the
  session does not hold a session of the expected generation, because it is vacant, damaged or taken over by a later
  generation, the operation does not report success and changes no file (but for archiving a registry of the old format).
\<close>

theorem registry_compare_and_swap:
  assumes "op_generation op = Some g" "op_session op = Some i" "\<not> holds g (session_slot co env w i)"
  shows "fst (perform co env os op w) \<noteq> Some result_ok \<and> same_files env w (snd (perform co env os op w))"
  using assms by (rule perform_mismatch)

lemma registry_compare_and_swap_witness:
  "same_files sample_env empty_world (snd (perform unary_codec sample_env working_os (Remove ''run_1'' ''g'') empty_world))"
  using registry_compare_and_swap [of "Remove ''run_1'' ''g''" "''g''" "''run_1''" unary_codec sample_env empty_world working_os]
  by (simp add: empty_slot)

text \<open>
  When an operation reports success its effect is there: a reservation found a vacant slot and the
  session is now held; an update, finalization or cleanup mark found the expected generation and the new record is
  held exactly as passed; a removal found the expected generation and left the slot vacant.
\<close>

theorem registry_success_effect:
  assumes "codec_roundtrips co" "op_valid op" "fst (perform co env os op w) = Some result_ok"
  shows "case op of
      Reserve s \<Rightarrow> session_slot co env w (si_session_id s) = Vacant \<and>
        session_slot co env (snd (perform co env os op w)) (si_session_id s) = Held s
    | Update s g \<Rightarrow> holds g (session_slot co env w (si_session_id s)) \<and>
        session_slot co env (snd (perform co env os op w)) (si_session_id s) = Held s
    | Finalize s g \<Rightarrow> holds g (session_slot co env w (si_session_id s)) \<and>
        session_slot co env (snd (perform co env os op w)) (si_session_id s) = Held s
    | Cleanup s g \<Rightarrow> holds g (session_slot co env w (si_session_id s)) \<and>
        session_slot co env (snd (perform co env os op w)) (si_session_id s) = Held s
    | Remove i g \<Rightarrow> holds g (session_slot co env w i) \<and> session_slot co env (snd (perform co env os op w)) i = Vacant
    | _ \<Rightarrow> session_slot co env (snd (perform co env os op w)) j = session_slot co env w j"
proof (cases op)
  case (Touch i g t)
  obtain r w' where p: "touch_if_generation os co env w i g t = (r, w')" by fastforce
  from touch_effect [OF p] have "session_slot co env w' j = session_slot co env w j"
    using touch_file_slot [of co env os i t _ j] by (auto simp: same_files_slot) (metis same_files_slot snd_conv)
  then show ?thesis using Touch p by simp
qed (use assms perform_ok [OF assms(3,1)] reading_same_files [of op env w co os] same_files_slot in auto)

lemma registry_success_effect_witness:
  "session_slot unary_codec sample_env (snd (perform unary_codec sample_env working_os (Reserve opening_session) empty_world))
     (si_session_id opening_session) = Held opening_session"
proof -
  have "fst (perform unary_codec sample_env working_os (Reserve opening_session) empty_world) = Some result_ok"
    using works_files(1) [OF working_os_works, of empty_world sample_env unary_codec opening_session]
    by (simp add: empty_slot) (simp add: empty_world_def unary_codec_def opening_session_def)
  then show ?thesis
    using registry_success_effect [OF unary_codec_roundtrips, of "Reserve opening_session"] opening_session_valid by simp
qed

text \<open>
  Claim C26 (liveness). When no system call fails, printing does not throw and printed JSON parses back, and when there is no
  registry of the old format, a session runs through its life: reserving a vacant id with a valid opening session, finalizing
  it with a valid active session of the same id and generation and removing that generation all succeed. The slot holds the
  one, then the other, and is vacant at the end, and the history file of the generation then holds the closed record: the
  record of the active session with its time of last activity, the closing time and the final state.
\<close>

theorem session_life_completes:
  assumes "os_works os" "codec_roundtrips co" "\<And>v. co_dump co v \<noteq> None" "w_files w (registry_path env) = None"
    "session_slot co env w (si_session_id s) = Vacant" "session_valid s" "session_valid a"
    "si_lifecycle_state s = ''opening''" "si_lifecycle_state a = ''active''"
    "si_session_id a = si_session_id s" "si_generation a = si_generation s"
  shows "let (r1, w1) = reserve_opening os co env w s;
             (r2, w2) = finalize_opening os co env w1 a (si_generation s);
             (r3, w3) = remove_if_generation os co env w2 (si_session_id s) (si_generation s)
         in r1 = Some result_ok \<and> r2 = Some result_ok \<and> r3 = Some result_ok \<and>
            session_slot co env w1 (si_session_id s) = Held s \<and> session_slot co env w2 (si_session_id s) = Held a \<and>
            session_slot co env w3 (si_session_id s) = Vacant \<and>
            archived co (os_now os) a (w_files w3 (history_path env (si_session_id s) (si_generation s)))"
  using assms by (rule life_steps)

theorem session_life_completes_witness:
  "let (r1, w1) = reserve_opening working_os unary_codec sample_env empty_world opening_session;
       (r2, w2) = finalize_opening working_os unary_codec sample_env w1 sample_session sample_generation;
       (r3, w3) = remove_if_generation working_os unary_codec sample_env w2 ''run_1'' sample_generation
   in r1 = Some result_ok \<and> r2 = Some result_ok \<and> r3 = Some result_ok \<and>
      session_slot unary_codec sample_env w1 ''run_1'' = Held opening_session \<and>
      session_slot unary_codec sample_env w2 ''run_1'' = Held sample_session \<and>
      session_slot unary_codec sample_env w3 ''run_1'' = Vacant \<and>
      archived unary_codec 1000 sample_session (w_files w3 (history_path sample_env ''run_1'' sample_generation))"
proof -
  have "w_files empty_world (registry_path sample_env) = None" "\<And>v. co_dump unary_codec v \<noteq> None"
    "si_lifecycle_state opening_session = ''opening''" "si_lifecycle_state sample_session = ''active''"
    "si_session_id sample_session = si_session_id opening_session" "si_generation sample_session = si_generation opening_session"
    by (simp_all add: empty_world_def unary_codec_def opening_session_def sample_session_def)
  note life = session_life_completes [OF working_os_works unary_codec_roundtrips this(2,1) empty_slot opening_session_valid
      sample_session_valid this(3-6)]
  have "si_session_id opening_session = ''run_1''" "si_generation opening_session = sample_generation" "os_now working_os = 1000"
    by (simp_all add: opening_session_def sample_session_def sample_generation_def working_os_def)
  from life [unfolded this] show ?thesis .
qed

text \<open>
  The registry does not validate what it writes. Reserving an id with a record that the reader refuses, such as one with a
  malformed generation, succeeds; the slot is then damaged, and no operation can update, remove or reserve it again.
\<close>

lemma invalid_reservation_sticks:
  assumes "codec_roundtrips co" "\<not> session_valid s" "fst (reserve_opening os co env w s) = Some result_ok"
    "op_session op = Some (si_session_id s)" "w' = snd (reserve_opening os co env w s)"
  shows "session_slot co env w' (si_session_id s) = Damaged \<and> fst (perform co env os' op w') \<noteq> Some result_ok \<and>
    same_files env w' (snd (perform co env os' op w'))"
proof -
  have slot: "session_slot co env w' (si_session_id s) = Damaged"
    using perform_ok(1) [of co env os "Reserve s" w s] assms by simp
  show ?thesis
  proof (cases "op_generation op")
    case (Some g)
    then show ?thesis using perform_mismatch [OF Some assms(4), of co env w' os'] slot by simp
  next
    case None
    then obtain u where u: "op = Reserve u" "si_session_id u = si_session_id s" using assms(4) by (cases op) auto
    obtain r w1 where r: "reserve_opening os' co env w' u = (r, w1)" by fastforce
    show ?thesis using reserve_opening_effect [OF r] slot u r by auto
  qed
qed

end
