(* ===== verification/Session_Registry_Listing.thy ===== *)
theory Session_Registry_Listing
  imports Session_Registry_Properties
begin

text \<open>
  Listing the registry and the generation markers: what \<open>load_all\<close> and \<open>get_latest\<close> return, and what writing, reading and
  removing a generation marker guarantee.
\<close>

section \<open>Listing\<close>

lemma merge_activity_valid: "session_valid s \<Longrightarrow> session_valid (merge_activity os w p s)"
  by (auto simp: merge_activity_def session_valid_def lifecycle_valid_def resource_valid_def transport_valid_def numbers_valid_def
      split: option.split)

lemma parse_record_valid: "parse_record_file os co w p = Inr s \<Longrightarrow> session_valid s"
  by (auto simp: parse_record_file_def intro: record_accepted_valid split: read_outcome.splits option.splits sum.splits)

lemma load_loop_valid: "s \<in> set (load_loop os co env w ns) \<Longrightarrow> session_valid s"
  by (induction ns)
    (auto simp: Let_def intro: merge_activity_valid parse_record_valid split: if_splits sum.splits)

lemma load_loop_complete:
  assumes "session_slot co env w i = Held s" "session_dir_name i \<in> set ns" "\<And>p. \<not> os_denied os p"
  shows "i \<in> si_session_id ` set (load_loop os co env w ns)"
  using assms(2)
proof (induction ns)
  case (Cons n ns)
  have dots: "session_dir_name i \<noteq> ''.''" "session_dir_name i \<noteq> ''..''" using session_dir_name_length [of i] by auto
  have "parse_record_file os co w (session_state_path env i) = Inr s" "si_session_id s = i"
    using assms by (auto simp: parse_record_file_def read_file_def session_slot_def file_slot_def
        split: option.splits sum.splits if_splits)
  moreover have "session_state_path env i = tool_sessions_dir env @ ''/'' @ session_dir_name i @ ''/state.json''"
    by (simp add: session_state_path_def tool_session_dir_def)
  moreover have "si_session_id (merge_activity os w p s) = si_session_id s" for p
    using merge_activity_only [of os w p s] by auto
  ultimately show ?case using Cons dots by (auto simp: Let_def split: sum.splits)
qed simp

lemma load_all_Inr:
  assumes "load_all os co env w = (Inr ss, w')"
  shows "sorted (map si_session_id ss) \<and> (\<forall>s \<in> set ss. session_valid s)"
  using assms load_loop_valid
  by (auto simp: load_all_def split: prod.splits if_splits enumeration.splits option.splits)

lemma latest_loop_max:
  "latest_loop b ss \<in> set (b # ss) \<and> (\<forall>x \<in> set (b # ss). sint (si_created_at x) \<le> sint (si_created_at (latest_loop b ss)))"
proof (induction ss arbitrary: b)
  case (Cons s ss)
  show ?case using Cons.IH [of s] Cons.IH [of b] by auto
qed simp

section \<open>Generation markers\<close>

lemma dir_file_eq:
  "tool_session_dir env a @ CHR ''/'' # f = tool_session_dir env b @ CHR ''/'' # g \<longleftrightarrow> session_dir_name a = session_dir_name b \<and> f = g"
  using dir_file_inj [of env a f b g] by (auto simp: tool_session_dir_def)

lemma marker_path_other:
  "generation_marker_path env i \<noteq> tool_session_dir env j @ ''/session.json''"
  "generation_marker_path env i \<noteq> tool_session_dir env j @ ''/socket''"
  "generation_marker_path env i \<noteq> tool_session_dir env j @ ''/endpoint.json''"
  "session_state_path env i \<noteq> tool_session_dir env j @ ''/session.json''"
  "session_state_path env i \<noteq> tool_session_dir env j @ ''/socket''"
  "session_state_path env i \<noteq> tool_session_dir env j @ ''/endpoint.json''"
  by (simp_all add: generation_marker_path_def session_state_path_def dir_file_eq)

lemma below_transport: "\<not> below (tool_session_dir env j @ ''/transport'') (tool_session_dir env i @ CHR ''/'' # f)"
  if "\<not> (\<exists>g. f = ''transport/'' @ g)" "f \<noteq> ''transport''" for f
proof
  let ?p = "tool_session_dir env i @ CHR ''/'' # f" and ?r = "tool_session_dir env j @ ''/transport''"
  assume "below ?r ?p"
  then consider "?p = ?r" | "take (length ?r + 1) ?p = ?r @ ''/''" unfolding below_def by blast
  then show False
  proof cases
    case 1
    then show ?thesis using dir_file_inj [of env i f j "''transport''"] that(2) by simp
  next
    case 2
    then have "?p = (?r @ ''/'') @ drop (length ?r + 1) ?p" by (metis append_take_drop_id)
    then show ?thesis using dir_file_inj [of env i f j "''transport/'' @ drop (length ?r + 1) ?p"] that(1) by simp
  qed
qed

lemma socket_path_ends: "socket_path env i = tool_session_dir env i @ ''/socket'' \<or> (\<exists>p. socket_path env i = p @ ''.sock'')"
  by (simp add: socket_path_def Let_def short_socket_path_def)

lemma socket_path_other:
  "socket_path env j \<noteq> generation_marker_path env i" "socket_path env j \<noteq> session_state_path env i"
proof -
  have "p @ ''.sock'' \<noteq> q @ ''/generation''" "p @ ''.sock'' \<noteq> q @ ''/state.json''" for p q
    by (auto dest: arg_cong [of _ _ last])
  then show "socket_path env j \<noteq> generation_marker_path env i" "socket_path env j \<noteq> session_state_path env i"
    using socket_path_ends [of env j] marker_path_other
    by (metis generation_marker_path_def, metis session_state_path_def)
qed

lemma remove_file_keeps: "q \<noteq> p \<Longrightarrow> w_files (snd (remove_file_if_exists os p w)) q = w_files w q"
  using remove_file_slot(2) [of os p w] by (metis prod.collapse)

lemma remove_tree_keeps: "\<not> below root q \<Longrightarrow> w_files (snd (remove_tree_if_exists os root w)) q = w_files w q"
  by (simp add: remove_tree_if_exists_def)

lemma remove_generation_keeps:
  assumes "q = generation_marker_path env i \<or> q = session_state_path env i"
  shows "w_files (snd (xdebug_design_remove_session_generation os env j g w)) q = w_files w q"
proof -
  have "\<not> below (tool_session_dir env j @ ''/transport'') q"
    using assms below_transport [of "''generation''" env j i] below_transport [of "''state.json''" env j i]
    by (auto simp: generation_marker_path_def session_state_path_def)
  moreover have "q \<noteq> tool_session_dir env j @ ''/session.json''" "q \<noteq> tool_session_dir env j @ ''/socket''"
    "q \<noteq> socket_path env j" "q \<noteq> tool_session_dir env j @ ''/endpoint.json''"
    using assms marker_path_other [of env i j] socket_path_other [of env j i] by auto
  ultimately show ?thesis
    by (simp add: xdebug_design_remove_session_generation_def Let_def split_def remove_tree_keeps remove_file_keeps)
qed

lemma write_marker_read:
  assumes "xdebug_design_write_generation_marker os env i g w = (True, w')" "\<not> os_denied os' (generation_marker_path env i)"
  shows "xdebug_design_read_generation_marker os' env w' i = Some g \<and> valid_generation g"
proof -
  from assms(1) have g: "valid_generation g"
    and w': "w_files w' (generation_marker_path env i) = Some \<lparr>fe_data = g @ newline, fe_mtime = os_now os\<rparr>"
    by (auto simp: xdebug_design_write_generation_marker_def Let_def put_file_def split: if_splits prod.splits)
  then show ?thesis
    using assms(2) by (auto simp: xdebug_design_read_generation_marker_def read_file_def valid_generation_def newline_def split: if_splits)
qed

section \<open>Properties\<close>

text \<open>
  Listing the registry gives valid sessions in the order of their ids; when files can be read, every
  session held in a listed directory is among them. The latest session is one of the listed ones and none was
  created later; only an empty listing has none.
\<close>

theorem registry_listing:
  assumes "load_all os co env w = (Inr ss, w')"
  shows "sorted (map si_session_id ss) \<and> (\<forall>s \<in> set ss. session_valid s) \<and>
    (\<forall>i s ns. session_slot co env w i = Held s \<and> w_sessions w' = Some ns \<and> session_dir_name i \<in> set ns \<and> (\<forall>p. \<not> os_denied os p) \<longrightarrow>
       i \<in> si_session_id ` set ss) \<and>
    (case fst (get_latest os co env w) of
       Inl r \<Rightarrow> ss = [] \<and> fst r = NotFound
     | Inr s \<Rightarrow> s \<in> set ss \<and> (\<forall>x \<in> set ss. sint (si_created_at x) \<le> sint (si_created_at s)))"
proof (intro conjI)
  show "sorted (map si_session_id ss)" "\<forall>s \<in> set ss. session_valid s" using load_all_Inr [OF assms] by simp_all
  have same: "same_files env w w'" using load_all_same_files [of env w os co] assms by simp
  show "\<forall>i s ns. session_slot co env w i = Held s \<and> w_sessions w' = Some ns \<and> session_dir_name i \<in> set ns \<and> (\<forall>p. \<not> os_denied os p) \<longrightarrow>
       i \<in> si_session_id ` set ss"
  proof (intro allI impI)
    fix i s ns assume *: "session_slot co env w i = Held s \<and> w_sessions w' = Some ns \<and> session_dir_name i \<in> set ns \<and> (\<forall>p. \<not> os_denied os p)"
    then have "set ss = set (load_loop os co env w' ns)"
      using assms by (auto simp: load_all_def split: prod.splits if_splits enumeration.splits option.splits)
    then show "i \<in> si_session_id ` set ss"
      using load_loop_complete [of co env w' i s ns os] * same_files_slot [OF same] by simp
  qed
  show "case fst (get_latest os co env w) of
       Inl r \<Rightarrow> ss = [] \<and> fst r = NotFound
     | Inr s \<Rightarrow> s \<in> set ss \<and> (\<forall>x \<in> set ss. sint (si_created_at x) \<le> sint (si_created_at s))"
  proof (cases ss)
    case (Cons b bs)
    then show ?thesis using latest_loop_max [of b bs] by (simp add: get_latest_def assms)
  qed (simp add: get_latest_def assms)
qed

lemma registry_listing_witness:
  "fst (load_all working_os unary_codec sample_env empty_world) = Inr [] \<and>
   (case fst (get_latest working_os unary_codec sample_env empty_world) of Inl r \<Rightarrow> fst r = NotFound | Inr s \<Rightarrow> False)"
proof -
  have load: "load_all working_os unary_codec sample_env empty_world = (Inr [], empty_world)"
    by (simp add: load_all_def check_legacy_registry_def read_file_def working_os_def empty_world_def result_ok_def)
  from registry_listing [OF this] show ?thesis
    using load by (auto split: sum.splits)
qed

text \<open>
  A generation marker that was written is read back, and only 64 lowercase hexadecimal digits are ever
  written or read. Removing the files of a generation does nothing unless the marker names exactly that generation, and
  never removes the marker or the state record of any session.
\<close>

theorem generation_marker_guards:
  "(xdebug_design_write_generation_marker os env i g w = (True, w') \<and> \<not> os_denied os' (generation_marker_path env i) \<longrightarrow>
      xdebug_design_read_generation_marker os' env w' i = Some g \<and> xdebug_design_generation_matches os' env w' i g) \<and>
   (xdebug_design_read_generation_marker os env w i = Some g \<longrightarrow> valid_generation g) \<and>
   (xdebug_design_read_generation_marker os env w j \<noteq> Some g \<longrightarrow>
      xdebug_design_remove_session_generation os env j g w = (False, w)) \<and>
   session_slot co env (snd (xdebug_design_remove_session_generation os env j g w)) i = session_slot co env w i \<and>
   w_files (snd (xdebug_design_remove_session_generation os env j g w)) (generation_marker_path env i) =
     w_files w (generation_marker_path env i)"
proof (intro conjI impI)
  assume "xdebug_design_write_generation_marker os env i g w = (True, w') \<and> \<not> os_denied os' (generation_marker_path env i)"
  then have r: "xdebug_design_read_generation_marker os' env w' i = Some g \<and> valid_generation g"
    using write_marker_read by blast
  then show "xdebug_design_read_generation_marker os' env w' i = Some g" by simp
  from r show "xdebug_design_generation_matches os' env w' i g"
    by (auto simp: xdebug_design_generation_matches_def valid_generation_def)
next
  show "valid_generation g" if "xdebug_design_read_generation_marker os env w i = Some g"
    using that by (auto simp: xdebug_design_read_generation_marker_def valid_generation_def split: read_outcome.splits if_splits)
  show "xdebug_design_remove_session_generation os env j g w = (False, w)"
    if "xdebug_design_read_generation_marker os env w j \<noteq> Some g"
    using that by (simp add: xdebug_design_remove_session_generation_def xdebug_design_generation_matches_def)
  show "session_slot co env (snd (xdebug_design_remove_session_generation os env j g w)) i = session_slot co env w i"
    using remove_generation_keeps [of "session_state_path env i" env i os j g w] by (simp add: session_slot_def)
  show "w_files (snd (xdebug_design_remove_session_generation os env j g w)) (generation_marker_path env i) =
     w_files w (generation_marker_path env i)"
    using remove_generation_keeps [of "generation_marker_path env i" env i os j g w] by simp
qed

lemma generation_marker_guards_witness:
  "\<exists>w'. xdebug_design_write_generation_marker working_os sample_env ''run_1'' (replicate 64 (CHR ''a'')) empty_world = (True, w') \<and>
     xdebug_design_generation_matches working_os sample_env w' ''run_1'' (replicate 64 (CHR ''a''))"
proof -
  have "is_lower_hex (CHR ''a'')" by code_simp
  then have "valid_generation (replicate 64 (CHR ''a''))" by (simp add: valid_generation_def list_all_iff)
  moreover have "write_all [Interrupted, Wrote n] n" for n by (cases n) auto
  ultimately have "\<exists>w'. xdebug_design_write_generation_marker working_os sample_env ''run_1'' (replicate 64 (CHR ''a'')) empty_world = (True, w')"
    by (simp add: xdebug_design_write_generation_marker_def xdebug_design_ensure_session_dir_def xdebug_design_ensure_home_def
        working_os_def empty_world_def Let_def)
  moreover have "\<not> os_denied working_os (generation_marker_path sample_env ''run_1'')" by (simp add: working_os_def)
  ultimately show ?thesis
    using generation_marker_guards [of working_os sample_env "''run_1''" "replicate 64 (CHR ''a'')" empty_world _ working_os] by blast
qed

text \<open>
  Listing does not compare a record with the directory it is in: a record copied to another directory is listed twice,
  while reading it by the id of that directory is refused.
\<close>

lemma listing_ignores_identity:
  assumes "parse_record_file os co w (tool_sessions_dir env @ ''/'' @ n @ ''/state.json'') = Inr s"
    "parse_record_file os co w (tool_sessions_dir env @ ''/'' @ m @ ''/state.json'') = Inr s"
    "n \<notin> {''.'', ''..''}" "m \<notin> {''.'', ''..''}"
  shows "map si_session_id (load_loop os co env w [n, m]) = [si_session_id s, si_session_id s]"
proof -
  have "si_session_id (merge_activity os w p s) = si_session_id s" for p
    using merge_activity_only [of os w p s] by auto
  then show ?thesis using assms by (simp add: Let_def)
qed

end
