(* ===== verification/Sha256.thy ===== *)
theory Sha256
  imports Ordered_Map "HOL-Library.Multiset"
begin

unbundle bit_operations_syntax

text \<open>
  The SHA-256 digests of \<open>core/common/sha256.cpp\<close>: the compression function, the streaming state with its 64-byte block,
  and the digests of a text, a file and a directory tree. A copy that would leave the block is \<open>None\<close>.
\<close>

section \<open>The compression function\<close>

record sha256 =
  sh_h :: "u32 list"
  sh_block :: "u8 list"
  sh_used :: nat
  sh_bits :: u64

definition sha256_init :: sha256 where
  "sha256_init = \<lparr>sh_h = [0x6a09e667, 0xbb67ae85, 0x3c6ef372, 0xa54ff53a, 0x510e527f, 0x9b05688c, 0x1f83d9ab, 0x5be0cd19],
     sh_block = replicate 64 0, sh_used = 0, sh_bits = 0\<rparr>"

definition rotr :: "u32 \<Rightarrow> nat \<Rightarrow> u32" where
  "rotr v n = drop_bit n v OR push_bit (32 - n) v"

definition choose_word :: "u32 \<Rightarrow> u32 \<Rightarrow> u32 \<Rightarrow> u32" where
  "choose_word x y z = (x AND y) XOR (NOT x AND z)"

definition majority :: "u32 \<Rightarrow> u32 \<Rightarrow> u32 \<Rightarrow> u32" where
  "majority x y z = (x AND y) XOR (x AND z) XOR (y AND z)"

text \<open>The round constants, in decimal.\<close>

definition sha256_k :: "u32 list" where
  "sha256_k = [
     1116352408, 1899447441, 3049323471, 3921009573, 961987163, 1508970993, 2453635748, 2870763221,
     3624381080, 310598401, 607225278, 1426881987, 1925078388, 2162078206, 2614888103, 3248222580,
     3835390401, 4022224774, 264347078, 604807628, 770255983, 1249150122, 1555081692, 1996064986,
     2554220882, 2821834349, 2952996808, 3210313671, 3336571891, 3584528711, 113926993, 338241895,
     666307205, 773529912, 1294757372, 1396182291, 1695183700, 1986661051, 2177026350, 2456956037,
     2730485921, 2820302411, 3259730800, 3345764771, 3516065817, 3600352804, 4094571909, 275423344,
     430227734, 506948616, 659060556, 883997877, 958139571, 1322822218, 1537002063, 1747873779,
     1955562222, 2024104815, 2227730452, 2361852424, 2428436474, 2756734187, 3204031479, 3329325298]"

text \<open>The big-endian words of a block, and the 48 words that the schedule adds to the sixteen.\<close>

fun block_words :: "u8 list \<Rightarrow> u32 list" where
  "block_words (a # b # c # d # bytes) =
     (push_bit 24 (ucast a) OR push_bit 16 (ucast b) OR push_bit 8 (ucast c) OR ucast d) # block_words bytes"
| "block_words _ = []"

definition schedule_word :: "u32 list \<Rightarrow> nat \<Rightarrow> u32" where
  "schedule_word w i =
     (let s0 = rotr (w ! (i - 15)) 7 XOR rotr (w ! (i - 15)) 18 XOR drop_bit 3 (w ! (i - 15));
          s1 = rotr (w ! (i - 2)) 17 XOR rotr (w ! (i - 2)) 19 XOR drop_bit 10 (w ! (i - 2))
      in w ! (i - 16) + s0 + w ! (i - 7) + s1)"

fun schedule :: "nat \<Rightarrow> u32 list \<Rightarrow> u32 list" where
  "schedule 0 w = w"
| "schedule (Suc n) w = schedule n (w @ [schedule_word w (length w)])"

type_synonym working = "u32 \<times> u32 \<times> u32 \<times> u32 \<times> u32 \<times> u32 \<times> u32 \<times> u32"

fun round_step :: "working \<Rightarrow> u32 \<times> u32 \<Rightarrow> working" where
  "round_step (a, b, c, d, e, f, g, h) (k, w) =
     (let s1 = rotr e 6 XOR rotr e 11 XOR rotr e 25;
          t1 = h + s1 + choose_word e f g + k + w;
          s0 = rotr a 2 XOR rotr a 13 XOR rotr a 22;
          t2 = s0 + majority a b c
      in (t1 + t2, a, b, c, d + t1, e, f, g))"

definition compress :: "u32 list \<Rightarrow> u8 list \<Rightarrow> u32 list" where
  "compress hs block =
     (let w = schedule 48 (block_words block);
          (a, b, c, d, e, f, g, h) = foldl round_step (hs ! 0, hs ! 1, hs ! 2, hs ! 3, hs ! 4, hs ! 5, hs ! 6, hs ! 7) (zip sha256_k w)
      in [hs ! 0 + a, hs ! 1 + b, hs ! 2 + c, hs ! 3 + d, hs ! 4 + e, hs ! 5 + f, hs ! 6 + g, hs ! 7 + h])"

definition compress_state :: "sha256 \<Rightarrow> sha256" where
  "compress_state s = s\<lparr>sh_h := compress (sh_h s) (sh_block s), sh_used := 0\<rparr>"

section \<open>Streaming\<close>

text \<open>\<open>memcpy\<close> into the block at an offset; \<open>None\<close> when it would write past the 64 bytes.\<close>

definition block_copy :: "u8 list \<Rightarrow> nat \<Rightarrow> u8 list \<Rightarrow> u8 list option" where
  "block_copy block at bytes =
     (if at + length bytes \<le> length block
      then Some (take at block @ bytes @ drop (at + length bytes) block) else None)"

function update_loop :: "sha256 \<Rightarrow> u8 list \<Rightarrow> sha256 option" where
  "update_loop s input =
     (if input = [] then Some s
      else if sh_used s \<ge> 64 then None
      else
        let copy = (if length input < 64 - sh_used s then length input else 64 - sh_used s)
        in case block_copy (sh_block s) (sh_used s) (take copy input) of
             None \<Rightarrow> None
           | Some block \<Rightarrow>
               let s' = s\<lparr>sh_block := block, sh_used := sh_used s + copy\<rparr>
               in update_loop (if sh_used s' = 64 then compress_state s' else s') (drop copy input))"
  by auto

termination
  by (relation "measure (\<lambda>(s, input). length input)") auto

definition sha256_update :: "sha256 \<Rightarrow> u8 list \<Rightarrow> sha256 option" where
  "sha256_update s input = update_loop (s\<lparr>sh_bits := sh_bits s + word_of_nat (length input) * 8\<rparr>) input"

definition hex_digits :: "u32 \<Rightarrow> string" where
  "hex_digits h = map (\<lambda>shift. ''0123456789abcdef'' ! unat (drop_bit shift h AND 15)) [28, 24, 20, 16, 12, 8, 4, 0]"

definition length_bytes :: "u64 \<Rightarrow> u8 list" where
  "length_bytes bits = map (\<lambda>i. ucast (drop_bit (i * 8) bits)) [7, 6, 5, 4, 3, 2, 1, 0]"

text \<open>The padding writes byte by byte: the bytes that fill the block from \<open>sh_used\<close> on.\<close>

definition fill_block :: "sha256 \<Rightarrow> u8 list \<Rightarrow> sha256 option" where
  "fill_block s bytes =
     map_option (\<lambda>block. s\<lparr>sh_block := block, sh_used := sh_used s + length bytes\<rparr>) (block_copy (sh_block s) (sh_used s) bytes)"

text \<open>The last block: zeros up to its last eight bytes, then the number of bits.\<close>

definition finish_length :: "sha256 \<Rightarrow> string option" where
  "finish_length s =
     Option.bind (fill_block s (replicate (56 - sh_used s) 0)) (\<lambda>s1.
     Option.bind (fill_block s1 (length_bytes (sh_bits s1))) (\<lambda>s2.
       Some (concat (map hex_digits (compress (sh_h s2) (sh_block s2))))))"

definition finish :: "sha256 \<Rightarrow> string option" where
  "finish s =
     Option.bind (fill_block s [0x80]) (\<lambda>s1.
     Option.bind (if sh_used s1 > 56 then map_option compress_state (fill_block s1 (replicate (64 - sh_used s1) 0)) else Some s1)
       finish_length)"

definition text_bytes :: "string \<Rightarrow> u8 list" where
  "text_bytes t = map (\<lambda>c. word_of_nat (of_char c)) t"

definition sha256_text :: "string \<Rightarrow> string option" where
  "sha256_text t = Option.bind (sha256_update sha256_init (text_bytes t)) finish"

section \<open>Files and directory trees\<close>

datatype file_read = Cannot_Open | Read_Failed | Contents "u8 list"

datatype fs_node =
    Regular file_read
  | Directory "(string \<times> fs_node) list option"
  | Special
  | No_Stat

datatype sha_error = Block_Overrun | Sha_Error string

definition in_block :: "'a option \<Rightarrow> sha_error + 'a" where
  "in_block r = (case r of None \<Rightarrow> Inl Block_Overrun | Some x \<Rightarrow> Inr x)"

text \<open>The loop around \<open>fread\<close> with a buffer of 32768 bytes.\<close>

definition buffer_size :: nat where
  "buffer_size = 32768"

function read_loop :: "sha256 \<Rightarrow> u8 list \<Rightarrow> sha_error + sha256" where
  "read_loop s content =
     (let chunk = take buffer_size content
      in rbind (if chunk = [] then Inr s else in_block (sha256_update s chunk)) (\<lambda>s'.
           if length chunk \<noteq> buffer_size then Inr s' else read_loop s' (drop buffer_size content)))"
  by auto

termination
  by (relation "measure (\<lambda>(s, content). length content)") (auto simp: buffer_size_def)

fun update_regular_file :: "sha256 \<Rightarrow> file_read \<Rightarrow> sha_error + sha256" where
  "update_regular_file s Cannot_Open = Inl (Sha_Error ''cannot open file for SHA-256'')"
| "update_regular_file s Read_Failed = Inl (Sha_Error ''cannot read file for SHA-256'')"
| "update_regular_file s (Contents bytes) = read_loop s bytes"

definition sha256_file :: "file_read \<Rightarrow> sha_error + string" where
  "sha256_file f = rbind (update_regular_file sha256_init f) (\<lambda>s. in_block (finish s))"

definition real_entries :: "(string \<times> fs_node) list \<Rightarrow> (string \<times> fs_node) list" where
  "real_entries es = sort_key fst (filter (\<lambda>e. fst e \<noteq> ''.'' \<and> fst e \<noteq> ''..'') es)"

definition child_path :: "string \<Rightarrow> string \<Rightarrow> string" where
  "child_path relative name = (if relative = [] then name else relative @ ''/'' @ name)"

definition marker :: "char \<Rightarrow> string \<Rightarrow> u8 list" where
  "marker tag path = text_bytes ([tag, CHR 0x0A] @ path @ [CHR 0x0A])"

lemma size_list_sum: "size_list f xs = sum_list (map f xs) + length xs"
  by (induction xs) auto

lemma size_real_entries [termination_simp]: "size_list f (real_entries es) \<le> size_list f es"
proof -
  let ?fs = "filter (\<lambda>e. fst e \<noteq> ''.'' \<and> fst e \<noteq> ''..'') es"
  have "sum_list (map f (sort_key fst ?fs)) = sum_list (map f ?fs)"
    by (simp only: sum_mset_sum_list [symmetric] mset_map mset_sort)
  moreover have "sum_list (map f ?fs) \<le> sum_list (map f es)" by (induction es) auto
  ultimately show ?thesis by (simp add: size_list_sum real_entries_def add_mono)
qed

function update_directory_tree :: "sha256 \<Rightarrow> (string \<times> fs_node) list option \<Rightarrow> string \<Rightarrow> sha_error + sha256"
  and update_members :: "sha256 \<Rightarrow> (string \<times> fs_node) list \<Rightarrow> string \<Rightarrow> sha_error + sha256" where
  "update_directory_tree s None relative = Inl (Sha_Error ''cannot open directory for SHA-256'')"
| "update_directory_tree s (Some es) relative = update_members s (real_entries es) relative"
| "update_members s [] relative = Inr s"
| "update_members s ((name, No_Stat) # es) relative = Inl (Sha_Error ''cannot stat directory member for SHA-256'')"
| "update_members s ((name, Special) # es) relative = Inl (Sha_Error ''directory tree contains unsupported file type'')"
| "update_members s ((name, Directory d) # es) relative =
     rbind (in_block (sha256_update s (marker (CHR ''D'') (child_path relative name)))) (\<lambda>s1.
     rbind (update_directory_tree s1 d (child_path relative name)) (\<lambda>s2. update_members s2 es relative))"
| "update_members s ((name, Regular f) # es) relative =
     rbind (in_block (sha256_update s (marker (CHR ''F'') (child_path relative name)))) (\<lambda>s1.
     rbind (update_regular_file s1 f) (\<lambda>s2. update_members s2 es relative))"
  by pat_completeness auto

termination
  by (relation "measure (\<lambda>x. case x of
        Inl (s, d, r) \<Rightarrow> (case d of None \<Rightarrow> 0 | Some es \<Rightarrow> Suc (size_list (size_prod (\<lambda>_. 0) size) es))
      | Inr (s, es, r) \<Rightarrow> size_list (size_prod (\<lambda>_. 0) size) es)")
    (auto split: option.split simp: termination_simp le_imp_less_Suc size_real_entries)

definition sha256_directory_tree :: "(string \<times> fs_node) list option \<Rightarrow> sha_error + string" where
  "sha256_directory_tree d = rbind (update_directory_tree sha256_init d []) (\<lambda>s. in_block (finish s))"

end
