(* ===== verification/Sha256_Properties.thy ===== *)
theory Sha256_Properties
  imports Sha256
begin

text \<open>
  The streaming digest against the digest of a whole message: padding, splitting into blocks and folding the compression
  function. The digest of a file or a directory tree is that of its contents however the reads cut them.
\<close>

section \<open>The digest of a message\<close>

function blocks :: "u32 list \<Rightarrow> u8 list \<Rightarrow> u32 list" where
  "blocks hs m = (if length m < 64 then hs else blocks (compress hs (take 64 m)) (drop 64 m))"
  by auto

termination
  by (relation "measure (\<lambda>(hs, m). length m)") auto

declare blocks.simps [simp del] update_loop.simps [simp del] read_loop.simps [simp del]

definition padded :: "u8 list \<Rightarrow> u8 list" where
  "padded m = m @ [0x80] @ replicate ((119 - length m mod 64) mod 64) 0 @ length_bytes (word_of_nat (length m) * 8)"

definition digest :: "u8 list \<Rightarrow> string" where
  "digest m = concat (map hex_digits (blocks (sh_h sha256_init) (padded m)))"

lemma blocks_short: "length m < 64 \<Longrightarrow> blocks hs m = hs"
  by (simp add: blocks.simps)

lemma blocks_one: "length b = 64 \<Longrightarrow> blocks hs (b @ m) = blocks (compress hs b) m"
  by (subst blocks.simps) simp

lemma blocks_append: "64 dvd length m \<Longrightarrow> blocks hs (m @ n) = blocks (blocks hs m) n"
proof (induction hs m rule: blocks.induct)
  case (1 hs m)
  show ?case
  proof (cases "length m < 64")
    case True
    then have "m = []" using "1.prems" by (auto dest: dvd_imp_le)
    then show ?thesis by (simp add: blocks_short)
  next
    case False
    then have "64 dvd length (drop 64 m)" using "1.prems" by (simp add: dvd_diff_nat)
    then have "blocks (compress hs (take 64 m)) (drop 64 m @ n) = blocks (blocks (compress hs (take 64 m)) (drop 64 m)) n"
      using "1.IH" [OF False] by simp
    moreover have "blocks hs (m @ n) = blocks (compress hs (take 64 m)) (drop 64 m @ n)"
      using False by (subst blocks.simps) simp
    moreover have "blocks hs m = blocks (compress hs (take 64 m)) (drop 64 m)"
      using False by (subst blocks.simps) simp
    ultimately show ?thesis by simp
  qed
qed

section \<open>What a state has taken in\<close>

text \<open>The state stands for the message: full blocks are compressed, the rest waits at the start of the block.\<close>

definition absorbed :: "sha256 \<Rightarrow> u8 list \<Rightarrow> bool" where
  "absorbed s m \<longleftrightarrow> (\<exists>full rest. m = full @ rest \<and> 64 dvd length full \<and> length rest = sh_used s \<and> sh_used s < 64 \<and>
     length (sh_block s) = 64 \<and> take (sh_used s) (sh_block s) = rest \<and> sh_h s = blocks (sh_h sha256_init) full)"

lemma absorbed_init: "absorbed sha256_init []"
  by (simp add: absorbed_def sha256_init_def blocks_short)

lemma block_copy_Some:
  assumes "n + length bytes \<le> 64" "length b = 64"
  shows "\<exists>b'. block_copy b n bytes = Some b' \<and> length b' = 64 \<and> take (n + length bytes) b' = take n b @ bytes"
  using assms by (simp add: block_copy_def)

lemma update_loop_absorbs:
  "absorbed s m \<Longrightarrow> \<exists>s'. update_loop s input = Some s' \<and> absorbed s' (m @ input) \<and> sh_bits s' = sh_bits s"
proof (induction s input arbitrary: m rule: update_loop.induct)
  case (1 s input)
  show ?case
  proof (cases "input = []")
    case True
    then show ?thesis using "1.prems" by (simp add: update_loop.simps)
  next
    case False
    from "1.prems" obtain full rest where m: "m = full @ rest" "64 dvd length full" "length rest = sh_used s" "sh_used s < 64"
      "length (sh_block s) = 64" "take (sh_used s) (sh_block s) = rest" "sh_h s = blocks (sh_h sha256_init) full"
      unfolding absorbed_def by blast
    define copy where "copy = (if length input < 64 - sh_used s then length input else 64 - sh_used s)"
    have copy: "copy \<le> length input" "sh_used s + copy \<le> 64" using m(4) by (auto simp: copy_def)
    obtain b where b: "block_copy (sh_block s) (sh_used s) (take copy input) = Some b" "length b = 64"
      "take (sh_used s + copy) b = rest @ take copy input"
      using block_copy_Some [of "sh_used s" "take copy input" "sh_block s"] copy m(5,6) by auto
    let ?s = "s\<lparr>sh_block := b, sh_used := sh_used s + copy\<rparr>"
    let ?next = "if sh_used ?s = 64 then compress_state ?s else ?s"
    have next_absorbed: "absorbed ?next (m @ take copy input)"
    proof (cases "sh_used s + copy = 64")
      case True
      then have bb: "b = rest @ take copy input" using b(2,3) by simp
      have "64 dvd length (full @ b)" using m(2) b(2) by simp
      moreover have "compress (sh_h s) b = blocks (sh_h sha256_init) (full @ b)"
        using m(2,7) b(2) blocks_append [of full "sh_h sha256_init" b] blocks_one [of b _ "[]"] by (simp add: blocks_short)
      ultimately show ?thesis
        using True b(2) m(1) bb by (auto simp: absorbed_def compress_state_def intro!: exI [of _ "full @ b"])
    next
      case False
      then show ?thesis
        using copy b m by (auto simp: absorbed_def intro!: exI [of _ full])
    qed
    have "update_loop s input = update_loop ?next (drop copy input)"
      using False m(4) b(1) by (subst update_loop.simps) (simp add: copy_def [symmetric] Let_def)
    moreover have "\<exists>s'. update_loop ?next (drop copy input) = Some s' \<and> absorbed s' ((m @ take copy input) @ drop copy input) \<and>
        sh_bits s' = sh_bits ?next"
      using "1.IH" [OF False _ copy_def b(1) refl next_absorbed] m(4) by simp
    ultimately show ?thesis by (auto simp: compress_state_def)
  qed
qed

definition taken_in :: "sha256 \<Rightarrow> u8 list \<Rightarrow> bool" where
  "taken_in s m \<longleftrightarrow> absorbed s m \<and> sh_bits s = word_of_nat (length m) * 8"

lemma taken_in_init: "taken_in sha256_init []"
  using absorbed_init by (simp add: taken_in_def sha256_init_def)

lemma update_taken_in:
  assumes "taken_in s m"
  shows "\<exists>s'. sha256_update s x = Some s' \<and> taken_in s' (m @ x)"
proof -
  let ?s = "s\<lparr>sh_bits := sh_bits s + word_of_nat (length x) * 8\<rparr>"
  have "absorbed ?s m" using assms by (simp add: taken_in_def absorbed_def)
  from update_loop_absorbs [OF this, of x] assms show ?thesis
    by (auto simp: sha256_update_def taken_in_def algebra_simps)
qed

lemma fill_block_absorbs:
  assumes "length (sh_block s) = 64" "take (sh_used s) (sh_block s) = rest" "length rest = sh_used s" "sh_used s + length bytes \<le> 64"
  shows "\<exists>b. fill_block s bytes = Some (s\<lparr>sh_block := b, sh_used := sh_used s + length bytes\<rparr>) \<and> length b = 64 \<and>
    take (sh_used s + length bytes) b = rest @ bytes"
  using block_copy_Some [of "sh_used s" bytes "sh_block s"] assms by (auto simp: fill_block_def)

lemma length_length_bytes [simp]: "length (length_bytes b) = 8"
  by (simp add: length_bytes_def)

text \<open>The padding as it is written: it may need a block of its own before the one with the length.\<close>

lemma padding_count:
  fixes n :: nat
  shows "n < 56 \<Longrightarrow> (119 - n) mod 64 = 55 - n"
    and "56 \<le> n \<Longrightarrow> n < 64 \<Longrightarrow> (119 - n) mod 64 = (63 - n) + 56"
proof -
  assume "n < 56"
  then have "119 - n = (55 - n) + 64" by simp
  then show "(119 - n) mod 64 = 55 - n" by (simp only: mod_add_self2) (simp add: mod_less)
qed simp

lemma finish_length_digest:
  assumes "length (sh_block s) = 64" "take (sh_used s) (sh_block s) = r" "length r = sh_used s" "sh_used s \<le> 56"
  shows "finish_length s = Some (concat (map hex_digits (compress (sh_h s) (r @ replicate (56 - sh_used s) 0 @ length_bytes (sh_bits s)))))"
proof -
  obtain b3 where b3: "fill_block s (replicate (56 - sh_used s) 0) = Some (s\<lparr>sh_block := b3, sh_used := 56\<rparr>)" "length b3 = 64"
    "take 56 b3 = r @ replicate (56 - sh_used s) 0"
    using fill_block_absorbs [OF assms(1-3), of "replicate (56 - sh_used s) 0"] assms(4) by auto
  let ?s = "s\<lparr>sh_block := b3, sh_used := 56\<rparr>"
  obtain b4 where b4: "fill_block ?s (length_bytes (sh_bits ?s)) = Some (?s\<lparr>sh_block := b4, sh_used := 64\<rparr>)" "length b4 = 64"
    "take 64 b4 = (r @ replicate (56 - sh_used s) 0) @ length_bytes (sh_bits s)"
    using fill_block_absorbs [of ?s "r @ replicate (56 - sh_used s) 0" "length_bytes (sh_bits ?s)"] b3 assms(3,4) by auto
  then have "b4 = r @ replicate (56 - sh_used s) 0 @ length_bytes (sh_bits s)" by simp
  then show ?thesis using b3(1) b4(1) by (simp add: finish_length_def)
qed

lemma finish_digest:
  assumes "taken_in s m"
  shows "finish s = Some (digest m)"
proof -
  from assms obtain full rest where m: "m = full @ rest" "64 dvd length full" "length rest = sh_used s" "sh_used s < 64"
    "length (sh_block s) = 64" "take (sh_used s) (sh_block s) = rest" "sh_h s = blocks (sh_h sha256_init) full"
    unfolding taken_in_def absorbed_def by blast
  have bits: "sh_bits s = word_of_nat (length m) * 8" using assms by (simp add: taken_in_def)
  have used: "length m mod 64 = sh_used s" using m(1-4) by (auto simp: dvd_def)
  obtain b1 where b1: "fill_block s [0x80] = Some (s\<lparr>sh_block := b1, sh_used := sh_used s + 1\<rparr>)" "length b1 = 64"
    "take (sh_used s + 1) b1 = rest @ [0x80]"
    using fill_block_absorbs [OF m(5,6,3), of "[0x80]"] m(4) by auto
  define s1 where "s1 = s\<lparr>sh_block := b1, sh_used := sh_used s + 1\<rparr>"
  have start: "fill_block s [0x80] = Some s1" using b1(1) by (simp add: s1_def)
  have s1: "length (sh_block s1) = 64" "take (sh_used s1) (sh_block s1) = rest @ [0x80]" "length (rest @ [0x80]) = sh_used s1"
    "sh_h s1 = sh_h s" "sh_bits s1 = sh_bits s" "sh_used s1 = sh_used s + 1" using b1 m(3) by (simp_all add: s1_def)
  show ?thesis
  proof (cases "sh_used s < 56")
    case True
    let ?z = "replicate (56 - sh_used s1) 0" and ?l = "length_bytes (sh_bits s1)"
    have "finish s = Some (concat (map hex_digits (compress (sh_h s1) ((rest @ [0x80]) @ ?z @ ?l))))"
      using finish_length_digest [OF s1(1-3)] True s1(6) by (simp add: finish_def start)
    moreover have "length ((rest @ [0x80]) @ ?z @ ?l) = 64" using s1(3,6) True by simp
    then have "compress (sh_h s1) ((rest @ [0x80]) @ ?z @ ?l) = blocks (sh_h sha256_init) (full @ (rest @ [0x80]) @ ?z @ ?l)"
      using blocks_append [OF m(2)] blocks_one [of "(rest @ [0x80]) @ ?z @ ?l" _ "[]"] m(7) s1(4) by (simp add: blocks_short)
    moreover have "padded m = full @ (rest @ [0x80]) @ ?z @ ?l"
      unfolding padded_def used padding_count(1) [OF True] bits [symmetric] by (simp add: m(1) s1(5,6))
    ultimately show ?thesis by (simp add: digest_def)
  next
    case False
    have lt: "sh_used s1 \<le> 64" "\<not> sh_used s1 \<le> 56" using False m(4) s1(6) by simp_all
    obtain b2 where b2: "fill_block s1 (replicate (64 - sh_used s1) 0) = Some (s1\<lparr>sh_block := b2, sh_used := 64\<rparr>)"
      "b2 = (rest @ [0x80]) @ replicate (64 - sh_used s1) 0" "length b2 = 64"
      using fill_block_absorbs [OF s1(1-3), of "replicate (64 - sh_used s1) 0"] lt by auto
    define s2 where "s2 = compress_state (s1\<lparr>sh_block := b2, sh_used := 64\<rparr>)"
    have s2: "length (sh_block s2) = 64" "sh_used s2 = 0" "sh_h s2 = compress (sh_h s) b2" "sh_bits s2 = sh_bits s"
      using b2(3) s1(4,5) by (simp_all add: s2_def compress_state_def)
    let ?last = "replicate 56 0 @ length_bytes (sh_bits s)"
    have "finish s = Some (concat (map hex_digits (compress (sh_h s2) ?last)))"
      using finish_length_digest [of s2 "[]"] s2 lt by (simp add: finish_def start b2(1) s2_def [symmetric])
    moreover have "compress (sh_h s2) ?last = blocks (sh_h sha256_init) (full @ b2 @ ?last)"
      using blocks_append [OF m(2)] blocks_one [OF b2(3), of _ ?last] blocks_one [of ?last _ "[]"] m(7) s2(3) by (simp add: blocks_short)
    moreover have "replicate (64 - sh_used s1) 0 @ replicate 56 0 = replicate ((119 - sh_used s) mod 64) (0 :: u8)"
      using padding_count(2) [of "sh_used s"] False m(4) s1(6) by (simp add: replicate_add [symmetric])
    then have "padded m = full @ b2 @ ?last"
      unfolding padded_def used bits [symmetric] by (simp add: m(1) b2(2))
    ultimately show ?thesis by (simp add: digest_def)
  qed
qed

section \<open>Files and trees\<close>

fun update_chunks :: "sha256 \<Rightarrow> u8 list list \<Rightarrow> sha256 option" where
  "update_chunks s [] = Some s"
| "update_chunks s (c # cs) = Option.bind (sha256_update s c) (\<lambda>s'. update_chunks s' cs)"

lemma update_chunks_taken_in: "taken_in s m \<Longrightarrow> \<exists>s'. update_chunks s cs = Some s' \<and> taken_in s' (m @ concat cs)"
proof (induction cs arbitrary: s m)
  case (Cons c cs)
  obtain s1 where s1: "sha256_update s c = Some s1" "taken_in s1 (m @ c)" using update_taken_in [OF Cons.prems] by blast
  then show ?case using Cons.IH [OF s1(2)] by simp
qed simp

lemma read_loop_taken_in: "taken_in s m \<Longrightarrow> \<exists>s'. read_loop s content = Inr s' \<and> taken_in s' (m @ content)"
proof (induction s content arbitrary: m rule: read_loop.induct)
  case (1 s content)
  let ?c = "take buffer_size content"
  obtain s1 where s1: "(if ?c = [] then Inr s else in_block (sha256_update s ?c)) = Inr s1" "taken_in s1 (m @ ?c)"
    using update_taken_in [OF "1.prems", of ?c] "1.prems" by (cases "?c = []") (auto simp: in_block_def simp del: take_eq_Nil)
  have step: "read_loop s content = (if length ?c \<noteq> buffer_size then Inr s1 else read_loop s1 (drop buffer_size content))"
    by (subst read_loop.simps) (simp only: Let_def s1(1) rbind_simps)
  show ?case
  proof (cases "length ?c \<noteq> buffer_size")
    case True
    then have "?c = content" by (simp add: min_def split: if_splits)
    then show ?thesis using step s1(2) True by simp
  next
    case False
    have "\<exists>s'. read_loop s1 (drop buffer_size content) = Inr s' \<and> taken_in s' ((m @ ?c) @ drop buffer_size content)"
      using False s1(2) by (intro "1.IH" [OF refl]) auto
    then show ?thesis using step False by simp
  qed
qed

text \<open>The bytes that stand for a tree: a marker line for every member, then its contents or its members.\<close>

function tree_bytes :: "(string \<times> fs_node) list option \<Rightarrow> string \<Rightarrow> string + u8 list"
  and member_bytes :: "(string \<times> fs_node) list \<Rightarrow> string \<Rightarrow> string + u8 list" where
  "tree_bytes None relative = Inl ''cannot open directory for SHA-256''"
| "tree_bytes (Some es) relative = member_bytes (real_entries es) relative"
| "member_bytes [] relative = Inr []"
| "member_bytes ((name, No_Stat) # es) relative = Inl ''cannot stat directory member for SHA-256''"
| "member_bytes ((name, Special) # es) relative = Inl ''directory tree contains unsupported file type''"
| "member_bytes ((name, Directory d) # es) relative =
     rbind (tree_bytes d (child_path relative name)) (\<lambda>b.
     rbind (member_bytes es relative) (\<lambda>c. Inr (marker (CHR ''D'') (child_path relative name) @ b @ c)))"
| "member_bytes ((name, Regular Cannot_Open) # es) relative = Inl ''cannot open file for SHA-256''"
| "member_bytes ((name, Regular Read_Failed) # es) relative = Inl ''cannot read file for SHA-256''"
| "member_bytes ((name, Regular (Contents b)) # es) relative =
     rbind (member_bytes es relative) (\<lambda>c. Inr (marker (CHR ''F'') (child_path relative name) @ b @ c))"
  by pat_completeness auto

termination
  by (relation "measure (\<lambda>x. case x of
        Inl (d, r) \<Rightarrow> (case d of None \<Rightarrow> 0 | Some es \<Rightarrow> Suc (size_list (size_prod (\<lambda>_. 0) size) es))
      | Inr (es, r) \<Rightarrow> size_list (size_prod (\<lambda>_. 0) size) es)")
    (auto split: option.split simp: le_imp_less_Suc size_real_entries)

text \<open>The outcome of an update that follows the bytes of a tree.\<close>

definition follows :: "sha_error + sha256 \<Rightarrow> string + u8 list \<Rightarrow> u8 list \<Rightarrow> bool" where
  "follows r b m \<longleftrightarrow> (case b of Inl e \<Rightarrow> r = Inl (Sha_Error e) | Inr c \<Rightarrow> (\<exists>s. r = Inr s \<and> taken_in s (m @ c)))"

lemma follows_bind:
  assumes "follows r b m" "\<And>s c. b = Inr c \<Longrightarrow> taken_in s (m @ c) \<Longrightarrow> follows (f s) b' (m @ c)"
  shows "follows (rbind r f) (rbind b (\<lambda>c. rbind b' (\<lambda>d. Inr (c @ d)))) m"
  using assms by (cases b; cases b') (auto simp: follows_def)

lemma update_tree_follows:
  "taken_in s m \<Longrightarrow> follows (update_directory_tree s d rel) (tree_bytes d rel) m"
  "taken_in s m \<Longrightarrow> follows (update_members s es rel) (member_bytes es rel) m"
proof (induction s d rel and s es rel arbitrary: m and m rule: update_directory_tree_update_members.induct)
  case (6 s name d es rel)
  let ?mk = "marker (CHR ''D'') (child_path rel name)"
  obtain s1 where s1: "in_block (sha256_update s ?mk) = Inr s1" "taken_in s1 (m @ ?mk)"
    using update_taken_in [OF "6.prems", of ?mk] by (auto simp: in_block_def)
  have "follows (rbind (update_directory_tree s1 d (child_path rel name)) (\<lambda>s2. update_members s2 es rel))
      (rbind (tree_bytes d (child_path rel name)) (\<lambda>c. rbind (member_bytes es rel) (\<lambda>d. Inr (c @ d)))) (m @ ?mk)"
    by (rule follows_bind) (use "6.IH" s1(2) in auto)
  then show ?case using s1(1) by (auto simp: follows_def rbind_def split: sum.splits)
next
  case (7 s name f es rel)
  let ?mk = "marker (CHR ''F'') (child_path rel name)"
  obtain s1 where s1: "in_block (sha256_update s ?mk) = Inr s1" "taken_in s1 (m @ ?mk)"
    using update_taken_in [OF "7.prems", of ?mk] by (auto simp: in_block_def)
  show ?case
  proof (cases f)
    case (Contents b)
    obtain s2 where s2: "read_loop s1 b = Inr s2" "taken_in s2 ((m @ ?mk) @ b)" using read_loop_taken_in [OF s1(2)] by blast
    have "follows (update_members s2 es rel) (member_bytes es rel) ((m @ ?mk) @ b)" using "7.IH" s2(2) by blast
    then show ?thesis using s1(1) s2(1) Contents by (auto simp: follows_def rbind_def split: sum.splits)
  qed (use s1(1) in \<open>auto simp: follows_def\<close>)
qed (auto simp: follows_def)

lemma tree_digest:
  "sha256_directory_tree d = (case tree_bytes d [] of Inl e \<Rightarrow> Inl (Sha_Error e) | Inr b \<Rightarrow> Inr (digest b))"
  using update_tree_follows(1) [OF taken_in_init, of d "[]"] finish_digest
  by (auto simp: sha256_directory_tree_def follows_def in_block_def split: sum.splits)

lemma real_entries_order:
  assumes "mset es = mset fs" "distinct (map fst es)"
  shows "real_entries es = real_entries fs"
proof -
  let ?P = "\<lambda>e. fst e \<noteq> ''.'' \<and> fst e \<noteq> ''..''"
  have "mset (filter ?P es) = mset (filter ?P fs)" using assms(1) by simp
  moreover have "inj_on fst (set (filter ?P es))"
    using assms(2) by (auto simp: distinct_map intro: inj_on_subset)
  ultimately show ?thesis unfolding real_entries_def by (intro sort_key_inj_key_eq) simp_all
qed

lemma length_blocks: "length hs = 8 \<Longrightarrow> length (blocks hs m) = 8"
proof (induction hs m rule: blocks.induct)
  case (1 hs m)
  have "length (compress hs (take 64 m)) = 8" by (simp add: compress_def Let_def split: prod.split)
  then show ?case using 1 by (subst blocks.simps) simp
qed

lemma hex_digits_set: "set (hex_digits h) \<subseteq> set ''0123456789abcdef''"
proof -
  have "''0123456789abcdef'' ! unat (x AND 15 :: u32) \<in> set ''0123456789abcdef''" for x :: u32
  proof (rule nth_mem)
    have "x AND 15 \<le> 15" by (simp add: word_and_le1)
    then show "unat (x AND 15) < length ''0123456789abcdef''" by (simp add: word_le_nat_alt)
  qed
  then show ?thesis unfolding hex_digits_def set_map by (rule image_subsetI)
qed

lemma digest_form: "length (digest m) = 64 \<and> set (digest m) \<subseteq> set ''0123456789abcdef''"
proof -
  have l: "length (blocks (sh_h sha256_init) (padded m)) = 8" by (rule length_blocks) (simp add: sha256_init_def)
  have "length (concat (map hex_digits hs)) = 8 * length hs" for hs by (induction hs) (simp_all add: hex_digits_def)
  then have "length (digest m) = 64" using l by (simp only: digest_def)
  moreover have "set (digest m) \<subseteq> set ''0123456789abcdef''"
    unfolding digest_def set_concat set_map using hex_digits_set by blast
  ultimately show ?thesis ..
qed

section \<open>Properties\<close>

text \<open>
  Claim C22 (equivalence). The streaming digest is the SHA-256 digest of the whole message: a text, a file read through the
  buffer, and a message handed over in pieces of any sizes all give the fold of the compression function over the
  blocks of the padded message; no copy leaves the 64-byte block. The digest is 64 lowercase hexadecimal characters.
\<close>

theorem sha256_streaming:
  "sha256_text t = Some (digest (text_bytes t)) \<and>
   sha256_file (Contents b) = Inr (digest b) \<and>
   Option.bind (update_chunks sha256_init cs) finish = Some (digest (concat cs)) \<and>
   length (digest b) = 64 \<and> set (digest b) \<subseteq> set ''0123456789abcdef''"
proof (intro conjI)
  show "sha256_text t = Some (digest (text_bytes t))"
    using update_taken_in [OF taken_in_init, of "text_bytes t"] finish_digest by (auto simp: sha256_text_def)
  show "sha256_file (Contents b) = Inr (digest b)"
    using read_loop_taken_in [OF taken_in_init, of b] finish_digest by (auto simp: sha256_file_def in_block_def)
  show "Option.bind (update_chunks sha256_init cs) finish = Some (digest (concat cs))"
    using update_chunks_taken_in [OF taken_in_init, of cs] finish_digest by auto
  show "length (digest b) = 64" "set (digest b) \<subseteq> set ''0123456789abcdef''" using digest_form [of b] by simp_all
qed

text \<open>
  The digest of a directory tree is the digest of one byte string, the markers and contents of its
  members in the order of their names, and the first member that cannot be opened, read, classified or examined is
  reported instead; the order in which the directory lists its members does not matter.
\<close>

theorem sha256_tree_deterministic:
  assumes "mset es = mset fs" "distinct (map fst es)"
  shows "sha256_directory_tree (Some es) = sha256_directory_tree (Some fs) \<and>
    sha256_directory_tree (Some es) = (case tree_bytes (Some es) [] of Inl e \<Rightarrow> Inl (Sha_Error e) | Inr b \<Rightarrow> Inr (digest b))"
  using real_entries_order [OF assms] by (simp add: tree_digest)

lemma sha256_tree_deterministic_witness:
  "sha256_directory_tree (Some [(''a'', Regular (Contents [1])), (''b'', Regular (Contents []))]) =
   sha256_directory_tree (Some [(''b'', Regular (Contents [])), (''a'', Regular (Contents [1]))])"
  using sha256_tree_deterministic [of "[(''a'', Regular (Contents [1])), (''b'', Regular (Contents []))]"
      "[(''b'', Regular (Contents [])), (''a'', Regular (Contents [1]))]"] by simp

text \<open>
  The byte string of a tree does not delimit contents: a file whose contents look like a marker line is indistinguishable
  from two files, so different trees have the same digest.
\<close>

lemma sha256_tree_ambiguous:
  "sha256_directory_tree (Some [(''a'', Regular (Contents (marker (CHR ''F'') ''b'')))]) =
   sha256_directory_tree (Some [(''a'', Regular (Contents [])), (''b'', Regular (Contents []))])"
proof -
  have "real_entries [(''a'', Regular (Contents [])), (''b'', Regular (Contents []))] =
      [(''a'', Regular (Contents [])), (''b'', Regular (Contents []))]"
    by (simp add: real_entries_def)
  then show ?thesis by (simp add: tree_digest real_entries_def child_path_def)
qed

end
