(* ===== verification/Json_Access.thy ===== *)
theory Json_Access
  imports Json_Value
begin

text \<open>
  How the request handlers read JSON with \<open>nlohmann::json\<close>: \<open>at\<close> throws for a missing member, \<open>value\<close> takes a default,
  and a conversion throws when the type does not fit. An exception or a fault of a called function is the left side of
  the result. Requests reach a handler only after validation, which admits no floating-point number; converting one to
  an integer is outside the model. \<open>Bad_access\<close> is a use of a null pointer or of an element beyond the end of a vector.
\<close>

datatype handler_error = Missing_member string | Type_error | Float_number | Bad_access | Raised fault

type_synonym 'a handled = "handler_error + 'a"

definition lift_fault :: "'a result \<Rightarrow> 'a handled" where
  "lift_fault r = (case r of Inl f \<Rightarrow> Inl (Raised f) | Inr x \<Rightarrow> Inr x)"

fun json_at :: "json \<Rightarrow> string \<Rightarrow> json handled" where
  "json_at (JObject ms) k = (case map_of ms k of None \<Rightarrow> Inl (Missing_member k) | Some v \<Rightarrow> Inr v)"
| "json_at _ k = Inl Type_error"

fun get_string :: "json \<Rightarrow> string handled" where
  "get_string (JString s) = Inr s"
| "get_string _ = Inl Type_error"

fun get_bool :: "json \<Rightarrow> bool handled" where
  "get_bool (JBool b) = Inr b"
| "get_bool _ = Inl Type_error"

text \<open>A number or a boolean converts to an integer by a cast, which keeps the low bits.\<close>

fun get_u32 :: "json \<Rightarrow> u32 handled" where
  "get_u32 (JUnsigned n) = Inr (word_of_nat n)"
| "get_u32 (JInteger i) = Inr (word_of_int i)"
| "get_u32 (JBool b) = Inr (if b then 1 else 0)"
| "get_u32 (JFloat t) = Inl Float_number"
| "get_u32 _ = Inl Type_error"

definition json_value :: "json \<Rightarrow> string \<Rightarrow> 'a \<Rightarrow> (json \<Rightarrow> 'a handled) \<Rightarrow> 'a handled" where
  "json_value v k d get =
     (case v of
        JObject ms \<Rightarrow> (case map_of ms k of None \<Rightarrow> Inr d | Some w \<Rightarrow> get w)
      | _ \<Rightarrow> Inl Type_error)"

definition json_is_null :: "json \<Rightarrow> bool" where
  "json_is_null v \<longleftrightarrow> v = JNull"

fun json_empty :: "json \<Rightarrow> bool" where
  "json_empty JNull = True"
| "json_empty (JArray xs) = (xs = [])"
| "json_empty (JObject ms) = (ms = [])"
| "json_empty _ = False"

text \<open>What a range-based loop visits.\<close>

fun json_items :: "json \<Rightarrow> json list" where
  "json_items JNull = []"
| "json_items (JArray xs) = xs"
| "json_items (JObject ms) = map snd ms"
| "json_items v = [v]"

text \<open>\<open>target[key] = value\<close> for every member of the source.\<close>

definition merge_members :: "members \<Rightarrow> members \<Rightarrow> members" where
  "merge_members target source = foldl (\<lambda>ms (k, v). member_set ms k v) target source"

fun get_member :: "json \<Rightarrow> string \<Rightarrow> json" where
  "get_member (JObject ms) k = (case map_of ms k of None \<Rightarrow> JNull | Some v \<Rightarrow> v)"
| "get_member _ k = JNull"

lemma rbind_Inr: "rbind r f = Inr y \<longleftrightarrow> (\<exists>x. r = Inr x \<and> f x = Inr y)"
  by (cases r) auto

lemma map_of_merge_members: "distinct (map fst source) \<Longrightarrow> map_of (merge_members target source) = map_of target ++ map_of source"
proof (induction source arbitrary: target)
  case (Cons p source)
  obtain a b where p: "p = (a, b)" by fastforce
  then have "a \<notin> dom (map_of source)" using Cons.prems by (simp add: dom_map_of_conv_image_fst)
  moreover have "map_of (merge_members (member_set target a b) source) = map_of (member_set target a b) ++ map_of source"
    using Cons by simp
  ultimately show ?case by (auto simp: p merge_members_def map_add_def fun_eq_iff split: option.splits)
qed (simp add: merge_members_def)

end
