(* ===== verification/Apb_Scan.thy ===== *)
theory Apb_Scan
  imports Clock_Sampling Logic_Value Json_Access Path_Utils Ordered_Map
begin

unbundle bit_operations_syntax

text \<open>
  APB transfers, \<open>engine/actions/protocol/apb_actions.cpp\<close>: the configuration of a bus, the scan of the clock edges that
  collects the completed transfers, and the filters on them. The waveform is the interface record, extended by the
  methods the protocol actions call: loading a signal and reading and printing times.
\<close>

section \<open>The waveform of the actions\<close>

datatype time_render_unit = Ns | Ps | Us | Auto

definition parse_time_render_unit :: "string \<Rightarrow> string + time_render_unit" where
  "parse_time_render_unit t =
     (if t = ''ns'' then Inr Ns else if t = ''ps'' then Inr Ps else if t = ''us'' then Inr Us
      else if t = ''auto'' then Inr Auto
      else Inl ''TIME_UNIT_INVALID: args.render_time_unit must be ns, ps, us, or auto'')"

record action_wave = waveform +
  aw_is_loaded :: "signal_ref \<Rightarrow> bool"
  aw_load_signal :: "signal_ref \<Rightarrow> nat"
  aw_format_time :: "u64 \<Rightarrow> time_render_unit \<Rightarrow> string"
  aw_parse_time :: "string \<Rightarrow> bool \<Rightarrow> string + u64"
  aw_min_time :: u64
  aw_max_time :: u64

section \<open>Configurations and transfers\<close>

record apb_config =
  ac_name :: string
  ac_clock :: string
  ac_edge :: string
  ac_sample_point :: string
  ac_reset :: string
  ac_reset_polarity :: string
  ac_paddr :: string
  ac_psel :: string
  ac_penable :: string
  ac_pwrite :: string
  ac_pwdata :: string
  ac_prdata :: string
  ac_pready :: string
  ac_pslverr :: string

record apb_transaction =
  at_time :: u64
  at_is_write :: bool
  at_has_error :: bool
  at_addr :: string
  at_data :: string
  at_addr_width :: u32
  at_data_width :: u32

record apb_scan =
  as_transactions :: "apb_transaction list"
  as_complete :: bool
  as_unresolved :: nat

definition apb_scan_init :: apb_scan where
  "apb_scan_init = \<lparr>as_transactions = [], as_complete = True, as_unresolved = 0\<rparr>"

definition error_response :: "string \<Rightarrow> string \<Rightarrow> json" where
  "error_response code message =
     JObject [(''ok'', JBool False), (''error'', JObject [(''code'', JString code), (''message'', JString message)])]"

section \<open>Loading the signals\<close>

definition load_ref :: "action_wave \<Rightarrow> string \<Rightarrow> string \<Rightarrow> json + signal_ref \<times> signal_info" where
  "load_ref wave path role =
     (let ref = wf_find_signal wave path
      in if ref = 0 then
           Inl (error_response ''CONFIG_SIGNAL_NOT_FOUND'' (''APB '' @ role @ '' signal not found: '' @ path))
         else if \<not> aw_is_loaded wave ref \<and> aw_load_signal wave ref \<noteq> 1 then
           Inl (error_response ''VALUE_NOT_AVAILABLE'' (''failed to load APB '' @ role @ '': '' @ path))
         else case wf_signal_info wave ref of
                None \<Rightarrow> Inl (error_response ''VALUE_NOT_AVAILABLE'' (''APB '' @ role @ '' metadata unavailable: '' @ path))
              | Some info \<Rightarrow> Inr (ref, info))"

record apb_refs =
  ar_clock :: signal_ref
  ar_reset :: signal_ref
  ar_paddr :: signal_ref
  ar_psel :: signal_ref
  ar_penable :: signal_ref
  ar_pwrite :: signal_ref
  ar_pwdata :: signal_ref
  ar_prdata :: signal_ref
  ar_pready :: signal_ref
  ar_pslverr :: signal_ref
  ar_addr_width :: u32
  ar_write_width :: u32
  ar_read_width :: u32

definition load_optional :: "action_wave \<Rightarrow> string \<Rightarrow> string \<Rightarrow> json + signal_ref" where
  "load_optional wave path role = (if path = [] then Inr 0 else rbind (load_ref wave path role) (\<lambda>(r, _). Inr r))"

definition load_refs :: "action_wave \<Rightarrow> apb_config \<Rightarrow> json + apb_refs" where
  "load_refs wave c =
     rbind (load_ref wave (ac_clock c) ''clock'') (\<lambda>(clock, _).
     rbind (load_ref wave (ac_reset c) ''reset'') (\<lambda>(reset, _).
     rbind (load_ref wave (ac_paddr c) ''paddr'') (\<lambda>(paddr, addr_info).
     rbind (load_ref wave (ac_psel c) ''psel'') (\<lambda>(psel, _).
     rbind (load_ref wave (ac_penable c) ''penable'') (\<lambda>(penable, _).
     rbind (load_ref wave (ac_pwrite c) ''pwrite'') (\<lambda>(pwrite, _).
     rbind (load_ref wave (ac_pwdata c) ''pwdata'') (\<lambda>(pwdata, write_info).
     rbind (load_ref wave (ac_prdata c) ''prdata'') (\<lambda>(prdata, read_info).
     rbind (load_optional wave (ac_pready c) ''pready'') (\<lambda>pready.
     rbind (load_optional wave (ac_pslverr c) ''pslverr'') (\<lambda>pslverr.
       Inr \<lparr>ar_clock = clock, ar_reset = reset, ar_paddr = paddr, ar_psel = psel, ar_penable = penable, ar_pwrite = pwrite,
         ar_pwdata = pwdata, ar_prdata = prdata, ar_pready = pready, ar_pslverr = pslverr,
         ar_addr_width = si_width addr_info, ar_write_width = si_width write_info, ar_read_width = si_width read_info\<rparr>))))))))))"

section \<open>One clock edge\<close>

definition config_point :: "apb_config \<Rightarrow> observation_point" where
  "config_point c =
     (if ac_edge c = ''negedge'' then Raw else if ac_sample_point c = ''after'' then After else Before)"

datatype tri = TFalse | TTrue | TUnknown

fun truth_loop :: "string \<Rightarrow> bool \<Rightarrow> tri" where
  "truth_loop [] one = (if one then TTrue else TFalse)"
| "truth_loop (b # bs) one =
     (if b \<in> {CHR ''x'', CHR ''X'', CHR ''z'', CHR ''Z''} then TUnknown
      else truth_loop bs (if b = CHR ''1'' then True else one))"

definition truth :: "waveform_value \<Rightarrow> tri" where
  "truth v = (if wv_kind v \<noteq> BitVector \<or> wv_text v = [] then TUnknown else truth_loop (wv_text v) False)"

definition sample_value :: "action_wave \<Rightarrow> signal_ref \<Rightarrow> nat \<Rightarrow> observation_point \<Rightarrow> waveform_value option" where
  "sample_value wave ref ti point = map_option sv_value (wf_sampled_value_at wave ref ti point)"

definition selected_edge :: "string \<Rightarrow> bool \<Rightarrow> bool \<Rightarrow> bool" where
  "selected_edge edge rising falling \<longleftrightarrow>
     (if edge = ''dual'' then rising \<or> falling else if edge = ''posedge'' then rising else falling)"

definition edge_at :: "action_wave \<Rightarrow> apb_config \<Rightarrow> signal_ref \<Rightarrow> nat \<Rightarrow> bool" where
  "edge_at wave c clock ti =
     (case (wf_sampled_value_at wave clock ti Before, wf_sampled_value_at wave clock ti Raw) of
        (Some before, Some raw) \<Rightarrow>
          selected_edge (ac_edge c) (is_rising_edge (wv_text (sv_value before)) (wv_text (sv_value raw)))
            (is_falling_edge (wv_text (sv_value before)) (wv_text (sv_value raw)))
      | _ \<Rightarrow> False)"

text \<open>What an edge shows: nothing, something that cannot be decided, or a completed transfer.\<close>

datatype apb_event = Idle | Unresolved | Transfer apb_transaction

definition transfer_at :: "action_wave \<Rightarrow> apb_config \<Rightarrow> apb_refs \<Rightarrow> nat \<Rightarrow> waveform_value \<Rightarrow> apb_event" where
  "transfer_at wave c refs ti pwrite =
     (case (sample_value wave (ar_paddr refs) ti (config_point c), sample_value wave (ar_pwdata refs) ti (config_point c),
            sample_value wave (ar_prdata refs) ti (config_point c)) of
        (Some paddr, Some pwdata, Some prdata) \<Rightarrow>
          if truth pwrite = TUnknown then Unresolved
          else
            let slverr = (if ar_pslverr refs = 0 then Some waveform_value_init else sample_value wave (ar_pslverr refs) ti (config_point c));
                is_write = (truth pwrite = TTrue)
            in (case slverr of
                  None \<Rightarrow> Unresolved
                | Some pslverr \<Rightarrow>
                    Transfer \<lparr>at_time = wf_time_at wave ti, at_is_write = is_write,
                      at_has_error = (ar_pslverr refs \<noteq> 0 \<and> truth pslverr \<noteq> TFalse),
                      at_addr = wv_text paddr, at_data = wv_text (if is_write then pwdata else prdata),
                      at_addr_width = ar_addr_width refs,
                      at_data_width = (if is_write then ar_write_width refs else ar_read_width refs)\<rparr>)
      | _ \<Rightarrow> Unresolved)"

definition event_at :: "action_wave \<Rightarrow> apb_config \<Rightarrow> apb_refs \<Rightarrow> nat \<Rightarrow> apb_event" where
  "event_at wave c refs ti =
     (let point = config_point c
      in case (sample_value wave (ar_reset refs) ti point, sample_value wave (ar_psel refs) ti point,
               sample_value wave (ar_penable refs) ti point, sample_value wave (ar_pwrite refs) ti point) of
           (Some reset, Some psel, Some penable, Some pwrite) \<Rightarrow>
             let reset_asserted =
                   (if ac_reset_polarity c = ''active_low'' then truth reset \<noteq> TTrue else truth reset \<noteq> TFalse)
             in if reset_asserted then Idle
                else if truth psel = TUnknown \<or> truth penable = TUnknown then Unresolved
                else if truth psel \<noteq> TTrue \<or> truth penable \<noteq> TTrue then Idle
                else if ar_pready refs \<noteq> 0 then
                  (case sample_value wave (ar_pready refs) ti point of
                     None \<Rightarrow> Unresolved
                   | Some pready \<Rightarrow>
                       if truth pready = TUnknown then Unresolved
                       else if truth pready \<noteq> TTrue then Idle
                       else transfer_at wave c refs ti pwrite)
                else transfer_at wave c refs ti pwrite
         | _ \<Rightarrow> Unresolved)"

section \<open>The scan\<close>

record scan_state =
  ss_result :: apb_scan
  ss_previous_ti :: nat
  ss_ordinal :: nat
  ss_last_accept :: "nat option"

definition scan_state_init :: scan_state where
  "scan_state_init = \<lparr>ss_result = apb_scan_init, ss_previous_ti = 4294967295, ss_ordinal = 0, ss_last_accept = None\<rparr>"

definition same_transfer :: "apb_transaction \<Rightarrow> apb_transaction \<Rightarrow> bool" where
  "same_transfer a b \<longleftrightarrow>
     at_is_write a = at_is_write b \<and> at_has_error a = at_has_error b \<and> at_addr a = at_addr b \<and> at_data a = at_data b"

text \<open>An access that stays on the bus over two selected edges in a row is one transfer.\<close>

definition duplicate_access_tail :: "scan_state \<Rightarrow> apb_transaction \<Rightarrow> bool" where
  "duplicate_access_tail st txn \<longleftrightarrow>
     (case ss_last_accept st of None \<Rightarrow> False | Some l \<Rightarrow> l + 1 = ss_ordinal st) \<and>
     as_transactions (ss_result st) \<noteq> [] \<and> same_transfer (last (as_transactions (ss_result st))) txn"

definition edge_step :: "apb_event \<Rightarrow> scan_state \<Rightarrow> scan_state" where
  "edge_step ev st =
     (let st' = (case ev of
          Idle \<Rightarrow> st
        | Unresolved \<Rightarrow> st\<lparr>ss_result := (ss_result st)\<lparr>as_complete := False, as_unresolved := as_unresolved (ss_result st) + 1\<rparr>\<rparr>
        | Transfer txn \<Rightarrow>
            (let r = ss_result st;
                 r = (if duplicate_access_tail st txn then r else r\<lparr>as_transactions := as_transactions r @ [txn]\<rparr>)
             in st\<lparr>ss_result := r, ss_last_accept := Some (ss_ordinal st)\<rparr>))
      in st'\<lparr>ss_ordinal := ss_ordinal st + 1\<rparr>)"

fun apb_scan_loop :: "action_wave \<Rightarrow> apb_config \<Rightarrow> apb_refs \<Rightarrow> nat list \<Rightarrow> scan_state \<Rightarrow> scan_state" where
  "apb_scan_loop wave c refs [] st = st"
| "apb_scan_loop wave c refs (ti # ts) st =
     (if ti = ss_previous_ti st then apb_scan_loop wave c refs ts st
      else
        let st = st\<lparr>ss_previous_ti := ti\<rparr>
        in apb_scan_loop wave c refs ts (if edge_at wave c (ar_clock refs) ti then edge_step (event_at wave c refs ti) st else st))"

definition scan_transactions :: "action_wave \<Rightarrow> apb_config \<Rightarrow> json + apb_scan" where
  "scan_transactions wave c =
     rbind (load_refs wave c) (\<lambda>refs.
       Inr (ss_result (apb_scan_loop wave c refs (wf_time_indices_of wave (ar_clock refs)) scan_state_init)))"

section \<open>Filters\<close>

definition shift_in :: "u64 \<Rightarrow> char \<Rightarrow> u64" where
  "shift_in v b = (if b = CHR ''1'' then push_bit 1 v + 1 else push_bit 1 v)"

definition logic_u64 :: "string \<Rightarrow> u64 option handled" where
  "logic_u64 t =
     rbind (lift_fault (parse_sv_literal t)) (\<lambda>r.
       Inr (case r of
              None \<Rightarrow> None
            | Some logic \<Rightarrow>
                if \<not> lv_known logic \<or> length (lv_bits logic) > 64 then None
                else Some (foldl shift_in 0 (lv_bits logic))))"

definition transaction_address :: "apb_transaction \<Rightarrow> u64 option" where
  "transaction_address txn =
     (if length (at_addr txn) > 64 then None
      else if list_all (\<lambda>b. b = CHR ''0'' \<or> b = CHR ''1'') (at_addr txn) then Some (foldl shift_in 0 (at_addr txn))
      else None)"

datatype filter_result = FNo | FYes | FUnresolved

fun exact_match :: "u64 \<Rightarrow> json list \<Rightarrow> filter_result handled" where
  "exact_match actual [] = Inr FNo"
| "exact_match actual (v # vs) =
     rbind (get_string v) (\<lambda>t.
     rbind (logic_u64 t) (\<lambda>expected.
       if expected = Some actual then Inr FYes else exact_match actual vs))"

definition address_matches :: "apb_transaction \<Rightarrow> json \<Rightarrow> filter_result handled" where
  "address_matches txn address =
     (if json_is_null address \<or> json_empty address then Inr FYes
      else case transaction_address txn of
             None \<Rightarrow> Inr FUnresolved
           | Some actual \<Rightarrow>
               rbind (rbind (json_at address ''mode'') get_string) (\<lambda>mode.
                 if mode = ''exact'' then
                   rbind (json_at address ''values'') (\<lambda>vs. exact_match actual (json_items vs))
                 else if mode = ''range'' then
                   rbind (rbind (rbind (json_at address ''begin'') get_string) logic_u64) (\<lambda>lo.
                     if lo = None then Inr FUnresolved
                     else rbind (rbind (rbind (json_at address ''end'') get_string) logic_u64) (\<lambda>hi.
                       if hi = None then Inr FUnresolved
                       else Inr (if the lo \<le> actual \<and> actual \<le> the hi then FYes else FNo)))
                 else
                   rbind (rbind (rbind (json_at address ''value'') get_string) logic_u64) (\<lambda>expected.
                     if expected = None then Inr FUnresolved
                     else rbind (rbind (rbind (json_at address ''mask'') get_string) logic_u64) (\<lambda>mask.
                       if mask = None then Inr FUnresolved
                       else Inr (if actual AND the mask = the expected AND the mask then FYes else FNo)))))"

definition direction_matches :: "apb_transaction \<Rightarrow> string \<Rightarrow> bool" where
  "direction_matches txn direction \<longleftrightarrow>
     direction = ''all'' \<or> (direction = ''write'' \<and> at_is_write txn) \<or> (direction = ''read'' \<and> \<not> at_is_write txn)"

end
