(* ===== verification/Axi_Scan.thy ===== *)
theory Axi_Scan
  imports Apb_Scan "HOL-Library.Multiset"
begin

text \<open>
  AXI transactions, \<open>engine/actions/protocol/axi_actions.cpp\<close>: the handshakes of the five channels at the selected clock
  edges, and how they are put together. Write bursts bind to write addresses in the order of acceptance, responses
  and read data bind by identifier. Loading a signal has no result that is looked at; the waveform answers for
  loaded signals.

  The order that \<open>std::sort\<close> gives to entries with equal keys is not specified: the function that sorts is a
  parameter, of which only \<open>sorts_by\<close> is assumed.
\<close>

section \<open>Data\<close>

record axi_signal_map =
  ax_name :: string
  ax_aclk :: string
  ax_aresetn :: string
  ax_reset_polarity :: string
  ax_edge :: string
  ax_sample_point :: string
  ax_awid :: string
  ax_awaddr :: string
  ax_awlen :: string
  ax_awsize :: string
  ax_awburst :: string
  ax_awvalid :: string
  ax_awready :: string
  ax_wdata :: string
  ax_wstrb :: string
  ax_wlast :: string
  ax_wvalid :: string
  ax_wready :: string
  ax_bid :: string
  ax_bresp :: string
  ax_bvalid :: string
  ax_bready :: string
  ax_arid :: string
  ax_araddr :: string
  ax_arlen :: string
  ax_arsize :: string
  ax_arburst :: string
  ax_arvalid :: string
  ax_arready :: string
  ax_rid :: string
  ax_rdata :: string
  ax_rresp :: string
  ax_rlast :: string
  ax_rvalid :: string
  ax_rready :: string

record axi_event =
  ae_channel :: string
  ae_time :: u64
  ae_time_idx :: nat
  ae_valid_begin :: u64
  ae_kind :: string
  ae_id :: string
  ae_addr :: string
  ae_len :: string
  ae_size :: string
  ae_burst :: string
  ae_data :: string
  ae_strb :: string
  ae_resp :: string
  ae_last :: bool

definition axi_event_init :: axi_event where
  "axi_event_init = \<lparr>ae_channel = [], ae_time = 0, ae_time_idx = 0, ae_valid_begin = 0, ae_kind = [], ae_id = [], ae_addr = [],
     ae_len = [], ae_size = [], ae_burst = [], ae_data = [], ae_strb = [], ae_resp = [], ae_last = False\<rparr>"

record axi_transaction =
  tx_index :: nat
  tx_is_write :: bool
  tx_id :: string
  tx_address :: string
  tx_length :: string
  tx_size :: string
  tx_burst :: string
  tx_start :: u64
  tx_start_idx :: nat
  tx_address_valid :: u64
  tx_end :: u64
  tx_end_idx :: nat
  tx_complete :: bool
  tx_beats :: "string list"
  tx_events :: "axi_event list"
  tx_resp :: string

definition axi_transaction_init :: axi_transaction where
  "axi_transaction_init = \<lparr>tx_index = 0, tx_is_write = False, tx_id = [], tx_address = [], tx_length = [], tx_size = [], tx_burst = [],
     tx_start = 0, tx_start_idx = 0, tx_address_valid = 0, tx_end = 0, tx_end_idx = 0, tx_complete = True, tx_beats = [], tx_events = [],
     tx_resp = []\<rparr>"

record axi_scan_result =
  xs_aw :: "axi_event list"
  xs_w :: "axi_event list"
  xs_b :: "axi_event list"
  xs_ar :: "axi_event list"
  xs_r :: "axi_event list"
  xs_transactions :: "axi_transaction list"
  xs_refs :: "(signal_ref \<times> signal_ref) list"
  xs_complete :: bool

section \<open>Clock edges\<close>

definition axi_point :: "axi_signal_map \<Rightarrow> observation_point" where
  "axi_point c =
     (if ax_edge c = ''negedge'' then Raw else if ax_sample_point c = ''after'' then After else Before)"

definition read_signal_at :: "action_wave \<Rightarrow> signal_ref \<Rightarrow> nat \<Rightarrow> observation_point \<Rightarrow> string" where
  "read_signal_at wave ref ti point =
     (if ref = 0 then ''x''
      else case wf_sampled_value_at wave ref ti point of
             None \<Rightarrow> ''x''
           | Some sampled \<Rightarrow> if wv_kind (sv_value sampled) \<noteq> BitVector then ''x'' else wv_text (sv_value sampled))"

definition known_high :: "string \<Rightarrow> bool" where
  "known_high bits \<longleftrightarrow>
     bits \<noteq> [] \<and> list_all (\<lambda>b. b \<notin> {CHR ''x'', CHR ''X'', CHR ''z'', CHR ''Z''}) bits \<and> CHR ''1'' \<in> set bits"

definition known_binary :: "string \<Rightarrow> bool" where
  "known_binary bits \<longleftrightarrow> bits \<noteq> [] \<and> list_all (\<lambda>b. b = CHR ''0'' \<or> b = CHR ''1'') bits"

definition edge_selected :: "action_wave \<Rightarrow> axi_signal_map \<Rightarrow> signal_ref \<Rightarrow> nat \<Rightarrow> bool" where
  "edge_selected wave c ref ti \<longleftrightarrow>
     (let before = read_signal_at wave ref ti Before;
          raw = read_signal_at wave ref ti Raw;
          rising = is_rising_edge before raw;
          falling = is_falling_edge before raw
      in (ax_edge c = ''dual'' \<and> (rising \<or> falling)) \<or> (ax_edge c = ''posedge'' \<and> rising) \<or> (ax_edge c = ''negedge'' \<and> falling))"

fun clock_edge_loop :: "action_wave \<Rightarrow> axi_signal_map \<Rightarrow> signal_ref \<Rightarrow> u64 \<Rightarrow> u64 \<Rightarrow> nat \<Rightarrow> nat list \<Rightarrow> nat list" where
  "clock_edge_loop wave c ref lo hi previous [] = []"
| "clock_edge_loop wave c ref lo hi previous (ti # tis) =
     (if ti = previous then clock_edge_loop wave c ref lo hi previous tis
      else if wf_time_at wave ti < lo \<or> wf_time_at wave ti > hi then clock_edge_loop wave c ref lo hi ti tis
      else if edge_selected wave c ref ti then ti # clock_edge_loop wave c ref lo hi ti tis
      else clock_edge_loop wave c ref lo hi ti tis)"

definition selected_clock_edges :: "action_wave \<Rightarrow> axi_signal_map \<Rightarrow> u64 \<Rightarrow> u64 \<Rightarrow> nat list" where
  "selected_clock_edges wave c lo hi =
     (let ref = wf_find_signal wave (ax_aclk c)
      in if ref = 0 then [] else clock_edge_loop wave c ref lo hi 4294967295 (wf_time_indices_of wave ref))"

text \<open>The edges at which reset is known and not asserted, and whether reset was known at every edge.\<close>

definition reset_asserted :: "axi_signal_map \<Rightarrow> string \<Rightarrow> bool" where
  "reset_asserted c reset = (if ax_reset_polarity c = ''active_low'' then \<not> known_high reset else known_high reset)"

fun active_edge_loop :: "action_wave \<Rightarrow> axi_signal_map \<Rightarrow> signal_ref \<Rightarrow> nat list \<Rightarrow> nat list \<times> bool" where
  "active_edge_loop wave c ref [] = ([], True)"
| "active_edge_loop wave c ref (ti # tis) =
     (let reset = read_signal_at wave ref ti (axi_point c);
          (edges, complete) = active_edge_loop wave c ref tis
      in if \<not> known_binary reset then (edges, False)
         else if reset_asserted c reset then (edges, complete)
         else (ti # edges, complete))"

section \<open>Handshakes\<close>

text \<open>The loop of \<open>scan_channel_handshakes\<close>: whether valid is held and since when, the events so far, whether all was known.\<close>

fun channel_loop ::
  "action_wave \<Rightarrow> axi_signal_map \<Rightarrow> signal_ref \<Rightarrow> signal_ref \<Rightarrow> string \<Rightarrow> nat list \<Rightarrow> bool \<Rightarrow> u64 \<Rightarrow> axi_event list \<Rightarrow> bool \<Rightarrow> axi_event list \<times> bool" where
  "channel_loop wave c rv rr channel [] active since events complete = (events, complete)"
| "channel_loop wave c rv rr channel (ti # tis) active since events complete =
     (let time = wf_time_at wave ti;
          valid = read_signal_at wave rv ti (axi_point c);
          ready = read_signal_at wave rr ti (axi_point c)
      in if \<not> known_binary valid \<or> \<not> known_binary ready then channel_loop wave c rv rr channel tis active since events False
         else
           let since' = (if known_high valid \<and> \<not> active then time else since)
           in if known_high valid \<and> known_high ready then
                channel_loop wave c rv rr channel tis False since'
                  (events @ [axi_event_init\<lparr>ae_channel := channel, ae_time := time, ae_time_idx := ti, ae_valid_begin := since', ae_kind := ''handshake''\<rparr>]) complete
              else channel_loop wave c rv rr channel tis (known_high valid) since' events complete)"

definition scan_channel_handshakes ::
  "action_wave \<Rightarrow> axi_signal_map \<Rightarrow> signal_ref \<Rightarrow> signal_ref \<Rightarrow> string \<Rightarrow> nat list \<Rightarrow> bool \<Rightarrow> axi_event list \<times> bool" where
  "scan_channel_handshakes wave c rv rr channel edges complete =
     (if rv = 0 \<or> rr = 0 then ([], complete) else channel_loop wave c rv rr channel edges False 0 [] complete)"

text \<open>The payload of the address channels, of the data channels and of the write response.\<close>

definition augment_address ::
  "action_wave \<Rightarrow> axi_signal_map \<Rightarrow> string \<Rightarrow> string \<Rightarrow> string \<Rightarrow> string \<Rightarrow> string \<Rightarrow> axi_event list \<Rightarrow> axi_event list" where
  "augment_address wave c id_path addr_path len_path size_path burst_path events =
     (let find = wf_find_signal wave;
          read = (\<lambda>p ev. read_signal_at wave (find p) (ae_time_idx ev) (axi_point c))
      in if find id_path = 0 then events
         else map (\<lambda>ev. ev\<lparr>ae_id := read id_path ev, ae_addr := read addr_path ev, ae_len := read len_path ev,
                ae_size := read size_path ev, ae_burst := read burst_path ev\<rparr>) events)"

definition augment_aw_events :: "action_wave \<Rightarrow> axi_signal_map \<Rightarrow> axi_event list \<Rightarrow> axi_event list" where
  "augment_aw_events wave c = augment_address wave c (ax_awid c) (ax_awaddr c) (ax_awlen c) (ax_awsize c) (ax_awburst c)"

definition augment_ar_events :: "action_wave \<Rightarrow> axi_signal_map \<Rightarrow> axi_event list \<Rightarrow> axi_event list" where
  "augment_ar_events wave c = augment_address wave c (ax_arid c) (ax_araddr c) (ax_arlen c) (ax_arsize c) (ax_arburst c)"

definition last_flag :: "action_wave \<Rightarrow> axi_signal_map \<Rightarrow> signal_ref \<Rightarrow> axi_event \<Rightarrow> bool" where
  "last_flag wave c ref ev =
     (if ref = 0 then ae_last ev
      else let lv = read_signal_at wave ref (ae_time_idx ev) (axi_point c) in lv \<noteq> [] \<and> last lv = CHR ''1'')"

definition augment_w_events :: "action_wave \<Rightarrow> axi_signal_map \<Rightarrow> axi_event list \<Rightarrow> axi_event list" where
  "augment_w_events wave c events =
     (let find = wf_find_signal wave;
          read = (\<lambda>p ev. read_signal_at wave (find p) (ae_time_idx ev) (axi_point c))
      in if find (ax_wdata c) = 0 then events
         else map (\<lambda>ev. ev\<lparr>ae_data := read (ax_wdata c) ev, ae_strb := read (ax_wstrb c) ev,
                ae_last := last_flag wave c (find (ax_wlast c)) ev\<rparr>) events)"

definition augment_b_events :: "action_wave \<Rightarrow> axi_signal_map \<Rightarrow> axi_event list \<Rightarrow> axi_event list" where
  "augment_b_events wave c events =
     (let find = wf_find_signal wave;
          read = (\<lambda>p ev. read_signal_at wave (find p) (ae_time_idx ev) (axi_point c))
      in if find (ax_bid c) = 0 then events
         else map (\<lambda>ev. ev\<lparr>ae_id := read (ax_bid c) ev, ae_resp := read (ax_bresp c) ev\<rparr>) events)"

definition augment_r_events :: "action_wave \<Rightarrow> axi_signal_map \<Rightarrow> axi_event list \<Rightarrow> axi_event list" where
  "augment_r_events wave c events =
     (let find = wf_find_signal wave;
          read = (\<lambda>p ev. read_signal_at wave (find p) (ae_time_idx ev) (axi_point c))
      in if find (ax_rid c) = 0 then events
         else map (\<lambda>ev. ev\<lparr>ae_id := read (ax_rid c) ev, ae_data := read (ax_rdata c) ev, ae_resp := read (ax_rresp c) ev,
                ae_last := last_flag wave c (find (ax_rlast c)) ev\<rparr>) events)"

section \<open>Write transactions\<close>

record pending_write =
  pw_aw :: nat
  pw_beats :: "string list"
  pw_events :: "axi_event list"

text \<open>The bursts that a last beat closes, and the beats after the last of them.\<close>

fun split_bursts :: "axi_event list \<Rightarrow> axi_event list \<Rightarrow> axi_event list list \<times> axi_event list" where
  "split_bursts current [] = ([], current)"
| "split_bursts current (ev # evs) =
     (if ae_last ev then let (bursts, rest) = split_bursts [] evs in ((current @ [ev]) # bursts, rest)
      else split_bursts (current @ [ev]) evs)"

definition pending_of :: "nat \<Rightarrow> axi_event list \<Rightarrow> pending_write" where
  "pending_of i events = \<lparr>pw_aw = i, pw_beats = map ae_data events, pw_events = events\<rparr>"

definition queue_of :: "'k::linorder \<Rightarrow> ('k, 'v list) omap \<Rightarrow> 'v list" where
  "queue_of k m = (case omap_find k m of None \<Rightarrow> [] | Some q \<Rightarrow> q)"

fun push_paired :: "axi_event list \<Rightarrow> axi_event list list \<Rightarrow> nat \<Rightarrow> (string, pending_write list) omap \<Rightarrow> (string, pending_write list) omap" where
  "push_paired (aw # aws) (burst # bursts) i m =
     push_paired aws bursts (Suc i) (omap_set (ae_id aw) (queue_of (ae_id aw) m @ [pending_of i burst]) m)"
| "push_paired aws bursts i m = m"

text \<open>A transaction with its request; the incomplete ones keep this form.\<close>

definition requested :: "bool \<Rightarrow> nat \<Rightarrow> axi_event \<Rightarrow> string list \<Rightarrow> axi_event list \<Rightarrow> axi_transaction" where
  "requested is_write n request beats events =
     axi_transaction_init\<lparr>tx_index := n, tx_is_write := is_write, tx_id := ae_id request, tx_address := ae_addr request,
       tx_length := ae_len request, tx_size := ae_size request, tx_burst := ae_burst request, tx_start := ae_time request,
       tx_start_idx := ae_time_idx request, tx_address_valid := ae_valid_begin request, tx_complete := False,
       tx_beats := beats, tx_events := events\<rparr>"

definition completed :: "axi_event \<Rightarrow> axi_transaction \<Rightarrow> axi_transaction" where
  "completed response txn =
     txn\<lparr>tx_end := ae_time response, tx_end_idx := ae_time_idx response, tx_complete := True, tx_resp := ae_resp response\<rparr>"

definition write_txn :: "axi_event list \<Rightarrow> nat \<Rightarrow> pending_write \<Rightarrow> axi_transaction" where
  "write_txn aws n pw = requested True n (aws ! pw_aw pw) (pw_beats pw) (pw_events pw)"

text \<open>Responses in order, each to the oldest write with its identifier: the transactions and the responses not used.\<close>

fun match_responses ::
  "axi_event list \<Rightarrow> axi_event list \<Rightarrow> (string, pending_write list) omap \<Rightarrow> axi_transaction list \<Rightarrow> bool list \<Rightarrow> (string, pending_write list) omap \<times> axi_transaction list \<times> bool list" where
  "match_responses aws [] m txns used = (m, txns, used)"
| "match_responses aws (b # bs) m txns used =
     (case queue_of (ae_id b) m of
        [] \<Rightarrow> match_responses aws bs m txns (used @ [False])
      | pw # rest \<Rightarrow>
          match_responses aws bs (omap_set (ae_id b) rest m)
            (txns @ [completed b ((write_txn aws (length txns) pw)\<lparr>tx_id := ae_id b\<rparr>)]) (used @ [True]))"

definition add_writes :: "axi_event list \<Rightarrow> pending_write list \<Rightarrow> axi_transaction list \<Rightarrow> axi_transaction list" where
  "add_writes aws pws txns = foldl (\<lambda>ts pw. ts @ [write_txn aws (length ts) pw]) txns pws"

definition orphan_txn :: "nat \<Rightarrow> axi_event \<Rightarrow> axi_transaction" where
  "orphan_txn n b =
     axi_transaction_init\<lparr>tx_index := n, tx_is_write := True, tx_id := ae_id b, tx_start := ae_time b, tx_start_idx := ae_time_idx b,
       tx_end := ae_time b, tx_end_idx := ae_time_idx b, tx_complete := False\<rparr>"

definition add_orphans :: "axi_event list \<Rightarrow> axi_transaction list \<Rightarrow> axi_transaction list" where
  "add_orphans bs txns = foldl (\<lambda>ts b. ts @ [orphan_txn (length ts) b]) txns bs"

definition pending_writes :: "axi_event list \<Rightarrow> axi_event list list \<Rightarrow> axi_event list \<Rightarrow> pending_write list" where
  "pending_writes aws bursts rest =
     (let paired = min (length aws) (length bursts);
          pending = map (\<lambda>i. pending_of i []) [paired..<length aws]
      in case pending of
           [] \<Rightarrow> []
         | first # others \<Rightarrow> if rest \<noteq> [] then pending_of (pw_aw first) rest # others else pending)"

definition assemble_writes :: "axi_event list \<Rightarrow> axi_event list \<Rightarrow> axi_event list \<Rightarrow> axi_transaction list" where
  "assemble_writes aws ws bs =
     (let (bursts, rest) = split_bursts [] ws;
          (m, txns, used) = match_responses aws bs (push_paired aws bursts 0 []) [] [];
          txns = add_writes aws (concat (map snd m)) txns;
          txns = add_writes aws (pending_writes aws bursts rest) txns
      in add_orphans (map fst (filter (\<lambda>(b, u). \<not> u) (zip bs used))) txns)"

section \<open>Read transactions\<close>

datatype read_kind = KindAR | KindR

record read_event =
  re_time :: u64
  re_kind :: read_kind
  re_idx :: nat

record pending_read =
  pr_ar :: nat
  pr_beats :: "string list"
  pr_events :: "axi_event list"

definition read_events :: "axi_event list \<Rightarrow> axi_event list \<Rightarrow> read_event list" where
  "read_events ars rs =
     map (\<lambda>i. \<lparr>re_time = ae_time (ars ! i), re_kind = KindAR, re_idx = i\<rparr>) [0..<length ars] @
     map (\<lambda>i. \<lparr>re_time = ae_time (rs ! i), re_kind = KindR, re_idx = i\<rparr>) [0..<length rs]"

definition sorts_by :: "('a \<Rightarrow> 'k::linorder) \<Rightarrow> ('a list \<Rightarrow> 'a list) \<Rightarrow> bool" where
  "sorts_by key f \<longleftrightarrow> (\<forall>xs. mset (f xs) = mset xs \<and> sorted (map key (f xs)))"

definition read_txn :: "axi_event list \<Rightarrow> nat \<Rightarrow> pending_read \<Rightarrow> axi_transaction" where
  "read_txn ars n pr = requested False n (ars ! pr_ar pr) (pr_beats pr) (pr_events pr)"

definition add_beat :: "axi_event \<Rightarrow> pending_read \<Rightarrow> pending_read" where
  "add_beat r pr = pr\<lparr>pr_beats := pr_beats pr @ [ae_data r], pr_events := pr_events pr @ [r]\<rparr>"

definition read_step ::
  "axi_event list \<Rightarrow> axi_event list \<Rightarrow> read_event \<Rightarrow> (string, pending_read list) omap \<times> axi_transaction list \<Rightarrow> (string, pending_read list) omap \<times> axi_transaction list" where
  "read_step ars rs re st =
     (let (m, txns) = st
      in if re_kind re = KindAR then
           let k = ae_id (ars ! re_idx re)
           in (omap_set k (queue_of k m @ [\<lparr>pr_ar = re_idx re, pr_beats = [], pr_events = []\<rparr>]) m, txns)
         else
           let r = rs ! re_idx re
           in case queue_of (ae_id r) m of
                [] \<Rightarrow> st
              | pr # rest \<Rightarrow>
                  if ae_last r then (omap_set (ae_id r) rest m, txns @ [completed r (read_txn ars (length txns) (add_beat r pr))])
                  else (omap_set (ae_id r) (add_beat r pr # rest) m, txns))"

definition add_reads :: "axi_event list \<Rightarrow> pending_read list \<Rightarrow> axi_transaction list \<Rightarrow> axi_transaction list" where
  "add_reads ars prs txns = foldl (\<lambda>ts pr. ts @ [read_txn ars (length ts) pr]) txns prs"

definition assemble_reads ::
  "(read_event list \<Rightarrow> read_event list) \<Rightarrow> axi_event list \<Rightarrow> axi_event list \<Rightarrow> axi_transaction list \<Rightarrow> axi_transaction list" where
  "assemble_reads sort_reads ars rs txns =
     (let (m, txns) = foldl (\<lambda>st re. read_step ars rs re st) ([], txns) (sort_reads (read_events ars rs))
      in add_reads ars (concat (map snd m)) txns)"

definition assemble_axi_transactions ::
  "(read_event list \<Rightarrow> read_event list) \<Rightarrow> axi_event list \<Rightarrow> axi_event list \<Rightarrow> axi_event list \<Rightarrow> axi_event list \<Rightarrow> axi_event list \<Rightarrow> axi_transaction list" where
  "assemble_axi_transactions sort_reads aws ws bs ars rs = assemble_reads sort_reads ars rs (assemble_writes aws ws bs)"

section \<open>The scan\<close>

definition reindex :: "axi_transaction list \<Rightarrow> axi_transaction list" where
  "reindex txns = map2 (\<lambda>i t. t\<lparr>tx_index := i\<rparr>) [0..<length txns] txns"

definition signal_not_found :: "string \<Rightarrow> string \<Rightarrow> json" where
  "signal_not_found name role =
     JObject [(''ok'', JBool False), (''error'', JObject [(''code'', JString ''CONFIG_SIGNAL_NOT_FOUND''),
        (''message'', JString (''AXI '' @ role @ '' signal not found: '' @ name))])]"

text \<open>Every signal is looked up; the error that is left is that of the last one missing.\<close>

fun find_signals :: "action_wave \<Rightarrow> (string \<times> string) list \<Rightarrow> json + signal_ref list" where
  "find_signals wave [] = Inr []"
| "find_signals wave ((name, role) # rest) =
     (let ref = wf_find_signal wave name
      in case find_signals wave rest of
           Inl e \<Rightarrow> Inl e
         | Inr refs \<Rightarrow> if ref = 0 then Inl (signal_not_found name role) else Inr (ref # refs))"

definition control_signals :: "axi_signal_map \<Rightarrow> (string \<times> string) list" where
  "control_signals c =
     [(ax_awvalid c, ''awvalid''), (ax_awready c, ''awready''), (ax_wvalid c, ''wvalid''), (ax_wready c, ''wready''),
      (ax_bvalid c, ''bvalid''), (ax_bready c, ''bready''), (ax_arvalid c, ''arvalid''), (ax_arready c, ''arready''),
      (ax_rvalid c, ''rvalid''), (ax_rready c, ''rready'')]"

fun pairs_of :: "'a list \<Rightarrow> ('a \<times> 'a) list" where
  "pairs_of (a # b # rest) = (a, b) # pairs_of rest"
| "pairs_of _ = []"

text \<open>\<open>std::stoull\<close>: \<open>None\<close> when it throws, because there is no digit or the number does not fit.\<close>

definition stoull :: "string \<Rightarrow> u64 option" where
  "stoull s =
     (let (neg, r) = strip_sign (dropWhile is_space s);
          ds = digits_prefix 10 r
      in if ds = [] \<or> int (num_of 10 ds) > 2 ^ 64 - 1 then None else Some (strtoull 10 s))"

definition axi_key_summary :: "axi_signal_map \<Rightarrow> string" where
  "axi_key_summary c = hex16 (stable_path_hash (ax_name c @ [CHR 0x0A] @ ax_aclk c @ [CHR 0x0A] @ ax_awaddr c @ [CHR 0x0A] @ ax_araddr c))"

definition axi_memory_error :: "axi_signal_map \<Rightarrow> u64 \<Rightarrow> json" where
  "axi_memory_error c hard_limit =
     JObject [(''ok'', JBool False), (''error'', JObject [
       (''code'', JString ''ANALYSIS_MEMORY_LIMIT_EXCEEDED''),
       (''message'', JString ''analysis cache build exceeds the configured hard memory limit''),
       (''recoverable'', JBool True), (''error_layer'', JString ''handler''),
       (''protocol'', JString ''axi''), (''hard_max_bytes'', JUnsigned (unat hard_limit)),
       (''current_estimated_bytes'', JInteger 0), (''key_summary'', JString (axi_key_summary c)),
       (''next_actions'', JArray [
          JString ''For stream analysis, explicitly retry with cache_scope=range or a smaller time_range.'',
          JString ''If range analysis still exceeds the limit, use x-npi for one-off offline analysis.''])])]"

definition axi_budget_error :: "(string \<Rightarrow> string option) \<Rightarrow> axi_signal_map \<Rightarrow> json option" where
  "axi_budget_error getenv c =
     (case getenv ''XDEBUG_ANALYSIS_CACHE_HARD_MAX_BYTES'' of
        None \<Rightarrow> None
      | Some raw \<Rightarrow>
          let hard_limit = (case stoull raw of None \<Rightarrow> 0 | Some v \<Rightarrow> v)
          in if hard_limit > 0 \<and> hard_limit < 1024 then Some (axi_memory_error c hard_limit) else None)"

definition scan_channels ::
  "(read_event list \<Rightarrow> read_event list) \<Rightarrow> action_wave \<Rightarrow> axi_signal_map \<Rightarrow> (signal_ref \<times> signal_ref) list \<Rightarrow> nat list \<Rightarrow> bool \<Rightarrow> axi_scan_result" where
  "scan_channels sort_reads wave c refs edges complete =
     (let channel = (\<lambda>i name. scan_channel_handshakes wave c (fst (refs ! i)) (snd (refs ! i)) name edges);
          (aw, complete) = channel 0 ''aw'' complete;
          (w, complete) = channel 1 ''w'' complete;
          (b, complete) = channel 2 ''b'' complete;
          (ar, complete) = channel 3 ''ar'' complete;
          (r, complete) = channel 4 ''r'' complete;
          aw = augment_aw_events wave c aw;
          w = augment_w_events wave c w;
          b = augment_b_events wave c b;
          ar = augment_ar_events wave c ar;
          r = augment_r_events wave c r
      in \<lparr>xs_aw = aw, xs_w = w, xs_b = b, xs_ar = ar, xs_r = r,
           xs_transactions = reindex (sort_key tx_start (assemble_axi_transactions sort_reads aw w b ar r)),
           xs_refs = refs, xs_complete = complete\<rparr>)"

definition scan_axi ::
  "(read_event list \<Rightarrow> read_event list) \<Rightarrow> (string \<Rightarrow> string option) \<Rightarrow> action_wave \<Rightarrow> axi_signal_map \<Rightarrow> u64 \<Rightarrow> u64 \<Rightarrow> json + axi_scan_result" where
  "scan_axi sort_reads getenv wave c lo hi =
     (case axi_budget_error getenv c of
        Some e \<Rightarrow> Inl e
      | None \<Rightarrow>
          rbind (find_signals wave (control_signals c)) (\<lambda>refs.
          rbind (find_signals wave [(ax_aclk c, ''clock''), (ax_aresetn c, ''reset'')]) (\<lambda>clock_reset.
            let (edges, complete) = active_edge_loop wave c (clock_reset ! 1) (selected_clock_edges wave c lo hi)
            in Inr (scan_channels sort_reads wave c (pairs_of refs) edges complete))))"

end
