(* ===== verification/Apb_Handlers.thy ===== *)
theory Apb_Handlers
  imports Apb_Scan
begin

unbundle bit_operations_syntax

text \<open>
  The request handlers of \<open>engine/actions/protocol/apb_actions.cpp\<close>: loading and listing configurations, querying and
  counting transfers, moving a cursor over them and showing a time window. The maps of configurations and cursors are
  the state; a handler returns its JSON response and the new state, or the exception that left it. The environment
  variables are a function, and texts outside ASCII are the bytes of their UTF-8 encoding.
\<close>

definition utf8 :: "int list \<Rightarrow> string" where
  "utf8 bs = map char_of bs"

section \<open>Responses\<close>

definition rich_error_response :: "string \<Rightarrow> string \<Rightarrow> members \<Rightarrow> json" where
  "rich_error_response code message details =
     JObject [(''ok'', JBool False),
       (''error'', JObject (merge_members [(''code'', JString code), (''message'', JString message),
          (''recoverable'', JBool True), (''error_layer'', JString ''handler'')] details))]"

definition action_example :: "string \<Rightarrow> json \<Rightarrow> json" where
  "action_example action args =
     JObject [(''api_version'', JString ''xdebug.v1''), (''action'', JString action),
       (''target'', JObject [(''session_id'', JString ''case_a'')]), (''args'', args)]"

definition apb_query_example :: json where
  "apb_query_example =
     action_example ''apb.query'' (JObject [(''name'', JString ''apb0''), (''direction'', JString ''all''),
       (''query'', JObject [(''line_limit'', JInteger 8)])])"

definition apb_config_load_example :: json where
  "apb_config_load_example =
     action_example ''apb.config.load'' (JObject [(''name'', JString ''apb0''),
       (''config'', JObject [(''clock'', JString ''top.u.clk''),
          (''reset'', JObject [(''signal'', JString ''top.u.rst_n''), (''polarity'', JString ''active_low'')]),
          (''paddr'', JString ''top.u.paddr''), (''psel'', JString ''top.u.psel''), (''penable'', JString ''top.u.penable''),
          (''pready'', JString ''top.u.pready''), (''pslverr'', JString ''top.u.pslverr''), (''pwrite'', JString ''top.u.pwrite''),
          (''pwdata'', JString ''top.u.pwdata''), (''prdata'', JString ''top.u.prdata'')])])"

definition apb_window_example :: json where
  "apb_window_example =
     action_example ''apb.transfer_window'' (JObject [(''name'', JString ''if0''),
       (''time_range'', JObject [(''begin'', JString ''0ns''), (''end'', JString ''100ns'')])])"

definition config_not_found_response :: "string \<Rightarrow> string \<Rightarrow> json" where
  "config_not_found_response action name =
     rich_error_response ''CONFIG_NOT_FOUND'' (''apb config not found: '' @ name)
       [(''invalid_arg'', JString ''args.name''), (''expected'', JString ''name of a previously loaded apb config''),
        (''missing_name'', JString name), (''missing_resource'', JString ''apb config''),
        (''correct_example'', if action = ''apb.query'' then apb_query_example
           else action_example action (JObject [(''name'', JString ''apb0'')])),
        (''example_note'', JString ''Example only; choose an existing config name or load this config before using it.''),
        (''next_actions'', JArray [JString ''Call apb.config.list to inspect loaded configs.'',
           JString ''Call apb.config.load before this action.''])]"

definition set_value_width_complete :: "members \<Rightarrow> members" where
  "set_value_width_complete summary =
     member_set (member_set summary ''value_width_complete'' (JBool True)) ''width_diagnostics'' (JArray [])"

definition completeness_summary :: "bool \<Rightarrow> bool \<Rightarrow> nat \<Rightarrow> nat \<Rightarrow> members" where
  "completeness_summary complete truncated total_count returned =
     [(''scan_complete'', JBool complete), (''analysis_complete'', JBool complete), (''response_truncated'', JBool truncated),
      (''total_count'', JUnsigned total_count), (''returned_count'', JUnsigned returned),
      (''truncation_scopes'', JArray ((if complete then [] else [JString ''analysis_transactions'']) @
         (if truncated then [JString ''response_transactions''] else [])))]"

definition recommended_actions :: json where
  "recommended_actions = JArray [
     JObject [(''action'', JString ''value.at''), (''purpose'', JString (utf8 [230, 140, 137, 228, 184, 128, 228, 184, 170, 230, 136, 150, 229, 164, 154, 228, 184, 170, 230, 140, 135, 229, 174, 154, 230,
       151, 182, 233, 151, 180, 232, 175, 187, 229, 143, 150, 229, 141, 149, 228, 191, 161, 229, 143, 183, 227, 128, 129, 229, 145, 189,
       229, 144, 141, 228, 191, 161, 229, 143, 183, 229, 136, 151, 232, 161, 168, 230, 136, 150, 230, 142, 165, 229, 143, 163, 233, 133,
       141, 231, 189, 174, 231, 187, 180, 230, 138, 164, 231, 154, 132, 229, 128, 188, 227, 128, 130]))],
     JObject [(''action'', JString ''apb.query''), (''purpose'', JString (utf8 [230, 140, 137, 230, 150, 185, 229, 144, 145, 228, 187, 165, 229, 143, 138] @ '' exact'' @ utf8 [227, 128, 129] @ ''range ''
       @ utf8 [230, 136, 150] @ '' mask '' @ utf8 [229, 156, 176, 229, 157, 128, 230, 157, 161, 228, 187, 182, 230, 159, 165, 232, 175,
       162, 229, 183, 178, 229, 174, 140, 230, 136, 144] @ '' APB transfer'' @ utf8 [227, 128, 130]))],
     JObject [(''action'', JString ''apb.transaction.cursor''), (''purpose'', JString (utf8 [229, 156, 168] @ '' APB transfer '' @ utf8 [233, 151, 180, 231, 167, 187, 229, 138, 168, 230, 184, 184, 230, 160, 135, 227,
       128, 130]))],
     JObject [(''action'', JString ''apb.statistics''), (''purpose'', JString (utf8 [230, 140, 137, 230, 150, 185, 229, 144, 145, 229, 146, 140, 229, 156, 176, 229, 157, 128, 232, 191, 135, 230, 187, 164, 231,
       187, 159, 232, 174, 161, 229, 183, 178, 229, 174, 140, 230, 136, 144] @ '' APB '' @ utf8 [228, 186, 139, 229, 138, 161, 227, 128,
       130]))],
     JObject [(''action'', JString ''apb.transfer_window''), (''purpose'', JString (utf8 [229, 174, 158, 233, 170, 140, 230, 128, 167] @ '' APB '' @ utf8 [231, 170, 151, 229, 143, 163, 229, 136, 134, 230, 158, 144,
       227, 128, 130]))]]"

section \<open>Budgets\<close>

fun budget_digits :: "string \<Rightarrow> string \<Rightarrow> u64 \<Rightarrow> string + u64" where
  "budget_digits name [] parsed = Inr parsed"
| "budget_digits name (c # cs) parsed =
     (if \<not> is_digit c then Inl (name @ '' must contain only unsigned decimal digits'')
      else
        let digit = word_of_nat (of_char c - 48)
        in if parsed > (- 1 - digit) div 10 then Inl (name @ '' exceeds uint64 range'')
           else budget_digits name cs (parsed * 10 + digit))"

definition parse_analysis_cache_budget :: "(string \<Rightarrow> string option) \<Rightarrow> string \<Rightarrow> u64 \<Rightarrow> bool \<Rightarrow> string + u64" where
  "parse_analysis_cache_budget getenv name default_value allow_zero =
     (case getenv name of
        None \<Rightarrow> Inr default_value
      | Some raw \<Rightarrow>
          if raw = [] then Inl (name @ '' must be a non-empty unsigned integer'')
          else rbind (budget_digits name raw 0) (\<lambda>parsed.
                 if \<not> allow_zero \<and> parsed = 0 then Inl (name @ '' must be positive'') else Inr parsed))"

definition apb_cache_key_summary :: "apb_config \<Rightarrow> string" where
  "apb_cache_key_summary c =
     hex16 (stable_path_hash (ac_name c @ [CHR 0x0A] @ ac_clock c @ [CHR 0x0A] @ ac_edge c @ [CHR 0x0A] @ ac_sample_point c @
       [CHR 0x0A] @ ac_reset c @ [CHR 0x0A] @ ac_paddr c @ [CHR 0x0A] @ ac_psel c @ [CHR 0x0A] @ ac_penable c @ [CHR 0x0A] @
       ac_pwrite c @ [CHR 0x0A] @ ac_pwdata c @ [CHR 0x0A] @ ac_prdata c @ [CHR 0x0A] @ ac_pready c @ [CHR 0x0A] @ ac_pslverr c))"

text \<open>\<open>sizeof(ApbTransaction)\<close> with 64-bit pointers: an integer, two flags, two strings of 32 bytes and two widths.\<close>

definition apb_transaction_bytes :: u64 where
  "apb_transaction_bytes = 88"

definition apb_analysis_budget_error :: "(string \<Rightarrow> string option) \<Rightarrow> apb_config \<Rightarrow> json option" where
  "apb_analysis_budget_error getenv c =
     (case rbind (parse_analysis_cache_budget getenv ''XDEBUG_ANALYSIS_CACHE_MAX_BYTES'' 1073741824 True) (\<lambda>soft.
           rbind (parse_analysis_cache_budget getenv ''XDEBUG_ANALYSIS_CACHE_HARD_MAX_BYTES'' 2147483648 False) (\<lambda>hard.
             Inr (soft, hard))) of
        Inl message \<Rightarrow> Some (rich_error_response ''INVALID_ENVIRONMENT'' message [(''recoverable'', JBool False)])
      | Inr (soft, hard) \<Rightarrow>
          if soft > hard then
            Some (rich_error_response ''INVALID_ENVIRONMENT''
              ''XDEBUG_ANALYSIS_CACHE_MAX_BYTES must not exceed XDEBUG_ANALYSIS_CACHE_HARD_MAX_BYTES'' [(''recoverable'', JBool False)])
          else if hard \<ge> apb_transaction_bytes then None
          else
            Some (rich_error_response ''ANALYSIS_MEMORY_LIMIT_EXCEEDED''
              ''analysis cache build exceeds the configured hard memory limit''
              [(''current_estimated_bytes'', JInteger 0), (''hard_max_bytes'', JUnsigned (unat hard)), (''protocol'', JString ''apb''),
               (''key_summary'', JString (apb_cache_key_summary c)),
               (''next_actions'', JArray [
                  JString ''For stream analysis, explicitly retry with cache_scope=range or a smaller time_range.'',
                  JString ''If range analysis still exceeds the limit, use x-npi for one-off offline analysis.''])]))"

section \<open>Configurations\<close>

definition config_json :: "apb_config \<Rightarrow> json" where
  "config_json c =
     (let ms = [(''name'', JString (ac_name c)), (''sampling_mode'', JString ''clock_edge''), (''clock'', JString (ac_clock c)),
         (''edge'', JString (ac_edge c)),
         (''reset'', JObject [(''signal'', JString (ac_reset c)), (''polarity'', JString (ac_reset_polarity c))]),
         (''paddr'', JString (ac_paddr c)), (''psel'', JString (ac_psel c)), (''penable'', JString (ac_penable c)),
         (''pwrite'', JString (ac_pwrite c)), (''pwdata'', JString (ac_pwdata c)), (''prdata'', JString (ac_prdata c))];
          ms = (if ac_sample_point c \<noteq> [] then member_set ms ''sample_point'' (JString (ac_sample_point c)) else ms);
          ms = (if ac_pready c \<noteq> [] then member_set ms ''pready'' (JString (ac_pready c)) else ms);
          ms = (if ac_pslverr c \<noteq> [] then member_set ms ''pslverr'' (JString (ac_pslverr c)) else ms)
      in JObject ms)"

definition string_at_key :: "json \<Rightarrow> string \<Rightarrow> string handled" where
  "string_at_key v k = rbind (json_at v k) get_string"

text \<open>The outer result is an exception, the inner one a message.\<close>

definition parse_config :: "string \<Rightarrow> json \<Rightarrow> (string + apb_config) handled" where
  "parse_config name source =
     rbind (string_at_key source ''clock'') (\<lambda>clock.
     rbind (json_value source ''edge'' ''negedge'' get_string) (\<lambda>edge.
     rbind (json_value source ''sample_point'' [] get_string) (\<lambda>sample_point.
     rbind (string_at_key source ''paddr'') (\<lambda>paddr.
     rbind (string_at_key source ''psel'') (\<lambda>psel.
     rbind (string_at_key source ''penable'') (\<lambda>penable.
     rbind (string_at_key source ''pwrite'') (\<lambda>pwrite.
     rbind (string_at_key source ''pwdata'') (\<lambda>pwdata.
     rbind (string_at_key source ''prdata'') (\<lambda>prdata.
     rbind (json_value source ''pready'' [] get_string) (\<lambda>pready.
     rbind (json_value source ''pslverr'' [] get_string) (\<lambda>pslverr.
     rbind (rbind (json_at source ''reset'') (\<lambda>r. string_at_key r ''signal'')) (\<lambda>reset.
     rbind (rbind (json_at source ''reset'') (\<lambda>r. string_at_key r ''polarity'')) (\<lambda>polarity.
       if edge = ''negedge'' \<and> sample_point \<noteq> [] then
         Inr (Inl ''APB config sample_point is only valid with edge:posedge or edge:dual'')
       else
         Inr (Inr \<lparr>ac_name = name, ac_clock = clock, ac_edge = edge,
           ac_sample_point = (if edge \<noteq> ''negedge'' \<and> sample_point = [] then ''before'' else sample_point),
           ac_reset = reset, ac_reset_polarity = polarity, ac_paddr = paddr, ac_psel = psel, ac_penable = penable,
           ac_pwrite = pwrite, ac_pwdata = pwdata, ac_prdata = prdata, ac_pready = pready, ac_pslverr = pslverr\<rparr>))))))))))))))"

record apb_state =
  ap_configs :: "(string, apb_config) omap"
  ap_cursors :: "(string, nat) omap"

definition find_config :: "apb_state \<Rightarrow> string \<Rightarrow> apb_config option" where
  "find_config st name = omap_find name (ap_configs st)"

definition apb_value_source_entries :: "apb_state \<Rightarrow> string \<Rightarrow> (string \<times> string) list option" where
  "apb_value_source_entries st name =
     map_option (\<lambda>c. [(''clock'', ac_clock c), (''reset'', ac_reset c), (''paddr'', ac_paddr c), (''psel'', ac_psel c),
         (''penable'', ac_penable c), (''pwrite'', ac_pwrite c), (''pwdata'', ac_pwdata c), (''prdata'', ac_prdata c)] @
         (if ac_pready c \<noteq> [] then [(''pready'', ac_pready c)] else []) @
         (if ac_pslverr c \<noteq> [] then [(''pslverr'', ac_pslverr c)] else []))
       (find_config st name)"

section \<open>The parts the handlers share\<close>

definition transaction_json ::
  "apb_transaction \<Rightarrow> action_wave \<Rightarrow> time_render_unit \<Rightarrow> value_render_format \<Rightarrow> bool \<Rightarrow> json" where
  "transaction_json txn wave unit format window =
     JObject [(''time'', JString (aw_format_time wave (at_time txn) unit)),
       (''addr'', JString (render_logic_value (logic_value_from_bits (at_addr txn) (uint (at_addr_width txn))) format)),
       (''data'', JString (render_logic_value (logic_value_from_bits (at_data txn) (uint (at_data_width txn))) format)),
       (''has_error'', JBool (at_has_error txn)),
       (if window then (''type'', JString (if at_is_write txn then ''WR'' else ''RD'')) else (''is_write'', JBool (at_is_write txn)))]"

definition parse_render :: "json \<Rightarrow> (json + time_render_unit \<times> value_render_format) handled" where
  "parse_render args =
     rbind (json_value args ''render_time_unit'' ''ns'' get_string) (\<lambda>u.
       case parse_time_render_unit u of
         Inl message \<Rightarrow> Inr (Inl (error_response ''INVALID_TIME_UNIT'' message))
       | Inr unit \<Rightarrow>
           rbind (json_value args ''value_format'' ''hex'' get_string) (\<lambda>f.
             case parse_value_render_format f of
               None \<Rightarrow> Inr (Inl (error_response ''INVALID_FIELD'' ''invalid value_format''))
             | Some format \<Rightarrow> Inr (Inr (unit, format))))"

definition require_config_and_scan ::
  "(string \<Rightarrow> string option) \<Rightarrow> action_wave \<Rightarrow> apb_state \<Rightarrow> string \<Rightarrow> string \<Rightarrow> json + apb_config \<times> apb_scan" where
  "require_config_and_scan getenv wave st name action =
     (case find_config st name of
        None \<Rightarrow> Inl (config_not_found_response action name)
      | Some c \<Rightarrow>
          (case apb_analysis_budget_error getenv c of
             Some e \<Rightarrow> Inl e
           | None \<Rightarrow> rbind (scan_transactions wave c) (\<lambda>scan. Inr (c, scan))))"

text \<open>The transfers of a direction whose address passes the filter.\<close>

fun matching :: "string \<Rightarrow> json \<Rightarrow> apb_transaction list \<Rightarrow> apb_transaction list handled" where
  "matching direction address [] = Inr []"
| "matching direction address (t # ts) =
     (if direction_matches t direction then
        rbind (address_matches t address) (\<lambda>m.
        rbind (matching direction address ts) (\<lambda>rest. Inr (if m = FYes then t # rest else rest)))
      else matching direction address ts)"

definition filter_json :: "string \<Rightarrow> json \<Rightarrow> json" where
  "filter_json direction address =
     JObject ([(''direction'', JString direction)] @ (if json_is_null address then [] else [(''address'', address)]))"

definition ok_response :: "members \<Rightarrow> members \<Rightarrow> json" where
  "ok_response summary data = JObject [(''ok'', JBool True), (''summary'', JObject summary), (''data'', JObject data)]"

section \<open>The handlers\<close>

definition apb_config_list :: "apb_state \<Rightarrow> json \<Rightarrow> json handled" where
  "apb_config_list st req =
     rbind (json_at req ''args'') (\<lambda>args.
       if json_contains args ''name'' then
         rbind (string_at_key args ''name'') (\<lambda>name.
           case find_config st name of
             None \<Rightarrow> Inr (config_not_found_response ''apb.config.list'' name)
           | Some c \<Rightarrow>
               Inr (ok_response [(''name'', JString name), (''status'', JString ''found'')] [(''config'', config_json c)]))
       else
         Inr (ok_response [(''count'', JUnsigned (length (ap_configs st)))]
           [(''configs'', JArray (map (\<lambda>(n, c). config_json c) (ap_configs st)))]))"

datatype config_file = Unreadable | Bad_Json string | Parsed json

definition config_source :: "(string \<Rightarrow> config_file) \<Rightarrow> json \<Rightarrow> (json + json) handled" where
  "config_source read_json args =
     (if json_contains args ''config'' then rbind (json_at args ''config'') (\<lambda>v. Inr (Inr v))
      else rbind (string_at_key args ''config_path'') (\<lambda>path.
             case read_json path of
               Unreadable \<Rightarrow> Inr (Inl (error_response ''INVALID_FIELD'' ''cannot read APB config_path''))
             | Bad_Json what \<Rightarrow> Inr (Inl (error_response ''INVALID_FIELD'' (''invalid APB config JSON: '' @ what)))
             | Parsed v \<Rightarrow> Inr (Inr v)))"

definition forget_cursors :: "string \<Rightarrow> (string, nat) omap \<Rightarrow> (string, nat) omap" where
  "forget_cursors name cursors =
     omap_erase (name @ '':write'') (omap_erase (name @ '':read'') (omap_erase (name @ '':all'') cursors))"

definition store_config :: "action_wave \<Rightarrow> apb_state \<Rightarrow> apb_config \<Rightarrow> json \<times> apb_state" where
  "store_config wave st c =
     (case load_ref wave (ac_reset c) ''reset'' of
        Inl e \<Rightarrow> (e, st)
      | Inr (ref, info) \<Rightarrow>
          if si_width info \<noteq> 1 then (error_response ''INVALID_FIELD'' ''APB reset signal must resolve to one bit'', st)
          else
            (ok_response [(''name'', JString (ac_name c)), (''status'', JString ''loaded'')]
               [(''config'', config_json c), (''recommended_actions'', recommended_actions)],
             st\<lparr>ap_configs := omap_set (ac_name c) c (ap_configs st), ap_cursors := forget_cursors (ac_name c) (ap_cursors st)\<rparr>))"

definition apb_config_load ::
  "(string \<Rightarrow> config_file) \<Rightarrow> action_wave \<Rightarrow> apb_state \<Rightarrow> json \<Rightarrow> (json \<times> apb_state) handled" where
  "apb_config_load read_json wave st req =
     rbind (json_at req ''args'') (\<lambda>args.
     rbind (config_source read_json args) (\<lambda>source.
       case source of
         Inl e \<Rightarrow> Inr (e, st)
       | Inr source \<Rightarrow>
           rbind (string_at_key args ''name'') (\<lambda>name.
           rbind (parse_config name source) (\<lambda>parsed.
             case parsed of
               Inl message \<Rightarrow>
                 Inr (rich_error_response ''INVALID_ARGUMENT'' message
                   [(''invalid_arg'', JString ''args.config''),
                    (''expected'', JString ''strict APB config with only canonical fields and non-empty signal paths''),
                    (''correct_example'', apb_config_load_example),
                    (''example_note'', JString ''Example only; replace placeholders with active signal paths, names, and time values.'')], st)
             | Inr c \<Rightarrow> Inr (store_config wave st c)))))"

text \<open>The three answers of a query: one transfer, a page of transfers, or their number.\<close>

definition query_one ::
  "action_wave \<Rightarrow> time_render_unit \<Rightarrow> value_render_format \<Rightarrow> apb_scan \<Rightarrow> apb_transaction list \<Rightarrow> bool \<Rightarrow> int \<Rightarrow> json \<Rightarrow> members \<Rightarrow> members \<Rightarrow> json" where
  "query_one wave unit format scan ms is_last index address summary data =
     (let offset = (if is_last then (if ms = [] then 0 else length ms - 1) else nat (index - 1));
          found = (ms \<noteq> [] \<and> offset < length ms);
          summary = member_set (member_set summary ''query_mode'' (JString (if is_last then ''last'' else ''index''))) ''found'' (JBool found);
          data = (if found then member_set data ''transaction'' (transaction_json (ms ! offset) wave unit format False) else data);
          summary = merge_members summary (completeness_summary (as_complete scan) False (length ms) (if found then 1 else 0));
          summary = (if found \<or> \<not> json_is_null address then set_value_width_complete summary else summary)
      in ok_response summary data)"

definition query_page ::
  "action_wave \<Rightarrow> time_render_unit \<Rightarrow> value_render_format \<Rightarrow> apb_scan \<Rightarrow> apb_transaction list \<Rightarrow> int \<Rightarrow> int \<Rightarrow> json \<Rightarrow> members \<Rightarrow> members \<Rightarrow> json" where
  "query_page wave unit format scan ms index line_limit address summary data =
     (let start = (if index > 0 then nat (index - 1) else 0);
          page = map (\<lambda>t. transaction_json t wave unit format False) (take (nat line_limit) (drop start ms));
          summary = member_set summary ''query_mode'' (JString ''list'');
          truncated = (start + length page < length ms);
          summary = merge_members summary (completeness_summary (as_complete scan) truncated (length ms) (length page));
          summary = (if page \<noteq> [] \<or> \<not> json_is_null address then set_value_width_complete summary else summary)
      in ok_response summary (member_set data ''transactions'' (JArray page)))"

definition query_count :: "apb_scan \<Rightarrow> apb_transaction list \<Rightarrow> members \<Rightarrow> members \<Rightarrow> json" where
  "query_count scan ms summary data =
     ok_response (merge_members (member_set summary ''query_mode'' (JString ''count''))
       (completeness_summary (as_complete scan) False (length ms) 0)) data"

definition query_response ::
  "action_wave \<Rightarrow> time_render_unit \<Rightarrow> value_render_format \<Rightarrow> apb_scan \<Rightarrow> apb_transaction list \<Rightarrow> string \<Rightarrow> string \<Rightarrow> json \<Rightarrow> int \<Rightarrow> int \<Rightarrow> bool \<Rightarrow> json" where
  "query_response wave unit format scan ms name direction address index line_limit is_last =
     (let summary = [(''name'', JString name), (''direction'', JString direction)];
          data = [(''filter'', filter_json direction address)]
      in if is_last \<or> index > 0 \<and> line_limit < 0 then query_one wave unit format scan ms is_last index address summary data
         else if line_limit > 0 then query_page wave unit format scan ms index line_limit address summary data
         else query_count scan ms summary data)"

definition apb_query :: "(string \<Rightarrow> string option) \<Rightarrow> action_wave \<Rightarrow> apb_state \<Rightarrow> json \<Rightarrow> json handled" where
  "apb_query getenv wave st req =
     rbind (json_at req ''args'') (\<lambda>args.
     rbind (string_at_key args ''name'') (\<lambda>name.
       case require_config_and_scan getenv wave st name ''apb.query'' of
         Inl e \<Rightarrow> Inr e
       | Inr (c, scan) \<Rightarrow>
           rbind (parse_render args) (\<lambda>render.
             case render of
               Inl e \<Rightarrow> Inr e
             | Inr (unit, format) \<Rightarrow>
                 rbind (json_value args ''direction'' ''all'' get_string) (\<lambda>direction.
                 rbind (json_value args ''address'' JNull Inr) (\<lambda>address.
                 rbind (matching direction address (as_transactions scan)) (\<lambda>ms.
                 rbind (json_value args ''query'' (JObject []) Inr) (\<lambda>query.
                 rbind (json_value query ''index'' (- 1) get_u32) (\<lambda>index.
                 rbind (json_value query ''line_limit'' (- 1) get_u32) (\<lambda>line_limit.
                 rbind (json_value args ''last'' False get_bool) (\<lambda>is_last.
                   Inr (query_response wave unit format scan ms name direction address (sint index) (sint line_limit) is_last)))))))))))"

text \<open>Reads, writes and transfers whose address cannot be compared.\<close>

fun count_matches :: "string \<Rightarrow> json \<Rightarrow> apb_transaction list \<Rightarrow> nat \<times> nat \<times> nat \<Rightarrow> (nat \<times> nat \<times> nat) handled" where
  "count_matches direction address [] counts = Inr counts"
| "count_matches direction address (t # ts) (reads, writes, unresolved) =
     (if \<not> direction_matches t direction then count_matches direction address ts (reads, writes, unresolved)
      else rbind (address_matches t address) (\<lambda>m.
        count_matches direction address ts
          (if m = FUnresolved then (reads, writes, unresolved + 1)
           else if m = FYes then (if at_is_write t then (reads, writes + 1, unresolved) else (reads + 1, writes, unresolved))
           else (reads, writes, unresolved))))"

definition unresolved_note :: string where
  "unresolved_note = utf8 [229, 155, 160, 232, 162, 171, 229, 188, 149, 231, 148, 168, 231, 154, 132] @ '' address/ID '' @ utf8 [229, 144, 171] @ '' X/Z '' @ utf8 [230, 136, 150, 228, 184, 141, 229, 143, 175, 232, 167, 163, 230, 158, 144, 239, 188, 140, 229, 175, 188, 232, 135,
       180, 230, 151, 160, 230, 179, 149, 229, 136, 164, 230, 150, 173, 230, 152, 175, 229, 144, 166, 229, 140, 185, 233, 133, 141, 232,
       191, 135, 230, 187, 164, 230, 157, 161, 228, 187, 182, 231, 154, 132, 229, 183, 178, 229, 174, 140, 230, 136, 144, 228, 186, 139,
       229, 138, 161, 230, 149, 176, 227, 128, 130]"

definition statistics_response ::
  "string \<Rightarrow> apb_scan \<Rightarrow> json \<Rightarrow> string \<Rightarrow> json \<Rightarrow> nat \<Rightarrow> nat \<Rightarrow> nat \<Rightarrow> json" where
  "statistics_response name scan input_filter direction address reads writes unresolved =
     (let matched = reads + writes;
          complete = (as_complete scan \<and> unresolved = 0);
          summary = [(''name'', JString name), (''scanned_transaction_count'', JUnsigned (length (as_transactions scan))),
            (''matched_transaction_count'', JUnsigned matched), (''matched_read_count'', JUnsigned reads),
            (''matched_write_count'', JUnsigned writes), (''unresolved_transaction_count'', JUnsigned unresolved),
            (''filter_applied'', JBool (\<not> json_empty input_filter)),
            (''analysis_quality'', JString (if complete then ''complete'' else ''ambiguous'')), (''full_scan_count'', JInteger 1)];
          summary = merge_members summary (completeness_summary (as_complete scan) False matched matched);
          summary = (if json_is_null address then summary else set_value_width_complete summary)
      in ok_response summary [(''filter'', filter_json direction address),
           (''notes'', JObject [(''unresolved_transaction_count'', JString unresolved_note)])])"

definition apb_statistics :: "(string \<Rightarrow> string option) \<Rightarrow> action_wave \<Rightarrow> apb_state \<Rightarrow> json \<Rightarrow> json handled" where
  "apb_statistics getenv wave st req =
     rbind (json_at req ''args'') (\<lambda>args.
     rbind (string_at_key args ''name'') (\<lambda>name.
       case require_config_and_scan getenv wave st name ''apb.statistics'' of
         Inl e \<Rightarrow> Inr e
       | Inr (c, scan) \<Rightarrow>
           rbind (json_value args ''filter'' (JObject []) Inr) (\<lambda>input_filter.
           rbind (json_value input_filter ''direction'' ''all'' get_string) (\<lambda>direction.
           rbind (json_value input_filter ''address'' JNull Inr) (\<lambda>address.
           rbind (count_matches direction address (as_transactions scan) (0, 0, as_unresolved scan)) (\<lambda>(reads, writes, unresolved).
             Inr (statistics_response name scan input_filter direction address reads writes unresolved)))))))"

text \<open>A move of the cursor over a number of transfers: whether there is one to show, and the new position.\<close>

definition move_cursor :: "string \<Rightarrow> nat \<Rightarrow> nat \<Rightarrow> bool \<times> nat" where
  "move_cursor op n position =
     (if n = 0 then (False, position)
      else if op = ''begin'' then (True, 0)
      else if op = ''last'' then (True, n - 1)
      else if op = ''next'' then (if position + 1 < n then (True, position + 1) else (False, position))
      else (if position > 0 then (True, position - 1) else (False, position)))"

definition cursor_position :: "apb_state \<Rightarrow> string \<Rightarrow> nat" where
  "cursor_position st key = (case omap_find key (ap_cursors st) of None \<Rightarrow> 0 | Some p \<Rightarrow> p)"

definition cursor_summary :: "string \<Rightarrow> string \<Rightarrow> string \<Rightarrow> apb_scan \<Rightarrow> nat \<Rightarrow> bool \<Rightarrow> nat \<Rightarrow> members" where
  "cursor_summary name op direction scan n found position =
     (let summary = [(''name'', JString name), (''op'', JString op), (''direction'', JString direction), (''found'', JBool found),
          (''index'', if found then JUnsigned (position + 1) else JNull), (''index_base'', JInteger 1),
          (''at_begin'', JBool (found \<and> position = 0)), (''at_end'', JBool (found \<and> position + 1 = n))];
          summary = merge_members summary (completeness_summary (as_complete scan) False n (if found then 1 else 0))
      in if found then set_value_width_complete summary else summary)"

text \<open>The transfer shown must exist: \<open>matches[position]\<close> beyond the end is undefined, here \<open>None\<close>. (A request without
  an operation leaves an entry of 0 in the map of cursors before it throws, which reads as no entry.)\<close>

definition apb_transaction_cursor ::
  "(string \<Rightarrow> string option) \<Rightarrow> action_wave \<Rightarrow> apb_state \<Rightarrow> json \<Rightarrow> (json option \<times> apb_state) handled" where
  "apb_transaction_cursor getenv wave st req =
     rbind (json_at req ''args'') (\<lambda>args.
     rbind (string_at_key args ''name'') (\<lambda>name.
       case require_config_and_scan getenv wave st name ''apb.transaction.cursor'' of
         Inl e \<Rightarrow> Inr (Some e, st)
       | Inr (c, scan) \<Rightarrow>
           rbind (parse_render args) (\<lambda>render.
             case render of
               Inl e \<Rightarrow> Inr (Some e, st)
             | Inr (unit, format) \<Rightarrow>
                 rbind (json_value args ''direction'' ''all'' get_string) (\<lambda>direction.
                 rbind (string_at_key args ''op'') (\<lambda>op.
                   let ms = filter (\<lambda>t. direction_matches t direction) (as_transactions scan);
                       key = name @ '':'' @ direction;
                       (found, position) = move_cursor op (length ms) (cursor_position st key);
                       st = st\<lparr>ap_cursors := omap_set key position (ap_cursors st)\<rparr>;
                       summary = cursor_summary name op direction scan (length ms) found position
                   in Inr (if \<not> found then Some (ok_response summary [])
                           else if position < length ms
                           then Some (ok_response summary [(''transaction'', transaction_json (ms ! position) wave unit format False)])
                           else None, st))))))"

definition time_bound :: "action_wave \<Rightarrow> json \<Rightarrow> string \<Rightarrow> bool \<Rightarrow> u64 \<Rightarrow> (json + u64) handled" where
  "time_bound wave range_json key allow_max d =
     (if json_contains range_json key then
        rbind (string_at_key range_json key) (\<lambda>t.
          case aw_parse_time wave t allow_max of
            Inl message \<Rightarrow> Inr (Inl (error_response ''INVALID_TIME'' message))
          | Inr v \<Rightarrow> Inr (Inr v))
      else Inr (Inr d))"

definition in_window :: "u64 \<Rightarrow> u64 \<Rightarrow> apb_transaction list \<Rightarrow> apb_transaction list" where
  "in_window lo hi ts = filter (\<lambda>t. \<not> (at_time t < lo \<or> at_time t > hi)) ts"

definition window_response ::
  "action_wave \<Rightarrow> time_render_unit \<Rightarrow> value_render_format \<Rightarrow> string \<Rightarrow> apb_scan \<Rightarrow> u64 \<Rightarrow> u64 \<Rightarrow> nat \<Rightarrow> json" where
  "window_response wave unit format name scan lo hi limit =
     (let ts = in_window lo hi (as_transactions scan);
          shown = map (\<lambda>t. transaction_json t wave unit format True) (take limit ts);
          truncated = (length shown < length ts);
          summary = [(''name'', JString name), (''begin'', JString (aw_format_time wave lo unit)), (''end'', JString (aw_format_time wave hi unit))];
          summary = merge_members summary (completeness_summary (as_complete scan) truncated (length ts) (length shown));
          summary = (if shown \<noteq> [] then set_value_width_complete summary else summary)
      in ok_response summary [(''transactions'', JArray shown)])"

definition apb_transfer_window :: "(string \<Rightarrow> string option) \<Rightarrow> action_wave \<Rightarrow> apb_state \<Rightarrow> json \<Rightarrow> json handled" where
  "apb_transfer_window getenv wave st req =
     rbind (json_at req ''args'') (\<lambda>args.
     rbind (string_at_key args ''name'') (\<lambda>name.
       case require_config_and_scan getenv wave st name ''apb.transfer_window'' of
         Inl e \<Rightarrow> Inr e
       | Inr (c, scan) \<Rightarrow>
           rbind (parse_render args) (\<lambda>render.
             case render of
               Inl e \<Rightarrow> Inr e
             | Inr (unit, format) \<Rightarrow>
                 rbind (json_value args ''time_range'' (JObject []) Inr) (\<lambda>range_json.
                 rbind (time_bound wave range_json ''begin'' False (aw_min_time wave)) (\<lambda>lo.
                   case lo of
                     Inl e \<Rightarrow> Inr e
                   | Inr lo \<Rightarrow>
                       rbind (time_bound wave range_json ''end'' True (aw_max_time wave)) (\<lambda>hi.
                         case hi of
                           Inl e \<Rightarrow> Inr e
                         | Inr hi \<Rightarrow>
                             if lo > hi then
                               Inr (rich_error_response ''TIME_RANGE_INVALID'' ''args.time_range.end is before args.time_range.begin''
                                 [(''invalid_arg'', JString ''args.time_range.end''),
                                  (''expected'', JString ''time_range.end must be greater than or equal to time_range.begin''),
                                  (''correct_example'', apb_window_example)])
                             else
                               rbind (json_value args ''line_limit'' 1000 get_u32) (\<lambda>limit.
                                 Inr (window_response wave unit format name scan lo hi (unat limit)))))))))"

end
