(* ===== verification/Transfer_Cursors.thy ===== *)
theory Transfer_Cursors
  imports Apb_Handlers
begin

text \<open>
  The cursors that the protocol actions keep by the name of a configuration and a direction. The locale
  \<open>transfer_counts\<close> is what the cursors rely on: how many transfers a configuration shows in a direction, with nothing in a
  direction that is not one of the three. Moving a cursor and forgetting those of a configuration keep every cursor
  within the transfers it runs over.
\<close>

definition directions_known :: "string list" where
  "directions_known = [''all'', ''read'', ''write'']"

lemma cursor_key_inj:
  assumes "n @ '':'' @ d = m @ '':'' @ e" "d \<in> set directions_known" "e \<in> set directions_known"
  shows "n = m \<and> d = e"
proof -
  have "rev d @ CHR '':'' # rev n = rev e @ CHR '':'' # rev m" using arg_cong [OF assms(1), of rev] by simp
  moreover have "CHR '':'' \<notin> set (rev d)" "CHR '':'' \<notin> set (rev e)" using assms(2,3) by (auto simp: directions_known_def)
  ultimately have "rev d = rev e \<and> rev n = rev m" by (simp add: append_separated)
  then show ?thesis by simp
qed

lemma move_cursor_range:
  assumes "position = 0 \<or> position < n" "move_cursor op n position = (found, q)"
  shows "(q = 0 \<or> q < n) \<and> (found \<longrightarrow> q < n) \<and> (n = 0 \<longrightarrow> q = position)"
  using assms by (auto simp: move_cursor_def split: if_splits)

text \<open>A cursor that is not at the start points to a transfer.\<close>

definition cursors_in_range :: "(string \<Rightarrow> string \<Rightarrow> nat option) \<Rightarrow> (string, nat) omap \<Rightarrow> bool" where
  "cursors_in_range count m \<longleftrightarrow> omap_ok m \<and>
     (\<forall>name. \<forall>d \<in> set directions_known. \<forall>p. omap_find (name @ '':'' @ d) m = Some p \<longrightarrow> p = 0 \<or> (\<exists>n. count name d = Some n \<and> p < n))"

definition position_in :: "(string, nat) omap \<Rightarrow> string \<Rightarrow> nat" where
  "position_in m key = (case omap_find key m of None \<Rightarrow> 0 | Some p \<Rightarrow> p)"

lemma cursors_in_rangeD:
  "cursors_in_range count m \<Longrightarrow> d \<in> set directions_known \<Longrightarrow> omap_find (name @ '':'' @ d) m = Some p \<Longrightarrow>
     p = 0 \<or> (\<exists>n. count name d = Some n \<and> p < n)"
  unfolding cursors_in_range_def by blast

lemma forget_cursors_find:
  assumes "omap_ok cs"
  shows "omap_ok (forget_cursors name cs) \<and>
    omap_find k (forget_cursors name cs) = (if k \<in> (\<lambda>d. name @ '':'' @ d) ` set directions_known then None else omap_find k cs)"
  using assms by (auto simp: forget_cursors_def omap_laws directions_known_def)

locale transfer_counts =
  fixes count :: "'s \<Rightarrow> string \<Rightarrow> string \<Rightarrow> nat option"
  assumes count_known: "count s name d = Some n \<Longrightarrow> n \<noteq> 0 \<Longrightarrow> d \<in> set directions_known"
begin

lemma forgotten:
  assumes inv: "cursors_in_range (count s) m" and same: "\<And>n d. n \<noteq> name \<Longrightarrow> count s' n d = count s n d"
  shows "cursors_in_range (count s') (forget_cursors name m)"
proof -
  have ok: "omap_ok m" using inv by (simp add: cursors_in_range_def)
  have "p = 0 \<or> (\<exists>k. count s' n d = Some k \<and> p < k)"
    if d: "d \<in> set directions_known" and f: "omap_find (n @ '':'' @ d) (forget_cursors name m) = Some p" for n d p
  proof -
    have "n \<noteq> name" and old: "omap_find (n @ '':'' @ d) m = Some p"
      using f forget_cursors_find [OF ok, where k = "n @ '':'' @ d" and name = name] d by (auto split: if_splits)
    then show ?thesis using cursors_in_rangeD [OF inv d old] same by simp
  qed
  then show ?thesis using forget_cursors_find [OF ok] by (simp add: cursors_in_range_def)
qed

lemma moved:
  assumes inv: "cursors_in_range (count s) m" and n: "count s name d = Some n"
    and move: "move_cursor op n (position_in m (name @ '':'' @ d)) = (found, q)"
  shows "(found \<longrightarrow> q < n) \<and> cursors_in_range (count s) (omap_set (name @ '':'' @ d) q m)"
proof -
  let ?key = "name @ '':'' @ d"
  have ok: "omap_ok m" using inv by (simp add: cursors_in_range_def)
  have bounds: "(q = 0 \<or> q < n) \<and> (found \<longrightarrow> q < n)" if nz: "n \<noteq> 0"
  proof -
    have "p = 0 \<or> p < n" if "omap_find ?key m = Some p" for p
      using cursors_in_rangeD [OF inv count_known [OF n nz] that] n by simp
    then have "position_in m ?key = 0 \<or> position_in m ?key < n" by (simp add: position_in_def split: option.split)
    then show ?thesis using move_cursor_range [OF _ move] by simp
  qed
  have none: "\<not> found \<and> q = position_in m ?key" if "n = 0" using move that by (simp add: move_cursor_def)
  have "p = 0 \<or> (\<exists>k. count s l e = Some k \<and> p < k)"
    if e: "e \<in> set directions_known" and f: "omap_find (l @ '':'' @ e) (omap_set ?key q m) = Some p" for l e p
  proof (cases "l @ '':'' @ e = ?key")
    case False
    then have "omap_find (l @ '':'' @ e) m = Some p" using f ok by (simp add: omap_laws)
    then show ?thesis by (rule cursors_in_rangeD [OF inv e])
  next
    case True
    then have p: "p = q" using f ok by (simp add: omap_laws)
    show ?thesis
    proof (cases "n = 0")
      case True
      have "omap_find (l @ '':'' @ e) m = Some p \<or> p = 0"
        using none [OF True] p \<open>l @ '':'' @ e = ?key\<close> by (auto simp: position_in_def split: option.splits)
      then show ?thesis using cursors_in_rangeD [OF inv e, of l p] by blast
    next
      case False
      then have "l = name \<and> e = d" using cursor_key_inj [OF True e count_known [OF n]] by simp
      then show ?thesis using bounds [OF False] p n by auto
    qed
  qed
  then have "cursors_in_range (count s) (omap_set ?key q m)" using ok by (simp add: cursors_in_range_def omap_laws)
  moreover have "found \<longrightarrow> q < n" using bounds none by (cases "n = 0") auto
  ultimately show ?thesis by blast
qed

end

end
