(* ===== verification/Apb_Properties.thy ===== *)
theory Apb_Properties
  imports Transfer_Cursors
begin

unbundle bit_operations_syntax

text \<open>
  The APB actions: the scan is the list of transfers that the events at the selected clock edges show, the filters
  compare numbers, counting and querying agree, pages cover the matches, a cursor stays in range, and a
  configuration survives being listed and loaded again.
\<close>

section \<open>The scan\<close>

definition apb_edges :: "action_wave \<Rightarrow> apb_config \<Rightarrow> apb_refs \<Rightarrow> nat list" where
  "apb_edges wave c refs = filter (edge_at wave c (ar_clock refs)) (remdups_adj (wf_time_indices_of wave (ar_clock refs)))"

text \<open>The transfers shown by a sequence of events, given the event before it.\<close>

fun repeats :: "apb_event \<Rightarrow> apb_transaction \<Rightarrow> bool" where
  "repeats (Transfer p) t = same_transfer p t"
| "repeats _ t = False"

fun transfers :: "apb_event \<Rightarrow> apb_event list \<Rightarrow> apb_transaction list" where
  "transfers prev [] = []"
| "transfers prev (Transfer t # evs) = (if repeats prev t then transfers (Transfer t) evs else t # transfers (Transfer t) evs)"
| "transfers prev (ev # evs) = transfers ev evs"

lemma same_transfer_trans: "same_transfer a b \<Longrightarrow> same_transfer a c = same_transfer b c"
  by (auto simp: same_transfer_def)

text \<open>The state of the scan after a sequence of edges whose last event was \<open>prev\<close>.\<close>

definition scan_inv :: "apb_event \<Rightarrow> scan_state \<Rightarrow> bool" where
  "scan_inv prev st \<longleftrightarrow>
     (case prev of
        Transfer p \<Rightarrow> (\<exists>l. ss_last_accept st = Some l \<and> l + 1 = ss_ordinal st) \<and> as_transactions (ss_result st) \<noteq> [] \<and>
          same_transfer (last (as_transactions (ss_result st))) p
      | _ \<Rightarrow> (\<forall>l. ss_last_accept st = Some l \<longrightarrow> l + 1 < ss_ordinal st \<or> l + 1 > ss_ordinal st)) \<and>
     (\<forall>l. ss_last_accept st = Some l \<longrightarrow> l < ss_ordinal st) \<and>
     (as_complete (ss_result st) \<longleftrightarrow> as_unresolved (ss_result st) = 0)"

lemma edge_step_inv:
  assumes "scan_inv prev st"
  shows "scan_inv ev (edge_step ev st) \<and>
    as_transactions (ss_result (edge_step ev st)) = as_transactions (ss_result st) @ transfers prev [ev] \<and>
    as_unresolved (ss_result (edge_step ev st)) = as_unresolved (ss_result st) + (if ev = Unresolved then 1 else 0)"
proof (cases ev)
  case (Transfer t)
  have "duplicate_access_tail st t \<longleftrightarrow> repeats prev t"
    using assms by (cases prev) (auto simp: scan_inv_def duplicate_access_tail_def same_transfer_def split: option.splits)
  then show ?thesis
    using assms Transfer
    by (cases prev) (auto simp: edge_step_def scan_inv_def Let_def same_transfer_def)
qed (use assms in \<open>auto simp: edge_step_def scan_inv_def Let_def split: apb_event.splits\<close>)

lemma transfers_step: "transfers prev (ev # evs) = transfers prev [ev] @ transfers ev evs"
  by (cases ev) auto

lemma edge_steps:
  assumes "scan_inv prev st"
  shows "let st' = foldl (\<lambda>st ev. edge_step ev st) st evs
    in as_transactions (ss_result st') = as_transactions (ss_result st) @ transfers prev evs \<and>
       as_unresolved (ss_result st') = as_unresolved (ss_result st) + length (filter (\<lambda>ev. ev = Unresolved) evs) \<and>
       (as_complete (ss_result st') \<longleftrightarrow> as_unresolved (ss_result st') = 0)"
  using assms
proof (induction evs arbitrary: prev st)
  case Nil
  then show ?case by (simp add: scan_inv_def)
next
  case (Cons ev evs)
  note step = edge_step_inv [OF Cons.prems, of ev]
  show ?case
    using Cons.IH [of ev "edge_step ev st"] step transfers_step [of prev ev evs] by (auto simp: Let_def)
qed

lemma edge_step_previous: "ss_previous_ti (edge_step ev st) = ss_previous_ti st"
  by (cases ev) (simp_all add: edge_step_def Let_def)

lemma edge_step_set_previous: "edge_step ev (st\<lparr>ss_previous_ti := p\<rparr>) = (edge_step ev st)\<lparr>ss_previous_ti := p\<rparr>"
  by (cases ev; cases "ss_last_accept st") (simp_all add: edge_step_def Let_def duplicate_access_tail_def)

lemma foldl_set_previous:
  "foldl (\<lambda>st ev. edge_step ev st) (st\<lparr>ss_previous_ti := p\<rparr>) evs = (foldl (\<lambda>st ev. edge_step ev st) st evs)\<lparr>ss_previous_ti := p\<rparr>"
  by (induction evs arbitrary: st) (simp_all add: edge_step_set_previous)

text \<open>The times a loop visits that skips a time equal to the previous one.\<close>

fun visited :: "nat \<Rightarrow> nat list \<Rightarrow> nat list" where
  "visited p [] = []"
| "visited p (t # ts) = (if t = p then visited p ts else t # visited t ts)"

lemma visited_tl: "visited p ts = tl (remdups_adj (p # ts))"
proof (induction ts arbitrary: p)
  case (Cons t ts)
  have "t # tl (remdups_adj (t # ts)) = remdups_adj (t # ts)"
    by (metis list.collapse remdups_adj_Nil_iff hd_remdups_adj list.sel(1) list.distinct(1))
  then show ?case using Cons by simp
qed simp

lemma visited_remdups: "p \<notin> set ts \<Longrightarrow> visited p ts = remdups_adj ts"
  by (cases ts) (auto simp: visited_tl)

lemma scan_loop_fold:
  "ss_result (apb_scan_loop wave c refs ts st) = ss_result (foldl (\<lambda>st ev. edge_step ev st) st
     (map (event_at wave c refs) (filter (edge_at wave c (ar_clock refs)) (visited (ss_previous_ti st) ts))))"
proof (induction ts arbitrary: st)
  case (Cons t ts)
  show ?case
  proof (cases "t = ss_previous_ti st")
    case False
    have "scan_state.more (foldl (\<lambda>st ev. edge_step ev st) st evs) = ()" for evs by simp
    show ?thesis using False Cons.IH by (simp add: edge_step_previous Let_def edge_step_set_previous foldl_set_previous)
  qed (simp add: Cons.IH)
qed simp

lemma scan_init_inv: "scan_inv Idle scan_state_init"
  by (simp add: scan_inv_def scan_state_init_def apb_scan_init_def)

lemma scan_exact:
  assumes "load_refs wave c = Inr refs" "4294967295 \<notin> set (wf_time_indices_of wave (ar_clock refs))"
  shows "\<exists>r. scan_transactions wave c = Inr r \<and>
    as_transactions r = transfers Idle (map (event_at wave c refs) (apb_edges wave c refs)) \<and>
    as_unresolved r = length (filter (\<lambda>ti. event_at wave c refs ti = Unresolved) (apb_edges wave c refs)) \<and>
    (as_complete r \<longleftrightarrow> as_unresolved r = 0)"
proof -
  let ?evs = "map (event_at wave c refs) (apb_edges wave c refs)"
  have "ss_result (apb_scan_loop wave c refs (wf_time_indices_of wave (ar_clock refs)) scan_state_init) =
      ss_result (foldl (\<lambda>st ev. edge_step ev st) scan_state_init ?evs)"
    using assms(2) by (simp add: scan_loop_fold apb_edges_def visited_remdups scan_state_init_def)
  moreover have "length (filter (\<lambda>ev. ev = Unresolved) ?evs) = length (filter (\<lambda>ti. event_at wave c refs ti = Unresolved) (apb_edges wave c refs))"
    by (simp add: filter_map comp_def)
  ultimately show ?thesis
    using edge_steps [OF scan_init_inv, of ?evs] assms(1)
    by (simp add: scan_transactions_def Let_def scan_state_init_def apb_scan_init_def)
qed

lemma transfers_subset: "t \<in> set (transfers prev evs) \<Longrightarrow> Transfer t \<in> set evs"
  by (induction prev evs rule: transfers.induct) (auto split: if_splits)

text \<open>The inputs at an edge that shows a transfer.\<close>

definition level_at :: "action_wave \<Rightarrow> apb_config \<Rightarrow> signal_ref \<Rightarrow> nat \<Rightarrow> tri \<Rightarrow> bool" where
  "level_at wave c ref ti x \<longleftrightarrow> (\<exists>v. sample_value wave ref ti (config_point c) = Some v \<and> truth v = x)"

definition bus_text :: "action_wave \<Rightarrow> apb_config \<Rightarrow> signal_ref \<Rightarrow> nat \<Rightarrow> string \<Rightarrow> bool" where
  "bus_text wave c ref ti t \<longleftrightarrow> (\<exists>v. sample_value wave ref ti (config_point c) = Some v \<and> wv_text v = t)"

lemma transfer_at_inputs:
  assumes "transfer_at wave c refs ti pwrite = Transfer t"
  shows "truth pwrite = (if at_is_write t then TTrue else TFalse) \<and> bus_text wave c (ar_paddr refs) ti (at_addr t) \<and>
    bus_text wave c (if at_is_write t then ar_pwdata refs else ar_prdata refs) ti (at_data t) \<and> at_time t = wf_time_at wave ti"
  using assms
  by (cases "truth pwrite") (auto simp: transfer_at_def bus_text_def Let_def split: option.splits if_splits)

lemma event_at_inputs:
  assumes "event_at wave c refs ti = Transfer t"
  shows "\<exists>pwrite. sample_value wave (ar_pwrite refs) ti (config_point c) = Some pwrite \<and>
    transfer_at wave c refs ti pwrite = Transfer t \<and> level_at wave c (ar_psel refs) ti TTrue \<and> level_at wave c (ar_penable refs) ti TTrue \<and>
    level_at wave c (ar_reset refs) ti (if ac_reset_polarity c = ''active_low'' then TTrue else TFalse) \<and>
    (ar_pready refs \<noteq> 0 \<longrightarrow> level_at wave c (ar_pready refs) ti TTrue)"
  using assms by (auto simp: event_at_def level_at_def Let_def split: option.splits if_splits)

text \<open>An access that completes at a time index: what the bus must show there, and what is recorded.\<close>

definition completed_access :: "action_wave \<Rightarrow> apb_config \<Rightarrow> apb_refs \<Rightarrow> nat \<Rightarrow> apb_transaction \<Rightarrow> bool" where
  "completed_access wave c refs ti t \<longleftrightarrow>
     level_at wave c (ar_psel refs) ti TTrue \<and> level_at wave c (ar_penable refs) ti TTrue \<and>
     level_at wave c (ar_reset refs) ti (if ac_reset_polarity c = ''active_low'' then TTrue else TFalse) \<and>
     (ar_pready refs = 0 \<or> level_at wave c (ar_pready refs) ti TTrue) \<and>
     level_at wave c (ar_pwrite refs) ti (if at_is_write t then TTrue else TFalse) \<and>
     bus_text wave c (ar_paddr refs) ti (at_addr t) \<and>
     bus_text wave c (if at_is_write t then ar_pwdata refs else ar_prdata refs) ti (at_data t) \<and> at_time t = wf_time_at wave ti"

lemma event_transfer:
  assumes "event_at wave c refs ti = Transfer t"
  shows "completed_access wave c refs ti t"
proof -
  obtain pwrite where p: "sample_value wave (ar_pwrite refs) ti (config_point c) = Some pwrite" "transfer_at wave c refs ti pwrite = Transfer t"
    using event_at_inputs [OF assms] by blast
  then have "level_at wave c (ar_pwrite refs) ti (if at_is_write t then TTrue else TFalse)"
    using transfer_at_inputs [OF p(2)] by (simp add: level_at_def)
  then show ?thesis using event_at_inputs [OF assms] transfer_at_inputs [OF p(2)] unfolding completed_access_def by blast
qed

section \<open>Filters and counts\<close>

lemma shift_in_fold: "foldl shift_in 0 b = word_of_nat (bits_nat b)"
  by (induction b rule: rev_induct) (auto simp: shift_in_def push_bit_eq_mult)

lemma bits_word: "length b \<le> 64 \<Longrightarrow> unat (foldl shift_in 0 b) = bits_nat b"
proof -
  assume "length b \<le> 64"
  then have "bits_nat b < 2 ^ 64" using bits_nat_less [of b] power_increasing [of "length b" 64 "2 :: nat"] by linarith
  then show ?thesis by (simp add: shift_in_fold unat_of_nat)
qed

lemma transaction_address_value:
  "transaction_address t = Some v \<longleftrightarrow> length (at_addr t) \<le> 64 \<and> two_state (at_addr t) \<and> unat v = bits_nat (at_addr t)"
proof -
  have "v = foldl shift_in 0 (at_addr t) \<longleftrightarrow> unat v = bits_nat (at_addr t)" if "length (at_addr t) \<le> 64"
    using bits_word [OF that] by (simp add: word_unat_eq_iff)
  then show ?thesis
    by (cases "length (at_addr t) \<le> 64") (auto simp: transaction_address_def two_state_def list_all_iff simp del: foldl_Cons foldl_Nil)
qed

lemma exact_match_values:
  assumes "\<And>t. t \<in> set ts \<Longrightarrow> logic_u64 t = Inr (w t)"
  shows "exact_match actual (map JString ts) = Inr (if Some actual \<in> w ` set ts then FYes else FNo)"
  using assms by (induction ts) auto

lemma matching_counts:
  assumes "matching direction address ts = Inr ms"
  shows "\<exists>n. count_matches direction address ts (r, w, u) =
      Inr (r + length (filter (\<lambda>t. \<not> at_is_write t) ms), w + length (filter at_is_write ms), u + n) \<and>
      n = length (filter (\<lambda>t. direction_matches t direction \<and> address_matches t address = Inr FUnresolved) ts)"
  using assms
proof (induction ts arbitrary: ms r w u)
  case (Cons t ts)
  show ?case
  proof (cases "direction_matches t direction")
    case True
    with Cons.prems obtain m rest where m: "address_matches t address = Inr m" and rest: "matching direction address ts = Inr rest"
      and ms: "ms = (if m = FYes then t # rest else rest)" by (auto simp: rbind_Inr)
    then show ?thesis using Cons.IH [OF rest] True by (cases m) auto
  next
    case False
    then show ?thesis using Cons.IH Cons.prems by simp
  qed
qed simp

lemma matching_all: "address = JNull \<Longrightarrow> matching direction address ts = Inr (filter (\<lambda>t. direction_matches t direction) ts)"
  by (induction ts) (simp_all add: address_matches_def json_is_null_def)

lemma matching_filter:
  "matching direction address ts = Inr ms \<Longrightarrow>
     ms = filter (\<lambda>t. direction_matches t direction \<and> address_matches t address = Inr FYes) ts"
  by (induction ts arbitrary: ms) (auto simp: rbind_Inr split: if_splits)

section \<open>Pages\<close>

text \<open>The pages of a list from a start on, as repeated queries with a growing index return them.\<close>

lemma pages_cover: "0 < k \<Longrightarrow> concat (map (\<lambda>i. take k (drop (i * k) xs)) [0..<n]) = take (n * k) xs"
proof (induction n)
  case (Suc n)
  then show ?case by (simp add: take_add [symmetric] add.commute)
qed simp

section \<open>Budgets\<close>

definition digits_value :: "string \<Rightarrow> nat" where
  "digits_value ds = foldl (\<lambda>a c. a * 10 + (of_char c - 48)) 0 ds"

lemma digits_value_mono: "foldl (\<lambda>a c. a * 10 + (of_char c - 48)) (a :: nat) ds \<ge> a"
proof (induction ds arbitrary: a)
  case (Cons c ds)
  have "a \<le> a * 10 + (of_char c - 48)" by simp
  also have "\<dots> \<le> foldl (\<lambda>a c. a * 10 + (of_char c - 48)) (a * 10 + (of_char c - 48)) ds" by (rule Cons)
  finally show ?case by simp
qed simp

lemma digit_fits:
  fixes parsed :: u64
  assumes "d < 10"
  shows "parsed > (- 1 - word_of_nat d) div 10 \<longleftrightarrow> unat parsed * 10 + d \<ge> 2 ^ 64"
proof -
  have d: "unat (word_of_nat d :: u64) = d" using assms by (simp add: unat_of_nat)
  have "unat (- 1 - word_of_nat d :: u64) = 2 ^ 64 - 1 - d"
  proof -
    have "word_of_nat d \<le> (- 1 :: u64)" by simp
    then have "unat (- 1 - word_of_nat d :: u64) = unat (- 1 :: u64) - unat (word_of_nat d :: u64)" by (rule unat_sub)
    then show ?thesis by (simp add: d unsigned_minus_1_eq_mask mask_eq_exp_minus_1)
  qed
  then have "unat ((- 1 - word_of_nat d :: u64) div 10) = (2 ^ 64 - 1 - d) div 10" by (simp add: unat_div)
  then have "parsed > (- 1 - word_of_nat d) div 10 \<longleftrightarrow> unat parsed > (2 ^ 64 - 1 - d) div 10" by (simp add: word_less_nat_alt)
  also have "\<dots> \<longleftrightarrow> unat parsed * 10 + d \<ge> 2 ^ 64" using assms by (simp add: div_less_iff_less_mult) linarith
  finally show ?thesis .
qed

lemma is_digit_value: "is_digit c \<Longrightarrow> of_char c - 48 < (10 :: nat)"
  by (auto simp: char_class)

lemma budget_digits_value:
  "budget_digits name ds parsed = Inr v \<longleftrightarrow>
     list_all is_digit ds \<and> foldl (\<lambda>a c. a * 10 + (of_char c - 48)) (unat parsed) ds < 2 ^ 64 \<and>
     unat v = foldl (\<lambda>a c. a * 10 + (of_char c - 48)) (unat parsed) ds"
proof (induction ds arbitrary: parsed)
  case Nil
  have "unat parsed < 2 ^ 64" using unsigned_less [of parsed] by simp
  then show ?case by (auto simp: word_unat_eq_iff)
next
  case (Cons c ds)
  show ?case
  proof (cases "is_digit c")
    case True
    let ?d = "of_char c - 48 :: nat"
    note fits = digit_fits [OF is_digit_value [OF True], of parsed]
    show ?thesis
    proof (cases "unat parsed * 10 + ?d \<ge> 2 ^ 64")
      case True
      then have "\<not> foldl (\<lambda>a c. a * 10 + (of_char c - 48)) (unat parsed * 10 + ?d) ds < 2 ^ 64"
        using digits_value_mono [of "unat parsed * 10 + ?d" ds] by linarith
      then show ?thesis using True fits \<open>is_digit c\<close> by (simp add: Let_def)
    next
      case False
      then have "unat (parsed * 10 + word_of_nat ?d) = unat parsed * 10 + ?d"
        by (simp add: unat_word_ariths unat_of_nat mod_less)
      then show ?thesis using False fits \<open>is_digit c\<close> Cons.IH [of "parsed * 10 + word_of_nat ?d"] by (simp add: Let_def)
    qed
  qed simp
qed

section \<open>Configurations\<close>

definition config_ok :: "apb_config \<Rightarrow> bool" where
  "config_ok c \<longleftrightarrow> (ac_edge c = ''negedge'' \<longleftrightarrow> ac_sample_point c = [])"

lemma config_members:
  "string_at_key (config_json c) ''clock'' = Inr (ac_clock c)" "string_at_key (config_json c) ''paddr'' = Inr (ac_paddr c)"
  "string_at_key (config_json c) ''psel'' = Inr (ac_psel c)" "string_at_key (config_json c) ''penable'' = Inr (ac_penable c)"
  "string_at_key (config_json c) ''pwrite'' = Inr (ac_pwrite c)" "string_at_key (config_json c) ''pwdata'' = Inr (ac_pwdata c)"
  "string_at_key (config_json c) ''prdata'' = Inr (ac_prdata c)"
  "json_value (config_json c) ''edge'' d get_string = Inr (ac_edge c)"
  "json_value (config_json c) ''sample_point'' [] get_string = Inr (ac_sample_point c)"
  "json_value (config_json c) ''pready'' [] get_string = Inr (ac_pready c)"
  "json_value (config_json c) ''pslverr'' [] get_string = Inr (ac_pslverr c)"
  "json_at (config_json c) ''reset'' = Inr (JObject [(''signal'', JString (ac_reset c)), (''polarity'', JString (ac_reset_polarity c))])"
  "string_at_key (JObject [(''signal'', JString a), (''polarity'', JString b)]) ''signal'' = Inr a"
  "string_at_key (JObject [(''signal'', JString a), (''polarity'', JString b)]) ''polarity'' = Inr b"
  by (simp_all add: config_json_def string_at_key_def json_value_def Let_def)

lemma config_roundtrip: "parse_config (ac_name c) (config_json c) = Inr (Inr c) \<longleftrightarrow> config_ok c"
  by (cases c) (auto simp: parse_config_def config_members config_ok_def)

lemma parse_config_ok: "parse_config name v = Inr (Inr c) \<Longrightarrow> config_ok c \<and> ac_name c = name"
  by (auto simp: parse_config_def rbind_Inr config_ok_def split: if_splits)

section \<open>Cursors\<close>

lemma direction_count_known: "filter (\<lambda>t. direction_matches t d) ts \<noteq> [] \<Longrightarrow> d \<in> set directions_known"
  by (auto simp: filter_empty_conv direction_matches_def directions_known_def)

definition direction_count :: "action_wave \<Rightarrow> apb_state \<Rightarrow> string \<Rightarrow> string \<Rightarrow> nat option" where
  "direction_count wave st name d =
     (case find_config st name of
        None \<Rightarrow> None
      | Some c \<Rightarrow> (case scan_transactions wave c of
          Inl e \<Rightarrow> None
        | Inr scan \<Rightarrow> Some (length (filter (\<lambda>t. direction_matches t d) (as_transactions scan)))))"

lemma direction_counts: "direction_count wave st name d = Some n \<Longrightarrow> n \<noteq> 0 \<Longrightarrow> d \<in> set directions_known"
  using direction_count_known by (auto simp: direction_count_def split: option.splits sum.splits)

interpretation apb: transfer_counts "direction_count wave" for wave
  by unfold_locales (rule direction_counts)

definition cursors_ok :: "action_wave \<Rightarrow> apb_state \<Rightarrow> bool" where
  "cursors_ok wave st \<longleftrightarrow> omap_ok (ap_configs st) \<and> cursors_in_range (direction_count wave st) (ap_cursors st)"

lemma store_config_ok:
  assumes "cursors_ok wave st"
  shows "cursors_ok wave (snd (store_config wave st c))"
proof -
  let ?st = "st\<lparr>ap_configs := omap_set (ac_name c) c (ap_configs st), ap_cursors := forget_cursors (ac_name c) (ap_cursors st)\<rparr>"
  have ok: "omap_ok (ap_configs st)" "cursors_in_range (direction_count wave st) (ap_cursors st)" using assms by (simp_all add: cursors_ok_def)
  have "direction_count wave ?st name d = direction_count wave st name d" if "name \<noteq> ac_name c" for name d
    using ok(1) that by (simp add: direction_count_def find_config_def omap_laws)
  then have "cursors_in_range (direction_count wave ?st) (forget_cursors (ac_name c) (ap_cursors st))"
    by (rule apb.forgotten [OF ok(2)])
  then have "cursors_ok wave ?st" using ok(1) by (simp add: cursors_ok_def omap_laws)
  then show ?thesis using assms by (auto simp: store_config_def split: sum.split)
qed

lemma load_ok:
  assumes "cursors_ok wave st" "apb_config_load read_json wave st req = Inr (r, st')"
  shows "cursors_ok wave st'"
proof -
  from assms(2) obtain args source where a: "json_at req ''args'' = Inr args" "config_source read_json args = Inr source"
    by (auto simp: apb_config_load_def rbind_Inr)
  show ?thesis
  proof (cases source)
    case (Inl e)
    then show ?thesis using assms a by (simp add: apb_config_load_def)
  next
    case (Inr v)
    from assms(2) a Inr obtain name parsed where p: "string_at_key args ''name'' = Inr name" "parse_config name v = Inr parsed"
      by (auto simp: apb_config_load_def rbind_Inr)
    then have "st' = st \<or> (\<exists>c. store_config wave st c = (r, st'))"
      using assms(2) a Inr by (cases parsed) (auto simp: apb_config_load_def)
    then show ?thesis using assms(1) store_config_ok [OF assms(1)] by (metis snd_conv)
  qed
qed

lemma cursor_set_ok:
  assumes inv: "cursors_ok wave st" and scan: "find_config st name = Some c" "scan_transactions wave c = Inr scan"
    and n: "n = length (filter (\<lambda>t. direction_matches t d) (as_transactions scan))"
    and move: "move_cursor op n (cursor_position st (name @ '':'' @ d)) = (found, q)"
  shows "(found \<longrightarrow> q < n) \<and> cursors_ok wave (st\<lparr>ap_cursors := omap_set (name @ '':'' @ d) q (ap_cursors st)\<rparr>)"
proof -
  let ?st = "st\<lparr>ap_cursors := omap_set (name @ '':'' @ d) q (ap_cursors st)\<rparr>"
  have count: "direction_count wave st name d = Some n" by (simp add: direction_count_def scan n)
  have "direction_count wave ?st = direction_count wave st" by (simp add: fun_eq_iff direction_count_def find_config_def)
  then show ?thesis
    using apb.moved [of wave st "ap_cursors st" name d n op found q] inv count move
    by (simp add: cursors_ok_def cursor_position_def position_in_def)
qed

lemma cursor_handler_ok:
  assumes "cursors_ok wave st" "apb_transaction_cursor getenv wave st req = Inr (r, st')"
  shows "r \<noteq> None \<and> cursors_ok wave st'"
proof -
  from assms(2) obtain args name where a: "json_at req ''args'' = Inr args" "string_at_key args ''name'' = Inr name"
    by (auto simp: apb_transaction_cursor_def rbind_Inr)
  show ?thesis
  proof (cases "require_config_and_scan getenv wave st name ''apb.transaction.cursor''")
    case (Inl e)
    then show ?thesis using assms a by (auto simp: apb_transaction_cursor_def)
  next
    case (Inr cs)
    then obtain c scan where cs: "cs = (c, scan)" "find_config st name = Some c" "scan_transactions wave c = Inr scan"
      by (auto simp: require_config_and_scan_def rbind_Inr split: option.splits)
    from assms(2) a Inr cs obtain render where render: "parse_render args = Inr render"
      by (auto simp: apb_transaction_cursor_def rbind_Inr)
    show ?thesis
    proof (cases render)
      case (Inl e)
      then show ?thesis using assms a Inr cs render by (auto simp: apb_transaction_cursor_def)
    next
      case rendered: (Inr uf)
      obtain unit format where uf: "uf = (unit, format)" by fastforce
      from assms(2) a Inr cs render rendered uf obtain d op where d: "json_value args ''direction'' ''all'' get_string = Inr d"
        "string_at_key args ''op'' = Inr op"
        by (auto simp: apb_transaction_cursor_def rbind_Inr)
      let ?n = "length (filter (\<lambda>t. direction_matches t d) (as_transactions scan))"
      obtain found q where move: "move_cursor op ?n (cursor_position st (name @ '':'' @ d)) = (found, q)" by fastforce
      from cursor_set_ok [OF assms(1) cs(2,3) refl move] show ?thesis
        using assms(2) a Inr cs render rendered uf d move
        by (auto simp: apb_transaction_cursor_def Let_def split: if_splits)
    qed
  qed
qed

text \<open>The requests that change the state, and the states they reach.\<close>

inductive apb_reachable :: "(string \<Rightarrow> string option) \<Rightarrow> (string \<Rightarrow> config_file) \<Rightarrow> action_wave \<Rightarrow> apb_state \<Rightarrow> bool"
  for getenv read_json wave where
  start: "apb_reachable getenv read_json wave \<lparr>ap_configs = [], ap_cursors = []\<rparr>"
| load: "apb_reachable getenv read_json wave st \<Longrightarrow> apb_config_load read_json wave st req = Inr (r, st') \<Longrightarrow>
    apb_reachable getenv read_json wave st'"
| cursor: "apb_reachable getenv read_json wave st \<Longrightarrow> apb_transaction_cursor getenv wave st req = Inr (r', st') \<Longrightarrow>
    apb_reachable getenv read_json wave st'"

lemma reachable_cursors_ok: "apb_reachable getenv read_json wave st \<Longrightarrow> cursors_ok wave st"
proof (induction rule: apb_reachable.induct)
  case start
  show ?case by (simp add: cursors_ok_def cursors_in_range_def)
qed (auto dest: load_ok cursor_handler_ok)

section \<open>Answers\<close>

lemma summary_member:
  "get_member (JObject (merge_members ms (completeness_summary c t n r))) ''total_count'' = JUnsigned n"
  "get_member (JObject (merge_members ms (completeness_summary c t n r))) ''response_truncated'' = JBool t"
  "get_member (JObject (merge_members ms (completeness_summary c t n r))) ''scan_complete'' = JBool c"
  "get_member (JObject (merge_members ms (completeness_summary c t n r))) ''returned_count'' = JUnsigned r"
  by (simp_all add: completeness_summary_def map_of_merge_members)

lemma width_complete_member:
  "k \<noteq> ''value_width_complete'' \<Longrightarrow> k \<noteq> ''width_diagnostics'' \<Longrightarrow>
     get_member (JObject (set_value_width_complete ms)) k = get_member (JObject ms) k"
  by (simp add: set_value_width_complete_def)

lemma ok_response_parts [simp]:
  "get_member (ok_response s d) ''summary'' = JObject s" "get_member (ok_response s d) ''data'' = JObject d"
  "get_member (ok_response s d) ''ok'' = JBool True"
  by (simp_all add: ok_response_def)

lemma query_total:
  "get_member (get_member (query_one wave u f scan ms l i a s d) ''summary'') ''total_count'' = JUnsigned (length ms)"
  "get_member (get_member (query_page wave u f scan ms i n a s d) ''summary'') ''total_count'' = JUnsigned (length ms)"
  "get_member (get_member (query_count scan ms s d) ''summary'') ''total_count'' = JUnsigned (length ms)"
  by (simp_all add: query_one_def query_page_def query_count_def Let_def summary_member width_complete_member del: get_member.simps)

end
