(* ===== verification/Axi_Assembly.thy ===== *)
theory Axi_Assembly
  imports Axi_Scan Apb_Properties "HOL-Library.Sublist"
begin

text \<open>
  How AXI transactions are assembled: bursts bind to write addresses in order, responses and read data bind to the
  oldest request with their identifier, and no request is lost or taken twice.
\<close>

section \<open>Queues by identifier\<close>

lemma queue_of_set [simp]: "omap_ok m \<Longrightarrow> queue_of l (omap_set k v m) = (if l = k then v else queue_of l m)"
  by (simp add: queue_of_def omap_laws)

lemma queue_of_Nil [simp]: "queue_of k [] = []"
  by (simp add: queue_of_def)

lemma queue_of_Cons: "queue_of k ((l, q) # m) = (if k = l then q else queue_of k m)"
  by (simp add: queue_of_def)

lemma queue_of_less: "\<forall>l \<in> fst ` set m. k < l \<Longrightarrow> queue_of k m = []"
  by (simp add: queue_of_def omap_find_less)

lemma mset_queues:
  "omap_ok m \<Longrightarrow> mset (concat (map snd (omap_set k v m))) + mset (queue_of k m) = mset (concat (map snd m)) + mset v"
  by (induction k v m rule: omap_set.induct)
    (auto simp: omap_ok_Cons queue_of_Cons queue_of_less split: if_splits intro!: queue_of_less intro: less_trans)

lemma queues_member: "omap_ok m \<Longrightarrow> x \<in> set (concat (map snd m)) \<longleftrightarrow> (\<exists>k. x \<in> set (queue_of k m))"
proof (induction m)
  case (Cons e m)
  obtain l q where e: "e = (l, q)" by fastforce
  have "x \<in> set (concat (map snd m)) \<longleftrightarrow> (\<exists>k. x \<in> set (queue_of k m))" using Cons by (simp add: e omap_ok_Cons)
  moreover have "queue_of l m = []" using Cons.prems by (simp add: e omap_ok_Cons queue_of_less)
  ultimately show ?case by (auto simp: e queue_of_Cons split: if_splits) (metis empty_iff empty_set)
qed simp

section \<open>Requests\<close>

text \<open>What a transaction keeps of its request, and a transaction without its position.\<close>

definition request_of :: "axi_transaction \<Rightarrow> string \<times> string \<times> string \<times> string \<times> string \<times> u64 \<times> nat \<times> u64" where
  "request_of t = (tx_id t, tx_address t, tx_length t, tx_size t, tx_burst t, tx_start t, tx_start_idx t, tx_address_valid t)"

definition request_event :: "axi_event \<Rightarrow> string \<times> string \<times> string \<times> string \<times> string \<times> u64 \<times> nat \<times> u64" where
  "request_event ev = (ae_id ev, ae_addr ev, ae_len ev, ae_size ev, ae_burst ev, ae_time ev, ae_time_idx ev, ae_valid_begin ev)"

definition unplaced :: "axi_transaction \<Rightarrow> axi_transaction" where
  "unplaced t = t\<lparr>tx_index := 0\<rparr>"

lemma unplaced_fields [simp]:
  "request_of (unplaced t) = request_of t" "tx_complete (unplaced t) = tx_complete t" "tx_is_write (unplaced t) = tx_is_write t"
  "tx_id (unplaced t) = tx_id t" "tx_start (unplaced t) = tx_start t" "tx_end (unplaced t) = tx_end t" "tx_events (unplaced t) = tx_events t"
  "unplaced (t\<lparr>tx_index := i\<rparr>) = unplaced t" "unplaced (unplaced t) = unplaced t"
  by (simp_all add: unplaced_def request_of_def)

lemma requested_fields [simp]:
  "request_of (requested w n ev beats events) = request_event ev" "tx_complete (requested w n ev beats events) = False"
  "tx_is_write (requested w n ev beats events) = w" "tx_id (requested w n ev beats events) = ae_id ev"
  "tx_events (requested w n ev beats events) = events" "tx_start (requested w n ev beats events) = ae_time ev"
  "tx_beats (requested w n ev beats events) = beats"
  "unplaced (requested w n ev beats events) = requested w 0 ev beats events"
  by (simp_all add: requested_def request_of_def request_event_def unplaced_def)

lemma completed_fields [simp]:
  "request_of (completed b t) = request_of t" "tx_complete (completed b t)" "tx_is_write (completed b t) = tx_is_write t"
  "tx_id (completed b t) = tx_id t" "tx_end (completed b t) = ae_time b" "tx_start (completed b t) = tx_start t"
  "tx_events (completed b t) = tx_events t" "tx_beats (completed b t) = tx_beats t" "unplaced (completed b t) = completed b (unplaced t)"
  by (simp_all add: completed_def request_of_def unplaced_def)

lemma same_id_update: "tx_id t = k \<Longrightarrow> t\<lparr>tx_id := k\<rparr> = t"
  by simp

section \<open>Write bursts\<close>

definition closed_burst :: "axi_event list \<Rightarrow> bool" where
  "closed_burst burst \<longleftrightarrow> burst \<noteq> [] \<and> ae_last (last burst) \<and> (\<forall>ev \<in> set (butlast burst). \<not> ae_last ev)"

lemma split_bursts_spec:
  assumes "split_bursts current evs = (bursts, rest)" "\<forall>ev \<in> set current. \<not> ae_last ev"
  shows "concat bursts @ rest = current @ evs \<and> (\<forall>b \<in> set bursts. closed_burst b) \<and> (\<forall>ev \<in> set rest. \<not> ae_last ev)"
  using assms
proof (induction current evs arbitrary: bursts rest rule: split_bursts.induct)
  case (2 current ev evs)
  show ?case
  proof (cases "ae_last ev")
    case True
    obtain bs r where s: "split_bursts [] evs = (bs, r)" by fastforce
    then have "concat bs @ r = evs \<and> (\<forall>b \<in> set bs. closed_burst b) \<and> (\<forall>ev \<in> set r. \<not> ae_last ev)"
      using "2.IH"(1) [OF True, of bs r] by simp
    then show ?thesis using "2.prems" True s by (auto simp: closed_burst_def)
  next
    case False
    then show ?thesis using "2.IH"(2) [OF False, of bursts rest] "2.prems" by auto
  qed
qed auto

section \<open>Write responses\<close>

lemma push_paired_spec:
  assumes "omap_ok m"
  shows "omap_ok (push_paired aws bursts i m) \<and>
    queue_of k (push_paired aws bursts i m) = queue_of k m @
      map (\<lambda>(j, aw, burst). pending_of j burst) (filter (\<lambda>(j, aw, burst). ae_id aw = k) (enumerate i (zip aws bursts))) \<and>
    mset (concat (map snd (push_paired aws bursts i m))) = mset (concat (map snd m)) +
      mset (map (\<lambda>(j, aw, burst). pending_of j burst) (enumerate i (zip aws bursts)))"
  using assms
proof (induction aws bursts i m rule: push_paired.induct)
  case (1 aw aws burst bursts i m)
  let ?m = "omap_set (ae_id aw) (queue_of (ae_id aw) m @ [pending_of i burst]) m"
  have ok: "omap_ok ?m" using "1.prems" by (simp add: omap_laws)
  have "mset (concat (map snd ?m)) = mset (concat (map snd m)) + {#pending_of i burst#}"
    using mset_queues [OF "1.prems", of "ae_id aw" "queue_of (ae_id aw) m @ [pending_of i burst]"] by simp
  then show ?case using "1.IH" [OF ok] "1.prems" by simp
qed simp_all

definition of_id :: "string \<Rightarrow> axi_event list \<Rightarrow> axi_event list" where
  "of_id k evs = filter (\<lambda>ev. ae_id ev = k) evs"

lemma of_id_simps [simp]: "of_id k [] = []" "of_id k (ev # evs) = (if ae_id ev = k then ev # of_id k evs else of_id k evs)"
  by (simp_all add: of_id_def)

definition write_pair :: "axi_event list \<Rightarrow> string \<Rightarrow> pending_write \<times> axi_event \<Rightarrow> axi_transaction" where
  "write_pair aws k = (\<lambda>(pw, b). completed b ((write_txn aws 0 pw)\<lparr>tx_id := k\<rparr>))"

definition orphans :: "axi_event list \<Rightarrow> bool list \<Rightarrow> axi_event list" where
  "orphans bs us = map fst (filter (\<lambda>(b, u). \<not> u) (zip bs us))"

lemma orphans_simps [simp]: "orphans [] us = []" "orphans (b # bs) (u # us) = (if u then orphans bs us else b # orphans bs us)"
  by (simp_all add: orphans_def)

lemma unplaced_write: "unplaced ((write_txn aws n pw)\<lparr>tx_id := k\<rparr>) = (write_txn aws 0 pw)\<lparr>tx_id := k\<rparr>"
  by (simp add: write_txn_def requested_def unplaced_def)

lemma match_responses_spec:
  assumes "omap_ok m"
  shows "\<exists>m' new us. match_responses aws bs m txns used = (m', txns @ new, used @ us) \<and> length us = length bs \<and> omap_ok m' \<and>
    (\<forall>k. queue_of k m' = drop (length (of_id k bs)) (queue_of k m) \<and>
         map unplaced (filter (\<lambda>t. tx_id t = k) new) = map (write_pair aws k) (zip (queue_of k m) (of_id k bs)) \<and>
         of_id k (orphans bs us) = drop (length (queue_of k m)) (of_id k bs)) \<and>
    (\<forall>t \<in> set new. tx_is_write t \<and> tx_complete t)"
  using assms
proof (induction bs arbitrary: m txns used)
  case (Cons b bs)
  show ?case
  proof (cases "queue_of (ae_id b) m")
    case Nil
    obtain m' new us where IH: "match_responses aws bs m txns (used @ [False]) = (m', txns @ new, (used @ [False]) @ us)" "length us = length bs" "omap_ok m'"
      "\<And>k. queue_of k m' = drop (length (of_id k bs)) (queue_of k m)"
      "\<And>k. map unplaced (filter (\<lambda>t. tx_id t = k) new) = map (write_pair aws k) (zip (queue_of k m) (of_id k bs))"
      "\<And>k. of_id k (orphans bs us) = drop (length (queue_of k m)) (of_id k bs)" "\<forall>t \<in> set new. tx_is_write t \<and> tx_complete t"
      using Cons.IH [OF Cons.prems, of txns "used @ [False]"] by metis
    show ?thesis
      using IH Nil by (intro exI [of _ m'] exI [of _ new] exI [of _ "False # us"]) auto
  next
    case (Cons pw rest)
    let ?m = "omap_set (ae_id b) rest m" and ?t = "completed b ((write_txn aws (length txns) pw)\<lparr>tx_id := ae_id b\<rparr>)"
    have ok: "omap_ok ?m" using Cons.prems by (simp add: omap_laws)
    obtain m' new us where IH: "match_responses aws bs ?m (txns @ [?t]) (used @ [True]) = (m', (txns @ [?t]) @ new, (used @ [True]) @ us)" "length us = length bs" "omap_ok m'"
      "\<And>k. queue_of k m' = drop (length (of_id k bs)) (queue_of k ?m)"
      "\<And>k. map unplaced (filter (\<lambda>t. tx_id t = k) new) = map (write_pair aws k) (zip (queue_of k ?m) (of_id k bs))"
      "\<And>k. of_id k (orphans bs us) = drop (length (queue_of k ?m)) (of_id k bs)" "\<forall>t \<in> set new. tx_is_write t \<and> tx_complete t"
      using Cons.IH [OF ok, of "txns @ [?t]" "used @ [True]"] by metis
    have t: "tx_id ?t = ae_id b" "unplaced ?t = write_pair aws (ae_id b) (pw, b)" "tx_is_write ?t" "tx_complete ?t"
      by (simp_all add: write_pair_def unplaced_write) (simp add: write_txn_def)
    show ?thesis
      using IH Cons Cons.prems t
      by (intro exI [of _ m'] exI [of _ "?t # new"] exI [of _ "True # us"]) auto
  qed
qed auto

section \<open>All writes\<close>

lemma unplaced_numbered:
  assumes "\<And>n x. unplaced (f n x) = f 0 x"
  shows "map unplaced (foldl (\<lambda>ts x. ts @ [f (length ts) x]) txns xs) = map unplaced txns @ map (f 0) xs"
  by (induction xs arbitrary: txns) (simp_all add: assms)

lemma filter_queues:
  assumes "omap_ok m" "\<And>l x. x \<in> set (queue_of l m) \<Longrightarrow> f x = l"
  shows "filter (\<lambda>x. f x = k) (concat (map snd m)) = queue_of k m"
  using assms
proof (induction m)
  case (Cons e m)
  obtain l q where e: "e = (l, q)" by fastforce
  have lm: "queue_of l m = []" using Cons.prems(1) by (simp add: e omap_ok_Cons queue_of_less)
  have "f x = l'" if "x \<in> set (queue_of l' m)" for l' x
    using Cons.prems(2) [of x l'] that lm by (cases "l' = l") (auto simp: e queue_of_Cons)
  then have IH: "filter (\<lambda>x. f x = k) (concat (map snd m)) = queue_of k m" using Cons.IH Cons.prems(1) by (simp add: e omap_ok_Cons)
  have "filter (\<lambda>x. f x = k) q = (if k = l then q else [])"
    using Cons.prems(2) [of _ l] by (auto simp: e queue_of_Cons filter_id_conv filter_empty_conv)
  then show ?case using IH lm by (auto simp: e queue_of_Cons)
qed simp

text \<open>The writes with an identifier whose data is complete, in the order of their addresses.\<close>

definition data_done :: "axi_event list \<Rightarrow> axi_event list list \<Rightarrow> string \<Rightarrow> (axi_event \<times> axi_event list) list" where
  "data_done aws bursts k = filter (\<lambda>(aw, burst). ae_id aw = k) (zip aws bursts)"

definition done_queue :: "axi_event list \<Rightarrow> axi_event list list \<Rightarrow> string \<Rightarrow> pending_write list" where
  "done_queue aws bursts k =
     map (\<lambda>(j, aw, burst). pending_of j burst) (filter (\<lambda>(j, aw, burst). ae_id aw = k) (enumerate 0 (zip aws bursts)))"

lemma enumerate_nth: "(j, x) \<in> set (enumerate n xs) \<Longrightarrow> n \<le> j \<and> j < n + length xs \<and> xs ! (j - n) = x"
  by (auto simp: in_set_enumerate_eq)

lemma map_filter_enumerate:
  assumes "\<And>j x. (j, x) \<in> set (enumerate n xs) \<Longrightarrow> f (j, x) = g x"
  shows "map f (filter (\<lambda>(j, x). P x) (enumerate n xs)) = map g (filter P xs)"
  using assms by (induction xs arbitrary: n) auto

lemma done_queue_writes:
  "map (write_txn aws 0) (done_queue aws bursts k) =
     map (\<lambda>(aw, burst). requested True 0 aw (map ae_data burst) burst) (data_done aws bursts k)"
proof -
  have "map (\<lambda>p. write_txn aws 0 ((\<lambda>(j, aw, burst). pending_of j burst) p)) (filter (\<lambda>(j, x). (\<lambda>(aw, burst). ae_id aw = k) x) (enumerate 0 (zip aws bursts))) =
      map (\<lambda>(aw, burst). requested True 0 aw (map ae_data burst) burst) (filter (\<lambda>(aw, burst). ae_id aw = k) (zip aws bursts))"
  proof (rule map_filter_enumerate)
    fix j :: nat and x :: "axi_event \<times> axi_event list"
    assume "(j, x) \<in> set (enumerate 0 (zip aws bursts))"
    then have "j < length (zip aws bursts) \<and> zip aws bursts ! j = x" using enumerate_nth [of j x 0 "zip aws bursts"] by simp
    then have "fst x = aws ! j" by auto
    then show "write_txn aws 0 ((\<lambda>(j, aw, burst). pending_of j burst) (j, x)) = (\<lambda>(aw, burst). requested True 0 aw (map ae_data burst) burst) x"
      by (cases x) (simp add: write_txn_def pending_of_def)
  qed
  then show ?thesis by (simp add: done_queue_def data_done_def comp_def case_prod_unfold)
qed

lemma done_queue_id: "pw \<in> set (done_queue aws bursts k) \<Longrightarrow> ae_id (aws ! pw_aw pw) = k"
proof -
  assume "pw \<in> set (done_queue aws bursts k)"
  then obtain j aw burst where "(j, aw, burst) \<in> set (enumerate 0 (zip aws bursts))" "ae_id aw = k" "pw = pending_of j burst"
    by (auto simp: done_queue_def)
  then show ?thesis using enumerate_nth [of j "(aw, burst)" 0 "zip aws bursts"] by (auto simp: pending_of_def)
qed

lemma zip_write_pairs:
  assumes "\<And>pw. pw \<in> set q \<Longrightarrow> ae_id (aws ! pw_aw pw) = k"
  shows "map (write_pair aws k) (zip q bs) = map (\<lambda>(t, b). completed b t) (zip (map (write_txn aws 0) q) bs)"
  using assms
proof (induction q bs rule: list_induct2')
  case (4 pw q b bs)
  have "tx_id (write_txn aws 0 pw) = k" using "4.prems" [of pw] by (simp add: write_txn_def)
  then have "(write_txn aws 0 pw)\<lparr>tx_id := k\<rparr> = write_txn aws 0 pw" by (rule same_id_update)
  then show ?case using "4.IH" "4.prems" by (simp add: write_pair_def)
qed simp_all

lemma assemble_writes_spec:
  assumes "split_bursts [] ws = (bursts, rest)"
  shows "\<exists>new left us. map unplaced (assemble_writes aws ws bs) =
      new @ map (write_txn aws 0) left @ map (write_txn aws 0) (pending_writes aws bursts rest) @ map (orphan_txn 0) (orphans bs us) \<and>
    (\<forall>t \<in> set new. tx_is_write t \<and> tx_complete t) \<and>
    (\<forall>k. filter (\<lambda>t. tx_id t = k) new =
           map (\<lambda>((aw, burst), b). completed b (requested True 0 aw (map ae_data burst) burst)) (zip (data_done aws bursts k) (of_id k bs)) \<and>
         filter (\<lambda>pw. ae_id (aws ! pw_aw pw) = k) left = drop (length (of_id k bs)) (done_queue aws bursts k) \<and>
         of_id k (orphans bs us) = drop (length (data_done aws bursts k)) (of_id k bs))"
proof -
  let ?m = "push_paired aws bursts 0 []"
  have ok: "omap_ok ?m" and q: "queue_of k ?m = done_queue aws bursts k" for k
    using push_paired_spec [of "[]" aws bursts 0 k] by (simp_all add: done_queue_def)
  obtain m' new us where match: "match_responses aws bs ?m [] [] = (m', new, us)" "omap_ok m'"
    "\<And>k. queue_of k m' = drop (length (of_id k bs)) (queue_of k ?m)"
    "\<And>k. map unplaced (filter (\<lambda>t. tx_id t = k) new) = map (write_pair aws k) (zip (queue_of k ?m) (of_id k bs))"
    "\<And>k. of_id k (orphans bs us) = drop (length (queue_of k ?m)) (of_id k bs)" "\<forall>t \<in> set new. tx_is_write t \<and> tx_complete t"
    using match_responses_spec [OF ok, of aws bs "[]" "[]"] by auto
  have len: "length (done_queue aws bursts k) = length (data_done aws bursts k)" for k
    using arg_cong [OF done_queue_writes, of length aws bursts k] by simp
  have w: "unplaced (write_txn aws n pw) = write_txn aws 0 pw" for n pw by (simp add: write_txn_def)
  have o: "unplaced (orphan_txn n b) = orphan_txn 0 b" for n b by (simp add: orphan_txn_def unplaced_def)
  have "map unplaced (assemble_writes aws ws bs) = map unplaced new @ map (write_txn aws 0) (concat (map snd m')) @
      map (write_txn aws 0) (pending_writes aws bursts rest) @ map (orphan_txn 0) (orphans bs us)"
    by (simp add: assemble_writes_def assms match(1) Let_def add_writes_def add_orphans_def unplaced_numbered w o orphans_def)
  moreover have "filter (\<lambda>t. tx_id t = k) (map unplaced new) =
      map (\<lambda>((aw, burst), b). completed b (requested True 0 aw (map ae_data burst) burst)) (zip (data_done aws bursts k) (of_id k bs))" for k
  proof -
    have "filter (\<lambda>t. tx_id t = k) (map unplaced new) = map (write_pair aws k) (zip (done_queue aws bursts k) (of_id k bs))"
      using match(4) [of k] by (simp add: filter_map comp_def q)
    also have "\<dots> = map (\<lambda>(t, b). completed b t) (zip (map (write_txn aws 0) (done_queue aws bursts k)) (of_id k bs))"
      by (rule zip_write_pairs) (rule done_queue_id)
    finally show ?thesis by (simp add: done_queue_writes zip_map1 case_prod_unfold comp_def)
  qed
  moreover have "filter (\<lambda>pw. ae_id (aws ! pw_aw pw) = k) (concat (map snd m')) = drop (length (of_id k bs)) (done_queue aws bursts k)" for k
  proof -
    have "ae_id (aws ! pw_aw pw) = l" if "pw \<in> set (queue_of l m')" for l pw
      using that match(3) [of l] done_queue_id [of pw aws bursts l] by (auto simp: q dest: in_set_dropD)
    then show ?thesis using filter_queues [OF match(2), of "\<lambda>pw. ae_id (aws ! pw_aw pw)" k] match(3) [of k] by (simp add: q)
  qed
  ultimately show ?thesis
    using match(5,6) by (intro exI [of _ "map unplaced new"] exI [of _ "concat (map snd m')"] exI [of _ us]) (auto simp: q len)
qed

lemma mset_by_key:
  assumes "\<And>k. mset (filter (\<lambda>x. f x = k) xs) = mset (filter (\<lambda>x. f x = k) ys)"
  shows "mset xs = mset ys"
proof (rule multiset_eqI)
  fix x
  have "count (mset zs) x = count (mset (filter (\<lambda>y. f y = f x) zs)) x" for zs by (induction zs) auto
  then show "count (mset xs) x = count (mset ys) x" using assms [of "f x"] by metis
qed

lemma pending_requests:
  "map (\<lambda>pw. aws ! pw_aw pw) (pending_writes aws bursts rest) = drop (min (length aws) (length bursts)) aws"
proof -
  let ?p = "min (length aws) (length bursts)"
  have d: "map (\<lambda>i. aws ! i) [?p..<length aws] = drop ?p aws" by (auto intro: nth_equalityI)
  then show ?thesis
    by (cases "[?p..<length aws]") (simp_all add: pending_writes_def Let_def pending_of_def comp_def split: list.splits)
qed

lemma request_write: "request_of (write_txn aws n pw) = request_event (aws ! pw_aw pw)"
  by (simp add: write_txn_def)

lemma filter_request:
  "filter (\<lambda>r. fst r = k) (map request_event evs) = map request_event (of_id k evs)"
  "filter (\<lambda>r. fst r = k) (map request_of ts) = map request_of (filter (\<lambda>t. tx_id t = k) ts)"
  by (simp_all add: filter_map comp_def of_id_def request_event_def request_of_def)

lemma paired_requests:
  "map request_of (map (\<lambda>((aw, burst), b). completed b (requested True 0 aw (map ae_data burst) burst)) (zip ds bs)) @
     map (\<lambda>(aw, burst). request_event aw) (drop (length bs) ds) = map (\<lambda>(aw, burst). request_event aw) ds"
  by (induction ds bs rule: list_induct2') auto

lemma writes_conserved:
  assumes "split_bursts [] ws = (bursts, rest)"
  shows "\<exists>os. mset (map request_of (assemble_writes aws ws bs)) = mset (map request_event aws) + mset (map (\<lambda>b. request_of (orphan_txn 0 b)) os) \<and>
    (\<forall>k. of_id k os = drop (length (data_done aws bursts k)) (of_id k bs))"
proof -
  let ?p = "min (length aws) (length bursts)"
  obtain new left us where a: "map unplaced (assemble_writes aws ws bs) =
      new @ map (write_txn aws 0) left @ map (write_txn aws 0) (pending_writes aws bursts rest) @ map (orphan_txn 0) (orphans bs us)"
    "\<And>k. filter (\<lambda>t. tx_id t = k) new =
       map (\<lambda>((aw, burst), b). completed b (requested True 0 aw (map ae_data burst) burst)) (zip (data_done aws bursts k) (of_id k bs))"
    "\<And>k. filter (\<lambda>pw. ae_id (aws ! pw_aw pw) = k) left = drop (length (of_id k bs)) (done_queue aws bursts k)"
    "\<And>k. of_id k (orphans bs us) = drop (length (data_done aws bursts k)) (of_id k bs)"
    using assemble_writes_spec [OF assms, of aws bs] by auto
  have "mset (map request_of new @ map (\<lambda>pw. request_event (aws ! pw_aw pw)) left) = mset (map request_event (take ?p aws))"
  proof (rule mset_by_key [of fst])
    fix k
    have "map (\<lambda>pw. request_event (aws ! pw_aw pw)) (done_queue aws bursts k) = map request_of (map (write_txn aws 0) (done_queue aws bursts k))"
      by (simp add: request_write comp_def)
    also have "\<dots> = map (\<lambda>(aw, burst). request_event aw) (data_done aws bursts k)"
      by (simp add: done_queue_writes case_prod_unfold comp_def)
    finally have e: "map (\<lambda>pw. request_event (aws ! pw_aw pw)) (done_queue aws bursts k) =
        map (\<lambda>(aw, burst). request_event aw) (data_done aws bursts k)" .
    have q: "map (\<lambda>pw. request_event (aws ! pw_aw pw)) (drop n (done_queue aws bursts k)) =
        map (\<lambda>(aw, burst). request_event aw) (drop n (data_done aws bursts k))" for n
      using arg_cong [OF e, of "drop n"] by (simp only: drop_map)
    have l: "filter (\<lambda>r. fst r = k) (map (\<lambda>pw. request_event (aws ! pw_aw pw)) left) =
        map (\<lambda>pw. request_event (aws ! pw_aw pw)) (filter (\<lambda>pw. ae_id (aws ! pw_aw pw) = k) left)"
      by (simp add: filter_map comp_def request_event_def)
    have "filter (\<lambda>r. fst r = k) (map request_of new @ map (\<lambda>pw. request_event (aws ! pw_aw pw)) left) =
        map (\<lambda>(aw, burst). request_event aw) (data_done aws bursts k)"
      by (simp only: filter_append filter_request l a(2,3) q paired_requests)
    moreover have "map (\<lambda>(aw, burst). request_event aw) (data_done aws bursts k) = map request_event (of_id k (map fst (zip aws bursts)))"
      by (simp add: data_done_def of_id_def filter_map comp_def case_prod_unfold)
    ultimately show "mset (filter (\<lambda>r. fst r = k) (map request_of new @ map (\<lambda>pw. request_event (aws ! pw_aw pw)) left)) =
        mset (filter (\<lambda>r. fst r = k) (map request_event (take ?p aws)))"
      by (simp add: filter_request map_fst_zip_take)
  qed
  moreover have "map (\<lambda>pw. request_event (aws ! pw_aw pw)) (pending_writes aws bursts rest) = map request_event (drop ?p aws)"
    using arg_cong [OF pending_requests, of "map request_event" aws bursts rest] by (simp add: comp_def)
  moreover have "map request_of (assemble_writes aws ws bs) = map request_of new @ map (\<lambda>pw. request_event (aws ! pw_aw pw)) left @
      map (\<lambda>pw. request_event (aws ! pw_aw pw)) (pending_writes aws bursts rest) @ map (\<lambda>b. request_of (orphan_txn 0 b)) (orphans bs us)"
    using arg_cong [OF a(1), of "map request_of"] by (simp add: comp_def request_write)
  moreover have "mset (map request_event aws) = mset (map request_event (take ?p aws)) + mset (map request_event (drop ?p aws))"
    by (metis append_take_drop_id map_append mset_append)
  ultimately have "mset (map request_of (assemble_writes aws ws bs)) =
      mset (map request_event aws) + mset (map (\<lambda>b. request_of (orphan_txn 0 b)) (orphans bs us))"
    by (simp add: union_ac)
  then show ?thesis using a(4) by blast
qed

end
