(* ===== verification/Axi_Reads.thy ===== *)
theory Axi_Reads
  imports Axi_Assembly
begin

text \<open>
  Read transactions: an invariant of the loop over the address and data handshakes in time order, for any order of
  handshakes with equal times.
\<close>

section \<open>The invariant\<close>

definition ars_seen :: "axi_event list \<Rightarrow> read_event list \<Rightarrow> axi_event list" where
  "ars_seen ars seen = map (\<lambda>re. ars ! re_idx re) (filter (\<lambda>re. re_kind re = KindAR) seen)"

definition rs_seen :: "axi_event list \<Rightarrow> read_event list \<Rightarrow> axi_event list" where
  "rs_seen rs seen = map (\<lambda>re. rs ! re_idx re) (filter (\<lambda>re. re_kind re = KindR) seen)"

text \<open>The beats of one read: of its identifier, none but the last marked last.\<close>

definition finished_read :: "axi_transaction \<Rightarrow> bool" where
  "finished_read t \<longleftrightarrow> \<not> tx_is_write t \<and> tx_complete t \<and> closed_burst (tx_events t) \<and> (\<forall>ev \<in> set (tx_events t). ae_id ev = tx_id t) \<and>
     tx_beats t = map ae_data (tx_events t) \<and> tx_end t = ae_time (last (tx_events t)) \<and> tx_start t \<le> tx_end t"

definition open_read :: "axi_event list \<Rightarrow> read_event list \<Rightarrow> string \<Rightarrow> pending_read \<Rightarrow> bool" where
  "open_read ars seen k pr \<longleftrightarrow> ae_id (ars ! pr_ar pr) = k \<and> (\<forall>ev \<in> set (pr_events pr). ae_id ev = k \<and> \<not> ae_last ev) \<and>
     pr_beats pr = map ae_data (pr_events pr) \<and> (\<exists>re \<in> set seen. re_time re = ae_time (ars ! pr_ar pr))"

definition key_inv :: "axi_event list \<Rightarrow> axi_event list \<Rightarrow> read_event list \<Rightarrow> string \<Rightarrow> axi_transaction list \<Rightarrow> pending_read list \<Rightarrow> bool" where
  "key_inv ars rs seen k ts q \<longleftrightarrow>
     map request_of ts @ map (\<lambda>pr. request_event (ars ! pr_ar pr)) q = map request_event (of_id k (ars_seen ars seen)) \<and>
     subseq (concat (map tx_events ts) @ concat (map pr_events q)) (of_id k (rs_seen rs seen)) \<and>
     (\<forall>pr \<in> set q. open_read ars seen k pr) \<and> (\<forall>pr \<in> set (tl q). pr_events pr = [])"

definition read_inv ::
  "axi_event list \<Rightarrow> axi_event list \<Rightarrow> read_event list \<Rightarrow> (string, pending_read list) omap \<Rightarrow> axi_transaction list \<Rightarrow> bool" where
  "read_inv ars rs seen m new \<longleftrightarrow> omap_ok m \<and> (\<forall>t \<in> set new. finished_read t) \<and>
     (\<forall>k. key_inv ars rs seen k (filter (\<lambda>t. tx_id t = k) new) (queue_of k m))"

definition read_event_ok :: "axi_event list \<Rightarrow> axi_event list \<Rightarrow> read_event \<Rightarrow> bool" where
  "read_event_ok ars rs re \<longleftrightarrow> re_time re = ae_time ((if re_kind re = KindAR then ars else rs) ! re_idx re)"

lemma seen_snoc:
  "ars_seen ars (seen @ [re]) = ars_seen ars seen @ (if re_kind re = KindAR then [ars ! re_idx re] else [])"
  "rs_seen rs (seen @ [re]) = rs_seen rs seen @ (if re_kind re = KindR then [rs ! re_idx re] else [])"
  by (simp_all add: ars_seen_def rs_seen_def)

lemma of_id_append: "of_id k (xs @ ys) = of_id k xs @ of_id k ys"
  by (simp add: of_id_def)

lemma open_read_mono: "open_read ars seen k pr \<Longrightarrow> open_read ars (seen @ [re]) k pr"
  by (auto simp: open_read_def)

lemma concat_no_events: "\<forall>pr \<in> set prs. pr_events pr = [] \<Longrightarrow> concat (map pr_events prs) = []"
  by simp

section \<open>The steps\<close>

lemma key_inv_other:
  assumes "key_inv ars rs seen k ts q" "re_kind re = KindAR \<Longrightarrow> ae_id (ars ! re_idx re) \<noteq> k"
  shows "key_inv ars rs (seen @ [re]) k ts q"
  using assms
  by (cases "re_kind re") (auto simp: key_inv_def seen_snoc of_id_append open_read_mono intro: subseq_rev_drop_many)

lemma read_step_AR:
  assumes inv: "read_inv ars rs seen m new" and kind: "re_kind re = KindAR" and ok: "read_event_ok ars rs re"
    and k0: "k0 = ae_id (ars ! re_idx re)" and pr: "pr = \<lparr>pr_ar = re_idx re, pr_beats = [], pr_events = []\<rparr>"
  shows "read_inv ars rs (seen @ [re]) (omap_set k0 (queue_of k0 m @ [pr]) m) new"
proof -
  have m: "omap_ok m" and k: "key_inv ars rs seen k (filter (\<lambda>t. tx_id t = k) new) (queue_of k m)" for k
    using inv by (simp_all add: read_inv_def)
  have new: "open_read ars (seen @ [re]) k0 pr" using ok kind by (auto simp: open_read_def k0 pr read_event_ok_def)
  have tl: "\<forall>x \<in> set (tl (queue_of k0 m @ [pr])). pr_events x = []"
    using k [of k0] by (cases "queue_of k0 m") (auto simp: key_inv_def pr)
  have "map request_of (filter (\<lambda>t. tx_id t = k0) new) @ map (\<lambda>pr. request_event (ars ! pr_ar pr)) (queue_of k0 m @ [pr]) =
      map request_event (of_id k0 (ars_seen ars seen)) @ [request_event (ars ! re_idx re)]"
    using k [of k0] by (simp add: key_inv_def pr append_assoc [symmetric] del: append_assoc)
  then have "key_inv ars rs (seen @ [re]) k0 (filter (\<lambda>t. tx_id t = k0) new) (queue_of k0 m @ [pr])"
    using k [of k0] new tl by (auto simp: key_inv_def seen_snoc kind of_id_append k0 open_read_mono pr)
  moreover have "key_inv ars rs (seen @ [re]) k (filter (\<lambda>t. tx_id t = k) new) (queue_of k m)" if "k \<noteq> k0" for k
    using key_inv_other [OF k [of k], of re] that by (simp add: k0)
  ultimately show ?thesis using inv m by (simp add: read_inv_def omap_laws)
qed

lemma read_step_orphan:
  assumes inv: "read_inv ars rs seen m new" and kind: "re_kind re = KindR"
  shows "read_inv ars rs (seen @ [re]) m new"
  using assms key_inv_other [of ars rs seen _ _ _ re] by (simp add: read_inv_def)

lemma read_step_R:
  assumes inv: "read_inv ars rs seen m new" and kind: "re_kind re = KindR" and ok: "read_event_ok ars rs re"
    and before: "\<forall>re' \<in> set seen. re_time re' \<le> re_time re"
    and r: "r = rs ! re_idx re" and q: "queue_of (ae_id r) m = pr # rest"
  shows "\<not> ae_last r \<Longrightarrow> read_inv ars rs (seen @ [re]) (omap_set (ae_id r) (add_beat r pr # rest) m) new"
    and "ae_last r \<Longrightarrow> read_inv ars rs (seen @ [re]) (omap_set (ae_id r) rest m) (new @ [completed r (read_txn ars n (add_beat r pr))])"
proof -
  let ?k = "ae_id r" and ?ts = "filter (\<lambda>t. tx_id t = ae_id r) new"
  have m: "omap_ok m" and k: "key_inv ars rs seen k (filter (\<lambda>t. tx_id t = k) new) (queue_of k m)" for k
    using inv by (simp_all add: read_inv_def)
  have other: "key_inv ars rs (seen @ [re]) k (filter (\<lambda>t. tx_id t = k) new) (queue_of k m)" for k
    using key_inv_other [OF k [of k], of re] kind by simp
  have none: "\<forall>x \<in> set rest. pr_events x = []" using k [of ?k] by (simp add: key_inv_def q)
  have pr: "open_read ars seen ?k pr" using k [of ?k] by (simp add: key_inv_def q)
  have "subseq (concat (map tx_events ?ts) @ pr_events pr) (of_id ?k (rs_seen rs seen))"
    using k [of ?k] none by (simp add: key_inv_def q concat_no_events)
  then have "subseq ((concat (map tx_events ?ts) @ pr_events pr) @ [r]) (of_id ?k (rs_seen rs seen) @ [r])"
    by (rule list_emb_append_mono) simp
  then have sub: "subseq (concat (map tx_events ?ts) @ pr_events pr @ [r]) (of_id ?k (rs_seen rs (seen @ [re])))"
    by (simp add: seen_snoc kind of_id_append r)
  have req: "map request_of ?ts @ request_event (ars ! pr_ar pr) # map (\<lambda>pr. request_event (ars ! pr_ar pr)) rest =
      map request_event (of_id ?k (ars_seen ars (seen @ [re])))"
    using k [of ?k] by (simp add: key_inv_def q seen_snoc kind)
  have opens: "\<forall>x \<in> set rest. open_read ars (seen @ [re]) ?k x" using k [of ?k] by (auto simp: key_inv_def q open_read_mono)
  {
    assume l: "\<not> ae_last r"
    have "open_read ars (seen @ [re]) ?k (add_beat r pr)" using pr l by (auto simp: open_read_def add_beat_def)
    then have "key_inv ars rs (seen @ [re]) ?k ?ts (add_beat r pr # rest)"
      using sub req opens none by (simp add: key_inv_def concat_no_events) (simp add: add_beat_def)
    then show "read_inv ars rs (seen @ [re]) (omap_set ?k (add_beat r pr # rest) m) new"
      using inv m other by (simp add: read_inv_def omap_laws)
  next
    assume l: "ae_last r"
    let ?t = "completed r (read_txn ars n (add_beat r pr))"
    obtain re' where "re' \<in> set seen" "re_time re' = ae_time (ars ! pr_ar pr)" using pr by (auto simp: open_read_def)
    then have "tx_start ?t \<le> tx_end ?t"
      using before ok kind by (auto simp: read_txn_def read_event_ok_def r add_beat_def)
    then have fin: "finished_read ?t"
      using pr l by (auto simp: finished_read_def closed_burst_def read_txn_def add_beat_def open_read_def)
    have t: "tx_id ?t = ?k" "request_of ?t = request_event (ars ! pr_ar pr)" "tx_events ?t = pr_events pr @ [r]"
      using pr by (simp_all add: read_txn_def add_beat_def open_read_def)
    moreover have "\<forall>x \<in> set (tl rest). pr_events x = []" using none by (cases rest) auto
    ultimately have "key_inv ars rs (seen @ [re]) ?k (?ts @ [?t]) rest"
      using sub req opens none by (auto simp: key_inv_def concat_no_events simp del: completed_fields)
    then show "read_inv ars rs (seen @ [re]) (omap_set ?k rest m) (new @ [?t])"
      using inv m other fin t(1) by (simp add: read_inv_def omap_laws del: completed_fields)
  }
qed

section \<open>All reads\<close>

lemma read_step_inv:
  assumes inv: "read_inv ars rs seen m new" and ok: "read_event_ok ars rs re" and before: "\<forall>re' \<in> set seen. re_time re' \<le> re_time re"
  shows "\<exists>m' new'. read_step ars rs re (m, txns @ new) = (m', txns @ new') \<and> read_inv ars rs (seen @ [re]) m' new'"
proof (cases "re_kind re")
  case KindAR
  then show ?thesis using read_step_AR [OF inv KindAR ok refl refl] by (simp add: read_step_def Let_def)
next
  case KindR
  show ?thesis
  proof (cases "queue_of (ae_id (rs ! re_idx re)) m")
    case Nil
    then show ?thesis using read_step_orphan [OF inv KindR] KindR by (simp add: read_step_def Let_def)
  next
    case (Cons pr rest)
    then show ?thesis
      using read_step_R [OF inv KindR ok before refl Cons] KindR
      by (cases "ae_last (rs ! re_idx re)") (simp_all add: read_step_def Let_def)
  qed
qed

lemma read_loop_inv:
  assumes "read_inv ars rs seen m new" "\<forall>re \<in> set res. read_event_ok ars rs re" "sorted (map re_time (seen @ res))"
  shows "\<exists>m' new'. foldl (\<lambda>st re. read_step ars rs re st) (m, txns @ new) res = (m', txns @ new') \<and> read_inv ars rs (seen @ res) m' new'"
  using assms
proof (induction res arbitrary: seen m new)
  case (Cons re res)
  have before: "\<forall>re' \<in> set seen. re_time re' \<le> re_time re" and ok: "read_event_ok ars rs re" using Cons.prems by (simp_all add: sorted_append)
  obtain m' new' where s: "read_step ars rs re (m, txns @ new) = (m', txns @ new')" "read_inv ars rs (seen @ [re]) m' new'"
    using read_step_inv [OF Cons.prems(1) ok before] by blast
  show ?case using Cons.IH [OF s(2)] Cons.prems(2,3) by (simp add: s(1))
qed auto

lemma read_inv_init: "read_inv ars rs [] [] []"
  by (simp add: read_inv_def key_inv_def ars_seen_def rs_seen_def)

lemma read_events_ok: "re \<in> set (read_events ars rs) \<Longrightarrow> read_event_ok ars rs re"
  by (auto simp: read_events_def read_event_ok_def)

lemma read_events_seen: "ars_seen ars (read_events ars rs) = ars" "rs_seen rs (read_events ars rs) = rs"
  by (simp_all add: ars_seen_def rs_seen_def read_events_def filter_map comp_def map_nth)

lemma mset_seen:
  assumes "mset xs = mset ys"
  shows "mset (ars_seen ars xs) = mset (ars_seen ars ys)" "mset (rs_seen rs xs) = mset (rs_seen rs ys)"
  using assms by (simp_all add: ars_seen_def rs_seen_def mset_filter)

text \<open>The reads: those the loop completed, and those left in the queues.\<close>

lemma assemble_reads_spec:
  assumes "sorts_by re_time f"
  shows "\<exists>m new. map unplaced (assemble_reads f ars rs txns) = map unplaced txns @ map unplaced new @ map (read_txn ars 0) (concat (map snd m)) \<and>
    read_inv ars rs (f (read_events ars rs)) m new"
proof -
  have s: "mset (f (read_events ars rs)) = mset (read_events ars rs)" "sorted (map re_time (f (read_events ars rs)))"
    using assms by (simp_all add: sorts_by_def)
  have "\<forall>re \<in> set (f (read_events ars rs)). read_event_ok ars rs re" using mset_eq_setD [OF s(1)] read_events_ok by auto
  then obtain m new where "foldl (\<lambda>st re. read_step ars rs re st) ([], txns) (f (read_events ars rs)) = (m, txns @ new)"
    "read_inv ars rs (f (read_events ars rs)) m new"
    using read_loop_inv [OF read_inv_init, of "f (read_events ars rs)" ars rs txns] s(2) by auto
  moreover have "unplaced (read_txn ars n pr) = read_txn ars 0 pr" for n pr by (simp add: read_txn_def)
  ultimately show ?thesis by (auto simp: assemble_reads_def add_reads_def unplaced_numbered)
qed

lemma read_inv_left:
  assumes "read_inv ars rs seen m new"
  shows "filter (\<lambda>pr. ae_id (ars ! pr_ar pr) = k) (concat (map snd m)) = queue_of k m"
  using assms by (intro filter_queues) (auto simp: read_inv_def key_inv_def open_read_def)

lemma read_inv_conserved:
  assumes "read_inv ars rs seen m new"
  shows "mset (map request_of new @ map (\<lambda>pr. request_event (ars ! pr_ar pr)) (concat (map snd m))) = mset (map request_event (ars_seen ars seen))"
proof (rule mset_by_key [of fst])
  fix k
  let ?left = "concat (map snd m)"
  have "filter (\<lambda>r. fst r = k) (map (\<lambda>pr. request_event (ars ! pr_ar pr)) ?left) = map (\<lambda>pr. request_event (ars ! pr_ar pr)) (queue_of k m)"
    using read_inv_left [OF assms, of k] by (simp add: filter_map comp_def request_event_def)
  then have "filter (\<lambda>r. fst r = k) (map request_of new @ map (\<lambda>pr. request_event (ars ! pr_ar pr)) ?left) =
      map request_event (of_id k (ars_seen ars seen))"
    using assms by (simp only: filter_append filter_request) (simp add: read_inv_def key_inv_def)
  then show "mset (filter (\<lambda>r. fst r = k) (map request_of new @ map (\<lambda>pr. request_event (ars ! pr_ar pr)) ?left)) =
      mset (filter (\<lambda>r. fst r = k) (map request_event (ars_seen ars seen)))"
    by (simp only: filter_request)
qed

lemma reads_conserved:
  assumes "sorts_by re_time f"
  shows "mset (map request_of (assemble_reads f ars rs txns)) = mset (map request_of txns) + mset (map request_event ars)"
proof -
  obtain m new where a: "map unplaced (assemble_reads f ars rs txns) = map unplaced txns @ map unplaced new @ map (read_txn ars 0) (concat (map snd m))"
    and inv: "read_inv ars rs (f (read_events ars rs)) m new"
    using assemble_reads_spec [OF assms] by blast
  have "map request_of (assemble_reads f ars rs txns) = map request_of txns @ map request_of new @
      map (\<lambda>pr. request_event (ars ! pr_ar pr)) (concat (map snd m))"
    using arg_cong [OF a, of "map request_of"] by (simp add: comp_def read_txn_def)
  moreover have "mset (ars_seen ars (f (read_events ars rs))) = mset ars"
    using mset_seen(1) [of "f (read_events ars rs)" "read_events ars rs" ars] assms by (simp add: sorts_by_def read_events_seen)
  ultimately show ?thesis using read_inv_conserved [OF inv] by (simp add: add.assoc)
qed

text \<open>The completed reads of an identifier take its addresses in order, and its data in order.\<close>

lemma reads_of_id:
  assumes "sorts_by re_time f"
  shows "\<exists>done. map unplaced (filter (\<lambda>t. \<not> tx_is_write t \<and> tx_complete t \<and> tx_id t = k) (assemble_reads f ars rs [])) = map unplaced done \<and>
    (\<forall>t \<in> set done. finished_read t) \<and>
    prefix (map request_of done) (map request_event (of_id k (ars_seen ars (f (read_events ars rs))))) \<and>
    subseq (concat (map tx_events done)) (of_id k (rs_seen rs (f (read_events ars rs))))"
proof -
  obtain m new where a: "map unplaced (assemble_reads f ars rs []) = map unplaced new @ map (read_txn ars 0) (concat (map snd m))"
    and inv: "read_inv ars rs (f (read_events ars rs)) m new"
    using assemble_reads_spec [OF assms, of ars rs "[]"] by auto
  let ?P = "\<lambda>t. \<not> tx_is_write t \<and> tx_complete t \<and> tx_id t = k"
  have "map unplaced (filter ?P (assemble_reads f ars rs [])) = filter ?P (map unplaced (assemble_reads f ars rs []))"
    by (simp add: filter_map comp_def)
  also have "\<dots> = filter ?P (map unplaced new)"
    by (simp add: a filter_map comp_def read_txn_def)
  also have "\<dots> = map unplaced (filter (\<lambda>t. tx_id t = k) new)"
    using inv by (auto simp: filter_map comp_def read_inv_def finished_read_def intro!: arg_cong [where f = "map unplaced"] filter_cong)
  finally have f: "map unplaced (filter ?P (assemble_reads f ars rs [])) = map unplaced (filter (\<lambda>t. tx_id t = k) new)" .
  have key: "key_inv ars rs (f (read_events ars rs)) k (filter (\<lambda>t. tx_id t = k) new) (queue_of k m)" and fin: "\<forall>t \<in> set new. finished_read t"
    using inv by (simp_all add: read_inv_def)
  have "prefix (map request_of (filter (\<lambda>t. tx_id t = k) new)) (map request_event (of_id k (ars_seen ars (f (read_events ars rs)))))"
    using key by (metis key_inv_def prefixI)
  moreover have "subseq (concat (map tx_events (filter (\<lambda>t. tx_id t = k) new))) (of_id k (rs_seen rs (f (read_events ars rs))))"
    using key unfolding key_inv_def by (meson subseq_order.order_trans subseq_rev_drop_many subseq_order.order_refl)
  ultimately show ?thesis using f fin by auto
qed

lemma assembled_reads:
  assumes "sorts_by re_time f" "t \<in> set (assemble_reads f ars rs [])"
  shows "\<not> tx_is_write t"
proof -
  obtain m new where a: "map unplaced (assemble_reads f ars rs []) = map unplaced new @ map (read_txn ars 0) (concat (map snd m))"
    and inv: "read_inv ars rs (f (read_events ars rs)) m new"
    using assemble_reads_spec [OF assms(1), of ars rs "[]"] by auto
  have "\<not> tx_is_write u" if "u \<in> set (map unplaced new @ map (read_txn ars 0) (concat (map snd m)))" for u
    using that inv by (auto simp: read_inv_def finished_read_def read_txn_def)
  moreover have "unplaced t \<in> set (map unplaced new @ map (read_txn ars 0) (concat (map snd m)))"
    using assms(2) by (simp add: a [symmetric] del: set_append)
  ultimately have "\<not> tx_is_write (unplaced t)" by blast
  then show ?thesis by simp
qed

end
