(* ===== verification/Axi_Handshakes.thy ===== *)
theory Axi_Handshakes
  imports Axi_Reads
begin

text \<open>
  The handshakes of a channel: at which clock edges they are found and since when valid was held, and the clock edges
  themselves.
\<close>

section \<open>Levels at an edge\<close>

definition known_at :: "action_wave \<Rightarrow> axi_signal_map \<Rightarrow> signal_ref \<Rightarrow> signal_ref \<Rightarrow> nat \<Rightarrow> bool" where
  "known_at wave c rv rr ti \<longleftrightarrow> known_binary (read_signal_at wave rv ti (axi_point c)) \<and> known_binary (read_signal_at wave rr ti (axi_point c))"

definition valid_at :: "action_wave \<Rightarrow> axi_signal_map \<Rightarrow> signal_ref \<Rightarrow> nat \<Rightarrow> bool" where
  "valid_at wave c rv ti \<longleftrightarrow> known_high (read_signal_at wave rv ti (axi_point c))"

definition handshake_at :: "action_wave \<Rightarrow> axi_signal_map \<Rightarrow> signal_ref \<Rightarrow> signal_ref \<Rightarrow> nat \<Rightarrow> bool" where
  "handshake_at wave c rv rr ti \<longleftrightarrow> known_at wave c rv rr ti \<and> valid_at wave c rv ti \<and> valid_at wave c rr ti"

text \<open>No valid interval is open after these edges.\<close>

definition fresh_after :: "action_wave \<Rightarrow> axi_signal_map \<Rightarrow> signal_ref \<Rightarrow> signal_ref \<Rightarrow> nat list \<Rightarrow> bool" where
  "fresh_after wave c rv rr tis \<longleftrightarrow>
     (let ks = filter (known_at wave c rv rr) tis
      in ks = [] \<or> \<not> valid_at wave c rv (last ks) \<or> handshake_at wave c rv rr (last ks))"

definition holding :: "action_wave \<Rightarrow> axi_signal_map \<Rightarrow> signal_ref \<Rightarrow> signal_ref \<Rightarrow> nat list \<Rightarrow> bool" where
  "holding wave c rv rr tis \<longleftrightarrow>
     (tis \<noteq> [] \<longrightarrow> known_at wave c rv rr (hd tis) \<and> valid_at wave c rv (hd tis)) \<and>
     (\<forall>t \<in> set tis. \<not> handshake_at wave c rv rr t \<and> (known_at wave c rv rr t \<longrightarrow> valid_at wave c rv t))"

text \<open>The begin of an event is the first edge of the interval over which valid was held.\<close>

definition begins_interval :: "action_wave \<Rightarrow> axi_signal_map \<Rightarrow> signal_ref \<Rightarrow> signal_ref \<Rightarrow> nat list \<Rightarrow> axi_event \<Rightarrow> bool" where
  "begins_interval wave c rv rr edges ev \<longleftrightarrow>
     (\<exists>pre mid post. edges = pre @ mid @ ae_time_idx ev # post \<and> fresh_after wave c rv rr pre \<and> holding wave c rv rr mid \<and>
        ae_valid_begin ev = wf_time_at wave (hd (mid @ [ae_time_idx ev])))"

lemma fresh_snoc:
  "fresh_after wave c rv rr (tis @ [t]) \<longleftrightarrow>
     (if known_at wave c rv rr t then \<not> valid_at wave c rv t \<or> handshake_at wave c rv rr t else fresh_after wave c rv rr tis)"
  by (simp add: fresh_after_def Let_def)

lemma holding_snoc:
  "holding wave c rv rr tis \<Longrightarrow> \<not> handshake_at wave c rv rr t \<Longrightarrow> (known_at wave c rv rr t \<longrightarrow> valid_at wave c rv t) \<Longrightarrow>
     (tis = [] \<Longrightarrow> known_at wave c rv rr t) \<Longrightarrow> holding wave c rv rr (tis @ [t])"
  by (cases tis) (auto simp: holding_def)

definition event_ok :: "action_wave \<Rightarrow> axi_signal_map \<Rightarrow> signal_ref \<Rightarrow> signal_ref \<Rightarrow> string \<Rightarrow> nat list \<Rightarrow> axi_event \<Rightarrow> bool" where
  "event_ok wave c rv rr channel edges ev \<longleftrightarrow>
     ae_channel ev = channel \<and> ae_kind ev = ''handshake'' \<and> ae_time ev = wf_time_at wave (ae_time_idx ev) \<and> begins_interval wave c rv rr edges ev"

declare channel_loop.simps(2) [simp del]

lemma channel_loop_spec:
  assumes "fresh_after wave c rv rr pre" "holding wave c rv rr mid" "active \<longleftrightarrow> mid \<noteq> []" "active \<Longrightarrow> since = wf_time_at wave (hd mid)"
  shows "\<exists>new. channel_loop wave c rv rr channel tis active since events complete =
      (events @ new, complete \<and> (\<forall>t \<in> set tis. known_at wave c rv rr t)) \<and>
    map ae_time_idx new = filter (handshake_at wave c rv rr) tis \<and>
    (\<forall>ev \<in> set new. event_ok wave c rv rr channel (pre @ mid @ tis) ev)"
  using assms
proof (induction tis arbitrary: pre mid active since events complete)
  case (Cons t tis)
  let ?K = "known_at wave c rv rr t" and ?V = "valid_at wave c rv t" and ?H = "handshake_at wave c rv rr t"
  let ?since = "if ?V \<and> \<not> active then wf_time_at wave t else since"
  let ?ev = "axi_event_init\<lparr>ae_channel := channel, ae_time := wf_time_at wave t, ae_time_idx := t, ae_valid_begin := ?since, ae_kind := ''handshake''\<rparr>"
  have step: "channel_loop wave c rv rr channel (t # tis) active since events complete =
    (if \<not> ?K then channel_loop wave c rv rr channel tis active since events False
     else if ?H then channel_loop wave c rv rr channel tis False ?since (events @ [?ev]) complete
     else channel_loop wave c rv rr channel tis ?V ?since events complete)"
    by (simp add: channel_loop.simps(2) Let_def known_at_def valid_at_def handshake_at_def)
  consider (unknown) "\<not> ?K" | (hand) "?K" "?H" | (waiting) "?K" "\<not> ?H" "?V" | (idle) "?K" "\<not> ?H" "\<not> ?V" by blast
  then show ?case
  proof cases
    case unknown
    have nh: "\<not> ?H" using unknown by (simp add: handshake_at_def)
    have e: "channel_loop wave c rv rr channel (t # tis) active since events complete = channel_loop wave c rv rr channel tis active since events False"
      using unknown by (simp add: step)
    show ?thesis
    proof (cases active)
      case True
      then have "holding wave c rv rr (mid @ [t])" using Cons.prems unknown nh by (intro holding_snoc) auto
      with Cons.IH [of pre "mid @ [t]" active since events False] Cons.prems True show ?thesis
        unfolding e using unknown nh by auto
    next
      case False
      then have "fresh_after wave c rv rr (pre @ [t])" using Cons.prems unknown by (simp add: fresh_snoc)
      with Cons.IH [of "pre @ [t]" "[]" active since events False] Cons.prems False show ?thesis
        unfolding e using unknown nh by (auto simp: holding_def)
    qed
  next
    case hand
    have "?since = wf_time_at wave (hd (mid @ [t]))" using Cons.prems hand by (cases active) (auto simp: handshake_at_def)
    then have "begins_interval wave c rv rr (pre @ mid @ t # tis) ?ev"
      unfolding begins_interval_def using Cons.prems(1,2) by (intro exI [of _ pre] exI [of _ mid] exI [of _ tis]) simp
    then have ev: "event_ok wave c rv rr channel (pre @ mid @ t # tis) ?ev" by (simp add: event_ok_def)
    have "fresh_after wave c rv rr ((pre @ mid) @ [t])" using hand unfolding fresh_snoc by simp
    with Cons.IH [of "(pre @ mid) @ [t]" "[]" False ?since "events @ [?ev]" complete] obtain new where
      "channel_loop wave c rv rr channel tis False ?since (events @ [?ev]) complete =
        ((events @ [?ev]) @ new, complete \<and> (\<forall>t \<in> set tis. known_at wave c rv rr t))"
      "map ae_time_idx new = filter (handshake_at wave c rv rr) tis" "\<forall>ev \<in> set new. event_ok wave c rv rr channel (pre @ mid @ t # tis) ev"
      by (auto simp: holding_def)
    then show ?thesis using hand ev by (intro exI [of _ "?ev # new"]) (auto simp: step)
  next
    case waiting
    then have "holding wave c rv rr (mid @ [t])" using Cons.prems by (intro holding_snoc) auto
    moreover have "?since = wf_time_at wave (hd (mid @ [t]))" using Cons.prems waiting by (cases active) auto
    moreover have "channel_loop wave c rv rr channel (t # tis) active since events complete = channel_loop wave c rv rr channel tis True ?since events complete"
      using waiting by (simp add: step)
    ultimately show ?thesis
      using Cons.IH [of pre "mid @ [t]" True ?since events complete] Cons.prems(1) waiting by simp
  next
    case idle
    then have "fresh_after wave c rv rr ((pre @ mid) @ [t])" unfolding fresh_snoc by simp
    with Cons.IH [of "(pre @ mid) @ [t]" "[]" False ?since events complete] show ?thesis
      using idle by (auto simp: step holding_def)
  qed
qed auto

section \<open>The clock edges\<close>

lemma clock_edge_loop_filter:
  "clock_edge_loop wave c ref lo hi p tis =
     filter (\<lambda>ti. lo \<le> wf_time_at wave ti \<and> wf_time_at wave ti \<le> hi \<and> edge_selected wave c ref ti) (visited p tis)"
  by (induction tis arbitrary: p) (auto simp: not_less)

lemma selected_edges_exact:
  assumes "4294967295 \<notin> set (wf_time_indices_of wave (wf_find_signal wave (ax_aclk c)))" "wf_find_signal wave (ax_aclk c) \<noteq> 0"
  shows "selected_clock_edges wave c lo hi =
    filter (\<lambda>ti. lo \<le> wf_time_at wave ti \<and> wf_time_at wave ti \<le> hi \<and> edge_selected wave c (wf_find_signal wave (ax_aclk c)) ti)
      (remdups_adj (wf_time_indices_of wave (wf_find_signal wave (ax_aclk c))))"
  using assms by (simp add: selected_clock_edges_def Let_def clock_edge_loop_filter visited_remdups)

lemma active_edges_filter:
  "fst (active_edge_loop wave c ref tis) =
     filter (\<lambda>ti. known_binary (read_signal_at wave ref ti (axi_point c)) \<and> \<not> reset_asserted c (read_signal_at wave ref ti (axi_point c))) tis \<and>
   (snd (active_edge_loop wave c ref tis) \<longleftrightarrow> (\<forall>ti \<in> set tis. known_binary (read_signal_at wave ref ti (axi_point c))))"
proof (induction tis)
  case (Cons ti tis)
  then show ?case by (cases "active_edge_loop wave c ref tis") (simp add: Let_def)
qed simp

section \<open>Order\<close>

lemma renumbered:
  assumes "length is = length ts"
  shows "map unplaced (map2 (\<lambda>i t. t\<lparr>tx_index := i\<rparr>) is ts) = map unplaced ts" "map tx_index (map2 (\<lambda>i t. t\<lparr>tx_index := i\<rparr>) is ts) = is"
    "map tx_start (map2 (\<lambda>i t. t\<lparr>tx_index := i\<rparr>) is ts) = map tx_start ts"
  using assms by (induction "is" ts rule: list_induct2) simp_all

lemma reindex_fields:
  "map unplaced (reindex ts) = map unplaced ts" "map tx_index (reindex ts) = [0..<length ts]" "map tx_start (reindex ts) = map tx_start ts"
  unfolding reindex_def by (simp_all only: renumbered length_upt diff_zero)

end
