(* ===== verification/Axi_Handlers.thy ===== *)
theory Axi_Handlers
  imports Axi_Scan Apb_Handlers "HOL-Library.Product_Lexorder"
begin

unbundle bit_operations_syntax

text \<open>
  The request handlers of \<open>engine/actions/protocol/axi_actions.cpp\<close>. The maps of configurations and cursors are the state, the
  waveform is absent when none is open. \<open>std::sort\<close> is a parameter where its keys can be equal. The average of depths is
  a \<open>double\<close>: the text of the quotient is the parameter \<open>ratio\<close>.
\<close>

section \<open>Configurations\<close>

definition axi_recommended_actions :: json where
  "axi_recommended_actions = JArray [
     JObject [(''action'', JString ''value.at''), (''purpose'', JString (utf8 [230, 140, 137, 228, 184, 128, 228, 184, 170, 230,
       136, 150, 229, 164, 154, 228, 184, 170, 230, 140, 135, 229, 174, 154, 230, 151, 182, 233, 151, 180, 232, 175, 187, 229, 143, 150,
       229, 141, 149, 228, 191, 161, 229, 143, 183, 227, 128, 129, 229, 145, 189, 229, 144, 141, 228, 191, 161, 229, 143, 183, 229, 136,
       151, 232, 161, 168, 230, 136, 150, 230, 142, 165, 229, 143, 163, 233, 133, 141, 231, 189, 174, 231, 187, 180, 230, 138, 164, 231,
       154, 132, 229, 128, 188, 227, 128, 130]))],
     JObject [(''action'', JString ''axi.query''), (''purpose'', JString (utf8 [230, 140, 137, 233, 128, 154, 233, 129, 147, 230,
       143, 161, 230, 137, 139, 239, 188, 140, 230, 136, 150, 230, 140, 137, 230, 150, 185, 229, 144, 145, 227, 128, 129, 229, 156, 176,
       229, 157, 128, 227, 128, 129] @ ''ID '' @ utf8 [228, 184, 142, 229, 156, 176, 229, 157, 128, 230, 143, 161, 230, 137, 139, 230,
       151, 182, 233, 151, 180, 230, 159, 165, 232, 175, 162, 233, 135, 141, 229, 187, 186, 229, 144, 142, 231, 154, 132] @ '' AXI transaction'' @
       utf8 [227, 128, 130]))],
     JObject [(''action'', JString ''axi.transaction.cursor''), (''purpose'', JString (utf8 [229, 156, 168] @ '' AXI transfer '' @
       utf8 [233, 151, 180, 231, 167, 187, 229, 138, 168, 230, 184, 184, 230, 160, 135, 227, 128, 130]))],
     JObject [(''action'', JString ''axi.analysis''), (''purpose'', JString (utf8 [230, 177, 135, 230, 128, 187] @ '' AXI '' @
       utf8 [232, 161, 140, 228, 184, 186, 227, 128, 130]))],
     JObject [(''action'', JString ''axi.statistics''), (''purpose'', JString (utf8 [230, 140, 137, 230, 150, 185, 229, 144, 145,
       227, 128, 129] @ ''ID '' @ utf8 [229, 146, 140, 229, 156, 176, 229, 157, 128, 232, 191, 135, 230, 187, 164, 231, 187, 159, 232,
       174, 161, 229, 183, 178, 229, 174, 140, 230, 136, 144] @ '' AXI '' @ utf8 [228, 186, 139, 229, 138, 161, 227, 128, 130]))],
     JObject [(''action'', JString ''axi.export''), (''purpose'', JString (utf8 [229, 175, 188, 229, 135, 186] @ '' AXI '' @
       utf8 [230, 149, 176, 230, 141, 174, 227, 128, 130]))],
     JObject [(''action'', JString ''axi.channel_stall''), (''purpose'', JString (utf8 [229, 174, 158, 233, 170, 140, 230, 128,
       167] @ '' AXI stall '' @ utf8 [229, 136, 134, 230, 158, 144, 227, 128, 130]))],
     JObject [(''action'', JString ''axi.latency_outlier''), (''purpose'', JString (utf8 [229, 174, 158, 233, 170, 140, 230, 128,
       167] @ '' AXI latency '' @ utf8 [229, 188, 130, 229, 184, 184, 227, 128, 130]))],
     JObject [(''action'', JString ''axi.outstanding_timeline''), (''purpose'', JString (utf8 [229, 174, 158, 233, 170, 140, 230,
       128, 167] @ '' AXI outstanding '' @ utf8 [230, 151, 182, 233, 151, 180, 231, 186, 191, 227, 128, 130]))],
     JObject [(''action'', JString ''axi.request_response_pair''), (''purpose'', JString (utf8 [229, 174, 158, 233, 170, 140,
       230, 128, 167] @ '' AXI '' @ utf8 [232, 175, 183, 230, 177, 130, 229, 147, 141, 229, 186, 148, 233, 133, 141, 229, 175, 185, 227,
       128, 130]))]]"

definition axi_signal_map_json :: "axi_signal_map \<Rightarrow> json" where
  "axi_signal_map_json m =
     (let ms = [(''name'', JString (ax_name m)), (''sampling_mode'', JString ''clock_edge''), (''clock'', JString (ax_aclk m)),
         (''reset'', JObject [(''signal'', JString (ax_aresetn m)), (''polarity'', JString (ax_reset_polarity m))]),
         (''edge'', JString (ax_edge m)),
         (''channels'', JObject [
            (''aw'', JObject [(''addr'', JString (ax_awaddr m)), (''id'', JString (ax_awid m)), (''len'', JString (ax_awlen m)), (''size'', JString (ax_awsize m)), (''burst'', JString (ax_awburst m)), (''valid'', JString (ax_awvalid m)), (''ready'', JString (ax_awready m))]),
            (''w'', JObject [(''data'', JString (ax_wdata m)), (''strb'', JString (ax_wstrb m)), (''last'', JString (ax_wlast m)), (''valid'', JString (ax_wvalid m)), (''ready'', JString (ax_wready m))]),
            (''b'', JObject [(''id'', JString (ax_bid m)), (''resp'', JString (ax_bresp m)), (''valid'', JString (ax_bvalid m)), (''ready'', JString (ax_bready m))]),
            (''ar'', JObject [(''addr'', JString (ax_araddr m)), (''id'', JString (ax_arid m)), (''len'', JString (ax_arlen m)), (''size'', JString (ax_arsize m)), (''burst'', JString (ax_arburst m)), (''valid'', JString (ax_arvalid m)), (''ready'', JString (ax_arready m))]),
            (''r'', JObject [(''id'', JString (ax_rid m)), (''data'', JString (ax_rdata m)), (''resp'', JString (ax_rresp m)), (''last'', JString (ax_rlast m)), (''valid'', JString (ax_rvalid m)), (''ready'', JString (ax_rready m))])])]
      in JObject (if ax_sample_point m \<noteq> [] then member_set ms ''sample_point'' (JString (ax_sample_point m)) else ms))"

definition axi_signal_keys :: "string list" where
  "axi_signal_keys =
     [''awid'', ''awaddr'', ''awlen'', ''awsize'', ''awburst'', ''awvalid'', ''awready'', ''wdata'', ''wstrb'', ''wlast'',
      ''wvalid'', ''wready'', ''bid'', ''bresp'', ''bvalid'', ''bready'', ''arid'', ''araddr'', ''arlen'', ''arsize'',
      ''arburst'', ''arvalid'', ''arready'', ''rid'', ''rdata'', ''rresp'', ''rlast'', ''rvalid'', ''rready'']"

fun strings_at :: "json \<Rightarrow> string list \<Rightarrow> string list handled" where
  "strings_at v [] = Inr []"
| "strings_at v (k # ks) = rbind (string_at_key v k) (\<lambda>s. rbind (strings_at v ks) (\<lambda>rest. Inr (s # rest)))"

text \<open>The outer result is an exception, the inner one a message.\<close>

definition parse_axi_signal_map :: "string \<Rightarrow> json \<Rightarrow> (string + axi_signal_map) handled" where
  "parse_axi_signal_map name j =
     rbind (string_at_key j ''clock'') (\<lambda>clock.
     rbind (rbind (json_at j ''reset'') (\<lambda>r. string_at_key r ''signal'')) (\<lambda>reset.
     rbind (rbind (json_at j ''reset'') (\<lambda>r. string_at_key r ''polarity'')) (\<lambda>polarity.
     rbind (json_value j ''edge'' ''negedge'' get_string) (\<lambda>edge.
     rbind (json_value j ''sample_point'' [] get_string) (\<lambda>sample_point.
     rbind (strings_at j axi_signal_keys) (\<lambda>f.
       if edge = ''negedge'' \<and> sample_point \<noteq> [] then Inr (Inl ''negedge AXI config must omit sample_point'')
       else
         Inr (Inr \<lparr>ax_name = name, ax_aclk = clock, ax_aresetn = reset, ax_reset_polarity = polarity, ax_edge = edge,
           ax_sample_point = (if edge \<noteq> ''negedge'' \<and> sample_point = [] then ''before'' else sample_point),
           ax_awid = f ! 0, ax_awaddr = f ! 1, ax_awlen = f ! 2, ax_awsize = f ! 3, ax_awburst = f ! 4, ax_awvalid = f ! 5, ax_awready = f ! 6,
           ax_wdata = f ! 7, ax_wstrb = f ! 8, ax_wlast = f ! 9, ax_wvalid = f ! 10, ax_wready = f ! 11, ax_bid = f ! 12, ax_bresp = f ! 13,
           ax_bvalid = f ! 14, ax_bready = f ! 15, ax_arid = f ! 16, ax_araddr = f ! 17, ax_arlen = f ! 18, ax_arsize = f ! 19, ax_arburst = f ! 20,
           ax_arvalid = f ! 21, ax_arready = f ! 22, ax_rid = f ! 23, ax_rdata = f ! 24, ax_rresp = f ! 25, ax_rlast = f ! 26, ax_rvalid = f ! 27,
           ax_rready = f ! 28\<rparr>)))))))"

definition axi_signal_fields :: "axi_signal_map \<Rightarrow> (string \<times> string) list" where
  "axi_signal_fields m =
     [(''clock'', ax_aclk m), (''reset'', ax_aresetn m), (''awvalid'', ax_awvalid m), (''awready'', ax_awready m), (''awaddr'', ax_awaddr m), (''awid'', ax_awid m),
      (''awlen'', ax_awlen m), (''awsize'', ax_awsize m), (''awburst'', ax_awburst m), (''wvalid'', ax_wvalid m), (''wready'', ax_wready m), (''wdata'', ax_wdata m),
      (''wstrb'', ax_wstrb m), (''wlast'', ax_wlast m), (''bvalid'', ax_bvalid m), (''bready'', ax_bready m), (''bid'', ax_bid m), (''bresp'', ax_bresp m),
      (''arvalid'', ax_arvalid m), (''arready'', ax_arready m), (''araddr'', ax_araddr m), (''arid'', ax_arid m), (''arlen'', ax_arlen m), (''arsize'', ax_arsize m),
      (''arburst'', ax_arburst m), (''rvalid'', ax_rvalid m), (''rready'', ax_rready m), (''rdata'', ax_rdata m), (''rid'', ax_rid m), (''rresp'', ax_rresp m),
      (''rlast'', ax_rlast m)]"

record axi_state =
  xa_configs :: "(string, axi_signal_map) omap"
  xa_cursors :: "(string, nat) omap"

definition axi_value_source_entries :: "axi_state \<Rightarrow> string \<Rightarrow> (string \<times> string) list option" where
  "axi_value_source_entries st name =
     map_option (\<lambda>m.
       [(''clock'', ax_aclk m), (''reset'', ax_aresetn m), (''awid'', ax_awid m), (''awaddr'', ax_awaddr m), (''awlen'', ax_awlen m), (''awsize'', ax_awsize m),
        (''awburst'', ax_awburst m), (''awvalid'', ax_awvalid m), (''awready'', ax_awready m), (''wdata'', ax_wdata m), (''wstrb'', ax_wstrb m), (''wlast'', ax_wlast m),
        (''wvalid'', ax_wvalid m), (''wready'', ax_wready m), (''bid'', ax_bid m), (''bresp'', ax_bresp m), (''bvalid'', ax_bvalid m), (''bready'', ax_bready m),
        (''arid'', ax_arid m), (''araddr'', ax_araddr m), (''arlen'', ax_arlen m), (''arsize'', ax_arsize m), (''arburst'', ax_arburst m), (''arvalid'', ax_arvalid m),
        (''arready'', ax_arready m), (''rid'', ax_rid m), (''rdata'', ax_rdata m), (''rresp'', ax_rresp m), (''rlast'', ax_rlast m), (''rvalid'', ax_rvalid m),
        (''rready'', ax_rready m)])
       (omap_find name (xa_configs st))"

section \<open>Transactions as JSON\<close>

definition render_bits :: "string \<Rightarrow> value_render_format \<Rightarrow> string" where
  "render_bits bits format =
     (if bits = [] then [CHR 0x27] @ ''h0'' else render_logic_value (logic_value_from_bits bits (int (length bits))) format)"

definition axi_write_phase_order :: "axi_transaction \<Rightarrow> string" where
  "axi_write_phase_order txn =
     (if \<not> tx_is_write txn \<or> tx_events txn = [] then ''unknown''
      else let first_w = ae_time (hd (tx_events txn))
           in if first_w < tx_start txn then ''w_before_aw'' else if first_w = tx_start txn then ''same_cycle'' else ''aw_before_w'')"

definition length_value :: "string \<Rightarrow> u64" where
  "length_value bits = foldl shift_in 0 bits"

definition latency_of :: "axi_transaction \<Rightarrow> u64" where
  "latency_of txn = (if tx_end txn \<ge> tx_start txn then tx_end txn - tx_start txn else 0)"

definition axi_beat_json ::
  "action_wave \<Rightarrow> time_render_unit \<Rightarrow> value_render_format \<Rightarrow> bool \<Rightarrow> nat \<Rightarrow> axi_event \<Rightarrow> json" where
  "axi_beat_json wave unit format is_write i ev =
     JObject [(''index'', JUnsigned (i + 1)), (''handshake_time'', JString (aw_format_time wave (ae_time ev) unit)),
       (''data'', JString (render_bits (ae_data ev) format)), (''last'', JBool (ae_last ev)),
       (if is_write then (''wstrb'', JString (render_bits (ae_strb ev) format)) else (''resp'', JString (render_bits (ae_resp ev) format)))]"

definition axi_data_json ::
  "axi_transaction \<Rightarrow> action_wave \<Rightarrow> time_render_unit \<Rightarrow> value_render_format \<Rightarrow> bool \<Rightarrow> json" where
  "axi_data_json txn wave unit format include_data =
     (let known_length = (tx_length txn \<noteq> [] \<and> length (tx_length txn) \<le> 64 \<and> list_all (\<lambda>b. b = CHR ''0'' \<or> b = CHR ''1'') (tx_length txn));
          events = tx_events txn
      in JObject ([(''channel'', JString (if tx_is_write txn then ''w'' else ''r'')), (''beat_count'', JUnsigned (length events)),
           (''expected_beat_count'', if known_length then JUnsigned (unat (length_value (tx_length txn) + 1)) else JNull)] @
           (if events = [] then []
            else [(''valid_begin_time'', JString (aw_format_time wave (ae_valid_begin (hd events)) unit)),
                  (''first_handshake_time'', JString (aw_format_time wave (ae_time (hd events)) unit)),
                  (''last_handshake_time'', JString (aw_format_time wave (ae_time (last events)) unit))]) @
           (if include_data then [(''beats'', JArray (map2 (axi_beat_json wave unit format (tx_is_write txn)) [0..<length events] events))] else [])))"

definition axi_txn_json ::
  "axi_transaction \<Rightarrow> action_wave \<Rightarrow> time_render_unit \<Rightarrow> value_render_format \<Rightarrow> bool \<Rightarrow> bool \<Rightarrow> json" where
  "axi_txn_json txn wave unit format matched include_data =
     JObject ([(''direction'', JString (if tx_is_write txn then ''write'' else ''read'')),
       (''latency'', JString (aw_format_time wave (latency_of txn) unit)),
       (''response_dependency_violation'', JBool False),
       (''address'', JObject [(''channel'', JString (if tx_is_write txn then ''aw'' else ''ar'')),
          (''handshake_time'', JString (aw_format_time wave (tx_start txn) unit)),
          (''valid_begin_time'', JString (aw_format_time wave (tx_address_valid txn) unit)),
          (''addr'', JString (render_bits (tx_address txn) format)), (''id'', JString (render_bits (tx_id txn) format)),
          (''len'', JString (render_bits (tx_length txn) format)), (''size'', JString (render_bits (tx_size txn) format)),
          (''burst'', JString (render_bits (tx_burst txn) format))]),
       (''response'', JObject [(''channel'', JString (if tx_is_write txn then ''b'' else ''r'')),
          (''handshake_time'', JString (aw_format_time wave (tx_end txn) unit)), (''resp'', JString (render_bits (tx_resp txn) format))])] @
       (if tx_is_write txn then [(''phase_order'', JString (axi_write_phase_order txn))] else []) @
       [(''data'', axi_data_json txn wave unit format include_data)] @
       (if matched then [(''match_time'', JString (aw_format_time wave (tx_start txn) unit))] else []))"

section \<open>The parts the handlers share\<close>

definition require_waveform :: "string \<Rightarrow> action_wave option \<Rightarrow> json + action_wave" where
  "require_waveform action wave =
     (case wave of
        None \<Rightarrow> Inl (error_response ''WAVEFORM_NOT_LOADED'' (''action requires waveform file: '' @ action))
      | Some w \<Rightarrow> Inr w)"

definition resolve_axi_config :: "axi_state \<Rightarrow> json \<Rightarrow> string \<Rightarrow> (json + axi_signal_map) handled" where
  "resolve_axi_config st args action =
     rbind (string_at_key args ''name'') (\<lambda>name.
       Inr (case omap_find name (xa_configs st) of
              Some c \<Rightarrow> Inr c
            | None \<Rightarrow>
                Inl (JObject [(''ok'', JBool False), (''error'', JObject [
                  (''code'', JString ''CONFIG_NOT_FOUND''), (''message'', JString (''axi config not found: '' @ name)),
                  (''recoverable'', JBool True), (''error_layer'', JString ''handler''), (''invalid_arg'', JString ''args.name''),
                  (''expected'', JString ''name of a previously loaded axi config''), (''missing_name'', JString name),
                  (''missing_resource'', JString ''axi config''),
                  (''correct_example'', JObject [(''api_version'', JString ''xdebug.v1''), (''action'', JString action),
                     (''target'', JObject [(''session_id'', JString ''case_a'')]),
                     (''args'', JObject ((''name'', JString ''axi0'') #
                        (if action = ''axi.query'' then [(''direction'', JString ''write''), (''query'', JObject [(''line_limit'', JInteger 8)])] else [])))]),
                  (''example_note'', JString ''Example only; choose an existing config name or load this config before using it.''),
                  (''next_actions'', JArray [JString ''Call axi.config.list to inspect loaded configs.'',
                     JString ''Call axi.config.load before this action.''])])])))"

definition parse_time_range :: "json \<Rightarrow> action_wave \<Rightarrow> (json + u64 \<times> u64) handled" where
  "parse_time_range args wave =
     rbind (json_value args ''time_range'' (JObject []) Inr) (\<lambda>range_json.
     rbind (time_bound wave range_json ''begin'' False (aw_min_time wave)) (\<lambda>lo.
       case lo of
         Inl e \<Rightarrow> Inr (Inl e)
       | Inr lo \<Rightarrow>
           rbind (time_bound wave range_json ''end'' True (aw_max_time wave)) (\<lambda>hi.
             case hi of
               Inl e \<Rightarrow> Inr (Inl e)
             | Inr hi \<Rightarrow> Inr (if lo > hi then Inl (error_response ''TIME_RANGE_INVALID'' ''end is before begin'') else Inr (lo, hi)))))"

text \<open>What every request on transactions starts with: the configuration, the time range and the scan.\<close>

record axi_request =
  rq_args :: json
  rq_wave :: action_wave
  rq_config :: axi_signal_map
  rq_begin :: u64
  rq_end :: u64
  rq_scan :: axi_scan_result

definition axi_setup ::
  "(read_event list \<Rightarrow> read_event list) \<Rightarrow> (string \<Rightarrow> string option) \<Rightarrow> action_wave option \<Rightarrow> axi_state \<Rightarrow> json \<Rightarrow> string \<Rightarrow> (json + axi_request) handled" where
  "axi_setup sort_reads getenv wave st req action =
     (case require_waveform action wave of
        Inl e \<Rightarrow> Inr (Inl e)
      | Inr w \<Rightarrow>
          rbind (json_value req ''args'' (JObject []) Inr) (\<lambda>args.
          rbind (resolve_axi_config st args action) (\<lambda>found.
            case found of
              Inl e \<Rightarrow> Inr (Inl e)
            | Inr c \<Rightarrow>
                rbind (parse_time_range args w) (\<lambda>times.
                  case times of
                    Inl e \<Rightarrow> Inr (Inl e)
                  | Inr (lo, hi) \<Rightarrow>
                      Inr (rbind (scan_axi sort_reads getenv w c lo hi) (\<lambda>scan.
                        Inr \<lparr>rq_args = args, rq_wave = w, rq_config = c, rq_begin = lo, rq_end = hi, rq_scan = scan\<rparr>))))))"

definition field_matches :: "string \<Rightarrow> json \<Rightarrow> filter_result handled" where
  "field_matches bits filt =
     (if json_is_null filt \<or> json_empty filt then Inr FYes
      else if length bits > 64 \<or> \<not> list_all (\<lambda>b. b = CHR ''0'' \<or> b = CHR ''1'') bits then Inr FUnresolved
      else
        let actual = foldl shift_in 0 bits
        in rbind (string_at_key filt ''mode'') (\<lambda>mode.
             if mode = ''exact'' then rbind (json_at filt ''values'') (\<lambda>vs. exact_match actual (json_items vs))
             else if mode = ''range'' then
               rbind (rbind (string_at_key filt ''begin'') logic_u64) (\<lambda>lo.
                 if lo = None then Inr FUnresolved
                 else rbind (rbind (string_at_key filt ''end'') logic_u64) (\<lambda>hi.
                   if hi = None then Inr FUnresolved
                   else Inr (if the lo \<le> actual \<and> actual \<le> the hi then FYes else FNo)))
             else
               rbind (rbind (string_at_key filt ''value'') logic_u64) (\<lambda>expected.
                 if expected = None then Inr FUnresolved
                 else rbind (rbind (string_at_key filt ''mask'') logic_u64) (\<lambda>mask.
                   if mask = None then Inr FUnresolved
                   else Inr (if actual AND the mask = the expected AND the mask then FYes else FNo)))))"

definition member_if :: "json \<Rightarrow> string \<Rightarrow> members" where
  "member_if v k = (case json_get v k of None \<Rightarrow> [] | Some w \<Rightarrow> [(k, w)])"

section \<open>Configurations\<close>

definition axi_config_list :: "action_wave option \<Rightarrow> axi_state \<Rightarrow> json \<Rightarrow> json handled" where
  "axi_config_list wave st req =
     (case require_waveform ''axi.config.list'' wave of
        Inl e \<Rightarrow> Inr e
      | Inr w \<Rightarrow>
          rbind (json_value req ''args'' (JObject []) Inr) (\<lambda>args.
            if json_contains args ''name'' then
              rbind (string_at_key args ''name'') (\<lambda>name.
                Inr (case omap_find name (xa_configs st) of
                       None \<Rightarrow> error_response ''CONFIG_NOT_FOUND'' (''AXI config not found: '' @ name)
                     | Some c \<Rightarrow> ok_response [(''name'', JString name), (''status'', JString ''found'')] [(''config'', axi_signal_map_json c)]))
            else
              Inr (ok_response [(''count'', JUnsigned (length (xa_configs st)))]
                [(''configs'', JArray (map (\<lambda>(n, c). axi_signal_map_json c) (xa_configs st)))])))"

definition one_bit_fields :: "string list" where
  "one_bit_fields = [''clock'', ''reset'', ''awvalid'', ''awready'', ''wvalid'', ''wready'', ''wlast'', ''bvalid'', ''bready'', ''arvalid'',
     ''arready'', ''rvalid'', ''rready'', ''rlast'']"

definition first_edge_of :: "action_wave \<Rightarrow> signal_ref \<Rightarrow> u64 option" where
  "first_edge_of wave ref =
     (case wf_time_indices_of wave ref of
        [] \<Rightarrow> None
      | [i] \<Rightarrow> Some (wf_time_at wave i)
      | i # j # rest \<Rightarrow> Some (if wf_time_at wave i = aw_min_time wave then wf_time_at wave j else wf_time_at wave i))"

text \<open>The loop over the signals of a configuration: the entries so far and the first edge of the clock.\<close>

fun check_fields :: "action_wave \<Rightarrow> (string \<times> string) list \<Rightarrow> json list \<Rightarrow> u64 option \<Rightarrow> json + json list \<times> u64 option" where
  "check_fields wave [] signals edge = Inr (signals, edge)"
| "check_fields wave ((field, path) # rest) signals edge =
     (let ref = wf_find_signal wave path
      in if ref = 0 then Inl (error_response ''CONFIG_SIGNAL_NOT_FOUND'' (''AXI '' @ field @ '' signal not found: '' @ path))
         else if \<not> aw_is_loaded wave ref \<and> aw_load_signal wave ref \<noteq> 1 then
           Inl (error_response ''VALUE_NOT_AVAILABLE'' ''failed to load AXI signal'')
         else case wf_signal_info wave ref of
                None \<Rightarrow> Inl (error_response ''VALUE_NOT_AVAILABLE'' ''AXI signal metadata unavailable'')
              | Some info \<Rightarrow>
                  if field \<in> set one_bit_fields \<and> si_width info \<noteq> 1 then
                    Inl (error_response ''INVALID_FIELD'' ''AXI control signal must resolve to one bit'')
                  else
                    check_fields wave rest
                      (signals @ [JObject [(''field'', JString field), (''requested_path'', JString path), (''resolved_path'', JString path),
                         (''width'', JUnsigned (unat (si_width info))), (''status'', JString ''ok'')]])
                      (if field = ''clock'' \<and> first_edge_of wave ref \<noteq> None then first_edge_of wave ref else edge))"

definition axi_config_source :: "(string \<Rightarrow> config_file) \<Rightarrow> json \<Rightarrow> (json + json) handled" where
  "axi_config_source read_json args =
     (if json_contains args ''config'' then rbind (json_at args ''config'') (\<lambda>v. Inr (Inr v))
      else rbind (string_at_key args ''config_path'') (\<lambda>path.
             case read_json path of
               Unreadable \<Rightarrow> Inr (Inl (error_response ''INVALID_FIELD'' ''cannot read AXI config_path''))
             | Bad_Json what \<Rightarrow> Inr (Inl (error_response ''INVALID_FIELD'' (''invalid AXI config JSON: '' @ what)))
             | Parsed v \<Rightarrow> Inr (Inr v)))"

definition axi_store_config :: "action_wave \<Rightarrow> axi_state \<Rightarrow> axi_signal_map \<Rightarrow> json \<times> axi_state" where
  "axi_store_config wave st c =
     (case check_fields wave (axi_signal_fields c) [] None of
        Inl e \<Rightarrow> (e, st)
      | Inr (signals, None) \<Rightarrow> (error_response ''VALUE_NOT_AVAILABLE'' ''AXI clock has no edges'', st)
      | Inr (signals, Some first_edge) \<Rightarrow>
          (ok_response [(''name'', JString (ax_name c)), (''status'', JString ''loaded'')]
             [(''config'', axi_signal_map_json c),
              (''validation'', JObject [(''status'', JString ''ok''),
                 (''clock'', JObject [(''status'', JString ''ok''), (''edge'', JString (ax_edge c)), (''first_edge'', JUnsigned (unat first_edge))]),
                 (''signals'', JArray signals)]),
              (''recommended_actions'', axi_recommended_actions)],
           st\<lparr>xa_configs := omap_set (ax_name c) c (xa_configs st), xa_cursors := forget_cursors (ax_name c) (xa_cursors st)\<rparr>))"

definition axi_config_load ::
  "(string \<Rightarrow> config_file) \<Rightarrow> action_wave option \<Rightarrow> axi_state \<Rightarrow> json \<Rightarrow> (json \<times> axi_state) handled" where
  "axi_config_load read_json wave st req =
     (case require_waveform ''axi.config.load'' wave of
        Inl e \<Rightarrow> Inr (e, st)
      | Inr w \<Rightarrow>
          rbind (json_at req ''args'') (\<lambda>args.
          rbind (axi_config_source read_json args) (\<lambda>source.
            case source of
              Inl e \<Rightarrow> Inr (e, st)
            | Inr source \<Rightarrow>
                rbind (string_at_key args ''name'') (\<lambda>name.
                rbind (parse_axi_signal_map name source) (\<lambda>parsed.
                  case parsed of
                    Inl message \<Rightarrow> Inr (error_response ''INVALID_FIELD'' message, st)
                  | Inr c \<Rightarrow> Inr (axi_store_config w st c))))))"

section \<open>Query\<close>

fun axi_matching :: "string \<Rightarrow> json \<Rightarrow> json \<Rightarrow> axi_transaction list \<Rightarrow> axi_transaction list handled" where
  "axi_matching direction address id_filter [] = Inr []"
| "axi_matching direction address id_filter (t # ts) =
     (if tx_complete t \<and> (direction = ''write'') = tx_is_write t then
        rbind (field_matches (tx_address t) address) (\<lambda>a.
          if a \<noteq> FYes then axi_matching direction address id_filter ts
          else rbind (field_matches (tx_id t) id_filter) (\<lambda>i.
            rbind (axi_matching direction address id_filter ts) (\<lambda>rest. Inr (if i = FYes then t # rest else rest))))
      else axi_matching direction address id_filter ts)"

definition axi_query_one ::
  "action_wave \<Rightarrow> time_render_unit \<Rightarrow> value_render_format \<Rightarrow> bool \<Rightarrow> axi_transaction list \<Rightarrow> bool \<Rightarrow> int \<Rightarrow> bool \<Rightarrow> members \<Rightarrow> members \<Rightarrow> json" where
  "axi_query_one wave unit format complete ms is_last index include_data summary data =
     (let offset = (if is_last then (if ms = [] then 0 else length ms - 1) else nat (index - 1));
          found = (ms \<noteq> [] \<and> offset < length ms);
          summary = member_set summary ''query_mode'' (JString (if is_last then ''last'' else ''index''));
          summary = member_set (member_set summary ''data_scope'' (JString ''all_returned_transactions_full'')) ''found'' (JBool found);
          data = (if found then member_set data ''transaction'' (axi_txn_json (ms ! offset) wave unit format False include_data) else data);
          summary = merge_members summary (completeness_summary complete False (length ms) (if found then 1 else 0))
      in ok_response (set_value_width_complete summary) data)"

definition axi_query_page ::
  "action_wave \<Rightarrow> time_render_unit \<Rightarrow> value_render_format \<Rightarrow> bool \<Rightarrow> axi_transaction list \<Rightarrow> int \<Rightarrow> int \<Rightarrow> members \<Rightarrow> members \<Rightarrow> json" where
  "axi_query_page wave unit format complete ms index line_limit summary data =
     (let start = (if index > 0 then nat (index - 1) else 0);
          page = map (\<lambda>t. axi_txn_json t wave unit format False False) (take (nat line_limit) (drop start ms));
          truncated = (start + length page < length ms);
          summary = member_set summary ''query_mode'' (JString ''list'');
          summary = merge_members summary (completeness_summary complete truncated (length ms) (length page))
      in ok_response (set_value_width_complete summary) (member_set data ''transactions'' (JArray page)))"

definition axi_query_count :: "bool \<Rightarrow> axi_transaction list \<Rightarrow> members \<Rightarrow> members \<Rightarrow> json" where
  "axi_query_count complete ms summary data =
     ok_response (merge_members (member_set (member_set summary ''query_mode'' (JString ''count'')) ''data_scope'' (JString ''none''))
       (completeness_summary complete False (length ms) 0)) data"

definition axi_query_response ::
  "axi_request \<Rightarrow> time_render_unit \<Rightarrow> value_render_format \<Rightarrow> axi_transaction list \<Rightarrow> string \<Rightarrow> string \<Rightarrow> bool \<Rightarrow> bool \<Rightarrow> int \<Rightarrow> int \<Rightarrow> json" where
  "axi_query_response rq unit format ms name direction include_data is_last index line_limit =
     (let wave = rq_wave rq; args = rq_args rq; complete = xs_complete (rq_scan rq);
          shown_filter = JObject ([(''direction'', JString direction)] @ member_if args ''address'' @ member_if args ''id'' @
            (if json_contains args ''time_range''
             then [(''time_range'', JObject [(''begin'', JString (aw_format_time wave (rq_begin rq) unit)), (''end'', JString (aw_format_time wave (rq_end rq) unit))])]
             else []));
          summary = [(''name'', JString name), (''direction'', JString direction),
            (''data_scope'', JString ''first_beat_each_with_first_transaction_full'')];
          data = [(''filter'', shown_filter)]
      in if is_last \<or> index > 0 \<and> line_limit < 0
         then axi_query_one wave unit format complete ms is_last index include_data summary data
         else if line_limit > 0 then axi_query_page wave unit format complete ms index line_limit summary data
         else axi_query_count complete ms summary data)"

definition axi_query ::
  "(read_event list \<Rightarrow> read_event list) \<Rightarrow> (string \<Rightarrow> string option) \<Rightarrow> action_wave option \<Rightarrow> axi_state \<Rightarrow> json \<Rightarrow> json handled" where
  "axi_query sort_reads getenv wave st req =
     rbind (axi_setup sort_reads getenv wave st req ''axi.query'') (\<lambda>start.
       case start of
         Inl e \<Rightarrow> Inr e
       | Inr rq \<Rightarrow>
           let args = rq_args rq in
           rbind (parse_render args) (\<lambda>render.
             case render of
               Inl e \<Rightarrow> Inr e
             | Inr (unit, format) \<Rightarrow>
                 rbind (json_value args ''direction'' ''write'' get_string) (\<lambda>direction.
                 rbind (json_value args ''address'' JNull Inr) (\<lambda>address.
                 rbind (json_value args ''id'' JNull Inr) (\<lambda>id_filter.
                 rbind (axi_matching direction address id_filter (xs_transactions (rq_scan rq))) (\<lambda>ms.
                 rbind (json_value args ''query'' (JObject []) Inr) (\<lambda>query.
                 rbind (rbind (json_value args ''output'' (JObject []) Inr) (\<lambda>out. json_value out ''include_data'' False get_bool)) (\<lambda>include_data.
                 rbind (json_value args ''last'' False get_bool) (\<lambda>is_last.
                 rbind (json_value query ''index'' (- 1) get_u32) (\<lambda>index.
                 rbind (json_value query ''line_limit'' (- 1) get_u32) (\<lambda>line_limit.
                 rbind (string_at_key args ''name'') (\<lambda>name.
                   Inr (axi_query_response rq unit format ms name direction include_data is_last (sint index) (sint line_limit))))))))))))))"

section \<open>Statistics\<close>

definition direction_selected :: "string \<Rightarrow> axi_transaction \<Rightarrow> bool" where
  "direction_selected direction t \<longleftrightarrow>
     direction = ''all'' \<or> (direction = ''write'' \<and> tx_is_write t) \<or> (direction = ''read'' \<and> \<not> tx_is_write t)"

fun axi_count :: "string \<Rightarrow> json \<Rightarrow> json \<Rightarrow> axi_transaction list \<Rightarrow> nat \<times> nat \<times> nat \<Rightarrow> (nat \<times> nat \<times> nat) handled" where
  "axi_count direction address id_filter [] counts = Inr counts"
| "axi_count direction address id_filter (t # ts) (reads, writes, unresolved) =
     (if \<not> tx_complete t \<or> \<not> direction_selected direction t then axi_count direction address id_filter ts (reads, writes, unresolved)
      else rbind (field_matches (tx_address t) address) (\<lambda>a.
           rbind (field_matches (tx_id t) id_filter) (\<lambda>i.
             axi_count direction address id_filter ts
               (if a = FUnresolved \<or> i = FUnresolved then (reads, writes, unresolved + 1)
                else if a = FYes \<and> i = FYes then (if tx_is_write t then (reads, writes + 1, unresolved) else (reads + 1, writes, unresolved))
                else (reads, writes, unresolved)))))"

definition axi_statistics_response :: "axi_scan_result \<Rightarrow> string \<Rightarrow> string \<Rightarrow> json \<Rightarrow> nat \<Rightarrow> nat \<Rightarrow> nat \<Rightarrow> json" where
  "axi_statistics_response scan name direction input_filter reads writes unresolved =
     (let matched = reads + writes;
          summary = [(''name'', JString name), (''scanned_transaction_count'', JUnsigned (length (xs_transactions scan))),
            (''matched_transaction_count'', JUnsigned matched), (''matched_read_count'', JUnsigned reads),
            (''matched_write_count'', JUnsigned writes), (''unresolved_transaction_count'', JUnsigned unresolved),
            (''filter_applied'', JBool (\<not> json_empty input_filter)),
            (''analysis_quality'', JString (if unresolved \<noteq> 0 \<or> \<not> xs_complete scan then ''ambiguous'' else ''complete'')),
            (''full_scan_count'', JInteger 1)];
          summary = merge_members summary (completeness_summary (xs_complete scan \<and> unresolved = 0) False matched matched)
      in ok_response summary [(''filter'', JObject ([(''direction'', JString direction)] @ member_if input_filter ''address'' @ member_if input_filter ''ids'')),
           (''notes'', JObject [(''unresolved_transaction_count'', JString unresolved_note)])])"

text \<open>The handler also sums latencies and outstanding transactions; these values are discarded.\<close>

definition axi_statistics ::
  "(read_event list \<Rightarrow> read_event list) \<Rightarrow> (string \<Rightarrow> string option) \<Rightarrow> action_wave option \<Rightarrow> axi_state \<Rightarrow> json \<Rightarrow> json handled" where
  "axi_statistics sort_reads getenv wave st req =
     rbind (axi_setup sort_reads getenv wave st req ''axi.statistics'') (\<lambda>start.
       case start of
         Inl e \<Rightarrow> Inr e
       | Inr rq \<Rightarrow>
           rbind (json_value (rq_args rq) ''filter'' (JObject []) Inr) (\<lambda>input_filter.
           rbind (json_value input_filter ''direction'' ''all'' get_string) (\<lambda>direction.
           rbind (json_value input_filter ''address'' JNull Inr) (\<lambda>address.
             let id_filter = (case json_get input_filter ''ids'' of
                   None \<Rightarrow> JNull | Some ids \<Rightarrow> JObject [(''mode'', JString ''exact''), (''values'', ids)])
             in rbind (axi_count direction address id_filter (xs_transactions (rq_scan rq)) (0, 0, 0)) (\<lambda>(reads, writes, unresolved).
                rbind (string_at_key (rq_args rq) ''name'') (\<lambda>name.
                  Inr (axi_statistics_response (rq_scan rq) name direction input_filter reads writes unresolved)))))))"

section \<open>Cursor\<close>

definition axi_cursor_summary :: "string \<Rightarrow> string \<Rightarrow> string \<Rightarrow> bool \<Rightarrow> nat \<Rightarrow> bool \<Rightarrow> nat \<Rightarrow> members" where
  "axi_cursor_summary name op direction complete n found position =
     set_value_width_complete (merge_members
       [(''name'', JString name), (''op'', JString op), (''direction'', JString direction), (''found'', JBool found),
        (''index'', if found then JUnsigned (position + 1) else JNull), (''index_base'', JInteger 1),
        (''at_begin'', JBool (found \<and> position = 0)), (''at_end'', JBool (found \<and> position + 1 = n))]
       (completeness_summary complete False n (if found then 1 else 0)))"

definition axi_cursor_position :: "axi_state \<Rightarrow> string \<Rightarrow> nat" where
  "axi_cursor_position st key = (case omap_find key (xa_cursors st) of None \<Rightarrow> 0 | Some p \<Rightarrow> p)"

text \<open>As in the APB handler, \<open>None\<close> is a read beyond the end of the matches.\<close>

definition axi_transaction_cursor ::
  "(read_event list \<Rightarrow> read_event list) \<Rightarrow> (string \<Rightarrow> string option) \<Rightarrow> action_wave option \<Rightarrow> axi_state \<Rightarrow> json \<Rightarrow> (json option \<times> axi_state) handled" where
  "axi_transaction_cursor sort_reads getenv wave st req =
     rbind (axi_setup sort_reads getenv wave st req ''axi.transaction.cursor'') (\<lambda>start.
       case start of
         Inl e \<Rightarrow> Inr (Some e, st)
       | Inr rq \<Rightarrow>
           let args = rq_args rq in
           rbind (parse_render args) (\<lambda>render.
             case render of
               Inl e \<Rightarrow> Inr (Some e, st)
             | Inr (unit, format) \<Rightarrow>
                 rbind (json_value args ''direction'' ''all'' get_string) (\<lambda>direction.
                 rbind (string_at_key args ''name'') (\<lambda>name.
                 rbind (string_at_key args ''op'') (\<lambda>op.
                   let ms = filter (\<lambda>t. tx_complete t \<and> direction_selected direction t) (xs_transactions (rq_scan rq));
                       key = name @ '':'' @ direction;
                       (found, position) = move_cursor op (length ms) (axi_cursor_position st key);
                       st = st\<lparr>xa_cursors := omap_set key position (xa_cursors st)\<rparr>;
                       summary = axi_cursor_summary name op direction (xs_complete (rq_scan rq)) (length ms) found position
                   in Inr (if \<not> found then Some (ok_response summary [])
                           else if position < length ms
                           then Some (ok_response summary [(''transaction'', axi_txn_json (ms ! position) (rq_wave rq) unit format False False)])
                           else None, st))))))"

end
