(* ===== verification/Axi_Analysis.thy ===== *)
theory Axi_Analysis
  imports Axi_Handlers
begin

text \<open>
  The analyses of \<open>engine/actions/protocol/axi_actions.cpp\<close>: latencies and their percentiles, the transactions that are
  pending, the depth of outstanding transactions at every clock edge, their timeline, the slowest transactions and the
  list of request and response pairs.
\<close>

definition other_direction :: "string \<Rightarrow> axi_transaction \<Rightarrow> bool" where
  "other_direction direction t \<longleftrightarrow> direction \<noteq> ''all'' \<and> (direction = ''write'') \<noteq> tx_is_write t"

section \<open>Latencies\<close>

record latency_state =
  ls_read :: "u64 list"
  ls_write :: "u64 list"
  ls_phases :: "(string, nat) omap"
  ls_incomplete_read :: nat
  ls_incomplete_write :: nat
  ls_slowest :: "(axi_transaction \<times> u64) option"

definition latency_state_init :: latency_state where
  "latency_state_init = \<lparr>ls_read = [], ls_write = [],
     ls_phases = [(''aw_before_w'', 0), (''same_cycle'', 0), (''unknown'', 0), (''w_before_aw'', 0)],
     ls_incomplete_read = 0, ls_incomplete_write = 0, ls_slowest = None\<rparr>"

definition count_phase :: "string \<Rightarrow> (string, nat) omap \<Rightarrow> (string, nat) omap" where
  "count_phase k m = omap_set k ((case omap_find k m of None \<Rightarrow> 0 | Some n \<Rightarrow> n) + 1) m"

definition latency_step :: "string \<Rightarrow> latency_state \<Rightarrow> axi_transaction \<Rightarrow> latency_state" where
  "latency_step direction ls t =
     (if other_direction direction t then ls
      else if \<not> tx_complete t then
        (if tx_is_write t then ls\<lparr>ls_incomplete_write := ls_incomplete_write ls + 1\<rparr>
         else ls\<lparr>ls_incomplete_read := ls_incomplete_read ls + 1\<rparr>)
      else
        let latency = latency_of t;
            ls = (if tx_is_write t then ls\<lparr>ls_write := ls_write ls @ [latency], ls_phases := count_phase (axi_write_phase_order t) (ls_phases ls)\<rparr>
                  else ls\<lparr>ls_read := ls_read ls @ [latency]\<rparr>)
        in (case ls_slowest ls of
              None \<Rightarrow> ls\<lparr>ls_slowest := Some (t, latency)\<rparr>
            | Some (s, l) \<Rightarrow> if latency > l then ls\<lparr>ls_slowest := Some (t, latency)\<rparr> else ls))"

definition percentile :: "u64 list \<Rightarrow> nat \<Rightarrow> u64" where
  "percentile sorted_values numerator =
     (if sorted_values = [] then 0
      else sorted_values ! min (length sorted_values - 1) ((length sorted_values * numerator + 99) div 100 - 1))"

definition latency_stats :: "action_wave \<Rightarrow> time_render_unit \<Rightarrow> u64 list \<Rightarrow> members" where
  "latency_stats wave unit latencies =
     (let vs = sort latencies;
          show_time = (\<lambda>t. JString (aw_format_time wave t unit))
      in [(''samples'', JUnsigned (length vs)), (''min'', show_time (if vs = [] then 0 else hd vs)),
          (''max'', show_time (if vs = [] then 0 else last vs)),
          (''avg'', show_time (if vs = [] then 0 else sum_list vs div word_of_nat (length vs))),
          (''p50'', show_time (percentile vs 50)), (''p95'', show_time (percentile vs 95)), (''p99'', show_time (percentile vs 99))])"

definition handshake_counts :: "axi_scan_result \<Rightarrow> json" where
  "handshake_counts scan =
     JObject [(''aw'', JUnsigned (length (xs_aw scan))), (''w'', JUnsigned (length (xs_w scan))), (''b'', JUnsigned (length (xs_b scan))),
       (''ar'', JUnsigned (length (xs_ar scan))), (''r'', JUnsigned (length (xs_r scan)))]"

definition time_range_json :: "action_wave \<Rightarrow> time_render_unit \<Rightarrow> u64 \<Rightarrow> u64 \<Rightarrow> json" where
  "time_range_json wave unit lo hi =
     JObject [(''begin'', JString (aw_format_time wave lo unit)), (''end'', JString (aw_format_time wave hi unit))]"

definition common_summary ::
  "axi_request \<Rightarrow> time_render_unit \<Rightarrow> string \<Rightarrow> string \<Rightarrow> string \<Rightarrow> nat \<Rightarrow> latency_state \<Rightarrow> members" where
  "common_summary rq unit name analysis direction edge_count ls =
     [(''name'', JString name), (''analysis'', JString analysis), (''direction'', JString direction),
      (''sample_count'', JUnsigned edge_count), (''full_scan_count'', JInteger 1),
      (''scanned_range'', time_range_json (rq_wave rq) unit (rq_begin rq) (rq_end rq)),
      (''completed_read_count'', JUnsigned (length (ls_read ls))), (''completed_write_count'', JUnsigned (length (ls_write ls))),
      (''incomplete_read_count'', JUnsigned (ls_incomplete_read ls)), (''incomplete_write_count'', JUnsigned (ls_incomplete_write ls)),
      (''buffered_w_beat_count'', JInteger 0), (''buffered_w_burst_count'', JInteger 0), (''orphan_w_beat_count'', JInteger 0),
      (''orphan_b_count'', JInteger 0), (''orphan_r_beat_count'', JInteger 0), (''response_dependency_violation_count'', JInteger 0),
      (''channel_handshakes'', handshake_counts (rq_scan rq))]"

section \<open>Pending transactions\<close>

definition pending_item :: "action_wave \<Rightarrow> time_render_unit \<Rightarrow> value_render_format \<Rightarrow> u64 \<Rightarrow> axi_transaction \<Rightarrow> json" where
  "pending_item wave unit format hi t =
     (let known_length = (length (tx_length t) \<le> 64 \<and> list_all (\<lambda>b. b = CHR ''0'' \<or> b = CHR ''1'') (tx_length t))
      in JObject ([(''direction'', JString (if tx_is_write t then ''write'' else ''read'')),
           (''request_time'', JString (aw_format_time wave (tx_start t) unit)),
           (''age'', JString (aw_format_time wave (if hi \<ge> tx_start t then hi - tx_start t else 0) unit)),
           (''addr'', JString (render_bits (tx_address t) format)), (''id'', JString (render_bits (tx_id t) format)),
           (''len'', JString (render_bits (tx_length t) format)),
           (''expected_beat_count'', if known_length then JUnsigned (unat (length_value (tx_length t) + 1)) else JNull),
           (''observed_beat_count'', JUnsigned (length (tx_beats t))), (''data_complete'', JBool False)] @
           (if tx_is_write t then [(''phase_order'', JString (axi_write_phase_order t))] else [])))"

definition pending_response :: "axi_request \<Rightarrow> time_render_unit \<Rightarrow> value_render_format \<Rightarrow> string \<Rightarrow> nat \<Rightarrow> members \<Rightarrow> json" where
  "pending_response rq unit format direction limit summary =
     (let ts = filter (\<lambda>t. \<not> (tx_complete t \<or> other_direction direction t)) (xs_transactions (rq_scan rq));
          pending = map (pending_item (rq_wave rq) unit format (rq_end rq)) (take limit ts)
      in ok_response (merge_members summary (completeness_summary (xs_complete (rq_scan rq)) (length pending < length ts) (length ts) (length pending)))
           [(''pending_transactions'', JArray pending)])"

section \<open>Outstanding depth\<close>

record depth_event =
  de_time :: u64
  de_read :: int
  de_write :: int

definition depth_events :: "string \<Rightarrow> axi_transaction list \<Rightarrow> depth_event list" where
  "depth_events direction txns = concat (map (\<lambda>t.
     if other_direction direction t \<or> tx_complete t \<and> tx_end t \<le> tx_start t then []
     else [\<lparr>de_time = tx_start t, de_read = (if tx_is_write t then 0 else 1), de_write = (if tx_is_write t then 1 else 0)\<rparr>] @
       (if tx_complete t then [\<lparr>de_time = tx_end t, de_read = (if tx_is_write t then 0 else - 1), de_write = (if tx_is_write t then - 1 else 0)\<rparr>] else [])) txns)"

fun take_events :: "u64 \<Rightarrow> depth_event list \<Rightarrow> int \<times> int \<Rightarrow> depth_event list \<times> int \<times> int" where
  "take_events time [] depth = ([], depth)"
| "take_events time (e # es) (r, w) =
     (if de_time e \<le> time then take_events time es (r + de_read e, w + de_write e) else (e # es, r, w))"

fun sweep :: "action_wave \<Rightarrow> axi_signal_map \<Rightarrow> signal_ref \<Rightarrow> nat list \<Rightarrow> depth_event list \<Rightarrow> int \<times> int \<Rightarrow> (u64 \<times> u64) list" where
  "sweep wave c reset_ref [] events depth = []"
| "sweep wave c reset_ref (ti # tis) events depth =
     (let reset = read_signal_at wave reset_ref ti (axi_point c)
      in if \<not> known_binary reset \<or> reset_asserted c reset then sweep wave c reset_ref tis events depth
         else
           let (events, depth) = take_events (wf_time_at wave ti) events depth
           in (word_of_int (fst depth), word_of_int (snd depth)) # sweep wave c reset_ref tis events depth)"

definition osd_depths ::
  "(depth_event list \<Rightarrow> depth_event list) \<Rightarrow> axi_request \<Rightarrow> string \<Rightarrow> nat list \<Rightarrow> (u64 \<times> u64) list" where
  "osd_depths sort_depths rq direction edges =
     sweep (rq_wave rq) (rq_config rq) (wf_find_signal (rq_wave rq) (ax_aresetn (rq_config rq))) edges
       (sort_depths (depth_events direction (xs_transactions (rq_scan rq)))) (0, 0)"

definition depth_stats :: "(u64 \<Rightarrow> nat \<Rightarrow> string) \<Rightarrow> u64 list \<Rightarrow> members" where
  "depth_stats ratio vs =
     [(''samples'', JUnsigned (length vs)), (''min'', JUnsigned (if vs = [] then 0 else unat (Min (set vs)))),
      (''max'', JUnsigned (if vs = [] then 0 else unat (Max (set vs)))),
      (''avg'', JFloat (if vs = [] then ''0.0'' else ratio (sum_list vs) (length vs)))] @
     (if vs = [] then [(''status'', JString ''empty'')] else [])"

definition osd_response :: "(u64 \<Rightarrow> nat \<Rightarrow> string) \<Rightarrow> axi_request \<Rightarrow> (u64 \<times> u64) list \<Rightarrow> members \<Rightarrow> json" where
  "osd_response ratio rq depths summary =
     (let combined = map (\<lambda>(r, w). r + w) depths;
          all_stats = depth_stats ratio combined;
          pick = (\<lambda>k. (k, get_member (JObject all_stats) k));
          summary = merge_members summary (map pick [''samples'', ''min'', ''max'', ''avg'']);
          summary = merge_members summary (completeness_summary (xs_complete (rq_scan rq)) False (length combined) (length combined))
      in ok_response summary [(''osd'', JObject [(''read'', JObject (depth_stats ratio (map fst depths))),
           (''write'', JObject (depth_stats ratio (map snd depths))),
           (''final_read'', JUnsigned (if depths = [] then 0 else unat (fst (last depths)))),
           (''final_write'', JUnsigned (if depths = [] then 0 else unat (snd (last depths)))),
           (''definitions'', JObject [(''read'', JString ''increment on AR handshake, decrement on RLAST handshake''),
              (''write'', JString ''increment on AW handshake, decrement on B handshake'')])])])"

section \<open>The analysis request\<close>

definition latency_response ::
  "axi_request \<Rightarrow> time_render_unit \<Rightarrow> value_render_format \<Rightarrow> latency_state \<Rightarrow> members \<Rightarrow> json" where
  "latency_response rq unit format ls summary =
     (let wave = rq_wave rq;
          all = ls_read ls @ ls_write ls;
          pick = (\<lambda>k. (k, get_member (JObject (latency_stats wave unit all)) k));
          summary = merge_members summary (map pick [''min'', ''avg'', ''max'', ''p50'', ''p95'', ''p99'', ''samples'']);
          summary = merge_members summary (completeness_summary (xs_complete (rq_scan rq)) False (length all) (length all));
          latency = JObject [(''read'', JObject (latency_stats wave unit (ls_read ls))), (''write'', JObject (latency_stats wave unit (ls_write ls))),
            (''definitions'', JObject [(''read'', JString ''AR handshake to RLAST handshake''), (''write'', JString ''AW handshake to B handshake'')]),
            (''write_phase_order_counts'', JObject (map (\<lambda>(k, n). (k, JUnsigned n)) (ls_phases ls)))]
      in ok_response (set_value_width_complete summary)
           ((''latency'', latency) #
            (case ls_slowest ls of None \<Rightarrow> [] | Some (t, l) \<Rightarrow> [(''slowest'', axi_txn_json t wave unit format False False)])))"

definition axi_analysis ::
  "(read_event list \<Rightarrow> read_event list) \<Rightarrow> (depth_event list \<Rightarrow> depth_event list) \<Rightarrow> (u64 \<Rightarrow> nat \<Rightarrow> string) \<Rightarrow> (string \<Rightarrow> string option) \<Rightarrow>
   action_wave option \<Rightarrow> axi_state \<Rightarrow> json \<Rightarrow> json handled" where
  "axi_analysis sort_reads sort_depths ratio getenv wave st req =
     rbind (axi_setup sort_reads getenv wave st req ''axi.analysis'') (\<lambda>start.
       case start of
         Inl e \<Rightarrow> Inr e
       | Inr rq \<Rightarrow>
           let args = rq_args rq in
           rbind (parse_render args) (\<lambda>render.
             case render of
               Inl e \<Rightarrow> Inr e
             | Inr (unit, format) \<Rightarrow>
                 rbind (json_value args ''analysis'' ''latency'' get_string) (\<lambda>analysis.
                 rbind (json_value args ''direction'' ''all'' get_string) (\<lambda>direction.
                   let ls = foldl (latency_step direction) latency_state_init (xs_transactions (rq_scan rq));
                       edges = selected_clock_edges (rq_wave rq) (rq_config rq) (rq_begin rq) (rq_end rq)
                   in if analysis = ''pending'' then
                        rbind (json_value args ''line_limit'' 1000 get_u32) (\<lambda>limit.
                        rbind (string_at_key args ''name'') (\<lambda>name.
                          Inr (pending_response rq unit format direction (unat limit) (common_summary rq unit name analysis direction (length edges) ls))))
                      else
                        rbind (string_at_key args ''name'') (\<lambda>name.
                          let summary = common_summary rq unit name analysis direction (length edges) ls
                          in Inr (if analysis = ''osd'' then osd_response ratio rq (osd_depths sort_depths rq direction edges) summary
                                  else latency_response rq unit format ls summary))))))"

section \<open>The timeline of outstanding transactions\<close>

definition bump :: "u64 \<Rightarrow> (int \<times> int \<Rightarrow> int \<times> int) \<Rightarrow> (u64, int \<times> int) omap \<Rightarrow> (u64, int \<times> int) omap" where
  "bump time f m = omap_set time (f (case omap_find time m of None \<Rightarrow> (0, 0) | Some d \<Rightarrow> d)) m"

definition add_delta :: "bool \<Rightarrow> int \<Rightarrow> int \<times> int \<Rightarrow> int \<times> int" where
  "add_delta is_write n = (\<lambda>(r, w). if is_write then (r, w + n) else (r + n, w))"

definition delta_step :: "string \<Rightarrow> (u64, int \<times> int) omap \<Rightarrow> axi_transaction \<Rightarrow> (u64, int \<times> int) omap" where
  "delta_step direction m t =
     (if other_direction direction t then m
      else
        let m = bump (tx_start t) (add_delta (tx_is_write t) 1) m
        in if tx_complete t then bump (tx_end t) (add_delta (tx_is_write t) (- 1)) m else m)"

definition deltas_of :: "string \<Rightarrow> axi_transaction list \<Rightarrow> (u64, int \<times> int) omap" where
  "deltas_of direction txns = filter (\<lambda>(t, r, w). \<not> (r = 0 \<and> w = 0)) (foldl (delta_step direction) [] txns)"

record timeline_state =
  tl_read :: int
  tl_write :: int
  tl_peak_read :: int
  tl_peak_write :: int
  tl_peak_read_time :: u64
  tl_peak_write_time :: u64
  tl_first_nonzero :: "u64 option"
  tl_points :: "(u64 \<times> int \<times> int \<times> int \<times> int) list"

definition timeline_step :: "timeline_state \<Rightarrow> u64 \<times> int \<times> int \<Rightarrow> timeline_state" where
  "timeline_step acc item =
     (let (time, dr, dw) = item;
          r = tl_read acc + dr; w = tl_write acc + dw
      in acc\<lparr>tl_read := r, tl_write := w,
           tl_first_nonzero := (if tl_first_nonzero acc = None \<and> (r \<noteq> 0 \<or> w \<noteq> 0) then Some time else tl_first_nonzero acc),
           tl_peak_read := max (tl_peak_read acc) r, tl_peak_read_time := (if r > tl_peak_read acc then time else tl_peak_read_time acc),
           tl_peak_write := max (tl_peak_write acc) w, tl_peak_write_time := (if w > tl_peak_write acc then time else tl_peak_write_time acc),
           tl_points := tl_points acc @ [(time, r, w, dr, dw)]\<rparr>)"

definition timeline_init :: "u64 \<Rightarrow> timeline_state" where
  "timeline_init lo = \<lparr>tl_read = 0, tl_write = 0, tl_peak_read = 0, tl_peak_write = 0, tl_peak_read_time = lo, tl_peak_write_time = lo,
     tl_first_nonzero = None, tl_points = []\<rparr>"

definition timeline_point :: "action_wave \<Rightarrow> time_render_unit \<Rightarrow> u64 \<times> int \<times> int \<times> int \<times> int \<Rightarrow> json" where
  "timeline_point wave unit p =
     (let (time, r, w, dr, dw) = p
      in JObject [(''time'', JString (aw_format_time wave time unit)), (''read'', JInteger r), (''write'', JInteger w),
           (''read_delta'', JInteger dr), (''write_delta'', JInteger dw),
           (''read_event'', JString (if dr > 0 then ''ar_handshake'' else if dr < 0 then ''rlast_handshake'' else ''none'')),
           (''write_event'', JString (if dw > 0 then ''aw_handshake'' else if dw < 0 then ''b_handshake'' else ''none''))])"

definition requested_bound :: "json \<Rightarrow> string \<Rightarrow> string \<Rightarrow> string \<Rightarrow> json handled" where
  "requested_bound args key listed default_text =
     rbind (json_value args ''time_range'' (JObject []) Inr) (\<lambda>r.
       Inr (if json_contains r key then JString listed else JString default_text))"

definition active_edges_of :: "axi_request \<Rightarrow> nat list \<Rightarrow> nat list" where
  "active_edges_of rq edges =
     filter (\<lambda>ti. let reset = read_signal_at (rq_wave rq) (wf_find_signal (rq_wave rq) (ax_aresetn (rq_config rq))) ti (axi_point (rq_config rq))
                  in \<not> (\<not> known_binary reset \<or> reset_asserted (rq_config rq) reset)) edges"

definition timeline_response ::
  "axi_request \<Rightarrow> time_render_unit \<Rightarrow> string \<Rightarrow> string \<Rightarrow> nat \<Rightarrow> nat list \<Rightarrow> json \<Rightarrow> json \<Rightarrow> json" where
  "timeline_response rq unit name direction limit edges lo_json hi_json =
     (let wave = rq_wave rq; c = rq_config rq;
          deltas = deltas_of direction (xs_transactions (rq_scan rq));
          active = active_edges_of rq edges;
          first_active = (case active of [] \<Rightarrow> rq_begin rq | ti # _ \<Rightarrow> wf_time_at wave ti);
          acc = foldl timeline_step (timeline_init (rq_begin rq)) deltas;
          include_initial = (ax_sample_point c = ''before'' \<and> deltas \<noteq> []);
          all_points = (if include_initial then [(first_active, 0, 0, 0, 0)] else []) @ tl_points acc;
          points = map (timeline_point wave unit) (take limit all_points);
          truncated = (length points < length all_points);
          summary = [(''name'', JString name), (''sampling_mode'', JString ''clock_edge''), (''clock'', JString (ax_aclk c)), (''edge'', JString (ax_edge c)),
            (''sample_time_semantics'', JString ''time is sample_time''), (''sample_count'', JUnsigned (length active)),
            (''peak_read'', JInteger (tl_peak_read acc)), (''peak_write'', JInteger (tl_peak_write acc)),
            (''peak_read_time'', JString (aw_format_time wave (tl_peak_read_time acc) unit)),
            (''peak_write_time'', JString (aw_format_time wave (tl_peak_write_time acc) unit)),
            (''first_nonzero_time'', JString (aw_format_time wave (case tl_first_nonzero acc of None \<Rightarrow> rq_begin rq | Some t \<Rightarrow> t) unit)),
            (''final_read'', JInteger (tl_read acc)), (''final_write'', JInteger (tl_write acc)),
            (''requested_range'', JObject [(''begin'', lo_json), (''end'', hi_json)])];
          summary = (if ax_sample_point c \<noteq> [] then member_set summary ''sample_point'' (JString (ax_sample_point c)) else summary);
          summary = merge_members summary (completeness_summary (xs_complete (rq_scan rq)) truncated (length all_points) (length points));
          summary = (if truncated then member_set summary ''truncation_scopes''
              (JArray [JString (if ax_sample_point c = ''before'' then ''response_change_points'' else ''response_transactions'')]) else summary)
      in ok_response summary [(''change_points'', JArray points)])"

definition axi_outstanding_timeline ::
  "(read_event list \<Rightarrow> read_event list) \<Rightarrow> (string \<Rightarrow> string option) \<Rightarrow> action_wave option \<Rightarrow> axi_state \<Rightarrow> json \<Rightarrow> json handled" where
  "axi_outstanding_timeline sort_reads getenv wave st req =
     rbind (axi_setup sort_reads getenv wave st req ''axi.outstanding_timeline'') (\<lambda>start.
       case start of
         Inl e \<Rightarrow> Inr e
       | Inr rq \<Rightarrow>
           let args = rq_args rq in
           rbind (parse_render args) (\<lambda>render.
             case render of
               Inl e \<Rightarrow> Inr e
             | Inr (unit, format) \<Rightarrow>
                 rbind (json_value args ''direction'' ''all'' get_string) (\<lambda>direction.
                 rbind (json_value args ''line_limit'' 1000 get_u32) (\<lambda>limit.
                 rbind (string_at_key args ''name'') (\<lambda>name.
                 rbind (requested_bound args ''begin'' (aw_format_time (rq_wave rq) (rq_begin rq) unit) ''0ns'') (\<lambda>lo_json.
                 rbind (requested_bound args ''end'' (aw_format_time (rq_wave rq) (rq_end rq) unit) ''max'') (\<lambda>hi_json.
                   Inr (timeline_response rq unit name direction (unat limit)
                     (selected_clock_edges (rq_wave rq) (rq_config rq) (rq_begin rq) (rq_end rq)) lo_json hi_json))))))))"

section \<open>The slowest transactions\<close>

definition latency_order :: "axi_transaction \<Rightarrow> int \<times> u64" where
  "latency_order t = (- uint (latency_of t), tx_start t)"

definition ranked :: "string \<Rightarrow> axi_transaction list \<Rightarrow> axi_transaction list" where
  "ranked direction txns = sort_key latency_order (filter (\<lambda>t. tx_complete t \<and> \<not> other_direction direction t) txns)"

definition outliers :: "string \<Rightarrow> u64 \<Rightarrow> nat \<Rightarrow> axi_transaction list \<Rightarrow> axi_transaction list" where
  "outliers method threshold top_n ts =
     (let above = (if method = ''threshold'' then filter (\<lambda>t. latency_of t > threshold) ts else ts)
      in if method = ''top_n'' then take top_n above else above)"

definition outlier_response ::
  "axi_request \<Rightarrow> time_render_unit \<Rightarrow> value_render_format \<Rightarrow> string \<Rightarrow> string \<Rightarrow> axi_transaction list \<Rightarrow> axi_transaction list \<Rightarrow> nat \<Rightarrow> nat \<Rightarrow> json \<Rightarrow> json \<Rightarrow> members \<Rightarrow> json" where
  "outlier_response rq unit format name method candidates selected top_n line_limit lo_json hi_json threshold =
     (let listed = map (\<lambda>t. axi_txn_json t (rq_wave rq) unit format True False) (take line_limit selected);
          summary = merge_members [(''name'', JString name), (''begin'', lo_json), (''end'', hi_json), (''candidate_count'', JUnsigned (length candidates))]
            (completeness_summary (xs_complete (rq_scan rq)) (length listed < length selected) (length selected) (length listed))
      in ok_response (set_value_width_complete summary)
           ([(''method'', JString method), (''classification'', JString (if method = ''top_n'' then ''slowest_ranking'' else ''threshold_exceeded'')),
             (''outliers'', JArray listed)] @ (if method = ''top_n'' then [(''top_n'', JUnsigned top_n)] else threshold)))"

definition axi_latency_outlier ::
  "(read_event list \<Rightarrow> read_event list) \<Rightarrow> (string \<Rightarrow> string option) \<Rightarrow> action_wave option \<Rightarrow> axi_state \<Rightarrow> json \<Rightarrow> json handled" where
  "axi_latency_outlier sort_reads getenv wave st req =
     rbind (axi_setup sort_reads getenv wave st req ''axi.latency_outlier'') (\<lambda>start.
       case start of
         Inl e \<Rightarrow> Inr e
       | Inr rq \<Rightarrow>
           let args = rq_args rq in
           rbind (parse_render args) (\<lambda>render.
             case render of
               Inl e \<Rightarrow> Inr e
             | Inr (unit, format) \<Rightarrow>
                 rbind (json_value args ''direction'' ''all'' get_string) (\<lambda>direction.
                 rbind (json_value args ''method'' ''top_n'' get_string) (\<lambda>method.
                 rbind (if method = ''threshold'' then rbind (string_at_key args ''threshold'') (\<lambda>t. Inr (aw_parse_time (rq_wave rq) t False)) else Inr (Inr 0)) (\<lambda>threshold.
                   case threshold of
                     Inl message \<Rightarrow> Inr (error_response ''INVALID_TIME'' message)
                   | Inr ticks \<Rightarrow>
                       rbind (json_value args ''top_n'' 10 get_u32) (\<lambda>top_n.
                       rbind (json_value args ''line_limit'' 1000 get_u32) (\<lambda>line_limit.
                       rbind (requested_bound args ''begin'' (aw_format_time (rq_wave rq) (rq_begin rq) unit) ''0ns'') (\<lambda>lo_json.
                       rbind (requested_bound args ''end'' (aw_format_time (rq_wave rq) (rq_end rq) unit) ''max'') (\<lambda>hi_json.
                       rbind (string_at_key args ''name'') (\<lambda>name.
                       rbind (if method = ''top_n'' then Inr [] else rbind (json_at args ''threshold'') (\<lambda>v. Inr [(''threshold'', v)])) (\<lambda>threshold_json.
                         let candidates = ranked direction (xs_transactions (rq_scan rq))
                         in Inr (outlier_response rq unit format name method candidates (outliers method ticks (unat top_n) candidates)
                              (unat top_n) (unat line_limit) lo_json hi_json threshold_json))))))))))))"

section \<open>Requests and responses\<close>

definition pair_response ::
  "axi_request \<Rightarrow> time_render_unit \<Rightarrow> value_render_format \<Rightarrow> string \<Rightarrow> string \<Rightarrow> nat \<Rightarrow> axi_transaction list \<Rightarrow> json \<Rightarrow> json \<Rightarrow> json" where
  "pair_response rq unit format name direction limit ordered lo_json hi_json =
     (let ts = filter (\<lambda>t. \<not> other_direction direction t) ordered;
          pairs = filter tx_complete ts;
          listed = map (\<lambda>t. axi_txn_json t (rq_wave rq) unit format True False) (take limit pairs);
          summary = merge_members [(''name'', JString name), (''begin'', lo_json), (''end'', hi_json)]
            (completeness_summary (xs_complete (rq_scan rq)) (length listed < length pairs) (length pairs) (length listed));
          diagnostics = JObject [(''full_scan_count'', JInteger 1),
            (''incomplete_write_count'', JUnsigned (length (filter (\<lambda>t. \<not> tx_complete t \<and> tx_is_write t) ts))),
            (''incomplete_read_count'', JUnsigned (length (filter (\<lambda>t. \<not> tx_complete t \<and> \<not> tx_is_write t) ts))),
            (''buffered_w_beat_count'', JInteger 0), (''buffered_w_burst_count'', JInteger 0), (''orphan_w_beat_count'', JInteger 0),
            (''orphan_b_count'', JInteger 0), (''orphan_r_beat_count'', JInteger 0), (''response_dependency_violation_count'', JInteger 0)];
          pairing = JObject [(''write_data'', JString ''AXI4 W bursts bind in AW acceptance order''),
            (''write_response'', JString ''BID binds to the oldest data-complete AW with the same ID''),
            (''read_response'', JString ''RID binds to the oldest AR with the same ID'')]
      in ok_response (set_value_width_complete summary) [(''pairing_rule'', pairing), (''diagnostics'', diagnostics), (''transactions'', JArray listed)])"

definition axi_request_response_pair ::
  "(read_event list \<Rightarrow> read_event list) \<Rightarrow> (axi_transaction list \<Rightarrow> axi_transaction list) \<Rightarrow> (string \<Rightarrow> string option) \<Rightarrow> action_wave option \<Rightarrow> axi_state \<Rightarrow> json \<Rightarrow> json handled" where
  "axi_request_response_pair sort_reads sort_txns getenv wave st req =
     rbind (axi_setup sort_reads getenv wave st req ''axi.request_response_pair'') (\<lambda>start.
       case start of
         Inl e \<Rightarrow> Inr e
       | Inr rq \<Rightarrow>
           let args = rq_args rq in
           rbind (parse_render args) (\<lambda>render.
             case render of
               Inl e \<Rightarrow> Inr e
             | Inr (unit, format) \<Rightarrow>
                 rbind (json_value args ''direction'' ''all'' get_string) (\<lambda>direction.
                 rbind (json_value args ''line_limit'' 1000 get_u32) (\<lambda>limit.
                 rbind (requested_bound args ''begin'' (aw_format_time (rq_wave rq) (rq_begin rq) unit) ''0ns'') (\<lambda>lo_json.
                 rbind (requested_bound args ''end'' (aw_format_time (rq_wave rq) (rq_end rq) unit) ''max'') (\<lambda>hi_json.
                 rbind (string_at_key args ''name'') (\<lambda>name.
                   Inr (pair_response rq unit format name direction (unat limit) (sort_txns (xs_transactions (rq_scan rq))) lo_json hi_json))))))))"

end
