(* ===== verification/Axi_Counts.thy ===== *)
theory Axi_Counts
  imports Axi_Handshakes Axi_Analysis
begin

text \<open>
  The counts of outstanding transactions: the sweep over the clock edges and the timeline give the number of transactions
  that are open, and the ranking by latency gives the slowest ones.
\<close>

section \<open>Depth at the clock edges\<close>

definition open_at :: "string \<Rightarrow> bool \<Rightarrow> u64 \<Rightarrow> axi_transaction \<Rightarrow> bool" where
  "open_at direction w time t \<longleftrightarrow>
     tx_is_write t = w \<and> \<not> other_direction direction t \<and> tx_start t \<le> time \<and> (tx_complete t \<longrightarrow> time < tx_end t)"

definition open_count :: "string \<Rightarrow> bool \<Rightarrow> u64 \<Rightarrow> axi_transaction list \<Rightarrow> nat" where
  "open_count direction w time txns = length (filter (open_at direction w time) txns)"

definition depth_upto :: "u64 \<Rightarrow> depth_event list \<Rightarrow> int \<times> int" where
  "depth_upto time es =
     (sum_list (map de_read (filter (\<lambda>e. de_time e \<le> time) es)), sum_list (map de_write (filter (\<lambda>e. de_time e \<le> time) es)))"

lemma depth_events_count:
  "depth_upto time (depth_events direction txns) = (int (open_count direction False time txns), int (open_count direction True time txns))"
proof (induction txns)
  case (Cons t txns)
  have step: "depth_events direction (t # txns) = depth_events direction [t] @ depth_events direction txns" by (simp add: depth_events_def)
  have "depth_upto time (depth_events direction [t]) =
      (if open_at direction False time t then 1 else 0, if open_at direction True time t then 1 else 0)"
    by (cases "tx_complete t"; cases "tx_is_write t") (auto simp: depth_upto_def depth_events_def open_at_def)
  then show ?case using Cons by (simp add: step depth_upto_def open_count_def)
qed (simp add: depth_upto_def depth_events_def open_count_def)

lemma depth_upto_mset: "mset es = mset fs \<Longrightarrow> depth_upto time es = depth_upto time fs"
proof -
  assume "mset es = mset fs"
  then have "mset (map f (filter (\<lambda>e. de_time e \<le> time) es)) = mset (map f (filter (\<lambda>e. de_time e \<le> time) fs))" for f :: "depth_event \<Rightarrow> int"
    by simp
  then have "sum_list (map f (filter (\<lambda>e. de_time e \<le> time) es)) = sum_list (map f (filter (\<lambda>e. de_time e \<le> time) fs))" for f :: "depth_event \<Rightarrow> int"
    unfolding sum_mset_sum_list [symmetric] by simp
  then show ?thesis by (simp add: depth_upto_def)
qed

lemma take_events_spec:
  assumes "sorted (map de_time es)"
  shows "take_events time es (r, w) =
    (filter (\<lambda>e. \<not> de_time e \<le> time) es, r + fst (depth_upto time es), w + snd (depth_upto time es))"
  using assms
proof (induction es arbitrary: r w)
  case (Cons e es)
  show ?case
  proof (cases "de_time e \<le> time")
    case False
    then have "\<forall>x \<in> set es. \<not> de_time x \<le> time" using Cons.prems by (auto dest: order_trans)
    then have "filter (\<lambda>e. de_time e \<le> time) es = []" "filter (\<lambda>e. \<not> de_time e \<le> time) es = es"
      by (simp_all add: filter_empty_conv filter_id_conv)
    then show ?thesis using False by (simp add: depth_upto_def)
  qed (use Cons in \<open>simp add: depth_upto_def\<close>)
qed (simp add: depth_upto_def)

lemma depth_upto_split:
  assumes "t \<le> (u :: u64)"
  shows "depth_upto u es = (fst (depth_upto t es) + fst (depth_upto u (filter (\<lambda>e. \<not> de_time e \<le> t) es)),
    snd (depth_upto t es) + snd (depth_upto u (filter (\<lambda>e. \<not> de_time e \<le> t) es)))"
proof (induction es)
  case (Cons e es)
  have "de_time e \<le> t \<Longrightarrow> de_time e \<le> u" using assms by simp
  then show ?case using Cons by (auto simp: depth_upto_def)
qed (simp add: depth_upto_def)

definition reset_skips :: "action_wave \<Rightarrow> axi_signal_map \<Rightarrow> signal_ref \<Rightarrow> nat \<Rightarrow> bool" where
  "reset_skips wave c ref ti \<longleftrightarrow>
     (let reset = read_signal_at wave ref ti (axi_point c) in \<not> known_binary reset \<or> reset_asserted c reset)"

text \<open>The events up to some time are in the depth already, and the edges to come are not before it.\<close>

lemma sweep_spec:
  assumes "sorted (map de_time es)" "sorted (map (wf_time_at wave) tis)" "\<forall>ti \<in> set tis. t0 \<le> wf_time_at wave ti"
    and "(r, w) = depth_upto t0 es" "rest = filter (\<lambda>e. \<not> de_time e \<le> t0) es"
  shows "sweep wave c ref tis rest (r, w) =
    map (\<lambda>ti. (word_of_int (fst (depth_upto (wf_time_at wave ti) es)), word_of_int (snd (depth_upto (wf_time_at wave ti) es))))
      (filter (\<lambda>ti. \<not> reset_skips wave c ref ti) tis)"
  using assms
proof (induction tis arbitrary: t0 r w rest)
  case (Cons ti tis)
  let ?t = "wf_time_at wave ti"
  show ?case
  proof (cases "reset_skips wave c ref ti")
    case True
    then show ?thesis using Cons by (auto simp: reset_skips_def Let_def)
  next
    case False
    have "sorted (map de_time rest)" using Cons.prems(1,5) by (simp add: sorted_filter)
    then have step: "take_events ?t rest (r, w) =
        (filter (\<lambda>e. \<not> de_time e \<le> ?t) rest, r + fst (depth_upto ?t rest), w + snd (depth_upto ?t rest))"
      by (rule take_events_spec)
    have t: "t0 \<le> ?t" using Cons.prems(3) by simp
    have d: "(r + fst (depth_upto ?t rest), w + snd (depth_upto ?t rest)) = depth_upto ?t es"
      using depth_upto_split [OF t, of es] Cons.prems(4,5) by (metis fst_conv snd_conv)
    have f: "filter (\<lambda>e. \<not> de_time e \<le> ?t) rest = filter (\<lambda>e. \<not> de_time e \<le> ?t) es"
      using t by (auto simp: Cons.prems(5) filter_filter intro!: filter_cong)
    have "sweep wave c ref tis (filter (\<lambda>e. \<not> de_time e \<le> ?t) es) (depth_upto ?t es) =
        map (\<lambda>ti. (word_of_int (fst (depth_upto (wf_time_at wave ti) es)), word_of_int (snd (depth_upto (wf_time_at wave ti) es))))
          (filter (\<lambda>ti. \<not> reset_skips wave c ref ti) tis)"
      using Cons.IH [of ?t "fst (depth_upto ?t es)" "snd (depth_upto ?t es)" "filter (\<lambda>e. \<not> de_time e \<le> ?t) es"] Cons.prems(1,2) by simp
    then show ?thesis using False step d f by (simp add: reset_skips_def Let_def)
  qed
qed simp

text \<open>At the start nothing is consumed; the first edge brings the depth up to its time.\<close>

lemma sweep_start:
  assumes "sorted (map de_time es)" "sorted (map (wf_time_at wave) tis)"
  shows "sweep wave c ref tis es (0, 0) =
    map (\<lambda>ti. (word_of_int (fst (depth_upto (wf_time_at wave ti) es)), word_of_int (snd (depth_upto (wf_time_at wave ti) es))))
      (filter (\<lambda>ti. \<not> reset_skips wave c ref ti) tis)"
  using assms(2)
proof (induction tis)
  case (Cons ti tis)
  let ?t = "wf_time_at wave ti"
  have step: "take_events ?t es (0, 0) = (filter (\<lambda>e. \<not> de_time e \<le> ?t) es, depth_upto ?t es)"
    using take_events_spec [OF assms(1), of ?t 0 0] by simp
  have "sweep wave c ref tis (filter (\<lambda>e. \<not> de_time e \<le> ?t) es) (depth_upto ?t es) =
      map (\<lambda>ti. (word_of_int (fst (depth_upto (wf_time_at wave ti) es)), word_of_int (snd (depth_upto (wf_time_at wave ti) es))))
        (filter (\<lambda>ti. \<not> reset_skips wave c ref ti) tis)"
    using sweep_spec [OF assms(1), of wave tis ?t "fst (depth_upto ?t es)" "snd (depth_upto ?t es)" "filter (\<lambda>e. \<not> de_time e \<le> ?t) es" c ref] Cons.prems
    by simp
  then show ?case using Cons step by (simp add: reset_skips_def Let_def)
qed simp

lemma osd_depths_count:
  assumes "sorts_by de_time f" "sorted (map (wf_time_at (rq_wave rq)) edges)"
  shows "osd_depths f rq direction edges =
    map (\<lambda>ti. (word_of_nat (open_count direction False (wf_time_at (rq_wave rq) ti) (xs_transactions (rq_scan rq))),
               word_of_nat (open_count direction True (wf_time_at (rq_wave rq) ti) (xs_transactions (rq_scan rq)))))
      (active_edges_of rq edges)"
proof -
  let ?es = "f (depth_events direction (xs_transactions (rq_scan rq)))" and ?wave = "rq_wave rq"
  have s: "mset ?es = mset (depth_events direction (xs_transactions (rq_scan rq)))" "sorted (map de_time ?es)"
    using assms(1) by (simp_all add: sorts_by_def)
  have count: "depth_upto time ?es = (int (open_count direction False time (xs_transactions (rq_scan rq))), int (open_count direction True time (xs_transactions (rq_scan rq))))" for time
    using depth_upto_mset [OF s(1)] depth_events_count by metis
  define ref where "ref = wf_find_signal ?wave (ax_aresetn (rq_config rq))"
  have edges: "active_edges_of rq edges = filter (\<lambda>ti. \<not> reset_skips ?wave (rq_config rq) ref ti) edges"
    by (simp add: active_edges_of_def reset_skips_def ref_def Let_def)
  have "sweep ?wave (rq_config rq) ref edges ?es (0, 0) =
      map (\<lambda>ti. (word_of_int (fst (depth_upto (wf_time_at ?wave ti) ?es)), word_of_int (snd (depth_upto (wf_time_at ?wave ti) ?es))))
        (filter (\<lambda>ti. \<not> reset_skips ?wave (rq_config rq) ref ti) edges)"
    by (rule sweep_start [OF s(2) assms(2)])
  then show ?thesis by (simp add: osd_depths_def ref_def [symmetric] edges count)
qed

section \<open>The timeline\<close>

type_synonym delta_map = "(u64, int \<times> int) omap"

definition upto_sum :: "bool \<Rightarrow> u64 \<Rightarrow> (u64 \<times> int \<times> int) list \<Rightarrow> int" where
  "upto_sum w time m = sum_list (map (\<lambda>(t, dr, dw). if t \<le> time then (if w then dw else dr) else 0) m)"

lemma upto_sum_simps [simp]:
  "upto_sum w time [] = 0" "upto_sum w time ((t, dr, dw) # m) = (if t \<le> time then (if w then dw else dr) else 0) + upto_sum w time m"
  by (simp_all add: upto_sum_def)

lemma upto_sum_set:
  "omap_ok m \<Longrightarrow> upto_sum w time (omap_set k (dr, dw) m) =
     upto_sum w time m + (if k \<le> time then (if w then dw else dr) - (case omap_find k m of None \<Rightarrow> 0 | Some (r, v) \<Rightarrow> if w then v else r) else 0)"
proof (induction m)
  case (Cons e m)
  obtain l r v where e: "e = (l, r, v)" by (metis prod.exhaust)
  have "omap_find k m = None" if "k < l" using Cons.prems that by (intro omap_find_less) (auto simp: e omap_ok_Cons dest: less_trans)
  then show ?case using Cons by (auto simp: e omap_ok_Cons)
qed simp

lemma upto_sum_bump:
  assumes "omap_ok m"
  shows "upto_sum w time (bump k (add_delta is_write n) m) = upto_sum w time m + (if k \<le> time \<and> w = is_write then n else 0)"
  using upto_sum_set [OF assms, of w time k] by (auto simp: bump_def add_delta_def split: option.splits)

lemma bump_ok: "omap_ok m \<Longrightarrow> omap_ok (bump k f m)"
  by (simp add: bump_def omap_laws)

definition started :: "string \<Rightarrow> bool \<Rightarrow> u64 \<Rightarrow> axi_transaction \<Rightarrow> bool" where
  "started direction w time t \<longleftrightarrow> tx_is_write t = w \<and> \<not> other_direction direction t \<and> tx_start t \<le> time"

definition ended :: "string \<Rightarrow> bool \<Rightarrow> u64 \<Rightarrow> axi_transaction \<Rightarrow> bool" where
  "ended direction w time t \<longleftrightarrow> tx_is_write t = w \<and> \<not> other_direction direction t \<and> tx_complete t \<and> tx_end t \<le> time"

lemma delta_fold:
  assumes "omap_ok m"
  shows "omap_ok (foldl (delta_step direction) m txns) \<and>
    upto_sum w time (foldl (delta_step direction) m txns) = upto_sum w time m +
      int (length (filter (started direction w time) txns)) - int (length (filter (ended direction w time) txns))"
  using assms
proof (induction txns arbitrary: m)
  case (Cons t txns)
  have "omap_ok (delta_step direction m t)" using Cons.prems by (simp add: delta_step_def bump_ok Let_def)
  moreover have "upto_sum w time (delta_step direction m t) = upto_sum w time m +
      (if started direction w time t then 1 else 0) - (if ended direction w time t then 1 else 0)"
    using Cons.prems by (auto simp: delta_step_def Let_def upto_sum_bump bump_ok started_def ended_def)
  ultimately show ?case using Cons.IH [of "delta_step direction m t"] by simp
qed simp

lemma upto_sum_filter: "upto_sum w time (filter (\<lambda>(t, r, v). \<not> (r = 0 \<and> v = 0)) m) = upto_sum w time m"
  by (induction m) (auto split: if_splits)

lemma deltas_sum:
  "upto_sum w time (deltas_of direction txns) =
     int (length (filter (started direction w time) txns)) - int (length (filter (ended direction w time) txns))"
  unfolding deltas_of_def upto_sum_filter using delta_fold [of "[]" direction txns w time] by simp

lemma deltas_sorted: "sorted_wrt (<) (map fst (deltas_of direction txns))"
proof -
  have "omap_ok (foldl (delta_step direction) [] txns)" using delta_fold [of "[]"] by simp
  then show ?thesis unfolding deltas_of_def omap_ok_def by (simp add: sorted_wrt_map sorted_wrt_filter)
qed

definition totals :: "(u64 \<times> int \<times> int) list \<Rightarrow> int \<times> int" where
  "totals m = (sum_list (map (\<lambda>(t, dr, dw). dr) m), sum_list (map (\<lambda>(t, dr, dw). dw) m))"

lemma upto_sum_all: "\<forall>e \<in> set m. fst e \<le> time \<Longrightarrow> upto_sum w time m = (if w then snd (totals m) else fst (totals m))"
  by (induction m) (auto simp: totals_def)

lemma upto_sum_none: "\<forall>e \<in> set m. time < fst e \<Longrightarrow> upto_sum w time m = 0"
  by (induction m) auto

lemma upto_sum_append: "upto_sum w time (m @ n) = upto_sum w time m + upto_sum w time n"
  by (simp add: upto_sum_def)

text \<open>The points of the timeline: at each time of change the sums up to it.\<close>

definition point_ok :: "(u64 \<times> int \<times> int) list \<Rightarrow> u64 \<times> int \<times> int \<times> int \<times> int \<Rightarrow> bool" where
  "point_ok m p \<longleftrightarrow> (case p of (time, r, w, dr, dw) \<Rightarrow> r = upto_sum False time m \<and> w = upto_sum True time m)"

lemma timeline_step_fields [simp]:
  "tl_read (timeline_step acc (t, dr, dw)) = tl_read acc + dr" "tl_write (timeline_step acc (t, dr, dw)) = tl_write acc + dw"
  "tl_points (timeline_step acc (t, dr, dw)) = tl_points acc @ [(t, tl_read acc + dr, tl_write acc + dw, dr, dw)]"
  "tl_peak_read (timeline_step acc (t, dr, dw)) = max (tl_peak_read acc) (tl_read acc + dr)"
  "tl_peak_write (timeline_step acc (t, dr, dw)) = max (tl_peak_write acc) (tl_write acc + dw)"
  by (simp_all add: timeline_step_def Let_def)

lemma timeline_points:
  assumes "sorted_wrt (<) (map fst (pre @ m))" "(tl_read acc, tl_write acc) = totals pre"
    "map fst (tl_points acc) = map fst pre" "\<forall>p \<in> set (tl_points acc). point_ok (pre @ m) p"
    "tl_peak_read acc = Max (insert 0 ((\<lambda>p. fst (snd p)) ` set (tl_points acc)))"
    "tl_peak_write acc = Max (insert 0 ((\<lambda>p. fst (snd (snd p))) ` set (tl_points acc)))"
  shows "let acc' = foldl timeline_step acc m
    in (tl_read acc', tl_write acc') = totals (pre @ m) \<and> map fst (tl_points acc') = map fst (pre @ m) \<and>
       (\<forall>p \<in> set (tl_points acc'). point_ok (pre @ m) p) \<and>
       tl_peak_read acc' = Max (insert 0 ((\<lambda>p. fst (snd p)) ` set (tl_points acc'))) \<and>
       tl_peak_write acc' = Max (insert 0 ((\<lambda>p. fst (snd (snd p))) ` set (tl_points acc')))"
  using assms
proof (induction m arbitrary: pre acc)
  case (Cons e m)
  obtain t dr dw where e: "e = (t, dr, dw)" by (metis prod.exhaust)
  have before: "\<forall>x \<in> set (pre @ [e]). fst x \<le> t" and after: "\<forall>x \<in> set m. t < fst x"
    using Cons.prems(1) by (auto simp: e sorted_wrt_append intro: less_imp_le)
  have "upto_sum w t (pre @ e # m) = (if w then snd (totals (pre @ [e])) else fst (totals (pre @ [e])))" for w
    using upto_sum_append [of w t "pre @ [e]" m] upto_sum_all [OF before, of w] upto_sum_none [OF after, of w] by simp
  then have "point_ok (pre @ e # m) (t, tl_read acc + dr, tl_write acc + dw, dr, dw)"
    using Cons.prems(2) by (simp add: point_ok_def totals_def e)
  then have "\<forall>p \<in> set (tl_points (timeline_step acc e)). point_ok ((pre @ [e]) @ m) p"
    using Cons.prems(4) by (auto simp: e)
  moreover have "(tl_read (timeline_step acc e), tl_write (timeline_step acc e)) = totals (pre @ [e])"
    using Cons.prems(2) by (simp add: e totals_def)
  moreover have "tl_peak_read (timeline_step acc e) = Max (insert 0 ((\<lambda>p. fst (snd p)) ` set (tl_points (timeline_step acc e))))"
    "tl_peak_write (timeline_step acc e) = Max (insert 0 ((\<lambda>p. fst (snd (snd p))) ` set (tl_points (timeline_step acc e))))"
    using Cons.prems(5,6) by (simp_all add: e insert_commute [of 0] max.commute)
  ultimately show ?case
    using Cons.IH [of "pre @ [e]" "timeline_step acc e"] Cons.prems(1,3) by (simp add: e Let_def)
qed simp

section \<open>Ranking\<close>

lemma percentile_rank:
  assumes "vs \<noteq> []" "0 < num" "num \<le> 100" "sorted vs"
  shows "\<exists>i < length vs. percentile vs num = vs ! i \<and> length vs * num \<le> 100 * (i + 1)"
proof -
  let ?n = "length vs" and ?k = "(length vs * num + 99) div 100"
  have "?n * num \<le> ?n * 100" using assms(3) by simp
  then have le: "?k \<le> ?n" by linarith
  have one: "1 \<le> ?k" and cover: "?n * num \<le> 100 * ?k"
  proof -
    have "1 \<le> ?n * num" using assms(1,2) by (cases "?n * num") auto
    then show "1 \<le> ?k" by linarith
    show "?n * num \<le> 100 * ?k" by linarith
  qed
  have k: "?k - 1 < ?n" "?n * num \<le> 100 * (?k - 1 + 1)" using one le cover by simp_all
  then have "min (?n - 1) (?k - 1) = ?k - 1" by linarith
  then have "percentile vs num = vs ! (?k - 1)" using assms(1) by (simp only: percentile_def if_False)
  then show ?thesis using k by blast
qed

end
