(* ===== verification/Axi_Cursor.thy ===== *)
theory Axi_Cursor
  imports Axi_Handlers Transfer_Cursors
begin

text \<open>
  The cursors of the AXI actions, as a second instance of the contract on transfer counts. The requests considered are those the
  request schema of the cursor action admits, which has no time range: one cursor is kept for a configuration and a
  direction, whatever range a request scans.
\<close>

definition axi_direction_count ::
  "(read_event list \<Rightarrow> read_event list) \<times> (string \<Rightarrow> string option) \<times> action_wave \<Rightarrow> axi_state \<Rightarrow> string \<Rightarrow> string \<Rightarrow> nat option" where
  "axi_direction_count = (\<lambda>(sort_reads, getenv, w) st name d.
     case omap_find name (xa_configs st) of
       None \<Rightarrow> None
     | Some c \<Rightarrow> (case scan_axi sort_reads getenv w c (aw_min_time w) (aw_max_time w) of
         Inl e \<Rightarrow> None
       | Inr scan \<Rightarrow> Some (length (filter (\<lambda>t. tx_complete t \<and> direction_selected d t) (xs_transactions scan)))))"

lemma axi_direction_counts: "axi_direction_count env st name d = Some n \<Longrightarrow> n \<noteq> 0 \<Longrightarrow> d \<in> set directions_known"
  by (cases env) (auto simp: axi_direction_count_def direction_selected_def directions_known_def filter_empty_conv
    split: option.splits sum.splits if_splits)

interpretation axi: transfer_counts "axi_direction_count env" for env
  by unfold_locales (rule axi_direction_counts)

definition axi_cursors_ok ::
  "(read_event list \<Rightarrow> read_event list) \<times> (string \<Rightarrow> string option) \<times> action_wave \<Rightarrow> axi_state \<Rightarrow> bool" where
  "axi_cursors_ok env st \<longleftrightarrow> omap_ok (xa_configs st) \<and> cursors_in_range (axi_direction_count env st) (xa_cursors st)"

lemma axi_store_config_ok:
  assumes "axi_cursors_ok env st"
  shows "axi_cursors_ok env (snd (axi_store_config w st c))"
proof -
  let ?st = "st\<lparr>xa_configs := omap_set (ax_name c) c (xa_configs st), xa_cursors := forget_cursors (ax_name c) (xa_cursors st)\<rparr>"
  have ok: "omap_ok (xa_configs st)" "cursors_in_range (axi_direction_count env st) (xa_cursors st)" using assms by (simp_all add: axi_cursors_ok_def)
  have "axi_direction_count env ?st name d = axi_direction_count env st name d" if "name \<noteq> ax_name c" for name d
    using ok(1) that by (cases env) (simp add: axi_direction_count_def omap_laws)
  then have "cursors_in_range (axi_direction_count env ?st) (forget_cursors (ax_name c) (xa_cursors st))"
    by (rule axi.forgotten [OF ok(2)])
  then have "axi_cursors_ok env ?st" using ok(1) by (simp add: axi_cursors_ok_def omap_laws)
  then show ?thesis using assms by (auto simp: axi_store_config_def split: sum.split option.split)
qed

lemma axi_load_ok:
  assumes "axi_cursors_ok env st" "axi_config_load read_json wave st req = Inr (r, st')"
  shows "axi_cursors_ok env st'"
proof -
  have "st' = st \<or> (\<exists>w c. axi_store_config w st c = (r, st'))"
  proof (cases "require_waveform ''axi.config.load'' wave")
    case (Inr w)
    from assms(2) Inr obtain args source where a: "json_at req ''args'' = Inr args" "axi_config_source read_json args = Inr source"
      by (auto simp: axi_config_load_def rbind_Inr)
    show ?thesis
    proof (cases source)
      case source: (Inr v)
      from assms(2) Inr a source obtain name parsed where p: "string_at_key args ''name'' = Inr name" "parse_axi_signal_map name v = Inr parsed"
        by (auto simp: axi_config_load_def rbind_Inr)
      then show ?thesis using assms(2) Inr a source by (cases parsed) (auto simp: axi_config_load_def)
    qed (use assms(2) Inr a in \<open>simp add: axi_config_load_def\<close>)
  qed (use assms(2) in \<open>simp add: axi_config_load_def\<close>)
  then show ?thesis using assms(1) axi_store_config_ok [OF assms(1)] by (metis snd_conv)
qed

definition without_time_range :: "json \<Rightarrow> bool" where
  "without_time_range req \<longleftrightarrow> (\<forall>args. json_value req ''args'' (JObject []) Inr = Inr args \<longrightarrow>
     json_value args ''time_range'' (JObject []) Inr = Inr (JObject []))"

lemma whole_range:
  assumes "json_value args ''time_range'' (JObject []) Inr = Inr (JObject [])"
  shows "parse_time_range args w =
    Inr (if aw_min_time w > aw_max_time w then Inl (error_response ''TIME_RANGE_INVALID'' ''end is before begin'') else Inr (aw_min_time w, aw_max_time w))"
  using assms by (simp add: parse_time_range_def time_bound_def json_contains_def)

lemma axi_setup_whole:
  assumes "axi_setup sort_reads getenv (Some w) st req action = Inr (Inr rq)" "without_time_range req" "string_at_key (rq_args rq) ''name'' = Inr name"
  shows "axi_direction_count (sort_reads, getenv, w) st name d =
    Some (length (filter (\<lambda>t. tx_complete t \<and> direction_selected d t) (xs_transactions (rq_scan rq))))"
proof -
  from assms(1) obtain args found where a: "json_value req ''args'' (JObject []) Inr = Inr args" "resolve_axi_config st args action = Inr found"
    by (auto simp: axi_setup_def require_waveform_def rbind_Inr)
  have t: "parse_time_range args w =
      Inr (if aw_min_time w > aw_max_time w then Inl (error_response ''TIME_RANGE_INVALID'' ''end is before begin'') else Inr (aw_min_time w, aw_max_time w))"
    using whole_range assms(2) a(1) by (simp add: without_time_range_def)
  from assms(1) a t obtain c where c: "found = Inr c" "aw_min_time w \<le> aw_max_time w"
    by (cases found) (auto simp: axi_setup_def require_waveform_def split: if_splits)
  with assms(1) a t obtain scan where scan: "scan_axi sort_reads getenv w c (aw_min_time w) (aw_max_time w) = Inr scan" "rq_scan rq = scan" "rq_args rq = args"
    by (auto simp: axi_setup_def require_waveform_def rbind_Inr leD)
  have "omap_find name (xa_configs st) = Some c"
    using a(2) c(1) assms(3) scan(3) by (auto simp: resolve_axi_config_def split: option.splits)
  then show ?thesis using scan by (simp add: axi_direction_count_def)
qed

lemma axi_cursor_set_ok:
  assumes inv: "axi_cursors_ok env st" and count: "axi_direction_count env st name d = Some n"
    and move: "move_cursor op n (axi_cursor_position st (name @ '':'' @ d)) = (found, q)"
  shows "(found \<longrightarrow> q < n) \<and> axi_cursors_ok env (st\<lparr>xa_cursors := omap_set (name @ '':'' @ d) q (xa_cursors st)\<rparr>)"
proof -
  let ?st = "st\<lparr>xa_cursors := omap_set (name @ '':'' @ d) q (xa_cursors st)\<rparr>"
  have "axi_direction_count env ?st = axi_direction_count env st" by (cases env) (simp add: fun_eq_iff axi_direction_count_def)
  then show ?thesis
    using axi.moved [of env st "xa_cursors st" name d n op found q] inv count move
    by (simp add: axi_cursors_ok_def axi_cursor_position_def position_in_def)
qed

lemma axi_cursor_handler_ok:
  assumes inv: "axi_cursors_ok (sort_reads, getenv, w) st"
    and run: "axi_transaction_cursor sort_reads getenv (Some w) st req = Inr (r, st')" and whole: "without_time_range req"
  shows "r \<noteq> None \<and> axi_cursors_ok (sort_reads, getenv, w) st'"
proof -
  from run obtain s where s: "axi_setup sort_reads getenv (Some w) st req ''axi.transaction.cursor'' = Inr s"
    by (auto simp: axi_transaction_cursor_def rbind_Inr)
  show ?thesis
  proof (cases s)
    case (Inl e)
    then show ?thesis using run s inv by (auto simp: axi_transaction_cursor_def)
  next
    case (Inr rq)
    from run s Inr obtain render where render: "parse_render (rq_args rq) = Inr render"
      by (auto simp: axi_transaction_cursor_def rbind_Inr Let_def)
    show ?thesis
    proof (cases render)
      case (Inl e)
      then show ?thesis using run s Inr render inv by (auto simp: axi_transaction_cursor_def)
    next
      case rendered: (Inr uf)
      obtain unit format where uf: "uf = (unit, format)" by fastforce
      from run s Inr render rendered uf obtain d name op where d: "json_value (rq_args rq) ''direction'' ''all'' get_string = Inr d"
        "string_at_key (rq_args rq) ''name'' = Inr name" "string_at_key (rq_args rq) ''op'' = Inr op"
        by (auto simp: axi_transaction_cursor_def rbind_Inr Let_def)
      let ?n = "length (filter (\<lambda>t. tx_complete t \<and> direction_selected d t) (xs_transactions (rq_scan rq)))"
      obtain found q where move: "move_cursor op ?n (axi_cursor_position st (name @ '':'' @ d)) = (found, q)" by fastforce
      from axi_cursor_set_ok [OF inv axi_setup_whole [OF s [unfolded Inr] whole d(2)] move] show ?thesis
        using run s Inr render rendered uf d move by (auto simp: axi_transaction_cursor_def Let_def split: if_splits)
    qed
  qed
qed

inductive axi_reachable ::
  "(read_event list \<Rightarrow> read_event list) \<Rightarrow> (string \<Rightarrow> string option) \<Rightarrow> (string \<Rightarrow> config_file) \<Rightarrow> action_wave \<Rightarrow> axi_state \<Rightarrow> bool"
  for sort_reads getenv read_json w where
  start: "axi_reachable sort_reads getenv read_json w \<lparr>xa_configs = [], xa_cursors = []\<rparr>"
| load: "axi_reachable sort_reads getenv read_json w st \<Longrightarrow> axi_config_load read_json (Some w) st req = Inr (r, st') \<Longrightarrow>
    axi_reachable sort_reads getenv read_json w st'"
| cursor: "axi_reachable sort_reads getenv read_json w st \<Longrightarrow> without_time_range req \<Longrightarrow>
    axi_transaction_cursor sort_reads getenv (Some w) st req = Inr (r', st') \<Longrightarrow> axi_reachable sort_reads getenv read_json w st'"

lemma axi_reachable_cursors_ok: "axi_reachable sort_reads getenv read_json w st \<Longrightarrow> axi_cursors_ok (sort_reads, getenv, w) st"
proof (induction rule: axi_reachable.induct)
  case start
  show ?case by (simp add: axi_cursors_ok_def cursors_in_range_def)
qed (auto dest: axi_load_ok axi_cursor_handler_ok)

end
