(* ===== verification/Apb_Theorems.thy ===== *)
theory Apb_Theorems
  imports Apb_Properties
begin

unbundle bit_operations_syntax

text \<open>
  What the lemmas on the APB actions amount to, and a small bus on which each of the properties is applied.
\<close>

section \<open>A bus to look at\<close>

text \<open>
  A waveform given by the value changes of its signals. The clock rises at the times 1 and 3; an access to address 4 waits
  at the first edge and completes at the second.
\<close>

definition bits_text :: "string \<Rightarrow> waveform_value" where
  "bits_text t = waveform_value_init\<lparr>wv_text := t\<rparr>"

definition bus_signals :: "(string \<times> (nat \<times> string) list) list" where
  "bus_signals =
     [(''clk'', [(0, ''0''), (1, ''1''), (2, ''0''), (3, ''1'')]), (''rst_n'', [(0, ''1'')]), (''paddr'', [(0, ''0100'')]),
      (''psel'', [(0, ''1'')]), (''penable'', [(0, ''1'')]), (''pwrite'', [(0, ''1'')]), (''pwdata'', [(0, ''1010'')]),
      (''prdata'', [(0, ''0000'')]), (''pready'', [(0, ''0''), (2, ''1'')])]"

definition bus_changes :: "signal_ref \<Rightarrow> (nat \<times> string) list" where
  "bus_changes ref = (if 0 < ref \<and> unat ref \<le> length bus_signals then snd (bus_signals ! (unat ref - 1)) else [])"

fun position_of :: "string \<Rightarrow> string list \<Rightarrow> nat" where
  "position_of k [] = 0"
| "position_of k (x # xs) = (if x = k then 1 else let p = position_of k xs in if p = 0 then 0 else p + 1)"

definition bus_wave :: action_wave where
  "bus_wave = \<lparr>wf_time_at = word_of_nat,
     wf_find_signal = (\<lambda>p. word_of_nat (position_of p (map fst bus_signals))),
     wf_signal_info = (\<lambda>r. Some \<lparr>si_encoding = BitVector, si_num_changes = 1, si_max_states = 2, si_width = (if r \<in> {3, 7, 8} then 4 else 1), si_bytes_per_entry = 1, si_has_meta_byte = False\<rparr>),
     wf_sampled_value_at = (\<lambda>r ti point. map_option
        (\<lambda>t. \<lparr>sv_value = bits_text t, sv_time_idx = ti, sv_element = 0, sv_elements_at_time = 1, sv_time_match = True\<rparr>)
        (observe (bus_changes r) ti point)),
     wf_time_indices_of = (\<lambda>r. map fst (bus_changes r)),
     aw_is_loaded = (\<lambda>r. True), aw_load_signal = (\<lambda>r. 1), aw_format_time = (\<lambda>t u. ''''), aw_parse_time = (\<lambda>t b. Inl ''''),
     aw_min_time = 0, aw_max_time = 3\<rparr>"

definition bus_config :: apb_config where
  "bus_config = \<lparr>ac_name = ''apb0'', ac_clock = ''clk'', ac_edge = ''posedge'', ac_sample_point = ''before'', ac_reset = ''rst_n'',
     ac_reset_polarity = ''active_low'', ac_paddr = ''paddr'', ac_psel = ''psel'', ac_penable = ''penable'', ac_pwrite = ''pwrite'',
     ac_pwdata = ''pwdata'', ac_prdata = ''prdata'', ac_pready = ''pready'', ac_pslverr = ''''\<rparr>"

definition bus_refs :: apb_refs where
  "bus_refs = \<lparr>ar_clock = 1, ar_reset = 2, ar_paddr = 3, ar_psel = 4, ar_penable = 5, ar_pwrite = 6, ar_pwdata = 7, ar_prdata = 8,
     ar_pready = 9, ar_pslverr = 0, ar_addr_width = 4, ar_write_width = 4, ar_read_width = 4\<rparr>"

lemma bus_refs_loaded: "load_refs bus_wave bus_config = Inr bus_refs"
  by code_simp

lemma bus_edges: "apb_edges bus_wave bus_config bus_refs = [1, 3]"
  by code_simp

lemma bus_config_ok: "parse_config ''apb0'' (config_json bus_config) = Inr (Inr bus_config)"
  using config_roundtrip [of bus_config] by (simp add: bus_config_def config_ok_def)

lemma bus_reset: "\<exists>info. load_ref bus_wave ''rst_n'' ''reset'' = Inr (2, info) \<and> si_width info = 1"
  by (simp add: load_ref_def bus_wave_def bus_signals_def)

definition bus_transfer :: apb_transaction where
  "bus_transfer = \<lparr>at_time = 3, at_is_write = True, at_has_error = False, at_addr = ''0100'', at_data = ''1010'', at_addr_width = 4,
     at_data_width = 4\<rparr>"

lemma bus_events:
  "event_at bus_wave bus_config bus_refs 1 = Idle" "event_at bus_wave bus_config bus_refs 3 = Transfer bus_transfer"
  by code_simp+

lemma bus_indices: "4294967295 \<notin> set (wf_time_indices_of bus_wave (ar_clock bus_refs))"
  by (simp add: bus_wave_def bus_refs_def bus_changes_def bus_signals_def)

definition bus_state :: apb_state where
  "bus_state = \<lparr>ap_configs = [(''apb0'', bus_config)], ap_cursors = []\<rparr>"

lemma bus_required:
  "\<exists>scan. require_config_and_scan (\<lambda>v. None) bus_wave bus_state ''apb0'' action = Inr (bus_config, scan) \<and>
     as_transactions scan = [bus_transfer] \<and> as_unresolved scan = 0 \<and> as_complete scan"
proof -
  have "apb_analysis_budget_error (\<lambda>v. None) bus_config = None"
    by (simp add: apb_analysis_budget_error_def parse_analysis_cache_budget_def apb_transaction_bytes_def)
  moreover have "find_config bus_state ''apb0'' = Some bus_config" by (simp add: find_config_def bus_state_def)
  ultimately show ?thesis
    using scan_exact [OF bus_refs_loaded bus_indices, unfolded bus_edges]
    by (auto simp: require_config_and_scan_def bus_events simp del: One_nat_def)
qed

lemma hex_format: "parse_value_render_format ''hex'' = Some Hex"
  by code_simp

lemma bus_render:
  assumes "k \<noteq> ''render_time_unit''" "k \<noteq> ''value_format''"
  shows "parse_render (JObject [(''name'', JString n), (k, v)]) = Inr (Inr (Ns, Hex))"
  using assms assms [symmetric] by (simp add: parse_render_def json_value_def parse_time_render_unit_def hex_format)

section \<open>Properties\<close>

text \<open>
  Claim C5 (functional). The scan of a bus records exactly the transfers of its selected clock edges: the list is that of
  the events at the edges with an access held over consecutive edges taken once, every entry is an access the bus
  completes at some edge, the counter counts the edges that cannot be decided, and the scan is complete when there are none.
\<close>

theorem apb_scan_exact:
  assumes "load_refs wave c = Inr refs" "4294967295 \<notin> set (wf_time_indices_of wave (ar_clock refs))"
  shows "\<exists>r. scan_transactions wave c = Inr r \<and>
    as_transactions r = transfers Idle (map (event_at wave c refs) (apb_edges wave c refs)) \<and>
    (\<forall>t \<in> set (as_transactions r). \<exists>ti \<in> set (apb_edges wave c refs). completed_access wave c refs ti t) \<and>
    as_unresolved r = length (filter (\<lambda>ti. event_at wave c refs ti = Unresolved) (apb_edges wave c refs)) \<and>
    (as_complete r \<longleftrightarrow> as_unresolved r = 0)"
proof -
  have "\<exists>ti \<in> set (apb_edges wave c refs). completed_access wave c refs ti t"
    if "t \<in> set (transfers Idle (map (event_at wave c refs) (apb_edges wave c refs)))" for t
    using transfers_subset [OF that] by (metis event_transfer imageE image_set)
  then show ?thesis using scan_exact [OF assms] by auto
qed

theorem apb_scan_exact_witness:
  "\<exists>r. scan_transactions bus_wave bus_config = Inr r \<and> as_complete r \<and> map at_addr (as_transactions r) = [''0100''] \<and>
     map at_time (as_transactions r) = [3]"
proof -
  note exact = apb_scan_exact [OF bus_refs_loaded bus_indices, unfolded bus_edges]
  show ?thesis using exact by (auto simp: bus_events bus_transfer_def simp del: One_nat_def)
qed

text \<open>
  Claim C6 (safety). A cursor over the transfers of a bus never points beyond them: in every state that loading
  configurations and moving cursors can reach, the cursor request answers (the index into the transfers is in range),
  also after a configuration was replaced by one with fewer transfers.
\<close>

theorem apb_cursor_in_range:
  assumes "apb_reachable getenv read_json wave st" "apb_transaction_cursor getenv wave st req = Inr (r, st')"
  shows "r \<noteq> None \<and> cursors_ok wave st'"
  using cursor_handler_ok [OF reachable_cursors_ok [OF assms(1)] assms(2)] .

definition bus_load :: json where
  "bus_load = JObject [(''args'', JObject [(''name'', JString ''apb0''), (''config'', config_json bus_config)])]"

definition bus_last :: json where
  "bus_last = JObject [(''args'', JObject [(''name'', JString ''apb0''), (''op'', JString ''last'')])]"

lemma bus_stored: "snd (store_config bus_wave \<lparr>ap_configs = [], ap_cursors = []\<rparr> bus_config) = bus_state"
proof -
  obtain info where "load_ref bus_wave ''rst_n'' ''reset'' = Inr (2, info)" "si_width info = 1" using bus_reset by blast
  then show ?thesis by (simp add: store_config_def bus_state_def forget_cursors_def bus_config_def)
qed

theorem apb_cursor_in_range_witness:
  "\<exists>r st'. apb_transaction_cursor (\<lambda>v. None) bus_wave bus_state bus_last = Inr (Some r, st') \<and> cursors_ok bus_wave st' \<and>
     omap_find ''apb0:all'' (ap_cursors st') = Some 0"
proof -
  have "apb_config_load (\<lambda>p. Unreadable) bus_wave \<lparr>ap_configs = [], ap_cursors = []\<rparr> bus_load =
      Inr (store_config bus_wave \<lparr>ap_configs = [], ap_cursors = []\<rparr> bus_config)"
    using bus_config_ok by (simp add: apb_config_load_def bus_load_def config_source_def json_contains_def string_at_key_def)
  then obtain r0 where "apb_config_load (\<lambda>p. Unreadable) bus_wave \<lparr>ap_configs = [], ap_cursors = []\<rparr> bus_load = Inr (r0, bus_state)"
    using bus_stored by (metis prod.collapse)
  then have reach: "apb_reachable (\<lambda>v. None) (\<lambda>p. Unreadable) bus_wave bus_state"
    by (rule apb_reachable.load [OF apb_reachable.start])
  obtain scan where scan: "require_config_and_scan (\<lambda>v. None) bus_wave bus_state ''apb0'' ''apb.transaction.cursor'' = Inr (bus_config, scan)"
    "as_transactions scan = [bus_transfer]"
    using bus_required by blast
  then obtain r st' where r: "apb_transaction_cursor (\<lambda>v. None) bus_wave bus_state bus_last = Inr (r, st')" "omap_find ''apb0:all'' (ap_cursors st') = Some 0"
    by (simp add: apb_transaction_cursor_def bus_last_def bus_render string_at_key_def json_value_def direction_matches_def
      move_cursor_def bus_state_def Let_def)
  from apb_cursor_in_range [OF reach r(1)] r show ?thesis by auto
qed

text \<open>What a query and a statistics request ask for: a configuration, a direction and an address filter.\<close>

definition query_filter :: "json \<Rightarrow> (string \<times> string \<times> json) handled" where
  "query_filter req =
     rbind (json_at req ''args'') (\<lambda>args.
     rbind (string_at_key args ''name'') (\<lambda>name.
     rbind (json_value args ''direction'' ''all'' get_string) (\<lambda>direction.
     rbind (json_value args ''address'' JNull Inr) (\<lambda>address. Inr (name, direction, address)))))"

definition statistics_filter :: "json \<Rightarrow> (string \<times> string \<times> json) handled" where
  "statistics_filter req =
     rbind (json_at req ''args'') (\<lambda>args.
     rbind (string_at_key args ''name'') (\<lambda>name.
     rbind (json_value args ''filter'' (JObject []) Inr) (\<lambda>input_filter.
     rbind (json_value input_filter ''direction'' ''all'' get_string) (\<lambda>direction.
     rbind (json_value input_filter ''address'' JNull Inr) (\<lambda>address. Inr (name, direction, address))))))"

definition answered :: "json \<Rightarrow> bool" where
  "answered r \<longleftrightarrow> get_member r ''ok'' = JBool True"

definition summary_of :: "json \<Rightarrow> string \<Rightarrow> json" where
  "summary_of r k = get_member (get_member r ''summary'') k"

lemma refused [simp]:
  "\<not> answered (error_response code message)" "\<not> answered (rich_error_response code message details)"
  by (simp_all add: answered_def error_response_def rich_error_response_def)

lemma rbind_Inl: "rbind r f = Inl e \<longleftrightarrow> r = Inl e \<or> (\<exists>x. r = Inr x \<and> f x = Inl e)"
  by (cases r) auto

lemma load_ref_refused: "load_ref wave p role = Inl e \<Longrightarrow> \<not> answered e"
  by (auto simp: load_ref_def Let_def split: if_splits option.splits)

lemma load_optional_refused: "load_optional wave p role = Inl e \<Longrightarrow> \<not> answered e"
  by (auto simp: load_optional_def rbind_Inl split: if_splits dest: load_ref_refused)

lemma load_refs_refused: "load_refs wave c = Inl e \<Longrightarrow> \<not> answered e"
  by (auto simp: load_refs_def rbind_Inl dest: load_ref_refused load_optional_refused)

lemma require_refused: "require_config_and_scan getenv wave st name action = Inl e \<Longrightarrow> \<not> answered e"
  by (auto simp: require_config_and_scan_def config_not_found_response_def apb_analysis_budget_error_def scan_transactions_def rbind_Inl
    split: option.splits sum.splits if_splits dest: load_refs_refused)

lemma require_found:
  assumes "require_config_and_scan getenv wave st name action = Inr (c, scan)"
  shows "find_config st name = Some c \<and> scan_transactions wave c = Inr scan"
  using assms by (auto simp: require_config_and_scan_def rbind_Inr split: option.splits)

lemma render_refused:
  assumes "parse_render args = Inr (Inl e)"
  shows "\<not> answered e"
proof -
  from assms obtain u where u: "json_value args ''render_time_unit'' ''ns'' get_string = Inr u" by (auto simp: parse_render_def rbind_Inr)
  show ?thesis
  proof (cases "parse_time_render_unit u")
    case (Inl message)
    then show ?thesis using assms u by (auto simp: parse_render_def)
  next
    case (Inr unit)
    then show ?thesis using assms u by (auto simp: parse_render_def rbind_Inr split: option.splits)
  qed
qed

lemma query_response_total:
  "summary_of (query_response wave u f scan ms name direction address i l b) ''total_count'' = JUnsigned (length ms)"
  by (simp add: summary_of_def query_response_def Let_def query_total del: get_member.simps)

lemma summary_other_member:
  assumes "k \<in> {''matched_read_count'', ''matched_write_count'', ''matched_transaction_count''}"
  shows "get_member (JObject (merge_members ms (completeness_summary c t n m))) k = get_member (JObject ms) k"
  using assms by (auto simp: completeness_summary_def map_of_merge_members)

lemma statistics_members:
  assumes "r = statistics_response name scan f direction address reads writes unresolved"
  shows "summary_of r ''matched_read_count'' = JUnsigned reads" "summary_of r ''matched_write_count'' = JUnsigned writes"
    "summary_of r ''matched_transaction_count'' = JUnsigned (reads + writes)"
  by (auto simp: assms summary_of_def statistics_response_def Let_def width_complete_member summary_other_member simp del: get_member.simps)
    (simp_all add: get_member.simps)

lemma query_response_answered: "answered (query_response wave u f scan ms name direction address i l b)"
  by (simp add: answered_def query_response_def query_one_def query_page_def query_count_def Let_def del: get_member.simps)

lemma statistics_response_answered: "answered (statistics_response name scan f direction address reads writes unresolved)"
  by (simp add: answered_def statistics_response_def Let_def del: get_member.simps)

lemma query_answer:
  assumes "apb_query getenv wave st req = Inr r" "answered r"
  shows "\<exists>name direction address c scan ms. query_filter req = Inr (name, direction, address) \<and>
    find_config st name = Some c \<and> scan_transactions wave c = Inr scan \<and> matching direction address (as_transactions scan) = Inr ms \<and>
    summary_of r ''total_count'' = JUnsigned (length ms)"
proof -
  from assms(1) obtain args name where a: "json_at req ''args'' = Inr args" "string_at_key args ''name'' = Inr name"
    by (auto simp: apb_query_def rbind_Inr)
  with assms obtain c scan where scan: "require_config_and_scan getenv wave st name ''apb.query'' = Inr (c, scan)"
    by (cases "require_config_and_scan getenv wave st name ''apb.query''") (auto simp: apb_query_def dest: require_refused)
  from assms a scan obtain render where render: "parse_render args = Inr render" by (auto simp: apb_query_def rbind_Inr)
  then have "\<exists>uf. render = Inr uf"
    using assms a scan by (cases render) (auto simp: apb_query_def dest: render_refused)
  then obtain unit format where uf: "render = Inr (unit, format)" by auto
  from assms(1) a scan render uf obtain direction address ms where
    d: "json_value args ''direction'' ''all'' get_string = Inr direction" "json_value args ''address'' JNull Inr = Inr address"
    "matching direction address (as_transactions scan) = Inr ms"
    by (auto simp: apb_query_def rbind_Inr)
  with assms(1) a scan render uf obtain index line_limit is_last where
    "r = query_response wave unit format scan ms name direction address index line_limit is_last"
    by (auto simp: apb_query_def rbind_Inr)
  then have "summary_of r ''total_count'' = JUnsigned (length ms)" by (simp add: query_response_total)
  then show ?thesis using a d require_found [OF scan] by (auto simp: query_filter_def)
qed

lemma statistics_answer:
  assumes "apb_statistics getenv wave st req = Inr r" "answered r"
  shows "\<exists>name direction address c scan reads writes unresolved. statistics_filter req = Inr (name, direction, address) \<and>
    find_config st name = Some c \<and> scan_transactions wave c = Inr scan \<and>
    count_matches direction address (as_transactions scan) (0, 0, as_unresolved scan) = Inr (reads, writes, unresolved) \<and>
    summary_of r ''matched_read_count'' = JUnsigned reads \<and> summary_of r ''matched_write_count'' = JUnsigned writes \<and>
    summary_of r ''matched_transaction_count'' = JUnsigned (reads + writes)"
proof -
  from assms(1) obtain args name where a: "json_at req ''args'' = Inr args" "string_at_key args ''name'' = Inr name"
    by (auto simp: apb_statistics_def rbind_Inr)
  with assms obtain c scan where scan: "require_config_and_scan getenv wave st name ''apb.statistics'' = Inr (c, scan)"
    by (cases "require_config_and_scan getenv wave st name ''apb.statistics''") (auto simp: apb_statistics_def dest: require_refused)
  from assms(1) a scan obtain f direction address where
    f: "json_value args ''filter'' (JObject []) Inr = Inr f" "json_value f ''direction'' ''all'' get_string = Inr direction"
    "json_value f ''address'' JNull Inr = Inr address"
    by (auto simp: apb_statistics_def rbind_Inr)
  with assms(1) a scan obtain reads writes unresolved where
    n: "count_matches direction address (as_transactions scan) (0, 0, as_unresolved scan) = Inr (reads, writes, unresolved)"
    by (auto simp: apb_statistics_def rbind_Inr)
  with assms(1) a scan f have r: "r = statistics_response name scan f direction address reads writes unresolved"
    by (auto simp: apb_statistics_def)
  show ?thesis using a f n require_found [OF scan] statistics_members [OF r] by (auto simp: statistics_filter_def)
qed

text \<open>
  A query and a statistics request that ask for the same transfers agree: the total of the query, in
  each of its three modes, is the number of transfers the statistics count as matched, and this is the sum of the
  matched reads and writes.
\<close>

theorem apb_query_statistics_agree:
  assumes "apb_query getenv wave st q = Inr r" "answered r" "apb_statistics getenv wave st s = Inr r'" "answered r'"
    and "query_filter q = statistics_filter s"
  shows "\<exists>reads writes. summary_of r ''total_count'' = JUnsigned (reads + writes) \<and>
    summary_of r' ''matched_transaction_count'' = JUnsigned (reads + writes) \<and>
    summary_of r' ''matched_read_count'' = JUnsigned reads \<and> summary_of r' ''matched_write_count'' = JUnsigned writes"
proof -
  obtain name direction address c scan ms where q: "query_filter q = Inr (name, direction, address)" "find_config st name = Some c"
    "scan_transactions wave c = Inr scan" "matching direction address (as_transactions scan) = Inr ms"
    "summary_of r ''total_count'' = JUnsigned (length ms)"
    using query_answer [OF assms(1,2)] by blast
  obtain reads writes unresolved where s:
    "count_matches direction address (as_transactions scan) (0, 0, as_unresolved scan) = Inr (reads, writes, unresolved)"
    "summary_of r' ''matched_read_count'' = JUnsigned reads" "summary_of r' ''matched_write_count'' = JUnsigned writes"
    "summary_of r' ''matched_transaction_count'' = JUnsigned (reads + writes)"
    using statistics_answer [OF assms(3,4)] q assms(5) by auto
  then have "reads = length (filter (\<lambda>t. \<not> at_is_write t) ms)" "writes = length (filter at_is_write ms)"
    using matching_counts [OF q(4), of 0 0 "as_unresolved scan"] by auto
  then have "length ms = reads + writes" using sum_length_filter_compl [of at_is_write ms] by simp
  then show ?thesis using q(5) s by auto
qed

definition bus_query :: json where
  "bus_query = JObject [(''args'', JObject [(''name'', JString ''apb0''), (''direction'', JString ''write'')])]"

definition bus_statistics :: json where
  "bus_statistics = JObject [(''args'', JObject [(''name'', JString ''apb0''), (''filter'', JObject [(''direction'', JString ''write'')])])]"

theorem apb_query_statistics_agree_witness:
  "\<exists>r'. apb_statistics (\<lambda>v. None) bus_wave bus_state bus_statistics = Inr r' \<and>
     summary_of r' ''matched_transaction_count'' = JUnsigned 1"
proof -
  obtain scan where scan: "require_config_and_scan (\<lambda>v. None) bus_wave bus_state ''apb0'' ''apb.query'' = Inr (bus_config, scan)"
    "as_transactions scan = [bus_transfer]" using bus_required by blast
  then obtain r where r: "apb_query (\<lambda>v. None) bus_wave bus_state bus_query = Inr r" "answered r" "summary_of r ''total_count'' = JUnsigned 1"
    by (simp add: apb_query_def bus_query_def bus_render string_at_key_def json_value_def direction_matches_def matching_all
      bus_transfer_def query_response_total query_response_answered)
  obtain scan' where scan': "require_config_and_scan (\<lambda>v. None) bus_wave bus_state ''apb0'' ''apb.statistics'' = Inr (bus_config, scan')"
    "as_transactions scan' = [bus_transfer]" using bus_required by blast
  then obtain r' where r': "apb_statistics (\<lambda>v. None) bus_wave bus_state bus_statistics = Inr r'" "answered r'"
    by (simp add: apb_statistics_def bus_statistics_def string_at_key_def json_value_def direction_matches_def address_matches_def
      json_is_null_def bus_transfer_def statistics_response_answered)
  have "query_filter bus_query = statistics_filter bus_statistics" by code_simp
  then show ?thesis using r' apb_query_statistics_agree [OF r(1,2) r'] r(3) by auto
qed

definition page_items :: "json \<Rightarrow> json list" where
  "page_items r = json_items (get_member (get_member r ''data'') ''transactions'')"

lemma page_shown:
  assumes "0 < k"
  shows "page_items (query_page wave u f scan ms (int (i * k) + 1) (int k) a s d) =
      map (\<lambda>t. transaction_json t wave u f False) (take k (drop (i * k) ms))"
  by (simp add: page_items_def query_page_def Let_def del: of_nat_mult)

text \<open>
  Paging through the matches shows each of them once and in order: the pages of a query whose index
  moves on by the page length join up to the first matches, and a page is marked truncated exactly while matches
  remain after it.
\<close>

theorem apb_query_pages:
  assumes "0 < k"
  shows "concat (map (\<lambda>i. page_items (query_page wave u f scan ms (int (i * k) + 1) (int k) a s d)) [0..<n]) =
      map (\<lambda>t. transaction_json t wave u f False) (take (n * k) ms) \<and>
    summary_of (query_page wave u f scan ms (int (n * k) + 1) (int k) a s d) ''response_truncated'' = JBool ((n + 1) * k < length ms)"
proof -
  have "concat (map (\<lambda>i. page_items (query_page wave u f scan ms (int (i * k) + 1) (int k) a s d)) [0..<n]) =
      map (\<lambda>t. transaction_json t wave u f False) (concat (map (\<lambda>i. take k (drop (i * k) ms)) [0..<n]))"
    using assms by (simp add: page_shown map_concat comp_def del: of_nat_mult)
  moreover have "summary_of (query_page wave u f scan ms (int (n * k) + 1) (int k) a s d) ''response_truncated'' =
      JBool (n * k + min (length ms - n * k) k < length ms)"
    by (simp add: summary_of_def query_page_def Let_def summary_member width_complete_member del: get_member.simps of_nat_mult)
  moreover have "n * k + min (length ms - n * k) k < length ms \<longleftrightarrow> (n + 1) * k < length ms" using assms by (auto simp: min_def)
  ultimately show ?thesis using pages_cover [OF assms, of ms n] by simp
qed

theorem apb_query_pages_witness:
  "concat (map (\<lambda>i. page_items (query_page bus_wave Ns Hex apb_scan_init [bus_transfer, bus_transfer] (int (i * 1) + 1) (int 1) JNull [] [])) [0..<2]) =
     [transaction_json bus_transfer bus_wave Ns Hex False, transaction_json bus_transfer bus_wave Ns Hex False]"
  using apb_query_pages [of 1 bus_wave Ns Hex apb_scan_init "[bus_transfer, bus_transfer]" JNull "[]" "[]" 2] by simp

text \<open>
  A memory budget taken from the environment is the number its decimal digits denote: it is accepted
  exactly when the variable is a non-empty string of digits whose value fits 64 bits (and is positive where zero is not
  allowed), and then there was no wrap-around in computing it.
\<close>

theorem apb_budget_exact:
  "parse_analysis_cache_budget getenv name d allow_zero = Inr v \<longleftrightarrow>
     (case getenv name of
        None \<Rightarrow> v = d
      | Some raw \<Rightarrow> raw \<noteq> [] \<and> list_all is_digit raw \<and> digits_value raw < 2 ^ 64 \<and> unat v = digits_value raw \<and> (allow_zero \<or> 0 < digits_value raw))"
proof (cases "getenv name")
  case (Some raw)
  have "v = 0 \<longleftrightarrow> unat v = 0" by (simp add: unat_eq_0)
  then show ?thesis
    using budget_digits_value [of name raw 0 v] Some by (auto simp: parse_analysis_cache_budget_def rbind_Inr digits_value_def)
qed (auto simp: parse_analysis_cache_budget_def)

lemma address_none: "transaction_address t = None \<longleftrightarrow> \<not> (length (at_addr t) \<le> 64 \<and> two_state (at_addr t))"
  by (auto simp: transaction_address_def two_state_def list_all_iff)

lemma mask_bits:
  fixes v :: u64
  shows "v AND hi = lo AND hi \<longleftrightarrow> (\<forall>i < 64. \<not> (bit hi i \<and> odd (unat v div 2 ^ i) \<noteq> bit lo i))"
proof -
  have "bit (unat v) i = bit v i" for i by (simp add: bit_unsigned_iff)
  then have "odd (unat v div 2 ^ i) = bit v i" for i by (simp add: bit_iff_odd [of "unat v"])
  then show ?thesis by (auto simp: bit_eq_iff bit_and_iff)
qed

text \<open>
  The address filters compare numbers. An address of at most 64 binary digits matches a range when its
  value lies in it, and a mask when it agrees with the expected value on every bit of the mask; an address with an unknown
  digit, or a longer one, is unresolved for every non-empty filter.
\<close>

theorem apb_address_filter:
  assumes "logic_u64 a = Inr (Some lo)" "logic_u64 b = Inr (Some hi)"
  shows "address_matches t (JObject [(''mode'', JString ''range''), (''begin'', JString a), (''end'', JString b)]) =
      Inr (if length (at_addr t) \<le> 64 \<and> two_state (at_addr t)
           then if unat lo \<le> bits_nat (at_addr t) \<and> bits_nat (at_addr t) \<le> unat hi then FYes else FNo else FUnresolved) \<and>
    address_matches t (JObject [(''mode'', JString ''mask''), (''value'', JString a), (''mask'', JString b)]) =
      Inr (if length (at_addr t) \<le> 64 \<and> two_state (at_addr t)
           then if \<forall>i < 64. \<not> (bit hi i \<and> odd (bits_nat (at_addr t) div 2 ^ i) \<noteq> bit lo i) then FYes else FNo else FUnresolved)"
proof (cases "transaction_address t")
  case None
  then show ?thesis using assms address_none [of t] by (simp add: address_matches_def json_is_null_def)
next
  case (Some v)
  then have v: "length (at_addr t) \<le> 64 \<and> two_state (at_addr t)" "unat v = bits_nat (at_addr t)"
    using transaction_address_value [of t v] by simp_all
  have "v AND hi = lo AND hi \<longleftrightarrow> (\<forall>i < 64. \<not> (bit hi i \<and> odd (bits_nat (at_addr t) div 2 ^ i) \<noteq> bit lo i))"
    using mask_bits [of v hi lo] v(2) by simp
  moreover have "lo \<le> v \<longleftrightarrow> unat lo \<le> bits_nat (at_addr t)" "v \<le> hi \<longleftrightarrow> bits_nat (at_addr t) \<le> unat hi"
    using v(2) by (simp_all add: word_le_nat_alt)
  ultimately show ?thesis using Some v(1) assms by (simp add: address_matches_def json_is_null_def)
qed

theorem apb_address_filter_witness:
  "address_matches bus_transfer (JObject [(''mode'', JString ''range''), (''begin'', JString ''2''), (''end'', JString ''0x6'')]) = Inr FYes"
proof -
  have "logic_u64 ''2'' = Inr (Some 2)" "logic_u64 ''0x6'' = Inr (Some 6)" by code_simp+
  moreover have "two_state (at_addr bus_transfer)" "length (at_addr bus_transfer) = 4" "bits_nat (at_addr bus_transfer) = 4" by code_simp+
  ultimately show ?thesis using apb_address_filter [of "''2''" 2 "''0x6''" 6 bus_transfer] by simp
qed

text \<open>
  A bus configuration survives being listed and loaded again: what \<open>parse_config\<close> accepts, printed by
  \<open>config_json\<close>, is accepted again under the same name and gives the same configuration.
\<close>

theorem apb_config_roundtrip:
  assumes "parse_config name v = Inr (Inr c)"
  shows "parse_config name (config_json c) = Inr (Inr c)"
  using parse_config_ok [OF assms] config_roundtrip [of c] by auto

theorem apb_config_roundtrip_witness:
  "parse_config ''apb0'' (config_json bus_config) = Inr (Inr bus_config)"
proof -
  have "parse_config ''apb0'' (config_json (bus_config\<lparr>ac_name := ''other''\<rparr>)) = Inr (Inr bus_config)" by code_simp
  then show ?thesis by (rule apb_config_roundtrip)
qed

end
