(* ===== verification/Axi_Theorems.thy ===== *)
theory Axi_Theorems
  imports Axi_Counts Axi_Cursor Apb_Theorems
begin

text \<open>
  What the AXI analyses guarantee, and where a response may be paired with a request it cannot belong to.
\<close>

section \<open>Handshakes and their assembly\<close>

definition bus_axi :: axi_signal_map where
  "bus_axi = \<lparr>ax_name = ''axi0'', ax_aclk = ''clk'', ax_aresetn = ''rst_n'', ax_reset_polarity = ''active_low'', ax_edge = ''posedge'',
     ax_sample_point = ''before'', ax_awid = '''', ax_awaddr = '''', ax_awlen = '''', ax_awsize = '''', ax_awburst = '''', ax_awvalid = ''psel'',
     ax_awready = ''pready'', ax_wdata = '''', ax_wstrb = '''', ax_wlast = '''', ax_wvalid = '''', ax_wready = '''', ax_bid = '''', ax_bresp = '''',
     ax_bvalid = '''', ax_bready = '''', ax_arid = '''', ax_araddr = '''', ax_arlen = '''', ax_arsize = '''', ax_arburst = '''', ax_arvalid = '''',
     ax_arready = '''', ax_rid = '''', ax_rdata = '''', ax_rresp = '''', ax_rlast = '''', ax_rvalid = '''', ax_rready = ''''\<rparr>"

text \<open>
  Claim C9 (functional). The handshakes of a channel are exactly the active clock edges at which valid and ready are both known
  and high, in order; the begin time of each is that of the first edge of the interval over which valid was held, which a
  handshake, or an edge without valid, ends; and the scan stays complete exactly when both levels were known at every edge.
\<close>

theorem axi_handshakes_exact:
  assumes "rv \<noteq> 0" "rr \<noteq> 0" "scan_channel_handshakes wave c rv rr channel edges complete = (events, complete')"
  shows "map ae_time_idx events = filter (handshake_at wave c rv rr) edges \<and> (\<forall>ev \<in> set events. event_ok wave c rv rr channel edges ev) \<and>
    (complete' \<longleftrightarrow> complete \<and> (\<forall>ti \<in> set edges. known_at wave c rv rr ti))"
proof -
  have "fresh_after wave c rv rr []" "holding wave c rv rr []" by (simp_all add: fresh_after_def holding_def)
  then show ?thesis
    using channel_loop_spec [of wave c rv rr "[]" "[]" False 0 channel edges "[]" complete] assms by (auto simp: scan_channel_handshakes_def)
qed

theorem axi_handshakes_exact_witness:
  "\<exists>ev. scan_channel_handshakes bus_wave bus_axi 4 9 ''aw'' [1, 3] True = ([ev], True) \<and> ae_time_idx ev = 3 \<and> ae_valid_begin ev = 1"
proof -
  obtain events ok where s: "scan_channel_handshakes bus_wave bus_axi 4 9 ''aw'' [1, 3] True = (events, ok)" by fastforce
  have h: "handshake_at bus_wave bus_axi 4 9 1 = False" "handshake_at bus_wave bus_axi 4 9 3 = True" "known_at bus_wave bus_axi 4 9 1"
    "known_at bus_wave bus_axi 4 9 3" "valid_at bus_wave bus_axi 4 1" by code_simp+
  have e: "map ae_time_idx events = [3]" "ok" "\<forall>ev \<in> set events. event_ok bus_wave bus_axi 4 9 ''aw'' [1, 3] ev"
    using axi_handshakes_exact [OF _ _ s] h by (simp_all del: One_nat_def)
  then obtain ev where ev: "events = [ev]" "ae_time_idx ev = 3" by (auto simp: map_eq_Cons_conv)
  with e(3) obtain pre mid post where p: "[1, 3] = pre @ mid @ 3 # post" "fresh_after bus_wave bus_axi 4 9 pre"
    "ae_valid_begin ev = wf_time_at bus_wave (hd (mid @ [3]))" by (auto simp: event_ok_def begins_interval_def simp del: One_nat_def)
  have "pre = []"
    using p(1,2) h by (cases pre) (auto simp: fresh_after_def Let_def Cons_eq_append_conv simp del: One_nat_def)
  with p(1) have "hd (mid @ [3]) = 1" by (cases mid) auto
  then show ?thesis using s e ev p(3) by (simp add: bus_wave_def)
qed

text \<open>
  Claim C7 (refinement). Writes are paired as the protocol says: the data beats are cut into bursts that end with the beat
  marked last, the bursts go to the write addresses in the order of acceptance, and for every identifier the k-th
  response completes the k-th write that has its data. The assembly through queues per identifier computes just this.
\<close>

theorem axi_write_pairing:
  "let (bursts, rest) = split_bursts [] ws
   in concat bursts @ rest = ws \<and> list_all closed_burst bursts \<and> list_all (\<lambda>ev. \<not> ae_last ev) rest \<and>
      map unplaced (filter (\<lambda>t. tx_complete t \<and> tx_id t = k) (assemble_writes aws ws bs)) =
        map (\<lambda>((aw, burst), b). completed b (requested True 0 aw (map ae_data burst) burst))
          (zip (filter (\<lambda>(aw, burst). ae_id aw = k) (zip aws bursts)) (filter (\<lambda>b. ae_id b = k) bs))"
proof -
  obtain bursts rest where s: "split_bursts [] ws = (bursts, rest)" by fastforce
  obtain new left us where a: "map unplaced (assemble_writes aws ws bs) =
      new @ map (write_txn aws 0) left @ map (write_txn aws 0) (pending_writes aws bursts rest) @ map (orphan_txn 0) (orphans bs us)"
    "\<forall>t \<in> set new. tx_is_write t \<and> tx_complete t"
    "filter (\<lambda>t. tx_id t = k) new =
       map (\<lambda>((aw, burst), b). completed b (requested True 0 aw (map ae_data burst) burst)) (zip (data_done aws bursts k) (of_id k bs))"
    using assemble_writes_spec [OF s, of aws bs] by blast
  have "map unplaced (filter (\<lambda>t. tx_complete t \<and> tx_id t = k) (assemble_writes aws ws bs)) =
      filter (\<lambda>t. tx_complete t \<and> tx_id t = k) (map unplaced (assemble_writes aws ws bs))"
    by (simp add: filter_map comp_def)
  also have "\<dots> = filter (\<lambda>t. tx_complete t \<and> tx_id t = k) new"
    by (simp add: a(1) filter_map comp_def write_txn_def orphan_txn_def)
  also have "\<dots> = filter (\<lambda>t. tx_id t = k) new" using a(2) by (intro filter_cong) auto
  finally show ?thesis using a(3) split_bursts_spec [OF s] by (simp add: s data_done_def of_id_def list_all_iff)
qed

lemma sort_key_sorts: "sorts_by key (sort_key key)"
  by (simp add: sorts_by_def)

text \<open>
  Claim C8 (invariant). No request is lost or counted twice: the requests of the assembled transactions are, as a multiset, those
  of the write and read address handshakes together with one entry for every write response that found no write. This
  holds however the sort orders handshakes with equal times.
\<close>

theorem axi_requests_conserved:
  assumes "sorts_by re_time sort_reads"
  shows "\<exists>os. mset (map request_of (assemble_axi_transactions sort_reads aws ws bs ars rs)) =
      mset (map request_event aws) + mset (map request_event ars) + mset (map (\<lambda>b. request_of (orphan_txn 0 b)) os) \<and>
    (\<forall>k. of_id k os = drop (length (data_done aws (fst (split_bursts [] ws)) k)) (of_id k bs))"
proof -
  obtain bursts rest where s: "split_bursts [] ws = (bursts, rest)" by fastforce
  show ?thesis
    using writes_conserved [OF s, of aws bs] reads_conserved [OF assms, of ars rs "assemble_writes aws ws bs"]
    by (auto simp: assemble_axi_transactions_def s union_ac)
qed

definition ar_event :: axi_event where
  "ar_event = axi_event_init\<lparr>ae_id := ''1'', ae_time := 5\<rparr>"

definition r_event :: axi_event where
  "r_event = axi_event_init\<lparr>ae_id := ''1'', ae_time := 7, ae_last := True\<rparr>"

theorem axi_requests_conserved_witness:
  "mset (map request_of (assemble_axi_transactions (sort_key re_time) [] [] [] [ar_event] [r_event])) = {#request_event ar_event#}"
proof -
  obtain os where os: "mset (map request_of (assemble_axi_transactions (sort_key re_time) [] [] [] [ar_event] [r_event])) =
      {#request_event ar_event#} + mset (map (\<lambda>b. request_of (orphan_txn 0 b)) os)" "\<forall>k. of_id k os = []"
    using axi_requests_conserved [OF sort_key_sorts [of re_time], of "[]" "[]" "[]" "[ar_event]" "[r_event]"] by auto
  have "os = []" using os(2) [rule_format, of "ae_id (hd os)"] by (cases os) auto
  then show ?thesis using os(1) by simp
qed

text \<open>
  Reads are paired by identifier: the completed reads of an identifier take its address handshakes in
  order, their data is a subsequence of its data handshakes in order, every one of them has beats of its own identifier
  of which only the final one is marked last, and none ends before it starts.
\<close>

theorem axi_read_pairing:
  assumes "sorts_by re_time sort_reads"
  shows "\<exists>done. map unplaced (filter (\<lambda>t. tx_complete t \<and> tx_id t = k) (assemble_reads sort_reads ars rs [])) = map unplaced done \<and>
    (\<forall>t \<in> set done. finished_read t) \<and>
    prefix (map request_of done) (map request_event (of_id k (ars_seen ars (sort_reads (read_events ars rs))))) \<and>
    subseq (concat (map tx_events done)) (of_id k (rs_seen rs (sort_reads (read_events ars rs))))"
proof -
  have "\<not> tx_is_write t" if "t \<in> set (assemble_reads sort_reads ars rs [])" for t
    by (rule assembled_reads [OF assms that])
  then have "filter (\<lambda>t. \<not> tx_is_write t \<and> tx_complete t \<and> tx_id t = k) (assemble_reads sort_reads ars rs []) =
      filter (\<lambda>t. tx_complete t \<and> tx_id t = k) (assemble_reads sort_reads ars rs [])"
    by (intro filter_cong) auto
  then show ?thesis using reads_of_id [OF assms, of k ars rs] by simp
qed

theorem axi_read_pairing_witness:
  "\<exists>done. map unplaced (filter (\<lambda>t. tx_complete t \<and> tx_id t = ''1'') (assemble_reads (sort_key re_time) [ar_event] [r_event] [])) = map unplaced done \<and>
     (\<forall>t \<in> set done. finished_read t) \<and> length done = 1"
proof -
  have "length (filter (\<lambda>t. tx_complete t \<and> tx_id t = ''1'') (assemble_reads (sort_key re_time) [ar_event] [r_event] [])) = 1" by code_simp
  moreover obtain ds where d: "map unplaced (filter (\<lambda>t. tx_complete t \<and> tx_id t = ''1'') (assemble_reads (sort_key re_time) [ar_event] [r_event] [])) = map unplaced ds"
    "\<forall>t \<in> set ds. finished_read t"
    using axi_read_pairing [OF sort_key_sorts [of re_time], of "''1''" "[ar_event]" "[r_event]"] by blast
  ultimately have "length ds = 1" using map_eq_imp_length_eq [OF d(1)] by simp
  then show ?thesis using d by blast
qed

text \<open>
  The scan lists the assembled transactions by start time, each under its position.
\<close>

theorem axi_transactions_ordered:
  "let s = scan_channels sort_reads wave c refs edges complete
   in sorted (map tx_start (xs_transactions s)) \<and> map tx_index (xs_transactions s) = [0..<length (xs_transactions s)] \<and>
      mset (map unplaced (xs_transactions s)) =
        mset (map unplaced (assemble_axi_transactions sort_reads (xs_aw s) (xs_w s) (xs_b s) (xs_ar s) (xs_r s)))"
proof -
  define s where "s = scan_channels sort_reads wave c refs edges complete"
  define a where "a = assemble_axi_transactions sort_reads (xs_aw s) (xs_w s) (xs_b s) (xs_ar s) (xs_r s)"
  have t: "xs_transactions s = reindex (sort_key tx_start a)" by (simp add: s_def a_def scan_channels_def Let_def case_prod_unfold)
  have "mset (map unplaced (xs_transactions s)) = mset (map unplaced a)" unfolding t reindex_fields(1) by simp
  moreover have "sorted (map tx_start (xs_transactions s))" unfolding t reindex_fields(3) by simp
  moreover have "map tx_index (xs_transactions s) = [0..<length (xs_transactions s)]"
    unfolding t reindex_fields(2) by (simp add: reindex_def)
  ultimately show ?thesis by (simp add: s_def [symmetric] a_def Let_def)
qed

section \<open>Counts\<close>

text \<open>
  Claim C27 (equivalence). The one-pass sweep over the boundaries of transactions gives, at every active clock edge, the number of
  reads and of writes that are open there, as counting all transactions again at each edge would: those that have
  started and, if they complete, have not ended. It does so whatever order the sort gives to boundaries at one time.
\<close>

theorem axi_depth_sweep:
  assumes "sorts_by de_time sort_depths" "sorted (map (wf_time_at (rq_wave rq)) edges)"
  shows "osd_depths sort_depths rq direction edges =
    map (\<lambda>ti. (word_of_nat (open_count direction False (wf_time_at (rq_wave rq) ti) (xs_transactions (rq_scan rq))),
               word_of_nat (open_count direction True (wf_time_at (rq_wave rq) ti) (xs_transactions (rq_scan rq)))))
      (active_edges_of rq edges)"
  by (rule osd_depths_count [OF assms])

definition one_read :: axi_transaction where
  "one_read = axi_transaction_init\<lparr>tx_start := 1, tx_end := 3\<rparr>"

definition bus_request :: axi_request where
  "bus_request = \<lparr>rq_args = JNull, rq_wave = bus_wave, rq_config = bus_axi, rq_begin = 0, rq_end = 3,
     rq_scan = \<lparr>xs_aw = [], xs_w = [], xs_b = [], xs_ar = [], xs_r = [], xs_transactions = [one_read], xs_refs = [], xs_complete = True\<rparr>\<rparr>"

theorem axi_depth_sweep_witness:
  "osd_depths (sort_key de_time) bus_request ''all'' [1, 3] = [(1, 0), (0, 0)]"
proof -
  have "sorted (map (wf_time_at (rq_wave bus_request)) [1, 3])" by code_simp
  note sweep = axi_depth_sweep [OF sort_key_sorts this, of "''all''"]
  have "active_edges_of bus_request [1, 3] = [1, 3]" by code_simp
  moreover have "open_count ''all'' False 1 [one_read] = 1" "open_count ''all'' False 3 [one_read] = 0"
    "open_count ''all'' True t [one_read] = 0" for t by code_simp+
  ultimately show ?thesis using sweep by (simp add: bus_request_def bus_wave_def)
qed

text \<open>
  Every point of the timeline of outstanding transactions shows the number of reads (writes) that started up
  to its time minus those completed up to it; the points are at increasing times, the peaks are the largest values
  shown, and the final values are the numbers of transactions that never complete.
\<close>

theorem axi_timeline_counts:
  "let acc = foldl timeline_step (timeline_init lo) (deltas_of direction txns)
   in sorted_wrt (<) (map fst (tl_points acc)) \<and>
      list_all (\<lambda>(time, r, w, dr, dw).
        r = int (length (filter (started direction False time) txns)) - int (length (filter (ended direction False time) txns)) \<and>
        w = int (length (filter (started direction True time) txns)) - int (length (filter (ended direction True time) txns))) (tl_points acc) \<and>
      tl_peak_read acc = Max (insert 0 ((\<lambda>p. fst (snd p)) ` set (tl_points acc))) \<and>
      tl_peak_write acc = Max (insert 0 ((\<lambda>p. fst (snd (snd p))) ` set (tl_points acc))) \<and>
      tl_read acc = int (length (filter (\<lambda>t. \<not> tx_is_write t \<and> \<not> other_direction direction t \<and> \<not> tx_complete t) txns)) \<and>
      tl_write acc = int (length (filter (\<lambda>t. tx_is_write t \<and> \<not> other_direction direction t \<and> \<not> tx_complete t) txns))"
proof -
  let ?m = "deltas_of direction txns" and ?acc = "foldl timeline_step (timeline_init lo) (deltas_of direction txns)"
  have p: "(tl_read ?acc, tl_write ?acc) = totals ?m" "map fst (tl_points ?acc) = map fst ?m" "\<forall>p \<in> set (tl_points ?acc). point_ok ?m p"
    "tl_peak_read ?acc = Max (insert 0 ((\<lambda>p. fst (snd p)) ` set (tl_points ?acc)))"
    "tl_peak_write ?acc = Max (insert 0 ((\<lambda>p. fst (snd (snd p))) ` set (tl_points ?acc)))"
    using timeline_points [of "[]" ?m "timeline_init lo"] deltas_sorted by (simp_all add: timeline_init_def totals_def Let_def)
  have all: "\<forall>e \<in> set ?m. fst e \<le> - 1" by simp
  have "upto_sum w (- 1) ?m = int (length (filter (\<lambda>t. tx_is_write t = w \<and> \<not> other_direction direction t \<and> \<not> tx_complete t) txns))" for w
    unfolding deltas_sum by (induction txns) (auto simp: started_def ended_def)
  then have "tl_read ?acc = int (length (filter (\<lambda>t. \<not> tx_is_write t \<and> \<not> other_direction direction t \<and> \<not> tx_complete t) txns))"
    "tl_write ?acc = int (length (filter (\<lambda>t. tx_is_write t \<and> \<not> other_direction direction t \<and> \<not> tx_complete t) txns))"
    using upto_sum_all [OF all, of False] upto_sum_all [OF all, of True] p(1) by (simp_all add: prod_eq_iff)
  then show ?thesis
    using p deltas_sorted by (auto simp: Let_def list_all_iff point_ok_def deltas_sum)
qed

text \<open>
  A percentile is read inside the list of latencies and has the nearest rank: at least the asked share of all
  latencies is not above it.
\<close>

theorem axi_percentile_rank:
  assumes "vs \<noteq> []" "0 < num" "num \<le> 100"
  shows "percentile (sort vs) num \<in> set vs \<and> length vs * num \<le> 100 * length (filter (\<lambda>v. v \<le> percentile (sort vs) num) vs)"
proof -
  let ?s = "sort vs"
  obtain i where i: "i < length ?s" "percentile ?s num = ?s ! i" "length vs * num \<le> 100 * (i + 1)"
    using percentile_rank [of ?s num] assms by (metis length_0_conv length_sort sorted_sort)
  have "\<forall>x \<in> set (take (i + 1) ?s). x \<le> ?s ! i"
    using i(1) sorted_nth_mono [OF sorted_sort, of _ i vs] by (auto simp: in_set_conv_nth)
  then have "filter (\<lambda>v. v \<le> ?s ! i) (take (i + 1) ?s) = take (i + 1) ?s" by (simp add: filter_id_conv)
  then have "i + 1 \<le> length (filter (\<lambda>v. v \<le> ?s ! i) (take (i + 1) ?s))" using i(1) by simp
  also have "\<dots> \<le> length (filter (\<lambda>v. v \<le> ?s ! i) ?s)"
    by (metis append_take_drop_id filter_append le_add1 length_append)
  also have "\<dots> = length (filter (\<lambda>v. v \<le> ?s ! i) vs)" by (metis filter_sort length_sort)
  finally have "100 * (i + 1) \<le> 100 * length (filter (\<lambda>v. v \<le> ?s ! i) vs)" by simp
  then have "length vs * num \<le> 100 * length (filter (\<lambda>v. v \<le> ?s ! i) vs)" using i(3) by (rule order_trans [rotated])
  moreover have "?s ! i \<in> set vs" using nth_mem [OF i(1)] by simp
  ultimately show ?thesis by (simp add: i(2))
qed

theorem axi_percentile_rank_witness:
  "percentile (sort [30, 10, 20]) 50 \<in> set [30, 10, 20]"
  using axi_percentile_rank [of "[30, 10, 20]" 50] by simp

text \<open>
  The ranking by latency selects the slowest transactions: the selected ones are completed transactions of
  the direction, at most the number asked for, listed from slow to fast, and no transaction left out is slower than one selected.
\<close>

theorem axi_slowest_selected:
  assumes "t \<in> set (outliers ''top_n'' ticks n (ranked direction txns))" "u \<in> set txns" "tx_complete u" "\<not> other_direction direction u"
    "u \<notin> set (outliers ''top_n'' ticks n (ranked direction txns))"
  shows "t \<in> set txns \<and> tx_complete t \<and> \<not> other_direction direction t \<and> latency_of u \<le> latency_of t \<and>
    length (outliers ''top_n'' ticks n (ranked direction txns)) \<le> n \<and> sorted_wrt (\<lambda>a b. latency_of b \<le> latency_of a) (ranked direction txns)"
proof -
  let ?r = "ranked direction txns"
  have o: "outliers ''top_n'' ticks n ?r = take n ?r" by (simp add: outliers_def)
  have desc: "sorted_wrt (\<lambda>a b. latency_of b \<le> latency_of a) ?r"
  proof (rule sorted_wrt_mono_rel)
    show "sorted_wrt (\<lambda>a b. latency_order a \<le> latency_order b) ?r" by (simp add: ranked_def sorted_wrt_map [symmetric])
  qed (auto simp: latency_order_def less_eq_prod_def word_le_def)
  have "u \<in> set ?r" using assms(2-4) by (simp add: ranked_def)
  then have "u \<in> set (drop n ?r)" using assms(5) o by (metis UnE append_take_drop_id set_append)
  then have "latency_of u \<le> latency_of t"
    using desc assms(1) o by (metis append_take_drop_id sorted_wrt_append)
  moreover have "t \<in> set ?r" using assms(1) by (auto simp: o dest: in_set_takeD)
  ultimately show ?thesis using desc o by (simp add: ranked_def)
qed

definition slow_read :: axi_transaction where
  "slow_read = axi_transaction_init\<lparr>tx_start := 1, tx_end := 9\<rparr>"

theorem axi_slowest_selected_witness:
  "latency_of one_read \<le> latency_of slow_read"
proof -
  have "outliers ''top_n'' 0 1 (ranked ''all'' [one_read, slow_read]) = [slow_read]" by code_simp
  then show ?thesis
    using axi_slowest_selected [of slow_read 0 1 "''all''" "[one_read, slow_read]" one_read]
    by (simp add: one_read_def slow_read_def axi_transaction_init_def other_direction_def)
qed

section \<open>Cursors\<close>

text \<open>A bus on which a read address and its only data beat are accepted at the second rising clock edge.\<close>

definition read_bus_json :: json where
  "read_bus_json = JObject ([(''clock'', JString ''clk''), (''reset'', JObject [(''signal'', JString ''rst_n''), (''polarity'', JString ''active_low'')]),
     (''edge'', JString ''posedge'')] @
     map (\<lambda>k. (k, JString (if k \<in> {''arready'', ''rready''} then ''pready''
                           else if k \<in> {''arvalid'', ''rvalid'', ''rlast'', ''wlast''} then ''psel''
                           else if drop 1 k \<in> {''valid'', ''ready''} \<or> drop 2 k \<in> {''valid'', ''ready''} then ''clk''
                           else ''paddr''))) axi_signal_keys)"

definition read_bus :: axi_signal_map where
  "read_bus = (case parse_axi_signal_map ''axi0'' read_bus_json of Inr (Inr c) \<Rightarrow> c | _ \<Rightarrow> bus_axi)"

definition read_bus_state :: axi_state where
  "read_bus_state = \<lparr>xa_configs = [(''axi0'', read_bus)], xa_cursors = []\<rparr>"

definition read_bus_load :: json where
  "read_bus_load = JObject [(''args'', JObject [(''name'', JString ''axi0''), (''config'', read_bus_json)])]"

definition read_bus_last :: json where
  "read_bus_last = JObject [(''args'', JObject [(''name'', JString ''axi0''), (''op'', JString ''last'')])]"

lemma read_bus_parsed: "parse_axi_signal_map ''axi0'' read_bus_json = Inr (Inr read_bus)"
  by code_simp

lemma read_bus_edges: "selected_clock_edges bus_wave read_bus 0 3 = [1, 3]"
proof -
  have "edge_selected bus_wave read_bus 1 0 = False" "edge_selected bus_wave read_bus 1 1 = True"
    "edge_selected bus_wave read_bus 1 2 = False" "edge_selected bus_wave read_bus 1 3 = True" by code_simp+
  moreover have "ax_aclk read_bus = ''clk''" by code_simp
  ultimately show ?thesis
    by (simp add: selected_clock_edges_def bus_wave_def bus_changes_def bus_signals_def del: One_nat_def)
qed

lemma read_bus_scan:
  "\<exists>scan t. scan_axi (sort_key re_time) (\<lambda>v. None) bus_wave read_bus 0 3 = Inr scan \<and>
     filter (\<lambda>t. tx_complete t \<and> direction_selected ''all'' t) (xs_transactions scan) = [t]"
proof -
  have refs: "find_signals bus_wave (control_signals read_bus) = Inr [1, 1, 1, 1, 1, 1, 4, 9, 4, 9]"
    "find_signals bus_wave [(ax_aclk read_bus, ''clock''), (ax_aresetn read_bus, ''reset'')] = Inr [1, 2]"
    "active_edge_loop bus_wave read_bus 2 [1, 3] = ([1, 3], True)" by code_simp+
  have "length (filter (\<lambda>t. tx_complete t \<and> direction_selected ''all'' t) (xs_transactions
    (scan_channels (sort_key re_time) bus_wave read_bus [(1, 1), (1, 1), (1, 1), (4, 9), (4, 9)] [1, 3] True))) = Suc 0" by code_simp
  then show ?thesis
    using refs by (auto simp: scan_axi_def axi_budget_error_def read_bus_edges Let_def length_Suc_conv simp del: One_nat_def find_signals.simps active_edge_loop.simps)
qed

lemma read_bus_loaded:
  "\<exists>r. axi_config_load (\<lambda>p. Unreadable) (Some bus_wave) \<lparr>xa_configs = [], xa_cursors = []\<rparr> read_bus_load = Inr (r, read_bus_state)"
proof -
  have "snd (axi_store_config bus_wave \<lparr>xa_configs = [], xa_cursors = []\<rparr> read_bus) = read_bus_state" by code_simp
  then obtain r where "axi_store_config bus_wave \<lparr>xa_configs = [], xa_cursors = []\<rparr> read_bus = (r, read_bus_state)" by (metis prod.collapse)
  then show ?thesis
    using read_bus_parsed by (simp add: axi_config_load_def require_waveform_def read_bus_load_def axi_config_source_def json_contains_def string_at_key_def)
qed

text \<open>
  Claim C28 (safety). A cursor over the transactions of an AXI bus never points beyond them: in every state that loading
  configurations and moving cursors can reach, a cursor request, which carries no time range, answers.
\<close>

theorem axi_cursor_in_range:
  assumes "axi_reachable sort_reads getenv read_json w st" "without_time_range req"
    "axi_transaction_cursor sort_reads getenv (Some w) st req = Inr (r, st')"
  shows "r \<noteq> None \<and> axi_cursors_ok (sort_reads, getenv, w) st'"
  using axi_cursor_handler_ok [OF axi_reachable_cursors_ok [OF assms(1)] assms(3,2)] .

theorem axi_cursor_in_range_witness:
  "\<exists>r st'. axi_transaction_cursor (sort_key re_time) (\<lambda>v. None) (Some bus_wave) read_bus_state read_bus_last = Inr (Some r, st') \<and>
     omap_find ''axi0:all'' (xa_cursors st') = Some 0"
proof -
  obtain scan t where scan: "scan_axi (sort_key re_time) (\<lambda>v. None) bus_wave read_bus 0 3 = Inr scan"
    "filter (\<lambda>t. tx_complete t \<and> direction_selected ''all'' t) (xs_transactions scan) = [t]" using read_bus_scan by blast
  obtain r0 where "axi_config_load (\<lambda>p. Unreadable) (Some bus_wave) \<lparr>xa_configs = [], xa_cursors = []\<rparr> read_bus_load = Inr (r0, read_bus_state)"
    using read_bus_loaded by blast
  then have reach: "axi_reachable (sort_key re_time) (\<lambda>v. None) (\<lambda>p. Unreadable) bus_wave read_bus_state"
    by (rule axi_reachable.load [OF axi_reachable.start])
  have whole: "without_time_range read_bus_last" by (simp add: without_time_range_def read_bus_last_def json_value_def)
  have limits: "aw_min_time bus_wave = 0" "aw_max_time bus_wave = 3" by (simp_all add: bus_wave_def)
  have "\<exists>rq. axi_setup (sort_key re_time) (\<lambda>v. None) (Some bus_wave) read_bus_state read_bus_last ''axi.transaction.cursor'' = Inr (Inr rq) \<and>
      rq_args rq = JObject [(''name'', JString ''axi0''), (''op'', JString ''last'')] \<and> rq_scan rq = scan"
    using scan limits
    by (simp add: axi_setup_def require_waveform_def read_bus_last_def json_value_def resolve_axi_config_def string_at_key_def read_bus_state_def
      parse_time_range_def time_bound_def json_contains_def)
  then obtain r st' where r: "axi_transaction_cursor (sort_key re_time) (\<lambda>v. None) (Some bus_wave) read_bus_state read_bus_last = Inr (r, st')"
    "omap_find ''axi0:all'' (xa_cursors st') = Some 0"
    using scan by (auto simp: axi_transaction_cursor_def bus_render string_at_key_def json_value_def move_cursor_def read_bus_state_def Let_def)
  from axi_cursor_in_range [OF reach whole r(1)] r show ?thesis by auto
qed

section \<open>Responses that come too early\<close>

text \<open>
  A response is matched by identifier alone. One that comes before the address and the data of a write completes that
  write all the same, with an end before its start; the response of the request says that no dependency is violated.
\<close>

lemma response_before_request:
  "let aw = axi_event_init\<lparr>ae_time := 50\<rparr>; w = axi_event_init\<lparr>ae_time := 60, ae_last := True\<rparr>; b = axi_event_init\<lparr>ae_time := 10\<rparr>
   in map (\<lambda>t. (tx_complete t, tx_start t, tx_end t)) (assemble_writes [aw] [w] [b]) = [(True, 50, 10)]"
  by code_simp

text \<open>A response without a write is counted as an incomplete write, and the number of orphans is reported as zero.\<close>

lemma orphan_counted_incomplete:
  "let b = axi_event_init\<lparr>ae_time := 10\<rparr>
   in map (\<lambda>t. (tx_complete t, tx_is_write t)) (assemble_writes [] [] [b]) = [(False, True)] \<and>
      get_member (JObject (common_summary rq u name analysis direction n ls)) ''orphan_b_count'' = JInteger 0"
proof -
  have "get_member (JObject (common_summary rq u name analysis direction n ls)) ''orphan_b_count'' = JInteger 0" by (simp add: common_summary_def)
  moreover have "let b = axi_event_init\<lparr>ae_time := 10\<rparr> in map (\<lambda>t. (tx_complete t, tx_is_write t)) (assemble_writes [] [] [b]) = [(False, True)]" by code_simp
  ultimately show ?thesis by (simp add: Let_def)
qed

text \<open>A configuration as it is listed cannot be loaded again: loading expects its signals at the top level.\<close>

lemma listed_config_not_loadable: "\<exists>k. parse_axi_signal_map name (axi_signal_map_json m) = Inl (Missing_member k)"
  by (simp add: parse_axi_signal_map_def axi_signal_map_json_def string_at_key_def json_value_def axi_signal_keys_def Let_def)

end
