(* ===== verification/Stream_Scan.thy ===== *)
theory Stream_Scan
  imports Axi_Handlers Expr_Eval
begin

text \<open>
  Streams, \<open>engine/actions/stream/stream_actions.cpp\<close>: the configuration of a stream of valid/ready transfers, the
  expressions it is made of, and the scan that samples them at the clock edges. The waveform is that of the protocol
  actions with the index of a time. A handler may raise an exception or run into a fault of the expression evaluator; both
  are the left side of a result.
\<close>

record stream_wave = action_wave +
  sw_time_idx_of :: "u64 \<Rightarrow> nat"

section \<open>Configurations\<close>

text \<open>Three further members of the configuration, which no function reads, are left out.\<close>

record stream_config =
  sc_name :: string
  sc_source :: json
  sc_signals :: "(string, string) omap"
  sc_clock :: string
  sc_valid :: string
  sc_ready :: string
  sc_backpressure :: string
  sc_data :: string
  sc_edge :: string
  sc_sample_point :: string
  sc_reset :: string
  sc_reset_polarity :: string
  sc_sop :: string
  sc_eop :: string
  sc_beat_fields :: json
  sc_packet_stable_fields :: json
  sc_channel_id :: string
  sc_channel_id_valid :: string
  sc_allow_interleaving :: bool

type_synonym stream_state = "(string, stream_config) omap"

definition config_to_json :: "stream_config \<Rightarrow> json" where
  "config_to_json c = sc_source c"

definition clear_stream_configs :: "stream_state \<Rightarrow> stream_state" where
  "clear_stream_configs st = []"

definition get_config :: "stream_state \<Rightarrow> string \<Rightarrow> json + stream_config" where
  "get_config st name =
     (case omap_find name st of
        None \<Rightarrow> Inl (error_response ''CONFIG_NOT_FOUND'' (''stream config not found: '' @ name))
      | Some c \<Rightarrow> Inr c)"

definition stream_value_source_entries :: "stream_state \<Rightarrow> string \<Rightarrow> (string \<times> string) list option" where
  "stream_value_source_entries st name =
     (case get_config st name of
        Inl e \<Rightarrow> None
      | Inr c \<Rightarrow> Some ([(''clock'', sc_clock c), (''valid'', sc_valid c)] @
          (if sc_ready c \<noteq> [] then [(''ready'', sc_ready c)] else []) @
          (if sc_backpressure c \<noteq> [] then [(''bp'', sc_backpressure c)] else []) @
          (if sc_data c \<noteq> [] then [(''data'', sc_data c)] else [])))"

definition invalid_stream_config_error :: "string \<Rightarrow> json" where
  "invalid_stream_config_error message =
     JObject [(''ok'', JBool False), (''error'', JObject [
       (''code'', JString ''INVALID_ARGUMENT''), (''message'', JString message), (''invalid_arg'', JString ''args.config.streams''),
       (''expected'', JString ''stream config with signals map and alias-based clock/vld/data fields''),
       (''error_layer'', JString ''handler''), (''recoverable'', JBool True),
       (''example_note'', JString ''Example only; stream config fields must reference aliases, not raw signal paths.''),
       (''correct_example'', JObject [(''api_version'', JString ''xdebug.v1''), (''action'', JString ''stream.config.load''),
          (''args'', JObject [(''config'', JObject [(''streams'', JArray [JObject [(''name'', JString ''req_stream''),
             (''signals'', JObject [(''clk'', JString ''top.u.clk''), (''req_data'', JString ''top.u.req_data''), (''req_vld'', JString ''top.u.req_vld'')]),
             (''clock'', JString ''clk''), (''vld'', JString ''req_vld''), (''data'', JString ''req_data'')]])])]),
          (''target'', JObject [(''session_id'', JString ''case_a'')])])])]"

text \<open>\<open>get<std::map<std::string, std::string>>()\<close>, and what a loop over the items of a value visits.\<close>

fun string_members :: "members \<Rightarrow> (string, string) omap handled" where
  "string_members [] = Inr []"
| "string_members ((k, v) # ms) = rbind (get_string v) (\<lambda>s. rbind (string_members ms) (\<lambda>m. Inr (omap_set k s m)))"

fun get_string_map :: "json \<Rightarrow> (string, string) omap handled" where
  "get_string_map (JObject ms) = string_members ms"
| "get_string_map _ = Inl Type_error"

text \<open>
  \<open>items()\<close> visits the members of an object in key order, the elements of an array under their index, any other value
  once under the empty key, and nothing of \<open>null\<close>.
\<close>

definition object_items :: "json \<Rightarrow> members" where
  "object_items v =
     (case v of
        JObject ms \<Rightarrow> sort_key fst ms
      | JArray xs \<Rightarrow> zip (map (\<lambda>i. to_string_int (int i)) [0..<length xs]) xs
      | JNull \<Rightarrow> []
      | _ \<Rightarrow> [([], v)])"

definition name_char :: "char \<Rightarrow> bool" where
  "name_char c \<longleftrightarrow> is_alnum c \<or> c = CHR ''_'' \<or> c = CHR ''$''"

function resolve_tokens :: "(string, string) omap \<Rightarrow> string \<Rightarrow> string" where
  "resolve_tokens signals [] = []"
| "resolve_tokens signals (c # cs) =
     (if is_alpha c \<or> c = CHR ''_'' then
        let token = c # takeWhile name_char cs
        in (case omap_find token signals of None \<Rightarrow> token | Some path \<Rightarrow> path) @ resolve_tokens signals (dropWhile name_char cs)
      else c # resolve_tokens signals cs)"
  by pat_completeness auto
termination
  by (relation "measure (\<lambda>(signals, cs). length cs)") (auto simp: le_imp_less_Suc length_dropWhile_le)

definition resolve_field_expression :: "string \<Rightarrow> (string, string) omap \<Rightarrow> string" where
  "resolve_field_expression expression signals = resolve_tokens signals expression"

definition resolved_expression :: "json \<Rightarrow> (string, string) omap \<Rightarrow> string \<Rightarrow> string handled" where
  "resolved_expression input signals key =
     (if json_contains input key then rbind (string_at_key input key) (\<lambda>e. Inr (resolve_field_expression e signals)) else Inr [])"

definition stream_signals :: "json \<Rightarrow> (string, string) omap handled" where
  "stream_signals input = rbind (json_at input ''signals'') get_string_map"

definition stream_reset :: "json \<Rightarrow> (string \<times> string) handled" where
  "stream_reset input =
     (if json_contains input ''reset'' then
        rbind (rbind (json_at input ''reset'') (\<lambda>r. string_at_key r ''signal'')) (\<lambda>signal.
        rbind (rbind (json_at input ''reset'') (\<lambda>r. string_at_key r ''polarity'')) (\<lambda>polarity. Inr (signal, polarity)))
      else Inr ([], []))"

definition stream_data :: "json \<Rightarrow> (string, string) omap \<Rightarrow> json \<Rightarrow> string handled" where
  "stream_data input signals beat_fields =
     (if json_contains input ''data'' then resolved_expression input signals ''data''
      else case json_get beat_fields ''data'' of
             Some (JString alias) \<Rightarrow> Inr (case omap_find alias signals of None \<Rightarrow> [] | Some path \<Rightarrow> path)
           | _ \<Rightarrow> Inr [])"

definition stream_incomplete :: "json \<Rightarrow> stream_config \<Rightarrow> bool" where
  "stream_incomplete input c \<longleftrightarrow> sc_clock c = [] \<or> sc_valid c = [] \<or> json_contains input ''rdy'' \<and> sc_ready c = [] \<or>
     json_contains input ''bp'' \<and> sc_backpressure c = []"

text \<open>The message with which the packet rules of a configuration are refused.\<close>

definition stream_refused :: "stream_config \<Rightarrow> string option" where
  "stream_refused c =
     (if (sc_sop c = []) \<noteq> (sc_eop c = []) then
        Some (''stream '' @ sc_name c @ '' requires sop and eop to be configured together'')
      else if sc_allow_interleaving c \<and> sc_sop c = [] then Some (''stream '' @ sc_name c @ '' allow_interleaving requires sop/eop'')
      else if sc_allow_interleaving c \<and> sc_channel_id c = [] then Some (''stream '' @ sc_name c @ '' allow_interleaving requires channel_id'')
      else if sc_allow_interleaving c \<and> sc_channel_id_valid c \<noteq> ''every_beat'' then
        Some (''stream '' @ sc_name c @ '' allow_interleaving requires channel_id_valid=every_beat'')
      else None)"

fun object_members :: "json \<Rightarrow> members" where
  "object_members (JObject ms) = ms"
| "object_members _ = []"

definition stream_source :: "json \<Rightarrow> stream_config \<Rightarrow> json" where
  "stream_source input c =
     (let ms = member_set (object_members input) ''edge'' (JString (sc_edge c));
          ms = (if sc_edge c \<noteq> ''negedge'' then member_set ms ''sample_point'' (JString (sc_sample_point c)) else ms);
          ms = member_set ms ''channel_id_valid'' (JString (sc_channel_id_valid c))
      in JObject (member_set ms ''allow_interleaving'' (JBool (sc_allow_interleaving c))))"

definition finish_stream :: "json \<Rightarrow> stream_config \<Rightarrow> (string + stream_config) handled" where
  "finish_stream input c =
     (if stream_incomplete input c then Inr (Inl ''stream clock/vld/flow-control alias is missing from signals'')
      else rbind (stream_data input (sc_signals c) (sc_beat_fields c)) (\<lambda>data.
        let c = c\<lparr>sc_data := data\<rparr>
        in Inr (case stream_refused c of Some message \<Rightarrow> Inl message | None \<Rightarrow> Inr (c\<lparr>sc_source := stream_source input c\<rparr>))))"

definition parse_stream :: "json \<Rightarrow> (string + stream_config) handled" where
  "parse_stream input =
     rbind (string_at_key input ''name'') (\<lambda>name.
     rbind (stream_signals input) (\<lambda>signals.
     rbind (resolved_expression input signals ''clock'') (\<lambda>clock.
     rbind (resolved_expression input signals ''vld'') (\<lambda>valid.
     rbind (resolved_expression input signals ''rdy'') (\<lambda>ready.
     rbind (resolved_expression input signals ''bp'') (\<lambda>backpressure.
     rbind (resolved_expression input signals ''sop'') (\<lambda>sop.
     rbind (resolved_expression input signals ''eop'') (\<lambda>eop.
     rbind (json_value input ''edge'' ''posedge'' get_string) (\<lambda>edge.
     rbind (json_value input ''sample_point'' (if edge = ''negedge'' then [] else ''before'') get_string) (\<lambda>sample_point.
     rbind (stream_reset input) (\<lambda>(reset, polarity).
     rbind (json_value input ''beat_fields'' (JObject []) Inr) (\<lambda>beat_fields.
     rbind (json_value input ''packet_stable_fields'' (JObject []) Inr) (\<lambda>stable.
     rbind (resolved_expression input signals ''channel_id'') (\<lambda>channel_id.
     rbind (json_value input ''channel_id_valid'' ''every_beat'' get_string) (\<lambda>channel_id_valid.
     rbind (json_value input ''allow_interleaving'' False get_bool) (\<lambda>allow_interleaving.
       finish_stream input \<lparr>sc_name = name, sc_source = JNull, sc_signals = signals, sc_clock = clock, sc_valid = valid, sc_ready = ready,
         sc_backpressure = backpressure, sc_data = [], sc_edge = edge, sc_sample_point = sample_point, sc_reset = reset,
         sc_reset_polarity = polarity, sc_sop = sop, sc_eop = eop, sc_beat_fields = beat_fields, sc_packet_stable_fields = stable,
         sc_channel_id = channel_id, sc_channel_id_valid = channel_id_valid, sc_allow_interleaving = allow_interleaving\<rparr>))))))))))))))))"

definition stream_handshake :: "stream_config \<Rightarrow> string" where
  "stream_handshake c =
     (if sc_ready c \<noteq> [] \<and> sc_backpressure c \<noteq> [] then ''vld/rdy/bp''
      else if sc_ready c \<noteq> [] then ''vld/rdy''
      else if sc_backpressure c \<noteq> [] then ''vld/bp''
      else ''vld'')"

definition packet_enabled :: "stream_config \<Rightarrow> bool" where
  "packet_enabled c \<longleftrightarrow> sc_sop c \<noteq> [] \<and> sc_eop c \<noteq> []"

section \<open>Levels\<close>

definition is_high :: "string \<Rightarrow> bool" where
  "is_high bits \<longleftrightarrow> bits \<noteq> [] \<and> (\<forall>c \<in> set bits. c \<notin> set ''xXzZ'') \<and> (\<exists>c \<in> set bits. c \<noteq> CHR ''0'')"

definition sampled_signal_bits_at :: "stream_wave \<Rightarrow> signal_ref \<Rightarrow> nat \<Rightarrow> observation_point \<Rightarrow> string" where
  "sampled_signal_bits_at wave ref ti point =
     (if ref = 0 then [] else case wf_sampled_value_at wave ref ti point of None \<Rightarrow> [] | Some s \<Rightarrow> wv_text (sv_value s))"

section \<open>Expressions\<close>

text \<open>The parser never runs out of the fuel it is given.\<close>

definition parse_node :: "string \<Rightarrow> (string + expr_node) handled" where
  "parse_node text =
     (case parse_expression text of
        Node e r err \<Rightarrow> Inr (Inr e)
      | Null r err \<Rightarrow> Inr (Inl err)
      | Fault f \<Rightarrow> Inl (Raised f)
      | Out_of_fuel \<Rightarrow> Inr (Inl []))"

definition eval_node :: "expr_node \<Rightarrow> stream_wave \<Rightarrow> nat \<Rightarrow> observation_point \<Rightarrow> logic_value handled" where
  "eval_node e wave ti point = lift_fault (rbind (eval_expression e (waveform.truncate wave) ti None point) (\<lambda>(v, samples). Inr v))"

text \<open>The parts of a concatenation are separated by commas outside square brackets; nested braces are not counted.\<close>

fun split_parts :: "string \<Rightarrow> int \<Rightarrow> string \<Rightarrow> string list" where
  "split_parts [] depth part = [part]"
| "split_parts (c # cs) depth part =
     (let depth = (if c = CHR ''['' then depth + 1 else if c = CHR '']'' then depth - 1 else depth)
      in if c = CHR '','' \<and> depth = 0 then part # split_parts cs depth [] else split_parts cs depth (part @ [c]))"

definition blank :: "char \<Rightarrow> bool" where
  "blank c \<longleftrightarrow> c = CHR '' '' \<or> c = CHR 0x09"

definition trim_blanks :: "string \<Rightarrow> string" where
  "trim_blanks t = rev (dropWhile blank (rev (dropWhile blank t)))"

lemma split_parts_length: "p \<in> set (split_parts cs depth part) \<Longrightarrow> length p \<le> length part + length cs"
  by (induction cs depth part rule: split_parts.induct) (force simp: Let_def split: if_splits)+

lemma trim_blanks_length: "length (trim_blanks t) \<le> length t"
  unfolding trim_blanks_def by (metis length_dropWhile_le length_rev order_trans)

lemma part_shorter:
  assumes "t = trim_blanks text" "t \<noteq> []" "hd t = CHR ''{''" "last t = CHR ''}''" "p \<in> set (split_parts (butlast (tl t)) 0 [])"
  shows "length p < length text"
proof -
  have "length p \<le> length t - 2" using split_parts_length [OF assms(5)] by simp
  moreover have "0 < length t" "length t \<le> length text" using assms(1,2) trim_blanks_length by simp_all
  ultimately show ?thesis by linarith
qed

function evaluate_field_expression ::
  "(string, string) omap \<Rightarrow> stream_wave \<Rightarrow> nat \<Rightarrow> observation_point \<Rightarrow> string \<Rightarrow> (string + logic_value) handled" where
  "evaluate_field_expression signals wave ti point expression =
     (let text = trim_blanks expression
      in if text = [] then Inr (Inl ''empty stream field expression'')
         else if hd text = CHR ''{'' \<and> last text = CHR ''}'' then
           rbind (foldl (\<lambda>acc part. rbind acc (\<lambda>bits. case bits of
               Inl message \<Rightarrow> Inr (Inl message)
             | Inr bits \<Rightarrow>
                 rbind (evaluate_field_expression signals wave ti point part) (\<lambda>r. Inr (case r of
                     Inl message \<Rightarrow> Inl message
                   | Inr component \<Rightarrow> Inr (bits @ lv_bits component)))))
             (Inr (Inr [])) (split_parts (butlast (tl text)) 0 [])) (\<lambda>bits. Inr (case bits of
               Inl message \<Rightarrow> Inl message
             | Inr bits \<Rightarrow> Inr (logic_value_from_bits bits (int (length bits)))))
         else
           rbind (parse_node (resolve_field_expression text signals)) (\<lambda>root. case root of
               Inl message \<Rightarrow> Inr (Inl message)
             | Inr e \<Rightarrow> rbind (eval_node e wave ti point) (\<lambda>v. Inr (if lv_bits v = [] then Inl [] else Inr v))))"
  by pat_completeness auto
termination
  by (relation "measure (\<lambda>(signals, wave, ti, point, expression). length expression)") (auto intro!: part_shorter)

section \<open>Compiling the expressions\<close>

record compiled_stream =
  ce_clock :: "expr_node option"
  ce_valid :: "expr_node option"
  ce_ready :: "expr_node option"
  ce_backpressure :: "expr_node option"
  ce_sop :: "expr_node option"
  ce_eop :: "expr_node option"
  ce_data :: "expr_node option"
  ce_channel_id :: "expr_node option"
  ce_clock_dependencies :: "signal_ref list"

definition compile_stream_expression :: "stream_wave \<Rightarrow> string \<Rightarrow> string \<Rightarrow> (string + expr_node option) handled" where
  "compile_stream_expression wave label expression =
     (if expression = [] then Inr (Inr None)
      else rbind (parse_node expression) (\<lambda>root. Inr (case root of
          Inl message \<Rightarrow> Inl (label @ '' expression parse failed: '' @ message)
        | Inr e \<Rightarrow>
            (case find (\<lambda>n. wf_find_signal wave n = 0) (expression_signals e) of
               Some n \<Rightarrow> Inl (''signal not found for '' @ label @ '': '' @ n)
             | None \<Rightarrow> Inr (Some e)))))"

text \<open>The expressions are compiled in order, up to the first that fails.\<close>

fun compile_all :: "stream_wave \<Rightarrow> (string \<times> string) list \<Rightarrow> (string + expr_node option list) handled" where
  "compile_all wave [] = Inr (Inr [])"
| "compile_all wave ((label, expression) # es) =
     rbind (compile_stream_expression wave label expression) (\<lambda>r. case r of
         Inl message \<Rightarrow> Inr (Inl message)
       | Inr e \<Rightarrow> rbind (compile_all wave es) (\<lambda>rest. Inr (case rest of Inl message \<Rightarrow> Inl message | Inr es \<Rightarrow> Inr (e # es))))"

definition clock_dependencies :: "stream_wave \<Rightarrow> expr_node \<Rightarrow> signal_ref list" where
  "clock_dependencies wave e = filter (\<lambda>r. r \<noteq> 0) (map (wf_find_signal wave) (expression_signals e))"

definition compile_stream_expressions :: "stream_wave \<Rightarrow> stream_config \<Rightarrow> (string + compiled_stream) handled" where
  "compile_stream_expressions wave c =
     rbind (compile_all wave [(''clock'', sc_clock c), (''vld'', sc_valid c), (''rdy'', sc_ready c), (''bp'', sc_backpressure c), (''sop'', sc_sop c),
         (''eop'', sc_eop c), (''data'', sc_data c), (''channel_id'', sc_channel_id c)]) (\<lambda>r. Inr (case r of
         Inl message \<Rightarrow> Inl message
       | Inr es \<Rightarrow>
           (case (es ! 0, es ! 1) of
              (Some clock, Some valid) \<Rightarrow>
                (let dependencies = clock_dependencies wave clock
                 in if dependencies = [] then Inl ''clock expression has no waveform dependency''
                    else Inr \<lparr>ce_clock = Some clock, ce_valid = Some valid, ce_ready = es ! 2, ce_backpressure = es ! 3, ce_sop = es ! 4, ce_eop = es ! 5,
                              ce_data = es ! 6, ce_channel_id = es ! 7, ce_clock_dependencies = dependencies\<rparr>)
            | _ \<Rightarrow> Inl ''stream clock and vld expressions are required'')))"

definition expression_bits_at :: "expr_node option \<Rightarrow> stream_wave \<Rightarrow> nat \<Rightarrow> observation_point \<Rightarrow> string \<Rightarrow> string handled" where
  "expression_bits_at expression wave ti point default_bits =
     (case expression of None \<Rightarrow> Inr default_bits | Some e \<Rightarrow> rbind (eval_node e wave ti point) (\<lambda>v. Inr (lv_bits v)))"

definition expression_json_at ::
  "expr_node option \<Rightarrow> stream_wave \<Rightarrow> nat \<Rightarrow> observation_point \<Rightarrow> value_render_format \<Rightarrow> bool \<Rightarrow> (json \<times> bool) handled" where
  "expression_json_at expression wave ti point format complete =
     (case expression of
        None \<Rightarrow> Inr (JNull, complete)
      | Some e \<Rightarrow> rbind (eval_node e wave ti point) (\<lambda>v.
          Inr (if lv_bits v = [] then (JNull, False) else (logic_value_json v format, complete))))"

fun eval_fields ::
  "(string, string) omap \<Rightarrow> stream_wave \<Rightarrow> nat \<Rightarrow> observation_point \<Rightarrow> value_render_format \<Rightarrow> members \<Rightarrow> members \<times> bool \<Rightarrow> (members \<times> bool) handled" where
  "eval_fields signals wave ti point format [] acc = Inr acc"
| "eval_fields signals wave ti point format ((k, v) # items) (fs, complete) =
     (case v of
        JString e \<Rightarrow> rbind (evaluate_field_expression signals wave ti point e) (\<lambda>r. case r of
            Inl message \<Rightarrow> eval_fields signals wave ti point format items (fs, False)
          | Inr value \<Rightarrow> eval_fields signals wave ti point format items (member_set fs k (logic_value_json value format), complete))
      | _ \<Rightarrow> eval_fields signals wave ti point format items (fs, False))"

definition stream_fields_at ::
  "stream_config \<Rightarrow> compiled_stream \<Rightarrow> stream_wave \<Rightarrow> nat \<Rightarrow> observation_point \<Rightarrow> value_render_format \<Rightarrow> bool \<Rightarrow> (members \<times> bool) handled" where
  "stream_fields_at c k wave ti point format complete =
     rbind (if json_contains (sc_source c) ''data'' \<and> ce_data k \<noteq> None then expression_json_at (ce_data k) wave ti point format complete
            else Inr (JNull, complete)) (\<lambda>(value, complete).
       eval_fields (sc_signals c) wave ti point format (object_items (sc_beat_fields c))
         (if value = JNull then [] else [(''data'', value)], complete))"

section \<open>Samples\<close>

record stream_sample =
  ss_cycle :: nat
  ss_time_idx :: nat
  ss_time :: u64
  ss_vld :: bool
  ss_rdy :: bool
  ss_bp :: bool
  ss_sop :: bool
  ss_eop :: bool
  ss_transfer :: bool
  ss_stall :: bool
  ss_control_known :: bool
  ss_data_known :: bool
  ss_ready_bp_conflict :: bool
  ss_fields :: members
  ss_packet_stable_fields :: members
  ss_channel_id :: json
  ss_packet_index :: int
  ss_beat_index :: nat

definition stream_sample_init :: stream_sample where
  "stream_sample_init = \<lparr>ss_cycle = 0, ss_time_idx = 0, ss_time = 0, ss_vld = False, ss_rdy = False, ss_bp = False, ss_sop = False, ss_eop = False,
     ss_transfer = False, ss_stall = False, ss_control_known = True, ss_data_known = True, ss_ready_bp_conflict = False, ss_fields = [],
     ss_packet_stable_fields = [], ss_channel_id = JNull, ss_packet_index = - 1, ss_beat_index = 0\<rparr>"

definition stream_point :: "stream_config \<Rightarrow> observation_point" where
  "stream_point c = (if sc_edge c = ''negedge'' then Raw else if sc_sample_point c = ''after'' then After else Before)"

definition stream_edge :: "stream_config \<Rightarrow> compiled_stream \<Rightarrow> stream_wave \<Rightarrow> nat \<Rightarrow> bool handled" where
  "stream_edge c k wave ti =
     rbind (expression_bits_at (ce_clock k) wave ti Before []) (\<lambda>before_clock.
     rbind (expression_bits_at (ce_clock k) wave ti Raw []) (\<lambda>raw_clock.
       let rising = is_rising_edge before_clock raw_clock;
           falling = is_falling_edge before_clock raw_clock
       in Inr (if sc_edge c = ''dual'' then rising \<or> falling else if sc_edge c = ''posedge'' then rising else falling)))"

definition reset_held :: "stream_config \<Rightarrow> stream_wave \<Rightarrow> nat \<Rightarrow> bool" where
  "reset_held c wave ti \<longleftrightarrow>
     (let ref = (if sc_reset c = [] then 0 else wf_find_signal wave (sc_reset c));
          bits = sampled_signal_bits_at wave ref ti (stream_point c)
      in ref \<noteq> 0 \<and> \<not> (if sc_reset_polarity c = ''active_low'' then bits = ''1'' else bits = ''0''))"

text \<open>
  What the levels of the controls mean: the arguments are whether ready and back-pressure are configured, whether the sample
  is taken after the edge, and the levels now and before the edge. The result is the sample with its flags.
\<close>

definition flow_flags ::
  "bool \<Rightarrow> bool \<Rightarrow> bool \<Rightarrow> bool \<times> bool \<times> bool \<Rightarrow> bool \<times> bool \<Rightarrow> stream_sample \<Rightarrow> stream_sample" where
  "flow_flags has_ready has_bp joined levels earlier s =
     (case (levels, earlier) of ((vld, rdy, bp), (vld_before, rdy_before)) \<Rightarrow>
        let rdy_now = has_ready \<and> rdy;
            bp_now = has_bp \<and> bp;
            ready = (\<not> has_ready \<or> rdy_now) \<and> \<not> bp_now;
            transfer = (vld \<and> ready) \<or> joined \<and> (vld \<and> \<not> vld_before \<and> rdy_before \<or> rdy_now \<and> \<not> rdy_before \<and> vld_before);
            vld_flag = (if joined then transfer \<or> vld else vld);
            rdy_flag = (if joined then transfer \<or> rdy_now else if has_ready then rdy_now else True)
        in s\<lparr>ss_vld := vld_flag, ss_rdy := rdy_flag, ss_bp := bp_now, ss_transfer := transfer, ss_stall := vld_flag \<and> \<not> ready,
             ss_ready_bp_conflict := has_ready \<and> has_bp \<and> rdy \<and> bp\<rparr>)"

definition transfer_payload ::
  "stream_config \<Rightarrow> compiled_stream \<Rightarrow> stream_wave \<Rightarrow> value_render_format \<Rightarrow> stream_sample \<Rightarrow> bool \<Rightarrow> (stream_sample \<times> bool) handled" where
  "transfer_payload c k wave format s complete =
     (let ti = ss_time_idx s; point = stream_point c in
      rbind (stream_fields_at c k wave ti point format complete) (\<lambda>(fs, complete).
      rbind (eval_fields (sc_signals c) wave ti point format (object_items (sc_packet_stable_fields c)) ([], complete)) (\<lambda>(stable, complete).
      rbind (expression_json_at (ce_channel_id k) wave ti point format complete) (\<lambda>(channel, complete).
        Inr (s\<lparr>ss_fields := fs, ss_packet_stable_fields := stable, ss_channel_id := channel,
               ss_data_known := list_all (\<lambda>(n, v). json_get v ''known'' = Some (JBool True)) fs\<rparr>, complete)))))"

text \<open>Levels after the edge are joined with those before it only for a stream with ready and without back-pressure.\<close>

definition joins_levels :: "stream_config \<Rightarrow> compiled_stream \<Rightarrow> bool" where
  "joins_levels c k \<longleftrightarrow> stream_point c = After \<and> ce_ready k \<noteq> None \<and> ce_backpressure k = None"

definition judge_sample ::
  "stream_config \<Rightarrow> compiled_stream \<Rightarrow> string \<times> string \<times> string \<times> string \<times> string \<Rightarrow> string \<times> string \<Rightarrow> stream_sample \<Rightarrow> stream_sample" where
  "judge_sample c k = (\<lambda>(vld_bits, rdy_bits, bp_bits, sop_bits, eop_bits) (vld_before, rdy_before) s.
     let s = flow_flags (ce_ready k \<noteq> None) (ce_backpressure k \<noteq> None) (joins_levels c k) (is_high vld_bits, is_high rdy_bits, is_high bp_bits)
               (is_high vld_before, is_high rdy_before) s
     in s\<lparr>ss_control_known := list_all known_binary [vld_bits, rdy_bits, bp_bits, sop_bits, eop_bits],
          ss_sop := ss_transfer s \<and> ce_sop k \<noteq> None \<and> is_high sop_bits,
          ss_eop := ss_transfer s \<and> ce_eop k \<noteq> None \<and> is_high eop_bits\<rparr>)"

definition sample_at ::
  "stream_config \<Rightarrow> compiled_stream \<Rightarrow> stream_wave \<Rightarrow> value_render_format \<Rightarrow> nat \<Rightarrow> nat \<Rightarrow> bool \<Rightarrow> (stream_sample \<times> bool) handled" where
  "sample_at c k wave format cycle ti complete =
     (let point = stream_point c;
          s = stream_sample_init\<lparr>ss_cycle := cycle, ss_time_idx := ti, ss_time := wf_time_at wave ti\<rparr>
      in if reset_held c wave ti then Inr (s, complete)
         else
           rbind (expression_bits_at (ce_valid k) wave ti point []) (\<lambda>vld_bits.
           rbind (expression_bits_at (ce_ready k) wave ti point ''1'') (\<lambda>rdy_bits.
           rbind (expression_bits_at (ce_backpressure k) wave ti point ''0'') (\<lambda>bp_bits.
           rbind (expression_bits_at (ce_sop k) wave ti point ''0'') (\<lambda>sop_bits.
           rbind (expression_bits_at (ce_eop k) wave ti point ''0'') (\<lambda>eop_bits.
           rbind (if joins_levels c k then expression_bits_at (ce_valid k) wave ti Before [] else Inr []) (\<lambda>vld_before.
           rbind (if joins_levels c k then expression_bits_at (ce_ready k) wave ti Before [] else Inr []) (\<lambda>rdy_before.
             let s = judge_sample c k (vld_bits, rdy_bits, bp_bits, sop_bits, eop_bits) (vld_before, rdy_before) s
             in if ss_transfer s then transfer_payload c k wave format s complete else Inr (s, complete)))))))))"

fun sample_loop ::
  "stream_config \<Rightarrow> compiled_stream \<Rightarrow> stream_wave \<Rightarrow> value_render_format \<Rightarrow> nat \<Rightarrow> nat \<Rightarrow> nat list \<Rightarrow> nat \<Rightarrow> bool \<Rightarrow> (stream_sample list \<times> bool) handled" where
  "sample_loop c k wave format begin_ti end_ti [] cycle complete = Inr ([], complete)"
| "sample_loop c k wave format begin_ti end_ti (ti # tis) cycle complete =
     rbind (stream_edge c k wave ti) (\<lambda>selected.
       if \<not> selected \<or> ti < begin_ti then sample_loop c k wave format begin_ti end_ti tis cycle complete
       else if ti > end_ti then Inr ([], complete)
       else rbind (sample_at c k wave format cycle ti complete) (\<lambda>(s, complete).
            rbind (sample_loop c k wave format begin_ti end_ti tis (cycle + 1) complete) (\<lambda>(ss, complete). Inr (s # ss, complete))))"

definition clock_time_indices :: "stream_wave \<Rightarrow> compiled_stream \<Rightarrow> nat list" where
  "clock_time_indices wave k = sorted_list_of_set (set (concat (map (wf_time_indices_of wave) (ce_clock_dependencies k))))"

definition scan_stream_samples ::
  "stream_wave \<Rightarrow> stream_config \<Rightarrow> compiled_stream \<Rightarrow> nat \<Rightarrow> nat \<Rightarrow> value_render_format \<Rightarrow> (stream_sample list \<times> bool) handled" where
  "scan_stream_samples wave c k begin_ti end_ti format =
     sample_loop c k wave format begin_ti end_ti (clock_time_indices wave k) 0 True"

end
