(* ===== verification/Stream_Packets.thy ===== *)
theory Stream_Packets
  imports Stream_Scan
begin

text \<open>
  The packets of a stream, from \<open>StreamQueryHandler::run\<close>. Transfers are grouped by channel into packets that start with a
  beat marked first and end with a beat marked last; every beat gets the number of its packet and its place there. The
  transfers are a list that the grouping updates by index, as the code updates them through pointers.
\<close>

section \<open>Grouping\<close>

record packet_state =
  pk_index :: nat
  pk_partial_begin :: bool
  pk_beats :: "nat list"
  pk_channel_id :: json
  pk_stable_fields :: members
  pk_stable_mismatches :: "json list"

record packet_scan =
  pa_transfers :: "stream_sample list"
  pa_active :: "(string, packet_state) omap"
  pa_finished :: "packet_state list"
  pa_next :: nat
  pa_complete :: nat
  pa_partial :: nat
  pa_mismatches :: nat

definition packet_scan_init :: "stream_sample list \<Rightarrow> packet_scan" where
  "packet_scan_init ts = \<lparr>pa_transfers = ts, pa_active = [], pa_finished = [], pa_next = 0, pa_complete = 0, pa_partial = 0, pa_mismatches = 0\<rparr>"

definition mark_beat :: "nat \<Rightarrow> stream_sample list \<Rightarrow> nat \<times> nat \<Rightarrow> stream_sample list" where
  "mark_beat index ts = (\<lambda>(place, i). ts[i := (ts ! i)\<lparr>ss_packet_index := sint (word_of_nat index :: 32 word), ss_beat_index := place\<rparr>])"

definition append_packet :: "packet_scan \<Rightarrow> string \<Rightarrow> packet_scan" where
  "append_packet p key =
     (case omap_find key (pa_active p) of
        None \<Rightarrow> p
      | Some state \<Rightarrow>
          if pk_beats state = [] then p
          else
            let partial_end = (\<not> ss_eop (pa_transfers p ! last (pk_beats state)));
                partial = (pk_partial_begin state \<or> partial_end)
            in p\<lparr>pa_active := omap_erase key (pa_active p),
                 pa_transfers := foldl (mark_beat (pk_index state)) (pa_transfers p) (enumerate 0 (pk_beats state)),
                 pa_finished := pa_finished p @ [state],
                 pa_mismatches := pa_mismatches p + length (pk_stable_mismatches state),
                 pa_partial := (if partial then pa_partial p + 1 else pa_partial p),
                 pa_complete := (if partial then pa_complete p else pa_complete p + 1)\<rparr>)"

definition packet_key :: "stream_config \<Rightarrow> stream_sample \<Rightarrow> string" where
  "packet_key c t =
     (if sc_allow_interleaving c then case json_get (ss_channel_id t) ''bits'' of Some (JString b) \<Rightarrow> b | _ \<Rightarrow> [] else [])"

definition open_packet :: "stream_sample \<Rightarrow> packet_scan \<Rightarrow> string \<Rightarrow> packet_scan" where
  "open_packet t p key =
     (if omap_find key (pa_active p) \<noteq> None then p
      else p\<lparr>pa_active := omap_set key \<lparr>pk_index = pa_next p, pk_partial_begin = (\<not> ss_sop t), pk_beats = [], pk_channel_id = ss_channel_id t,
               pk_stable_fields = ss_packet_stable_fields t, pk_stable_mismatches = []\<rparr> (pa_active p), pa_next := pa_next p + 1\<rparr>)"

definition stable_mismatches :: "stream_wave \<Rightarrow> time_render_unit \<Rightarrow> members \<Rightarrow> stream_sample \<Rightarrow> json list" where
  "stable_mismatches wave unit stable_fields t =
     map (\<lambda>(k, v). JObject [(''field'', JString k), (''cycle'', JUnsigned (ss_cycle t)), (''time'', JString (aw_format_time wave (ss_time t) unit)),
            (''expected'', v), (''actual'', case map_of (ss_packet_stable_fields t) k of None \<Rightarrow> JNull | Some w \<Rightarrow> w)])
       (filter (\<lambda>(k, v). map_of (ss_packet_stable_fields t) k \<noteq> Some v) (sort_key fst stable_fields))"

definition add_packet_beat :: "stream_wave \<Rightarrow> time_render_unit \<Rightarrow> stream_sample \<Rightarrow> nat \<Rightarrow> packet_state \<Rightarrow> packet_state" where
  "add_packet_beat wave unit t i state =
     state\<lparr>pk_stable_mismatches := pk_stable_mismatches state @
             (if pk_beats state = [] then [] else stable_mismatches wave unit (pk_stable_fields state) t),
           pk_beats := pk_beats state @ [i]\<rparr>"

text \<open>A beat goes to the open packet of its channel, or opens one.\<close>

definition push_beat :: "stream_wave \<Rightarrow> time_render_unit \<Rightarrow> stream_sample \<Rightarrow> packet_scan \<Rightarrow> string \<Rightarrow> nat \<Rightarrow> packet_scan" where
  "push_beat wave unit t p k i =
     (let p = open_packet t p k
      in case omap_find k (pa_active p) of
           None \<Rightarrow> p
         | Some state \<Rightarrow> p\<lparr>pa_active := omap_set k (add_packet_beat wave unit t i state) (pa_active p)\<rparr>)"

definition packet_step :: "stream_config \<Rightarrow> stream_wave \<Rightarrow> time_render_unit \<Rightarrow> packet_scan \<Rightarrow> nat \<Rightarrow> packet_scan" where
  "packet_step c wave unit p i =
     (let t = pa_transfers p ! i;
          key = packet_key c t;
          p = (if ss_sop t \<and> omap_find key (pa_active p) \<noteq> None then append_packet p key else p);
          p = push_beat wave unit t p key i
      in if ss_eop t then append_packet p key else p)"

definition scan_packets :: "stream_config \<Rightarrow> stream_wave \<Rightarrow> time_render_unit \<Rightarrow> stream_sample list \<Rightarrow> packet_scan" where
  "scan_packets c wave unit ts =
     (if packet_enabled c then
        let p = foldl (packet_step c wave unit) (packet_scan_init ts) [0..<length ts]
        in foldl append_packet p (map fst (pa_active p))
      else packet_scan_init ts)"

definition ordered_packets :: "packet_scan \<Rightarrow> packet_state list" where
  "ordered_packets p = sort_key pk_index (pa_finished p)"

section \<open>The specification\<close>

text \<open>
  A run of beats is cut before every beat marked first and after every beat marked last. What this leaves is described
  without the machine: the pieces cover the run, no piece has a first mark but at its start or a last mark but at its
  end, and between two pieces there is a mark.
\<close>

definition cut_step :: "(nat \<Rightarrow> bool) \<Rightarrow> (nat \<Rightarrow> bool) \<Rightarrow> nat list list \<times> nat list \<Rightarrow> nat \<Rightarrow> nat list list \<times> nat list" where
  "cut_step is_first is_last = (\<lambda>(gs, cur) i.
     let (gs, cur) = (if is_first i \<and> cur \<noteq> [] then (gs @ [cur], []) else (gs, cur))
     in if is_last i then (gs @ [cur @ [i]], []) else (gs, cur @ [i]))"

definition piece_ok :: "(nat \<Rightarrow> bool) \<Rightarrow> (nat \<Rightarrow> bool) \<Rightarrow> nat list \<Rightarrow> bool" where
  "piece_ok is_first is_last g \<longleftrightarrow> g \<noteq> [] \<and> list_all (\<lambda>i. \<not> is_first i) (tl g) \<and> list_all (\<lambda>i. \<not> is_last i) (butlast g)"

definition cut_between :: "(nat \<Rightarrow> bool) \<Rightarrow> (nat \<Rightarrow> bool) \<Rightarrow> nat list \<Rightarrow> nat list \<Rightarrow> bool" where
  "cut_between is_first is_last g h \<longleftrightarrow> is_last (last g) \<or> is_first (hd h)"

definition all_pieces :: "nat list list \<times> nat list \<Rightarrow> nat list list" where
  "all_pieces = (\<lambda>(gs, cur). if cur = [] then gs else gs @ [cur])"

definition cuts_ok :: "(nat \<Rightarrow> bool) \<Rightarrow> (nat \<Rightarrow> bool) \<Rightarrow> nat list \<Rightarrow> nat list list \<Rightarrow> bool" where
  "cuts_ok is_first is_last run gs \<longleftrightarrow> concat gs = run \<and> list_all (piece_ok is_first is_last) gs \<and> successively (cut_between is_first is_last) gs"

lemma all_pieces_simps [simp]: "all_pieces (gs, []) = gs" "cur \<noteq> [] \<Longrightarrow> all_pieces (gs, cur) = gs @ [cur]"
  by (simp_all add: all_pieces_def)

lemma cut_step_ok:
  assumes "cuts_ok is_first is_last run (all_pieces (gs, cur))" "cur \<noteq> [] \<Longrightarrow> \<not> is_last (last cur)" "cur = [] \<Longrightarrow> gs \<noteq> [] \<Longrightarrow> is_last (last (last gs))"
    and step: "cut_step is_first is_last (gs, cur) i = (gs', cur')"
  shows "cuts_ok is_first is_last (run @ [i]) (all_pieces (gs', cur')) \<and> (cur' \<noteq> [] \<longrightarrow> \<not> is_last (last cur')) \<and>
    (cur' = [] \<longrightarrow> gs' \<noteq> [] \<longrightarrow> is_last (last (last gs')))"
proof (cases "cur = []")
  case True
  then show ?thesis
    using assms by (auto simp: cut_step_def cuts_ok_def piece_ok_def successively_append_iff cut_between_def split: if_splits)
next
  case False
  have notlast: "list_all (\<lambda>i. \<not> is_last i) cur"
    using assms(1,2) False by (cases cur rule: rev_cases) (auto simp: cuts_ok_def piece_ok_def)
  have tl: "tl (cur @ [i]) = tl cur @ [i]" using False by simp
  show ?thesis
    using assms False notlast tl by (auto simp: cut_step_def cuts_ok_def piece_ok_def successively_append_iff cut_between_def split: if_splits)
qed

definition cut_run :: "(nat \<Rightarrow> bool) \<Rightarrow> (nat \<Rightarrow> bool) \<Rightarrow> nat list \<Rightarrow> nat list list \<times> nat list" where
  "cut_run is_first is_last run = foldl (cut_step is_first is_last) ([], []) run"

lemma cut_run_ok:
  "cuts_ok is_first is_last run (all_pieces (cut_run is_first is_last run)) \<and>
     (snd (cut_run is_first is_last run) \<noteq> [] \<longrightarrow> \<not> is_last (last (snd (cut_run is_first is_last run)))) \<and>
     (snd (cut_run is_first is_last run) = [] \<longrightarrow> fst (cut_run is_first is_last run) \<noteq> [] \<longrightarrow>
        is_last (last (last (fst (cut_run is_first is_last run)))))"
proof (induction run rule: rev_induct)
  case Nil
  show ?case by (simp add: cut_run_def cuts_ok_def)
next
  case (snoc i run)
  obtain gs cur where g: "cut_run is_first is_last run = (gs, cur)" by fastforce
  obtain gs' cur' where g': "cut_step is_first is_last (gs, cur) i = (gs', cur')" by fastforce
  then have "cut_run is_first is_last (run @ [i]) = (gs', cur')" using g by (simp add: cut_run_def)
  then show ?case using cut_step_ok [where run = run, OF _ _ _ g'] snoc.IH g by simp
qed

section \<open>The machine follows the specification\<close>

definition unmarked :: "stream_sample \<Rightarrow> stream_sample" where
  "unmarked t = t\<lparr>ss_packet_index := - 1, ss_beat_index := 0\<rparr>"

lemma unmarked_fields:
  assumes "unmarked s = unmarked t"
  shows "ss_sop s = ss_sop t" "ss_eop s = ss_eop t" "ss_channel_id s = ss_channel_id t" "ss_packet_stable_fields s = ss_packet_stable_fields t"
    "packet_key c s = packet_key c t"
  using assms by (cases s; cases t; simp add: unmarked_def packet_key_def)+

definition marked :: "stream_sample list \<Rightarrow> packet_state \<Rightarrow> bool" where
  "marked ts s \<longleftrightarrow> (\<forall>(place, i) \<in> set (enumerate 0 (pk_beats s)).
     ss_packet_index (ts ! i) = sint (word_of_nat (pk_index s) :: 32 word) \<and> ss_beat_index (ts ! i) = place)"

lemma mark_beats_other:
  "i \<notin> snd ` set ps \<Longrightarrow> foldl (mark_beat index) ts ps ! i = ts ! i"
  by (induction ps arbitrary: ts) (auto simp: mark_beat_def)

lemma mark_beats_unmarked: "map unmarked (foldl (mark_beat index) ts ps) = map unmarked ts"
proof (induction ps arbitrary: ts)
  case (Cons q ps)
  obtain place i where "q = (place, i)" by fastforce
  then have "map unmarked (mark_beat index ts q) = map unmarked ts"
    by (cases "i < length ts") (simp_all add: mark_beat_def unmarked_def map_update list_update_same_conv list_update_beyond)
  then show ?case using Cons by simp
qed simp

lemma mark_beats_marked:
  assumes "distinct (map snd ps)" "snd ` set ps \<subseteq> {..<length ts}" "(place, i) \<in> set ps"
  shows "ss_packet_index (foldl (mark_beat index) ts ps ! i) = sint (word_of_nat index :: 32 word) \<and> ss_beat_index (foldl (mark_beat index) ts ps ! i) = place"
  using assms
proof (induction ps arbitrary: ts)
  case (Cons q ps)
  obtain a j where q: "q = (a, j)" by fastforce
  show ?case
  proof (cases "(place, i) = q")
    case True
    then have "i \<notin> snd ` set ps" using Cons.prems q by auto
    then show ?thesis using True q Cons.prems(2) by (simp add: mark_beats_other) (simp add: mark_beat_def)
  next
    case False
    then show ?thesis using Cons.IH [of "mark_beat index ts q"] Cons.prems q by (auto simp: mark_beat_def)
  qed
qed simp

lemma snd_enumerate [simp]: "snd ` set (enumerate a xs) = set xs"
  by (metis list.set_map map_snd_enumerate)

lemma packet_marked:
  assumes "distinct (pk_beats s)" "set (pk_beats s) \<subseteq> {..<length ts}"
  shows "marked (foldl (mark_beat (pk_index s)) ts (enumerate 0 (pk_beats s))) s"
  unfolding marked_def using mark_beats_marked [of "enumerate 0 (pk_beats s)" ts _ _ "pk_index s"] assms by auto

text \<open>What the machine keeps for the pieces \<open>g\<close> of every channel, after the transfers below \<open>n\<close>.\<close>

definition pieces_below :: "(nat \<Rightarrow> string) \<Rightarrow> nat \<Rightarrow> (string \<Rightarrow> nat list list \<times> nat list) \<Rightarrow> bool" where
  "pieces_below key n g \<longleftrightarrow> (\<forall>k. concat (fst (g k)) @ snd (g k) = filter (\<lambda>i. key i = k) [0..<n] \<and> [] \<notin> set (fst (g k)))"

definition of_key :: "(nat \<Rightarrow> string) \<Rightarrow> string \<Rightarrow> packet_state \<Rightarrow> bool" where
  "of_key key k s \<longleftrightarrow> key (hd (pk_beats s)) = k"

definition all_states :: "packet_scan \<Rightarrow> packet_state set" where
  "all_states p = set (pa_finished p) \<union> ran (\<lambda>k. omap_find k (pa_active p))"

text \<open>Packets are numbered in the order of their first beats.\<close>

definition numbered :: "stream_sample list \<Rightarrow> nat \<Rightarrow> nat \<Rightarrow> packet_state set \<Rightarrow> bool" where
  "numbered ts n m states \<longleftrightarrow> (\<forall>s \<in> states. pk_partial_begin s = (\<not> ss_sop (ts ! hd (pk_beats s)))) \<and> pk_index ` states = {..<m} \<and>
     (\<exists>heads. sorted_wrt (<) heads \<and> length heads = m \<and> set heads \<subseteq> {..<n} \<and> (\<forall>s \<in> states. hd (pk_beats s) = heads ! pk_index s))"

definition whole :: "stream_sample list \<Rightarrow> packet_state \<Rightarrow> bool" where
  "whole ts s \<longleftrightarrow> \<not> pk_partial_begin s \<and> ss_eop (ts ! last (pk_beats s))"

definition counted :: "stream_sample list \<Rightarrow> packet_scan \<Rightarrow> bool" where
  "counted ts p \<longleftrightarrow> pa_complete p = length (filter (whole ts) (pa_finished p)) \<and> pa_partial p = length (filter (\<lambda>s. \<not> whole ts s) (pa_finished p)) \<and>
     pa_mismatches p = sum_list (map (length \<circ> pk_stable_mismatches) (pa_finished p))"

definition packets_inv ::
  "(nat \<Rightarrow> string) \<Rightarrow> stream_sample list \<Rightarrow> nat \<Rightarrow> (string \<Rightarrow> nat list list \<times> nat list) \<Rightarrow> packet_scan \<Rightarrow> bool" where
  "packets_inv key ts n g p \<longleftrightarrow>
     omap_ok (pa_active p) \<and> map unmarked (pa_transfers p) = map unmarked ts \<and> pieces_below key n g \<and>
     (\<forall>k. map pk_beats (filter (of_key key k) (pa_finished p)) = fst (g k)) \<and>
     (\<forall>k. map_option pk_beats (omap_find k (pa_active p)) = (if snd (g k) = [] then None else Some (snd (g k)))) \<and>
     list_all (marked (pa_transfers p)) (pa_finished p) \<and> counted ts p \<and> numbered ts n (pa_next p) (all_states p)"

lemma numbered_same:
  assumes "numbered ts n m (insert s states)" "pk_index s' = pk_index s" "pk_partial_begin s' = pk_partial_begin s" "hd (pk_beats s') = hd (pk_beats s)"
  shows "numbered ts (Suc n) m (insert s' states)"
  using assms unfolding numbered_def by (simp add: lessThan_Suc) (metis subset_insertI2)

lemma numbered_new:
  assumes "numbered ts n m states" "pk_index s = m" "pk_partial_begin s = (\<not> ss_sop (ts ! n))" "hd (pk_beats s) = n"
  shows "numbered ts (Suc n) (Suc m) (insert s states)"
proof -
  obtain heads where heads: "sorted_wrt (<) heads" "length heads = m" "set heads \<subseteq> {..<n}" "\<forall>s \<in> states. hd (pk_beats s) = heads ! pk_index s"
    using assms(1) unfolding numbered_def by blast
  have "pk_index s' < m" if "s' \<in> states" for s' using assms(1) that unfolding numbered_def by blast
  then have "sorted_wrt (<) (heads @ [n]) \<and> length (heads @ [n]) = Suc m \<and> set (heads @ [n]) \<subseteq> {..<Suc n} \<and>
      (\<forall>s' \<in> insert s states. hd (pk_beats s') = (heads @ [n]) ! pk_index s')"
    using heads assms(2,4) by (auto simp: sorted_wrt_append nth_append)
  moreover have "pk_index ` insert s states = {..<Suc m}" using assms(1,2) by (simp add: numbered_def lessThan_Suc)
  moreover have "\<forall>s' \<in> insert s states. pk_partial_begin s' = (\<not> ss_sop (ts ! hd (pk_beats s')))" using assms by (simp add: numbered_def)
  ultimately show ?thesis unfolding numbered_def by blast
qed

lemma packets_invD:
  assumes "packets_inv key ts n g p"
  shows "omap_ok (pa_active p)" "map unmarked (pa_transfers p) = map unmarked ts" "pieces_below key n g"
    "map pk_beats (filter (of_key key k) (pa_finished p)) = fst (g k)"
    "map_option pk_beats (omap_find k (pa_active p)) = (if snd (g k) = [] then None else Some (snd (g k)))"
    "list_all (marked (pa_transfers p)) (pa_finished p)" "counted ts p" "numbered ts n (pa_next p) (all_states p)"
  using assms unfolding packets_inv_def by blast+

lemma packets_invI:
  assumes "omap_ok (pa_active p)" "map unmarked (pa_transfers p) = map unmarked ts" "pieces_below key n g"
    "\<And>k. map pk_beats (filter (of_key key k) (pa_finished p)) = fst (g k)"
    "\<And>k. map_option pk_beats (omap_find k (pa_active p)) = (if snd (g k) = [] then None else Some (snd (g k)))"
    "list_all (marked (pa_transfers p)) (pa_finished p)" "counted ts p" "numbered ts n (pa_next p) (all_states p)"
  shows "packets_inv key ts n g p"
  using assms unfolding packets_inv_def by blast

lemma unmarked_nth:
  assumes "map unmarked xs = map unmarked ys" "i < length ys"
  shows "unmarked (xs ! i) = unmarked (ys ! i)"
  using assms by (metis length_map nth_map)

lemma ran_erase: "omap_ok m \<Longrightarrow> ran (\<lambda>l. omap_find l (omap_erase k m)) = ran ((\<lambda>l. omap_find l m)(k := None))"
  by (auto simp: ran_def omap_laws split: if_splits)

lemma ran_set: "omap_ok m \<Longrightarrow> ran (\<lambda>l. omap_find l (omap_set k v m)) = insert v (ran ((\<lambda>l. omap_find l m)(k := None)))"
  by (auto simp: ran_def omap_laws split: if_splits)

lemma ran_split: "f k = Some s \<Longrightarrow> ran f = insert s (ran (f(k := None)))"
  by (auto simp: ran_def) (metis option.inject)

lemma pieces_members:
  assumes "pieces_below key n g"
  shows "i \<in> set (snd (g k)) \<Longrightarrow> key i = k \<and> i < n" "b \<in> set (fst (g k)) \<Longrightarrow> i \<in> set b \<Longrightarrow> key i = k \<and> i < n"
    "distinct (concat (fst (g k)) @ snd (g k))"
proof -
  have run: "concat (fst (g k)) @ snd (g k) = filter (\<lambda>i. key i = k) [0..<n]"
    using assms by (simp add: pieces_below_def)
  then have members: "set (concat (fst (g k)) @ snd (g k)) = {i. i < n \<and> key i = k}" by auto
  show "distinct (concat (fst (g k)) @ snd (g k))" unfolding run by simp
  show "i \<in> set (snd (g k)) \<Longrightarrow> key i = k \<and> i < n" "b \<in> set (fst (g k)) \<Longrightarrow> i \<in> set b \<Longrightarrow> key i = k \<and> i < n"
    using members by auto
qed

text \<open>Closing a packet moves its beats to the pieces.\<close>

lemma append_packet_inv:
  assumes inv: "packets_inv key ts n g p" and f: "omap_find k (pa_active p) = Some s" and n: "n \<le> length ts"
  shows "packets_inv key ts n (g(k := (fst (g k) @ [snd (g k)], []))) (append_packet p k)"
proof -
  let ?g = "g(k := (fst (g k) @ [snd (g k)], []))"
  have b: "pk_beats s = snd (g k)" "snd (g k) \<noteq> []"
    using packets_invD(5) [OF inv, of k] f by (auto split: if_splits)
  note ok = packets_invD(1) [OF inv] and un = packets_invD(2) [OF inv] and below = packets_invD(3) [OF inv]
  note members = pieces_members [OF below]
  have pieces: "pieces_below key n ?g"
    using below b(2) by (auto simp: pieces_below_def)
  have inside: "set (pk_beats s) \<subseteq> {..<length ts}" using b(1) members(1) [of _ k] n by fastforce
  have len: "length (pa_transfers p) = length ts" using un by (metis length_map)
  have "last (pk_beats s) < length ts" using inside b by (auto simp: subset_iff)
  then have last: "ss_eop (pa_transfers p ! last (pk_beats s)) = ss_eop (ts ! last (pk_beats s))"
    by (intro unmarked_fields(2) unmarked_nth [OF un])
  have head: "of_key key j s \<longleftrightarrow> j = k" for j
    using members(1) [of "hd (snd (g k))" k] b by (auto simp: of_key_def)
  let ?ts = "foldl (mark_beat (pk_index s)) (pa_transfers p) (enumerate 0 (pk_beats s))"
  have new: "marked ?ts s"
    using members(3) [of k] b(1) inside len by (intro packet_marked) auto
  have old: "marked ?ts s'" if s': "s' \<in> set (pa_finished p)" for s'
  proof -
    have "i \<notin> snd ` set (enumerate 0 (pk_beats s))" if i: "i \<in> set (pk_beats s')" for i
    proof
      assume "i \<in> snd ` set (enumerate 0 (pk_beats s))"
      then have "i \<in> set (snd (g k))" using b(1) by simp
      moreover define j where "j = key (hd (pk_beats s'))"
      have "pk_beats s' \<in> set (map pk_beats (filter (of_key key j) (pa_finished p)))" using s' by (simp add: of_key_def j_def)
      then have j: "pk_beats s' \<in> set (fst (g j))" unfolding packets_invD(4) [OF inv] .
      ultimately have "j = k" using members(1) [of i k] members(2) [OF j i] by simp
      then show False using members(3) [of k] i j \<open>i \<in> set (snd (g k))\<close> by auto
    qed
    moreover have "marked (pa_transfers p) s'" using packets_invD(6) [OF inv] s' by (simp add: list_all_iff)
    moreover have "i \<in> set (pk_beats s')" if "(place, i) \<in> set (enumerate 0 (pk_beats s'))" for place i
      using imageI [OF that, of snd] by simp
    ultimately show ?thesis by (fastforce simp: marked_def mark_beats_other)
  qed
  let ?active = "\<lambda>l. omap_find l (pa_active p)"
  have ran: "ran ?active = insert s (ran (?active(k := None)))" by (rule ran_split) (rule f)
  then have same: "set (pa_finished p @ [s]) \<union> ran (\<lambda>l. omap_find l (omap_erase k (pa_active p))) = all_states p"
    using ran_erase [OF ok] by (auto simp: all_states_def)
  have p': "append_packet p k = p\<lparr>pa_active := omap_erase k (pa_active p), pa_transfers := ?ts, pa_finished := pa_finished p @ [s],
      pa_mismatches := pa_mismatches p + length (pk_stable_mismatches s),
      pa_partial := (if pk_partial_begin s \<or> \<not> ss_eop (ts ! last (pk_beats s)) then pa_partial p + 1 else pa_partial p),
      pa_complete := (if pk_partial_begin s \<or> \<not> ss_eop (ts ! last (pk_beats s)) then pa_complete p else pa_complete p + 1)\<rparr>"
    using f b last by (simp add: append_packet_def Let_def)
  have filters: "map pk_beats (filter (of_key key j) (pa_finished p @ [s])) = fst (?g j)" for j
    using packets_invD(4) [OF inv, of j] head b(1) by simp
  have actives: "map_option pk_beats (omap_find j (omap_erase k (pa_active p))) = (if snd (?g j) = [] then None else Some (snd (?g j)))" for j
    using packets_invD(5) [OF inv, of j] ok by (auto simp: omap_laws split: if_splits)
  have states: "all_states (append_packet p k) = all_states p" unfolding same [symmetric] unfolding all_states_def p' by simp
  have count: "counted ts (append_packet p k)"
    using packets_invD(7) [OF inv] by (auto simp: counted_def whole_def p')
  have marks: "list_all (marked ?ts) (pa_finished p @ [s])" using new old by (simp add: list_all_iff)
  have unmarks: "map unmarked ?ts = map unmarked ts" using un by (simp add: mark_beats_unmarked)
  show ?thesis
  proof (rule packets_invI)
    show "numbered ts n (pa_next (append_packet p k)) (all_states (append_packet p k))"
      using packets_invD(8) [OF inv] unfolding states by (simp add: p')
  qed (use pieces filters actives ok count marks unmarks in \<open>simp_all add: p' omap_laws del: fun_upd_apply\<close>)
qed

lemma pieces_push:
  assumes "pieces_below key n g"
  shows "pieces_below key (Suc n) (g(key n := (fst (g (key n)), snd (g (key n)) @ [n])))"
  unfolding pieces_below_def
proof
  fix k
  show "concat (fst ((g(key n := (fst (g (key n)), snd (g (key n)) @ [n]))) k)) @ snd ((g(key n := (fst (g (key n)), snd (g (key n)) @ [n]))) k) =
      filter (\<lambda>i. key i = k) [0..<Suc n] \<and> [] \<notin> set (fst ((g(key n := (fst (g (key n)), snd (g (key n)) @ [n]))) k))"
    using assms by (cases "k = key n") (simp_all add: pieces_below_def flip: append_assoc)
qed

lemma push_beat_inv:
  assumes inv: "packets_inv key ts n g p" and t: "ss_sop t = ss_sop (ts ! n)" and k: "k = key n"
  shows "packets_inv key ts (Suc n) (g(k := (fst (g k), snd (g k) @ [n]))) (push_beat wave unit t p k n)"
proof (cases "omap_find k (pa_active p)")
  case (Some s)
  note ok = packets_invD(1) [OF inv] and below = packets_invD(3) [OF inv]
  let ?s = "add_packet_beat wave unit t n s" and ?active = "\<lambda>l. omap_find l (pa_active p)"
  have b: "pk_beats s = snd (g k)" "snd (g k) \<noteq> []" using packets_invD(5) [OF inv, of k] Some by (auto split: if_splits)
  have s': "pk_index ?s = pk_index s" "pk_partial_begin ?s = pk_partial_begin s" "hd (pk_beats ?s) = hd (pk_beats s)" "pk_beats ?s = snd (g k) @ [n]"
    using b by (simp_all add: add_packet_beat_def)
  have p': "push_beat wave unit t p k n = p\<lparr>pa_active := omap_set k ?s (pa_active p)\<rparr>"
    using Some by (simp add: push_beat_def open_packet_def)
  have ran: "ran ?active = insert s (ran (?active(k := None)))" by (rule ran_split) (rule Some)
  have actives: "map_option pk_beats (omap_find j (omap_set k ?s (pa_active p))) =
      (if snd ((g(k := (fst (g k), snd (g k) @ [n]))) j) = [] then None else Some (snd ((g(k := (fst (g k), snd (g k) @ [n]))) j)))" for j
    using packets_invD(5) [OF inv, of j] ok s'(4) by (auto simp: omap_laws split: if_splits)
  have states: "all_states (push_beat wave unit t p k n) = insert ?s (set (pa_finished p) \<union> ran (?active(k := None)))"
    "all_states p = insert s (set (pa_finished p) \<union> ran (?active(k := None)))"
    using ran by (simp_all add: all_states_def p' ran_set [OF ok])
  have "numbered ts (Suc n) (pa_next p) (all_states (push_beat wave unit t p k n))"
    unfolding states(1) using packets_invD(8) [OF inv] unfolding states(2) by (rule numbered_same) (use s' in simp_all)
  moreover have "counted ts (push_beat wave unit t p k n)" using packets_invD(7) [OF inv] by (simp add: counted_def p')
  moreover have "map pk_beats (filter (of_key key j) (pa_finished p)) = fst ((g(k := (fst (g k), snd (g k) @ [n]))) j)" for j
    using packets_invD(4) [OF inv, of j] by simp
  ultimately show ?thesis
    by (intro packets_invI)
      (use packets_invD(2,6) [OF inv] pieces_push [OF below, folded k] actives ok in \<open>simp_all add: p' omap_laws del: fun_upd_apply\<close>)
next
  case None
  note ok = packets_invD(1) [OF inv] and below = packets_invD(3) [OF inv]
  let ?active = "\<lambda>l. omap_find l (pa_active p)"
  have b: "snd (g k) = []" using packets_invD(5) [OF inv, of k] None by (auto split: if_splits)
  let ?s = "add_packet_beat wave unit t n \<lparr>pk_index = pa_next p, pk_partial_begin = (\<not> ss_sop t), pk_beats = [], pk_channel_id = ss_channel_id t,
    pk_stable_fields = ss_packet_stable_fields t, pk_stable_mismatches = []\<rparr>"
  have s': "pk_index ?s = pa_next p" "pk_partial_begin ?s = (\<not> ss_sop (ts ! n))" "pk_beats ?s = [n]" by (simp_all add: add_packet_beat_def t)
  have p': "pa_active (push_beat wave unit t p k n) = omap_set k ?s (omap_set k \<lparr>pk_index = pa_next p, pk_partial_begin = (\<not> ss_sop t), pk_beats = [],
      pk_channel_id = ss_channel_id t, pk_stable_fields = ss_packet_stable_fields t, pk_stable_mismatches = []\<rparr> (pa_active p))"
    "pa_next (push_beat wave unit t p k n) = Suc (pa_next p)" "pa_finished (push_beat wave unit t p k n) = pa_finished p"
    "pa_transfers (push_beat wave unit t p k n) = pa_transfers p" "pa_complete (push_beat wave unit t p k n) = pa_complete p"
    "pa_partial (push_beat wave unit t p k n) = pa_partial p" "pa_mismatches (push_beat wave unit t p k n) = pa_mismatches p"
    using None ok by (simp_all add: push_beat_def open_packet_def omap_laws)
  have ok': "omap_ok (pa_active (push_beat wave unit t p k n))" using ok by (simp add: p' omap_laws)
  have find: "omap_find j (pa_active (push_beat wave unit t p k n)) = (if j = k then Some ?s else omap_find j (pa_active p))" for j
    using ok by (simp add: p' omap_laws)
  have states: "all_states (push_beat wave unit t p k n) = insert ?s (all_states p)"
  proof -
    have "(\<lambda>l. omap_find l (pa_active (push_beat wave unit t p k n))) = ?active(k \<mapsto> ?s)" by (simp add: find fun_eq_iff)
    then show ?thesis using None by (simp add: all_states_def p'(3) ran_map_upd)
  qed
  have actives: "map_option pk_beats (if j = k then Some ?s else omap_find j (pa_active p)) =
      (if snd ((g(k := (fst (g k), snd (g k) @ [n]))) j) = [] then None else Some (snd ((g(k := (fst (g k), snd (g k) @ [n]))) j)))" for j
    using packets_invD(5) [OF inv, of j] s' b by (auto split: if_splits)
  have "numbered ts (Suc n) (Suc (pa_next p)) (all_states (push_beat wave unit t p k n))"
    unfolding states by (rule numbered_new [OF packets_invD(8) [OF inv]]) (use s' in simp_all)
  moreover have "counted ts (push_beat wave unit t p k n)" using packets_invD(7) [OF inv] by (simp add: counted_def p'(2-7))
  moreover have "map pk_beats (filter (of_key key j) (pa_finished p)) = fst ((g(k := (fst (g k), snd (g k) @ [n]))) j)" for j
    using packets_invD(4) [OF inv, of j] by simp
  ultimately show ?thesis
    by (intro packets_invI)
      (use packets_invD(2,6) [OF inv] pieces_push [OF below, folded k] actives ok' in \<open>simp_all add: find p'(2-7) del: fun_upd_apply\<close>)
qed

definition stream_first :: "stream_sample list \<Rightarrow> nat \<Rightarrow> bool" where
  "stream_first ts i = ss_sop (ts ! i)"

definition stream_last :: "stream_sample list \<Rightarrow> nat \<Rightarrow> bool" where
  "stream_last ts i = ss_eop (ts ! i)"

lemma packet_step_inv:
  assumes inv: "packets_inv key ts n g p" and key: "key = (\<lambda>i. packet_key c (ts ! i))" and n: "n < length ts"
  shows "packets_inv key ts (Suc n) (g(key n := cut_step (stream_first ts) (stream_last ts) (g (key n)) n)) (packet_step c wave unit p n)"
proof -
  let ?k = "key n" and ?t = "pa_transfers p ! n"
  note same = unmarked_fields [OF unmarked_nth [OF packets_invD(2) [OF inv] n]]
  obtain gs cur where g: "g ?k = (gs, cur)" by fastforce
  define closing where "closing \<longleftrightarrow> ss_sop ?t \<and> omap_find ?k (pa_active p) \<noteq> None"
  define p1 where "p1 = (if closing then append_packet p ?k else p)"
  define g1 where "g1 = (if closing then g(?k := (gs @ [cur], [])) else g)"
  have inv1: "packets_inv key ts n g1 p1"
    using append_packet_inv [OF inv, of ?k] n g inv by (auto simp: p1_def g1_def closing_def)
  let ?p2 = "push_beat wave unit ?t p1 ?k n" and ?g2 = "g1(?k := (fst (g1 ?k), snd (g1 ?k) @ [n]))"
  have inv2: "packets_inv key ts (Suc n) ?g2 ?p2" by (rule push_beat_inv [OF inv1]) (simp_all add: same)
  have closing: "closing \<longleftrightarrow> stream_first ts n \<and> cur \<noteq> []"
    using packets_invD(5) [OF inv, of ?k] g by (auto simp: closing_def same stream_first_def split: if_splits)
  have step: "packet_step c wave unit p n = (if stream_last ts n then append_packet ?p2 ?k else ?p2)"
    by (auto simp: packet_step_def Let_def p1_def closing_def key same stream_last_def)
  obtain s where s: "omap_find ?k (pa_active ?p2) = Some s" using packets_invD(5) [OF inv2, of ?k] by auto
  have "packets_inv key ts (Suc n) (if stream_last ts n then ?g2(?k := (fst (?g2 ?k) @ [snd (?g2 ?k)], [])) else ?g2) (packet_step c wave unit p n)"
    using append_packet_inv [OF inv2 s] inv2 n unfolding step by simp
  moreover have "(if stream_last ts n then ?g2(?k := (fst (?g2 ?k) @ [snd (?g2 ?k)], [])) else ?g2) =
      g(?k := cut_step (stream_first ts) (stream_last ts) (g ?k) n)"
    using closing g by (simp add: g1_def cut_step_def fun_eq_iff)
  ultimately show ?thesis by simp
qed

definition channel_run :: "(nat \<Rightarrow> string) \<Rightarrow> nat \<Rightarrow> string \<Rightarrow> nat list" where
  "channel_run key n k = filter (\<lambda>i. key i = k) [0..<n]"

lemma packet_loop_inv:
  assumes key: "key = (\<lambda>i. packet_key c (ts ! i))" and "n \<le> length ts"
  shows "packets_inv key ts n (\<lambda>k. cut_run (stream_first ts) (stream_last ts) (channel_run key n k)) (foldl (packet_step c wave unit) (packet_scan_init ts) [0..<n])"
  using assms(2)
proof (induction n)
  case 0
  show ?case
    by (rule packets_invI) (auto simp: packet_scan_init_def cut_run_def channel_run_def pieces_below_def counted_def numbered_def all_states_def ran_def)
next
  case (Suc n)
  let ?g = "\<lambda>n k. cut_run (stream_first ts) (stream_last ts) (channel_run key n k)"
  have "(?g n)(key n := cut_step (stream_first ts) (stream_last ts) (?g n (key n)) n) = ?g (Suc n)"
    by (auto simp: fun_eq_iff cut_run_def channel_run_def)
  moreover have "packets_inv key ts (Suc n) ((?g n)(key n := cut_step (stream_first ts) (stream_last ts) (?g n (key n)) n))
      (packet_step c wave unit (foldl (packet_step c wave unit) (packet_scan_init ts) [0..<n]) n)"
    using Suc by (intro packet_step_inv [OF _ key]) simp_all
  ultimately show ?case by simp
qed

text \<open>At the end every open packet is closed.\<close>

lemma append_all_inv:
  assumes "packets_inv key ts n g p" "n \<le> length ts" "distinct ks" "\<And>k. k \<in> set ks \<Longrightarrow> omap_find k (pa_active p) \<noteq> None"
  shows "packets_inv key ts n (\<lambda>k. if k \<in> set ks then (all_pieces (g k), []) else g k) (foldl append_packet p ks)"
  using assms(1,3,4)
proof (induction ks arbitrary: g p)
  case (Cons k ks)
  then obtain s where s: "omap_find k (pa_active p) = Some s" by force
  let ?g = "g(k := (fst (g k) @ [snd (g k)], []))"
  have inv: "packets_inv key ts n ?g (append_packet p k)" by (rule append_packet_inv [OF Cons.prems(1) s assms(2)])
  have left: "snd (g k) \<noteq> []" using packets_invD(5) [OF Cons.prems(1), of k] s by (auto split: if_splits)
  have "omap_find j (pa_active (append_packet p k)) \<noteq> None" if "j \<in> set ks" for j
    using packets_invD(5) [OF inv, of j] packets_invD(5) [OF Cons.prems(1), of j] Cons.prems(2) Cons.prems(3) [of j] that by (auto split: if_splits)
  then have "packets_inv key ts n (\<lambda>j. if j \<in> set ks then (all_pieces (?g j), []) else ?g j) (foldl append_packet (append_packet p k) ks)"
    using Cons.prems(2) by (intro Cons.IH [OF inv]) simp_all
  moreover have "(\<lambda>j. if j \<in> set ks then (all_pieces (?g j), []) else ?g j) = (\<lambda>j. if j \<in> set (k # ks) then (all_pieces (g j), []) else g j)"
    using Cons.prems(2) left by (auto simp: fun_eq_iff all_pieces_def split: prod.splits)
  ultimately show ?case by simp
qed simp

lemma scan_packets_inv:
  assumes "packet_enabled c" and key: "key = (\<lambda>i. packet_key c (ts ! i))"
  shows "packets_inv key ts (length ts)
    (\<lambda>k. (all_pieces (cut_run (stream_first ts) (stream_last ts) (channel_run key (length ts) k)), [])) (scan_packets c wave unit ts)"
proof -
  let ?g = "\<lambda>k. cut_run (stream_first ts) (stream_last ts) (channel_run key (length ts) k)"
  let ?p = "foldl (packet_step c wave unit) (packet_scan_init ts) [0..<length ts]"
  have inv: "packets_inv key ts (length ts) ?g ?p" by (rule packet_loop_inv [OF key]) simp
  note ok = packets_invD(1) [OF inv]
  have keys: "k \<in> set (map fst (pa_active ?p)) \<longleftrightarrow> omap_find k (pa_active ?p) \<noteq> None" for k
    using omap.keys_dom [OF ok] by simp
  have "packets_inv key ts (length ts) (\<lambda>k. if k \<in> set (map fst (pa_active ?p)) then (all_pieces (?g k), []) else ?g k)
      (foldl append_packet ?p (map fst (pa_active ?p)))"
    by (rule append_all_inv [OF inv]) (use ok keys in \<open>auto simp: omap_ok_def strict_sorted_iff\<close>)
  moreover have "(\<lambda>k. if k \<in> set (map fst (pa_active ?p)) then (all_pieces (?g k), []) else ?g k) = (\<lambda>k. (all_pieces (?g k), []))"
  proof
    fix k
    obtain gs cur where "?g k = (gs, cur)" by fastforce
    then show "(if k \<in> set (map fst (pa_active ?p)) then (all_pieces (?g k), []) else ?g k) = (all_pieces (?g k), [])"
      using packets_invD(5) [OF inv, of k] unfolding keys by (cases "cur = []") auto
  qed
  ultimately show ?thesis using assms(1) unfolding scan_packets_def Let_def by simp
qed

lemma sorted_heads: "sorted_wrt (<) (concat gs) \<Longrightarrow> [] \<notin> set gs \<Longrightarrow> sorted_wrt (<) (map hd (gs :: nat list list))"
proof (induction gs)
  case (Cons g gs)
  have "hd g < hd h" if h: "h \<in> set gs" for h
  proof -
    have "h \<noteq> []" "g \<noteq> []" using h Cons.prems(2) by auto
    then have "hd h \<in> set h" "hd g \<in> set g" by simp_all
    moreover from this(1) h have "hd h \<in> set (concat gs)" by auto
    ultimately show ?thesis using Cons.prems(1) by (auto simp: sorted_wrt_append)
  qed
  then show ?case using Cons by (auto simp: sorted_wrt_append)
qed simp

lemma distinct_by_key: "(\<And>k. distinct (map f (filter (\<lambda>x. key (f x) = k) xs))) \<Longrightarrow> distinct (map f xs)"
proof (induction xs)
  case (Cons x xs)
  have "distinct (map f (filter (\<lambda>x. key (f x) = k) xs))" for k
    using Cons.prems [of k] by (auto split: if_splits)
  moreover have "f x \<notin> f ` set xs"
    using Cons.prems [of "key (f x)"] by auto
  ultimately show ?case using Cons.IH by simp
qed simp

lemma ordered_packets_of_key:
  assumes inv: "packets_inv key ts n g p" and closed: "\<And>k. snd (g k) = []"
  shows "map pk_beats (filter (of_key key k) (ordered_packets p)) = fst (g k)"
    "map pk_index (ordered_packets p) = [0..<length (ordered_packets p)]"
    "sorted_wrt (<) (map (hd \<circ> pk_beats) (ordered_packets p))"
proof -
  note num = packets_invD(8) [OF inv] and below = packets_invD(3) [OF inv] and pieces = packets_invD(4) [OF inv]
  have none: "omap_find k (pa_active p) = None" for k using packets_invD(5) [OF inv, of k] closed by simp
  then have states: "all_states p = set (pa_finished p)" by (simp add: all_states_def ran_def)
  obtain heads where heads: "sorted_wrt (<) heads" "length heads = pa_next p" "\<forall>s \<in> set (pa_finished p). hd (pk_beats s) = heads ! pk_index s"
    using num unfolding numbered_def states by blast
  have index: "pk_index ` set (pa_finished p) = {..<pa_next p}" using num by (simp add: numbered_def states)
  have heads_of: "sorted_wrt (<) (map (hd \<circ> pk_beats) (filter (of_key key j) (pa_finished p)))" for j
  proof -
    have "sorted_wrt (<) (concat (fst (g j)))" "[] \<notin> set (fst (g j))"
      using below closed by (simp_all add: pieces_below_def sorted_wrt_filter)
    then show ?thesis using sorted_heads by (simp flip: pieces add: map_map [symmetric] del: map_map)
  qed
  have mono: "pk_index s \<le> pk_index s'"
    if "s \<in> set (pa_finished p)" "s' \<in> set (pa_finished p)" "hd (pk_beats s) \<le> hd (pk_beats s')" for s s'
  proof (rule ccontr)
    assume "\<not> pk_index s \<le> pk_index s'"
    moreover have "pk_index s < pa_next p" using index that(1) by blast
    ultimately have "heads ! pk_index s' < heads ! pk_index s" using heads(1,2) by (intro sorted_wrt_nth_less [OF heads(1)]) simp_all
    then show False using heads(3) that by simp
  qed
  have "sorted (map pk_index (filter (of_key key k) (pa_finished p)))"
    using heads_of [of k] mono by (auto simp: sorted_wrt_map intro: sorted_wrt_mono_rel [where P = "\<lambda>x y. hd (pk_beats x) < hd (pk_beats y)"])
  then show "map pk_beats (filter (of_key key k) (ordered_packets p)) = fst (g k)"
    using pieces [of k] by (simp add: ordered_packets_def filter_sort sort_key_id_if_sorted)
  have "distinct (map (hd \<circ> pk_beats) (pa_finished p))"
  proof (rule distinct_by_key [where key = key])
    fix j
    have "of_key key j = (\<lambda>s. key ((hd \<circ> pk_beats) s) = j)" by (simp add: fun_eq_iff of_key_def)
    then show "distinct (map (hd \<circ> pk_beats) (filter (\<lambda>s. key ((hd \<circ> pk_beats) s) = j) (pa_finished p)))"
      using heads_of [of j] strict_sorted_iff by metis
  qed
  then have "distinct (map pk_index (pa_finished p))"
    using heads(3) by (simp add: distinct_map inj_on_def)
  then have "mset (map pk_index (pa_finished p)) = mset [0..<pa_next p]"
    using index by (intro set_eq_iff_mset_eq_distinct [THEN iffD1]) auto
  then have all: "map pk_index (ordered_packets p) = [0..<pa_next p]"
    using properties_for_sort [of "map pk_index (ordered_packets p)" "[0..<pa_next p]"] by (simp add: ordered_packets_def sort_key_id_if_sorted)
  then show "map pk_index (ordered_packets p) = [0..<length (ordered_packets p)]" by (metis diff_zero length_map length_upt)
  have "map (hd \<circ> pk_beats) (ordered_packets p) = map ((!) heads) (map pk_index (ordered_packets p))"
    using heads(3) by (simp add: ordered_packets_def)
  also have "\<dots> = heads" unfolding all using heads(2) by (metis map_nth)
  finally show "sorted_wrt (<) (map (hd \<circ> pk_beats) (ordered_packets p))" using heads(1) by simp
qed

lemma packets_exact:
  assumes "packet_enabled c" "p = scan_packets c wave unit ts" "key = (\<lambda>i. packet_key c (ts ! i))"
  shows "cuts_ok (stream_first ts) (stream_last ts) (channel_run key (length ts) k) (map pk_beats (filter (of_key key k) (ordered_packets p)))"
    "map pk_index (ordered_packets p) = [0..<length (ordered_packets p)]" "sorted_wrt (<) (map (hd \<circ> pk_beats) (ordered_packets p))"
    "list_all (marked (pa_transfers p)) (ordered_packets p)" "map unmarked (pa_transfers p) = map unmarked ts"
    "pa_complete p = length (filter (whole ts) (ordered_packets p))" "pa_partial p = length (filter (\<lambda>s. \<not> whole ts s) (ordered_packets p))"
    "list_all (\<lambda>s. pk_partial_begin s = (\<not> ss_sop (ts ! hd (pk_beats s)))) (ordered_packets p)"
proof -
  note inv = scan_packets_inv [OF assms(1,3), of wave unit, folded assms(2)]
  note ordered = ordered_packets_of_key [OF inv]
  show "cuts_ok (stream_first ts) (stream_last ts) (channel_run key (length ts) k) (map pk_beats (filter (of_key key k) (ordered_packets p)))"
    unfolding ordered(1) [OF snd_conv] using cut_run_ok by simp
  show "map pk_index (ordered_packets p) = [0..<length (ordered_packets p)]" "sorted_wrt (<) (map (hd \<circ> pk_beats) (ordered_packets p))"
    using ordered(2,3) by simp_all
  show "list_all (marked (pa_transfers p)) (ordered_packets p)" "map unmarked (pa_transfers p) = map unmarked ts"
    using packets_invD(2,6) [OF inv] by (simp_all add: ordered_packets_def list_all_iff)
  have "length (filter P (ordered_packets p)) = length (filter P (pa_finished p))" for P
    by (metis filter_sort length_sort ordered_packets_def)
  then show "pa_complete p = length (filter (whole ts) (ordered_packets p))" "pa_partial p = length (filter (\<lambda>s. \<not> whole ts s) (ordered_packets p))"
    using packets_invD(7) [OF inv] by (simp_all add: counted_def)
  show "list_all (\<lambda>s. pk_partial_begin s = (\<not> ss_sop (ts ! hd (pk_beats s)))) (ordered_packets p)"
    using packets_invD(8) [OF inv] by (simp add: numbered_def all_states_def ordered_packets_def list_all_iff)
qed

end
