(* ===== verification/Stream_Query.thy ===== *)
theory Stream_Query
  imports Stream_Packets
begin

unbundle bit_operations_syntax

text \<open>
  The stream query, \<open>StreamQueryHandler::run\<close>: budgets, field filters with three answers, stall windows, and the eleven kinds
  of query. What the environment supplies is a record: the variables, the size of a sample in memory, the text of a JSON
  value on one line and indented, what an uninitialised time unit holds, and which files can be opened for writing.
\<close>

record stream_env =
  se_getenv :: "string \<Rightarrow> string option"
  se_sample_bytes :: u64
  se_dump :: "json \<Rightarrow> string"
  se_unit :: time_render_unit
  se_pretty :: "json \<Rightarrow> string"
  se_opens :: "string \<Rightarrow> bool"

section \<open>Budget\<close>

definition stream_cache_key_summary :: "stream_env \<Rightarrow> stream_config \<Rightarrow> json \<Rightarrow> string handled" where
  "stream_cache_key_summary env c args =
     rbind (json_value args ''cache_scope'' ''full'' get_string) (\<lambda>scope.
     rbind (json_value args ''time_range'' (JObject []) Inr) (\<lambda>times.
       Inr (hex16 (stable_path_hash (sc_name c @ [CHR 0x0A] @ se_dump env (sc_source c) @ [CHR 0x0A] @ scope @ [CHR 0x0A] @ se_dump env times)))))"

definition environment_error :: "string \<Rightarrow> json" where
  "environment_error message =
     JObject [(''ok'', JBool False), (''error'', JObject [(''code'', JString ''INVALID_ENVIRONMENT''), (''message'', JString message),
       (''error_layer'', JString ''handler''), (''recoverable'', JBool False)])]"

definition stream_analysis_budget_error :: "stream_env \<Rightarrow> stream_config \<Rightarrow> json \<Rightarrow> json option handled" where
  "stream_analysis_budget_error env c args =
     (case rbind (parse_analysis_cache_budget (se_getenv env) ''XDEBUG_ANALYSIS_CACHE_MAX_BYTES'' 1073741824 True) (\<lambda>soft.
           rbind (parse_analysis_cache_budget (se_getenv env) ''XDEBUG_ANALYSIS_CACHE_HARD_MAX_BYTES'' 2147483648 False) (\<lambda>hard. Inr (soft, hard))) of
        Inl message \<Rightarrow> Inr (Some (environment_error message))
      | Inr (soft, hard) \<Rightarrow>
          if soft > hard then
            Inr (Some (environment_error ''XDEBUG_ANALYSIS_CACHE_MAX_BYTES must not exceed XDEBUG_ANALYSIS_CACHE_HARD_MAX_BYTES''))
          else if hard \<ge> se_sample_bytes env then Inr None
          else rbind (stream_cache_key_summary env c args) (\<lambda>key. Inr (Some
            (JObject [(''ok'', JBool False), (''error'', JObject [(''code'', JString ''ANALYSIS_MEMORY_LIMIT_EXCEEDED''),
               (''message'', JString ''analysis cache build exceeds the configured hard memory limit''), (''recoverable'', JBool True),
               (''error_layer'', JString ''handler''), (''current_estimated_bytes'', JInteger 0), (''hard_max_bytes'', JUnsigned (unat hard)),
               (''protocol'', JString ''stream''), (''key_summary'', JString key),
               (''next_actions'', JArray [
                  JString ''For stream analysis, explicitly retry with cache_scope=range or a smaller time_range.'',
                  JString ''If range analysis still exceeds the limit, use x-npi for one-off offline analysis.''])])]))))"

section \<open>Filters\<close>

definition known_u64 :: "json \<Rightarrow> u64 option handled" where
  "known_u64 v =
     rbind (json_value v ''known'' False get_bool) (\<lambda>known.
       if \<not> known \<or> \<not> json_contains v ''bits'' then Inr None
       else rbind (string_at_key v ''bits'') (\<lambda>bits.
         Inr (if length bits > 64 \<or> \<not> list_all (\<lambda>b. b = CHR ''0'' \<or> b = CHR ''1'') bits then None else Some (foldl shift_in 0 bits))))"

definition literal_u64 :: "string \<Rightarrow> u64 option handled" where
  "literal_u64 t = logic_u64 t"

definition literal_at :: "json \<Rightarrow> string \<Rightarrow> u64 option handled" where
  "literal_at rule k = rbind (string_at_key rule k) literal_u64"

definition stream_field_matches :: "json \<Rightarrow> json \<Rightarrow> bool handled" where
  "stream_field_matches value rule =
     rbind (known_u64 value) (\<lambda>known. case known of
         None \<Rightarrow> Inr False
       | Some actual \<Rightarrow>
           rbind (string_at_key rule ''mode'') (\<lambda>mode.
             if mode = ''exact'' then
               rbind (json_at rule ''values'') (\<lambda>vs. rbind (exact_match actual (json_items vs)) (\<lambda>r. Inr (r = FYes)))
             else if mode = ''range'' then
               rbind (literal_at rule ''begin'') (\<lambda>lo.
                 if lo = None then Inr False
                 else rbind (literal_at rule ''end'') (\<lambda>hi. Inr (hi \<noteq> None \<and> the lo \<le> actual \<and> actual \<le> the hi)))
             else
               rbind (literal_at rule ''value'') (\<lambda>expected.
                 if expected = None then Inr False
                 else rbind (literal_at rule ''mask'') (\<lambda>mask. Inr (mask \<noteq> None \<and> actual AND the mask = the expected AND the mask)))))"

datatype stream_filter_result = Match | NoMatch | Unresolved

definition lsb_bit :: "string \<Rightarrow> nat \<Rightarrow> char \<Rightarrow> char" where
  "lsb_bit bits offset fill = (if offset < length bits then bits ! (length bits - 1 - offset) else fill)"

fun mask_loop :: "string \<Rightarrow> string \<Rightarrow> string \<Rightarrow> nat list \<Rightarrow> stream_filter_result" where
  "mask_loop actual expected sel [] = Match"
| "mask_loop actual expected sel (i # is) =
     (if lsb_bit sel i (CHR ''0'') \<noteq> CHR ''1'' then mask_loop actual expected sel is
      else
        let actual_bit = lsb_bit actual i (CHR ''0'')
        in if actual_bit \<noteq> CHR ''0'' \<and> actual_bit \<noteq> CHR ''1'' then Unresolved
           else if actual_bit \<noteq> lsb_bit expected i (CHR ''0'') then NoMatch
           else mask_loop actual expected sel is)"

definition stream_field_filter_result :: "json \<Rightarrow> json \<Rightarrow> stream_filter_result handled" where
  "stream_field_filter_result value rule =
     (if \<not> is_object value \<or> \<not> json_contains value ''bits'' then Inr Unresolved
      else rbind (json_value value ''known'' False get_bool) (\<lambda>known.
        if known then rbind (stream_field_matches value rule) (\<lambda>m. Inr (if m then Match else NoMatch))
        else rbind (json_at rule ''mode'') (\<lambda>mode.
          if mode \<noteq> JString ''mask'' then Inr Unresolved
          else
            rbind (rbind (string_at_key rule ''value'') (\<lambda>t. lift_fault (parse_sv_literal t))) (\<lambda>expected.
            if expected = None then Inr Unresolved
            else rbind (rbind (string_at_key rule ''mask'') (\<lambda>t. lift_fault (parse_sv_literal t))) (\<lambda>mask.
              if mask = None \<or> \<not> lv_known (the expected) \<or> \<not> lv_known (the mask) then Inr Unresolved
              else rbind (string_at_key value ''bits'') (\<lambda>actual.
                Inr (mask_loop actual (lv_bits (the expected)) (lv_bits (the mask))
                  [0..<max (length actual) (max (length (lv_bits (the expected))) (length (lv_bits (the mask))))])))))))"

fun criteria_result :: "members \<Rightarrow> members \<Rightarrow> bool \<Rightarrow> stream_filter_result handled" where
  "criteria_result fs [] unresolved = Inr (if unresolved then Unresolved else Match)"
| "criteria_result fs ((k, rule) # cs) unresolved =
     rbind (case map_of fs k of None \<Rightarrow> Inr Unresolved | Some v \<Rightarrow> stream_field_filter_result v rule) (\<lambda>r.
       if r = NoMatch then Inr NoMatch else criteria_result fs cs (unresolved \<or> r = Unresolved))"

text \<open>The elements that match, and how many could not be decided.\<close>

fun apply_filter :: "('a \<Rightarrow> stream_filter_result handled) \<Rightarrow> 'a list \<Rightarrow> ('a list \<times> nat) handled" where
  "apply_filter decide [] = Inr ([], 0)"
| "apply_filter decide (x # xs) =
     rbind (decide x) (\<lambda>r.
     rbind (apply_filter decide xs) (\<lambda>(ys, n).
       Inr (case r of Match \<Rightarrow> (x # ys, n) | NoMatch \<Rightarrow> (ys, n) | Unresolved \<Rightarrow> (ys, n + 1))))"

text \<open>The channel of a request: none, one that is not a number, or a number.\<close>

definition channel_matches :: "u64 option option \<Rightarrow> json \<Rightarrow> bool handled" where
  "channel_matches channel v =
     (case channel of
        None \<Rightarrow> Inr True
      | Some None \<Rightarrow> Inr False
      | Some (Some number) \<Rightarrow> rbind (known_u64 v) (\<lambda>actual. Inr (actual = Some number)))"

definition requested_channel :: "json \<Rightarrow> u64 option option handled" where
  "requested_channel args =
     (if json_contains args ''channel'' then rbind (rbind (string_at_key args ''channel'') literal_u64) (\<lambda>c. Inr (Some c)) else Inr None)"

fun keep_if :: "('a \<Rightarrow> bool handled) \<Rightarrow> 'a list \<Rightarrow> 'a list handled" where
  "keep_if ok [] = Inr []"
| "keep_if ok (x # xs) = rbind (ok x) (\<lambda>b. rbind (keep_if ok xs) (\<lambda>ys. Inr (if b then x # ys else ys)))"

section \<open>Stalls\<close>

definition run_end :: "stream_sample list \<Rightarrow> nat \<Rightarrow> nat" where
  "run_end samples pos = pos + length (takeWhile ss_stall (drop (pos + 1) samples))"

function stall_windows :: "stream_sample list \<Rightarrow> nat \<Rightarrow> (nat \<times> nat) list" where
  "stall_windows samples pos =
     (if pos \<ge> length samples then []
      else if \<not> ss_stall (samples ! pos) then stall_windows samples (pos + 1)
      else (pos, run_end samples pos) # stall_windows samples (run_end samples pos + 1))"
  by pat_completeness auto
termination
  by (relation "measure (\<lambda>(samples, pos). length samples - pos)") (auto simp: run_end_def)

definition stall_json :: "stream_wave \<Rightarrow> time_render_unit \<Rightarrow> stream_config \<Rightarrow> stream_sample list \<Rightarrow> nat \<times> nat \<Rightarrow> json" where
  "stall_json wave unit c samples = (\<lambda>(first, pos).
     let boundary = min (pos + 1) (length samples - 1)
     in JObject [(''start_cycle'', JUnsigned (ss_cycle (samples ! first))), (''end_cycle'', JUnsigned (ss_cycle (samples ! boundary))),
          (''start_time'', JString (aw_format_time wave (ss_time (samples ! first)) unit)),
          (''end_time'', JString (aw_format_time wave (ss_time (samples ! boundary)) unit)),
          (''cycles'', JUnsigned (pos - first + 1)), (''reason'', JString (if sc_backpressure c = [] then ''rdy_low'' else ''bp_high''))])"

section \<open>Rows and packets\<close>

definition row_json :: "stream_wave \<Rightarrow> time_render_unit \<Rightarrow> stream_sample \<Rightarrow> json" where
  "row_json wave unit s =
     (let row = [(''cycle'', JUnsigned (ss_cycle s)), (''time'', JString (aw_format_time wave (ss_time s) unit)), (''vld'', JBool (ss_vld s)),
            (''rdy'', JBool (ss_rdy s)), (''bp'', JBool (ss_bp s)), (''sop'', JBool (ss_sop s)), (''eop'', JBool (ss_eop s)),
            (''transfer'', JBool (ss_transfer s)), (''stall'', JBool (ss_stall s)), (''beat_index'', JUnsigned (ss_beat_index s)),
            (''fields'', JObject (ss_fields s))] @
            (if ss_channel_id s = JNull then [] else [(''channel_id'', ss_channel_id s)])
      in JObject (if ss_packet_index s \<ge> 0 then
           row @ (''packet_index'', JInteger (ss_packet_index s)) #
             (if ss_packet_stable_fields s = [] then [] else [(''packet_stable_fields'', JObject (ss_packet_stable_fields s))])
         else row))"

definition beat_json :: "stream_wave \<Rightarrow> time_render_unit \<Rightarrow> stream_sample list \<Rightarrow> nat \<times> nat \<Rightarrow> json" where
  "beat_json wave unit ts = (\<lambda>(place, i). JObject [(''cycle'', JUnsigned (ss_cycle (ts ! i))),
     (''time'', JString (aw_format_time wave (ss_time (ts ! i)) unit)), (''beat_index'', JUnsigned place), (''fields'', JObject (ss_fields (ts ! i)))])"

definition beats_preview :: "stream_wave \<Rightarrow> time_render_unit \<Rightarrow> bool \<Rightarrow> stream_sample list \<Rightarrow> nat list \<Rightarrow> json" where
  "beats_preview wave unit complete ts beats =
     (let n = length beats;
          shown = map (beat_json wave unit ts) (enumerate 0 beats);
          head = take 5 shown;
          tail = (if n > 5 then drop (max 5 (if n > 10 then n - 5 else 5)) shown else [])
      in JObject [(''head'', JArray head), (''tail'', JArray tail), (''scan_complete'', JBool True), (''analysis_complete'', JBool complete),
           (''response_truncated'', JBool False), (''total_count'', JUnsigned n), (''returned_count'', JUnsigned (length head + length tail)),
           (''truncation_scopes'', JArray [])])"

definition packet_json :: "stream_wave \<Rightarrow> time_render_unit \<Rightarrow> bool \<Rightarrow> stream_sample list \<Rightarrow> packet_state \<Rightarrow> json" where
  "packet_json wave unit complete ts s =
     (let first = ts ! hd (pk_beats s);
          final = ts ! last (pk_beats s)
      in JObject ([(''packet_index'', JUnsigned (pk_index s)), (''start_cycle'', JUnsigned (ss_cycle first)), (''end_cycle'', JUnsigned (ss_cycle final)),
           (''start_time'', JString (aw_format_time wave (ss_time first) unit)), (''end_time'', JString (aw_format_time wave (ss_time final) unit)),
           (''beat_count'', JUnsigned (length (pk_beats s))), (''partial_begin'', JBool (pk_partial_begin s)), (''partial_end'', JBool (\<not> ss_eop final)),
           (''packet_stable_fields'', JObject (pk_stable_fields s)), (''packet_stable_mismatches'', JArray (pk_stable_mismatches s)),
           (''beat_fields_preview'', beats_preview wave unit complete ts (pk_beats s)),
           (''first_fields'', JObject (ss_fields first)), (''last_fields'', JObject (ss_fields final))] @
           (if pk_channel_id s = JNull then [] else [(''channel_id'', pk_channel_id s)])))"

section \<open>The query\<close>

definition filter_fields :: "json \<Rightarrow> members handled" where
  "filter_fields filt = rbind (json_at filt ''fields'') (\<lambda>fs. Inr (object_items fs))"

definition filter_transfers :: "bool \<Rightarrow> json \<Rightarrow> stream_sample list \<Rightarrow> (stream_sample list \<times> nat) handled" where
  "filter_transfers active filt ts =
     (if active \<and> ts \<noteq> [] then rbind (filter_fields filt) (\<lambda>cs. apply_filter (\<lambda>t. criteria_result (ss_fields t) cs False) ts) else Inr (ts, 0))"

definition channel_packets :: "u64 option option \<Rightarrow> json list \<Rightarrow> json list handled" where
  "channel_packets channel packets =
     keep_if (\<lambda>p. if channel = None then Inr True
                  else case json_get p ''channel_id'' of None \<Rightarrow> Inr False | Some v \<Rightarrow> channel_matches channel v) packets"

definition packet_decision :: "bool \<Rightarrow> json \<Rightarrow> json \<Rightarrow> stream_filter_result handled" where
  "packet_decision at_eop filt p =
     (if get_member p (if at_eop then ''partial_end'' else ''partial_begin'') = JBool True then Inr Unresolved
      else rbind (filter_fields filt) (\<lambda>cs.
        criteria_result (merge_members (object_members (get_member p (if at_eop then ''last_fields'' else ''first_fields'')))
          (object_members (get_member p ''packet_stable_fields''))) cs False))"

definition with_position :: "json \<Rightarrow> json" where
  "with_position filt = (if json_contains filt ''position'' then filt else JObject (member_set (object_members filt) ''position'' (JString ''sop'')))"

definition filter_packets :: "bool \<Rightarrow> json \<Rightarrow> json list \<Rightarrow> (json list \<times> nat) handled" where
  "filter_packets active filt packets =
     (if active then apply_filter (packet_decision (get_member filt ''position'' = JString ''eop'') filt) packets else Inr (packets, 0))"

record query_view =
  qv_transfers :: "stream_sample list"
  qv_rows :: "stream_sample list"
  qv_stalls :: "json list"
  qv_packets :: "json list"
  qv_filtered :: bool

definition row_limit :: "int \<Rightarrow> nat \<Rightarrow> nat" where
  "row_limit max_rows n = min (unat (word_of_int max_rows :: u64)) n"

definition get_u64 :: "json \<Rightarrow> u64 handled" where
  "get_u64 v = (case v of JUnsigned n \<Rightarrow> Inr (word_of_nat n) | JInteger i \<Rightarrow> Inr (word_of_int i) | JBool b \<Rightarrow> Inr (if b then 1 else 0)
     | JFloat t \<Rightarrow> Inl Float_number | _ \<Rightarrow> Inl Type_error)"

definition export_hint :: members where
  "export_hint = [(''hint'', JString ''use stream.export for large result'')]"

definition packet_answer :: "string \<Rightarrow> json \<Rightarrow> json list \<Rightarrow> (nat \<times> nat \<times> bool \<times> members) handled" where
  "packet_answer query args packets =
     rbind (if query = ''packet_at'' then rbind (rbind (json_at args ''packet_index'') get_u64) (\<lambda>i. Inr (unat i))
            else Inr (if query = ''last_packet'' \<and> packets \<noteq> [] then length packets - 1 else 0)) (\<lambda>index.
       let found = index < length packets;
           returned = (if found then 1 else 0)
       in Inr (if query = ''packet_at'' then returned else length packets, returned, False,
            [(''found'', JBool found), (''packet'', if found then packets ! index else JNull)]))"

definition stream_answer ::
  "stream_wave \<Rightarrow> time_render_unit \<Rightarrow> bool \<Rightarrow> string \<Rightarrow> int \<Rightarrow> json \<Rightarrow> query_view \<Rightarrow> (nat \<times> nat \<times> bool \<times> members) handled" where
  "stream_answer wave unit packets_on query max_rows args v =
     (let rows = qv_rows v; stalls = qv_stalls v; packets = qv_packets v;
          transfer_total = (if qv_filtered v then length rows else length (qv_transfers v))
      in if query = ''summary'' then Inr (if packets_on then length packets else transfer_total, 0, False, [])
         else if query = ''first_transfer'' \<or> query = ''last_transfer'' then
           Inr (transfer_total, if rows = [] then 0 else 1, False,
             if rows = [] then [] else [(''row'', row_json wave unit (if query = ''first_transfer'' then hd rows else last rows))])
         else if query = ''transfer_window'' then
           let returned = row_limit max_rows (length rows); truncated = returned < transfer_total
           in Inr (transfer_total, returned, truncated, (''rows'', JArray (map (row_json wave unit) (take returned rows))) #
                (if \<not> truncated then [] else if qv_filtered v then [(''hint'', JString ''narrow filter/time_range or increase line_limit'')] else export_hint))
         else if query = ''first_stall'' \<or> query = ''last_stall'' then
           Inr (length stalls, if stalls = [] then 0 else 1, False,
             if stalls = [] then [] else [(''stall'', if query = ''first_stall'' then hd stalls else last stalls)])
         else if query = ''stall_window'' then
           let returned = row_limit max_rows (length stalls); truncated = returned < length stalls
           in Inr (length stalls, returned, truncated, (''stalls'', JArray (take returned stalls)) # (if truncated then export_hint else []))
         else if query = ''first_packet'' \<or> query = ''last_packet'' \<or> query = ''packet_at'' then packet_answer query args packets
         else
           let returned = row_limit max_rows (length packets); truncated = returned < length packets
           in Inr (length packets, returned, truncated, (''packets'', JArray (take returned packets)) # (if truncated then export_hint else [])))"

definition filter_note :: string where
  "filter_note =
     utf8 [229, 155, 160, 230, 137, 128, 233, 128, 137] @ '' SOP/EOP '' @ utf8 [232, 190, 185, 231, 149, 140, 230, 156, 170, 229, 135, 186, 231,
     142, 176, 229, 156, 168, 230, 159, 165, 232, 175, 162, 231, 170, 151, 229, 143, 163, 229, 134, 133, 239, 188, 140, 230, 136, 150, 232, 162,
     171, 229, 188, 149, 231, 148, 168, 229, 173, 151, 230, 174, 181, 231, 154, 132, 230, 156, 137, 230, 149, 136, 230, 175, 148, 232, 190, 131,
     228, 189, 141, 229, 144, 171] @ '' X/Z'' @ utf8 [239, 188, 140, 229, 175, 188, 232, 135, 180, 230, 151, 160, 230, 179, 149, 229, 136, 164,
     230, 150, 173, 230, 152, 175, 229, 144, 166, 229, 140, 185, 233, 133, 141, 231, 154, 132] @ '' transfer/packet '' @ utf8 [230, 149, 176,
     239, 188, 155] @ ''mask '' @ utf8 [228, 184, 186] @ '' 0 '' @ utf8 [231, 154, 132, 228, 189, 141, 228, 184, 141, 229, 189, 177, 229, 147,
     141, 229, 136, 164, 230, 150, 173, 227, 128, 130]"

definition truncation_scopes :: "string \<Rightarrow> bool \<Rightarrow> bool \<Rightarrow> json" where
  "truncation_scopes query incomplete truncated =
     JArray ((if incomplete then [JString ''analysis_samples''] else []) @
       (if truncated then [JString (if query = ''transfer_window'' then ''response_transfers''
          else if query = ''stall_window'' then ''response_stalls'' else ''response_packets'')] else []))"

text \<open>What the scan found, before the request selects from it.\<close>

record stream_found =
  sf_samples :: "stream_sample list"
  sf_packets :: packet_scan
  sf_stalls :: "json list"
  sf_fields_complete :: bool

definition sample_count :: "(stream_sample \<Rightarrow> bool) \<Rightarrow> stream_found \<Rightarrow> nat" where
  "sample_count ok f = length (filter ok (sf_samples f))"

definition found_summary ::
  "stream_wave \<Rightarrow> time_render_unit \<Rightarrow> stream_config \<Rightarrow> string \<Rightarrow> string \<Rightarrow> u64 \<Rightarrow> u64 \<Rightarrow> bool \<Rightarrow> stream_found \<Rightarrow> nat \<times> nat \<times> bool \<Rightarrow> members handled" where
  "found_summary wave unit c name query lo hi filtered f answer =
     (case answer of (total_count, returned, truncated) \<Rightarrow>
      rbind (json_at (sc_source c) ''clock'') (\<lambda>clock.
        let time = (\<lambda>t. JString (aw_format_time wave t unit)); samples = sf_samples f; p = sf_packets f;
            control_xz = sample_count (\<lambda>s. \<not> ss_control_known s) f;
            data_xz = sample_count (\<lambda>s. ss_transfer s \<and> \<not> ss_data_known s) f;
            incomplete = (control_xz \<noteq> 0 \<or> data_xz \<noteq> 0 \<or> \<not> sf_fields_complete f)
        in Inr [(''stream'', JString name), (''query'', JString query), (''sampling_mode'', JString ''clock_edge''), (''clock'', clock),
             (''edge'', JString (sc_edge c)), (''sample_time_semantics'', JString ''time is sample_time''),
             (''handshake'', JString (stream_handshake c)), (''packet_enabled'', JBool (packet_enabled c)), (''clock_edges'', JUnsigned (length samples)),
             (''vld_cycles'', JUnsigned (sample_count ss_vld f)), (''transfer_count'', JUnsigned (sample_count ss_transfer f)),
             (''stall_cycles'', JUnsigned (sample_count ss_stall f)), (''stall_windows'', JUnsigned (length (sf_stalls f))),
             (''complete_packet_count'', JUnsigned (pa_complete p)), (''partial_packet_count'', JUnsigned (pa_partial p)),
             (''packet_count_status'', JString (if packet_enabled c then if pa_partial p \<noteq> 0 then ''ambiguous'' else ''exact'' else ''not_configured'')),
             (''control_xz_count'', JUnsigned control_xz), (''data_xz_count'', JUnsigned data_xz),
             (''ready_bp_conflict_count'', JUnsigned (sample_count ss_ready_bp_conflict f)),
             (''packet_stable_mismatch_count'', JUnsigned (pa_mismatches p)),
             (''requested_range'', JObject [(''begin'', time lo), (''end'', time hi)]),
             (''scanned_range'', JObject [(''begin'', time (if samples = [] then lo else ss_time (hd samples))),
                (''end'', time (if samples = [] then hi else ss_time (last samples)))]),
             (''filter_applied'', JBool filtered), (''scan_complete'', JBool (control_xz = 0)), (''analysis_complete'', JBool (\<not> incomplete)),
             (''response_truncated'', JBool truncated), (''total_count'', JUnsigned total_count), (''returned_count'', JUnsigned returned),
             (''truncation_scopes'', truncation_scopes query incomplete truncated)]))"

definition query_extras ::
  "stream_wave \<Rightarrow> time_render_unit \<Rightarrow> stream_config \<Rightarrow> string \<Rightarrow> nat \<Rightarrow> nat \<Rightarrow> query_view \<Rightarrow> members" where
  "query_extras wave unit c query returned unresolved v =
     (let time = (\<lambda>s. JString (aw_format_time wave (ss_time s) unit)); rows = qv_rows v; filtered = qv_filtered v in
      (if filtered then (''unresolved_filter_count'', JUnsigned unresolved) #
         (if packet_enabled c then [(''matched_packet_count'', JUnsigned (length (qv_packets v))), (''retained_packet_count'', JUnsigned (length (qv_packets v)))]
          else [(''matched_transfer_count'', JUnsigned (length rows))]) else []) @
      (if sc_edge c \<noteq> ''negedge'' then [(''sample_point'', JString (sc_sample_point c))] else []) @
      (if \<not> (filtered \<and> packet_enabled c) \<and> rows \<noteq> [] then
         (if query \<noteq> ''first_transfer'' then [(''first_transfer_time'', time (hd rows))] else []) @
         (if query \<noteq> ''last_transfer'' then [(''last_transfer_time'', time (last rows))] else []) else []) @
      (if qv_stalls v \<noteq> [] then [(''first_stall_time'', get_member (hd (qv_stalls v)) ''start_time''), (''last_stall_time'', get_member (last (qv_stalls v)) ''start_time'')]
       else []) @
      (if filtered \<or> returned > 0 \<and> query \<notin> {''summary'', ''first_stall'', ''last_stall'', ''stall_window''} then
         [(''value_width_complete'', JBool True), (''width_diagnostics'', JArray [])] else []))"

definition find_stream ::
  "stream_wave \<Rightarrow> stream_config \<Rightarrow> compiled_stream \<Rightarrow> u64 \<Rightarrow> u64 \<Rightarrow> value_render_format \<Rightarrow> time_render_unit \<Rightarrow> stream_found handled" where
  "find_stream wave c k lo hi format unit =
     rbind (scan_stream_samples wave c k (sw_time_idx_of wave lo) (sw_time_idx_of wave hi) format) (\<lambda>(samples, complete).
       Inr \<lparr>sf_samples = samples, sf_packets = scan_packets c wave unit (filter ss_transfer samples),
            sf_stalls = map (stall_json wave unit c samples) (stall_windows samples 0), sf_fields_complete = complete\<rparr>)"

definition select_stream :: "stream_wave \<Rightarrow> time_render_unit \<Rightarrow> stream_config \<Rightarrow> json \<Rightarrow> stream_found \<Rightarrow> (query_view \<times> json \<times> nat) handled" where
  "select_stream wave unit c args f =
     (let p = sf_packets f; ts = pa_transfers p; filtered = json_contains args ''filter'';
          packets = map (packet_json wave unit (sf_fields_complete f) ts) (ordered_packets p)
      in rbind (requested_channel args) (\<lambda>channel.
         rbind (keep_if (\<lambda>t. channel_matches channel (ss_channel_id t)) ts) (\<lambda>selected.
         rbind (if filtered then json_at args ''filter'' else Inr (JObject [])) (\<lambda>filt.
         rbind (filter_transfers (filtered \<and> \<not> packet_enabled c) filt selected) (\<lambda>(rows, n).
         rbind (channel_packets channel packets) (\<lambda>candidates.
           let filt = (if filtered \<and> packet_enabled c then with_position filt else filt)
           in rbind (filter_packets (filtered \<and> packet_enabled c) filt candidates) (\<lambda>(kept, m).
                Inr (\<lparr>qv_transfers = ts, qv_rows = rows, qv_stalls = sf_stalls f, qv_packets = kept, qv_filtered = filtered\<rparr>, filt, n + m))))))))"

definition stream_response ::
  "stream_wave \<Rightarrow> time_render_unit \<Rightarrow> stream_config \<Rightarrow> string \<Rightarrow> string \<Rightarrow> int \<Rightarrow> json \<Rightarrow> u64 \<Rightarrow> u64 \<Rightarrow> stream_found \<Rightarrow> json handled" where
  "stream_response wave unit c name query max_rows args lo hi f =
     rbind (select_stream wave unit c args f) (\<lambda>(v, filt, unresolved).
     rbind (stream_answer wave unit (packet_enabled c) query max_rows args v) (\<lambda>(total_count, returned, truncated, data).
     rbind (found_summary wave unit c name query lo hi (qv_filtered v) f (total_count, returned, truncated)) (\<lambda>summary.
       Inr (ok_response (summary @ query_extras wave unit c query returned unresolved v)
         (data @ (if qv_filtered v then [(''filter'', filt), (''notes'', JObject [(''unresolved_filter_count'', JString filter_note)])] else []))))))"

definition packet_queries :: "string list" where
  "packet_queries = [''first_packet'', ''last_packet'', ''packet_at'', ''packet_window'']"

definition stream_query :: "stream_env \<Rightarrow> stream_wave option \<Rightarrow> stream_state \<Rightarrow> json \<Rightarrow> json handled" where
  "stream_query env wave st req =
     (case wave of
        None \<Rightarrow> Inr (error_response ''WAVEFORM_NOT_LOADED'' (''action requires waveform file: '' @ ''stream.query''))
      | Some wave \<Rightarrow>
          rbind (json_value req ''args'' (JObject []) Inr) (\<lambda>args.
          rbind (string_at_key args ''stream'') (\<lambda>name.
          case get_config st name of Inl e \<Rightarrow> Inr e | Inr c \<Rightarrow>
          rbind (compile_stream_expressions wave c) (\<lambda>compiled.
          case compiled of Inl message \<Rightarrow> Inr (error_response ''CONFIG_SIGNAL_NOT_FOUND'' message) | Inr k \<Rightarrow>
          rbind (parse_time_range args (action_wave.truncate wave)) (\<lambda>times.
          case times of Inl e \<Rightarrow> Inr e | Inr (lo, hi) \<Rightarrow>
          rbind (json_value args ''line_limit'' 1000 get_u32) (\<lambda>max_rows.
          rbind (json_value args ''value_format'' ''hex'' get_string) (\<lambda>format_text.
          rbind (json_value args ''render_time_unit'' ''ns'' get_string) (\<lambda>unit_text.
          rbind (string_at_key args ''query'') (\<lambda>query.
            let format = (case parse_value_render_format format_text of None \<Rightarrow> Hex | Some f \<Rightarrow> f);
                unit = (case parse_time_render_unit unit_text of Inl e \<Rightarrow> se_unit env | Inr u \<Rightarrow> u)
            in if \<not> packet_enabled c \<and> query \<in> set packet_queries then
                 Inr (error_response ''PACKET_NOT_CONFIGURED'' ''stream has no sop/eop packet boundaries'')
               else rbind (stream_analysis_budget_error env c args) (\<lambda>budget.
                 case budget of Some e \<Rightarrow> Inr e | None \<Rightarrow>
                 rbind (find_stream wave c k lo hi format unit) (\<lambda>f.
                   stream_response wave unit c name query (sint max_rows) args lo hi f)))))))))))"

end
