(* ===== verification/Stream_Handlers.thy ===== *)
theory Stream_Handlers
  imports Stream_Query
begin

text \<open>
  The other stream requests: listing, reading and loading configurations, describing and validating a stream, and exporting a
  query as a table. Loading changes the store of configurations; an export returns the files it writes with their contents.
\<close>

section \<open>Configurations\<close>

definition recommendations :: json where
  "recommendations = JArray [
     JObject [(''action'', JString ''value.at''), (''purpose'', JString (utf8 [230, 140, 137, 228, 184, 128, 228, 184, 170, 230, 136, 150, 229, 164, 154, 228, 184, 170, 230, 140, 135, 229, 174, 154, 230, 151, 182,
       233, 151, 180, 232, 175, 187, 229, 143, 150, 229, 141, 149, 228, 191, 161, 229, 143, 183, 227, 128, 129, 229, 145, 189, 229, 144, 141, 228,
       191, 161, 229, 143, 183, 229, 136, 151, 232, 161, 168, 230, 136, 150, 230, 142, 165, 229, 143, 163, 233, 133, 141, 231, 189, 174, 231, 187,
       180, 230, 138, 164, 231, 154, 132, 229, 128, 188, 227, 128, 130]))],
     JObject [(''action'', JString ''stream.describe''), (''purpose'', JString (utf8 [230, 152, 190, 231, 164, 186] @ '' stream '' @ utf8 [229, 174, 154, 228, 185, 137, 229, 146, 140, 230, 145, 152, 232, 166, 129, 227,
       128, 130]))],
     JObject [(''action'', JString ''stream.validate''), (''purpose'', JString (utf8 [233, 170, 140, 232, 175, 129] @ '' stream '' @ utf8 [233, 133, 141, 231, 189, 174, 239, 188, 155, 229, 138, 168, 230, 128, 129, 233,
       170, 140, 232, 175, 129, 229, 143, 175, 230, 152, 190, 229, 188, 143, 233, 128, 137, 230, 139, 169] @ '' full '' @ utf8 [230, 136, 150] @ ''
       range '' @ utf8 [229, 159, 186, 231, 161, 128, 229, 136, 134, 230, 158, 144, 231, 188, 147, 229, 173, 152, 232, 140, 131, 229, 155, 180,
       227, 128, 130]))],
     JObject [(''action'', JString ''stream.query''), (''purpose'', JString (utf8 [230, 159, 165, 232, 175, 162, 233, 128, 154, 231, 148, 168] @ '' valid-ready transfer'' @ utf8 [227, 128, 129] @ ''stall '' @ utf8
       [230, 136, 150] @ '' packet'' @ utf8 [239, 188, 140, 229, 185, 182, 229, 175, 185, 229, 164, 154, 228, 184, 170, 232, 135, 170, 229, 174,
       154, 228, 185, 137, 229, 173, 151, 230, 174, 181, 230, 137, 167, 232, 161, 140] @ '' exact'' @ utf8 [227, 128, 129] @ ''range '' @ utf8
       [230, 136, 150] @ '' mask '' @ utf8 [232, 191, 135, 230, 187, 164, 227, 128, 130]))],
     JObject [(''action'', JString ''stream.export''), (''purpose'', JString (utf8 [228, 187, 142, 230, 152, 190, 229, 188, 143] @ '' full '' @ utf8 [230, 136, 150] @ '' range '' @ utf8 [229, 159, 186, 231, 161, 128,
       229, 136, 134, 230, 158, 144, 231, 188, 147, 229, 173, 152, 232, 140, 131, 229, 155, 180, 229, 175, 188, 229, 135, 186] @ '' stream '' @
       utf8 [230, 159, 165, 232, 175, 162, 231, 187, 147, 230, 158, 156, 227, 128, 130]))]]"

definition signal_status :: "stream_wave \<Rightarrow> string \<times> string \<Rightarrow> bool \<times> json" where
  "signal_status wave = (\<lambda>(alias, path).
     let ref = wf_find_signal wave path;
         signal = [(''alias'', JString alias), (''requested_path'', JString path)];
         missing = (False, JObject (signal @ [(''status'', JString ''signal_not_found'')]))
     in if ref = 0 then missing
        else case wf_signal_info wave ref of
               None \<Rightarrow> missing
             | Some info \<Rightarrow> (True, JObject (signal @ [(''status'', JString ''ok''), (''resolved_path'', JString path), (''width'', JUnsigned (unat (si_width info)))])))"

definition signals_ok :: "stream_wave \<Rightarrow> stream_config \<Rightarrow> bool" where
  "signals_ok wave c = list_all (\<lambda>s. fst (signal_status wave s)) (sc_signals c)"

definition validate_stream :: "stream_wave \<Rightarrow> stream_config \<Rightarrow> bool \<Rightarrow> json handled" where
  "validate_stream wave c include_stream =
     rbind (json_at (sc_source c) ''clock'') (\<lambda>clock. Inr (JObject
       ([(''status'', JString (if signals_ok wave c then ''ok'' else ''error'')), (''signals'', JArray (map (\<lambda>s. snd (signal_status wave s)) (sc_signals c))),
         (''sampling'', JObject [(''clock'', clock), (''edge'', JString (sc_edge c)),
            (''sample_point'', if sc_edge c = ''negedge'' then JNull else JString (sc_sample_point c))]),
         (''packet_rules'', JObject [(''packet_enabled'', JBool (packet_enabled c)), (''channel_id_valid'', JString (sc_channel_id_valid c)),
            (''allow_interleaving'', JBool (sc_allow_interleaving c))])] @
        (if include_stream then [(''stream'', JString (sc_name c))] else []))))"

definition stream_item :: "bool \<Rightarrow> stream_config \<Rightarrow> json handled" where
  "stream_item verbose c =
     rbind (json_at (sc_source c) ''clock'') (\<lambda>clock. Inr (JObject
       ([(''name'', JString (sc_name c)), (''sampling_mode'', JString ''clock_edge''), (''clock'', clock), (''edge'', JString (sc_edge c)),
         (''handshake'', JString (stream_handshake c)), (''packet'', JString (if packet_enabled c then ''sop/eop'' else ''none'')),
         (''field_count'', JUnsigned (json_size (sc_beat_fields c) + json_size (sc_packet_stable_fields c) +
            (if json_contains (sc_source c) ''data'' then 1 else 0))),
         (''channel_id_valid'', JString (sc_channel_id_valid c)), (''allow_interleaving'', JBool (sc_allow_interleaving c))] @
        (if sc_edge c \<noteq> ''negedge'' then [(''sample_point'', JString (sc_sample_point c))] else []) @
        (if verbose then [(''config'', config_to_json c)] else []))))"

fun handle_all :: "('a \<Rightarrow> 'b handled) \<Rightarrow> 'a list \<Rightarrow> 'b list handled" where
  "handle_all f [] = Inr []"
| "handle_all f (x # xs) = rbind (f x) (\<lambda>y. rbind (handle_all f xs) (\<lambda>ys. Inr (y # ys)))"

definition waveform_missing :: "string \<Rightarrow> json" where
  "waveform_missing action = error_response ''WAVEFORM_NOT_LOADED'' (''action requires waveform file: '' @ action)"

definition stream_config_list :: "stream_wave option \<Rightarrow> stream_state \<Rightarrow> json \<Rightarrow> json handled" where
  "stream_config_list wave st req =
     (if wave = None then Inr (waveform_missing ''stream.config.list'')
      else
        rbind (json_value req ''args'' (JObject []) Inr) (\<lambda>args.
        rbind (json_value args ''output'' (JObject []) Inr) (\<lambda>output.
        rbind (json_value output ''verbose'' False get_bool) (\<lambda>verbose.
        rbind (handle_all (stream_item verbose) (map snd st)) (\<lambda>items.
          Inr (ok_response [(''count'', JUnsigned (length items))] [(''streams'', JArray items)]))))))"

definition stream_config_get :: "stream_wave option \<Rightarrow> stream_state \<Rightarrow> json \<Rightarrow> json handled" where
  "stream_config_get wave st req =
     (if wave = None then Inr (waveform_missing ''stream.config.get'')
      else
        rbind (json_value req ''args'' (JObject []) Inr) (\<lambda>args.
        rbind (string_at_key args ''name'') (\<lambda>name.
          Inr (case get_config st name of
                 Inl e \<Rightarrow> e
               | Inr c \<Rightarrow> ok_response [(''name'', JString name)] [(''stream'', config_to_json c)]))))"

definition complex_clock_issue :: members where
  "complex_clock_issue = [(''code'', JString ''CLOCK_COMPLEX''),
     (''message'', JString ''clock expression is not a plain signal; edge detection uses expression dependency changes''), (''severity'', JString ''WARNING'')]"

definition clock_is_complex :: "stream_config \<Rightarrow> string \<Rightarrow> bool" where
  "clock_is_complex c clock \<longleftrightarrow> omap_find clock (sc_signals c) = None"

record load_results =
  lr_names :: "json list"
  lr_validations :: "json list"
  lr_issues :: "json list"

text \<open>
  The streams of a document are stored one after the other. An error or an exception stops the loop and leaves the store as it is
  then, so the loop returns the store with every outcome.
\<close>

fun stream_load_loop :: "stream_wave \<Rightarrow> json list \<Rightarrow> stream_state \<Rightarrow> load_results \<Rightarrow> (json + load_results) handled \<times> stream_state" where
  "stream_load_loop wave [] st r = (Inr (Inr r), st)"
| "stream_load_loop wave (item # items) st r =
     (case parse_stream item of
        Inl e \<Rightarrow> (Inl e, st)
      | Inr (Inl message) \<Rightarrow> (Inr (Inl (invalid_stream_config_error message)), st)
      | Inr (Inr c) \<Rightarrow>
          (case validate_stream wave c True of
             Inl e \<Rightarrow> (Inl e, st)
           | Inr validation \<Rightarrow>
               if \<not> signals_ok wave c then (Inr (Inl (error_response ''CONFIG_SIGNAL_NOT_FOUND'' ''stream config signal not found'')), st)
               else
                 (case string_at_key item ''clock'' of
                    Inl e \<Rightarrow> (Inl e, st)
                  | Inr clock \<Rightarrow>
                      stream_load_loop wave items (omap_set (sc_name c) c st)
                        \<lparr>lr_names = lr_names r @ [JString (sc_name c)], lr_validations = lr_validations r @ [validation],
                         lr_issues = lr_issues r @ (if clock_is_complex c clock then [JObject (complex_clock_issue @ [(''stream'', JString (sc_name c))])] else [])\<rparr>)))"

definition stream_document :: "(string \<Rightarrow> config_file) \<Rightarrow> json \<Rightarrow> (json + json) handled" where
  "stream_document read_json args =
     (if json_contains args ''config'' then rbind (json_at args ''config'') (\<lambda>v. Inr (Inr v))
      else rbind (string_at_key args ''config_path'') (\<lambda>path. Inr (case read_json path of
             Unreadable \<Rightarrow> Inl (error_response ''INVALID_FIELD'' ''cannot read stream config_path'')
           | Bad_Json what \<Rightarrow> Inl (error_response ''INVALID_FIELD'' ''invalid stream config JSON'')
           | Parsed v \<Rightarrow> Inr v)))"

definition stream_config_load ::
  "(string \<Rightarrow> config_file) \<Rightarrow> stream_wave option \<Rightarrow> stream_state \<Rightarrow> json \<Rightarrow> json handled \<times> stream_state" where
  "stream_config_load read_json wave st req =
     (case wave of
        None \<Rightarrow> (Inr (waveform_missing ''stream.config.load''), st)
      | Some wave \<Rightarrow>
          (case rbind (json_value req ''args'' (JObject []) Inr) (\<lambda>args.
                rbind (stream_document read_json args) (\<lambda>document.
                  case document of
                    Inl e \<Rightarrow> Inr (Inl e)
                  | Inr document \<Rightarrow> rbind (json_value args ''mode'' ''replace'' get_string) (\<lambda>mode. Inr (Inr (document, mode))))) of
             Inl e \<Rightarrow> (Inl e, st)
           | Inr (Inl e) \<Rightarrow> (Inr e, st)
           | Inr (Inr (document, mode)) \<Rightarrow>
               let st = (if mode = ''replace'' then [] else st)
               in (case json_at document ''streams'' of
                     Inl e \<Rightarrow> (Inl e, st)
                   | Inr streams \<Rightarrow>
                       (case stream_load_loop wave (json_items streams) st \<lparr>lr_names = [], lr_validations = [], lr_issues = []\<rparr> of
                          (Inl e, st) \<Rightarrow> (Inl e, st)
                        | (Inr (Inl e), st) \<Rightarrow> (Inr e, st)
                        | (Inr (Inr r), st) \<Rightarrow>
                            (Inr (ok_response [(''loaded'', JUnsigned (length (lr_names r))), (''mode'', JString mode)]
                               [(''streams'', JArray (lr_names r)), (''issues'', JArray (lr_issues r)), (''validation'', JArray (lr_validations r)),
                                (''recommended_actions'', recommendations)]), st)))))"

definition stream_describe :: "stream_wave option \<Rightarrow> stream_state \<Rightarrow> json \<Rightarrow> json handled" where
  "stream_describe wave st req =
     (case wave of
        None \<Rightarrow> Inr (waveform_missing ''stream.describe'')
      | Some wave \<Rightarrow>
          rbind (json_value req ''args'' (JObject []) Inr) (\<lambda>args.
          rbind (string_at_key args ''stream'') (\<lambda>name.
            case get_config st name of
              Inl e \<Rightarrow> Inr e
            | Inr c \<Rightarrow>
                rbind (validate_stream wave c False) (\<lambda>validation.
                rbind (string_at_key (sc_source c) ''clock'') (\<lambda>clock.
                  Inr (ok_response [(''stream'', JString name), (''handshake'', JString (stream_handshake c)), (''packet_enabled'', JBool (packet_enabled c))]
                    [(''config'', config_to_json c), (''issues'', JArray (if clock_is_complex c clock then [JObject complex_clock_issue] else [])),
                     (''validation'', validation),
                     (''semantics'', JObject [(''transfer'', JString (stream_handshake c)),
                        (''stall'', JString (if sc_ready c = [] \<and> sc_backpressure c = [] then ''none'' else ''enabled''))])]))))))"

section \<open>Validation\<close>

definition copied_members :: "string list \<Rightarrow> json \<Rightarrow> members" where
  "copied_members ks base = map (\<lambda>k. (k, get_member base k)) (filter (json_contains base) ks)"

definition scan_keys :: "string list" where
  "scan_keys = [''stream'', ''sampling_mode'', ''clock'', ''edge'', ''sample_point'', ''sample_time_semantics'', ''handshake'', ''packet_enabled'', ''clock_edges'',
     ''vld_cycles'', ''transfer_count'', ''stall_cycles'', ''stall_windows'', ''complete_packet_count'', ''partial_packet_count'', ''packet_count_status'',
     ''control_xz_count'', ''data_xz_count'', ''ready_bp_conflict_count'', ''packet_stable_mismatch_count'', ''requested_range'', ''scanned_range'',
     ''first_transfer_time'', ''last_transfer_time'', ''first_stall_time'', ''last_stall_time'']"

definition issue :: "string \<Rightarrow> string \<Rightarrow> string \<Rightarrow> json" where
  "issue code severity message = JObject [(''code'', JString code), (''severity'', JString severity), (''message'', JString message)]"

definition dynamic_issue :: "json \<Rightarrow> string \<times> string \<times> string \<Rightarrow> json list handled" where
  "dynamic_issue base = (\<lambda>(counter, code, message).
     rbind (json_value base counter 0 get_u32) (\<lambda>n. Inr (if n > 0 then [issue code ''WARNING'' message] else [])))"

definition dynamic_checks :: "(string \<times> string \<times> string) list" where
  "dynamic_checks =
     [(''control_xz_count'', ''control_xz'', ''stream control signals contain X/Z at sampled clock edges''),
      (''data_xz_count'', ''data_xz'', ''stream transfer data contains X/Z''),
      (''ready_bp_conflict_count'', ''READY_BP_CONFLICT'', ''observed vld=1,rdy=1,bp=1''),
      (''packet_stable_mismatch_count'', ''PACKET_STABLE_FIELD_MISMATCH'', ''observed packet_stable_fields changing within packet'')]"

definition without_members :: "string list \<Rightarrow> json \<Rightarrow> members" where
  "without_members ks v = filter (\<lambda>(k, w). k \<notin> set ks) (object_members v)"

text \<open>The members of the dynamic part, the two completeness flags and the further issues; or the answer of the query that failed.\<close>

definition dynamic_validation ::
  "stream_env \<Rightarrow> stream_wave option \<Rightarrow> stream_state \<Rightarrow> json \<Rightarrow> (json + members \<times> bool \<times> bool \<times> json list) handled" where
  "dynamic_validation env wave st args =
     rbind (stream_query env wave st (JObject [(''args'', JObject (member_set (without_members [''dynamic''] args) ''query'' (JString ''summary'')))])) (\<lambda>analyzed.
     rbind (json_value analyzed ''ok'' False get_bool) (\<lambda>ok.
       if \<not> ok then Inr (Inl analyzed)
       else
         rbind (json_at analyzed ''summary'') (\<lambda>base.
         rbind (rbind (json_at base ''scan_complete'') get_bool) (\<lambda>scan_complete.
         rbind (rbind (json_at base ''analysis_complete'') get_bool) (\<lambda>analysis_complete.
         rbind (handle_all (dynamic_issue base) dynamic_checks) (\<lambda>issues.
           Inr (Inr (copied_members scan_keys base, scan_complete, analysis_complete, concat issues))))))))"

definition validation_response :: "string \<Rightarrow> bool \<Rightarrow> bool \<Rightarrow> nat \<Rightarrow> json list \<Rightarrow> members \<times> bool \<times> bool \<Rightarrow> json" where
  "validation_response name ok requested_dynamic limit issues = (\<lambda>(dynamic, scan_complete, analysis_complete).
     let returned = take limit issues; truncated = length returned < length issues
     in ok_response
          [(''stream'', JString name), (''ok'', JBool ok), (''static_validation_complete'', JBool True), (''dynamic_requested'', JBool requested_dynamic),
           (''scan_complete'', JBool scan_complete), (''analysis_complete'', JBool analysis_complete), (''response_truncated'', JBool truncated),
           (''total_count'', JUnsigned (length issues)), (''returned_count'', JUnsigned (length returned)),
           (''truncation_scopes'', JArray ((if requested_dynamic \<and> (\<not> scan_complete \<or> \<not> analysis_complete) then [JString ''analysis_samples''] else []) @
              (if truncated then [JString ''response_issues''] else [])))]
          [(''issues'', JArray returned), (''dynamic'', JObject dynamic)])"

definition stream_validate :: "stream_env \<Rightarrow> stream_wave option \<Rightarrow> stream_state \<Rightarrow> json \<Rightarrow> json handled" where
  "stream_validate env wave st req =
     (case wave of
        None \<Rightarrow> Inr (waveform_missing ''stream.validate'')
      | Some w \<Rightarrow>
          rbind (json_value req ''args'' (JObject []) Inr) (\<lambda>args.
          rbind (string_at_key args ''stream'') (\<lambda>name.
            case get_config st name of
              Inl e \<Rightarrow> Inr e
            | Inr c \<Rightarrow>
                rbind (validate_stream w c False) (\<lambda>validation.
                rbind (string_at_key (sc_source c) ''clock'') (\<lambda>clock.
                rbind (json_value args ''dynamic'' True get_bool) (\<lambda>requested_dynamic.
                  let ok = signals_ok w c;
                      issues = (if ok then [] else [issue ''signal_not_found'' ''ERROR'' ''stream contains unresolved signals'']) @
                               (if clock_is_complex c clock then [JObject complex_clock_issue] else [])
                  in rbind (if requested_dynamic \<and> ok then dynamic_validation env wave st args else Inr (Inr ([], ok, ok, []))) (\<lambda>dynamic.
                     case dynamic of
                       Inl e \<Rightarrow> Inr e
                     | Inr (ms, scan_complete, analysis_complete, more_issues) \<Rightarrow>
                         rbind (json_value args ''line_limit'' 1000 get_u32) (\<lambda>limit.
                           Inr (validation_response name ok requested_dynamic (unat limit) (issues @ more_issues) (ms, scan_complete, analysis_complete))))))))))"

section \<open>Export\<close>

definition number_cell :: "stream_env \<Rightarrow> string \<Rightarrow> json \<Rightarrow> string handled" where
  "number_cell env k row = rbind (json_at row k) (\<lambda>v. Inr (se_dump env v))"

definition flag_cell :: "string \<Rightarrow> json \<Rightarrow> string handled" where
  "flag_cell k row = rbind (rbind (json_at row k) get_bool) (\<lambda>b. Inr (if b then ''1'' else ''0''))"

definition channel_cell :: "json \<Rightarrow> string handled" where
  "channel_cell row = (case json_get row ''channel_id'' of None \<Rightarrow> Inr [] | Some v \<Rightarrow> json_value v ''value'' [] get_string)"

definition stream_value_text :: "string \<Rightarrow> string \<Rightarrow> json \<Rightarrow> string handled" where
  "stream_value_text member field owner =
     (case json_get owner member of
        None \<Rightarrow> Inr []
      | Some ms \<Rightarrow> (case json_get ms field of None \<Rightarrow> Inr [] | Some v \<Rightarrow> json_value v ''value'' [] get_string))"

definition partial_cell :: "json \<Rightarrow> string handled" where
  "partial_cell row =
     rbind (rbind (json_at row ''partial_begin'') get_bool) (\<lambda>b.
       if b then Inr ''true'' else rbind (rbind (json_at row ''partial_end'') get_bool) (\<lambda>e. Inr (if e then ''true'' else ''false'')))"

definition mismatch_cell :: "(nat \<Rightarrow> string) \<Rightarrow> json \<Rightarrow> string handled" where
  "mismatch_cell decimal row = rbind (json_at row ''packet_stable_mismatches'') (\<lambda>v. Inr (decimal (json_size v)))"

type_synonym column = "string \<times> (json \<Rightarrow> string handled)"

definition transfer_columns :: "stream_env \<Rightarrow> stream_config \<Rightarrow> string list \<Rightarrow> column list" where
  "transfer_columns env c beat_fields =
     [(''cycle'', number_cell env ''cycle''), (''time'', \<lambda>row. string_at_key row ''time'')] @
     map (\<lambda>k. (k, flag_cell k)) [''transfer'', ''stall'', ''vld'', ''rdy'', ''bp'', ''sop'', ''eop''] @
     (if sc_channel_id c = [] then [] else [(''channel_id'', channel_cell)]) @
     map (\<lambda>f. (f, stream_value_text ''fields'' f)) beat_fields"

definition packet_columns :: "stream_env \<Rightarrow> string list \<Rightarrow> string list \<Rightarrow> column list" where
  "packet_columns env beat_fields stable_names =
     [(''packet_index'', number_cell env ''packet_index''), (''channel_id'', channel_cell), (''start_time'', \<lambda>row. string_at_key row ''start_time''),
      (''end_time'', \<lambda>row. string_at_key row ''end_time''), (''start_cycle'', number_cell env ''start_cycle''), (''end_cycle'', number_cell env ''end_cycle''),
      (''beat_count'', number_cell env ''beat_count''), (''partial'', partial_cell),
      (''packet_stable_mismatch_count'', mismatch_cell (\<lambda>n. se_dump env (JUnsigned n)))] @
     map (\<lambda>f. (''packet_stable_'' @ f, stream_value_text ''packet_stable_fields'' f)) stable_names @
     concat (map (\<lambda>f. [(''first_'' @ f, stream_value_text ''first_fields'' f), (''last_'' @ f, stream_value_text ''last_fields'' f)]) beat_fields)"

definition beat_columns :: "stream_env \<Rightarrow> string list \<Rightarrow> string list \<Rightarrow> column list" where
  "beat_columns env beat_fields stable_names =
     [(''packet_index'', number_cell env ''packet_index''), (''channel_id'', channel_cell), (''beat_index'', number_cell env ''beat_index''),
      (''cycle'', number_cell env ''cycle''), (''time'', \<lambda>row. string_at_key row ''time'')] @
     map (\<lambda>f. (f, stream_value_text ''fields'' f)) beat_fields @
     map (\<lambda>f. (''packet_stable_'' @ f, stream_value_text ''packet_stable_fields'' f)) stable_names"

fun line_of :: "char \<Rightarrow> string list \<Rightarrow> string" where
  "line_of separator [] = [CHR 0x0A]"
| "line_of separator [cell] = cell @ [CHR 0x0A]"
| "line_of separator (cell # cells) = cell @ separator # line_of separator cells"

definition table_text :: "char \<Rightarrow> column list \<Rightarrow> json list \<Rightarrow> string handled" where
  "table_text separator columns rows =
     rbind (handle_all (\<lambda>row. handle_all (\<lambda>(name, cell). cell row) columns) rows) (\<lambda>lines.
       Inr (line_of separator (map fst columns) @ concat (map (line_of separator) lines)))"

definition beat_field_names :: "stream_config \<Rightarrow> string list" where
  "beat_field_names c =
     (if json_contains (sc_source c) ''data'' then [''data''] else []) @
     filter (\<lambda>k. \<not> (json_contains (sc_source c) ''data'' \<and> k = ''data'')) (map fst (object_items (sc_beat_fields c)))"

definition meta_summary :: "json \<Rightarrow> json" where
  "meta_summary base = JObject (copied_members [''stream'', ''sampling_mode'', ''clock'', ''edge'', ''sample_point'', ''sample_time_semantics'', ''handshake'',
     ''packet_enabled'', ''clock_edges'', ''vld_cycles'', ''transfer_count'', ''stall_cycles'', ''stall_windows'', ''complete_packet_count'',
     ''partial_packet_count'', ''packet_count_status'', ''control_xz_count'', ''data_xz_count'', ''ready_bp_conflict_count'', ''packet_stable_mismatch_count'',
     ''scan_complete'', ''analysis_complete'', ''response_truncated'', ''total_count'', ''returned_count'', ''truncation_scopes'',
     ''requested_range'', ''scanned_range'', ''first_transfer_time'', ''last_transfer_time'', ''first_stall_time'', ''last_stall_time''] base)"

definition meta_fields :: "stream_config \<Rightarrow> json" where
  "meta_fields c =
     (let entry = (\<lambda>name expr scope. JObject [(''name'', JString name), (''expr'', expr), (''scope'', JString scope)])
      in JArray ((if json_contains (sc_source c) ''data'' then [entry ''data'' (get_member (sc_source c) ''data'') ''beat''] else []) @
           map (\<lambda>(k, v). entry k v ''beat'') (object_items (sc_beat_fields c)) @
           map (\<lambda>(k, v). entry k v ''packet_stable'') (object_items (sc_packet_stable_fields c))))"

definition export_meta :: "stream_config \<Rightarrow> string \<Rightarrow> string \<Rightarrow> nat \<Rightarrow> json \<Rightarrow> json" where
  "export_meta c name kind rows base =
     JObject ([(''stream'', JString name), (''kind'', JString kind)] @
       copied_members [''sampling_mode'', ''clock'', ''edge'', ''sample_point'', ''sample_time_semantics'', ''handshake'', ''packet_enabled''] base @
       [(''row_count'', JUnsigned rows), (''summary'', meta_summary base), (''fields'', meta_fields c)])"

text \<open>When one of the two files cannot be opened the other may be left empty; this is not recorded.\<close>

type_synonym written_files = "(string \<times> string) list"

definition exported_files ::
  "stream_env \<Rightarrow> stream_config \<Rightarrow> string \<Rightarrow> string \<Rightarrow> json \<Rightarrow> json list \<Rightarrow> json \<Rightarrow> (json + json \<times> written_files) handled" where
  "exported_files env c name kind output rows base =
     rbind (string_at_key output ''path'') (\<lambda>path.
     rbind (json_value output ''file_format'' ''tsv'' get_string) (\<lambda>file_format.
       let meta_path = path @ ''.meta.json'';
           beat_names = beat_field_names c; stable_names = map fst (object_items (sc_packet_stable_fields c));
           columns = (if kind = ''transfer'' then transfer_columns env c beat_names
                      else if kind = ''packet'' then packet_columns env beat_names stable_names else beat_columns env beat_names stable_names)
       in if \<not> se_opens env path \<or> \<not> se_opens env meta_path then
            Inr (Inl (error_response ''OUTPUT_WRITE_FAILED'' ''cannot open stream export output''))
          else rbind (table_text (if file_format = ''csv'' then CHR '','' else CHR 0x09) columns rows) (\<lambda>table.
            Inr (Inr (JObject [(''path'', JString path), (''meta_path'', JString meta_path), (''file_format'', JString file_format)],
              [(path, table), (meta_path, se_pretty env (export_meta c name kind (length rows) base) @ [CHR 0x0A])])))))"

definition export_summary :: "json \<Rightarrow> string \<Rightarrow> nat \<Rightarrow> nat \<Rightarrow> nat \<Rightarrow> json option \<Rightarrow> members" where
  "export_summary base kind line_limit row_count returned output =
     (let truncated = (output = None \<and> returned < row_count)
      in copied_members (scan_keys @ [''scan_complete'', ''analysis_complete'']) base @
         [(''response_truncated'', JBool truncated), (''total_count'', JUnsigned row_count), (''returned_count'', JUnsigned returned),
          (''truncation_scopes'', JArray (if truncated then [JString ''response_preview''] else [])),
          (''status'', JString (if output = None then ''preview'' else ''written'')), (''output_written'', JBool (output \<noteq> None)),
          (''row_count'', JUnsigned row_count), (''line_limit'', JUnsigned line_limit), (''kind'', JString kind)] @
         (case output of
            Some v \<Rightarrow> [(''output'', v)]
          | None \<Rightarrow> copied_members [''value_width_complete'', ''width_diagnostics''] base))"

text \<open>The query of an export, and the rows it returns.\<close>

definition export_query :: "stream_env \<Rightarrow> stream_wave option \<Rightarrow> stream_state \<Rightarrow> json \<Rightarrow> nat \<Rightarrow> string \<Rightarrow> json handled" where
  "export_query env wave st args limit query =
     stream_query env wave st (JObject [(''args'', JObject (member_set (member_set (without_members [''kind'', ''output''] args)
       ''line_limit'' (JUnsigned limit)) ''query'' (JString query)))])"

definition export_rows :: "string \<Rightarrow> json \<Rightarrow> json list handled" where
  "export_rows kind analyzed =
     rbind (json_at analyzed ''data'') (\<lambda>data.
     rbind (json_at data (if kind = ''packet'' then ''packets'' else ''rows'')) (\<lambda>v. Inr (json_items v)))"

definition stream_export :: "stream_env \<Rightarrow> stream_wave option \<Rightarrow> stream_state \<Rightarrow> json \<Rightarrow> (json \<times> written_files) handled" where
  "stream_export env wave st req =
     (case wave of
        None \<Rightarrow> Inr (waveform_missing ''stream.export'', [])
      | Some w \<Rightarrow>
          rbind (json_value req ''args'' (JObject []) Inr) (\<lambda>args.
          rbind (string_at_key args ''stream'') (\<lambda>name.
            case get_config st name of
              Inl e \<Rightarrow> Inr (e, [])
            | Inr c \<Rightarrow>
                let written = (json_contains args ''output'' \<and> json_contains (get_member args ''output'') ''path'') in
                rbind (json_value args ''kind'' ''transfer'' get_string) (\<lambda>kind.
                rbind (json_value args ''line_limit'' 16 get_u32) (\<lambda>line_limit.
                let limit = (if written then 2147483647 else unat line_limit) in
                rbind (export_query env wave st args limit (if kind = ''packet'' then ''packet_window'' else ''transfer_window'')) (\<lambda>analyzed.
                rbind (json_value analyzed ''ok'' False get_bool) (\<lambda>ok.
                if \<not> ok then Inr (analyzed, [])
                else rbind (export_rows kind analyzed) (\<lambda>rows.
                  rbind (if written \<and> kind = ''packet'' then export_query env wave st args limit ''transfer_window'' else Inr analyzed) (\<lambda>meta.
                  rbind (json_value meta ''ok'' False get_bool) (\<lambda>meta_ok.
                  if \<not> meta_ok then Inr (meta, [])
                  else rbind (json_at meta ''summary'') (\<lambda>meta_base.
                    rbind (if written then rbind (exported_files env c name kind (get_member args ''output'') rows meta_base) (\<lambda>r.
                              Inr (case r of Inl e \<Rightarrow> Inl e | Inr (output, files) \<Rightarrow> Inr (Some output, files)))
                           else Inr (Inr (None, []))) (\<lambda>exported.
                      case exported of
                        Inl e \<Rightarrow> Inr (e, [])
                      | Inr (output, files) \<Rightarrow>
                          rbind (json_at analyzed ''summary'') (\<lambda>base.
                          rbind (rbind (json_at base ''total_count'') get_u64) (\<lambda>row_count.
                            Inr (ok_response (export_summary base kind (unat line_limit) (unat row_count) (length rows) output)
                              (if written then [] else [(''preview'', JArray rows)]), files)))))))))))))))"

end
