(* ===== verification/Action_Common.thy ===== *)
theory Action_Common
  imports Stream_Handlers
begin

text \<open>
  What the handlers of \<open>engine/actions/waveform\<close> share: requests that name an object, early returns with an error response,
  the unit in which times are rendered, and values of every kind as JSON. A step of a handler raises, answers with an error
  response, or goes on with a value.
\<close>

section \<open>Early returns\<close>

type_synonym 'a answered = "(json + 'a) handled"

definition abind :: "('e + 'a) handled \<Rightarrow> ('a \<Rightarrow> ('e + 'b) handled) \<Rightarrow> ('e + 'b) handled" where
  "abind r f = rbind r (\<lambda>x. case x of Inl e \<Rightarrow> Inr (Inl e) | Inr y \<Rightarrow> f y)"

definition responded :: "json answered \<Rightarrow> json handled" where
  "responded r = rbind r (\<lambda>x. Inr (case x of Inl e \<Rightarrow> e | Inr v \<Rightarrow> v))"

text \<open>The response and the state: an error leaves the state as it was, a result brings its own.\<close>

definition settle :: "'s \<Rightarrow> (json \<times> 's) answered \<Rightarrow> json handled \<times> 's" where
  "settle st r = (case r of Inl e \<Rightarrow> (Inl e, st) | Inr (Inl e) \<Rightarrow> (Inr e, st) | Inr (Inr (v, st')) \<Rightarrow> (Inr v, st'))"

definition with_wave :: "string \<Rightarrow> 'w option \<Rightarrow> 'w answered" where
  "with_wave action wave = Inr (case wave of None \<Rightarrow> Inl (waveform_missing action) | Some w \<Rightarrow> Inr w)"

definition request_args :: "json \<Rightarrow> json answered" where
  "request_args req = rbind (json_value req ''args'' (JObject []) Inr) (\<lambda>args. Inr (Inr args))"

definition request_name :: "string \<Rightarrow> json \<Rightarrow> string answered" where
  "request_name action args =
     rbind (json_value args ''name'' [] get_string) (\<lambda>name.
       Inr (if name = [] then Inl (error_response ''MISSING_FIELD'' (''args.name is required for '' @ action)) else Inr name))"

definition cursor_render_unit :: "json \<Rightarrow> time_render_unit answered" where
  "cursor_render_unit args =
     rbind (json_value args ''render_time_unit'' ''ns'' get_string) (\<lambda>text.
       Inr (case parse_time_render_unit text of Inl message \<Rightarrow> Inl (error_response ''INVALID_TIME_UNIT'' message) | Inr unit \<Rightarrow> Inr unit))"

definition value_format :: "json \<Rightarrow> value_render_format answered" where
  "value_format args =
     rbind (json_value args ''value_format'' ''hex'' get_string) (\<lambda>text.
       Inr (Inr (case parse_value_render_format text of None \<Rightarrow> Hex | Some f \<Rightarrow> f)))"

text \<open>The bounds of the range, and the error code when they are in the wrong order.\<close>

definition range_bounds :: "action_wave \<Rightarrow> json \<Rightarrow> string \<times> string \<Rightarrow> (u64 \<times> u64) answered" where
  "range_bounds wave range_json disorder =
     abind (time_bound wave range_json ''begin'' False (aw_min_time wave)) (\<lambda>lo.
     abind (time_bound wave range_json ''end'' True (aw_max_time wave)) (\<lambda>hi.
       Inr (if lo > hi then Inl (error_response (fst disorder) (snd disorder)) else Inr (lo, hi))))"

definition is_substring :: "string \<Rightarrow> string \<Rightarrow> bool" where
  "is_substring p s \<longleftrightarrow> list_ex (\<lambda>i. starts_with p (drop i s)) [0..<length s + 1]"

section \<open>Floating-point values\<close>

text \<open>
  The value of a \<open>double\<close> as an integer times a power of two, from the fields of its bit pattern; \<open>std::to_string\<close> prints it
  with six digits after the point, rounded to the nearest and to even when two are as near, and equality is that of the
  values, so that zeros are equal and a NaN is not equal to itself.
\<close>

definition double_parts :: "double \<Rightarrow> bool \<times> nat \<times> nat" where
  "double_parts d = (case d of Double w \<Rightarrow> (bit w 63, unat (take_bit 11 (drop_bit 52 w)), unat (take_bit 52 w)))"

definition double_nan :: "double \<Rightarrow> bool" where
  "double_nan d = (case double_parts d of (neg, e, m) \<Rightarrow> e = 2047 \<and> m \<noteq> 0)"

definition double_eq :: "double \<Rightarrow> double \<Rightarrow> bool" where
  "double_eq a b \<longleftrightarrow> \<not> double_nan a \<and> \<not> double_nan b \<and> (a = b \<or> snd (double_parts a) = (0, 0) \<and> snd (double_parts b) = (0, 0))"

definition round_even :: "nat \<Rightarrow> nat \<Rightarrow> nat" where
  "round_even n d = (let q = n div d; r = n mod d in if 2 * r < d \<or> 2 * r = d \<and> even q then q else q + 1)"

definition double_text :: "double \<Rightarrow> string" where
  "double_text d =
     (case double_parts d of (neg, e, m) \<Rightarrow>
        (if neg then ''-'' else []) @
        (if e = 2047 then (if m = 0 then ''inf'' else ''nan'')
         else
           let mantissa = (if e = 0 then m else 2 ^ 52 + m);
               shift = (if e = 0 then 1 else e);
               micros = (if shift \<ge> 1075 then mantissa * 2 ^ (shift - 1075) * 1000000 else round_even (mantissa * 1000000) (2 ^ (1075 - shift)));
               frac = dec_digits (micros mod 1000000)
           in dec_digits (micros div 1000000) @ ''.'' @ replicate (6 - length frac) (CHR ''0'') @ frac))"

section \<open>Values\<close>

definition signal_info_init :: signal_info where
  "signal_info_init = \<lparr>si_encoding = BitVector, si_num_changes = 0, si_max_states = 2, si_width = 0, si_bytes_per_entry = 0, si_has_meta_byte = False\<rparr>"

definition render_value_json :: "string \<Rightarrow> u32 \<Rightarrow> value_render_format \<Rightarrow> json" where
  "render_value_json bits width format = logic_value_json (logic_value_from_bits bits (sint width)) format"

definition render_typed_value_json :: "waveform_value \<Rightarrow> u32 \<Rightarrow> value_render_format \<Rightarrow> json" where
  "render_typed_value_json v width format =
     (case wv_kind v of
        BitVector \<Rightarrow> render_value_json (wv_text v) width format
      | Real \<Rightarrow> JObject [(''value'', JString (double_text (wv_real v))), (''known'', JBool True)]
      | Event \<Rightarrow> JObject [(''value'', JString ''event''), (''known'', JBool True)]
      | String_value \<Rightarrow> JObject [(''value'', JString (wv_text v)), (''known'', JBool True)])"

definition waveform_values_equal :: "waveform_value \<Rightarrow> waveform_value \<Rightarrow> bool" where
  "waveform_values_equal a b \<longleftrightarrow> wv_kind a = wv_kind b \<and> (if wv_kind a = Real then double_eq (wv_real a) (wv_real b) else wv_text a = wv_text b)"

text \<open>The signal, which must be in the waveform; it is then loaded, and the record of the waveform describes loaded signals.\<close>

definition wanted_signal :: "stream_wave \<Rightarrow> string \<Rightarrow> json \<Rightarrow> signal_ref answered" where
  "wanted_signal wave signal missing = Inr (let ref = wf_find_signal wave signal in if ref = 0 then Inl missing else Inr ref)"

definition signal_missing :: "string \<Rightarrow> json" where
  "signal_missing signal = error_response ''SIGNAL_NOT_FOUND'' (''signal not found in waveform: '' @ signal)"

fun answer_all :: "('a \<Rightarrow> ('e + 'b) handled) \<Rightarrow> 'a list \<Rightarrow> ('e + 'b list) handled" where
  "answer_all f [] = Inr (Inr [])"
| "answer_all f (x # xs) = abind (f x) (\<lambda>y. abind (answer_all f xs) (\<lambda>ys. Inr (Inr (y # ys))))"

text \<open>Destination of files: whether directories can be made, files opened, and rows written.\<close>

record export_fs =
  ef_create_directories :: "string \<Rightarrow> string option"
  ef_opens :: "string \<Rightarrow> bool"
  ef_writes :: "string \<Rightarrow> nat \<Rightarrow> bool"
  ef_dump :: "json \<Rightarrow> string"

type_synonym file_writes = "(string \<times> string) list"

definition path_join :: "string \<Rightarrow> string \<Rightarrow> string" where
  "path_join dir name = (if dir = [] \<or> last dir = CHR ''/'' then dir @ name else dir @ CHR ''/'' # name)"

text \<open>\<open>path.parent_path()\<close> of a path: what is before the last separators, or the root.\<close>

definition parent_path :: "string \<Rightarrow> string" where
  "parent_path p =
     (let dir = rev (dropWhile (\<lambda>c. c \<noteq> CHR ''/'') (rev p));
          trimmed = rev (dropWhile (\<lambda>c. c = CHR ''/'') (rev dir))
      in if trimmed = [] then dir else trimmed)"

end
