(* ===== verification/Event_Actions.thy ===== *)
theory Event_Actions
  imports Action_Common
begin

text \<open>
  The requests on events, \<open>engine/actions/waveform/list_event_cursor_actions.cpp\<close>: event configurations, the search for the
  clock edges at which an expression holds, and its export with counts by group.
\<close>

section \<open>Configurations\<close>

type_synonym event_state = "(string, json) omap"

definition event_fields_allowed :: "string list" where
  "event_fields_allowed = [''clock'', ''edge'', ''sample_point'', ''reset'', ''signals'', ''fields'']"

text \<open>The waveform is a pointer that may be null; using it then is an access to invalid memory.\<close>

definition deref_wave :: "'w option \<Rightarrow> 'w handled" where
  "deref_wave wave = (case wave of None \<Rightarrow> Inl Bad_access | Some w \<Rightarrow> Inr w)"

definition event_signal :: "stream_wave \<Rightarrow> string \<times> json \<Rightarrow> (string + string \<times> json) handled" where
  "event_signal wave = (\<lambda>(alias, v). Inr (case v of
       JString path \<Rightarrow>
         if alias = [] \<or> path = [] then Inl ''event signal aliases and paths must be non-empty strings''
         else if wf_find_signal wave path = 0 then Inl (''signal not found in waveform: '' @ path)
         else Inr (alias, JString path)
     | _ \<Rightarrow> Inl ''event signal aliases and paths must be non-empty strings''))"

text \<open>\<open>std::stoi\<close> of a text that must be used up; what it throws is caught.\<close>

definition whole_int :: "string \<Rightarrow> int option" where
  "whole_int t = (case strtoll10 t of (v, rest, erange) \<Rightarrow>
     if t = [] \<or> rest \<noteq> [] \<or> erange \<or> v < int_min \<or> v > int_max then None else Some v)"

definition shorthand_field :: "string \<Rightarrow> string + string \<times> json \<times> json" where
  "shorthand_field text =
     (case (str_rfind (CHR ''['') text, str_rfind (CHR '':'') text, str_rfind (CHR '']'') text) of
        (Some op, Some colon, Some cl) \<Rightarrow>
          if cl \<noteq> length text - 1 \<or> op \<ge> colon then Inl ''event field shorthand must be alias[left:right]: ''
          else (case (whole_int (take (colon - op - 1) (drop (op + 1) text)), whole_int (take (cl - colon - 1) (drop (colon + 1) text))) of
                  (Some left, Some right) \<Rightarrow> Inr (take op text, JInteger left, JInteger right)
                | _ \<Rightarrow> Inl ''event field shorthand has invalid bounds: '')
      | _ \<Rightarrow> Inl ''event field shorthand must be alias[left:right]: '')"

text \<open>The loop visits the members of an object, or the elements of anything else; asking for the key of an element throws.\<close>

definition keyed_items :: "json \<Rightarrow> (string handled \<times> json) list" where
  "keyed_items v = (case v of JObject ms \<Rightarrow> map (\<lambda>(k, w). (Inr k, w)) (sort_key fst ms) | _ \<Rightarrow> map (Pair (Inl Type_error)) (json_items v))"

definition event_field :: "members \<Rightarrow> string handled \<times> json \<Rightarrow> (string + string \<times> json) handled" where
  "event_field signals = (\<lambda>(key, v).
     rbind (case v of
              JString text \<Rightarrow> Inr (shorthand_field text)
            | _ \<Rightarrow>
                if is_object v \<and> json_contains v ''signal'' \<and> json_contains v ''left'' \<and> json_contains v ''right'' then
                  rbind (string_at_key v ''signal'') (\<lambda>alias. Inr (Inr (alias, get_member v ''left'', get_member v ''right'')))
                else Inr (Inl ''event field must contain signal, left, and right: '')) (\<lambda>field. case field of
         Inl message \<Rightarrow> rbind key (\<lambda>k. Inr (Inl (message @ k)))
       | Inr (alias, left, right) \<Rightarrow>
           if map_of signals alias = None then Inr (Inl (''field references unknown signal alias: '' @ alias))
           else rbind key (\<lambda>k. Inr (Inr (k, JObject [(''signal'', JString alias), (''left'', left), (''right'', right)])))))"

definition event_reset :: "stream_wave \<Rightarrow> json \<Rightarrow> (string + members) handled" where
  "event_reset wave input =
     (case json_get input ''reset'' of
        None \<Rightarrow> Inr (Inr [])
      | Some reset \<Rightarrow>
          if \<not> is_object reset \<or> \<not> json_contains reset ''signal'' \<or> \<not> json_contains reset ''polarity'' then Inr (Inl ''invalid event reset definition'')
          else rbind (string_at_key reset ''signal'') (\<lambda>signal.
            Inr (if wf_find_signal wave signal = 0 then Inl ''invalid event reset definition'' else Inr [(''reset'', reset)])))"

definition stored_event_config :: "stream_wave \<Rightarrow> string \<Rightarrow> json \<Rightarrow> string \<Rightarrow> (string + json) handled" where
  "stored_event_config wave name input clock =
     abind (answer_all (event_signal wave) (object_items (get_member input ''signals''))) (\<lambda>signals.
     rbind (json_value input ''fields'' [] (\<lambda>v. Inr (keyed_items v))) (\<lambda>field_input.
     abind (answer_all (event_field signals) field_input) (\<lambda>flds.
     rbind (json_value input ''edge'' ''negedge'' get_string) (\<lambda>edge.
     abind (event_reset wave input) (\<lambda>reset.
       Inr (Inr (JObject ([(''name'', JString name), (''clock'', JString clock), (''edge'', JString edge), (''signals'', JObject signals),
         (''fields'', JObject flds)] @
         (if json_contains input ''sample_point'' then [(''sample_point'', get_member input ''sample_point'')] else []) @ reset))))))))"

definition normalize_event_config :: "stream_wave option \<Rightarrow> string \<Rightarrow> json \<Rightarrow> (string + json) handled" where
  "normalize_event_config wave name input =
     (if \<not> is_object input \<or> \<not> json_contains input ''clock'' \<or> \<not> json_contains input ''signals'' \<or> \<not> is_object (get_member input ''signals'') \<or>
         object_members (get_member input ''signals'') = [] then Inr (Inl ''event config requires clock and non-empty signals'')
      else case find (\<lambda>(k, v). k \<notin> set event_fields_allowed) (object_items input) of
        Some (k, v) \<Rightarrow> Inr (Inl (''unknown event config field: '' @ k))
      | None \<Rightarrow>
          rbind (string_at_key input ''clock'') (\<lambda>clock.
          rbind (deref_wave wave) (\<lambda>wave.
            if wf_find_signal wave clock = 0 then Inr (Inl (''clock signal not found: '' @ clock)) else stored_event_config wave name input clock)))"

definition event_config_list :: "event_state \<Rightarrow> json \<Rightarrow> json handled" where
  "event_config_list st req = responded (
     abind (request_args req) (\<lambda>args.
       if json_contains args ''name'' then
         rbind (string_at_key args ''name'') (\<lambda>name. Inr (case omap_find name st of
             None \<Rightarrow> Inl (error_response ''CONFIG_NOT_FOUND'' (''event config not found: '' @ name))
           | Some config \<Rightarrow> Inr (ok_response [(''status'', JString ''found'')] [(''config'', config)])))
       else rbind (json_value args ''line_limit'' 16 get_u32) (\<lambda>limit.
         let total_count = length st;
             returned = min total_count (unat limit);
             truncated = returned < total_count
         in Inr (Inr (ok_response [(''scan_complete'', JBool True), (''analysis_complete'', JBool True), (''response_truncated'', JBool truncated),
              (''total_count'', JUnsigned total_count), (''returned_count'', JUnsigned returned),
              (''truncation_scopes'', JArray (if truncated then [JString ''response_events''] else []))]
              [(''events'', JArray (map (JString \<circ> fst) (take returned st)))])))))"

definition event_config_load :: "(string \<Rightarrow> config_file) \<Rightarrow> stream_wave option \<Rightarrow> event_state \<Rightarrow> json \<Rightarrow> json handled \<times> event_state" where
  "event_config_load read_json wave st req = settle st (
     abind (request_args req) (\<lambda>args.
     abind (request_name ''event.config.load'' args) (\<lambda>name.
     rbind (string_at_key args ''config_path'') (\<lambda>path.
       case read_json path of
         Unreadable \<Rightarrow> Inr (Inl (error_response ''CONFIG_READ_FAILED'' ''cannot open event config''))
       | Bad_Json what \<Rightarrow> Inr (Inl (error_response ''CONFIG_PARSE_FAILED'' what))
       | Parsed document \<Rightarrow>
           rbind (normalize_event_config wave name document) (\<lambda>r. Inr (case r of
               Inl message \<Rightarrow> Inl (error_response ''CONFIG_INVALID'' message)
             | Inr config \<Rightarrow> Inr (ok_response [(''status'', JString ''loaded'')] [(''config'', config)], omap_set name config st)))))))"

section \<open>The search\<close>

definition int_of_json :: "json \<Rightarrow> int handled" where
  "int_of_json v = rbind (get_u32 v) (\<lambda>w. Inr (sint w))"

text \<open>An alias of a signal becomes its path; a field becomes the slice of its signal.\<close>

definition bind_alias :: "json \<Rightarrow> json \<Rightarrow> string \<Rightarrow> (string \<Rightarrow> expr_node) \<Rightarrow> (string + expr_node) handled" where
  "bind_alias signals flds name keep =
     (if json_contains signals name then rbind (string_at_key signals name) (\<lambda>path. Inr (Inr (keep path)))
      else if json_contains flds name then
        rbind (string_at_key (get_member flds name) ''signal'') (\<lambda>alias.
        rbind (string_at_key signals alias) (\<lambda>path.
        rbind (rbind (json_at (get_member flds name) ''left'') int_of_json) (\<lambda>left.
        rbind (rbind (json_at (get_member flds name) ''right'') int_of_json) (\<lambda>right. Inr (Inr (Slice path left right))))))
      else Inr (Inl (''Unknown alias in expression: '' @ name)))"

fun bind_event_expression :: "json \<Rightarrow> json \<Rightarrow> expr_node \<Rightarrow> (string + expr_node) handled" where
  "bind_event_expression signals flds (Signal s) = bind_alias signals flds s Signal"
| "bind_event_expression signals flds (Slice s l r) = bind_alias signals flds s (\<lambda>path. Slice path l r)"
| "bind_event_expression signals flds (Const v) = Inr (Inr (Const v))"
| "bind_event_expression signals flds (Unary f e) =
     abind (bind_event_expression signals flds e) (\<lambda>e. Inr (Inr (Unary f e)))"
| "bind_event_expression signals flds (Binary f a b) =
     abind (bind_event_expression signals flds a) (\<lambda>a.
     abind (bind_event_expression signals flds b) (\<lambda>b. Inr (Inr (Binary f a b))))"

record event_search =
  es_wave :: stream_wave
  es_clock :: signal_ref
  es_edge :: string
  es_point :: observation_point
  es_begin :: u64
  es_end :: u64
  es_reset :: "(signal_ref \<times> json) option"
  es_expr :: expr_node
  es_signals :: json
  es_fields :: json
  es_format :: value_render_format
  es_unit :: time_render_unit
  es_max_samples :: nat
  es_first_only :: bool

definition event_edge :: "event_search \<Rightarrow> nat \<Rightarrow> bool" where
  "event_edge s ti \<longleftrightarrow>
     (let time = wf_time_at (es_wave s) ti in es_begin s \<le> time \<and> time \<le> es_end s) \<and>
     (case (wf_sampled_value_at (es_wave s) (es_clock s) ti Before, wf_sampled_value_at (es_wave s) (es_clock s) ti Raw) of
        (Some before_clock, Some raw_clock) \<Rightarrow>
          let rise = is_rising_edge (wv_text (sv_value before_clock)) (wv_text (sv_value raw_clock));
              fall = is_falling_edge (wv_text (sv_value before_clock)) (wv_text (sv_value raw_clock))
          in if es_edge s = ''dual'' then rise \<or> fall else if es_edge s = ''posedge'' then rise else fall
      | _ \<Rightarrow> False)"

definition event_released :: "event_search \<Rightarrow> nat \<Rightarrow> bool handled" where
  "event_released s ti =
     (case es_reset s of
        None \<Rightarrow> Inr True
      | Some (ref, reset) \<Rightarrow>
          (case wf_sampled_value_at (es_wave s) ref ti (es_point s) of
             None \<Rightarrow> Inr False
           | Some v \<Rightarrow>
               if wv_text (sv_value v) = [] then Inr False
               else rbind (json_at reset ''polarity'') (\<lambda>polarity.
                 Inr (last (wv_text (sv_value v)) = (if polarity = JString ''active_low'' then CHR ''1'' else CHR ''0'')))))"

definition event_match :: "event_search \<Rightarrow> nat \<Rightarrow> bool handled" where
  "event_match s ti =
     rbind (event_released s ti) (\<lambda>released.
       if \<not> released then Inr False
       else rbind (eval_node (es_expr s) (es_wave s) ti (es_point s)) (\<lambda>v. Inr (lv_known v \<and> CHR ''1'' \<in> set (lv_bits v))))"

definition event_signal_value :: "event_search \<Rightarrow> nat \<Rightarrow> string \<times> json \<Rightarrow> (string \<times> json) handled" where
  "event_signal_value s ti = (\<lambda>(alias, v).
     rbind (get_string v) (\<lambda>path.
       let ref = wf_find_signal (es_wave s) path;
           info = (case wf_signal_info (es_wave s) ref of None \<Rightarrow> signal_info_init | Some info \<Rightarrow> info);
           sampled = (case wf_sampled_value_at (es_wave s) ref ti (es_point s) of None \<Rightarrow> waveform_value_init | Some v \<Rightarrow> sv_value v)
       in Inr (alias, render_typed_value_json sampled (si_width info) (es_format s))))"

text \<open>
  The bits \<open>left\<close> down to \<open>right\<close>; a bit outside the vector reads as 0. A loop that runs faults when the counter is
  decremented below the smallest integer, or when \<open>width - 1 - bit\<close> exceeds the largest one; both are worst at the
  last bit, \<open>right\<close>. The lower bound of the index cannot be crossed, as a vector is not longer than an \<open>int\<close> counts.
\<close>

definition field_bits :: "string \<Rightarrow> int \<Rightarrow> int \<Rightarrow> string handled" where
  "field_bits bits left right =
     (let width = int (length bits)
      in if left \<ge> right \<and> (right = int_min \<or> width - 1 - right > int_max) then Inl (Raised Int_overflow)
         else Inr (map (\<lambda>b. let index = width - 1 - b in if 0 \<le> index \<and> index < width then bits ! nat index else CHR ''0'') (rev [right..left])))"

definition event_field_value :: "event_search \<Rightarrow> members \<Rightarrow> string \<times> json \<Rightarrow> members handled" where
  "event_field_value s signal_values = (\<lambda>(key, field).
     rbind (string_at_key field ''signal'') (\<lambda>alias.
     rbind (json_at (JObject signal_values) alias) (\<lambda>value.
     rbind (string_at_key value ''value'') (\<lambda>text.
     rbind (lift_fault (parse_sv_literal text)) (\<lambda>logic.
       case logic of
         None \<Rightarrow> Inr []
       | Some l \<Rightarrow>
           rbind (rbind (json_at field ''left'') int_of_json) (\<lambda>left.
           rbind (rbind (json_at field ''right'') int_of_json) (\<lambda>right.
           rbind (field_bits (lv_bits l) left right) (\<lambda>bits.
             Inr [(key, render_value_json bits (word_of_nat (length bits)) (es_format s))]))))))))"

definition object_entries :: "json \<Rightarrow> members handled" where
  "object_entries v = handle_all (\<lambda>(key, w). rbind key (\<lambda>k. Inr (k, w))) (keyed_items v)"

definition event_row :: "event_search \<Rightarrow> nat \<Rightarrow> json handled" where
  "event_row s ti =
     rbind (object_entries (es_signals s)) (\<lambda>signals.
     rbind (handle_all (event_signal_value s ti) signals) (\<lambda>signal_values.
     rbind (object_entries (es_fields s)) (\<lambda>flds.
     rbind (handle_all (event_field_value s signal_values) flds) (\<lambda>field_values.
       Inr (JObject [(''time'', JString (aw_format_time (es_wave s) (wf_time_at (es_wave s) ti) (es_unit s))), (''signals'', JObject signal_values),
         (''fields'', JObject (concat field_values))])))))"

record event_found =
  ef_events :: "json list"
  ef_samples :: nat
  ef_total :: nat
  ef_complete :: bool

fun event_loop :: "event_search \<Rightarrow> nat list \<Rightarrow> event_found \<Rightarrow> event_found handled" where
  "event_loop s [] a = Inr a"
| "event_loop s (ti # tis) a =
     (if \<not> event_edge s ti then event_loop s tis a
      else if ef_samples a \<ge> es_max_samples s then Inr (a\<lparr>ef_complete := False\<rparr>)
      else
        let a = a\<lparr>ef_samples := ef_samples a + 1\<rparr>
        in rbind (event_match s ti) (\<lambda>matched.
             if \<not> matched then event_loop s tis a
             else rbind (event_row s ti) (\<lambda>row.
               let a = a\<lparr>ef_total := ef_total a + 1, ef_events := ef_events a @ [row]\<rparr>
               in if es_first_only s then Inr a else event_loop s tis a)))"

definition event_found_init :: event_found where
  "event_found_init = \<lparr>ef_events = [], ef_samples = 0, ef_total = 0, ef_complete = True\<rparr>"

definition null_if_empty :: "string \<Rightarrow> json" where
  "null_if_empty t = (if t = [] then JNull else JString t)"

definition event_sampling_contract :: "string \<Rightarrow> string \<Rightarrow> json" where
  "event_sampling_contract edge requested_point =
     (let negedge = (edge = ''negedge'');
          effective_point = (if negedge then [] else if requested_point = [] then ''before'' else requested_point)
      in JObject ([(''requested'', JObject [(''edge'', JString edge), (''sample_point'', null_if_empty requested_point)]),
           (''effective'', JObject [(''edge'', JString edge), (''sample_point'', null_if_empty effective_point)]),
           (''sample_point_applied'', JBool (\<not> negedge)), (''sample_point_ignored_for_negedge'', JBool (negedge \<and> requested_point \<noteq> []))] @
           (if negedge \<and> requested_point \<noteq> [] then
              [(''sample_point_not_applied_reason'', JString ''negedge keeps the established current-value sampling semantics'')] else [])))"

definition event_point :: "string \<Rightarrow> string \<Rightarrow> observation_point" where
  "event_point edge requested_point = (if edge = ''negedge'' then Raw else if requested_point = ''after'' then After else Before)"

definition find_config_json :: "event_state \<Rightarrow> json \<Rightarrow> json answered" where
  "find_config_json st args =
     (if json_contains args ''name'' then
        rbind (string_at_key args ''name'') (\<lambda>name. Inr (case omap_find name st of
            None \<Rightarrow> Inl (error_response ''CONFIG_NOT_FOUND'' ''event config not found'') | Some config \<Rightarrow> Inr config))
      else
        rbind (json_at args ''clock'') (\<lambda>clock.
        rbind (json_value args ''edge'' ''negedge'' get_string) (\<lambda>edge.
        rbind (json_at args ''signals'') (\<lambda>signals.
          Inr (Inr (JObject ([(''clock'', clock), (''edge'', JString edge), (''signals'', signals), (''fields'', JObject [])] @
            (if json_contains args ''sample_point'' then [(''sample_point'', get_member args ''sample_point'')] else []) @
            (if json_contains args ''reset'' then [(''reset'', get_member args ''reset'')] else []))))))))"

definition event_reset_ref :: "stream_wave \<Rightarrow> json \<Rightarrow> (signal_ref \<times> json) option answered" where
  "event_reset_ref wave config =
     (case json_get config ''reset'' of
        None \<Rightarrow> Inr (Inr None)
      | Some reset \<Rightarrow>
          rbind (string_at_key reset ''signal'') (\<lambda>signal.
          abind (wanted_signal wave signal (error_response ''SIGNAL_NOT_FOUND'' ''event reset signal not found'')) (\<lambda>ref. Inr (Inr (Some (ref, reset))))))"

definition event_failed :: "string \<Rightarrow> json" where
  "event_failed message = JObject [(''ok'', JBool False), (''error'', JObject [(''code'', JString ''ACTION_FAILED''),
     (''cause_code'', JString ''EVENT_FAILED''), (''message'', JString message)])]"

definition event_expression :: "json \<Rightarrow> json \<Rightarrow> json \<Rightarrow> expr_node answered" where
  "event_expression args signals flds =
     rbind (string_at_key args ''expr'') (\<lambda>text.
     rbind (abind (parse_node text) (bind_event_expression signals flds)) (\<lambda>r.
       Inr (case r of Inl message \<Rightarrow> Inl (event_failed message) | Inr e \<Rightarrow> Inr e)))"

definition event_signals_known :: "stream_wave \<Rightarrow> json \<Rightarrow> signal_ref list answered" where
  "event_signals_known wave signals =
     answer_all (\<lambda>v. rbind (get_string v) (\<lambda>path. wanted_signal wave path (error_response ''SIGNAL_NOT_FOUND'' ''event signal not found'')))
       (if is_object signals then map snd (object_items signals) else json_items signals)"

text \<open>The search a request asks for, with the mode, the limit on the rows and the sample point it names.\<close>

definition prepare_search :: "stream_wave \<Rightarrow> event_state \<Rightarrow> json \<Rightarrow> (json \<times> string \<times> event_search \<times> string \<times> nat \<times> string) answered" where
  "prepare_search wave st args =
     abind (find_config_json st args) (\<lambda>config.
     rbind (string_at_key config ''clock'') (\<lambda>clock.
     abind (wanted_signal wave clock (error_response ''CLOCK_NOT_FOUND'' (''clock signal not found: '' @ clock))) (\<lambda>clock_ref.
     rbind (json_at config ''signals'') (\<lambda>signals.
     rbind (json_value config ''fields'' (JObject []) Inr) (\<lambda>flds.
     abind (event_signals_known wave signals) (\<lambda>refs.
     abind (event_reset_ref wave config) (\<lambda>reset.
     abind (event_expression args signals flds) (\<lambda>expr.
     rbind (json_value args ''time_range'' (JObject []) Inr) (\<lambda>range_json.
     abind (range_bounds (action_wave.truncate wave) range_json (''TIME_RANGE_INVALID'', ''end is before begin'')) (\<lambda>(lo, hi).
     abind (cursor_render_unit args) (\<lambda>unit.
     abind (value_format args) (\<lambda>format.
     rbind (json_value config ''edge'' ''negedge'' get_string) (\<lambda>edge.
     rbind (json_value config ''sample_point'' [] get_string) (\<lambda>point.
     rbind (json_value args ''mode'' ''first'' get_string) (\<lambda>mode.
     rbind (json_value args ''line_limit'' 16 get_u32) (\<lambda>line_limit.
     rbind (json_value args ''max_samples'' (- 1) get_u64) (\<lambda>max_samples.
       Inr (Inr (range_json, clock, \<lparr>es_wave = wave, es_clock = clock_ref, es_edge = edge, es_point = event_point edge point, es_begin = lo, es_end = hi,
         es_reset = reset, es_expr = expr, es_signals = signals, es_fields = flds, es_format = format, es_unit = unit,
         es_max_samples = unat max_samples, es_first_only = (mode = ''first'')\<rparr>, mode, unat line_limit, point)))))))))))))))))))"

definition returned_events :: "string \<Rightarrow> nat \<Rightarrow> json list \<Rightarrow> json list" where
  "returned_events mode line_limit events =
     (if mode = ''last'' \<and> events \<noteq> [] then [last events] else if mode = ''first'' then events else take line_limit events)"

definition event_response :: "json \<Rightarrow> json \<Rightarrow> event_search \<Rightarrow> string \<Rightarrow> string \<Rightarrow> nat \<Rightarrow> string \<Rightarrow> event_found \<Rightarrow> json" where
  "event_response args range_json s clock mode line_limit point f =
     (let returned = returned_events mode line_limit (ef_events f);
          truncated = (mode = ''all'' \<and> length returned < length (ef_events f))
      in ok_response ([(''sample_count'', JUnsigned (ef_samples f)), (''mode'', JString mode), (''inline'', JBool (\<not> json_contains args ''name'')),
           (''sampling_mode'', JString ''clock_edge''), (''clock'', JString clock), (''sample_time_semantics'', JString ''time is sample_time''),
           (''begin'', JString (aw_format_time (es_wave s) (es_begin s) (es_unit s))),
           (''end'', JString (if json_contains range_json ''end'' then aw_format_time (es_wave s) (es_end s) (es_unit s) else ''max'')),
           (''scan_complete'', JBool (ef_complete f)), (''analysis_complete'', JBool (ef_complete f)), (''response_truncated'', JBool truncated),
           (''total_count'', JUnsigned (ef_total f)), (''returned_count'', JUnsigned (length returned)),
           (''truncation_scopes'', JArray (if truncated then [JString ''response_events''] else [])),
           (''value_width_complete'', JBool True), (''width_diagnostics'', JArray [])] @
           (if ef_total f \<noteq> 0 then [(''first'', get_member (hd (ef_events f)) ''time''), (''last'', get_member (last (ef_events f)) ''time'')] else []))
           [(''events'', JArray returned), (''sampling'', event_sampling_contract (es_edge s) point)])"

definition run_event_find :: "stream_wave \<Rightarrow> event_state \<Rightarrow> json \<Rightarrow> json handled" where
  "run_event_find wave st args = responded (
     abind (prepare_search wave st args) (\<lambda>(range_json, clock, s, mode, line_limit, point).
     rbind (event_loop s (wf_time_indices_of wave (es_clock s)) event_found_init) (\<lambda>f.
       Inr (Inr (event_response args range_json s clock mode line_limit point f)))))"

definition event_find :: "stream_wave option \<Rightarrow> event_state \<Rightarrow> json \<Rightarrow> json handled" where
  "event_find wave st req = responded (
     abind (with_wave ''event.find'' wave) (\<lambda>wave.
     rbind (json_at req ''args'') (\<lambda>args. rbind (run_event_find wave st args) (\<lambda>r. Inr (Inr r)))))"

section \<open>Export\<close>

definition group_part :: "json \<Rightarrow> string \<Rightarrow> string handled" where
  "group_part event label =
     (case (case json_get (get_member event ''signals'') label of None \<Rightarrow> json_get (get_member event ''fields'') label | Some v \<Rightarrow> Some v) of
        None \<Rightarrow> Inr (label @ ''=<missing>'')
      | Some v \<Rightarrow> rbind (string_at_key v ''value'') (\<lambda>t. Inr (label @ ''='' @ t)))"

text \<open>The parts are joined by bars; a bar is left out only while the key is still empty.\<close>

fun join_parts :: "string \<Rightarrow> string list \<Rightarrow> string" where
  "join_parts key [] = key"
| "join_parts key (p # ps) = join_parts ((if key = [] then [] else key @ ''|'') @ p) ps"

definition group_key :: "json list \<Rightarrow> json \<Rightarrow> string handled" where
  "group_key groups event =
     rbind (handle_all (\<lambda>g. rbind (get_string g) (group_part event)) groups) (\<lambda>parts. Inr (join_parts [] parts))"

definition count_group :: "(string, nat) omap \<Rightarrow> string \<Rightarrow> (string, nat) omap" where
  "count_group m key = omap_set key (case omap_find key m of None \<Rightarrow> 1 | Some n \<Rightarrow> n + 1) m"

definition event_groups :: "json \<Rightarrow> json list \<Rightarrow> (string, nat) omap handled" where
  "event_groups args events =
     (if json_contains args ''aggregate'' \<and> json_contains (get_member args ''aggregate'') ''group_by'' then
        rbind (handle_all (group_key (json_items (get_member (get_member args ''aggregate'') ''group_by''))) events) (\<lambda>keys.
          Inr (foldl count_group [] keys))
      else Inr [])"

definition aggregate_json :: "json \<Rightarrow> (string, nat) omap \<Rightarrow> json" where
  "aggregate_json total_count groups = JObject [(''count'', total_count), (''groups'', JObject (map (\<lambda>(k, n). (k, JUnsigned n)) groups)),
     (''group_count'', JUnsigned (length groups))]"

definition preview_export :: "json \<Rightarrow> bool \<Rightarrow> json list \<Rightarrow> json \<Rightarrow> members \<Rightarrow> members \<Rightarrow> json handled" where
  "preview_export args include_events events sampling aggregate summary =
     rbind (if include_events then json_value args ''line_limit'' 1000 get_u32 else Inr 0) (\<lambda>limit.
       let kept = take (unat limit) events;
           truncated = (include_events \<and> length kept < length events);
           summary = merge_members summary [(''returned_count'', JUnsigned (if include_events then length kept else 0)), (''response_truncated'', JBool truncated),
             (''truncation_scopes'', JArray (if truncated then [JString ''response_events''] else []))]
       in Inr (ok_response summary ([(''sampling'', sampling)] @ (if include_events then [(''events'', JArray kept)] else []) @ aggregate)))"

definition written_export ::
  "export_fs \<Rightarrow> json \<Rightarrow> json list \<Rightarrow> json \<Rightarrow> members \<Rightarrow> members \<Rightarrow> (json \<times> file_writes) answered" where
  "written_export fs args events sampling aggregate summary =
     rbind (string_at_key (get_member args ''output'') ''path'') (\<lambda>path.
       Inr (case (if parent_path path = [] then None else ef_create_directories fs (parent_path path)) of
              Some message \<Rightarrow> Inl (error_response ''EXPORT_FAILED'' message)
            | None \<Rightarrow>
                let artifact = JObject ([(''events'', JArray events), (''sampling'', sampling), (''summary'', JObject summary)] @ aggregate)
                in if \<not> (ef_opens fs path \<and> ef_writes fs path 0) then Inl (error_response ''EXPORT_FAILED'' ''cannot write event output'')
                   else Inr (ok_response (merge_members summary [(''output'', JObject [(''path'', JString path), (''file_format'', JString ''json'')]),
                          (''returned_count'', get_member (JObject summary) ''total_count''), (''response_truncated'', JBool False), (''truncation_scopes'', JArray [])])
                          [(''sampling'', sampling)], [(path, ef_dump fs artifact @ [CHR 0x0A])])))"

definition export_events :: "export_fs \<Rightarrow> json \<Rightarrow> json \<Rightarrow> (json \<times> file_writes) answered" where
  "export_events fs args found =
     (let events = json_items (get_member (get_member found ''data'') ''events'');
          sampling = get_member (get_member found ''data'') ''sampling'';
          total_count = get_member (get_member found ''summary'') ''total_count''
      in rbind (event_groups args events) (\<lambda>groups.
         rbind (if json_contains args ''aggregate'' then json_value (get_member args ''aggregate'') ''events'' True get_bool else Inr True) (\<lambda>include_events.
         rbind (json_value args ''line_limit'' 1000 int_of_json) (\<lambda>line_limit.
           let aggregate = (if json_contains args ''aggregate'' then [(''aggregate'', aggregate_json total_count groups)] else []);
               written = (json_contains args ''output'' \<and> json_contains (get_member args ''output'') ''path'');
               summary = merge_members (object_members (get_member found ''summary'')) [(''mode'', JString ''export''), (''row_count'', total_count),
                 (''line_limit'', JInteger line_limit), (''status'', JString (if written then ''written'' else ''preview'')), (''output_written'', JBool written)]
           in if written then written_export fs args events sampling aggregate summary
              else rbind (preview_export args include_events events sampling aggregate summary) (\<lambda>r. Inr (Inr (r, [])))))))"

definition event_export :: "export_fs \<Rightarrow> stream_wave option \<Rightarrow> event_state \<Rightarrow> json \<Rightarrow> (json \<times> file_writes) answered" where
  "event_export fs wave st req =
     abind (with_wave ''event.export'' wave) (\<lambda>wave.
     rbind (json_at req ''args'') (\<lambda>args.
     rbind (json_value args ''max_events'' (- 1) get_u32) (\<lambda>max_events.
     rbind (run_event_find wave st (JObject (member_set (member_set (object_members args) ''mode'' (JString ''all'')) ''line_limit'' (JUnsigned (unat max_events))))) (\<lambda>found.
       if get_member found ''ok'' \<noteq> JBool True then Inr (Inl found) else export_events fs args found))))"

end
