(* ===== verification/List_Actions.thy ===== *)
theory List_Actions
  imports Action_Common List_Manager
begin

unbundle bit_operations_syntax

text \<open>
  The requests on signal lists, \<open>engine/actions/waveform/list_event_cursor_actions.cpp\<close>: the eight handlers over the list
  manager and the waveform, and the binary files that an export writes.
\<close>

section \<open>Requests on the registry\<close>

definition list_of_request :: "string \<Rightarrow> json \<Rightarrow> list_manager \<Rightarrow> (json \<times> string \<times> signal_list) answered" where
  "list_of_request action req m =
     abind (request_args req) (\<lambda>args.
     abind (request_name action args) (\<lambda>name.
       Inr (case list_get name m of
              None \<Rightarrow> Inl (error_response ''LIST_NOT_FOUND'' (''list not found: '' @ name))
            | Some l \<Rightarrow> Inr (args, name, l))))"

definition known_signal :: "stream_wave \<Rightarrow> json \<Rightarrow> string answered" where
  "known_signal wave item =
     rbind (get_string item) (\<lambda>signal. Inr (if wf_find_signal wave signal = 0 then Inl (signal_missing signal) else Inr signal))"

definition list_create_handler :: "stream_wave option \<Rightarrow> list_manager \<Rightarrow> json \<Rightarrow> json handled \<times> list_manager" where
  "list_create_handler wave m req = settle m (
     abind (with_wave ''list.create'' wave) (\<lambda>wave.
     abind (request_args req) (\<lambda>args.
     abind (request_name ''list.create'' args) (\<lambda>name.
     rbind (json_value args ''signals'' (JArray []) Inr) (\<lambda>items.
     abind (answer_all (known_signal wave) (json_items items)) (\<lambda>signals.
       Inr (case list_create name m of
              Inl e \<Rightarrow> Inl (error_response (if is_substring ''already exists'' e then ''LIST_EXISTS'' else ''ACTION_FAILED'') e)
            | Inr created \<Rightarrow>
                let response = ok_response [(''name'', JString name), (''status'', JString ''created''), (''created'', JBool True),
                                 (''signal_count'', JUnsigned (length signals))] [(''signals'', JArray (map JString signals))]
                in if signals = [] then Inr (response, created)
                   else (case list_add name signals created of
                           Inl e \<Rightarrow> Inr (error_response ''ACTION_FAILED'' e, created)
                         | Inr added \<Rightarrow> Inr (response, added)))))))))"

definition list_add_handler :: "stream_wave option \<Rightarrow> list_manager \<Rightarrow> json \<Rightarrow> json handled \<times> list_manager" where
  "list_add_handler wave m req = settle m (
     abind (with_wave ''list.add'' wave) (\<lambda>wave.
     abind (list_of_request ''list.add'' req m) (\<lambda>(args, name, l).
     abind (rbind (json_at args ''signal'') (known_signal wave)) (\<lambda>signal.
       Inr (case list_add name [signal] m of
              Inl e \<Rightarrow> Inl (error_response ''ACTION_FAILED'' e)
            | Inr added \<Rightarrow> Inr (ok_response [(''name'', JString name), (''signal'', JString signal), (''status'', JString ''added''), (''added'', JBool True)] [], added))))))"

definition removed_signal :: "json \<Rightarrow> signal_list \<Rightarrow> string answered" where
  "removed_signal args l =
     (if json_contains args ''signal'' then
        rbind (string_at_key args ''signal'') (\<lambda>signal.
          Inr (if signal \<notin> set (sl_signals l) then Inl (error_response ''SIGNAL_NOT_FOUND'' (''signal not found in list: '' @ signal)) else Inr signal))
      else
        rbind (rbind (json_at args ''index'') get_u64) (\<lambda>index.
          Inr (if index = 0 \<or> unat index > length (sl_signals l) then Inl (error_response ''INDEX_OUT_OF_RANGE'' ''list index is out of range'')
               else Inr (sl_signals l ! (unat index - 1)))))"

definition list_delete_handler :: "stream_wave option \<Rightarrow> list_manager \<Rightarrow> json \<Rightarrow> json handled \<times> list_manager" where
  "list_delete_handler wave m req = settle m (
     abind (with_wave ''list.delete'' wave) (\<lambda>wave.
     abind (list_of_request ''list.delete'' req m) (\<lambda>(args, name, l).
     abind (removed_signal args l) (\<lambda>signal.
       Inr (case list_remove name [signal] m of
              Inl e \<Rightarrow> Inl (error_response ''ACTION_FAILED'' e)
            | Inr rest \<Rightarrow> Inr (ok_response [(''name'', JString name), (''deleted'', JBool True), (''removed'', JString signal)] [], rest))))))"

definition list_document :: "(string \<Rightarrow> config_file) \<Rightarrow> json \<Rightarrow> json answered" where
  "list_document read_json args =
     (if json_contains args ''config'' then rbind (json_at args ''config'') (\<lambda>v. Inr (Inr v))
      else rbind (string_at_key args ''config_path'') (\<lambda>path. Inr (case read_json path of
             Unreadable \<Rightarrow> Inl (error_response ''CONFIG_READ_FAILED'' ''cannot open list config'')
           | Bad_Json what \<Rightarrow> Inl (error_response ''CONFIG_PARSE_FAILED'' what)
           | Parsed v \<Rightarrow> Inr v)))"

text \<open>\<open>std::vector<std::string> signals = item.at("signals")\<close>.\<close>

definition string_vector :: "json \<Rightarrow> string list handled" where
  "string_vector v = (case v of JArray xs \<Rightarrow> handle_all get_string xs | _ \<Rightarrow> Inl Type_error)"

definition list_validation :: "string \<Rightarrow> string list \<Rightarrow> json" where
  "list_validation name signals = JObject [(''name'', JString name), (''status'', JString ''ok''),
     (''signals'', JArray (map (\<lambda>s. JObject [(''signal'', JString s), (''status'', JString ''ok'')]) signals))]"

definition load_list :: "string \<Rightarrow> string \<Rightarrow> string list \<Rightarrow> list_manager \<Rightarrow> json option \<times> list_manager" where
  "load_list mode name signals m =
     (let m = (if mode = ''replace'' \<and> list_exists name m then snd (list_erase name m) else m)
      in case (if list_exists name m then Inr m else list_create name m) of
           Inl e \<Rightarrow> (Some (error_response ''ACTION_FAILED'' e), m)
         | Inr created \<Rightarrow>
             (case list_add name signals created of
                Inl e \<Rightarrow> (Some (error_response ''ACTION_FAILED'' e), created)
              | Inr added \<Rightarrow> (None, added)))"

fun load_lists :: "string \<Rightarrow> json list \<Rightarrow> list_manager \<Rightarrow> (string \<times> json) list \<Rightarrow> (string \<times> json) list answered \<times> list_manager" where
  "load_lists mode [] m rows = (Inr (Inr rows), m)"
| "load_lists mode (item # items) m rows =
     (case rbind (string_at_key item ''name'') (\<lambda>name. rbind (rbind (json_at item ''signals'') string_vector) (\<lambda>signals. Inr (name, signals))) of
        Inl e \<Rightarrow> (Inl e, m)
      | Inr (name, signals) \<Rightarrow>
          (case load_list mode name signals m of
             (Some e, m) \<Rightarrow> (Inr (Inl e), m)
           | (None, m) \<Rightarrow> load_lists mode items m (rows @ [(name, list_validation name signals)])))"

definition list_recommendations :: json where
  "list_recommendations = JArray [
     JObject [(''action'', JString ''value.at''), (''purpose'', JString (utf8 [232, 175, 187, 229, 143, 150, 229, 145, 189, 229, 144, 141, 229, 136, 151, 232, 161, 168, 229, 156, 168, 230, 140, 135, 229, 174, 154, 230, 151, 182, 233, 151, 180, 231, 154, 132, 229, 128, 188]))],
     JObject [(''action'', JString ''list.show''), (''purpose'', JString (utf8 [230, 152, 190, 231, 164, 186, 228, 191, 161, 229, 143, 183, 229, 136, 151, 232, 161, 168, 229, 134, 133, 229, 174, 185]))],
     JObject [(''action'', JString ''list.validate''), (''purpose'', JString (utf8 [233, 170, 140, 232, 175, 129, 229, 136, 151, 232, 161, 168, 228, 191, 161, 229, 143, 183, 229, 173, 152, 229, 156, 168, 230, 128, 167]))],
     JObject [(''action'', JString ''list.first_change''), (''purpose'', JString (utf8 [230, 159, 165, 230, 137, 190, 231, 170, 151, 229, 143, 163, 229, 134, 133, 233, 166, 150, 230, 172, 161, 229, 183, 174, 229, 188, 130]))],
     JObject [(''action'', JString ''list.export''), (''purpose'', JString (utf8 [229, 175, 188, 229, 135, 186, 229, 136, 151, 232, 161, 168, 230, 149, 176, 230, 141, 174]))]]"

definition list_load_handler :: "(string \<Rightarrow> config_file) \<Rightarrow> stream_wave option \<Rightarrow> list_manager \<Rightarrow> json \<Rightarrow> json handled \<times> list_manager" where
  "list_load_handler read_json wave m req =
     (case
        abind (with_wave ''list.load'' wave) (\<lambda>wave.
        abind (request_args req) (\<lambda>args.
        abind (list_document read_json args) (\<lambda>config.
        rbind (json_value args ''mode'' ''replace'' get_string) (\<lambda>mode.
        rbind (json_at config ''lists'') (\<lambda>lists.
        abind (answer_all (\<lambda>item. rbind (json_at item ''signals'') (\<lambda>signals. answer_all (known_signal wave) (json_items signals))) (json_items lists)) (\<lambda>checked.
          Inr (Inr (mode, json_items lists)))))))) of
        Inl e \<Rightarrow> (Inl e, m)
      | Inr (Inl e) \<Rightarrow> (Inr e, m)
      | Inr (Inr (mode, items)) \<Rightarrow>
          (case load_lists mode items m [] of
             (Inl e, m) \<Rightarrow> (Inl e, m)
           | (Inr (Inl e), m) \<Rightarrow> (Inr e, m)
           | (Inr (Inr rows), m) \<Rightarrow>
               (Inr (ok_response [(''loaded'', JUnsigned (length rows)), (''mode'', JString mode)]
                  [(''lists'', JArray (map (JString \<circ> fst) rows)), (''validation'', JArray (map snd rows)), (''recommended_actions'', list_recommendations)]), m)))"

definition list_show_handler :: "stream_wave option \<Rightarrow> list_manager \<Rightarrow> json \<Rightarrow> json handled" where
  "list_show_handler wave m req = responded (
     abind (with_wave ''list.show'' wave) (\<lambda>wave.
     abind (list_of_request ''list.show'' req m) (\<lambda>(args, name, l).
       Inr (Inr (ok_response [(''name'', JString (sl_name l)), (''signal_count'', JUnsigned (length (sl_signals l)))]
         [(''signals'', JArray (map (\<lambda>(i, s). JObject [(''index'', JUnsigned i), (''signal'', JString s)]) (enumerate 1 (sl_signals l))))])))))"

definition list_validate_handler :: "stream_wave option \<Rightarrow> list_manager \<Rightarrow> json \<Rightarrow> json handled" where
  "list_validate_handler wave m req = responded (
     abind (with_wave ''list.validate'' wave) (\<lambda>wave.
     abind (list_of_request ''list.validate'' req m) (\<lambda>(args, name, l).
     abind (answer_all (\<lambda>s. known_signal wave (JString s)) (sl_signals l)) (\<lambda>signals.
       Inr (Inr (ok_response [(''name'', JString name), (''all_found'', JBool True)]
         [(''signals'', JArray (map (\<lambda>s. JObject [(''signal'', JString s), (''status'', JString ''ok'')]) signals))]))))))"

section \<open>Binary rows\<close>

definition write_u64_le :: "u64 \<Rightarrow> string" where
  "write_u64_le v = map (\<lambda>k. char_of (unat (drop_bit (8 * k) v AND 255))) [0..<8]"

definition export_stem :: "string \<Rightarrow> nat \<Rightarrow> string" where
  "export_stem signal index = dec_digits index @ CHR ''_'' # map (\<lambda>c. if is_alnum c then c else CHR ''_'') signal"

text \<open>The state of bit \<open>i\<close>, which counts from the least significant one, and the two words that hold it.\<close>

definition state_at :: "string \<Rightarrow> nat \<Rightarrow> char" where
  "state_at bits i = bits ! (length bits - i - 1)"

definition mark_bit :: "u64 list \<Rightarrow> nat \<Rightarrow> u64 list" where
  "mark_bit ws i = ws[i div 64 := ws ! (i div 64) OR push_bit (i mod 64) 1]"

definition row_step :: "string \<Rightarrow> u64 list \<times> u64 list \<Rightarrow> nat \<Rightarrow> u64 list \<times> u64 list" where
  "row_step bits = (\<lambda>(values, known) i.
     (if state_at bits i \<in> set ''1Hh'' then mark_bit values i else values,
      if state_at bits i \<in> set ''01LlHh'' then mark_bit known i else known))"

text \<open>A bit that is set beyond the words of the row is written outside the vector.\<close>

definition write_logic_row :: "u64 \<Rightarrow> string \<Rightarrow> nat \<Rightarrow> string handled" where
  "write_logic_row time bits word_count =
     (if list_ex (\<lambda>i. state_at bits i \<in> set ''01LlHh'' \<and> i div 64 \<ge> word_count) [0..<length bits] then Inl Bad_access
      else
        let (values, known) = foldl (row_step bits) (replicate word_count 0, replicate word_count 0) [0..<length bits]
        in Inr (write_u64_le time @ concat (map write_u64_le values) @ concat (map write_u64_le known)))"

definition word_count_of :: "u32 \<Rightarrow> nat" where
  "word_count_of width = max 1 (unat ((width + 63) div 64))"

text \<open>
  The rows of one signal: its value at the begin of the range, then at each of its changes up to the end. A row that cannot be
  written ends the export, except the first, which is then not counted.
\<close>

definition raw_value :: "stream_wave \<Rightarrow> signal_ref \<Rightarrow> nat \<Rightarrow> waveform_value option" where
  "raw_value wave ref ti = map_option sv_value (wf_sampled_value_at wave ref ti Raw)"

definition change_in_range :: "stream_wave \<Rightarrow> u64 \<Rightarrow> u64 \<Rightarrow> nat \<Rightarrow> bool" where
  "change_in_range wave lo hi ti \<longleftrightarrow> lo < wf_time_at wave ti \<and> wf_time_at wave ti \<le> hi"

fun export_changes ::
  "export_fs \<Rightarrow> stream_wave \<Rightarrow> string \<Rightarrow> string \<Rightarrow> signal_ref \<Rightarrow> nat \<Rightarrow> u64 \<Rightarrow> u64 \<Rightarrow> nat list \<Rightarrow> string \<times> nat \<Rightarrow> (string \<times> nat) answered" where
  "export_changes fs wave path filename ref n lo hi [] acc = Inr (Inr acc)"
| "export_changes fs wave path filename ref n lo hi (ti # tis) (text, rows) =
     (case (if change_in_range wave lo hi ti then raw_value wave ref ti else None) of
        None \<Rightarrow> export_changes fs wave path filename ref n lo hi tis (text, rows)
      | Some v \<Rightarrow>
          rbind (write_logic_row (wf_time_at wave ti) (wv_text v) n) (\<lambda>row.
            if ef_writes fs path rows then export_changes fs wave path filename ref n lo hi tis (text @ row, rows + 1)
            else Inr (Inl (error_response ''EXPORT_FAILED'' (''failed to write: '' @ filename)))))"

definition export_baseline ::
  "export_fs \<Rightarrow> stream_wave \<Rightarrow> string \<Rightarrow> signal_ref \<Rightarrow> nat \<Rightarrow> u64 \<Rightarrow> (string \<times> nat) handled" where
  "export_baseline fs wave path ref n lo =
     (case raw_value wave ref (sw_time_idx_of wave lo) of
        None \<Rightarrow> Inr ([], 0)
      | Some v \<Rightarrow> rbind (write_logic_row lo (wv_text v) n) (\<lambda>row. Inr (if ef_writes fs path 0 then (row, 1) else ([], 0))))"

definition export_signal ::
  "export_fs \<Rightarrow> stream_wave \<Rightarrow> string \<Rightarrow> u64 \<Rightarrow> u64 \<Rightarrow> nat \<times> string \<Rightarrow> (json \<times> nat \<times> string \<times> string) answered" where
  "export_signal fs wave dir lo hi = (\<lambda>(i, signal).
     abind (wanted_signal wave signal (signal_missing signal)) (\<lambda>ref.
       let info = (case wf_signal_info wave ref of None \<Rightarrow> signal_info_init | Some info \<Rightarrow> info)
       in if si_encoding info \<noteq> BitVector then
            Inr (Inl (error_response ''UNSUPPORTED_VALUE_TYPE'' (''u64bin requires a bit-vector signal: '' @ signal)))
          else
            let n = word_count_of (si_width info);
                filename = export_stem signal i @ ''.u64bin'';
                path = path_join dir filename
            in if \<not> ef_opens fs path then Inr (Inl (error_response ''EXPORT_FAILED'' (''cannot create export file: '' @ filename)))
               else rbind (export_baseline fs wave path ref n lo) (\<lambda>first.
                 abind (export_changes fs wave path filename ref n lo hi (wf_time_indices_of wave ref) first) (\<lambda>(text, rows).
                   Inr (Inr (JObject [(''index'', JUnsigned i), (''signal'', JString signal), (''file'', JString filename), (''row_count'', JUnsigned rows),
                     (''width'', JUnsigned (unat (si_width info))), (''word_count'', JUnsigned n), (''columns'', JUnsigned (1 + n * 2))], rows, path, text))))))"

definition export_manifest :: "string \<Rightarrow> string \<Rightarrow> string \<Rightarrow> (json \<times> nat \<times> string \<times> string) list \<Rightarrow> json" where
  "export_manifest name rendered_begin rendered_end rows =
     JObject [(''version'', JInteger 1), (''format'', JString ''u64bin.v1''), (''list'', JString name), (''begin'', JString rendered_begin),
       (''end'', JString rendered_end), (''time_unit'', JString ''waveform_tick''),
       (''row_layout'', JString ''uint64_le: time_tick, value_words, known_mask_words''), (''signals'', JArray (map fst rows)),
       (''signal_count'', JUnsigned (length rows)), (''row_count'', JUnsigned (sum_list (map (fst \<circ> snd) rows)))]"

definition list_preview :: "json \<Rightarrow> string \<Rightarrow> string list \<Rightarrow> string \<Rightarrow> string \<Rightarrow> json handled" where
  "list_preview args name signals rendered_begin rendered_end =
     rbind (json_value args ''line_limit'' 16 get_u32) (\<lambda>line_limit.
       let total_count = length signals;
           returned = min total_count (unat (scast line_limit :: u64));
           truncated = returned < total_count
       in Inr (ok_response [(''name'', JString name), (''row_count'', JInteger 0), (''format'', JString ''u64bin.v1''),
            (''begin'', JString rendered_begin), (''end'', JString rendered_end), (''status'', JString ''preview''), (''output_written'', JBool False),
            (''line_limit'', JInteger (sint line_limit)), (''scan_complete'', JBool True), (''analysis_complete'', JBool True),
            (''response_truncated'', JBool truncated), (''total_count'', JUnsigned total_count), (''returned_count'', JUnsigned returned),
            (''truncation_scopes'', JArray (if truncated then [JString ''response_signals''] else []))]
            [(''signals'', JArray (map (\<lambda>(i, s). JObject [(''index'', JUnsigned i), (''signal'', JString s)]) (enumerate 0 (take returned signals))))]))"

definition list_written ::
  "export_fs \<Rightarrow> stream_wave \<Rightarrow> string \<Rightarrow> string \<Rightarrow> string list \<Rightarrow> u64 \<Rightarrow> u64 \<Rightarrow> string \<Rightarrow> string \<Rightarrow> (json \<times> file_writes) answered" where
  "list_written fs wave dir name signals lo hi rendered_begin rendered_end =
     (case ef_create_directories fs dir of
        Some message \<Rightarrow> Inr (Inl (error_response ''EXPORT_FAILED'' message))
      | None \<Rightarrow>
          abind (answer_all (export_signal fs wave dir lo hi) (enumerate 0 signals)) (\<lambda>rows.
            let manifest_path = path_join dir ''manifest.json'';
                text = ef_dump fs (export_manifest name rendered_begin rendered_end rows) @ [CHR 0x0A];
                row_count = sum_list (map (fst \<circ> snd) rows)
            in Inr (if \<not> (ef_opens fs manifest_path \<and> ef_writes fs manifest_path 0) then Inl (error_response ''EXPORT_FAILED'' ''cannot write manifest'')
                 else Inr (ok_response [(''name'', JString name), (''row_count'', JUnsigned row_count), (''format'', JString ''u64bin.v1''),
                   (''begin'', JString rendered_begin), (''end'', JString rendered_end), (''status'', JString ''written''), (''output_written'', JBool True),
                   (''output'', JObject [(''path'', JString dir), (''manifest_path'', JString manifest_path)]),
                   (''scan_complete'', JBool True), (''analysis_complete'', JBool True), (''response_truncated'', JBool False),
                   (''total_count'', JUnsigned (length signals)), (''returned_count'', JUnsigned (length signals)), (''truncation_scopes'', JArray [])] [],
                   map (snd \<circ> snd) rows @ [(manifest_path, text)]))))"

definition list_export_handler :: "export_fs \<Rightarrow> stream_wave option \<Rightarrow> list_manager \<Rightarrow> json \<Rightarrow> (json \<times> file_writes) answered" where
  "list_export_handler fs wave m req =
     abind (with_wave ''list.export'' wave) (\<lambda>wave.
     abind (list_of_request ''list.export'' req m) (\<lambda>(args, name, l).
     rbind (json_value args ''time_range'' (JObject []) Inr) (\<lambda>range_json.
     abind (range_bounds (action_wave.truncate wave) range_json (''TIME_RANGE_INVALID'', ''end is before begin'')) (\<lambda>(lo, hi).
     abind (cursor_render_unit args) (\<lambda>unit.
       let rendered_begin = aw_format_time wave lo unit;
           rendered_end = aw_format_time wave hi unit
       in if \<not> json_contains args ''output'' \<or> \<not> json_contains (get_member args ''output'') ''path'' then
            rbind (list_preview args name (sl_signals l) rendered_begin rendered_end) (\<lambda>response. Inr (Inr (response, [])))
          else rbind (string_at_key (get_member args ''output'') ''path'') (\<lambda>dir.
            list_written fs wave dir name (sl_signals l) lo hi rendered_begin rendered_end))))))"

section \<open>The first change\<close>

record change_candidate =
  cc_signal :: string
  cc_time :: u64
  cc_before :: waveform_value
  cc_after :: waveform_value
  cc_width :: u32

text \<open>The first change of a signal in the range after which its value differs from that at the begin.\<close>

definition differs_at :: "stream_wave \<Rightarrow> u64 \<Rightarrow> u64 \<Rightarrow> signal_ref \<Rightarrow> waveform_value \<Rightarrow> nat \<Rightarrow> bool" where
  "differs_at wave lo hi ref baseline ti \<longleftrightarrow> change_in_range wave lo hi ti \<and>
     (case raw_value wave ref ti of None \<Rightarrow> False | Some v \<Rightarrow> \<not> waveform_values_equal baseline v)"

definition signal_candidate :: "stream_wave \<Rightarrow> u64 \<Rightarrow> u64 \<Rightarrow> string \<Rightarrow> change_candidate list answered" where
  "signal_candidate wave lo hi signal =
     abind (wanted_signal wave signal (signal_missing signal)) (\<lambda>ref.
       let info = (case wf_signal_info wave ref of None \<Rightarrow> signal_info_init | Some info \<Rightarrow> info)
       in Inr (Inr (case raw_value wave ref (sw_time_idx_of wave lo) of
            None \<Rightarrow> []
          | Some baseline \<Rightarrow>
              (case find (differs_at wave lo hi ref baseline) (wf_time_indices_of wave ref) of
                 None \<Rightarrow> []
               | Some ti \<Rightarrow> [\<lparr>cc_signal = signal, cc_time = wf_time_at wave ti, cc_before = baseline, cc_after = the (raw_value wave ref ti),
                     cc_width = si_width info\<rparr>]))))"

definition candidate_json :: "stream_wave \<Rightarrow> time_render_unit \<Rightarrow> value_render_format \<Rightarrow> u64 \<Rightarrow> change_candidate \<Rightarrow> json" where
  "candidate_json wave unit format lo c =
     JObject [(''signal'', JString (cc_signal c)), (''before_time'', JString (aw_format_time wave lo unit)),
       (''change_time'', JString (aw_format_time wave (cc_time c) unit)), (''before'', render_typed_value_json (cc_before c) (cc_width c) format),
       (''after'', render_typed_value_json (cc_after c) (cc_width c) format)]"

definition first_change_time :: "u64 \<Rightarrow> change_candidate list \<Rightarrow> u64" where
  "first_change_time hi cs = foldl (\<lambda>t c. min t (cc_time c)) hi cs"

definition first_changes :: "u64 \<Rightarrow> change_candidate list \<Rightarrow> change_candidate list" where
  "first_changes hi cs = filter (\<lambda>c. cc_time c = first_change_time hi cs) cs"

definition first_change_response ::
  "stream_wave \<Rightarrow> time_render_unit \<Rightarrow> value_render_format \<Rightarrow> string \<Rightarrow> u64 \<Rightarrow> u64 \<Rightarrow> change_candidate list \<Rightarrow> json" where
  "first_change_response wave unit format name lo hi cs =
     (let changed = map (candidate_json wave unit format lo) (first_changes hi cs)
      in ok_response [(''name'', JString name), (''diff_found'', JBool (cs \<noteq> [])),
           (''diff_time'', if cs \<noteq> [] then JString (aw_format_time wave (first_change_time hi cs) unit) else JNull),
           (''changed_signal_count'', JUnsigned (length changed)), (''value_width_complete'', JBool True), (''width_diagnostics'', JArray [])]
           [(''changed_signals'', JArray changed)])"

definition list_first_change_handler :: "stream_wave option \<Rightarrow> list_manager \<Rightarrow> json \<Rightarrow> json handled" where
  "list_first_change_handler wave m req = responded (
     abind (with_wave ''list.first_change'' wave) (\<lambda>wave.
     abind (list_of_request ''list.first_change'' req m) (\<lambda>(args, name, l).
     rbind (json_at args ''time_range'') (\<lambda>range_json.
     abind (range_bounds (action_wave.truncate wave) range_json (''INVALID_TIME_RANGE'', ''begin exceeds end'')) (\<lambda>(lo, hi).
     abind (cursor_render_unit args) (\<lambda>unit.
     abind (value_format args) (\<lambda>format.
     abind (answer_all (signal_candidate wave lo hi) (sl_signals l)) (\<lambda>cs.
       Inr (Inr (first_change_response wave unit format name lo hi (concat cs)))))))))))"

end
