(* ===== verification/Signal_Analysis.thy ===== *)
theory Signal_Analysis
  imports Event_Actions List_Actions
begin

text \<open>
  The requests that analyse one or several signals, \<open>engine/actions/waveform/signal_analysis_actions.cpp\<close>: statistics over
  value changes or over clock edges, stability, the verification of unknown states, and the inspection for anomalies. The
  server refuses these requests when no waveform is loaded.
\<close>

section \<open>Shared steps\<close>

record change_row =
  rw_time :: u64
  rw_value :: waveform_value

text \<open>The file repeats functions of the other actions.\<close>

abbreviation typed_logic_value :: "waveform_value \<Rightarrow> u32 \<Rightarrow> value_render_format \<Rightarrow> json" where
  "typed_logic_value \<equiv> render_typed_value_json"

abbreviation value_equal :: "waveform_value \<Rightarrow> waveform_value \<Rightarrow> bool" where
  "value_equal \<equiv> waveform_values_equal"

abbreviation parse_render_unit :: "json \<Rightarrow> time_render_unit answered" where
  "parse_render_unit \<equiv> cursor_render_unit"

abbreviation sampling_contract :: "string \<Rightarrow> string \<Rightarrow> json" where
  "sampling_contract \<equiv> event_sampling_contract"

abbreviation observation_point_of :: "string \<Rightarrow> string \<Rightarrow> observation_point" where
  "observation_point_of \<equiv> event_point"

definition contains_xz :: "string \<Rightarrow> bool" where
  "contains_xz bits \<longleftrightarrow> CHR ''x'' \<in> set (lowercase bits) \<or> CHR ''z'' \<in> set (lowercase bits)"

definition contains_bit :: "string \<Rightarrow> char \<Rightarrow> bool" where
  "contains_bit bits expected \<longleftrightarrow> expected \<in> set (lowercase bits)"

definition all_bits :: "string \<Rightarrow> char \<Rightarrow> bool" where
  "all_bits bits expected \<longleftrightarrow> bits \<noteq> [] \<and> list_all (\<lambda>b. b = expected) (lowercase bits)"

definition parse_range :: "stream_wave \<Rightarrow> json \<Rightarrow> (u64 \<times> u64) answered" where
  "parse_range wave args =
     rbind (json_value args ''time_range'' (JObject []) Inr) (\<lambda>range_json.
       range_bounds (action_wave.truncate wave) range_json (''TIME_RANGE_INVALID'', ''end is before begin''))"

definition prepare_signal :: "stream_wave \<Rightarrow> string \<Rightarrow> json + signal_ref \<times> signal_info" where
  "prepare_signal wave signal =
     (let ref = wf_find_signal wave signal
      in if ref = 0 then Inl (signal_missing signal)
         else if \<not> aw_is_loaded wave ref \<and> aw_load_signal wave ref \<noteq> 1 then
           Inl (error_response ''VALUE_NOT_AVAILABLE'' (''failed to load waveform signal: '' @ signal))
         else case wf_signal_info wave ref of
                None \<Rightarrow> Inl (error_response ''VALUE_NOT_AVAILABLE'' (''signal metadata is unavailable: '' @ signal))
              | Some info \<Rightarrow> Inr (ref, info))"

text \<open>The value at the begin, then the changes up to the end that bring another value than the row before.\<close>

fun change_rows :: "stream_wave \<Rightarrow> signal_ref \<Rightarrow> u64 \<Rightarrow> u64 \<Rightarrow> nat list \<Rightarrow> change_row list \<Rightarrow> change_row list" where
  "change_rows wave ref lo hi [] rows = rows"
| "change_rows wave ref lo hi (ti # tis) rows =
     (case (if change_in_range wave lo hi ti then raw_value wave ref ti else None) of
        None \<Rightarrow> change_rows wave ref lo hi tis rows
      | Some v \<Rightarrow>
          if rows \<noteq> [] \<and> value_equal (rw_value (last rows)) v then change_rows wave ref lo hi tis rows
          else change_rows wave ref lo hi tis (rows @ [\<lparr>rw_time = wf_time_at wave ti, rw_value = v\<rparr>]))"

definition initial_rows :: "stream_wave \<Rightarrow> signal_ref \<Rightarrow> u64 \<Rightarrow> change_row list" where
  "initial_rows wave ref lo =
     (case raw_value wave ref (sw_time_idx_of wave lo) of None \<Rightarrow> [] | Some v \<Rightarrow> [\<lparr>rw_time = lo, rw_value = v\<rparr>])"

definition collect_changes :: "stream_wave \<Rightarrow> signal_ref \<Rightarrow> u64 \<Rightarrow> u64 \<Rightarrow> change_row list" where
  "collect_changes wave ref lo hi =
     (if lo > aw_max_time wave \<or> hi < aw_min_time wave then []
      else change_rows wave ref lo hi (wf_time_indices_of wave ref) (initial_rows wave ref lo))"

definition completeness :: "bool \<Rightarrow> bool \<Rightarrow> bool \<Rightarrow> nat \<Rightarrow> nat \<Rightarrow> string list \<Rightarrow> members" where
  "completeness scan_complete analysis_complete response_truncated total_count returned_count scopes =
     [(''scan_complete'', JBool scan_complete), (''analysis_complete'', JBool analysis_complete), (''response_truncated'', JBool response_truncated),
      (''total_count'', JUnsigned total_count), (''returned_count'', JUnsigned returned_count), (''truncation_scopes'', JArray (map JString scopes))]"

definition edge_kind_selected :: "string \<Rightarrow> bool \<Rightarrow> bool \<Rightarrow> bool" where
  "edge_kind_selected edge rising falling = (if edge = ''dual'' then rising \<or> falling else if edge = ''posedge'' then rising else falling)"

text \<open>Every one of the requests begins with the signal, the range, the unit and the format.\<close>

definition optional_time :: "stream_wave \<Rightarrow> time_render_unit \<Rightarrow> u64 option \<Rightarrow> json" where
  "optional_time wave unit t = (case t of None \<Rightarrow> JNull | Some t \<Rightarrow> JString (aw_format_time wave t unit))"

record window_args =
  wa_begin :: u64
  wa_end :: u64
  wa_unit :: time_render_unit
  wa_format :: value_render_format

definition window_of :: "stream_wave \<Rightarrow> json \<Rightarrow> window_args answered" where
  "window_of wave args =
     abind (parse_range wave args) (\<lambda>(lo, hi).
     abind (parse_render_unit args) (\<lambda>unit.
     abind (value_format args) (\<lambda>format. Inr (Inr \<lparr>wa_begin = lo, wa_end = hi, wa_unit = unit, wa_format = format\<rparr>))))"

definition shown_time :: "stream_wave \<Rightarrow> window_args \<Rightarrow> u64 \<Rightarrow> json" where
  "shown_time wave w t = JString (aw_format_time wave t (wa_unit w))"

section \<open>Statistics over value changes\<close>

record activity =
  ay_bursts :: nat
  ay_high :: bool
  ay_first_high :: "u64 option"
  ay_last_high :: "u64 option"
  ay_last_fall :: "u64 option"

definition activity_init :: activity where
  "activity_init = \<lparr>ay_bursts = 0, ay_high = False, ay_first_high = None, ay_last_high = None, ay_last_fall = None\<rparr>"

definition row_high :: "change_row \<Rightarrow> bool" where
  "row_high r \<longleftrightarrow> wv_kind (rw_value r) = BitVector \<and> \<not> contains_xz (wv_text (rw_value r)) \<and> CHR ''1'' \<in> set (wv_text (rw_value r))"

definition activity_step :: "activity \<Rightarrow> change_row \<Rightarrow> activity" where
  "activity_step a r =
     (let high = row_high r;
          a' = (if high then
                  a\<lparr>ay_bursts := (if ay_high a then ay_bursts a else ay_bursts a + 1),
                    ay_first_high := (if ay_first_high a = None then Some (rw_time r) else ay_first_high a), ay_last_high := Some (rw_time r)\<rparr>
                else if ay_high a then a\<lparr>ay_last_fall := Some (rw_time r)\<rparr> else a)
      in a'\<lparr>ay_high := high\<rparr>)"

definition change_statistics :: "stream_wave \<Rightarrow> string \<Rightarrow> signal_ref \<Rightarrow> u32 \<Rightarrow> window_args \<Rightarrow> nat \<Rightarrow> json" where
  "change_statistics wave signal ref width w limit =
     (let rows = collect_changes wave ref (wa_begin w) (wa_end w);
          returned = min (length rows) limit;
          truncated = returned < length rows;
          a = foldl activity_step activity_init rows;
          shown = (\<lambda>v. typed_logic_value v width (wa_format w))
      in ok_response
           (merge_members [(''signal'', JString signal), (''sampling_mode'', JString ''raw_value_changes''), (''begin'', shown_time wave w (wa_begin w)),
              (''end'', shown_time wave w (wa_end w)), (''actual_transition_count'', JUnsigned (if rows = [] then 0 else length rows - 1))]
              (completeness True True truncated (length rows) returned (if truncated then [''response_evidence''] else [])))
           ([(''includes_initial_value'', JBool (rows \<noteq> [])),
             (''activity'', JObject [(''high_burst_count'', JInteger (int (ay_bursts a))), (''first_high_time'', optional_time wave (wa_unit w) (ay_first_high a)),
                (''last_high_time'', optional_time wave (wa_unit w) (ay_last_high a)), (''last_fall_time'', optional_time wave (wa_unit w) (ay_last_fall a)),
                (''max_high_cycles'', JNull)])] @
            (if rows = [] then []
             else [(''initial_value'', shown (rw_value (hd rows))), (''final_value'', shown (rw_value (last rows))),
               (''first_change_time'', shown_time wave w (rw_time (hd rows))), (''last_change_time'', shown_time wave w (rw_time (last rows)))]) @
            [(''evidence'', JArray (map (\<lambda>(i, r). JObject [(''time'', shown_time wave w (rw_time r)),
                (''kind'', JString (if i = 0 then ''initial'' else ''value_change'')), (''value'', shown (rw_value r))]) (enumerate 0 (take returned rows))))]))"

section \<open>Statistics over clock edges\<close>

text \<open>The indices at which the clock changes, each once although a clock may change several times at one.\<close>

definition distinct_indices :: "nat list \<Rightarrow> nat list" where
  "distinct_indices tis = remdups_adj (dropWhile (\<lambda>ti. (of_nat ti :: u32) = - 1) tis)"

definition window_edge :: "stream_wave \<Rightarrow> signal_ref \<Rightarrow> u64 \<Rightarrow> u64 \<Rightarrow> string \<Rightarrow> nat \<Rightarrow> bool" where
  "window_edge wave clock lo hi edge ti \<longleftrightarrow>
     lo \<le> wf_time_at wave ti \<and> wf_time_at wave ti \<le> hi \<and>
     (case (wf_sampled_value_at wave clock ti Before, wf_sampled_value_at wave clock ti Raw) of
        (Some before_clock, Some raw_clock) \<Rightarrow>
          edge_kind_selected edge (is_rising_edge (wv_text (sv_value before_clock)) (wv_text (sv_value raw_clock)))
            (is_falling_edge (wv_text (sv_value before_clock)) (wv_text (sv_value raw_clock)))
      | _ \<Rightarrow> False)"

record statistics =
  st_samples :: nat
  st_known :: nat
  st_unknown :: nat
  st_high_cycles :: nat
  st_low_cycles :: nat
  st_bursts :: nat
  st_current_high :: nat
  st_max_high :: nat
  st_transitions :: nat
  st_truncated :: bool
  st_high :: bool
  st_first_bits :: "string option"
  st_final_bits :: string
  st_min_bits :: string
  st_max_bits :: string
  st_first_change :: "u64 option"
  st_last_change :: "u64 option"
  st_first_high :: "u64 option"
  st_last_high :: "u64 option"
  st_last_fall :: "u64 option"
  st_evidence :: "(u64 \<times> string \<times> waveform_value) list"

definition statistics_init :: statistics where
  "statistics_init = \<lparr>st_samples = 0, st_known = 0, st_unknown = 0, st_high_cycles = 0, st_low_cycles = 0, st_bursts = 0, st_current_high = 0,
     st_max_high = 0, st_transitions = 0, st_truncated = False, st_high = False, st_first_bits = None, st_final_bits = [], st_min_bits = [],
     st_max_bits = [], st_first_change = None, st_last_change = None, st_first_high = None, st_last_high = None, st_last_fall = None, st_evidence = []\<rparr>"

text \<open>
  The bits of a sample that counts as known. The evidence is kept in full; the response shows as many of its rows as the limit
  allows and counts them all.
\<close>

definition known_sample :: "waveform_value option \<Rightarrow> string option" where
  "known_sample v = (case v of None \<Rightarrow> None
     | Some v \<Rightarrow> if wv_kind v \<noteq> BitVector \<or> contains_xz (wv_text v) then None else Some (lowercase (wv_text v)))"

definition unknown_value :: "u32 \<Rightarrow> waveform_value option \<Rightarrow> waveform_value" where
  "unknown_value width v =
     (let text = (case v of None \<Rightarrow> [] | Some v \<Rightarrow> wv_text v)
      in waveform_value_init\<lparr>wv_text := (if text = [] then replicate (max 1 (unat width)) (CHR ''x'') else text)\<rparr>)"

text \<open>The end of a run of high samples, and a sample that is high.\<close>

definition end_run :: "u64 \<Rightarrow> statistics \<Rightarrow> statistics" where
  "end_run time a = (if st_high a then a\<lparr>st_max_high := max (st_max_high a) (st_current_high a), st_current_high := 0, st_last_fall := Some time\<rparr> else a)"

definition extend_run :: "u64 \<Rightarrow> statistics \<Rightarrow> statistics" where
  "extend_run time a =
     (let a' = (if st_high a then a
                else a\<lparr>st_bursts := st_bursts a + 1, st_current_high := 0,
                  st_first_high := (if st_first_high a = None then Some time else st_first_high a)\<rparr>)
      in a'\<lparr>st_current_high := st_current_high a' + 1, st_last_high := Some time\<rparr>)"

definition count_level :: "u64 \<Rightarrow> string \<Rightarrow> statistics \<Rightarrow> statistics" where
  "count_level time bits a =
     (let nonzero = CHR ''1'' \<in> set bits;
          high = nonzero \<and> length bits = 1;
          a1 = (if \<not> nonzero then a\<lparr>st_low_cycles := st_low_cycles a + 1\<rparr> else if high then a\<lparr>st_high_cycles := st_high_cycles a + 1\<rparr> else a)
      in (if high then extend_run time a1 else end_run time a1)\<lparr>st_high := high\<rparr>)"

text \<open>The variable \<open>previous_bits\<close> of the code always has the value of \<open>final_bits\<close>, and one field stands for both.\<close>

definition compare_bits :: "u64 \<Rightarrow> string \<Rightarrow> waveform_value \<Rightarrow> statistics \<Rightarrow> statistics" where
  "compare_bits time bits v a =
     (if st_first_bits a = None then a\<lparr>st_first_bits := Some bits, st_final_bits := bits, st_min_bits := bits, st_max_bits := bits\<rparr>
      else
        let a1 = (if bits \<noteq> st_final_bits a then
                    a\<lparr>st_transitions := st_transitions a + 1, st_evidence := st_evidence a @ [(time, ''value_change'', v)],
                      st_first_change := (if st_first_change a = None then Some time else st_first_change a), st_last_change := Some time\<rparr>
                  else a)
        in a1\<lparr>st_min_bits := (if bits < st_min_bits a then bits else st_min_bits a),
             st_max_bits := (if st_max_bits a < bits then bits else st_max_bits a), st_final_bits := bits\<rparr>)"

definition take_sample :: "u32 \<Rightarrow> u64 \<Rightarrow> waveform_value option \<Rightarrow> statistics \<Rightarrow> statistics" where
  "take_sample width time sampled a =
     (let a = a\<lparr>st_samples := st_samples a + 1\<rparr>
      in case known_sample sampled of
           None \<Rightarrow>
             (end_run time (a\<lparr>st_unknown := st_unknown a + 1, st_evidence := st_evidence a @ [(time, ''unknown'', unknown_value width sampled)]\<rparr>))\<lparr>st_high := False\<rparr>
         | Some bits \<Rightarrow> compare_bits time bits (the sampled) (count_level time bits (a\<lparr>st_known := st_known a + 1\<rparr>)))"

fun statistics_loop :: "(nat \<Rightarrow> bool) \<Rightarrow> (nat \<Rightarrow> u64) \<Rightarrow> (nat \<Rightarrow> waveform_value option) \<Rightarrow> u32 \<Rightarrow> nat \<Rightarrow> nat list \<Rightarrow> statistics \<Rightarrow> statistics" where
  "statistics_loop edge time sample width limit [] a = a"
| "statistics_loop edge time sample width limit (ti # tis) a =
     (if \<not> edge ti then statistics_loop edge time sample width limit tis a
      else if st_samples a \<ge> limit then a\<lparr>st_truncated := True\<rparr>
      else statistics_loop edge time sample width limit tis (take_sample width (time ti) (sample ti) a))"

definition close_run :: "statistics \<Rightarrow> statistics" where
  "close_run a = (if st_high a then a\<lparr>st_max_high := max (st_max_high a) (st_current_high a)\<rparr> else a)"

definition point_value :: "stream_wave \<Rightarrow> signal_ref \<Rightarrow> observation_point \<Rightarrow> nat \<Rightarrow> waveform_value option" where
  "point_value wave ref point ti = map_option sv_value (wf_sampled_value_at wave ref ti point)"

definition clock_statistics ::
  "stream_wave \<Rightarrow> signal_ref \<Rightarrow> u32 \<Rightarrow> signal_ref \<Rightarrow> window_args \<Rightarrow> string \<Rightarrow> observation_point \<Rightarrow> nat \<Rightarrow> statistics" where
  "clock_statistics wave ref width clock w edge point limit =
     close_run (statistics_loop (window_edge wave clock (wa_begin w) (wa_end w) edge) (wf_time_at wave) (point_value wave ref point) width limit
       (distinct_indices (wf_time_indices_of wave clock)) statistics_init)"

text \<open>
  The quotient of two counts as a double: the counts are rounded to 53 significant bits, and so is the quotient. \<open>scale_up\<close>
  doubles the numerator until it reaches the denominator, and counts the steps. How the JSON library prints a double is a
  parameter.
\<close>

fun bit_length :: "nat \<Rightarrow> nat" where
  "bit_length n = (if n = 0 then 0 else bit_length (n div 2) + 1)"

definition double_of_count :: "nat \<Rightarrow> nat" where
  "double_of_count n = (let k = bit_length n - 53 in round_even n (2 ^ k) * 2 ^ k)"

definition scale_up :: "nat \<Rightarrow> nat \<Rightarrow> nat \<times> nat" where
  "scale_up n d = (let k = bit_length d - bit_length n in if n * 2 ^ k \<ge> d then (n * 2 ^ k, k) else (n * 2 ^ (k + 1), k + 1))"

definition count_ratio :: "nat \<Rightarrow> nat \<Rightarrow> double" where
  "count_ratio part among =
     (let n = double_of_count part; d = double_of_count among
      in if n = 0 then Double 0
         else let (n', k) = scale_up n d
              in Double (of_nat ((1022 - k) * 2 ^ 52 + round_even (n' * 2 ^ 52) d)))"

definition statistics_summary :: "stream_wave \<Rightarrow> string \<Rightarrow> string \<Rightarrow> window_args \<Rightarrow> nat \<Rightarrow> statistics \<Rightarrow> members" where
  "statistics_summary wave signal clock w limit a =
     (let returned = min (length (st_evidence a)) limit;
          truncated = returned < length (st_evidence a)
      in merge_members [(''signal'', JString signal), (''sampling_mode'', JString ''clock_edge''), (''clock'', JString clock),
           (''sample_time_semantics'', JString ''time is sample_time''), (''sample_count'', JUnsigned (st_samples a)), (''known_count'', JUnsigned (st_known a)),
           (''unknown_count'', JUnsigned (st_unknown a)), (''begin'', shown_time wave w (wa_begin w)), (''end'', shown_time wave w (wa_end w))]
           (completeness (\<not> st_truncated a) (\<not> st_truncated a) truncated (length (st_evidence a)) returned
              ((if st_truncated a then [''analysis_samples''] else []) @ (if truncated then [''response_evidence''] else []))))"

definition statistics_data :: "(double \<Rightarrow> string) \<Rightarrow> stream_wave \<Rightarrow> u32 \<Rightarrow> window_args \<Rightarrow> string \<Rightarrow> string \<Rightarrow> nat \<Rightarrow> statistics \<Rightarrow> members" where
  "statistics_data float_text wave width w edge requested_point limit a =
     (let shown = (\<lambda>v. typed_logic_value v width (wa_format w));
          bits_value = (\<lambda>bits. shown (waveform_value_init\<lparr>wv_text := bits\<rparr>));
          optional = optional_time wave (wa_unit w)
      in [(''evidence'', JArray (map (\<lambda>(time, kind, v). JObject [(''time'', shown_time wave w time), (''kind'', JString kind), (''value'', shown v)])
            (take limit (st_evidence a)))), (''transition_count'', JUnsigned (st_transitions a)), (''sampling'', sampling_contract edge requested_point)] @
         (case st_first_bits a of None \<Rightarrow> []
          | Some first_bits \<Rightarrow>
              [(''first'', bits_value first_bits), (''final'', bits_value (st_final_bits a)), (''min'', bits_value (st_min_bits a)),
               (''max'', bits_value (st_max_bits a)), (''low_cycles'', JUnsigned (st_low_cycles a)), (''high_cycles'', JUnsigned (st_high_cycles a)),
               (''high_ratio'', JFloat (float_text (count_ratio (st_high_cycles a) (st_known a))))] @
              (if st_first_change a = None then [] else [(''first_change_time'', optional (st_first_change a))]) @
              (if st_last_change a = None then [] else [(''last_change_time'', optional (st_last_change a))]) @
              [(''activity'', JObject [(''high_burst_count'', JUnsigned (st_bursts a)), (''first_high_time'', optional (st_first_high a)),
                 (''last_high_time'', optional (st_last_high a)), (''last_fall_time'', optional (st_last_fall a)), (''max_high_cycles'', JUnsigned (st_max_high a))])]))"

definition sampled_statistics ::
  "(double \<Rightarrow> string) \<Rightarrow> stream_wave \<Rightarrow> json \<Rightarrow> string \<Rightarrow> signal_ref \<Rightarrow> signal_info \<Rightarrow> window_args \<Rightarrow> json answered" where
  "sampled_statistics float_text wave args signal ref info w =
     (if si_encoding info \<noteq> BitVector then
        Inr (Inl (error_response ''INVALID_SIGNAL_TYPE'' ''clock-sampled statistics requires a bit-vector signal''))
      else
        rbind (string_at_key args ''clock'') (\<lambda>clock.
        case prepare_signal wave clock of
          Inl e \<Rightarrow> Inr (Inl (error_response ''CLOCK_NOT_FOUND'' (''clock signal not found: '' @ clock)))
        | Inr (clock_ref, clock_info) \<Rightarrow>
            rbind (json_value args ''edge'' ''negedge'' get_string) (\<lambda>edge.
            if edge \<notin> {''posedge'', ''negedge'', ''dual''} then
              Inr (Inl (error_response ''INVALID_FIELD'' ''args.edge must be posedge, negedge, or dual''))
            else
              rbind (json_value args ''sample_point'' [] get_string) (\<lambda>requested_point.
              rbind (json_value args ''line_limit'' 100 get_u32) (\<lambda>evidence_limit.
              rbind (json_value args ''max_samples'' (- 1) get_u64) (\<lambda>sample_limit.
                let a = clock_statistics wave ref (si_width info) clock_ref w edge (observation_point_of edge requested_point) (unat sample_limit)
                in Inr (Inr (ok_response (statistics_summary wave signal clock w (unat evidence_limit) a)
                     (statistics_data float_text wave (si_width info) w edge requested_point (unat evidence_limit) a)))))))))"

definition signal_statistics :: "(double \<Rightarrow> string) \<Rightarrow> stream_wave \<Rightarrow> json \<Rightarrow> json handled" where
  "signal_statistics float_text wave req = responded (
     rbind (json_at req ''args'') (\<lambda>args.
     rbind (string_at_key args ''signal'') (\<lambda>signal.
     abind (Inr (prepare_signal wave signal)) (\<lambda>(ref, info).
     abind (window_of wave args) (\<lambda>w.
       if \<not> json_contains args ''clock'' then
         (if json_contains args ''edge'' \<or> json_contains args ''sample_point'' then
            Inr (Inl (error_response ''INVALID_FIELD'' ''edge and sample_point require args.clock for signal.statistics''))
          else rbind (json_value args ''line_limit'' 100 get_u32) (\<lambda>limit.
            Inr (Inr (change_statistics wave signal ref (si_width info) w (unat limit)))))
       else sampled_statistics float_text wave args signal ref info w)))))"

section \<open>Stability\<close>

fun stability_loop :: "waveform_value \<Rightarrow> change_row list \<Rightarrow> change_row list \<times> bool" where
  "stability_loop v [] = ([], True)"
| "stability_loop v (r # rs) =
     (if \<not> value_equal (rw_value r) v then ([r], False) else let (shown, stable) = stability_loop v rs in (r # shown, stable))"

definition stability_of :: "change_row list \<Rightarrow> change_row list \<times> bool" where
  "stability_of rows = (case rows of [] \<Rightarrow> ([], True) | r # rs \<Rightarrow> let (shown, stable) = stability_loop (rw_value r) rs in (r # shown, stable))"

definition signal_stability :: "stream_wave \<Rightarrow> json \<Rightarrow> json handled" where
  "signal_stability wave req = responded (
     rbind (json_at req ''args'') (\<lambda>args.
     rbind (string_at_key args ''signal'') (\<lambda>signal.
     abind (Inr (prepare_signal wave signal)) (\<lambda>(ref, info).
     abind (window_of wave args) (\<lambda>w.
       let (rows, stable) = stability_of (collect_changes wave ref (wa_begin w) (wa_end w))
       in Inr (Inr (ok_response
            (merge_members [(''stable'', JBool stable), (''change_row_count'', JUnsigned (length rows)),
               (''actual_transition_count'', JInteger (if stable then 0 else 1)), (''scan_stopped_on_first_transition'', JBool (\<not> stable))]
               (completeness stable True False (length rows) (length rows) (if stable then [] else [''scan_after_first_transition''])))
            [(''signal'', JString signal), (''begin'', shown_time wave w (wa_begin w)), (''end'', shown_time wave w (wa_end w)),
             (''changes'', JArray (map (\<lambda>r. JObject [(''time'', shown_time wave w (rw_time r)),
                (''value'', typed_logic_value (rw_value r) (si_width info) (wa_format w))]) rows)),
             (''includes_initial_value'', JBool (rows \<noteq> []))])))))))"

section \<open>Unknown states\<close>

definition row_matches :: "string \<Rightarrow> char \<Rightarrow> change_row \<Rightarrow> bool" where
  "row_matches mode expected r = (if mode = ''exact'' then all_bits (wv_text (rw_value r)) expected else contains_bit (wv_text (rw_value r)) expected)"

text \<open>How many rows were checked, and the first that does not match.\<close>

fun verify_rows :: "string \<Rightarrow> char \<Rightarrow> change_row list \<Rightarrow> nat \<Rightarrow> nat \<times> change_row option" where
  "verify_rows mode expected [] checked = (checked, None)"
| "verify_rows mode expected (r # rs) checked =
     (if row_matches mode expected r then verify_rows mode expected rs (checked + 1) else (checked + 1, Some r))"

definition first_char :: "string \<Rightarrow> char" where
  "first_char t = (case t of [] \<Rightarrow> CHR 0x00 | c # _ \<Rightarrow> c)"

definition verify_response :: "stream_wave \<Rightarrow> string \<Rightarrow> string \<Rightarrow> string \<Rightarrow> u32 \<Rightarrow> window_args \<Rightarrow> change_row list \<Rightarrow> json" where
  "verify_response wave signal expected mode width w rows =
     (let (checked, mismatch) = verify_rows mode (first_char expected) rows 0;
          matched_all = (mismatch = None);
          shown = (\<lambda>r. typed_logic_value (rw_value r) width (wa_format w))
      in ok_response
           (merge_members [(''signal'', JString signal), (''expected_state'', JString expected), (''match_mode'', JString mode),
              (''verdict'', JString (if matched_all then ''pass'' else ''fail'')), (''always_matched'', JBool matched_all),
              (''checked_value_count'', JUnsigned checked), (''stop_reason'', JString (if matched_all then ''window_end'' else ''first_mismatch''))]
              (completeness matched_all True False checked checked []))
           [(''time_range'', JObject [(''begin'', shown_time wave w (wa_begin w)), (''end'', shown_time wave w (wa_end w))]),
            (''initial_value'', shown (hd rows)),
            (''first_mismatch'', case mismatch of None \<Rightarrow> JNull
               | Some r \<Rightarrow> JObject [(''sample_time'', shown_time wave w (rw_time r)), (''value'', shown r)]),
            (''sample_time_semantics'', JString ''sample_time is the finalized raw waveform value-change time in the closed interval'')])"

definition signal_xz_verify :: "stream_wave \<Rightarrow> json \<Rightarrow> json handled" where
  "signal_xz_verify wave req = responded (
     rbind (json_at req ''args'') (\<lambda>args.
     rbind (string_at_key args ''signal'') (\<lambda>signal.
     rbind (string_at_key args ''expected_state'') (\<lambda>expected.
     rbind (json_value args ''match_mode'' ''exact'' get_string) (\<lambda>mode.
     abind (Inr (prepare_signal wave signal)) (\<lambda>(ref, info).
       if si_encoding info \<noteq> BitVector then
         Inr (Inl (error_response ''INVALID_SIGNAL_TYPE'' ''signal.xz_verify requires a bit-vector signal''))
       else
         abind (window_of wave args) (\<lambda>w.
           let rows = collect_changes wave ref (wa_begin w) (wa_end w)
           in if rows = [] then
                Inr (Inl (error_response ''VALUE_NOT_AVAILABLE''
                  (''no waveform value is available for signal '' @ signal @ '' in the requested window'')))
              else Inr (Inr (verify_response wave signal expected mode (si_width info) w rows)))))))))"

section \<open>Anomalies\<close>

record anomaly_rules =
  ru_unknown :: bool
  ru_glitch :: "u64 option"
  ru_stuck :: "u64 option"

text \<open>A duration of a check, which must not be zero.\<close>

definition check_duration :: "stream_wave \<Rightarrow> json \<Rightarrow> string \<Rightarrow> u64 answered" where
  "check_duration wave check key =
     rbind (string_at_key check key) (\<lambda>text.
       Inr (case aw_parse_time wave text False of
              Inl message \<Rightarrow> Inl (error_response ''INVALID_TIME'' (if message = [] then key @ '' must be greater than zero'' else message))
            | Inr t \<Rightarrow> if t = 0 then Inl (error_response ''INVALID_TIME'' (key @ '' must be greater than zero'')) else Inr t))"

fun read_checks :: "stream_wave \<Rightarrow> json list \<Rightarrow> anomaly_rules \<Rightarrow> anomaly_rules answered" where
  "read_checks wave [] r = Inr (Inr r)"
| "read_checks wave (c # cs) r =
     rbind (string_at_key c ''type'') (\<lambda>type.
       if type = ''unknown_xz'' then read_checks wave cs (r\<lparr>ru_unknown := True\<rparr>)
       else if type = ''glitch'' then abind (check_duration wave c ''min_pulse_width'') (\<lambda>t. read_checks wave cs (r\<lparr>ru_glitch := Some t\<rparr>))
       else if type = ''stuck'' then abind (check_duration wave c ''min_duration'') (\<lambda>t. read_checks wave cs (r\<lparr>ru_stuck := Some t\<rparr>))
       else read_checks wave cs r)"

definition anomaly_rules_of :: "stream_wave \<Rightarrow> json \<Rightarrow> anomaly_rules answered" where
  "anomaly_rules_of wave checks =
     (if json_empty checks then
        Inr (case aw_parse_time wave ''1us'' False of
               Inl message \<Rightarrow> Inl (error_response ''INVALID_TIME'' message)
             | Inr t \<Rightarrow> Inr \<lparr>ru_unknown = True, ru_glitch = None, ru_stuck = Some t\<rparr>)
      else read_checks wave (json_items checks) \<lparr>ru_unknown = False, ru_glitch = None, ru_stuck = None\<rparr>)"

definition unknown_finding :: "stream_wave \<Rightarrow> window_args \<Rightarrow> string \<Rightarrow> u32 \<Rightarrow> anomaly_rules \<Rightarrow> change_row \<Rightarrow> json list" where
  "unknown_finding wave w signal width rules r =
     (if ru_unknown rules \<and> wv_kind (rw_value r) = BitVector \<and> contains_xz (wv_text (rw_value r)) then
        [JObject [(''type'', JString ''unknown_xz''), (''signal'', JString signal), (''severity'', JString ''warning''),
           (''time'', shown_time wave w (rw_time r)), (''value'', typed_logic_value (rw_value r) width (wa_format w))]]
      else [])"

definition glitch_finding :: "stream_wave \<Rightarrow> window_args \<Rightarrow> string \<Rightarrow> anomaly_rules \<Rightarrow> change_row \<Rightarrow> u64 \<Rightarrow> json list" where
  "glitch_finding wave w signal rules r duration =
     (case ru_glitch rules of None \<Rightarrow> []
      | Some glitch_width \<Rightarrow>
          if duration > 0 \<and> duration < glitch_width then
            [JObject [(''type'', JString ''glitch''), (''signal'', JString signal), (''severity'', JString ''info''),
               (''time'', shown_time wave w (rw_time r)), (''pulse_width'', shown_time wave w duration)]]
          else [])"

definition stuck_finding :: "stream_wave \<Rightarrow> window_args \<Rightarrow> string \<Rightarrow> u32 \<Rightarrow> anomaly_rules \<Rightarrow> change_row \<Rightarrow> u64 \<Rightarrow> members \<Rightarrow> json list" where
  "stuck_finding wave w signal width rules r until extra =
     (case ru_stuck rules of None \<Rightarrow> []
      | Some stuck_duration \<Rightarrow>
          let duration = until - rw_time r
          in if duration \<ge> stuck_duration then
               [JObject ([(''type'', JString ''stuck''), (''signal'', JString signal), (''severity'', JString ''warning''),
                  (''begin'', shown_time wave w (rw_time r)), (''end'', shown_time wave w until), (''duration'', shown_time wave w duration),
                  (''value'', typed_logic_value (rw_value r) width (wa_format w))] @ extra)]
             else [])"

fun row_findings :: "stream_wave \<Rightarrow> window_args \<Rightarrow> string \<Rightarrow> u32 \<Rightarrow> anomaly_rules \<Rightarrow> change_row list \<Rightarrow> json list" where
  "row_findings wave w signal width rules [] = []"
| "row_findings wave w signal width rules [r] =
     unknown_finding wave w signal width rules r @
     (if wa_end w \<ge> rw_time r then stuck_finding wave w signal width rules r (wa_end w) [(''open_at_window_end'', JBool True)] else [])"
| "row_findings wave w signal width rules (r # r' # rs) =
     unknown_finding wave w signal width rules r @ glitch_finding wave w signal rules r (rw_time r' - rw_time r) @
     stuck_finding wave w signal width rules r (rw_time r') [] @ row_findings wave w signal width rules (r' # rs)"

text \<open>The findings and the status of one signal; a signal that cannot be read makes the analysis incomplete.\<close>

definition inspect_signal :: "stream_wave \<Rightarrow> window_args \<Rightarrow> anomaly_rules \<Rightarrow> json \<Rightarrow> (json list \<times> json \<times> bool) handled" where
  "inspect_signal wave w rules item =
     rbind (get_string item) (\<lambda>signal.
       Inr (case prepare_signal wave signal of
              Inl e \<Rightarrow> ([], JObject [(''signal'', JString signal), (''status'', JString ''error''), (''analysis_complete'', JBool False),
                         (''message'', get_member (get_member e ''error'') ''message'')], False)
            | Inr (ref, info) \<Rightarrow>
                let rows = collect_changes wave ref (wa_begin w) (wa_end w);
                    findings = row_findings wave w signal (si_width info) rules rows
                in (findings, JObject [(''signal'', JString signal), (''status'', JString ''ok''), (''analysis_complete'', JBool True),
                      (''change_row_count'', JUnsigned (length rows)), (''finding_count'', JUnsigned (length findings)),
                      (''no_finding_reason'', if findings = [] then JString ''no configured rule matched in the requested window'' else JNull)], True)))"

definition anomaly_response :: "stream_wave \<Rightarrow> window_args \<Rightarrow> anomaly_rules \<Rightarrow> json \<Rightarrow> nat \<Rightarrow> (json list \<times> json \<times> bool) list \<Rightarrow> json" where
  "anomaly_response wave w rules checks limit results =
     (let findings = concat (map fst results);
          shown = take limit findings;
          complete = list_all (snd \<circ> snd) results;
          truncated = length shown < length findings
      in ok_response
           (merge_members [(''signal_count'', JUnsigned (length results)), (''checks'', checks),
              (''glitch_threshold'', optional_time wave (wa_unit w) (ru_glitch rules)), (''stuck_threshold'', optional_time wave (wa_unit w) (ru_stuck rules))]
              (completeness complete complete truncated (length findings) (length shown)
                 ((if complete then [] else [''analysis_signals'']) @ (if truncated then [''response_findings''] else []))))
           [(''findings'', JArray shown), (''scan_status'', JArray (map (fst \<circ> snd) results))])"

definition signal_anomaly_inspect :: "stream_wave \<Rightarrow> json \<Rightarrow> json handled" where
  "signal_anomaly_inspect wave req = responded (
     rbind (json_at req ''args'') (\<lambda>args.
     abind (window_of wave args) (\<lambda>w.
     rbind (json_value args ''checks'' (JArray []) Inr) (\<lambda>checks.
     abind (anomaly_rules_of wave checks) (\<lambda>rules.
     rbind (json_value args ''line_limit'' 50 get_u32) (\<lambda>limit.
     rbind (json_at args ''signals'') (\<lambda>signals.
     rbind (handle_all (inspect_signal wave w rules) (json_items signals)) (\<lambda>results.
       Inr (Inr (anomaly_response wave w rules checks (unat limit) results))))))))))"

end
