(* ===== verification/Signal_Analysis_Properties.thy ===== *)
theory Signal_Analysis_Properties
  imports Signal_Analysis
begin

text \<open>
  What the analysis of signals guarantees: the collected rows are the values of the signal, a verified state holds throughout,
  and the statistics over clock edges are those of the sequence of samples.
\<close>

section \<open>Value changes\<close>

definition keep_row :: "change_row list \<Rightarrow> u64 \<times> waveform_value \<Rightarrow> change_row list" where
  "keep_row rows s =
     (if rows \<noteq> [] \<and> value_equal (rw_value (last rows)) (snd s) then rows else rows @ [\<lparr>rw_time = fst s, rw_value = snd s\<rparr>])"

definition change_samples :: "stream_wave \<Rightarrow> signal_ref \<Rightarrow> u64 \<Rightarrow> u64 \<Rightarrow> nat list \<Rightarrow> (u64 \<times> waveform_value) list" where
  "change_samples wave ref lo hi tis =
     concat (map (\<lambda>ti. case (if change_in_range wave lo hi ti then raw_value wave ref ti else None) of None \<Rightarrow> [] | Some v \<Rightarrow> [(wf_time_at wave ti, v)]) tis)"

text \<open>The values that a signal takes in a window: the one at its begin, and those of its changes after the begin.\<close>

definition window_samples :: "stream_wave \<Rightarrow> signal_ref \<Rightarrow> u64 \<Rightarrow> u64 \<Rightarrow> (u64 \<times> waveform_value) list" where
  "window_samples wave ref lo hi =
     (case raw_value wave ref (sw_time_idx_of wave lo) of None \<Rightarrow> [] | Some v \<Rightarrow> [(lo, v)]) @ change_samples wave ref lo hi (wf_time_indices_of wave ref)"

text \<open>The last row up to a time has a value.\<close>

definition row_shows :: "change_row list \<Rightarrow> u64 \<Rightarrow> waveform_value \<Rightarrow> bool" where
  "row_shows rows t v \<longleftrightarrow>
     (let rs = filter (\<lambda>r. rw_time r \<le> t) rows in rs \<noteq> [] \<and> (rw_value (last rs) = v \<or> value_equal (rw_value (last rs)) v))"

definition times_in_order :: "stream_wave \<Rightarrow> signal_ref \<Rightarrow> bool" where
  "times_in_order wave ref \<longleftrightarrow>
     sorted (map (wf_time_at wave) (wf_time_indices_of wave ref)) \<and> inj_on (wf_time_at wave) (set (wf_time_indices_of wave ref))"

lemma change_rows_keep: "change_rows wave ref lo hi tis rows = foldl keep_row rows (change_samples wave ref lo hi tis)"
  by (induction tis arbitrary: rows) (auto simp: change_samples_def keep_row_def split: option.splits)

lemma collect_changes_keep:
  assumes "lo \<le> aw_max_time wave" "aw_min_time wave \<le> hi"
  shows "collect_changes wave ref lo hi = foldl keep_row [] (window_samples wave ref lo hi)"
  using assms by (auto simp: collect_changes_def change_rows_keep window_samples_def initial_rows_def keep_row_def split: option.splits)

lemma change_samples_in: "(t, v) \<in> set (change_samples wave ref lo hi tis) \<Longrightarrow> \<exists>ti \<in> set tis. t = wf_time_at wave ti \<and> raw_value wave ref ti = Some v \<and> lo < t"
  by (auto simp: change_samples_def change_in_range_def split: option.splits if_splits)

lemma change_samples_sorted: "sorted (map (wf_time_at wave) tis) \<Longrightarrow> sorted (map fst (change_samples wave ref lo hi tis))"
proof (induction tis)
  case (Cons ti tis)
  then have "\<forall>s \<in> set (change_samples wave ref lo hi tis). wf_time_at wave ti \<le> fst s" using change_samples_in by fastforce
  then show ?case using Cons by (auto simp: change_samples_def split: option.splits)
qed (simp add: change_samples_def)

lemma window_samples_sorted: "times_in_order wave ref \<Longrightarrow> sorted (map fst (window_samples wave ref lo hi))"
  by (auto simp: window_samples_def times_in_order_def sorted_append change_samples_sorted split: option.splits dest!: change_samples_in)

lemma window_samples_functional:
  assumes "times_in_order wave ref" "(t, v) \<in> set (window_samples wave ref lo hi)" "(t, v') \<in> set (window_samples wave ref lo hi)"
  shows "v = v'"
proof -
  have one: "w = w'" if "(u, w) \<in> set (change_samples wave ref lo hi (wf_time_indices_of wave ref))"
      "(u, w') \<in> set (change_samples wave ref lo hi (wf_time_indices_of wave ref))" for u w w'
  proof -
    obtain i j where "i \<in> set (wf_time_indices_of wave ref)" "u = wf_time_at wave i" "raw_value wave ref i = Some w"
        "j \<in> set (wf_time_indices_of wave ref)" "u = wf_time_at wave j" "raw_value wave ref j = Some w'"
      using change_samples_in [OF \<open>(u, w) \<in> _\<close>] change_samples_in [OF \<open>(u, w') \<in> _\<close>] by blast
    moreover from this have "i = j" using assms(1) inj_onD unfolding times_in_order_def by metis
    ultimately show ?thesis by simp
  qed
  have later: "lo < u" if "(u, w) \<in> set (change_samples wave ref lo hi (wf_time_indices_of wave ref))" for u w
    using change_samples_in [OF that] by blast
  show ?thesis
  proof (cases "raw_value wave ref (sw_time_idx_of wave lo)")
    case None
    then show ?thesis using assms(2,3) one by (simp add: window_samples_def)
  next
    case (Some b)
    then show ?thesis using assms(2,3) one later [of t v] later [of t v'] by (auto simp: window_samples_def)
  qed
qed

lemma successively_snoc: "successively P (xs @ [x]) \<longleftrightarrow> successively P xs \<and> (xs = [] \<or> P (last xs) x)"
  by (auto simp: successively_append_iff)

lemma keep_rows_exact:
  assumes "sorted (map fst S)" "\<forall>t v v'. (t, v) \<in> set S \<longrightarrow> (t, v') \<in> set S \<longrightarrow> v = v'"
  shows "let R = foldl keep_row [] S in
    (\<forall>r \<in> set R. (rw_time r, rw_value r) \<in> set S) \<and> sorted (map rw_time R) \<and>
    successively (\<lambda>r r'. \<not> value_equal (rw_value r) (rw_value r')) R \<and>
    (S \<noteq> [] \<longrightarrow> R \<noteq> [] \<and> (rw_value (last R) = snd (last S) \<or> value_equal (rw_value (last R)) (snd (last S)))) \<and>
    (\<forall>(t, v) \<in> set S. row_shows R t v)"
  using assms
proof (induction S rule: rev_induct)
  case (snoc s S)
  obtain t v where s: "s = (t, v)" by fastforce
  define R where "R = foldl keep_row [] S"
  define R' where "R' = keep_row R s"
  have srt: "sorted (map fst S)" and le: "\<And>t' v'. (t', v') \<in> set S \<Longrightarrow> t' \<le> t" using snoc.prems(1) s by (auto simp: sorted_append)
  have IH: "\<forall>r \<in> set R. (rw_time r, rw_value r) \<in> set S" "sorted (map rw_time R)"
      "successively (\<lambda>r r'. \<not> value_equal (rw_value r) (rw_value r')) R" "\<And>t v. (t, v) \<in> set S \<Longrightarrow> row_shows R t v"
    using snoc.IH [OF srt] snoc.prems(2) unfolding R_def Let_def by (auto 4 3)
  have R't: "\<forall>r \<in> set R'. rw_time r \<le> t" using IH(1) le s by (auto simp: R'_def keep_row_def)
  have last': "R' \<noteq> [] \<and> (rw_value (last R') = v \<or> value_equal (rw_value (last R')) v)" by (auto simp: R'_def keep_row_def s)
  then have new: "row_shows R' t v" using R't by (simp add: row_shows_def filter_id_conv Let_def)
  have old: "row_shows R' t' v'" if "(t', v') \<in> set S" for t' v'
  proof (cases "t' = t")
    case True
    then have "v' = v" using snoc.prems(2) that s by auto
    then show ?thesis using new True by simp
  next
    case False
    then have "t' < t" using le that by fastforce
    then have "filter (\<lambda>r. rw_time r \<le> t') R' = filter (\<lambda>r. rw_time r \<le> t') R" by (auto simp: R'_def keep_row_def s)
    then show ?thesis using IH(4) [OF that] by (simp add: row_shows_def)
  qed
  have "sorted (map rw_time R')" using IH(1,2) le s by (auto simp: R'_def keep_row_def sorted_append)
  moreover have "successively (\<lambda>r r'. \<not> value_equal (rw_value r) (rw_value r')) R'" using IH(3) by (auto simp: R'_def keep_row_def successively_snoc)
  moreover have "\<forall>r \<in> set R'. (rw_time r, rw_value r) \<in> set (S @ [s])" using IH(1) s by (auto simp: R'_def keep_row_def)
  moreover have "\<forall>(t', v') \<in> set (S @ [s]). row_shows R' t' v'" using new old s by auto
  moreover have "foldl keep_row [] (S @ [s]) = R'" by (simp add: R_def R'_def)
  ultimately show ?case using last' s by (simp add: Let_def)
qed (simp add: Let_def)

lemma collect_changes_rows:
  assumes "lo \<le> aw_max_time wave" "aw_min_time wave \<le> hi" "times_in_order wave ref"
  shows "\<forall>r \<in> set (collect_changes wave ref lo hi). (rw_time r, rw_value r) \<in> set (window_samples wave ref lo hi)"
    "sorted (map rw_time (collect_changes wave ref lo hi))"
    "successively (\<lambda>r r'. \<not> value_equal (rw_value r) (rw_value r')) (collect_changes wave ref lo hi)"
    "\<forall>(t, v) \<in> set (window_samples wave ref lo hi). row_shows (collect_changes wave ref lo hi) t v"
proof -
  define S where "S = window_samples wave ref lo hi"
  have R: "collect_changes wave ref lo hi = foldl keep_row [] S" unfolding S_def by (rule collect_changes_keep [OF assms(1,2)])
  have functional: "\<forall>t v v'. (t, v) \<in> set S \<longrightarrow> (t, v') \<in> set S \<longrightarrow> v = v'"
    using window_samples_functional [OF assms(3)] unfolding S_def by blast
  have ordered: "sorted (map fst S)" unfolding S_def by (rule window_samples_sorted [OF assms(3)])
  from keep_rows_exact [OF ordered functional] show "\<forall>r \<in> set (collect_changes wave ref lo hi). (rw_time r, rw_value r) \<in> set (window_samples wave ref lo hi)"
      "sorted (map rw_time (collect_changes wave ref lo hi))"
      "successively (\<lambda>r r'. \<not> value_equal (rw_value r) (rw_value r')) (collect_changes wave ref lo hi)"
      "\<forall>(t, v) \<in> set (window_samples wave ref lo hi). row_shows (collect_changes wave ref lo hi) t v"
    unfolding R S_def [symmetric] Let_def by blast+
qed

section \<open>Verified states\<close>

lemma verify_rows_exact:
  "verify_rows mode c rows n =
     (case filter (\<lambda>r. \<not> row_matches mode c r) rows of
        [] \<Rightarrow> (n + length rows, None) | r # rs \<Rightarrow> (n + length (takeWhile (row_matches mode c) rows) + 1, Some r))"
  by (induction mode c rows n rule: verify_rows.induct) (auto split: list.splits)

definition value_matches :: "string \<Rightarrow> char \<Rightarrow> waveform_value \<Rightarrow> bool" where
  "value_matches mode c v = row_matches mode c \<lparr>rw_time = 0, rw_value = v\<rparr>"

lemma row_matches_value: "row_matches mode c r = value_matches mode c (rw_value r)"
  by (simp add: value_matches_def row_matches_def)

lemma value_matches_equal:
  assumes "wv_kind v = BitVector" "rw_value r = v \<or> value_equal (rw_value r) v"
  shows "value_matches mode c (rw_value r) = value_matches mode c v"
  using assms by (auto simp: value_matches_def row_matches_def waveform_values_equal_def)

lemma row_shows_row: "row_shows rows t v \<Longrightarrow> \<exists>r \<in> set rows. rw_value r = v \<or> value_equal (rw_value r) v"
  unfolding row_shows_def Let_def by (metis filter_is_subset last_in_set subsetD)

lemma verified_everywhere:
  assumes "\<forall>r \<in> set rows. (rw_time r, rw_value r) \<in> set S" "\<forall>(t, v) \<in> set S. row_shows rows t v" "\<forall>(t, v) \<in> set S. wv_kind v = BitVector"
  shows "snd (verify_rows mode c rows n) = None \<longleftrightarrow> (\<forall>(t, v) \<in> set S. value_matches mode c v)"
proof -
  have "snd (verify_rows mode c rows n) = None \<longleftrightarrow> (\<forall>r \<in> set rows. value_matches mode c (rw_value r))"
    using filter_empty_conv [of "\<lambda>r. \<not> row_matches mode c r" rows]
    by (cases "filter (\<lambda>r. \<not> row_matches mode c r) rows") (simp_all add: verify_rows_exact row_matches_value)
  also have "\<dots> \<longleftrightarrow> (\<forall>(t, v) \<in> set S. value_matches mode c v)"
  proof
    assume all: "\<forall>r \<in> set rows. value_matches mode c (rw_value r)"
    have "value_matches mode c v" if "(t, v) \<in> set S" for t v
    proof -
      have "wv_kind v = BitVector" using assms(3) that by blast
      have "row_shows rows t v" using assms(2) that by blast
      then obtain r where "r \<in> set rows" "rw_value r = v \<or> value_equal (rw_value r) v" using row_shows_row by blast
      then show ?thesis using value_matches_equal [OF \<open>wv_kind v = BitVector\<close>] all by blast
    qed
    then show "\<forall>(t, v) \<in> set S. value_matches mode c v" by auto
  next
    assume "\<forall>(t, v) \<in> set S. value_matches mode c v"
    then show "\<forall>r \<in> set rows. value_matches mode c (rw_value r)" using assms(1) by fastforce
  qed
  finally show ?thesis .
qed

section \<open>Statistics over clock edges\<close>

text \<open>
  The statistics refer to the sequence of samples: the bits of the known ones, and for every sample whether it is high. A run
  is a stretch of high samples.
\<close>

definition high_bits :: "string \<Rightarrow> bool" where
  "high_bits bits \<longleftrightarrow> CHR ''1'' \<in> set bits \<and> length bits = 1"

definition known_bits :: "(u64 \<times> waveform_value option) list \<Rightarrow> string list" where
  "known_bits xs = concat (map (\<lambda>(t, v). case known_sample v of None \<Rightarrow> [] | Some b \<Rightarrow> [b]) xs)"

definition levels :: "(u64 \<times> waveform_value option) list \<Rightarrow> bool list" where
  "levels xs = map (\<lambda>(t, v). case known_sample v of None \<Rightarrow> False | Some b \<Rightarrow> high_bits b) xs"

definition run_at :: "bool list \<Rightarrow> nat \<Rightarrow> nat \<Rightarrow> bool" where
  "run_at hs i n \<longleftrightarrow> (\<forall>j < n. i + j < length hs \<and> hs ! (i + j))"

definition longest_run :: "bool list \<Rightarrow> nat \<Rightarrow> bool" where
  "longest_run hs m \<longleftrightarrow> (\<exists>i. run_at hs i m) \<and> (\<forall>i n. run_at hs i n \<longrightarrow> n \<le> m)"

definition run_count :: "bool list \<Rightarrow> nat" where
  "run_count hs = length (filter id (remdups_adj hs))"

abbreviation take_all :: "u32 \<Rightarrow> (u64 \<times> waveform_value option) list \<Rightarrow> statistics \<Rightarrow> statistics" where
  "take_all width xs a \<equiv> foldl (\<lambda>a (t, v). take_sample width t v a) a xs"

lemma statistics_loop_take:
  assumes "st_samples a \<le> limit"
  shows "statistics_loop edge time sample width limit tis a =
    (let edges = filter edge tis; b = take_all width (map (\<lambda>ti. (time ti, sample ti)) (take (limit - st_samples a) edges)) a
     in if length edges > limit - st_samples a then b\<lparr>st_truncated := True\<rparr> else b)"
  using assms
proof (induction tis arbitrary: a)
  case (Cons ti tis)
  have samples: "st_samples (take_sample width t v a) = st_samples a + 1" for t v
    by (simp add: take_sample_def compare_bits_def count_level_def extend_run_def end_run_def Let_def split: option.splits)
  show ?case
  proof (cases "edge ti \<and> st_samples a < limit")
    case True
    then have "limit - st_samples a = Suc (limit - (st_samples a + 1))" by arith
    then show ?thesis using True Cons.IH [of "take_sample width (time ti) (sample ti) a"] by (simp add: samples Let_def)
  next
    case False
    then show ?thesis using Cons by (auto simp: Let_def)
  qed
qed (simp add: Let_def)

lemma known_bits_snoc: "known_bits (xs @ [(t, v)]) = known_bits xs @ (case known_sample v of None \<Rightarrow> [] | Some b \<Rightarrow> [b])"
  by (simp add: known_bits_def)

lemma levels_snoc: "levels (xs @ [(t, v)]) = levels xs @ [case known_sample v of None \<Rightarrow> False | Some b \<Rightarrow> high_bits b]"
  by (simp add: levels_def)

text \<open>What a sample does to each of the counts.\<close>

lemmas sample_defs = take_sample_def compare_bits_def count_level_def extend_run_def end_run_def high_bits_def Let_def

lemma counts_step:
  "st_known (take_sample width t v a) = st_known a + (case known_sample v of None \<Rightarrow> 0 | Some b \<Rightarrow> 1)"
  "st_unknown (take_sample width t v a) = st_unknown a + (case known_sample v of None \<Rightarrow> 1 | Some b \<Rightarrow> 0)"
  "st_samples (take_sample width t v a) = st_samples a + 1"
  "st_high_cycles (take_sample width t v a) = st_high_cycles a + (case known_sample v of None \<Rightarrow> 0 | Some b \<Rightarrow> if high_bits b then 1 else 0)"
  "st_low_cycles (take_sample width t v a) = st_low_cycles a + (case known_sample v of None \<Rightarrow> 0 | Some b \<Rightarrow> if CHR ''1'' \<in> set b then 0 else 1)"
  by (auto simp: sample_defs split: option.splits)

lemma bits_step:
  "st_first_bits (take_sample width t v a) = (case known_sample v of None \<Rightarrow> st_first_bits a | Some b \<Rightarrow> (case st_first_bits a of None \<Rightarrow> Some b | f \<Rightarrow> f))"
  "st_final_bits (take_sample width t v a) = (case known_sample v of None \<Rightarrow> st_final_bits a | Some b \<Rightarrow> b)"
  "st_min_bits (take_sample width t v a) = (case known_sample v of None \<Rightarrow> st_min_bits a
     | Some b \<Rightarrow> if st_first_bits a = None \<or> b < st_min_bits a then b else st_min_bits a)"
  "st_max_bits (take_sample width t v a) = (case known_sample v of None \<Rightarrow> st_max_bits a
     | Some b \<Rightarrow> if st_first_bits a = None \<or> st_max_bits a < b then b else st_max_bits a)"
  "st_transitions (take_sample width t v a) = st_transitions a + (case known_sample v of None \<Rightarrow> 0
     | Some b \<Rightarrow> if st_first_bits a \<noteq> None \<and> b \<noteq> st_final_bits a then 1 else 0)"
  by (auto simp: sample_defs split: option.splits)

lemma run_step:
  defines "h \<equiv> \<lambda>v. (case known_sample v of None \<Rightarrow> False | Some b \<Rightarrow> high_bits b)"
  shows "st_high (take_sample width t v a) = h v"
    "st_bursts (take_sample width t v a) = st_bursts a + (if h v \<and> \<not> st_high a then 1 else 0)"
    "st_current_high (take_sample width t v a) = (if h v then (if st_high a then st_current_high a else 0) + 1 else if st_high a then 0 else st_current_high a)"
    "st_max_high (take_sample width t v a) = (if \<not> h v \<and> st_high a then max (st_max_high a) (st_current_high a) else st_max_high a)"
  unfolding h_def by (auto simp: sample_defs split: option.splits)

lemma remdups_adj_snoc: "remdups_adj (xs @ [x]) = (if xs \<noteq> [] \<and> last xs = x then remdups_adj xs else remdups_adj xs @ [x])"
  by (cases xs rule: rev_cases) (auto simp: remdups_adj_append_two)

lemma min_less: "min b m = (if b < m then b else m :: 'a :: linorder)"
  by auto

lemma max_less: "max b m = (if m < b then b else m :: 'a :: linorder)"
  by auto

lemma sample_counts:
  "let a = take_all width xs statistics_init; ks = known_bits xs in
    st_samples a = length xs \<and> st_known a = length ks \<and> st_unknown a = length xs - length ks \<and>
    length ks \<le> length xs \<and> st_high_cycles a = length (filter high_bits ks) \<and> st_low_cycles a = length (filter (\<lambda>b. CHR ''1'' \<notin> set b) ks)"
proof (induction xs rule: rev_induct)
  case (snoc x xs)
  obtain t v where "x = (t, v)" by fastforce
  then show ?case using snoc by (auto simp: Let_def counts_step known_bits_snoc split: option.splits)
qed (simp add: statistics_init_def known_bits_def)

lemma sample_bits:
  "let a = take_all width xs statistics_init; ks = known_bits xs in
    (ks = [] \<longleftrightarrow> st_first_bits a = None) \<and> st_transitions a = length (remdups_adj ks) - 1 \<and>
    (ks \<noteq> [] \<longrightarrow> st_first_bits a = Some (hd ks) \<and> st_final_bits a = last ks \<and> st_min_bits a = Min (set ks) \<and> st_max_bits a = Max (set ks))"
proof (induction xs rule: rev_induct)
  case (snoc x xs)
  obtain t v where x: "x = (t, v)" by fastforce
  show ?case
  proof (cases "known_sample v")
    case None
    then show ?thesis using snoc x by (simp add: Let_def bits_step known_bits_snoc)
  next
    case (Some b)
    define ks where "ks = known_bits xs"
    show ?thesis
    proof (cases "ks = []")
      case True
      then show ?thesis using snoc x Some by (simp add: Let_def bits_step known_bits_snoc ks_def)
    next
      case False
      let ?a = "take_all width xs statistics_init"
      have IH: "st_first_bits ?a = Some (hd ks)" "st_final_bits ?a = last ks" "st_min_bits ?a = Min (set ks)" "st_max_bits ?a = Max (set ks)"
          "st_transitions ?a = length (remdups_adj ks) - 1"
        using snoc False by (simp_all add: Let_def ks_def)
      have "Min (set (ks @ [b])) = (if b < Min (set ks) then b else Min (set ks))" "Max (set (ks @ [b])) = (if Max (set ks) < b then b else Max (set ks))"
        using False by (simp_all only: list.set set_append Un_insert_right Un_empty_right set_empty Min_insert Max_insert finite_set min_less max_less not_False_eq_True)
      moreover have "length (remdups_adj ks) \<ge> 1" using False by (metis One_nat_def Suc_leI length_greater_0_conv remdups_adj_Nil_iff)
      moreover have "known_bits (xs @ [x]) = ks @ [b]" "take_all width (xs @ [x]) statistics_init = take_sample width t v ?a"
        using x Some by (simp_all add: known_bits_snoc ks_def)
      ultimately show ?thesis using Some False by (simp add: Let_def bits_step IH remdups_adj_snoc del: set_append)
    qed
  qed
qed (simp add: statistics_init_def known_bits_def)

text \<open>Runs at the end of the sequence grow with it.\<close>

definition trailing :: "bool list \<Rightarrow> nat \<Rightarrow> bool" where
  "trailing hs n \<longleftrightarrow> n \<le> length hs \<and> run_at hs (length hs - n) n \<and> (\<forall>i k. i + k = length hs \<longrightarrow> run_at hs i k \<longrightarrow> k \<le> n)"

lemma run_at_le: "run_at hs i n \<Longrightarrow> n = 0 \<or> i + n \<le> length hs"
  by (cases n) (auto simp: run_at_def)

lemma run_at_Suc: "run_at hs i (Suc k) \<longleftrightarrow> run_at hs i k \<and> i + k < length hs \<and> hs ! (i + k)"
  by (auto simp: run_at_def less_Suc_eq)

lemma run_at_snoc: "run_at (hs @ [h]) i n \<longleftrightarrow> run_at hs i n \<or> (\<exists>k. n = Suc k \<and> i + k = length hs \<and> run_at hs i k \<and> h)"
proof (induction n)
  case (Suc n)
  then show ?case using run_at_le [of hs i n] by (auto simp: run_at_Suc nth_append less_Suc_eq)
qed (simp add: run_at_def)

lemma trailing_snoc:
  assumes "trailing hs n"
  shows "trailing (hs @ [h]) (if h then Suc n else 0)"
proof (cases h)
  case True
  have "k \<le> Suc n" if "i + k = Suc (length hs)" "run_at (hs @ [h]) i k" for i k
    using that assms run_at_le [of hs i k] by (auto simp: run_at_snoc trailing_def)
  then show ?thesis using assms True by (auto simp: trailing_def run_at_snoc)
next
  case False
  then show ?thesis using run_at_le [of hs] by (fastforce simp: trailing_def run_at_snoc run_at_def [of _ _ 0])
qed

lemma longest_run_snoc:
  assumes "longest_run hs m" "trailing hs n"
  shows "longest_run (hs @ [h]) (max m (if h then Suc n else 0))"
proof -
  have "\<exists>i. run_at (hs @ [h]) i (max m (if h then Suc n else 0))"
  proof (cases "h \<and> m < Suc n")
    case True
    then have "run_at (hs @ [h]) (length hs - n) (Suc n)" using assms(2) by (simp add: run_at_snoc trailing_def)
    then show ?thesis using True by (auto simp: max_def)
  next
    case False
    then show ?thesis using assms(1) by (auto simp: longest_run_def run_at_snoc max_def)
  qed
  moreover have "k \<le> max m (if h then Suc n else 0)" if "run_at (hs @ [h]) i k" for i k
    using that assms by (auto simp: run_at_snoc longest_run_def trailing_def intro: le_trans [OF _ max.cobounded1] le_trans [OF _ max.cobounded2])
  ultimately show ?thesis by (auto simp: longest_run_def)
qed

lemma run_count_snoc: "run_count (hs @ [h]) = run_count hs + (if h \<and> \<not> (hs \<noteq> [] \<and> last hs) then 1 else 0)"
  by (auto simp: run_count_def remdups_adj_snoc)

lemma sample_runs:
  "let a = take_all width xs statistics_init; hs = levels xs; n = (if st_high a then st_current_high a else 0) in
    st_high a = (hs \<noteq> [] \<and> last hs) \<and> st_bursts a = run_count hs \<and> trailing hs n \<and> longest_run hs (max (st_max_high a) n)"
proof (induction xs rule: rev_induct)
  case Nil
  then show ?case by (auto simp: statistics_init_def levels_def run_count_def trailing_def longest_run_def run_at_def)
next
  case (snoc x xs)
  obtain t v where x: "x = (t, v)" by fastforce
  define a where "a = take_all width xs statistics_init"
  define n where "n = (if st_high a then st_current_high a else 0)"
  define h where "h = (case known_sample v of None \<Rightarrow> False | Some b \<Rightarrow> high_bits b)"
  have IH: "st_high a = (levels xs \<noteq> [] \<and> last (levels xs))" "st_bursts a = run_count (levels xs)" "trailing (levels xs) n"
      "longest_run (levels xs) (max (st_max_high a) n)"
    using snoc unfolding Let_def a_def n_def by blast+
  let ?b = "take_sample width t v a"
  have levels: "levels (xs @ [x]) = levels xs @ [h]" and fold: "take_all width (xs @ [x]) statistics_init = ?b"
    using x by (simp_all add: levels_snoc h_def a_def)
  have run: "(if st_high ?b then st_current_high ?b else 0) = (if h then Suc n else 0)" by (simp add: run_step n_def h_def [symmetric])
  have "max (st_max_high ?b) (if h then Suc n else 0) = max (max (st_max_high a) n) (if h then Suc n else 0)"
    by (auto simp: run_step n_def h_def [symmetric] max_def)
  then show ?case unfolding Let_def levels fold run
    using trailing_snoc [OF IH(3)] longest_run_snoc [OF IH(4,3)] IH(1,2) by (simp add: run_step run_count_snoc h_def [symmetric])
qed

lemma close_run_longest:
  assumes "a = take_all width xs statistics_init"
  shows "longest_run (levels xs) (st_max_high (close_run a))"
  using sample_runs [of width xs] unfolding Let_def close_run_def assms by (cases "st_high (take_all width xs statistics_init)") simp_all

lemma untruncated: "st_truncated (take_all width xs a) = st_truncated a"
proof (induction xs arbitrary: a)
  case (Cons x xs)
  have "st_truncated (take_sample width t v a) = st_truncated a" for t v
    by (simp add: sample_defs split: option.splits)
  then show ?case using Cons by (cases x) simp
qed simp

end
