(* ===== verification/List_Actions_Properties.thy ===== *)
theory List_Actions_Properties
  imports List_Actions
begin

unbundle bit_operations_syntax

text \<open>
  What the requests on signal lists guarantee: the rows of a binary export can be read back, the first change of a list is
  the earliest difference, and every list that requests can build names signals of the waveform only.
\<close>

section \<open>Binary rows\<close>

definition read_u64_le :: "string \<Rightarrow> u64" where
  "read_u64_le bs = foldr (\<lambda>c w. w * 256 + of_char c) bs 0"

definition nth_word :: "string \<Rightarrow> nat \<Rightarrow> u64" where
  "nth_word row k = read_u64_le (take 8 (drop (8 * k) row))"

lemma byte_of_word: "of_char (char_of (unat (drop_bit k v AND 255)) :: char) = (drop_bit k v AND 255 :: u64)"
proof -
  have m: "drop_bit k v AND 255 = take_bit 8 (drop_bit k v)" by (simp add: take_bit_eq_mask mask_eq_exp_minus_1)
  have "unat (drop_bit k v AND 255) < 256" unfolding m using take_bit_nat_less_exp [of 8 "unat (drop_bit k v)"] by (simp add: unsigned_take_bit_eq)
  then have "of_char (char_of (unat (drop_bit k v AND 255)) :: char) = unat (drop_bit k v AND 255)" by simp
  then have "of_nat (of_char (char_of (unat (drop_bit k v AND 255)) :: char)) = drop_bit k v AND 255" by simp
  then show ?thesis by (simp only: of_nat_of_char)
qed

lemma split_byte: "(drop_bit (8 + k) v) * 256 + (drop_bit k v AND 255) = (drop_bit k v :: u64)"
proof -
  have m: "drop_bit k v AND 255 = take_bit 8 (drop_bit k v)" by (simp add: take_bit_eq_mask mask_eq_exp_minus_1)
  have "push_bit 8 (drop_bit 8 (drop_bit k v)) + take_bit 8 (drop_bit k v) = drop_bit k v" by (rule bits_ident)
  then show ?thesis by (simp add: m push_bit_eq_mult)
qed

lemma read_write_u64: "read_u64_le (write_u64_le v) = v"
proof -
  have top: "drop_bit 64 v = 0" by (rule bit_eqI) (auto simp: bit_drop_bit_eq dest: bit_imp_le_length)
  have "read_u64_le (write_u64_le v) =
    ((((((((drop_bit 64 v * 256 + (drop_bit 56 v AND 255)) * 256 + (drop_bit 48 v AND 255)) * 256 + (drop_bit 40 v AND 255)) * 256 +
      (drop_bit 32 v AND 255)) * 256 + (drop_bit 24 v AND 255)) * 256 + (drop_bit 16 v AND 255)) * 256 + (drop_bit 8 v AND 255)) * 256 + (drop_bit 0 v AND 255))"
    by (simp add: read_u64_le_def write_u64_le_def byte_of_word byte_of_word [of 0, simplified] upt_rec top)
  also have "\<dots> = v" using split_byte [of 56 v] split_byte [of 48 v] split_byte [of 40 v] split_byte [of 32 v] split_byte [of 24 v]
      split_byte [of 16 v] split_byte [of 8 v] split_byte [of 0 v] by simp
  finally show ?thesis .
qed

lemma length_write_u64 [simp]: "length (write_u64_le v) = 8"
  by (simp add: write_u64_le_def)

lemma length_words: "length (concat (map write_u64_le ws)) = 8 * length ws"
  by (induction ws) auto

lemma nth_word_first: "nth_word (write_u64_le v @ rest) 0 = v"
  by (simp add: nth_word_def read_write_u64)

lemma nth_word_skip: "length pre = 8 * k \<Longrightarrow> nth_word (pre @ row) (k + j) = nth_word row j"
  by (simp add: nth_word_def distrib_left)

lemma nth_word_words: "k < length ws \<Longrightarrow> nth_word (concat (map write_u64_le ws) @ rest) k = ws ! k"
proof (induction ws arbitrary: k)
  case (Cons w ws)
  then show ?case using nth_word_skip [of "write_u64_le w" 1] by (cases k) (auto simp: nth_word_first)
qed simp

text \<open>Bit \<open>i\<close> of a vector of words.\<close>

definition cell :: "u64 list \<Rightarrow> nat \<Rightarrow> bool" where
  "cell ws i = bit (ws ! (i div 64)) (i mod 64)"

lemma length_mark_bit [simp]: "length (mark_bit ws i) = length ws"
  by (simp add: mark_bit_def)

lemma cell_mark_bit:
  assumes "i div 64 < length ws"
  shows "cell (mark_bit ws i) j = (cell ws j \<or> j = i)"
proof (cases "j div 64 = i div 64")
  case True
  have "bit (push_bit (i mod 64) (1 :: u64)) (j mod 64) = (j mod 64 = i mod 64)"
    by (auto simp: bit_exp_iff)
  moreover have "(j mod 64 = i mod 64) = (j = i)" using True by (metis div_mod_decomp)
  ultimately show ?thesis using assms True by (simp add: cell_def mark_bit_def bit_or_iff)
next
  case False
  then show ?thesis using assms by (auto simp: cell_def mark_bit_def)
qed

lemma row_loop:
  assumes "\<And>i. i < m \<Longrightarrow> state_at bits i \<in> set ''01LlHh'' \<Longrightarrow> i div 64 < n"
  shows "case foldl (row_step bits) (replicate n 0, replicate n 0) [0..<m] of (vs, ks) \<Rightarrow>
    length vs = n \<and> length ks = n \<and>
    (\<forall>j. j div 64 < n \<longrightarrow> cell vs j = (j < m \<and> state_at bits j \<in> set ''1Hh'') \<and> cell ks j = (j < m \<and> state_at bits j \<in> set ''01LlHh''))"
  using assms
proof (induction m)
  case 0
  then show ?case by (simp add: cell_def)
next
  case (Suc m)
  obtain vs ks where r: "foldl (row_step bits) (replicate n 0, replicate n 0) [0..<m] = (vs, ks)" by fastforce
  have IH: "length vs = n" "length ks = n"
    "\<And>j. j div 64 < n \<Longrightarrow> cell vs j = (j < m \<and> state_at bits j \<in> set ''1Hh'') \<and> cell ks j = (j < m \<and> state_at bits j \<in> set ''01LlHh'')"
    using Suc.IH Suc.prems r by auto
  have room: "state_at bits m \<in> set ''01LlHh'' \<Longrightarrow> m div 64 < n" using Suc.prems by simp
  show ?case using r IH room by (auto simp: row_step_def cell_mark_bit less_Suc_eq)
qed

text \<open>What a row can tell about a bit: 1 for a strong or weak one, 0 for a strong or weak zero, unknown for everything else.\<close>

definition plain_state :: "char \<Rightarrow> char" where
  "plain_state c = (if c \<in> set ''1Hh'' then CHR ''1'' else if c \<in> set ''0Ll'' then CHR ''0'' else CHR ''x'')"

definition row_state :: "string \<Rightarrow> nat \<Rightarrow> nat \<Rightarrow> char" where
  "row_state row n i =
     (if \<not> bit (nth_word row (1 + n + i div 64)) (i mod 64) then CHR ''x''
      else if bit (nth_word row (1 + i div 64)) (i mod 64) then CHR ''1'' else CHR ''0'')"

definition read_logic_row :: "string \<Rightarrow> nat \<Rightarrow> nat \<Rightarrow> u64 \<times> string" where
  "read_logic_row row n width = (nth_word row 0, map (row_state row n) (rev [0..<width]))"

lemma known_states: "c \<in> set ''01LlHh'' \<longleftrightarrow> c \<in> set ''1Hh'' \<or> c \<in> set ''0Ll''"
  by auto

lemma states_map: "map (\<lambda>i. f (state_at bits i)) (rev [0..<length bits]) = map f bits"
  by (rule nth_equalityI) (auto simp: state_at_def rev_nth)

lemma write_logic_row_read:
  assumes "length bits \<le> 64 * n"
  shows "\<exists>row. write_logic_row t bits n = Inr row \<and> length row = 8 * (1 + 2 * n) \<and> read_logic_row row n (length bits) = (t, map plain_state bits)"
proof -
  have room: "i div 64 < n" if "i < length bits" for i using that assms by (simp add: less_mult_imp_div_less mult.commute)
  obtain vs ks where r: "foldl (row_step bits) (replicate n 0, replicate n 0) [0..<length bits] = (vs, ks)" by fastforce
  then have len: "length vs = n" "length ks = n"
    and cells: "\<And>j. j div 64 < n \<Longrightarrow> cell vs j = (j < length bits \<and> state_at bits j \<in> set ''1Hh'') \<and> cell ks j = (j < length bits \<and> state_at bits j \<in> set ''01LlHh'')"
    using row_loop [of "length bits" bits n] room by auto
  let ?row = "write_u64_le t @ concat (map write_u64_le vs) @ concat (map write_u64_le ks)"
  have "\<not> list_ex (\<lambda>i. state_at bits i \<in> set ''01LlHh'' \<and> i div 64 \<ge> n) [0..<length bits]"
    using room by (auto simp: list_ex_iff not_le)
  then have w: "write_logic_row t bits n = Inr ?row" by (simp add: write_logic_row_def r)
  have vs: "nth_word ?row (1 + k) = vs ! k" if "k < n" for k
    using nth_word_skip [of "write_u64_le t" 1] nth_word_words len that by simp
  have ks: "nth_word ?row (1 + n + k) = ks ! k" if "k < n" for k
    using nth_word_skip [of "write_u64_le t @ concat (map write_u64_le vs)" "1 + n" "concat (map write_u64_le ks)"] nth_word_words [of k ks "[]"] len that
    by (simp add: length_words)
  have "row_state ?row n i = plain_state (state_at bits i)" if "i < length bits" for i
  proof -
    have "cell vs i = (state_at bits i \<in> set ''1Hh'')" "cell ks i = (state_at bits i \<in> set ''1Hh'' \<or> state_at bits i \<in> set ''0Ll'')"
      using cells [OF room [OF that]] that known_states [of "state_at bits i"] by blast+
    then show ?thesis unfolding row_state_def plain_state_def vs [OF room [OF that]] ks [OF room [OF that]] cell_def by (simp only: if_splits) argo
  qed
  then have "map (row_state ?row n) (rev [0..<length bits]) = map (\<lambda>i. plain_state (state_at bits i)) (rev [0..<length bits])"
    by (intro map_cong) auto
  then have "map (row_state ?row n) (rev [0..<length bits]) = map plain_state bits" by (simp only: states_map)
  then show ?thesis using w by (simp add: read_logic_row_def nth_word_first length_words len)
qed

section \<open>Steps of handlers\<close>

lemma abind_Inr: "abind r f = Inr (Inr y) \<longleftrightarrow> (\<exists>x. r = Inr (Inr x) \<and> f x = Inr (Inr y))"
  by (cases r; cases "projr r") (auto simp: abind_def)

lemma abind_simps [simp]: "abind (Inl e) f = Inl e" "abind (Inr (Inl m)) f = Inr (Inl m)" "abind (Inr (Inr x)) f = f x"
  by (simp_all add: abind_def)

lemma answer_all_Inr: "answer_all f xs = Inr (Inr ys) \<longleftrightarrow> list_all2 (\<lambda>x y. f x = Inr (Inr y)) xs ys"
  by (induction xs arbitrary: ys) (auto simp: abind_Inr list_all2_Cons1)

lemma wanted_signal_Inr: "wanted_signal wave s e = Inr (Inr r) \<longleftrightarrow> r = wf_find_signal wave s \<and> r \<noteq> 0"
  by (auto simp: wanted_signal_def Let_def)

section \<open>The first change\<close>

text \<open>At a time of the range the signal changes and differs from its value at the begin.\<close>

definition value_differs :: "stream_wave \<Rightarrow> u64 \<Rightarrow> u64 \<Rightarrow> string \<Rightarrow> u64 \<Rightarrow> bool" where
  "value_differs wave lo hi s t \<longleftrightarrow> (\<exists>b ti. raw_value wave (wf_find_signal wave s) (sw_time_idx_of wave lo) = Some b \<and>
     ti \<in> set (wf_time_indices_of wave (wf_find_signal wave s)) \<and> wf_time_at wave ti = t \<and> differs_at wave lo hi (wf_find_signal wave s) b ti)"

definition times_ordered :: "stream_wave \<Rightarrow> string \<Rightarrow> bool" where
  "times_ordered wave s \<longleftrightarrow> sorted (map (wf_time_at wave) (wf_time_indices_of wave (wf_find_signal wave s)))"

definition earliest :: "stream_wave \<Rightarrow> u64 \<Rightarrow> u64 \<Rightarrow> string \<Rightarrow> change_candidate list \<Rightarrow> bool" where
  "earliest wave lo hi s cs \<longleftrightarrow> (cs = [] \<and> (\<forall>t. \<not> value_differs wave lo hi s t)) \<or>
     (\<exists>c. cs = [c] \<and> cc_signal c = s \<and> value_differs wave lo hi s (cc_time c) \<and> (\<forall>t. value_differs wave lo hi s t \<longrightarrow> cc_time c \<le> t))"

lemma find_SomeD: "find P xs = Some x \<Longrightarrow> x \<in> set xs \<and> P x"
  by (auto simp: find_Some_iff)

lemma find_earliest:
  assumes "find P xs = Some x" "sorted (map f xs)" "y \<in> set xs" "P y"
  shows "f x \<le> (f y :: 'a :: linorder)"
proof -
  obtain i where i: "i < length xs" "x = xs ! i" "\<forall>j < i. \<not> P (xs ! j)" using assms(1) by (auto simp: find_Some_iff)
  obtain j where j: "j < length xs" "y = xs ! j" using assms(3) by (auto simp: in_set_conv_nth)
  then have "i \<le> j" using i(3) assms(4) by (meson not_le)
  then show ?thesis using sorted_nth_mono [OF assms(2), of i j] i j by simp
qed

lemma signal_candidate_earliest:
  assumes "signal_candidate wave lo hi s = Inr (Inr cs)" "times_ordered wave s"
  shows "earliest wave lo hi s cs"
proof -
  let ?r = "wf_find_signal wave s"
  have cs: "cs = (case raw_value wave ?r (sw_time_idx_of wave lo) of None \<Rightarrow> [] | Some b \<Rightarrow>
      (case find (differs_at wave lo hi ?r b) (wf_time_indices_of wave ?r) of None \<Rightarrow> []
       | Some ti \<Rightarrow> [\<lparr>cc_signal = s, cc_time = wf_time_at wave ti, cc_before = b, cc_after = the (raw_value wave ?r ti),
           cc_width = si_width (case wf_signal_info wave ?r of None \<Rightarrow> signal_info_init | Some info \<Rightarrow> info)\<rparr>]))"
    using assms(1) by (auto simp: signal_candidate_def abind_Inr wanted_signal_Inr Let_def)
  show ?thesis
  proof (cases "raw_value wave ?r (sw_time_idx_of wave lo)")
    case None
    then show ?thesis using cs by (simp add: earliest_def value_differs_def)
  next
    case (Some b)
    show ?thesis
    proof (cases "find (differs_at wave lo hi ?r b) (wf_time_indices_of wave ?r)")
      case None
      then have "cs = []" using cs Some by simp
      then show ?thesis using None Some by (auto simp: earliest_def value_differs_def find_None_iff)
    next
      case (Some ti)
      have "value_differs wave lo hi s (wf_time_at wave ti)"
        using find_SomeD [OF Some] \<open>raw_value wave ?r _ = Some b\<close> by (auto simp: value_differs_def)
      moreover have "wf_time_at wave ti \<le> t" if "value_differs wave lo hi s t" for t
        using that find_earliest [OF Some assms(2) [unfolded times_ordered_def]] \<open>raw_value wave ?r _ = Some b\<close>
        by (auto simp: value_differs_def)
      ultimately show ?thesis using cs Some \<open>raw_value wave ?r _ = Some b\<close> by (simp add: earliest_def)
    qed
  qed
qed

lemma first_change_time_min:
  assumes "cs \<noteq> []" "\<forall>c \<in> set cs. cc_time c \<le> hi"
  shows "first_change_time hi cs \<in> cc_time ` set cs \<and> (\<forall>c \<in> set cs. first_change_time hi cs \<le> cc_time c)"
  using assms
proof (induction cs rule: rev_induct)
  case (snoc c cs)
  show ?case
  proof (cases "cs = []")
    case True
    then show ?thesis using snoc.prems by (simp add: first_change_time_def min_def)
  next
    case False
    then show ?thesis using snoc by (auto simp: first_change_time_def min_def)
  qed
qed simp

lemma first_changes_signals:
  assumes "list_all2 (earliest wave lo hi) signals css"
    "\<And>s u. s \<in> set signals \<Longrightarrow> value_differs wave lo hi s u \<Longrightarrow> t \<le> u"
  shows "map cc_signal (filter (\<lambda>c. cc_time c = t) (concat css)) = filter (\<lambda>s. value_differs wave lo hi s t) signals"
  using assms
proof (induction rule: list_all2_induct)
  case (Cons s signals cs css)
  have "map cc_signal (filter (\<lambda>c. cc_time c = t) cs) = (if value_differs wave lo hi s t then [s] else [])"
    using Cons.hyps(1) Cons.prems [of s] by (auto simp: earliest_def intro!: order_antisym)
  moreover have "map cc_signal (filter (\<lambda>c. cc_time c = t) (concat css)) = filter (\<lambda>s. value_differs wave lo hi s t) signals"
    using Cons.IH Cons.prems by (meson list.set_intros(2))
  ultimately show ?case by simp
qed simp

lemma value_differs_range: "value_differs wave lo hi s t \<Longrightarrow> lo < t \<and> t \<le> hi"
  by (auto simp: value_differs_def differs_at_def change_in_range_def)

lemma first_change_exact:
  assumes "answer_all (signal_candidate wave lo hi) signals = Inr (Inr css)" "list_all (times_ordered wave) signals"
  shows "concat css \<noteq> [] \<longleftrightarrow> (\<exists>s \<in> set signals. \<exists>t. value_differs wave lo hi s t)"
    "s \<in> set signals \<Longrightarrow> value_differs wave lo hi s t \<Longrightarrow> first_change_time hi (concat css) \<le> t"
    "map cc_signal (first_changes hi (concat css)) = filter (\<lambda>s. value_differs wave lo hi s (first_change_time hi (concat css))) signals"
    "concat css \<noteq> [] \<Longrightarrow> first_changes hi (concat css) \<noteq> []"
proof -
  have all: "list_all2 (earliest wave lo hi) signals css"
    using assms signal_candidate_earliest unfolding answer_all_Inr by (auto simp: list_all2_conv_all_nth list_all_length)
  have each: "\<exists>cs \<in> set css. earliest wave lo hi s cs" if "s \<in> set signals" for s
    using all that by (metis in_set_conv_nth list_all2_conv_all_nth)
  have backward: "\<exists>s \<in> set signals. earliest wave lo hi s cs" if "cs \<in> set css" for cs
    using all that by (metis in_set_conv_nth list_all2_conv_all_nth)
  have le: "cc_time c \<le> hi" if c: "c \<in> set (concat css)" for c
  proof -
    obtain cs s where "c \<in> set cs" "earliest wave lo hi s cs" using c backward by fastforce
    then show ?thesis using value_differs_range by (auto simp: earliest_def)
  qed
  show some: "concat css \<noteq> [] \<longleftrightarrow> (\<exists>s \<in> set signals. \<exists>t. value_differs wave lo hi s t)"
    using each backward by (fastforce simp: earliest_def)
  show below: "first_change_time hi (concat css) \<le> t" if s: "s \<in> set signals" "value_differs wave lo hi s t" for s t
  proof -
    obtain cs c where "cs \<in> set css" "cs = [c]" "cc_time c \<le> t" using each [OF s(1)] s(2) by (auto simp: earliest_def)
    moreover have "concat css \<noteq> []" using some s by blast
    ultimately show ?thesis using first_change_time_min [of "concat css" hi] le by fastforce
  qed
  show "map cc_signal (first_changes hi (concat css)) = filter (\<lambda>s. value_differs wave lo hi s (first_change_time hi (concat css))) signals"
    unfolding first_changes_def by (rule first_changes_signals [OF all below])
  show "first_changes hi (concat css) \<noteq> []" if "concat css \<noteq> []"
  proof -
    have "first_change_time hi (concat css) \<in> cc_time ` set (concat css)" using first_change_time_min [OF that, of hi] le by blast
    then show ?thesis by (auto simp: first_changes_def filter_empty_conv simp del: set_concat)
  qed
qed

section \<open>The registry through requests\<close>

text \<open>Every list is well formed, was made by a request, and names signals of the waveform only.\<close>

definition lists_known :: "stream_wave \<Rightarrow> list_manager \<Rightarrow> bool" where
  "lists_known wave m \<longleftrightarrow> list_inv m \<and> (\<forall>n l. omap_find n m = Some l \<longrightarrow> sl_created_from l = ''user'' \<and> (\<forall>s \<in> set (sl_signals l). wf_find_signal wave s \<noteq> 0))"

lemma lists_known_set:
  assumes "lists_known wave m" "signal_list_ok n l" "sl_created_from l = ''user''" "\<forall>s \<in> set (sl_signals l). wf_find_signal wave s \<noteq> 0"
  shows "lists_known wave (omap_set n l m)"
proof -
  have "list_inv m" "omap_ok m" using assms(1) by (simp_all add: lists_known_def list_inv_def)
  then show ?thesis using assms list_inv_set by (auto simp: lists_known_def omap_laws)
qed

lemma created_known: "lists_known wave m \<Longrightarrow> list_create n m = Inr m' \<Longrightarrow> lists_known wave m'"
  by (auto simp: list_create_def signal_list_ok_def signal_list_init_def intro!: lists_known_set split: if_splits)

lemma lists_knownD: "lists_known wave m \<Longrightarrow> omap_find n m = Some l \<Longrightarrow> signal_list_ok n l \<and> sl_created_from l = ''user'' \<and> (\<forall>s \<in> set (sl_signals l). wf_find_signal wave s \<noteq> 0)"
  by (simp add: lists_known_def list_inv_def)

lemma added_known:
  assumes "lists_known wave m" "list_add n signals m = Inr m'" "\<forall>s \<in> set signals. wf_find_signal wave s \<noteq> 0"
  shows "lists_known wave m'"
proof -
  obtain l where l: "omap_find n m = Some l" "m' = omap_set n (l\<lparr>sl_signals := add_loop signals (sl_signals l)\<rparr>) m"
    using assms(2) by (auto simp: list_add_def split: option.splits)
  note ok = lists_knownD [OF assms(1) l(1)]
  show ?thesis unfolding l(2) using ok assms(3)
    by (intro lists_known_set [OF assms(1)]) (auto simp: signal_list_ok_def from_file_def add_loop_set distinct_add_loop)
qed

lemma removed_known:
  assumes "lists_known wave m" "list_remove n signals m = Inr m'"
  shows "lists_known wave m'"
proof -
  obtain l where l: "omap_find n m = Some l" "m' = omap_set n (l\<lparr>sl_signals := remove_loop signals (sl_signals l) []\<rparr>) m"
    using assms(2) by (auto simp: list_remove_def split: option.splits)
  note ok = lists_knownD [OF assms(1) l(1)]
  show ?thesis unfolding l(2) using ok
    by (intro lists_known_set [OF assms(1)]) (auto simp: signal_list_ok_def from_file_def remove_loop_eq)
qed

lemma erased_known: "lists_known wave m \<Longrightarrow> lists_known wave (snd (list_erase n m))"
  by (auto simp: lists_known_def list_erase_def list_inv_def omap_laws split: if_splits)

lemma load_list_known:
  assumes "lists_known wave m" "\<forall>s \<in> set signals. wf_find_signal wave s \<noteq> 0"
  shows "lists_known wave (snd (load_list mode n signals m))"
proof -
  let ?m = "if mode = ''replace'' \<and> list_exists n m then snd (list_erase n m) else m"
  have m: "lists_known wave ?m" using assms(1) erased_known by simp
  show ?thesis
  proof (cases "if list_exists n ?m then Inr ?m else list_create n ?m")
    case (Inl e)
    then show ?thesis using m by (simp add: load_list_def Let_def)
  next
    case (Inr created)
    then have c: "lists_known wave created" using m created_known by (auto split: if_splits)
    show ?thesis using Inr c added_known [OF c _ assms(2)] by (simp add: load_list_def Let_def split: sum.splits)
  qed
qed

lemma string_vector_known:
  assumes "string_vector v = Inr signals" "\<And>xs. v = JArray xs \<Longrightarrow> \<forall>s. JString s \<in> set xs \<longrightarrow> wf_find_signal wave s \<noteq> 0"
  shows "\<forall>s \<in> set signals. wf_find_signal wave s \<noteq> 0"
proof -
  obtain xs where xs: "v = JArray xs" "handle_all get_string xs = Inr signals" using assms(1) by (auto simp: string_vector_def split: json.splits)
  have "xs = map JString signals" using xs(2) by (induction xs arbitrary: signals) (auto simp: rbind_Inr elim!: get_string.elims)
  then show ?thesis using assms(2) [OF xs(1)] by auto
qed

lemma load_lists_known:
  assumes "lists_known wave m" "\<And>item xs. item \<in> set items \<Longrightarrow> json_at item ''signals'' = Inr (JArray xs) \<Longrightarrow>
      \<forall>s. JString s \<in> set xs \<longrightarrow> wf_find_signal wave s \<noteq> 0"
  shows "lists_known wave (snd (load_lists mode items m rows))"
  using assms
proof (induction items arbitrary: m rows)
  case (Cons item items)
  show ?case
  proof (cases "rbind (string_at_key item ''name'') (\<lambda>name. rbind (rbind (json_at item ''signals'') string_vector) (\<lambda>signals. Inr (name, signals)))")
    case (Inr ns)
    obtain name signals where ns: "ns = (name, signals)" by fastforce
    obtain v where v: "json_at item ''signals'' = Inr v" "string_vector v = Inr signals"
      using Inr ns by (auto simp: rbind_Inr)
    have "\<forall>s \<in> set signals. wf_find_signal wave s \<noteq> 0" using string_vector_known v Cons.prems(2) [of item] by (metis list.set_intros(1))
    from load_list_known [OF Cons.prems(1) this] have k: "lists_known wave (snd (load_list mode name signals m))" .
    obtain r m' where r: "load_list mode name signals m = (r, m')" by fastforce
    then show ?thesis using Inr ns k Cons.IH [of m'] Cons.prems(2) by (auto split: option.splits)
  qed (use Cons.prems in simp)
qed simp

datatype list_request = List_create json | List_add json | List_delete json | List_load "string \<Rightarrow> config_file" json

fun list_serve :: "stream_wave \<Rightarrow> list_manager \<Rightarrow> list_request \<Rightarrow> list_manager" where
  "list_serve wave m (List_create req) = snd (list_create_handler (Some wave) m req)"
| "list_serve wave m (List_add req) = snd (list_add_handler (Some wave) m req)"
| "list_serve wave m (List_delete req) = snd (list_delete_handler (Some wave) m req)"
| "list_serve wave m (List_load read_json req) = snd (list_load_handler read_json (Some wave) m req)"

lemma settle_keeps: "P m \<Longrightarrow> (\<And>v m'. r = Inr (Inr (v, m')) \<Longrightarrow> P m') \<Longrightarrow> P (snd (settle m r))"
  by (auto simp: settle_def split: sum.splits)

lemma case_sum_Inr:
  "case_sum (\<lambda>e. Inl (f e)) h x = Inr z \<longleftrightarrow> (\<exists>y. x = Inr y \<and> h y = Inr z)"
  "case_sum (\<lambda>e. Inr (g e)) (\<lambda>y. Inr (k y)) x = Inr w \<longleftrightarrow> (\<exists>e. x = Inl e \<and> g e = w) \<or> (\<exists>y. x = Inr y \<and> k y = w)"
  by (cases x; auto)+

lemma known_signal_Inr: "known_signal wave v = Inr (Inr s) \<longleftrightarrow> v = JString s \<and> wf_find_signal wave s \<noteq> 0"
  by (cases v) (auto simp: known_signal_def)

lemma known_signals: "answer_all (known_signal wave) items = Inr (Inr signals) \<Longrightarrow> items = map JString signals \<and> (\<forall>s \<in> set signals. wf_find_signal wave s \<noteq> 0)"
  unfolding answer_all_Inr known_signal_Inr by (induction rule: list_all2_induct) auto

lemma create_known: "lists_known wave m \<Longrightarrow> lists_known wave (snd (list_create_handler (Some wave) m req))"
  unfolding list_create_handler_def
  by (rule settle_keeps, assumption)
    (auto simp: abind_Inr rbind_Inr with_wave_def Let_def case_sum_Inr dest!: known_signals intro: created_known added_known split: if_splits)

lemma add_known: "lists_known wave m \<Longrightarrow> lists_known wave (snd (list_add_handler (Some wave) m req))"
  unfolding list_add_handler_def
  by (rule settle_keeps, assumption)
    (auto simp: abind_Inr rbind_Inr with_wave_def known_signal_Inr case_sum_Inr intro: added_known)

lemma delete_known: "lists_known wave m \<Longrightarrow> lists_known wave (snd (list_delete_handler (Some wave) m req))"
  unfolding list_delete_handler_def
  by (rule settle_keeps, assumption) (auto simp: abind_Inr with_wave_def case_sum_Inr intro: removed_known)

lemma load_known:
  assumes "lists_known wave m"
  shows "lists_known wave (snd (list_load_handler read_json (Some wave) m req))"
proof -
  let ?checks = "\<lambda>items. answer_all (\<lambda>item. rbind (json_at item ''signals'') (\<lambda>signals. answer_all (known_signal wave) (json_items signals))) items"
  have known: "lists_known wave (snd (load_lists mode items m []))" if "?checks items = Inr (Inr checked)" for mode items checked
  proof (rule load_lists_known [OF assms], intro allI impI)
    fix item xs s assume i: "item \<in> set items" "json_at item ''signals'' = Inr (JArray xs)" "JString s \<in> set xs"
    from i(1) obtain j where j: "j < length items" "item = items ! j" by (auto simp: in_set_conv_nth)
    have "answer_all (known_signal wave) xs = Inr (Inr (checked ! j))"
      using list_all2_nthD [OF that [unfolded answer_all_Inr] j(1)] i(2) j(2) by simp
    from known_signals [OF this] i(3) show "wf_find_signal wave s \<noteq> 0" by auto
  qed
  have kept: "lists_known wave m'" if "?checks items = Inr (Inr checked)" "load_lists mode items m [] = (r, m')" for mode items checked r m'
    using known [OF that(1), of mode] that(2) by simp
  show ?thesis
    using assms unfolding list_load_handler_def
    by (auto simp: abind_Inr rbind_Inr with_wave_def dest: kept split: sum.splits prod.splits)
qed

lemma serve_known: "lists_known wave m \<Longrightarrow> lists_known wave (list_serve wave m r)"
  using create_known add_known delete_known load_known by (cases r) auto

lemma requests_known: "lists_known wave (foldl (list_serve wave) [] reqs)"
proof (induction reqs rule: rev_induct)
  case Nil
  show ?case by (simp add: lists_known_def list_inv_def)
qed (simp add: serve_known)

lemma validate_known:
  assumes "lists_known wave m" "list_get n m = Some l"
  shows "list_validate_handler (Some wave) m (JObject [(''args'', JObject [(''name'', JString n)])]) =
    Inr (ok_response [(''name'', JString n), (''all_found'', JBool True)]
      [(''signals'', JArray (map (\<lambda>s. JObject [(''signal'', JString s), (''status'', JString ''ok'')]) (sl_signals l)))])"
proof -
  have ok: "signal_list_ok n l" "sl_created_from l = ''user''" "\<forall>s \<in> set (sl_signals l). wf_find_signal wave s \<noteq> 0"
    using lists_knownD [OF assms(1)] assms(2) by (simp_all add: list_get_def)
  then have n: "n \<noteq> []" by (auto simp: signal_list_ok_def from_file_def starts_with_def)
  have "answer_all (\<lambda>s. known_signal wave (JString s)) (sl_signals l) = Inr (Inr (sl_signals l))"
    unfolding answer_all_Inr known_signal_Inr using ok(3) by (simp add: list_all2_conv_all_nth)
  then show ?thesis
    using n assms(2) by (simp add: list_validate_handler_def list_of_request_def request_args_def request_name_def json_value_def with_wave_def responded_def)
qed

end
