(* ===== verification/Event_Actions_Properties.thy ===== *)
theory Event_Actions_Properties
  imports Event_Actions List_Actions_Properties
begin

text \<open>
  What the requests on events guarantee: the search reports exactly the selected clock edges at which the expression holds,
  both described from the waveform (\<open>sample_time\<close>, \<open>event_time\<close>), and a stored configuration can be loaded again.
\<close>

section \<open>The search\<close>

definition rows_of :: "event_search \<Rightarrow> nat list \<Rightarrow> json list \<Rightarrow> bool" where
  "rows_of s tis rows = list_all2 (\<lambda>ti row. event_row s ti = Inr row) tis rows"

text \<open>
  What a search looks for, read off the waveform. The level of a signal is its last bit. A time is a sample when it lies in
  the window and the clock changes there from 0 to 1 (for \<open>posedge\<close> and \<open>dual\<close>) or from 1 to 0 (for all but
  \<open>posedge\<close>), comparing the value before the time with the one at it. A sample is an event when the reset, if one is
  configured, is released at the observation point and the expression has a known value with a bit set.
\<close>

definition level_at :: "stream_wave \<Rightarrow> signal_ref \<Rightarrow> nat \<Rightarrow> observation_point \<Rightarrow> char option" where
  "level_at wave ref ti point =
     (case wf_sampled_value_at wave ref ti point of
        None \<Rightarrow> None
      | Some v \<Rightarrow> if wv_text (sv_value v) = [] then None else Some (last (wv_text (sv_value v))))"

definition sample_time :: "event_search \<Rightarrow> nat \<Rightarrow> bool" where
  "sample_time s ti \<longleftrightarrow>
     es_begin s \<le> wf_time_at (es_wave s) ti \<and> wf_time_at (es_wave s) ti \<le> es_end s \<and>
     (level_at (es_wave s) (es_clock s) ti Before = Some (CHR ''0'') \<and> level_at (es_wave s) (es_clock s) ti Raw = Some (CHR ''1'') \<and>
        es_edge s \<in> {''posedge'', ''dual''} \<or>
      level_at (es_wave s) (es_clock s) ti Before = Some (CHR ''1'') \<and> level_at (es_wave s) (es_clock s) ti Raw = Some (CHR ''0'') \<and>
        es_edge s \<noteq> ''posedge'')"

definition event_time :: "event_search \<Rightarrow> nat \<Rightarrow> bool" where
  "event_time s ti \<longleftrightarrow>
     (case es_reset s of
        None \<Rightarrow> True
      | Some (ref, reset) \<Rightarrow> level_at (es_wave s) ref ti (es_point s) =
          Some (if get_member reset ''polarity'' = JString ''active_low'' then CHR ''1'' else CHR ''0'')) \<and>
     (case eval_expression (es_expr s) (waveform.truncate (es_wave s)) ti None (es_point s) of
        Inr (v, samples) \<Rightarrow> lv_known v \<and> CHR ''1'' \<in> set (lv_bits v)
      | Inl fault \<Rightarrow> False)"

lemma event_edge_iff: "event_edge s ti \<longleftrightarrow> sample_time s ti"
  by (auto simp: event_edge_def sample_time_def level_at_def is_rising_edge_def is_falling_edge_def Let_def split: option.splits)

lemma json_at_get_member: "json_at v k = Inr w \<Longrightarrow> get_member v k = w"
  by (cases v) (auto split: option.splits)

lemma event_released_iff:
  assumes "event_released s ti = Inr released"
  shows "released \<longleftrightarrow> (case es_reset s of
        None \<Rightarrow> True
      | Some (ref, reset) \<Rightarrow> level_at (es_wave s) ref ti (es_point s) =
          Some (if get_member reset ''polarity'' = JString ''active_low'' then CHR ''1'' else CHR ''0''))"
  using assms by (auto simp: event_released_def level_at_def rbind_Inr dest!: json_at_get_member split: option.splits if_splits)

lemma eval_node_Inr:
  "eval_node e wave ti point = Inr v \<longleftrightarrow> (\<exists>samples. eval_expression e (waveform.truncate wave) ti None point = Inr (v, samples))"
  by (cases "eval_expression e (waveform.truncate wave) ti None point") (auto simp: eval_node_def lift_fault_def)

lemma event_match_iff:
  assumes "event_match s ti = Inr matched"
  shows "matched \<longleftrightarrow> event_time s ti"
proof -
  obtain released where r: "event_released s ti = Inr released"
    and m: "(if \<not> released then Inr False else rbind (eval_node (es_expr s) (es_wave s) ti (es_point s))
        (\<lambda>v. Inr (lv_known v \<and> CHR ''1'' \<in> set (lv_bits v)))) = Inr matched"
    using assms unfolding event_match_def rbind_Inr by blast
  show ?thesis
    using m unfolding event_time_def event_released_iff [OF r, symmetric] by (auto simp: rbind_Inr eval_node_Inr split: if_splits)
qed

lemma event_loop_step:
  assumes "event_loop s (ti # tis) a = Inr b" "event_edge s ti" "\<not> ef_samples a \<ge> es_max_samples s"
  obtains (miss) "\<not> event_time s ti" "event_loop s tis (a\<lparr>ef_samples := ef_samples a + 1\<rparr>) = Inr b"
  | (hit) row where "event_time s ti" "event_row s ti = Inr row"
      "(let a = a\<lparr>ef_samples := ef_samples a + 1, ef_total := ef_total a + 1, ef_events := ef_events a @ [row]\<rparr>
        in if es_first_only s then Inr a else event_loop s tis a) = Inr b"
proof -
  obtain matched where m: "event_match s ti = Inr matched" using assms by (auto simp: rbind_Inr Let_def)
  with assms event_match_iff [OF m] miss hit show ?thesis by (cases matched) (auto simp: rbind_Inr Let_def)
qed

lemma event_loop_all:
  assumes "event_loop s tis a = Inr b" "\<not> es_first_only s" "ef_samples a \<le> es_max_samples s" "ef_complete a" "ef_total a = length (ef_events a)"
  shows "let seen = take (es_max_samples s - ef_samples a) (filter (event_edge s) tis) in
    (\<exists>rows. ef_events b = ef_events a @ rows \<and> rows_of s (filter (event_time s) seen) rows) \<and> ef_total b = length (ef_events b) \<and>
    ef_samples b = ef_samples a + length seen \<and>
    (ef_complete b \<longleftrightarrow> ef_samples a + length (filter (event_edge s) tis) \<le> es_max_samples s)"
  using assms
proof (induction tis arbitrary: a)
  case Nil
  then show ?case by (simp add: rows_of_def)
next
  case (Cons ti tis)
  consider (skip) "\<not> event_edge s ti" | (full) "event_edge s ti" "ef_samples a \<ge> es_max_samples s"
    | (edge) "event_edge s ti" "\<not> ef_samples a \<ge> es_max_samples s" by blast
  then show ?case
  proof cases
    case full
    then have "b = a\<lparr>ef_complete := False\<rparr>" using Cons.prems(1) by simp
    then show ?thesis using full Cons.prems by (simp add: rows_of_def)
  next
    case edge
    have seen: "take (es_max_samples s - ef_samples a) (filter (event_edge s) (ti # tis)) =
        ti # take (es_max_samples s - (ef_samples a + 1)) (filter (event_edge s) tis)"
      using edge by (simp add: take_Cons' Suc_diff_Suc)
    from Cons.prems(1) edge show ?thesis
    proof (cases rule: event_loop_step)
      case miss
      from Cons.IH [OF this(2)] miss(1) Cons.prems edge show ?thesis unfolding seen by (simp add: Let_def)
    next
      case (hit row)
      then have "event_loop s tis (a\<lparr>ef_samples := ef_samples a + 1, ef_total := ef_total a + 1, ef_events := ef_events a @ [row]\<rparr>) = Inr b"
        using Cons.prems(2) by (simp add: Let_def)
      from Cons.IH [OF this] Cons.prems(2-5) edge
      obtain rows where "ef_events b = (ef_events a @ [row]) @ rows"
          "rows_of s (filter (event_time s) (take (es_max_samples s - (ef_samples a + 1)) (filter (event_edge s) tis))) rows"
          "ef_total b = length (ef_events b)" "ef_samples b = Suc (ef_samples a) + length (take (es_max_samples s - (ef_samples a + 1)) (filter (event_edge s) tis))"
          "ef_complete b \<longleftrightarrow> Suc (ef_samples a) + length (filter (event_edge s) tis) \<le> es_max_samples s"
        by (auto simp: Let_def)
      then show ?thesis unfolding seen Let_def using hit edge
        by (intro conjI exI [of _ "row # rows"]) (simp_all add: rows_of_def)
    qed
  qed (use Cons in simp)
qed

text \<open>The elements up to and including the first that satisfies a predicate.\<close>

fun up_to_first :: "('a \<Rightarrow> bool) \<Rightarrow> 'a list \<Rightarrow> 'a list" where
  "up_to_first P [] = []"
| "up_to_first P (x # xs) = (if P x then [x] else x # up_to_first P xs)"

lemma up_to_first_prefix: "up_to_first P xs = takeWhile (\<lambda>x. \<not> P x) xs @ take 1 (filter P xs)"
  by (induction xs) auto

lemma event_loop_first:
  assumes "event_loop s tis a = Inr b" "es_first_only s" "ef_samples a \<le> es_max_samples s" "ef_complete a" "ef_events a = []" "ef_total a = 0"
  shows "let seen = take (es_max_samples s - ef_samples a) (filter (event_edge s) tis) in
    rows_of s (take 1 (filter (event_time s) seen)) (ef_events b) \<and> ef_total b = length (ef_events b) \<and>
    ef_samples b = ef_samples a + length (up_to_first (event_time s) seen) \<and>
    (ef_complete b \<longleftrightarrow> filter (event_time s) seen \<noteq> [] \<or> ef_samples a + length (filter (event_edge s) tis) \<le> es_max_samples s)"
  using assms
proof (induction tis arbitrary: a)
  case Nil
  then show ?case by (auto simp: rows_of_def)
next
  case (Cons ti tis)
  consider (skip) "\<not> event_edge s ti" | (full) "event_edge s ti" "ef_samples a \<ge> es_max_samples s"
    | (edge) "event_edge s ti" "\<not> ef_samples a \<ge> es_max_samples s" by blast
  then show ?case
  proof cases
    case full
    then have "b = a\<lparr>ef_complete := False\<rparr>" using Cons.prems(1) by simp
    then show ?thesis using full Cons.prems by (simp add: rows_of_def)
  next
    case edge
    have seen: "take (es_max_samples s - ef_samples a) (filter (event_edge s) (ti # tis)) =
        ti # take (es_max_samples s - (ef_samples a + 1)) (filter (event_edge s) tis)"
      using edge by (simp add: take_Cons' Suc_diff_Suc)
    from Cons.prems(1) edge show ?thesis
    proof (cases rule: event_loop_step)
      case miss
      from Cons.IH [OF this(2)] miss(1) Cons.prems edge show ?thesis unfolding seen by (simp add: Let_def)
    next
      case (hit row)
      then have "b = a\<lparr>ef_samples := ef_samples a + 1, ef_total := 1, ef_events := [row]\<rparr>"
        using Cons.prems by (simp add: Let_def)
      with hit Cons.prems(4) show ?thesis unfolding seen Let_def by (simp add: rows_of_def)
    qed
  qed (use Cons in simp)
qed

section \<open>Configurations\<close>

lemma event_signal_Inr: "event_signal wave p = Inr (Inr q) \<longleftrightarrow> q = p \<and> (\<exists>path. snd p = JString path \<and> fst p \<noteq> [] \<and> path \<noteq> [] \<and> wf_find_signal wave path \<noteq> 0)"
  by (cases p; cases "snd p") (auto simp: event_signal_def)

lemma event_signals_same: "answer_all (event_signal wave) ps = Inr (Inr qs) \<Longrightarrow> qs = ps"
  unfolding answer_all_Inr event_signal_Inr by (induction rule: list_all2_induct) auto

definition plain_field :: "members \<Rightarrow> string \<times> json \<Rightarrow> bool" where
  "plain_field signals = (\<lambda>(k, f). \<exists>alias left right. f = JObject [(''signal'', JString alias), (''left'', left), (''right'', right)] \<and> map_of signals alias \<noteq> None)"

lemma event_field_Inr:
  assumes "event_field signals (key, v) = Inr (Inr q)"
  shows "key = Inr (fst q) \<and> plain_field signals q"
proof -
  obtain field where f: "(case field of Inl message \<Rightarrow> rbind key (\<lambda>k. Inr (Inl (message @ k)))
       | Inr (alias, left, right) \<Rightarrow>
           if map_of signals alias = None then Inr (Inl (''field references unknown signal alias: '' @ alias))
           else rbind key (\<lambda>k. Inr (Inr (k, JObject [(''signal'', JString alias), (''left'', left), (''right'', right)])))) = Inr (Inr q)"
    using assms unfolding event_field_def prod.case rbind_Inr by blast
  show ?thesis
  proof (cases field)
    case (Inl message)
    then show ?thesis using f by (cases key) auto
  next
    case (Inr alr)
    then show ?thesis using f by (cases key; cases alr) (auto simp: plain_field_def split: if_splits)
  qed
qed

lemma event_field_again: "plain_field signals (k, f) \<Longrightarrow> event_field signals (Inr k, f) = Inr (Inr (k, f))"
  by (auto simp: event_field_def plain_field_def json_contains_def string_at_key_def)

lemma event_fields_Inr:
  assumes "answer_all (event_field signals) items = Inr (Inr flds)"
  shows "map fst items = map (Inr \<circ> fst) flds \<and> list_all (plain_field signals) flds"
  using assms unfolding answer_all_Inr by (induction rule: list_all2_induct) (auto dest: event_field_Inr)

lemma event_fields_again:
  "list_all (plain_field signals) flds \<Longrightarrow> answer_all (event_field signals) (map (\<lambda>(k, w). (Inr k, w)) flds) = Inr (Inr flds)"
  unfolding answer_all_Inr by (induction flds) (auto simp: event_field_again)

lemma keyed_items_sorted:
  assumes "map fst (keyed_items v) = map (Inr \<circ> fst) flds"
  shows "sorted (map fst flds)"
proof -
  have keys: "map fst flds = map (projr \<circ> fst) (keyed_items v)" using arg_cong [OF assms, of "map projr"] by (simp add: comp_def)
  have Inl: "Inl e \<notin> set (map fst (keyed_items v))" for e unfolding assms by auto
  show ?thesis
  proof (cases v)
    case (JObject ms)
    then have "map fst flds = map fst (sort_key fst ms)" using keys by (simp add: keyed_items_def case_prod_unfold comp_def)
    then show ?thesis by simp
  next
    case (JArray xs)
    then have "keyed_items v = []" using Inl [of Type_error] by (cases xs) (auto simp: keyed_items_def)
    then show ?thesis using keys by simp
  qed (use Inl [of Type_error] keys in \<open>simp_all add: keyed_items_def\<close>)
qed

lemma event_reset_Inr:
  assumes "event_reset wave input = Inr (Inr r)"
  shows "(r = [] \<or> (\<exists>reset. r = [(''reset'', reset)])) \<and> (json_get doc ''reset'' = map_of r ''reset'' \<longrightarrow> event_reset wave doc = Inr (Inr r))"
proof (cases "json_get input ''reset''")
  case None
  then show ?thesis using assms by (simp add: event_reset_def)
next
  case (Some reset)
  then have "\<not> (\<not> is_object reset \<or> \<not> json_contains reset ''signal'' \<or> \<not> json_contains reset ''polarity'')"
    using assms by (auto simp: event_reset_def split: if_splits)
  moreover from this obtain signal where "string_at_key reset ''signal'' = Inr signal" "wf_find_signal wave signal \<noteq> 0" "r = [(''reset'', reset)]"
    using assms Some by (auto simp: event_reset_def rbind_Inr split: if_splits)
  ultimately show ?thesis by (simp add: event_reset_def)
qed

text \<open>What a stored configuration consists of, and what must hold of its parts.\<close>

definition event_document :: "members \<Rightarrow> members \<Rightarrow> string \<Rightarrow> string \<Rightarrow> members \<Rightarrow> members" where
  "event_document signals flds clock edge more_members =
     [(''clock'', JString clock), (''edge'', JString edge), (''signals'', JObject signals), (''fields'', JObject flds)] @ more_members"

lemma normalize_Inr:
  assumes "normalize_event_config (Some wave) name input = Inr (Inr config)"
  obtains signals flds clock edge point reset where
    "config = JObject ((''name'', JString name) # event_document signals flds clock edge (point @ reset))"
    "wf_find_signal wave clock \<noteq> 0" "signals \<noteq> []" "sorted (map fst signals)" "answer_all (event_signal wave) signals = Inr (Inr signals)"
    "sorted (map fst flds)" "list_all (plain_field signals) flds" "event_reset wave input = Inr (Inr reset)"
    "point = [] \<or> (\<exists>v. point = [(''sample_point'', v)])"
proof -
  let ?items = "object_items (get_member input ''signals'')"
  have head: "\<not> (\<not> is_object input \<or> \<not> json_contains input ''clock'' \<or> \<not> json_contains input ''signals'' \<or> \<not> is_object (get_member input ''signals'') \<or>
      object_members (get_member input ''signals'') = [])" "find (\<lambda>(k, v). k \<notin> set event_fields_allowed) (object_items input) = None"
    using assms unfolding normalize_event_config_def by (auto split: if_splits option.splits)
  then obtain clock where clock: "wf_find_signal wave clock \<noteq> 0" "stored_event_config wave name input clock = Inr (Inr config)"
    using assms unfolding normalize_event_config_def by (auto simp: rbind_Inr deref_wave_def split: if_splits)
  then obtain signals field_input flds edge reset where
    parts: "answer_all (event_signal wave) ?items = Inr (Inr signals)"
      "json_value input ''fields'' [] (\<lambda>v. Inr (keyed_items v)) = Inr field_input" "answer_all (event_field signals) field_input = Inr (Inr flds)"
      "event_reset wave input = Inr (Inr reset)"
    and config: "config = JObject ([(''name'', JString name), (''clock'', JString clock), (''edge'', JString edge), (''signals'', JObject signals),
        (''fields'', JObject flds)] @ (if json_contains input ''sample_point'' then [(''sample_point'', get_member input ''sample_point'')] else []) @ reset)"
    unfolding stored_event_config_def abind_Inr rbind_Inr by blast
  have same: "signals = ?items" using event_signals_same [OF parts(1)] .
  obtain ms where ms: "get_member input ''signals'' = JObject ms" "ms \<noteq> []" using head(1) by (cases "get_member input ''signals''") auto
  have ne: "signals \<noteq> []" "sorted (map fst signals)" using same ms by (auto simp: object_items_def) (metis length_0_conv length_sort)
  have f: "list_all (plain_field signals) flds" "map fst field_input = map (Inr \<circ> fst) flds" using event_fields_Inr [OF parts(3)] by simp_all
  have "field_input = [] \<or> (\<exists>v. field_input = keyed_items v)" using parts(2) by (auto simp: json_value_def split: json.splits option.splits)
  then have "sorted (map fst flds)"
  proof
    assume "\<exists>v. field_input = keyed_items v"
    then show ?thesis using f(2) keyed_items_sorted by metis
  qed (use f(2) in simp)
  then show thesis
    using that [of signals flds clock edge "if json_contains input ''sample_point'' then [(''sample_point'', get_member input ''sample_point'')] else []" reset]
      clock(1) parts ne f(1) config same by (simp add: event_document_def)
qed

lemma normalize_again:
  assumes "wf_find_signal wave clock \<noteq> 0" "signals \<noteq> []" "sorted (map fst signals)" "answer_all (event_signal wave) signals = Inr (Inr signals)"
    "sorted (map fst flds)" "list_all (plain_field signals) flds" "event_reset wave input = Inr (Inr reset)" "point = [] \<or> (\<exists>v. point = [(''sample_point'', v)])"
  shows "normalize_event_config (Some wave) name (JObject (event_document signals flds clock edge (point @ reset))) =
    Inr (Inr (JObject ((''name'', JString name) # event_document signals flds clock edge (point @ reset))))"
proof -
  let ?doc = "JObject (event_document signals flds clock edge (point @ reset))"
  have reset: "reset = [] \<or> (\<exists>r. reset = [(''reset'', r)])" using event_reset_Inr [OF assms(7)] by simp
  have get: "json_get ?doc ''clock'' = Some (JString clock)" "json_get ?doc ''edge'' = Some (JString edge)" "json_get ?doc ''signals'' = Some (JObject signals)"
    "json_get ?doc ''fields'' = Some (JObject flds)" "json_get ?doc ''sample_point'' = map_of point ''sample_point''" "json_get ?doc ''reset'' = map_of reset ''reset''"
    using assms(8) reset by (auto simp: event_document_def)
  have "set (map fst (event_document signals flds clock edge (point @ reset))) \<subseteq> set event_fields_allowed"
    using assms(8) reset by (auto simp: event_document_def event_fields_allowed_def)
  then have none: "find (\<lambda>(k, v). k \<notin> set event_fields_allowed) (object_items ?doc) = None" by (auto simp: find_None_iff object_items_def)
  have items: "object_items (JObject signals) = signals" "keyed_items (JObject flds) = map (\<lambda>(k, w). (Inr k, w)) flds"
    using assms(3,5) by (simp_all add: object_items_def keyed_items_def sort_key_id_if_sorted)
  have r: "event_reset wave ?doc = Inr (Inr reset)" using event_reset_Inr [OF assms(7), of ?doc] get(6) by simp
  have member: "get_member ?doc k = (case json_get ?doc k of None \<Rightarrow> JNull | Some v \<Rightarrow> v)" for k by simp
  have value_of': "json_value ?doc k d g = (case json_get ?doc k of None \<Rightarrow> Inr d | Some v \<Rightarrow> g v)" for k d and g :: "json \<Rightarrow> string handled" by (simp add: json_value_def)
  have value_of'': "json_value ?doc k d g = (case json_get ?doc k of None \<Rightarrow> Inr d | Some v \<Rightarrow> g v)"
    for k d and g :: "json \<Rightarrow> (string handled \<times> json) list handled" by (simp add: json_value_def)
  have at_clock: "string_at_key ?doc ''clock'' = Inr clock" using get(1) by (simp add: string_at_key_def)
  have "stored_event_config wave name ?doc clock = Inr (Inr (JObject ((''name'', JString name) # event_document signals flds clock edge (point @ reset))))"
    unfolding stored_event_config_def member get value_of' value_of'' json_contains_def option.case items assms(4) abind_simps rbind_simps
      event_fields_again [OF assms(6)] get_string.simps r using assms(8) by (auto simp: event_document_def)
  moreover have "\<not> (\<not> is_object ?doc \<or> \<not> json_contains ?doc ''clock'' \<or> \<not> json_contains ?doc ''signals'' \<or> \<not> is_object (get_member ?doc ''signals'') \<or>
      object_members (get_member ?doc ''signals'') = [])"
    unfolding member get json_contains_def using assms(2) by simp
  ultimately show ?thesis unfolding normalize_event_config_def none at_clock using assms(1) by (simp add: deref_wave_def)
qed

lemma normalize_reload:
  assumes "normalize_event_config (Some wave) name input = Inr (Inr config)"
  shows "normalize_event_config (Some wave) name (JObject (filter (\<lambda>(k, v). k \<noteq> ''name'') (object_members config))) = Inr (Inr config)"
proof -
  obtain signals flds clock edge point reset where
    c: "config = JObject ((''name'', JString name) # event_document signals flds clock edge (point @ reset))"
    and parts: "wf_find_signal wave clock \<noteq> 0" "signals \<noteq> []" "sorted (map fst signals)" "answer_all (event_signal wave) signals = Inr (Inr signals)"
    "sorted (map fst flds)" "list_all (plain_field signals) flds" "event_reset wave input = Inr (Inr reset)" "point = [] \<or> (\<exists>v. point = [(''sample_point'', v)])"
    by (rule normalize_Inr [OF assms])
  have "reset = [] \<or> (\<exists>r. reset = [(''reset'', r)])" using event_reset_Inr [OF parts(7)] by simp
  then have "filter (\<lambda>(k, v). k \<noteq> ''name'') (object_members config) = event_document signals flds clock edge (point @ reset)"
    using parts(8) by (auto simp: c event_document_def)
  then show ?thesis using normalize_again [OF parts] c by simp
qed

end
