(* ===== verification/Cursor_Actions.thy ===== *)
theory Cursor_Actions
  imports Action_Common Cursor_Manager
begin

text \<open>
  The requests on waveform cursors and the generation of a viewer configuration,
  \<open>engine/actions/waveform/list_event_cursor_actions.cpp\<close>.
\<close>

section \<open>Cursors\<close>

definition cursor_metadata :: "waveform_cursor \<Rightarrow> json" where
  "cursor_metadata c = JObject [(''note'', JString (cu_note c)), (''origin'', JString (cu_origin c)), (''clock'', JString (cu_clock c))]"

definition cursor_missing :: "string \<Rightarrow> json" where
  "cursor_missing name = error_response ''CURSOR_NOT_FOUND'' (''cursor not found: '' @ name)"

definition cursor_set_handler :: "stream_wave option \<Rightarrow> cursor_manager \<Rightarrow> json \<Rightarrow> json handled \<times> cursor_manager" where
  "cursor_set_handler wave m req = settle m (
     abind (with_wave ''waveform.cursor.set'' wave) (\<lambda>wave.
     abind (request_args req) (\<lambda>args.
     abind (request_name ''waveform.cursor.set'' args) (\<lambda>name.
     rbind (string_at_key args ''time'') (\<lambda>text.
       case aw_parse_time wave text False of
         Inl message \<Rightarrow> Inr (Inl (error_response ''INVALID_TIME'' message))
       | Inr time \<Rightarrow>
           abind (cursor_render_unit args) (\<lambda>unit.
             let m = snd (cursor_set name time m);
                 cursor = (case cursor_get name m of None \<Rightarrow> waveform_cursor_init | Some c \<Rightarrow> c);
                 rendered = aw_format_time wave time unit
             in Inr (Inr (ok_response [(''name'', JString name), (''time'', JString rendered), (''status'', JString ''set''), (''active'', JBool (cursor_active_name m = name))]
                  [(''resolved_time'', JObject [(''source'', JString ''explicit''), (''time'', JString rendered)]), (''metadata'', cursor_metadata cursor)], m))))))))"

definition cursor_get_handler :: "stream_wave option \<Rightarrow> cursor_manager \<Rightarrow> json \<Rightarrow> json handled" where
  "cursor_get_handler wave m req = responded (
     abind (with_wave ''waveform.cursor.get'' wave) (\<lambda>wave.
     abind (request_args req) (\<lambda>args.
     abind (request_name ''waveform.cursor.get'' args) (\<lambda>name.
       case cursor_get name m of
         None \<Rightarrow> Inr (Inl (cursor_missing name))
       | Some c \<Rightarrow>
           abind (cursor_render_unit args) (\<lambda>unit.
             Inr (Inr (ok_response [(''name'', JString (cu_name c)), (''time'', JString (aw_format_time wave (cu_time c) unit)), (''status'', JString ''found'')]
               [(''metadata'', cursor_metadata c)])))))))"

definition cursor_list_handler :: "stream_wave option \<Rightarrow> cursor_manager \<Rightarrow> json \<Rightarrow> json handled" where
  "cursor_list_handler wave m req = responded (
     abind (with_wave ''waveform.cursor.list'' wave) (\<lambda>wave.
     abind (request_args req) (\<lambda>args.
     abind (cursor_render_unit args) (\<lambda>unit.
       let rows = map (\<lambda>c. JObject [(''name'', JString (cu_name c)), (''time'', JString (aw_format_time wave (cu_time c) unit)),
                    (''note'', JString (cu_note c)), (''origin'', JString (cu_origin c)), (''clock'', JString (cu_clock c)),
                    (''created_at'', JUnsigned (unat (cu_created_at c))), (''updated_at'', JUnsigned (unat (cu_updated_at c)))]) (cursor_all m);
           active = cursor_active_name m
       in Inr (Inr (ok_response [(''cursor_count'', JUnsigned (length rows)), (''active_cursor'', if active = [] then JNull else JString active)]
            [(''cursors'', JArray rows)]))))))"

definition cursor_delete_handler :: "stream_wave option \<Rightarrow> cursor_manager \<Rightarrow> json \<Rightarrow> json handled \<times> cursor_manager" where
  "cursor_delete_handler wave m req = settle m (
     abind (with_wave ''waveform.cursor.delete'' wave) (\<lambda>wave.
     abind (request_args req) (\<lambda>args.
     abind (request_name ''waveform.cursor.delete'' args) (\<lambda>name.
       let (removed, m) = cursor_remove name m
       in Inr (Inr (if \<not> removed then cursor_missing name
            else ok_response [(''name'', JString name), (''deleted'', JBool True), (''status'', JString ''deleted'')] [], m))))))"

text \<open>The cursor is made active before the unit is looked at.\<close>

definition cursor_use_handler :: "stream_wave option \<Rightarrow> cursor_manager \<Rightarrow> json \<Rightarrow> json handled \<times> cursor_manager" where
  "cursor_use_handler wave m req =
     (case
        abind (with_wave ''waveform.cursor.use'' wave) (\<lambda>wave.
        abind (request_args req) (\<lambda>args.
        abind (request_name ''waveform.cursor.use'' args) (\<lambda>name. Inr (Inr (wave, args, name))))) of
        Inl e \<Rightarrow> (Inl e, m)
      | Inr (Inl e) \<Rightarrow> (Inr e, m)
      | Inr (Inr (wave, args, name)) \<Rightarrow>
          (case cursor_use name m of
             (None, m) \<Rightarrow> (Inr (cursor_missing name), m)
           | (Some c, m) \<Rightarrow>
               (responded (abind (cursor_render_unit args) (\<lambda>unit.
                  Inr (Inr (ok_response [(''status'', JString ''active''), (''active_cursor'', JString name), (''time'', JString (aw_format_time wave (cu_time c) unit))]
                    [(''metadata'', cursor_metadata c)])))), m)))"

section \<open>Viewer configurations\<close>

record rc_text =
  rc_lines :: "string list"
  rc_groups :: nat
  rc_signals :: nat

text \<open>\<open>signal_entry.value("path", signal_entry.value("signal", ""))\<close>: the inner value is computed in any case.\<close>

definition rc_signal :: "json \<Rightarrow> string handled" where
  "rc_signal entry =
     (case entry of
        JString s \<Rightarrow> Inr s
      | _ \<Rightarrow> rbind (json_value entry ''signal'' [] get_string) (\<lambda>s. json_value entry ''path'' s get_string))"

fun rc_entries :: "stream_wave \<Rightarrow> json list \<Rightarrow> rc_text \<Rightarrow> rc_text option handled" where
  "rc_entries wave [] r = Inr (Some r)"
| "rc_entries wave (e # es) r =
     rbind (rc_signal e) (\<lambda>s.
       if s = [] \<or> wf_find_signal wave s = 0 then Inr None
       else rc_entries wave es (r\<lparr>rc_signals := rc_signals r + 1,
              rc_lines := rc_lines r @ [''addSignal '' @ map (\<lambda>c. if c = CHR ''.'' then CHR ''/'' else c) s]\<rparr>))"

lemma size_member: "map_of ms k = Some v \<Longrightarrow> size v < size (JObject ms)"
  by (induction ms) (auto split: if_splits)

lemma size_items: "size_list size (json_items v) \<le> size v + 1"
proof (cases v)
  case (JObject ms)
  have "size_list size (map snd ms) \<le> size_list (size_prod (\<lambda>c. 0) size) ms" by (induction ms) auto
  then show ?thesis using JObject by simp
qed auto

lemma size_subgroups: "json_get g k = Some v \<Longrightarrow> size_list size (json_items v) \<le> size g"
  using size_items [of v] size_member by (cases g) fastforce+

function render_groups :: "stream_wave \<Rightarrow> json list \<Rightarrow> rc_text \<Rightarrow> rc_text option handled" where
  "render_groups wave [] r = Inr (Some r)"
| "render_groups wave (g # gs) r =
     (if \<not> is_object g \<or> \<not> json_contains g ''name'' then Inr None
      else
        rbind (string_at_key g ''name'') (\<lambda>name.
        rbind (json_value g ''signals'' (JArray []) Inr) (\<lambda>signals.
        rbind (rc_entries wave (json_items signals) (r\<lparr>rc_groups := rc_groups r + 1, rc_lines := rc_lines r @ [''addGroup '' @ name]\<rparr>)) (\<lambda>entries.
          case entries of
            None \<Rightarrow> Inr None
          | Some r \<Rightarrow>
              (case json_get g ''subgroups'' of
                 None \<Rightarrow> render_groups wave gs r
               | Some subgroups \<Rightarrow>
                   rbind (render_groups wave (json_items subgroups) r) (\<lambda>nested.
                     case nested of None \<Rightarrow> Inr None | Some r \<Rightarrow> render_groups wave gs r))))))"
  by pat_completeness auto
termination
  by (relation "measure (\<lambda>(wave, gs, r). size_list size gs)") (auto simp: le_imp_less_Suc trans_le_add1 dest: size_subgroups)

definition rc_header :: "json \<Rightarrow> string list handled" where
  "rc_header config =
     rbind (json_value config ''window_time_unit'' ''1ns'' get_string) (\<lambda>window.
     rbind (json_value config ''file_time_scale'' ''1ns'' get_string) (\<lambda>scale.
     rbind (json_value config ''signal_spacing'' 5 get_u32) (\<lambda>spacing.
       Inr [''; Generated by xdebug nwave.rc.generate'', ''; Signal list/view rc only; open the FST separately in nWave.'',
         ''windowTimeUnit '' @ window, ''fileTimeScale '' @ scale,
         ''signalSpacing '' @ (if sint spacing < 0 then CHR ''-'' # dec_digits (nat (- sint spacing)) else dec_digits (nat (sint spacing)))])))"

definition rc_written :: "export_fs \<Rightarrow> string \<Rightarrow> string \<Rightarrow> nat \<Rightarrow> rc_text \<Rightarrow> (json \<times> file_writes) answered" where
  "rc_written fs config_path output_path times_count r =
     Inr (case (if parent_path output_path = [] then None else ef_create_directories fs (parent_path output_path)) of
            Some message \<Rightarrow> Inl (error_response ''EXPORT_FAILED'' message)
          | None \<Rightarrow>
              if \<not> (ef_opens fs output_path \<and> ef_writes fs output_path 0) then Inl (error_response ''EXPORT_FAILED'' ''cannot write nWave rc'')
              else Inr (ok_response [(''config_path'', JString config_path), (''output'', JObject [(''path'', JString output_path)]),
                     (''group_count'', JUnsigned (rc_groups r)), (''signal_count'', JUnsigned (rc_signals r)), (''written'', JBool True), (''valid'', JBool True)]
                     [(''validation'', JObject [(''signals'', JUnsigned (rc_signals r)), (''times'', JUnsigned times_count)]),
                      (''rc_preview'', JArray (map JString (take 5 (rc_lines r))))],
                     [(output_path, concat (map (\<lambda>l. l @ [CHR 0x0A]) (rc_lines r)))]))"

text \<open>\<open>size()\<close> of a JSON value.\<close>

definition json_length :: "json \<Rightarrow> nat" where
  "json_length v = length (json_items v)"

definition nwave_rc_generate :: "export_fs \<Rightarrow> (string \<Rightarrow> config_file) \<Rightarrow> stream_wave option \<Rightarrow> json \<Rightarrow> (json \<times> file_writes) answered" where
  "nwave_rc_generate fs read_json wave req =
     abind (with_wave ''nwave.rc.generate'' wave) (\<lambda>wave.
     abind (request_args req) (\<lambda>args.
     rbind (string_at_key args ''config_path'') (\<lambda>config_path.
     rbind (rbind (json_at args ''output'') (\<lambda>output. string_at_key output ''path'')) (\<lambda>output_path.
       case read_json config_path of
         Unreadable \<Rightarrow> Inr (Inl (error_response ''CONFIG_READ_FAILED'' ''cannot open nWave config''))
       | Bad_Json what \<Rightarrow> Inr (Inl (error_response ''CONFIG_PARSE_FAILED'' what))
       | Parsed config \<Rightarrow>
           if \<not> is_object config \<or> \<not> is_array (get_member config ''groups'') then
             Inr (Inl (error_response ''CONFIG_INVALID'' ''nWave config requires groups array''))
           else
             rbind (rc_header config) (\<lambda>header.
             rbind (render_groups wave (json_items (get_member config ''groups'')) \<lparr>rc_lines = header, rc_groups = 0, rc_signals = 0\<rparr>) (\<lambda>r.
               case r of
                 None \<Rightarrow> Inr (Inl (error_response ''CONFIG_INVALID'' ''invalid group or signal in nWave config''))
               | Some r \<Rightarrow>
                   rbind (json_value config ''times'' (JArray []) Inr) (\<lambda>marks.
                     rc_written fs config_path output_path (json_length marks) r)))))))"

end
