(* ===== verification/Stream_Properties.thy ===== *)
theory Stream_Properties
  imports Stream_Handlers Expr_Semantics Apb_Properties
begin

unbundle bit_operations_syntax

text \<open>
  What the scan, the stall windows, the filters and the configurations of streams do, against descriptions without
  loops and machine words.
\<close>

section \<open>Samples\<close>

definition flags_ok :: "bool \<Rightarrow> stream_sample \<Rightarrow> bool" where
  "flags_ok joined s \<longleftrightarrow> (ss_transfer s \<longrightarrow> ss_vld s) \<and> (ss_sop s \<or> ss_eop s \<longrightarrow> ss_transfer s) \<and>
     (\<not> joined \<longrightarrow> ss_stall s = (ss_vld s \<and> \<not> ss_transfer s))"

lemma flow_flags_fields:
  "ss_cycle (flow_flags r b j l p s) = ss_cycle s" "ss_time_idx (flow_flags r b j l p s) = ss_time_idx s" "ss_time (flow_flags r b j l p s) = ss_time s"
  by (simp_all add: flow_flags_def Let_def split: prod.splits)

lemma flow_flags_ok: "ss_sop s = False \<Longrightarrow> ss_eop s = False \<Longrightarrow> flags_ok j (flow_flags r b j l p s)"
  by (auto simp: flow_flags_def flags_ok_def Let_def split: prod.splits)

lemma transfer_payload_fields:
  assumes "transfer_payload c k wave format s complete = Inr (s', complete')"
  shows "ss_cycle s' = ss_cycle s" "ss_time_idx s' = ss_time_idx s" "ss_time s' = ss_time s" "flags_ok j s' = flags_ok j s"
  using assms by (auto simp: transfer_payload_def rbind_Inr Let_def flags_ok_def)

lemma judge_sample_fields:
  "ss_cycle (judge_sample c k l p s) = ss_cycle s" "ss_time_idx (judge_sample c k l p s) = ss_time_idx s" "ss_time (judge_sample c k l p s) = ss_time s"
  by (cases l; cases p; simp add: judge_sample_def Let_def flow_flags_fields)+

lemma judge_sample_ok:
  assumes "ss_sop s = False" "ss_eop s = False"
  shows "flags_ok (joins_levels c k) (judge_sample c k l p s)"
proof -
  obtain a b d e f where l: "l = (a, b, d, e, f)" by (cases l) auto
  obtain u v where p: "p = (u, v)" by fastforce
  show ?thesis
    using flow_flags_ok [OF assms, of "joins_levels c k" "ce_ready k \<noteq> None" "ce_backpressure k \<noteq> None" "(is_high a, is_high b, is_high d)" "(is_high u, is_high v)"]
    by (simp add: judge_sample_def l p Let_def flags_ok_def)
qed

lemma sample_at_fields:
  assumes "sample_at c k wave format cycle ti complete = Inr (s, complete')"
  shows "ss_cycle s = cycle \<and> ss_time_idx s = ti \<and> ss_time s = wf_time_at wave ti \<and> flags_ok (joins_levels c k) s"
proof -
  let ?s = "stream_sample_init\<lparr>ss_cycle := cycle, ss_time_idx := ti, ss_time := wf_time_at wave ti\<rparr>"
  show ?thesis
  proof (cases "reset_held c wave ti")
    case True
    then show ?thesis using assms by (auto simp: sample_at_def Let_def stream_sample_init_def flags_ok_def)
  next
    case False
    from assms False obtain l p where
      r: "(if ss_transfer (judge_sample c k l p ?s) then transfer_payload c k wave format (judge_sample c k l p ?s) complete
           else Inr (judge_sample c k l p ?s, complete)) = Inr (s, complete')"
      by (auto simp: sample_at_def Let_def rbind_Inr)
    have ok: "flags_ok (joins_levels c k) (judge_sample c k l p ?s)" by (rule judge_sample_ok) (simp_all add: stream_sample_init_def)
    show ?thesis
    proof (cases "ss_transfer (judge_sample c k l p ?s)")
      case True
      then have "transfer_payload c k wave format (judge_sample c k l p ?s) complete = Inr (s, complete')" using r by simp
      from transfer_payload_fields [OF this] ok show ?thesis by (simp add: judge_sample_fields)
    next
      case False
      then have "s = judge_sample c k l p ?s" using r by simp
      then show ?thesis using ok by (simp add: judge_sample_fields)
    qed
  qed
qed

definition sampled_edge :: "stream_config \<Rightarrow> compiled_stream \<Rightarrow> stream_wave \<Rightarrow> nat \<Rightarrow> nat \<Rightarrow> nat \<Rightarrow> bool" where
  "sampled_edge c k wave begin_ti end_ti ti \<longleftrightarrow> stream_edge c k wave ti = Inr True \<and> begin_ti \<le> ti \<and> ti \<le> end_ti"

lemma sample_loop_exact:
  assumes "sample_loop c k wave format lo hi tis cycle complete = Inr (ss, complete')" "sorted_wrt (<) tis"
  shows "map ss_time_idx ss = filter (sampled_edge c k wave lo hi) tis \<and> map ss_cycle ss = [cycle..<cycle + length ss] \<and>
    (\<forall>s \<in> set ss. ss_time s = wf_time_at wave (ss_time_idx s) \<and> flags_ok (joins_levels c k) s)"
  using assms
proof (induction tis arbitrary: cycle complete ss complete')
  case (Cons ti tis)
  from Cons.prems(1) obtain selected where e: "stream_edge c k wave ti = Inr selected" by (auto simp: rbind_Inr)
  consider (skip) "\<not> selected \<or> ti < lo" | (stop) "selected" "lo \<le> ti" "ti > hi" | (take) "selected" "lo \<le> ti" "ti \<le> hi" by linarith
  then show ?case
  proof cases
    case skip
    then show ?thesis using Cons e by (auto simp: sampled_edge_def)
  next
    case stop
    then have "ss = []" using Cons.prems(1) e by auto
    moreover have "filter (sampled_edge c k wave lo hi) (ti # tis) = []"
      using stop(3) Cons.prems(2) by (auto simp: filter_empty_conv sampled_edge_def)
    ultimately show ?thesis by simp
  next
    case take
    then obtain s c1 ss' where s: "sample_at c k wave format cycle ti complete = Inr (s, c1)"
      "sample_loop c k wave format lo hi tis (cycle + 1) c1 = Inr (ss', complete')" "ss = s # ss'"
      using Cons.prems(1) e by (auto simp: rbind_Inr)
    note f = sample_at_fields [OF s(1)]
    have "[cycle..<cycle + length ss] = cycle # [Suc cycle..<Suc cycle + length ss']"
      using upt_conv_Cons [of cycle "cycle + length ss"] s(3) by simp
    moreover have "sampled_edge c k wave lo hi ti" using take e by (simp add: sampled_edge_def)
    ultimately show ?thesis using Cons.IH [OF s(2)] Cons.prems(2) s(3) f by simp
  qed
qed simp

section \<open>Stall windows\<close>

lemma run_end_spec:
  assumes "pos < length samples" "ss_stall (samples ! pos)"
  shows "run_end samples pos < length samples" "\<And>i. pos \<le> i \<Longrightarrow> i \<le> run_end samples pos \<Longrightarrow> ss_stall (samples ! i)"
    "Suc (run_end samples pos) < length samples \<Longrightarrow> \<not> ss_stall (samples ! Suc (run_end samples pos))"
proof -
  let ?w = "takeWhile ss_stall (drop (Suc pos) samples)"
  have len: "length ?w \<le> length samples - Suc pos" using length_takeWhile_le [of ss_stall "drop (Suc pos) samples"] by simp
  then show inside: "run_end samples pos < length samples" using assms(1) by (simp add: run_end_def)
  show "ss_stall (samples ! i)" if i: "pos \<le> i" "i \<le> run_end samples pos" for i
  proof (cases "i = pos")
    case False
    then have j: "i - Suc pos < length ?w" "i = Suc pos + (i - Suc pos)" using i by (auto simp: run_end_def)
    then have "samples ! i = ?w ! (i - Suc pos)" using len by (metis takeWhile_nth nth_drop assms(1) Suc_leI)
    then show ?thesis using j(1) by (metis nth_mem set_takeWhileD)
  qed (use assms in simp)
  show "\<not> ss_stall (samples ! Suc (run_end samples pos))" if "Suc (run_end samples pos) < length samples"
  proof -
    have "length ?w < length (drop (Suc pos) samples)" using that by (simp add: run_end_def)
    then have "\<not> ss_stall (drop (Suc pos) samples ! length ?w)" by (rule nth_length_takeWhile)
    then show ?thesis using that by (simp add: run_end_def)
  qed
qed

declare stall_windows.simps [simp del]

definition window_cells :: "nat \<times> nat \<Rightarrow> nat list" where
  "window_cells = (\<lambda>(a, b). [a..<Suc b])"

lemma window_cells_set: "i \<in> set (window_cells (a, b)) \<longleftrightarrow> a \<le> i \<and> i \<le> b"
  by (auto simp: window_cells_def)

definition windows_ok :: "stream_sample list \<Rightarrow> nat \<Rightarrow> (nat \<times> nat) list \<Rightarrow> bool" where
  "windows_ok samples pos ws \<longleftrightarrow>
     concat (map window_cells ws) = filter (\<lambda>i. ss_stall (samples ! i)) [pos..<length samples] \<and>
     list_all (\<lambda>(a, b). pos \<le> a \<and> a \<le> b) ws \<and> successively (\<lambda>(a, b) (a', b'). Suc b < a') ws"

lemma stall_windows_ok: "windows_ok samples pos (stall_windows samples pos)"
proof (induction samples pos rule: stall_windows.induct)
  case (1 samples pos)
  show ?case
  proof (cases "pos < length samples")
    case False
    then show ?thesis by (simp add: stall_windows.simps windows_ok_def)
  next
    case inside: True
    show ?thesis
    proof (cases "ss_stall (samples ! pos)")
      case False
      have "windows_ok samples (pos + 1) (stall_windows samples (pos + 1))" using 1 inside False by simp
      moreover have "[pos..<length samples] = pos # [pos + 1..<length samples]" using inside by (simp add: upt_conv_Cons)
      ultimately show ?thesis
        using inside False by (auto simp: stall_windows.simps [of samples pos] windows_ok_def list_all_iff)
    next
      case True
      let ?e = "run_end samples pos"
      note e = run_end_spec [OF inside True]
      have le: "pos \<le> ?e" by (simp add: run_end_def)
      have rest: "windows_ok samples (?e + 1) (stall_windows samples (?e + 1))" using 1 inside True by simp
      have "[pos..<length samples] = [pos..<Suc ?e] @ [Suc ?e..<length samples]"
        using le e(1) by (metis Suc_leI le_Suc_eq le_add_diff_inverse upt_add_eq_append)
      moreover have "filter (\<lambda>i. ss_stall (samples ! i)) [pos..<Suc ?e] = window_cells (pos, ?e)"
        using e(2) by (auto simp: window_cells_def filter_id_conv simp del: upt_Suc)
      moreover have gap: "Suc ?e < a" if "(a, b) \<in> set (stall_windows samples (?e + 1))" for a b
      proof -
        have ab: "Suc ?e \<le> a" "a \<le> b" using rest that by (auto simp: windows_ok_def list_all_iff)
        then have "a \<in> set (concat (map window_cells (stall_windows samples (?e + 1))))"
          using that window_cells_set [of a a b] by (auto intro!: bexI [of _ "(a, b)"])
        moreover have "concat (map window_cells (stall_windows samples (?e + 1))) = filter (\<lambda>i. ss_stall (samples ! i)) [?e + 1..<length samples]"
          using rest by (simp add: windows_ok_def)
        ultimately have "a \<in> set (filter (\<lambda>i. ss_stall (samples ! i)) [?e + 1..<length samples])" by argo
        then have "a < length samples" "ss_stall (samples ! a)" by auto
        then show ?thesis using ab(1) e(3) by (cases "a = Suc ?e") auto
      qed
      moreover have "stall_windows samples (?e + 1) \<noteq> [] \<longrightarrow> Suc ?e < fst (hd (stall_windows samples (?e + 1)))"
        using gap hd_in_set by (metis prod.collapse)
      ultimately show ?thesis
        using rest inside True le
        by (auto simp: stall_windows.simps [of samples pos] windows_ok_def list_all_iff successively_Cons hd_in_set simp del: upt_Suc split: prod.splits)
    qed
  qed
qed

section \<open>Filters\<close>

lemma literal_known_two_state:
  assumes "parse_sv_literal t = Inr (Some l)" "lv_known l"
  shows "two_state (lv_bits l)"
proof -
  have u64: "two_state (lv_bits l)" if "logic_value_from_u64 v w = Inr l" for v :: u64 and w :: int
    using logic_value_from_u64_spec [of w v] that by simp
  have bits: "two_state (lv_bits l)" if "logic_value_from_bits b w = l" for b w
    using that assms(2) by (auto simp: logic_value_from_bits_flags)
  show ?thesis
    using assms(1) u64 bits
    by (auto simp: parse_sv_literal_def parse_based_literal_def Let_def rbind_Inr split: if_splits option.splits)
qed

lemma lsb_bit_snoc: "lsb_bit (b @ [c]) i d = (if i = 0 then c else lsb_bit b (i - 1) d)"
  by (auto simp: lsb_bit_def nth_append)

lemma bits_nat_bit: "bit (bits_nat b) i \<longleftrightarrow> lsb_bit b i (CHR ''0'') = CHR ''1''"
proof (induction b arbitrary: i rule: rev_induct)
  case Nil
  show ?case by (simp add: lsb_bit_def)
next
  case (snoc c b)
  show ?case by (cases i) (auto simp: lsb_bit_snoc snoc.IH bit_0 bit_Suc)
qed

lemma word_bit: "i < 64 \<Longrightarrow> bit (foldl shift_in 0 b) i \<longleftrightarrow> lsb_bit b i (CHR ''0'') = CHR ''1''"
  by (simp add: shift_in_fold bit_of_nat_iff bits_nat_bit)

lemma lsb_bit_two_state:
  assumes "two_state b"
  shows "lsb_bit b i (CHR ''0'') = CHR ''0'' \<or> lsb_bit b i (CHR ''0'') = CHR ''1''"
proof (cases "i < length b")
  case True
  then have "b ! (length b - 1 - i) \<in> set b" by simp
  then have "b ! (length b - 1 - i) \<in> {CHR ''0'', CHR ''1''}" using assms unfolding two_state_def by (rule rev_subsetD)
  then show ?thesis using True by (simp add: lsb_bit_def)
qed (simp add: lsb_bit_def)

lemma mask_loop_two_state:
  assumes "two_state b"
  shows "mask_loop b e m is = (if \<forall>i \<in> set is. lsb_bit m i (CHR ''0'') = CHR ''1'' \<longrightarrow> lsb_bit b i (CHR ''0'') = lsb_bit e i (CHR ''0'') then Match else NoMatch)"
proof (induction "is")
  case (Cons i "is")
  show ?case using lsb_bit_two_state [OF assms, of i] by (simp only: mask_loop.simps Cons.IH Let_def list.set) auto
qed simp

lemma lsb_bit_le:
  assumes "list_all2 bit_le b b'" "lsb_bit b i (CHR ''0'') = CHR ''0'' \<or> lsb_bit b i (CHR ''0'') = CHR ''1''"
  shows "lsb_bit b' i (CHR ''0'') = lsb_bit b i (CHR ''0'')"
proof -
  have len: "length b' = length b" using list_all2_lengthD [OF assms(1)] by simp
  show ?thesis
  proof (cases "i < length b")
    case True
    then have "bit_le (b ! (length b - 1 - i)) (b' ! (length b - 1 - i))" using list_all2_nthD [OF assms(1)] by simp
    then show ?thesis using assms(2) True len by (auto simp: lsb_bit_def bit_le_def is_known_bit_def)
  qed (simp add: lsb_bit_def len)
qed

lemma mask_loop_resolved:
  assumes "mask_loop b e m is = r" "r \<noteq> Unresolved" "list_all2 bit_le b b'"
  shows "mask_loop b' e m is = r"
  using assms(1,2)
proof (induction "is")
  case (Cons i "is")
  show ?case
  proof (cases "lsb_bit m i (CHR ''0'') = CHR ''1''")
    case True
    then have known: "lsb_bit b i (CHR ''0'') = CHR ''0'' \<or> lsb_bit b i (CHR ''0'') = CHR ''1''"
      using Cons.prems by (auto simp: Let_def split: if_splits)
    then show ?thesis using Cons lsb_bit_le [OF assms(3) known] True by (auto simp: Let_def)
  qed (use Cons in simp)
qed simp

text \<open>The masked comparison of machine words is the comparison of bits.\<close>

lemma masked_words:
  fixes m :: string
  assumes "two_state b" "two_state e" "length b \<le> 64" "length e \<le> 64" "length m \<le> 64"
  shows "mask_loop b e m [0..<max (length b) (max (length e) (length m))] =
    (if foldl shift_in 0 b AND foldl shift_in 0 m = foldl shift_in 0 e AND foldl shift_in 0 m then Match else NoMatch)"
proof -
  let ?n = "max (length b) (max (length e) (length m))"
  let ?sel = "\<lambda>i. lsb_bit m i (CHR ''0'') = CHR ''1''"
  have "foldl shift_in 0 b AND foldl shift_in 0 m = foldl shift_in 0 e AND foldl shift_in 0 m \<longleftrightarrow>
      (\<forall>i < 64. ?sel i \<longrightarrow> (lsb_bit b i (CHR ''0'') = CHR ''1'') = (lsb_bit e i (CHR ''0'') = CHR ''1''))"
    by (auto simp: bit_eq_iff bit_and_iff word_bit)
  also have "\<dots> \<longleftrightarrow> (\<forall>i < 64. ?sel i \<longrightarrow> lsb_bit b i (CHR ''0'') = lsb_bit e i (CHR ''0''))"
    using lsb_bit_two_state [OF assms(1)] lsb_bit_two_state [OF assms(2)] by metis
  also have "\<dots> \<longleftrightarrow> (\<forall>i \<in> set [0..<?n]. ?sel i \<longrightarrow> lsb_bit b i (CHR ''0'') = lsb_bit e i (CHR ''0''))"
  proof (intro iffI allI ballI impI)
    fix i assume all: "\<forall>i \<in> set [0..<?n]. ?sel i \<longrightarrow> lsb_bit b i (CHR ''0'') = lsb_bit e i (CHR ''0'')" and sel: "?sel i"
    from sel have "i < length m" by (auto simp: lsb_bit_def split: if_splits)
    with all sel show "lsb_bit b i (CHR ''0'') = lsb_bit e i (CHR ''0'')" by simp
  next
    fix i assume all: "\<forall>i < 64. ?sel i \<longrightarrow> lsb_bit b i (CHR ''0'') = lsb_bit e i (CHR ''0'')" and i: "i \<in> set [0..<?n]" and sel: "?sel i"
    from i assms(3-5) have "i < 64" by auto
    with all sel show "lsb_bit b i (CHR ''0'') = lsb_bit e i (CHR ''0'')" by blast
  qed
  finally show ?thesis using mask_loop_two_state [OF assms(1), of e m "[0..<?n]"] by argo
qed

lemma logic_json_members:
  assumes "b \<noteq> []"
  shows "is_object (logic_value_json (logic_value_from_bits b w) fmt)"
    "json_get (logic_value_json (logic_value_from_bits b w) fmt) ''bits'' = Some (JString b)"
    "json_get (logic_value_json (logic_value_from_bits b w) fmt) ''known'' = Some (JBool (two_state b))"
  using assms by (auto simp: logic_value_json_def Let_def logic_value_from_bits_flags)

text \<open>The literal a rule gives under a name has at most 64 bits, when it is one.\<close>

definition short_literal :: "json \<Rightarrow> string \<Rightarrow> bool" where
  "short_literal rule k = (case json_get rule k of
     Some (JString t) \<Rightarrow> (case parse_sv_literal t of Inr (Some l) \<Rightarrow> length (lv_bits l) \<le> 64 | _ \<Rightarrow> True) | _ \<Rightarrow> True)"

lemma two_state_refined: "list_all2 bit_le b b' \<Longrightarrow> two_state b \<Longrightarrow> b' = b"
  by (induction rule: list_all2_induct) (auto simp: two_state_def bit_le_def is_known_bit_def)

lemma object_value: "is_object v \<Longrightarrow> json_value v k d get = (case json_get v k of None \<Rightarrow> Inr d | Some x \<Rightarrow> get x)"
  by (cases v) (auto simp: json_value_def)

lemma object_at: "is_object v \<Longrightarrow> json_get v k = Some x \<Longrightarrow> json_at v k = Inr x"
  by (cases v) auto

lemma get_string_iff: "get_string v = Inr t \<longleftrightarrow> v = JString t"
  by (cases v) auto

lemma lift_fault_iff: "lift_fault r = Inr x \<longleftrightarrow> r = Inr x"
  by (cases r) (auto simp: lift_fault_def)

lemmas field_reads = object_value object_at logic_json_members string_at_key_def json_contains_def

text \<open>A rule that compares under a mask, with literals it can read.\<close>

definition mask_rule :: "json \<Rightarrow> string \<Rightarrow> string \<Rightarrow> bool" where
  "mask_rule rule e m \<longleftrightarrow> json_at rule ''mode'' = Inr (JString ''mask'') \<and>
     (\<exists>tv l. json_at rule ''value'' = Inr (JString tv) \<and> parse_sv_literal tv = Inr (Some l) \<and> lv_known l \<and> e = lv_bits l) \<and>
     (\<exists>tm l. json_at rule ''mask'' = Inr (JString tm) \<and> parse_sv_literal tm = Inr (Some l) \<and> lv_known l \<and> m = lv_bits l)"

lemma mask_rule_two_state: "mask_rule rule e m \<Longrightarrow> two_state e \<and> two_state m"
  using literal_known_two_state by (auto simp: mask_rule_def)

lemma filter_unknown:
  assumes "\<not> two_state b" "b \<noteq> []" "mask_rule rule e m"
  shows "stream_field_filter_result (logic_value_json (logic_value_from_bits b w) format) rule =
    Inr (mask_loop b e m [0..<max (length b) (max (length e) (length m))])"
  using assms by (auto simp: stream_field_filter_result_def mask_rule_def field_reads lift_fault_def)

lemma filter_unknown_decided:
  assumes "stream_field_filter_result (logic_value_json (logic_value_from_bits b w) format) rule = Inr r" "r \<noteq> Unresolved"
    "\<not> two_state b" "b \<noteq> []"
  shows "\<exists>e m. mask_rule rule e m"
  using assms by (auto simp: stream_field_filter_result_def mask_rule_def field_reads lift_fault_iff get_string_iff rbind_Inr split: if_splits)

lemma known_bits_list: "two_state b \<longleftrightarrow> list_all (\<lambda>c. c = CHR ''0'' \<or> c = CHR ''1'') b"
  by (auto simp: two_state_def list_all_iff)

lemma filter_known:
  assumes "two_state b" "b \<noteq> []" "length b \<le> 64" "mask_rule rule e m" "length e \<le> 64" "length m \<le> 64"
  shows "stream_field_filter_result (logic_value_json (logic_value_from_bits b w) format) rule =
    Inr (mask_loop b e m [0..<max (length b) (max (length e) (length m))])"
proof -
  have e: "two_state e" using mask_rule_two_state [OF assms(4)] by simp
  have known: "known_u64 (logic_value_json (logic_value_from_bits b w) format) = Inr (Some (foldl shift_in 0 b))"
    using assms(1-3) by (simp add: known_u64_def field_reads known_bits_list)
  have lits: "literal_at rule ''value'' = Inr (Some (foldl shift_in 0 e))" "literal_at rule ''mask'' = Inr (Some (foldl shift_in 0 m))"
    using assms(4-6) by (auto simp: mask_rule_def literal_at_def literal_u64_def logic_u64_def lift_fault_def string_at_key_def)
  have mode: "json_at rule ''mode'' = Inr (JString ''mask'')" using assms(4) by (simp add: mask_rule_def)
  show ?thesis unfolding masked_words [OF assms(1) e assms(3,5,6)]
    using assms(1,2) by (simp add: stream_field_filter_result_def stream_field_matches_def known lits mode field_reads)
qed

lemma short_literalD:
  assumes "short_literal rule k" "json_at rule k = Inr (JString t)" "parse_sv_literal t = Inr (Some l)"
  shows "length (lv_bits l) \<le> 64"
  using assms by (cases rule) (auto simp: short_literal_def split: option.splits)

lemma filter_result_le:
  assumes "stream_field_filter_result (logic_value_json (logic_value_from_bits b w) format) rule = Inr r" "r \<noteq> Unresolved"
    "list_all2 bit_le b b'" "b \<noteq> []" "length b \<le> 64" "short_literal rule ''value''" "short_literal rule ''mask''"
  shows "stream_field_filter_result (logic_value_json (logic_value_from_bits b' w) format) rule = Inr r"
proof (cases "two_state b")
  case True
  with assms show ?thesis using two_state_refined by metis
next
  case False
  have len: "length b' = length b" and ne: "b' \<noteq> []" using assms(3,4) list_all2_lengthD [OF assms(3)] by auto
  obtain e m where rule: "mask_rule rule e m" using filter_unknown_decided [OF assms(1,2) False assms(4)] by blast
  have short: "length e \<le> 64" "length m \<le> 64" using rule assms(6,7) short_literalD by (auto simp: mask_rule_def)
  have "mask_loop b e m [0..<max (length b) (max (length e) (length m))] = r"
    using assms(1) filter_unknown [OF False assms(4) rule] by simp
  from mask_loop_resolved [OF this assms(2,3)]
  have "mask_loop b' e m [0..<max (length b') (max (length e) (length m))] = r" using len by simp
  then show ?thesis
    using filter_unknown [OF _ ne rule] filter_known [OF _ ne _ rule short] assms(5) len by (cases "two_state b'") simp_all
qed

section \<open>Configurations\<close>

lemma member_set_same: "map_of ms k = Some v \<Longrightarrow> member_set ms k v = ms"
  by (induction ms) auto

text \<open>What parsing reads of a description, member by member.\<close>

lemma member_reads:
  assumes "map_of ms' k = map_of ms k"
  shows "json_value (JObject ms') k d get = json_value (JObject ms) k d get" "json_at (JObject ms') k = json_at (JObject ms) k"
    "json_contains (JObject ms') k = json_contains (JObject ms) k" "string_at_key (JObject ms') k = string_at_key (JObject ms) k"
    "resolved_expression (JObject ms') signals k = resolved_expression (JObject ms) signals k"
  using assms by (simp_all add: json_value_def json_contains_def string_at_key_def resolved_expression_def)

lemma member_reads_parts:
  "map_of ms' ''reset'' = map_of ms ''reset'' \<Longrightarrow> stream_reset (JObject ms') = stream_reset (JObject ms)"
  "map_of ms' ''data'' = map_of ms ''data'' \<Longrightarrow> stream_data (JObject ms') signals beats = stream_data (JObject ms) signals beats"
  "map_of ms' ''rdy'' = map_of ms ''rdy'' \<Longrightarrow> map_of ms' ''bp'' = map_of ms ''bp'' \<Longrightarrow>
     stream_incomplete (JObject ms') c = stream_incomplete (JObject ms) c"
  by (simp_all add: stream_reset_def stream_data_def stream_incomplete_def member_reads [of ms' _ ms])

lemma stream_source_members:
  assumes "stream_source (JObject ms) c = JObject ms'"
  shows "map_of ms' = (let m = (map_of ms)(''edge'' \<mapsto> JString (sc_edge c)) in
      if sc_edge c = ''negedge'' then m else m(''sample_point'' \<mapsto> JString (sc_sample_point c)))
    (''channel_id_valid'' \<mapsto> JString (sc_channel_id_valid c), ''allow_interleaving'' \<mapsto> JBool (sc_allow_interleaving c))"
proof -
  have "ms' = object_members (stream_source (JObject ms) c)" using assms by simp
  then show ?thesis by (simp add: stream_source_def Let_def)
qed

lemma stream_source_again:
  assumes "stream_source (JObject ms) c = JObject ms'" "sc_edge d = sc_edge c" "sc_sample_point d = sc_sample_point c"
    "sc_channel_id_valid d = sc_channel_id_valid c" "sc_allow_interleaving d = sc_allow_interleaving c"
  shows "stream_source (JObject ms') d = JObject ms'"
  using stream_source_members [OF assms(1)] assms(2-) by (simp add: stream_source_def Let_def member_set_same)

lemma refused_update [simp]: "stream_refused (c\<lparr>sc_data := x\<rparr>) = stream_refused c" "stream_refused (c\<lparr>sc_source := y\<rparr>) = stream_refused c"
  by (simp_all add: stream_refused_def)

lemma incomplete_update [simp]: "stream_incomplete i (c\<lparr>sc_data := x\<rparr>) = stream_incomplete i c" "stream_incomplete i (c\<lparr>sc_source := y\<rparr>) = stream_incomplete i c"
  by (simp_all add: stream_incomplete_def)

lemma source_update [simp]: "stream_source i (c\<lparr>sc_data := x\<rparr>) = stream_source i c" "stream_source i (c\<lparr>sc_source := y\<rparr>) = stream_source i c"
  by (simp_all add: stream_source_def Let_def)

lemma finish_streamD:
  assumes "finish_stream input d = Inr (Inr c)"
  shows "\<exists>x y. c = d\<lparr>sc_data := x, sc_source := y\<rparr>" "finish_stream input (c\<lparr>sc_data := [], sc_source := JNull\<rparr>) = Inr (Inr c)"
    "sc_source c = stream_source input c"
proof -
  from assms obtain x where x: "\<not> stream_incomplete input d" "stream_data input (sc_signals d) (sc_beat_fields d) = Inr x" "stream_refused d = None"
    and c: "c = d\<lparr>sc_data := x, sc_source := stream_source input d\<rparr>"
    by (auto simp: finish_stream_def Let_def rbind_Inr split: if_splits option.splits)
  show "\<exists>x y. c = d\<lparr>sc_data := x, sc_source := y\<rparr>" "sc_source c = stream_source input c" using c by auto
  show "finish_stream input (c\<lparr>sc_data := [], sc_source := JNull\<rparr>) = Inr (Inr c)"
    using x by (simp add: finish_stream_def c)
qed

lemma finish_stream_cong:
  assumes "stream_incomplete i' d = stream_incomplete i d" "stream_data i' (sc_signals d) (sc_beat_fields d) = stream_data i (sc_signals d) (sc_beat_fields d)"
    "stream_source i' d = stream_source i d"
  shows "finish_stream i' d = finish_stream i d"
  using assms by (cases "stream_refused d") (simp_all add: finish_stream_def Let_def)

lemma parse_streamI:
  assumes "string_at_key input ''name'' = Inr (sc_name c)" "stream_signals input = Inr (sc_signals c)"
    "resolved_expression input (sc_signals c) ''clock'' = Inr (sc_clock c)" "resolved_expression input (sc_signals c) ''vld'' = Inr (sc_valid c)"
    "resolved_expression input (sc_signals c) ''rdy'' = Inr (sc_ready c)" "resolved_expression input (sc_signals c) ''bp'' = Inr (sc_backpressure c)"
    "resolved_expression input (sc_signals c) ''sop'' = Inr (sc_sop c)" "resolved_expression input (sc_signals c) ''eop'' = Inr (sc_eop c)"
    "json_value input ''edge'' ''posedge'' get_string = Inr (sc_edge c)"
    "json_value input ''sample_point'' (if sc_edge c = ''negedge'' then [] else ''before'') get_string = Inr (sc_sample_point c)"
    "stream_reset input = Inr (sc_reset c, sc_reset_polarity c)" "json_value input ''beat_fields'' (JObject []) Inr = Inr (sc_beat_fields c)"
    "json_value input ''packet_stable_fields'' (JObject []) Inr = Inr (sc_packet_stable_fields c)"
    "resolved_expression input (sc_signals c) ''channel_id'' = Inr (sc_channel_id c)"
    "json_value input ''channel_id_valid'' ''every_beat'' get_string = Inr (sc_channel_id_valid c)"
    "json_value input ''allow_interleaving'' False get_bool = Inr (sc_allow_interleaving c)"
  shows "parse_stream input = finish_stream input (c\<lparr>sc_data := [], sc_source := JNull\<rparr>)"
proof -
  have "parse_stream input = finish_stream input \<lparr>sc_name = sc_name c, sc_source = JNull, sc_signals = sc_signals c, sc_clock = sc_clock c, sc_valid = sc_valid c,
      sc_ready = sc_ready c, sc_backpressure = sc_backpressure c, sc_data = [], sc_edge = sc_edge c, sc_sample_point = sc_sample_point c, sc_reset = sc_reset c,
      sc_reset_polarity = sc_reset_polarity c, sc_sop = sc_sop c, sc_eop = sc_eop c, sc_beat_fields = sc_beat_fields c,
      sc_packet_stable_fields = sc_packet_stable_fields c, sc_channel_id = sc_channel_id c, sc_channel_id_valid = sc_channel_id_valid c,
      sc_allow_interleaving = sc_allow_interleaving c\<rparr>"
    unfolding parse_stream_def assms rbind_simps prod.case ..
  also have "\<dots> = finish_stream input (c\<lparr>sc_data := [], sc_source := JNull\<rparr>)" by (cases c) simp
  finally show ?thesis .
qed

lemma parse_streamD:
  assumes "parse_stream input = Inr (Inr c)"
  shows "string_at_key input ''name'' = Inr (sc_name c) \<and> stream_signals input = Inr (sc_signals c) \<and>
    resolved_expression input (sc_signals c) ''clock'' = Inr (sc_clock c) \<and> resolved_expression input (sc_signals c) ''vld'' = Inr (sc_valid c) \<and>
    resolved_expression input (sc_signals c) ''rdy'' = Inr (sc_ready c) \<and> resolved_expression input (sc_signals c) ''bp'' = Inr (sc_backpressure c) \<and>
    resolved_expression input (sc_signals c) ''sop'' = Inr (sc_sop c) \<and> resolved_expression input (sc_signals c) ''eop'' = Inr (sc_eop c) \<and>
    json_value input ''sample_point'' (if sc_edge c = ''negedge'' then [] else ''before'') get_string = Inr (sc_sample_point c) \<and>
    stream_reset input = Inr (sc_reset c, sc_reset_polarity c) \<and> json_value input ''beat_fields'' (JObject []) Inr = Inr (sc_beat_fields c) \<and>
    json_value input ''packet_stable_fields'' (JObject []) Inr = Inr (sc_packet_stable_fields c) \<and>
    resolved_expression input (sc_signals c) ''channel_id'' = Inr (sc_channel_id c) \<and>
    finish_stream input (c\<lparr>sc_data := [], sc_source := JNull\<rparr>) = Inr (Inr c) \<and> sc_source c = stream_source input c"
  using assms unfolding parse_stream_def rbind_Inr
proof (elim exE conjE, goal_cases)
  case (1 name signals clock vld rdy bp sop eop edge point rp)
  obtain r p where rp: "rp = (r, p)" by fastforce
  from 1(12) obtain beat stable ch chv inter where 
    more: "json_value input ''beat_fields'' (JObject []) Inr = Inr beat" "json_value input ''packet_stable_fields'' (JObject []) Inr = Inr stable"
      "resolved_expression input signals ''channel_id'' = Inr ch" 
    and f: "finish_stream input \<lparr>sc_name = name, sc_source = JNull, sc_signals = signals, sc_clock = clock, sc_valid = vld, sc_ready = rdy,
         sc_backpressure = bp, sc_data = [], sc_edge = edge, sc_sample_point = point, sc_reset = r,
         sc_reset_polarity = p, sc_sop = sop, sc_eop = eop, sc_beat_fields = beat, sc_packet_stable_fields = stable,
         sc_channel_id = ch, sc_channel_id_valid = chv, sc_allow_interleaving = inter\<rparr> = Inr (Inr c)"
    unfolding rp prod.case rbind_Inr by blast
  obtain x y where c: "c = \<lparr>sc_name = name, sc_source = y, sc_signals = signals, sc_clock = clock, sc_valid = vld, sc_ready = rdy,
         sc_backpressure = bp, sc_data = x, sc_edge = edge, sc_sample_point = point, sc_reset = r,
         sc_reset_polarity = p, sc_sop = sop, sc_eop = eop, sc_beat_fields = beat, sc_packet_stable_fields = stable,
         sc_channel_id = ch, sc_channel_id_valid = chv, sc_allow_interleaving = inter\<rparr>" 
    using finish_streamD(1) [OF f] by auto
  note g = finish_streamD(2,3) [OF f] 1(1-11) more rp
  then show ?case unfolding c by simp
qed

lemma parse_stream_source:
  assumes "parse_stream input = Inr (Inr c)"
  shows "parse_stream (sc_source c) = Inr (Inr c)"
proof -
  note d = parse_streamD [OF assms]
  obtain ms where input: "input = JObject ms" using d by (cases input) (auto simp: string_at_key_def)
  obtain ms' where ms': "stream_source (JObject ms) c = JObject ms'" by (simp add: stream_source_def Let_def)
  note map = stream_source_members [OF ms', unfolded Let_def]
  have kept: "map_of ms' k = map_of ms k" if "k \<notin> {''edge'', ''sample_point'', ''channel_id_valid'', ''allow_interleaving''}" for k
    using that by (simp add: map)
  have point: "json_value (JObject ms') ''sample_point'' (if sc_edge c = ''negedge'' then [] else ''before'') get_string = Inr (sc_sample_point c)"
  proof (cases "sc_edge c = ''negedge''")
    case True
    then have same: "map_of ms' ''sample_point'' = map_of ms ''sample_point''" by (simp add: map)
    show ?thesis unfolding member_reads(1) [OF same] using d input by simp
  qed (simp add: json_value_def map)
  note reads = member_reads [OF kept] member_reads_parts [of ms' ms, OF kept] member_reads_parts(3) [of ms' ms, OF kept kept]
  have signals: "stream_signals (JObject ms') = stream_signals (JObject ms)" by (simp add: stream_signals_def reads del: json_at.simps)
  have finish: "finish_stream (JObject ms') (c\<lparr>sc_data := [], sc_source := JNull\<rparr>) = Inr (Inr c)"
    using d input ms' stream_source_again [OF ms' refl refl refl refl] finish_stream_cong [of "JObject ms'" "c\<lparr>sc_data := [], sc_source := JNull\<rparr>" "JObject ms"]
    by (simp add: reads)
  have "parse_stream (JObject ms') = finish_stream (JObject ms') (c\<lparr>sc_data := [], sc_source := JNull\<rparr>)"
    by (rule parse_streamI) (use d input in \<open>simp_all add: reads signals point\<close>, simp_all add: json_value_def map)
  then show ?thesis using finish d input ms' by simp
qed

end
