(* ===== verification/Stream_Theorems.thy ===== *)
theory Stream_Theorems
  imports Stream_Properties Apb_Theorems
begin

unbundle bit_operations_syntax

text \<open>
  What the lemmas on the stream actions amount to, and a small stream on which each of the properties is applied.
\<close>

section \<open>A stream to look at\<close>

text \<open>
  The clock rises at the times 1, 3, 5 and 7. The stream is valid from the first edge on and ready at all edges but the
  second; the transfer at the first edge opens a packet, the one at the third closes it, and the last opens another.
\<close>

definition link_signals :: "(string \<times> (nat \<times> string) list) list" where
  "link_signals =
     [(''clk'', [(0, ''0''), (1, ''1''), (2, ''0''), (3, ''1''), (4, ''0''), (5, ''1''), (6, ''0''), (7, ''1'')]),
      (''vld'', [(0, ''1'')]), (''rdy'', [(0, ''1''), (2, ''0''), (4, ''1'')]),
      (''first'', [(0, ''1''), (2, ''0''), (6, ''1'')]), (''final'', [(0, ''0''), (4, ''1''), (6, ''0'')])]"

definition link_changes :: "signal_ref \<Rightarrow> (nat \<times> string) list" where
  "link_changes ref = (if 0 < ref \<and> unat ref \<le> length link_signals then snd (link_signals ! (unat ref - 1)) else [])"

definition link_wave :: stream_wave where
  "link_wave = \<lparr>wf_time_at = word_of_nat,
     wf_find_signal = (\<lambda>p. word_of_nat (position_of p (map fst link_signals))),
     wf_signal_info = (\<lambda>r. Some \<lparr>si_encoding = BitVector, si_num_changes = 1, si_max_states = 2, si_width = 1, si_bytes_per_entry = 1, si_has_meta_byte = False\<rparr>),
     wf_sampled_value_at = (\<lambda>r ti point. map_option
        (\<lambda>t. \<lparr>sv_value = bits_text t, sv_time_idx = ti, sv_element = 0, sv_elements_at_time = 1, sv_time_match = True\<rparr>)
        (observe (link_changes r) ti point)),
     wf_time_indices_of = (\<lambda>r. map fst (link_changes r)),
     aw_is_loaded = (\<lambda>r. True), aw_load_signal = (\<lambda>r. 1), aw_format_time = (\<lambda>t u. ''''), aw_parse_time = (\<lambda>t b. Inl ''''),
     aw_min_time = 0, aw_max_time = 7, sw_time_idx_of = unat\<rparr>"

definition link_input :: json where
  "link_input = JObject [(''name'', JString ''link''), (''signals'', JObject [(''c'', JString ''clk''), (''v'', JString ''vld'')]),
     (''clock'', JString ''c''), (''vld'', JString ''v''), (''rdy'', JString ''rdy''), (''sop'', JString ''first''), (''eop'', JString ''final'')]"

definition link_config :: stream_config where
  "link_config = (case parse_stream link_input of Inr (Inr c) \<Rightarrow> c | _ \<Rightarrow> undefined)"

definition link_compiled :: compiled_stream where
  "link_compiled = (case compile_stream_expressions link_wave link_config of Inr (Inr k) \<Rightarrow> k | _ \<Rightarrow> undefined)"

definition link_samples :: "stream_sample list" where
  "link_samples = (case scan_stream_samples link_wave link_config link_compiled 0 7 Hex of Inr (ss, complete) \<Rightarrow> ss | _ \<Rightarrow> [])"

lemma link_parsed: "parse_stream link_input = Inr (Inr link_config)"
  by code_simp

lemma link_scanned: "scan_stream_samples link_wave link_config link_compiled 0 7 Hex = Inr (link_samples, True)"
  by code_simp

lemma link_flags: "map (\<lambda>s. (ss_transfer s, ss_stall s, ss_sop s, ss_eop s)) link_samples =
   [(True, False, True, False), (False, True, False, False), (True, False, False, True), (True, False, True, False)]"
  by code_simp

lemma link_edges: "filter (sampled_edge link_config link_compiled link_wave 0 7) (clock_time_indices link_wave link_compiled) = [1, 3, 5, 7]"
  by code_simp

lemma link_packets: "packet_enabled link_config"
  by code_simp

section \<open>Properties\<close>

text \<open>
  Claim C10 (refinement). The packets of a stream are the cut of its transfers. For every channel the beats of its packets,
  one packet after the other, are exactly the transfers of that channel in order; a packet has a first beat only at its
  start and a last beat only at its end, and between two packets of a channel there is a last beat or a first beat. Packets
  are numbered from zero in the order of their first beats; every transfer carries the number of its packet and its place
  there and is otherwise unchanged; the counts of complete and partial packets are those of packets with and without both ends.
\<close>

theorem stream_packets_exact:
  assumes "packet_enabled c"
  shows "let p = scan_packets c wave unit ts; packets = ordered_packets p; key = (\<lambda>i. packet_key c (ts ! i)) in
    cuts_ok (stream_first ts) (stream_last ts) (channel_run key (length ts) k) (map pk_beats (filter (of_key key k) packets)) \<and>
    map pk_index packets = [0..<length packets] \<and> sorted_wrt (<) (map (hd \<circ> pk_beats) packets) \<and>
    list_all (marked (pa_transfers p)) packets \<and> map unmarked (pa_transfers p) = map unmarked ts \<and>
    pa_complete p = length (filter (whole ts) packets) \<and> pa_partial p = length (filter (\<lambda>s. \<not> whole ts s) packets)"
  unfolding Let_def by (intro conjI packets_exact [OF assms refl refl])

theorem stream_packets_exact_witness:
  "cuts_ok (stream_first (filter ss_transfer link_samples)) (stream_last (filter ss_transfer link_samples)) [0, 1, 2] [[0, 1], [2]] \<and>
   pa_complete (scan_packets link_config link_wave Ns (filter ss_transfer link_samples)) = 1 \<and>
   pa_partial (scan_packets link_config link_wave Ns (filter ss_transfer link_samples)) = 1"
proof -
  let ?ts = "filter ss_transfer link_samples"
  let ?key = "\<lambda>i. packet_key link_config (?ts ! i)"
  have packets: "map pk_beats (ordered_packets (scan_packets link_config link_wave Ns ?ts)) = [[0, 1], [2]]" by code_simp
  have "sc_allow_interleaving link_config = False" by code_simp
  then have key: "?key = (\<lambda>i. [])" by (simp add: packet_key_def)
  have len: "length ?ts = 3" by code_simp
  have run: "channel_run ?key (length ?ts) [] = [0, 1, 2]" by (simp add: channel_run_def key len upt_rec)
  have mine: "filter (of_key ?key []) xs = xs" for xs by (simp add: key of_key_def)
  have "pa_complete (scan_packets link_config link_wave Ns ?ts) = 1" "pa_partial (scan_packets link_config link_wave Ns ?ts) = 1" by code_simp+
  then show ?thesis
    using stream_packets_exact [OF link_packets, of link_wave Ns ?ts "[]", unfolded Let_def run mine packets] by blast
qed

text \<open>
  Claim C11 (functional). The samples of a stream are those of the selected clock edges inside the window, each edge once
  and in order, numbered consecutively from zero and carrying the time of their edge. At every sample a transfer is valid,
  the packet marks belong to transfers, and unless the levels after the edge are joined with those before it a valid cycle
  is either a transfer or a stall.
\<close>

theorem stream_samples_exact:
  assumes "scan_stream_samples wave c k lo hi format = Inr (samples, complete)"
  shows "map ss_time_idx samples = filter (sampled_edge c k wave lo hi) (clock_time_indices wave k) \<and>
    map ss_cycle samples = [0..<length samples] \<and> list_all (\<lambda>s. ss_time s = wf_time_at wave (ss_time_idx s) \<and> flags_ok (joins_levels c k) s) samples"
proof -
  have "sorted_wrt (<) (clock_time_indices wave k)" by (simp add: clock_time_indices_def strict_sorted_list_of_set)
  from sample_loop_exact [OF assms [unfolded scan_stream_samples_def] this] show ?thesis by (simp add: list_all_iff)
qed

theorem stream_samples_exact_witness:
  "map ss_time_idx link_samples = [1, 3, 5, 7] \<and> map ss_cycle link_samples = [0, 1, 2, 3]"
proof -
  have "length link_samples = 4" by code_simp
  then show ?thesis using stream_samples_exact [OF link_scanned] by (simp add: link_edges upt_rec)
qed

text \<open>
  Claim C31 (functional). The stall windows of a stream are the maximal runs of stalled samples: together they hold every
  stalled sample once and in order and no other one, each has at least one sample, and two of them never touch.
\<close>

theorem stream_stalls_exact:
  "let ws = stall_windows samples 0 in
     concat (map window_cells ws) = filter (\<lambda>i. ss_stall (samples ! i)) [0..<length samples] \<and>
     list_all (\<lambda>(a, b). a \<le> b) ws \<and> successively (\<lambda>(a, b) (a', b'). Suc b < a') ws"
  using stall_windows_ok [of samples 0] by (auto simp: windows_ok_def Let_def list_all_iff)

text \<open>
  Claim C12 (safety). A field filter decides only what is certain: when it accepts or rejects a field of at most 64 bits some
  of which are unknown, by a value and a mask of at most 64 bits, it gives the same answer for every field that agrees on the known bits, whatever the unknown ones are.
\<close>

theorem stream_filter_sound:
  assumes "stream_field_filter_result (logic_value_json (logic_value_from_bits b w) format) rule = Inr r" "r \<noteq> Unresolved"
    "list_all2 bit_le b b'" "b \<noteq> []" "length b \<le> 64" "short_literal rule ''value''" "short_literal rule ''mask''"
  shows "stream_field_filter_result (logic_value_json (logic_value_from_bits b' w) format) rule = Inr r"
  using filter_result_le [OF assms] .

definition nibble_rule :: json where
  "nibble_rule = JObject [(''mode'', JString ''mask''), (''value'', JString ''4'b1010''), (''mask'', JString ''4'b1100'')]"

theorem stream_filter_sound_witness:
  "stream_field_filter_result (logic_value_json (logic_value_from_bits ''10xx'' 4) Hex) nibble_rule = Inr Match \<and>
   stream_field_filter_result (logic_value_json (logic_value_from_bits ''1001'' 4) Hex) nibble_rule = Inr Match"
proof -
  have r: "stream_field_filter_result (logic_value_json (logic_value_from_bits ''10xx'' 4) Hex) nibble_rule = Inr Match" by code_simp
  have "list_all2 bit_le ''10xx'' ''1001''" by code_simp
  moreover have "short_literal nibble_rule ''value''" "short_literal nibble_rule ''mask''" by code_simp+
  ultimately show ?thesis using stream_filter_sound [OF r] r by simp
qed

text \<open>
  Claim C32 (roundtrip). The source that a loaded stream configuration keeps, and that the other actions print, is a complete
  description of it: loading it again gives the same configuration.
\<close>

theorem stream_config_roundtrip:
  assumes "parse_stream input = Inr (Inr c)"
  shows "parse_stream (config_to_json c) = Inr (Inr c)"
  using parse_stream_source [OF assms] by (simp add: config_to_json_def)

theorem stream_config_roundtrip_witness:
  "parse_stream (config_to_json link_config) = Inr (Inr link_config)"
  by (rule stream_config_roundtrip [OF link_parsed])

section \<open>Where the actions surprise\<close>

text \<open>
  With levels joined over the edge one cycle can be counted as a transfer and as a stall: the stream turned valid, was ready
  before the edge and is not ready after it.
\<close>

lemma joined_transfer_stalls:
  "let s' = flow_flags True False True (True, False, False) (False, True) s in ss_transfer s' \<and> ss_stall s'"
  by (simp add: flow_flags_def)

text \<open>A conflict of ready and back-pressure is reported without looking at valid.\<close>

lemma conflict_without_valid:
  "let s' = flow_flags True True joined (False, True, True) (False, False) s in ss_ready_bp_conflict s' \<and> \<not> ss_transfer s' \<and> \<not> ss_stall s'"
  by (simp add: flow_flags_def)

text \<open>A document that is refused has already removed the configurations it should have replaced.\<close>

definition unbalanced_load :: json where
  "unbalanced_load = JObject [(''args'', JObject [(''config'', JObject [(''streams'', JArray [JObject [(''name'', JString ''link''),
     (''signals'', JObject []), (''clock'', JString ''clk''), (''vld'', JString ''vld''), (''sop'', JString ''first'')]])])])]"

lemma refused_load_clears:
  "stream_config_load (\<lambda>p. Unreadable) (Some link_wave) [(''link'', link_config)] unbalanced_load =
     (Inr (invalid_stream_config_error ''stream link requires sop and eop to be configured together''), [])"
  by code_simp

text \<open>
  When only a channel is selected, the total counts the transfers of every channel: the answer is reported truncated although
  every matching row is returned.
\<close>

lemma channel_window_truncated:
  "\<exists>data. stream_answer wave unit False ''transfer_window'' 1000 args
     \<lparr>qv_transfers = [t, t'], qv_rows = [t], qv_stalls = [], qv_packets = [], qv_filtered = False\<rparr> = Inr (2, 1, True, data)"
  by (simp add: stream_answer_def row_limit_def Let_def)

text \<open>
  A known field of more than 64 bits never matches; with an unknown bit outside the mask the same field is compared bit by
  bit and matches.
\<close>

lemma wide_known_field_rejected:
  "stream_field_filter_result (logic_value_json (logic_value_from_bits (replicate 61 (CHR ''0'') @ ''1010'') 65) Hex) nibble_rule = Inr NoMatch \<and>
   stream_field_filter_result (logic_value_json (logic_value_from_bits (replicate 61 (CHR ''x'') @ ''1010'') 65) Hex) nibble_rule = Inr Match"
  by code_simp

text \<open>Selecting a channel of a stream whose transfers carry none raises a type error.\<close>

lemma channel_of_null: "channel_matches (Some (Some n)) JNull = Inl Type_error"
  by (simp add: channel_matches_def known_u64_def json_value_def)

end
