(* ===== verification/Waveform_Theorems.thy ===== *)
theory Waveform_Theorems
  imports Event_Actions_Properties Cursor_Actions Stream_Theorems
begin

text \<open>
  What the lemmas on lists, events and cursors amount to, applied to the stream of \<open>Stream_Theorems\<close>, and where the
  requests surprise.
\<close>

section \<open>Lists\<close>

text \<open>
  Claim C18 (roundtrip). A row of a binary list export can be read back: with enough words for the bits the row is written
  without leaving the vectors, has the announced size, and its words give the time and, bit by bit, the value and whether
  it is known.
\<close>

theorem list_export_row_roundtrip:
  assumes "length bits \<le> 64 * n"
  shows "\<exists>row. write_logic_row t bits n = Inr row \<and> length row = 8 * (1 + 2 * n) \<and> read_logic_row row n (length bits) = (t, map plain_state bits)"
  using write_logic_row_read [OF assms] .

theorem list_export_row_roundtrip_witness:
  "\<exists>row. write_logic_row 258 ''1xH0'' 1 = Inr row \<and> length row = 24 \<and> read_logic_row row 1 4 = (258, ''1x10'')"
proof -
  have "map plain_state ''1xH0'' = ''1x10''" by code_simp
  then show ?thesis using list_export_row_roundtrip [of "''1xH0''" 1 258] by (simp add: eval_nat_numeral)
qed

text \<open>
  Claim C16 (functional). The first change of a list is the earliest difference: when the changes of every listed signal come
  in the order of time, a change is reported exactly if some listed signal ever differs from its value at the begin; the
  reported time is the earliest at which one does, and the reported signals are those that differ at that time, in the order
  of the list.
\<close>

theorem list_first_change_exact:
  assumes "answer_all (signal_candidate wave lo hi) signals = Inr (Inr css)" "list_all (times_ordered wave) signals"
  shows "let cs = concat css; t = first_change_time hi cs in
    (cs \<noteq> [] \<longleftrightarrow> (\<exists>s \<in> set signals. \<exists>u. value_differs wave lo hi s u)) \<and>
    (\<forall>s \<in> set signals. \<forall>u. value_differs wave lo hi s u \<longrightarrow> t \<le> u) \<and>
    map cc_signal (first_changes hi cs) = filter (\<lambda>s. value_differs wave lo hi s t) signals \<and> (cs \<noteq> [] \<longrightarrow> first_changes hi cs \<noteq> [])"
  unfolding Let_def using first_change_exact [OF assms] by blast

theorem list_first_change_exact_witness:
  "filter (\<lambda>s. value_differs link_wave 0 7 s 2) [''rdy'', ''vld'', ''first''] = [''rdy'', ''first'']"
proof -
  let ?css = "[[\<lparr>cc_signal = ''rdy'', cc_time = 2, cc_before = bits_text ''1'', cc_after = bits_text ''0'', cc_width = 1\<rparr>], [],
    [\<lparr>cc_signal = ''first'', cc_time = 2, cc_before = bits_text ''1'', cc_after = bits_text ''0'', cc_width = 1\<rparr>]]"
  have found: "answer_all (signal_candidate link_wave 0 7) [''rdy'', ''vld'', ''first''] = Inr (Inr ?css)" by code_simp
  have times: "list_all (times_ordered link_wave) [''rdy'', ''vld'', ''first'']" by code_simp
  have "first_change_time 7 (concat ?css) = 2" "map cc_signal (first_changes 7 (concat ?css)) = [''rdy'', ''first'']" by code_simp+
  then show ?thesis using list_first_change_exact [OF found times] by (simp only: Let_def)
qed

text \<open>
  Claim C17 (invariant). Through any sequence of requests that create, load, extend and shorten lists, every list holds
  distinct non-empty names of signals that the waveform has; so a list that exists always validates.
\<close>

theorem list_requests_valid:
  assumes "m = foldl (list_serve wave) [] reqs" "list_get n m = Some l"
  shows "n \<noteq> [] \<and> distinct (sl_signals l) \<and> [] \<notin> set (sl_signals l) \<and> list_all (\<lambda>s. wf_find_signal wave s \<noteq> 0) (sl_signals l) \<and>
    list_validate_handler (Some wave) m (JObject [(''args'', JObject [(''name'', JString n)])]) =
      Inr (ok_response [(''name'', JString n), (''all_found'', JBool True)]
        [(''signals'', JArray (map (\<lambda>s. JObject [(''signal'', JString s), (''status'', JString ''ok'')]) (sl_signals l)))])"
proof -
  have known: "lists_known wave m" using requests_known assms(1) by simp
  have "signal_list_ok n l" "sl_created_from l = ''user''" "\<forall>s \<in> set (sl_signals l). wf_find_signal wave s \<noteq> 0"
    using lists_knownD [OF known] assms(2) by (simp_all add: list_get_def)
  then show ?thesis using validate_known [OF known assms(2)] by (auto simp: signal_list_ok_def from_file_def starts_with_def list_all_iff)
qed

definition pair_requests :: "list_request list" where
  "pair_requests = [List_create (JObject [(''args'', JObject [(''name'', JString ''pair''), (''signals'', JArray [JString ''rdy'', JString ''vld'', JString ''rdy''])])]),
     List_delete (JObject [(''args'', JObject [(''name'', JString ''pair''), (''index'', JUnsigned 2)])])]"

theorem list_requests_valid_witness:
  "\<exists>l. list_get ''pair'' (foldl (list_serve link_wave) [] pair_requests) = Some l \<and> sl_signals l = [''rdy''] \<and> wf_find_signal link_wave ''rdy'' \<noteq> 0"
proof -
  have l: "list_get ''pair'' (foldl (list_serve link_wave) [] pair_requests) = Some \<lparr>sl_name = ''pair'', sl_signals = [''rdy''], sl_created_from = ''user''\<rparr>"
    by code_simp
  then show ?thesis using list_requests_valid [OF refl l] by simp
qed

section \<open>Events\<close>

text \<open>
  Claim C13 (functional). A search for events that returns goes through the samples, those of the given change times of
  the clock (in their order, with repetitions) that lie in the window and have a selected clock edge, up to the limit on samples (and, when only the first event is asked for, up to that event). It
  reports in order exactly those samples at which the configured reset is released and the expression is known and has
  a bit set, only the first of them when that is asked for. The counts are those of the samples gone through and of the
  events reported, and the search is complete exactly when there are no more samples than the limit, or the first event
  was found within it. Samples and events are described from the waveform: the time bounds, the last bit of clock and
  reset, and the value of the expression.
\<close>

theorem event_find_exact:
  assumes "event_loop s tis event_found_init = Inr f"
  shows "let samples = filter (sample_time s) tis; seen = take (es_max_samples s) samples; events = filter (event_time s) seen in
    list_all2 (\<lambda>ti row. event_row s ti = Inr row) (if es_first_only s then take 1 events else events) (ef_events f) \<and>
    ef_total f = length (ef_events f) \<and>
    ef_samples f = length (if es_first_only s then up_to_first (event_time s) seen else seen) \<and>
    (ef_complete f \<longleftrightarrow> es_first_only s \<and> events \<noteq> [] \<or> length samples \<le> es_max_samples s)"
proof (cases "es_first_only s")
  case True
  then show ?thesis using event_loop_first [OF assms] by (simp add: event_found_init_def rows_of_def event_edge_iff [abs_def] Let_def)
next
  case False
  then show ?thesis using event_loop_all [OF assms] by (simp add: event_found_init_def rows_of_def event_edge_iff [abs_def] Let_def)
qed

definition ready_search :: event_search where
  "ready_search = \<lparr>es_wave = link_wave, es_clock = 1, es_edge = ''posedge'', es_point = Before, es_begin = 0, es_end = 7, es_reset = None,
     es_expr = Binary ''&&'' (Signal ''vld'') (Signal ''rdy''), es_signals = JObject [(''r'', JString ''rdy'')], es_fields = JObject [], es_format = Bin,
     es_unit = Ns, es_max_samples = 10, es_first_only = False\<rparr>"

definition ready_found :: "bool \<Rightarrow> event_found" where
  "ready_found first =
     (case event_loop (ready_search\<lparr>es_first_only := first\<rparr>) [0, 1, 2, 3, 4, 5, 6, 7] event_found_init of
        Inr f \<Rightarrow> f | Inl e \<Rightarrow> event_found_init)"

theorem event_find_exact_witness:
  "ef_samples (ready_found False) = 4 \<and> length (ef_events (ready_found False)) = 3 \<and> ef_complete (ready_found False) \<and>
   ef_samples (ready_found True) = 1 \<and> length (ef_events (ready_found True)) = 1 \<and> ef_complete (ready_found True)"
proof -
  let ?tis = "[0, 1, 2, 3, 4, 5, 6, 7]" and ?s = "\<lambda>first. ready_search\<lparr>es_first_only := first\<rparr>"
  have f: "event_loop (?s False) ?tis event_found_init = Inr (ready_found False)"
    "event_loop (?s True) ?tis event_found_init = Inr (ready_found True)" by code_simp+
  have samples: "filter (sample_time (?s first)) ?tis = [1, 3, 5, 7]" for first by (cases first; simp only:) code_simp+
  have events: "filter (event_time (?s False)) (take (es_max_samples (?s False)) [1, 3, 5, 7]) = [1, 5, 7]"
    "filter (event_time (?s True)) (take (es_max_samples (?s True)) [1, 3, 5, 7]) = [1, 5, 7]"
    "up_to_first (event_time (?s True)) (take (es_max_samples (?s True)) [1, 3, 5, 7]) = [1]" by code_simp+
  have m: "es_max_samples (?s first) = 10" "es_first_only (?s first) = first" for first by (simp_all add: ready_search_def)
  from event_find_exact [OF f(1), unfolded Let_def samples events(1)] event_find_exact [OF f(2), unfolded Let_def samples events(2,3)]
  show ?thesis by (auto simp: m dest: list_all2_lengthD)
qed

text \<open>
  Claim C33 (roundtrip). An event configuration that is shown by a list request can be loaded again: without its name, which
  is not a member of a configuration document, it is accepted and gives the same configuration.
\<close>

theorem event_config_reload:
  assumes "normalize_event_config (Some wave) name input = Inr (Inr config)"
  shows "normalize_event_config (Some wave) name (JObject (filter (\<lambda>(k, v). k \<noteq> ''name'') (object_members config))) = Inr (Inr config)"
  using normalize_reload [OF assms] .

definition nibble_event :: json where
  "nibble_event = JObject [(''signals'', JObject [(''v'', JString ''vld''), (''r'', JString ''rdy'')]), (''clock'', JString ''clk''),
     (''fields'', JObject [(''low'', JString ''v[3:0]'')])]"

definition nibble_config :: json where
  "nibble_config = JObject [(''name'', JString ''e''), (''clock'', JString ''clk''), (''edge'', JString ''negedge''),
     (''signals'', JObject [(''r'', JString ''rdy''), (''v'', JString ''vld'')]),
     (''fields'', JObject [(''low'', JObject [(''signal'', JString ''v''), (''left'', JInteger 3), (''right'', JInteger 0)])])]"

theorem event_config_reload_witness:
  "normalize_event_config (Some link_wave) ''e'' (JObject (tl (object_members nibble_config))) = Inr (Inr nibble_config)"
proof -
  have "normalize_event_config (Some link_wave) ''e'' nibble_event = Inr (Inr nibble_config)" by code_simp
  from event_config_reload [OF this] show ?thesis by (simp add: nibble_config_def)
qed

section \<open>Cursors\<close>

text \<open>
  A cursor that was set is found, at the time it was set to and under its name, and setting it does not change which one is
  active.
\<close>

lemma cursor_set_then_get:
  assumes "cursor_set_handler (Some wave) m (JObject [(''args'', JObject [(''name'', JString n), (''time'', JString text)])]) = (Inr r, m')"
    "aw_parse_time wave text False = Inr t" "n \<noteq> []" "omap_ok (cm_cursors m)"
  shows "(\<exists>c. cursor_get n m' = Some c \<and> cu_time c = t) \<and> cursor_active_name m' = cursor_active_name m"
  using assms by (auto simp: cursor_set_handler_def settle_def with_wave_def abind_def request_args_def request_name_def json_value_def string_at_key_def
      cursor_render_unit_def parse_time_render_unit_def cursor_set_def cursor_get_def cursor_active_name_def omap_laws Let_def split: option.splits)

section \<open>Where the requests surprise\<close>

text \<open>Loading an event configuration does not ask for a waveform and uses it all the same.\<close>

lemma event_load_without_waveform: "normalize_event_config None ''e'' nibble_event = Inl Bad_access"
  by code_simp

text \<open>A clock that changes twice at one time index gives two samples of one edge.\<close>

lemma repeated_edge_found_twice:
  "case event_loop ready_search [1, 1] event_found_init of Inr f \<Rightarrow> ef_samples f = 2 \<and> length (ef_events f) = 2 \<and> hd (ef_events f) = last (ef_events f) | _ \<Rightarrow> False"
  by code_simp

text \<open>A slice of a field is taken for the whole field.\<close>

lemma field_slice_ignored:
  "bind_event_expression (JObject [(''v'', JString ''vld'')]) (JObject [(''low'', JObject [(''signal'', JString ''v''), (''left'', JInteger 7), (''right'', JInteger 4)])])
     (Slice ''low'' 1 0) = Inr (Inr (Slice ''vld'' 7 4))"
  by code_simp

text \<open>
  A field is cut out of the printed value of its signal. In hexadecimal a digit with an unknown bit is unknown as a whole, so a
  known bit is reported unknown; in decimal a signal of more than 64 bits cannot be read back.
\<close>

definition high_field :: "string \<times> json" where
  "high_field = (''high'', JObject [(''signal'', JString ''v''), (''left'', JInteger 3), (''right'', JInteger 3)])"

lemma field_loses_known_bit:
  "event_field_value (ready_search\<lparr>es_format := Hex\<rparr>) [(''v'', render_value_json ''10x1'' 4 Hex)] high_field = Inr [(''high'', render_value_json ''x'' 1 Hex)]"
  by code_simp

lemma field_of_wide_signal:
  "event_field_value (ready_search\<lparr>es_format := Dec\<rparr>) [(''v'', render_value_json (replicate 65 (CHR ''0'')) 65 Dec)] high_field = Inl (Raised Shift_overflow)"
  by code_simp

text \<open>The answer to a creation counts repeated signals, which the list does not hold.\<close>

lemma create_counts_repeated:
  "case list_create_handler (Some link_wave) [] (JObject [(''args'', JObject [(''name'', JString ''l''), (''signals'', JArray [JString ''clk'', JString ''clk''])])]) of
     (r, m) \<Rightarrow> rbind r (\<lambda>r. Inr (get_member (get_member r ''summary'') ''signal_count'')) = Inr (JUnsigned 2) \<and>
       map_option sl_signals (list_get ''l'' m) = Some [''clk'']"
  by code_simp

text \<open>A load that fails half way keeps what it has loaded and erased.\<close>

definition half_load :: json where
  "half_load = JObject [(''args'', JObject [(''config'', JObject [(''lists'', JArray [
     JObject [(''name'', JString ''l''), (''signals'', JArray [JString ''clk''])], JObject [(''name'', JString ''''), (''signals'', JArray [])]])])])]"

lemma failed_load_keeps_lists:
  "case list_load_handler (\<lambda>p. Unreadable) (Some link_wave) [] half_load of
     (r, m) \<Rightarrow> r = Inr (error_response ''ACTION_FAILED'' ''list name is required'') \<and> list_names m = [''l'']"
  by code_simp

text \<open>A refused request to use a cursor makes it active.\<close>

lemma refused_use_activates:
  "case cursor_use_handler (Some link_wave) (snd (cursor_set ''c'' 5 cursor_manager_init))
      (JObject [(''args'', JObject [(''name'', JString ''c''), (''render_time_unit'', JString ''fortnight'')])]) of
     (r, m) \<Rightarrow> rbind r (\<lambda>r. Inr (get_member r ''ok'')) = Inr (JBool False) \<and> cursor_active_name m = ''c''"
  by code_simp

text \<open>An export to a file reports every event found as returned, whatever the limit on the events of the file.\<close>

lemma export_counts_left_out:
  "case written_export \<lparr>ef_create_directories = (\<lambda>p. None), ef_opens = (\<lambda>p. True), ef_writes = (\<lambda>p n. True), ef_dump = (\<lambda>j. [])\<rparr>
      (JObject [(''output'', JObject [(''path'', JString ''out.json'')])]) [JObject []] JNull [] [(''total_count'', JUnsigned 9)] of
     Inr (Inr (r, files)) \<Rightarrow> get_member (get_member r ''summary'') ''returned_count'' = JUnsigned 9 \<and>
       get_member (get_member r ''summary'') ''response_truncated'' = JBool False
   | _ \<Rightarrow> False"
  by code_simp

end
