(* ===== verification/Signal_Theorems.thy ===== *)
theory Signal_Theorems
  imports Signal_Analysis_Properties Waveform_Theorems
begin

text \<open>
  What the lemmas on the analysis of signals amount to, and where its counts surprise.
\<close>

section \<open>Properties\<close>

text \<open>
  Claim C15 (refinement). The rows collected for a window represent the values of the signal: every row is a value the signal
  takes at the begin of the window or by a change, the rows are in the order of time, no two neighbours have the same value,
  and the last row up to a time at which the signal has a sample shows that sample.
\<close>

theorem signal_changes_exact:
  assumes "lo \<le> aw_max_time wave" "aw_min_time wave \<le> hi" "times_in_order wave ref"
  shows "let rows = collect_changes wave ref lo hi; S = window_samples wave ref lo hi in
    (\<forall>r \<in> set rows. (rw_time r, rw_value r) \<in> set S) \<and> sorted (map rw_time rows) \<and>
    successively (\<lambda>r r'. \<not> value_equal (rw_value r) (rw_value r')) rows \<and> (\<forall>(t, v) \<in> set S. row_shows rows t v)"
  unfolding Let_def by (intro conjI collect_changes_rows assms)

theorem signal_changes_exact_witness:
  "row_shows (collect_changes link_wave 3 0 7) 4 (bits_text ''1'') \<and> length (collect_changes link_wave 3 0 7) = 3"
proof -
  have ok: "0 \<le> aw_max_time link_wave" "aw_min_time link_wave \<le> 7" "times_in_order link_wave 3" by code_simp+
  have "(4, bits_text ''1'') \<in> set (window_samples link_wave 3 0 7)" "length (collect_changes link_wave 3 0 7) = 3" by code_simp+
  then show ?thesis using signal_changes_exact [OF ok] unfolding Let_def by blast
qed

text \<open>
  A verification of an unknown state passes exactly when every value of the signal in the window matches,
  the one at its begin and those of its changes.
\<close>

theorem signal_verify_exact:
  assumes "lo \<le> aw_max_time wave" "aw_min_time wave \<le> hi" "times_in_order wave ref"
    "\<forall>(t, v) \<in> set (window_samples wave ref lo hi). wv_kind v = BitVector"
  shows "snd (verify_rows mode c (collect_changes wave ref lo hi) 0) = None \<longleftrightarrow>
    (\<forall>(t, v) \<in> set (window_samples wave ref lo hi). if mode = ''exact'' then all_bits (wv_text v) c else contains_bit (wv_text v) c)"
  using verified_everywhere [OF collect_changes_rows(1,4) [OF assms(1-3)] assms(4), of mode c 0]
  by (simp add: value_matches_def row_matches_def)

theorem signal_verify_exact_witness:
  "\<not> (\<forall>(t, v) \<in> set (window_samples link_wave 3 0 7). all_bits (wv_text v) (CHR ''1''))"
proof -
  have ok: "times_in_order link_wave 3" "\<forall>(t, v) \<in> set (window_samples link_wave 3 0 7). wv_kind v = BitVector" by code_simp+
  have "snd (verify_rows ''exact'' (CHR ''1'') (collect_changes link_wave 3 0 7) 0) \<noteq> None" by code_simp
  moreover have "0 \<le> aw_max_time link_wave" "aw_min_time link_wave \<le> 7" by code_simp+
  ultimately show ?thesis using signal_verify_exact [OF _ _ ok, of "''exact''" "CHR ''1''"] by simp
qed

text \<open>
  Claim C14 (equivalence). The one-pass statistics over clock edges are those of the sequence of samples at the selected edges,
  up to the limit: the counts of known, unknown, high and low samples, the changes between neighbouring known values, the
  least and the greatest value, the number of runs of high samples and the length of the longest; and the analysis is cut
  exactly when there are more edges than the limit.
\<close>

theorem clock_statistics_exact:
  "let a = clock_statistics wave ref width clock w edge point limit;
       edges = filter (window_edge wave clock (wa_begin w) (wa_end w) edge) (distinct_indices (wf_time_indices_of wave clock));
       xs = map (\<lambda>ti. (wf_time_at wave ti, point_value wave ref point ti)) (take limit edges);
       ks = known_bits xs
   in st_samples a = length xs \<and> st_known a = length ks \<and> st_unknown a = length xs - length ks \<and>
      st_high_cycles a = length (filter high_bits ks) \<and> st_low_cycles a = length (filter (\<lambda>b. CHR ''1'' \<notin> set b) ks) \<and>
      st_transitions a = length (remdups_adj ks) - 1 \<and> st_first_bits a = (if ks = [] then None else Some (hd ks)) \<and>
      (ks = [] \<or> st_final_bits a = last ks \<and> st_min_bits a = Min (set ks) \<and> st_max_bits a = Max (set ks)) \<and>
      st_bursts a = run_count (levels xs) \<and> longest_run (levels xs) (st_max_high a) \<and> st_truncated a = (limit < length edges)"
proof -
  define edges where "edges = filter (window_edge wave clock (wa_begin w) (wa_end w) edge) (distinct_indices (wf_time_indices_of wave clock))"
  define xs where "xs = map (\<lambda>ti. (wf_time_at wave ti, point_value wave ref point ti)) (take limit edges)"
  define b where "b = take_all width xs statistics_init"
  have "clock_statistics wave ref width clock w edge point limit = close_run (if limit < length edges then b\<lparr>st_truncated := True\<rparr> else b)"
    unfolding clock_statistics_def using statistics_loop_take [of statistics_init limit]
    by (simp add: Let_def edges_def xs_def b_def statistics_init_def)
  then have a: "clock_statistics wave ref width clock w edge point limit = (close_run b)\<lparr>st_truncated := limit < length edges\<rparr>"
    using untruncated [of width statistics_init xs] by (auto simp: close_run_def b_def statistics_init_def)
  show ?thesis unfolding Let_def edges_def [symmetric] xs_def [symmetric] a
    using sample_counts [of width xs] sample_bits [of width xs] sample_runs [of width xs] close_run_longest [OF b_def]
    unfolding Let_def b_def [symmetric] by (auto simp: close_run_def)
qed

section \<open>Where the counts surprise\<close>

text \<open>A weak or uninitialised state counts as known and low, while the value shown for it is not known.\<close>

lemma weak_high_counts_low:
  "let a = take_sample 1 0 (Some (bits_text ''H'')) statistics_init in
     st_known a = 1 \<and> st_low_cycles a = 1 \<and> get_member (typed_logic_value (bits_text ''H'') 1 Bin) ''known'' = JBool False"
  by code_simp

text \<open>A value of several bits that is not zero is neither high nor low, but high in the activity over value changes.\<close>

lemma nonzero_bus_not_counted:
  "(let a = take_sample 2 0 (Some (bits_text ''10'')) statistics_init in st_known a = 1 \<and> st_low_cycles a = 0 \<and> st_high_cycles a = 0) \<and>
   row_high \<lparr>rw_time = 0, rw_value = bits_text ''10''\<rparr>"
  by code_simp

text \<open>A signal without a value at the begin of the window: its first change is shown as the initial value and not counted.\<close>

definition late_wave :: stream_wave where
  "late_wave = link_wave\<lparr>wf_sampled_value_at := (\<lambda>r ti point. map_option
      (\<lambda>t. \<lparr>sv_value = bits_text t, sv_time_idx = ti, sv_element = 0, sv_elements_at_time = 1, sv_time_match = True\<rparr>) (observe [(3, ''1'')] ti point)),
     wf_time_indices_of := (\<lambda>r. [3])\<rparr>"

lemma late_change_is_initial:
  "let r = change_statistics late_wave ''s'' 1 1 \<lparr>wa_begin = 0, wa_end = 7, wa_unit = Ns, wa_format = Bin\<rparr> 10 in
     get_member (get_member r ''data'') ''includes_initial_value'' = JBool True \<and>
     get_member (get_member r ''summary'') ''actual_transition_count'' = JUnsigned 0 \<and> collect_changes late_wave 1 0 7 = [\<lparr>rw_time = 3, rw_value = bits_text ''1''\<rparr>]"
  by code_simp

end
