(* ===== verification/Spec2Isabelle.thy ===== *)
theory Spec2Isabelle
  imports
    Expr_Print Expr_Semantics Clock_Sampling Cursor_Manager List_Manager Design_Query_Index
    Session_Registry_Listing Sha256_Properties Axi_Theorems Signal_Theorems
begin

text \<open>
  A verification development for \<open>xdebug_fst\<close>, a debugging server for hardware designs. The program opens a waveform (an
  FST file, through the \<open>wellen\<close> library) and a design database, keeps them in sessions, and answers requests: values of
  signals and expressions, clock samples, drivers and loads, cursors and signal lists.

  \<^bold>\<open>The parts and their theories.\<close> A request handler reads the waveform through the interface of
  \<open>backend/waveform_backend.h\<close>, evaluates expressions over it, samples it at clock edges, and resolves names in the design
  database; the session registry finds the server of a session.

  \<^item> \<open>Cxx_Prelude\<close>, \<open>Json_Value\<close>, \<open>Ordered_Map\<close>: machine integers, faults, characters and numbers of the C library, JSON
    values, and \<open>std::map\<close> with the locales \<open>ordered_map\<close> and \<open>named_registry\<close>.
  \<^item> \<open>Logic_Value\<close> (\<open>core/value/logic_value.cpp\<close>): four-state values, rendering and parsing of literals.
  \<^item> \<open>Expr_Parser\<close>, \<open>Expr_Eval\<close>, \<open>Expr_Print\<close>, \<open>Expr_Semantics\<close> (\<open>waveform/expr/expr_eval.cpp\<close>): the recursive-descent
    parser and the evaluator, operator by operator. The parser is total (with fuel the length of the text plus one per
    level is enough), printing and parsing are inverse, evaluation is total for sizes up to 64 bits (division by zero and
    wide shifts are faults that the guards exclude), arithmetic is modulo a power of two, and for all operators but unary minus,
    case equality and the wildcards resolving unknown bits never changes a known result bit. The memo table of an evaluation
    changes nothing.
  \<^item> \<open>Waveform_Interface\<close> (\<open>backend/waveform_backend.h\<close>): the interface as a record of functions.
  \<^item> \<open>Wellen_Backend\<close>, \<open>Wellen_Sampling\<close>, \<open>Wellen_State\<close>, \<open>Wellen_Properties\<close> (\<open>backend/wellen_fst_backend.cpp\<close>): the
    backend with its handle table, name index, packed selections and caches. The C interfaces are the record \<open>capi\<close>, with
    their documented behaviour as hypotheses. Samples refine the change lists, selections follow their base signal, and in every
    reachable state the handles, the indexes and the cached change lists are right.
  \<^item> \<open>Clock_Sampling\<close> (\<open>waveform/clock_sampling.cpp\<close>): clock edges and the samples around them.
  \<^item> \<open>Cursor_Manager\<close> and \<open>List_Manager\<close> (\<open>waveform/cursor\<close>, \<open>waveform/list\<close>): both interpret \<open>named_registry\<close>; the cursor
    manager refines a map through any sequence of operations, the list manager keeps its invariant and loads list files.
  \<^item> \<open>Design_Interface\<close>, \<open>Binary_Design\<close>, \<open>Binary_Design_Safety\<close>, \<open>Binary_Design_Queries\<close>, \<open>Binary_Design_Properties\<close>
    (\<open>backend/binary_design_backend.cpp\<close>): the mapped design database. Opening never reads outside the file whatever its bytes
    are, and after validation no query can fail; the locale \<open>design_contract\<close> is what clients rely on and is interpreted on the
    validated database.
  \<^item> \<open>Design_Query_Index\<close> (\<open>backend/design_query_index.cpp\<close>): the one-pass indexes answer like a search of the whole design.
  \<^item> \<open>Path_Utils\<close>, \<open>Session_Contract\<close>, \<open>Session_Contract_Properties\<close> (\<open>core/common/path_utils.cpp\<close>, \<open>core/session/*\<close>): session
    names, paths and the JSON contract of records, registry documents and endpoints, with round trips and the exact
    condition of acceptance.
  \<^item> \<open>Session_Registry\<close>, \<open>Session_Registry_Properties\<close>, \<open>Session_Registry_Listing\<close> (\<open>session/session_registry.cpp\<close>,
    \<open>session/session_paths.cpp\<close>): the registry over an explicit file system; every answer of the operating system is an argument.
    The operations refine the lifecycle of a session, transitions labelled with operation and result, under compare-and-swap on
    its generation, and without failures a session runs through it and leaves its closed record.
  \<^item> \<open>Sha256\<close>, \<open>Sha256_Properties\<close> (\<open>core/common/sha256.cpp\<close>): the digest, streaming against whole messages.
  \<^item> \<open>Json_Access\<close>, \<open>Apb_Scan\<close>, \<open>Apb_Handlers\<close>, \<open>Apb_Properties\<close>, \<open>Apb_Theorems\<close>
    (\<open>engine/actions/protocol/apb_actions.cpp\<close>): transfers on an APB bus and the six requests about them. The scan records exactly
    what the clock edges show, filters compare numbers, the requests agree with each other, and a cursor stays in range through
    any sequence of requests.
  \<^item> \<open>Transfer_Cursors\<close>: the locale \<open>transfer_counts\<close>, what the cursors of both buses rely on, interpreted on both.
  \<^item> \<open>Axi_Scan\<close>, \<open>Axi_Assembly\<close>, \<open>Axi_Reads\<close>, \<open>Axi_Handshakes\<close>, \<open>Axi_Handlers\<close>, \<open>Axi_Analysis\<close>, \<open>Axi_Counts\<close>, \<open>Axi_Cursor\<close>,
    \<open>Axi_Theorems\<close> (\<open>engine/actions/protocol/axi_actions.cpp\<close>): handshakes on the five channels of an AXI bus, their assembly
    into transactions, and the requests about them. The order \<open>std::sort\<close> gives to equal times is a parameter. The queues per
    identifier compute the pairing the protocol asks for, no request is lost, and the sweeps over clock edges count the
    transactions open at each of them.
  \<^item> \<open>Stream_Scan\<close>, \<open>Stream_Packets\<close>, \<open>Stream_Query\<close>, \<open>Stream_Handlers\<close>, \<open>Stream_Properties\<close>, \<open>Stream_Theorems\<close>
    (\<open>engine/actions/stream/stream_actions.cpp\<close>): streams of valid/ready transfers, their configurations, samples, packets,
    stalls and field filters, and the seven requests about them with the files an export writes. The samples are the selected
    clock edges, the packets are the cut of the transfers at their first and last beats, stall windows are maximal runs, a
    filter on at most 64 bits decides only what is certain whatever the unknown bits are, and a configuration is read back from its source.
  \<^item> \<open>Action_Common\<close>, \<open>List_Actions\<close>, \<open>List_Actions_Properties\<close>, \<open>Event_Actions\<close>, \<open>Event_Actions_Properties\<close>, \<open>Cursor_Actions\<close>,
    \<open>Waveform_Theorems\<close> (\<open>engine/actions/waveform/list_event_cursor_actions.cpp\<close>): the requests on signal lists, events and
    cursors. Lists hold known signals through any sequence of requests, the first change is the earliest, a row of a binary
    export can be read back, and the event search reports exactly the clock edges of the window at which reset is released and its expression holds. What the
    operating system answers to an export is the record \<open>export_fs\<close>.
  \<^item> \<open>Signal_Analysis\<close>, \<open>Signal_Analysis_Properties\<close>, \<open>Signal_Theorems\<close> (\<open>engine/actions/waveform/signal_analysis_actions.cpp\<close>):
    statistics, stability, verification of unknown states and anomalies of signals. The collected rows are the values of the
    signal in the window, a verified state holds at every one of them, and the statistics over clock edges are those of the
    sequence of samples.

  \<^bold>\<open>Conventions.\<close> A C++ object is a record and its methods are functions that return the changed record; \<open>nullptr\<close>, \<open>false\<close>
  with an error text and exceptions are values of option and sum types; undefined behaviour and reads out of bounds are
  faults or \<open>None\<close>. Code outside the C++ sources is a parameter: the waveform library behind the thin Rust wrappers
  \<open>wellen_capi\<close> and \<open>wellenx_capi\<close> (\<open>capi\<close>), the file system and the operating system (\<open>os\<close>, \<open>world\<close>), and JSON text (\<open>codec\<close>).

  \<^bold>\<open>Limits of the model.\<close> Texts have fewer than \<open>2^31\<close> characters, so that a size cast to \<open>int\<close> is the size. A read of a file
  that fails midway, a temporary file that cannot be unlinked, and a library that writes more change indices than it announces
  are not modelled.

  \<^bold>\<open>Loops.\<close> Loops over data are structural or have a measure. Only the expression parser has fuel; its theorems state
  that the fuel it is started with is enough.

  \<^bold>\<open>Not modelled.\<close> The other request handlers of \<open>engine/actions\<close>, which call the modelled components and build responses; the schema
  validator; the session service, sockets and the server loop; response rendering; the backend that loads a shared
  object; and time texts, which use \<open>long double\<close>. The next steps are the waveform handlers.
\<close>

end
